(* ===== verification/Prelude.thy ===== *)
theory Prelude
  imports "HOL-Library.Code_Target_Nat" Main "HOL-Library.Word" "HOL-Library.Multiset"
begin

text \<open>
  Shared vocabulary of the development: the exception classes of the program, sequencing of
  fallible computations (values of \<open>'e + 'a\<close>, \<open>Inl\<close> an exception), positional numerals
  (Python's \<open>str\<close>, \<open>int\<close>, the format specs \<open>:04d\<close>, \<open>:08x\<close>, \<open>:016x\<close> and
  \<open>bytes.hex\<close>) with their inverse, and generic list lemmas. Every lemma that the component
  theories rely on is stated once here and put into a simp set or one of the collections below.

  Python \<open>bytes\<close> are modelled by \<open>string\<close>: the HOL type \<open>char\<close> has exactly the 256 byte
  values. ASCII \<open>str\<close> values are the strings whose characters are below 128. A general Python
  \<open>str\<close> is a list of code points (\<open>pystr\<close>).
\<close>

section \<open>Collections\<close>

named_theorems result_simps \<open>rewriting of sequenced fallible computations\<close>
named_theorems result_elims \<open>inversion of successful fallible computations\<close>
named_theorems numeral_simps \<open>round trips of positional numerals\<close>

section \<open>Types and exceptions\<close>

type_synonym bytes = string
type_synonym codepoint = nat
type_synonym pystr = "nat list"

datatype exn =
    SchemaValidationError
  | PayloadValidationError
  | FrameValidationError
  | NullKeyError
  | FingerprintOverflowError
  | SegmentValidationError
  | ContractValidationError
  | ValueError
  | KeyError
  | UnicodeEncodeError
  | TypeError
  | PostgresDataValidationError
  | PostgresMetadataError
  | PostgresResultLimitError
  | PostgresLoweringError
  | PostgresReadDeadlineExceededError
  | PostgresSourceBudgetExceededError
  | UnsupportedComparisonError
  | ComparisonBudgetExceededError
  | ComparisonProtocolError
  | ScopeValueError
  | AcquisitionValidationError
  | AssertionError

section \<open>Fallible computations\<close>

definition ebind :: "'e + 'a \<Rightarrow> ('a \<Rightarrow> 'e + 'b) \<Rightarrow> 'e + 'b" where
  "ebind m k = (case m of Inl e \<Rightarrow> Inl e | Inr x \<Rightarrow> k x)"

definition require :: "bool \<Rightarrow> 'e \<Rightarrow> 'e + unit" where
  "require c e = (if c then Inr () else Inl e)"

lemma ebind_Inl [simp, result_simps]: "ebind (Inl e) k = Inl e"
  and ebind_Inr [simp, result_simps]: "ebind (Inr x) k = k x"
  by (simp_all add: ebind_def)

lemma require_True [simp, result_simps]: "require True e = Inr ()"
  and require_False [simp, result_simps]: "require False e = Inl e"
  by (simp_all add: require_def)

lemma ebind_eq_Inr_iff: "ebind m k = Inr y \<longleftrightarrow> (\<exists>x. m = Inr x \<and> k x = Inr y)"
  by (cases m) auto

lemma ebind_eq_Inl_iff:
  "ebind m k = Inl e \<longleftrightarrow> m = Inl e \<or> (\<exists>x. m = Inr x \<and> k x = Inl e)"
  by (cases m) auto

lemma require_eq_Inr_iff: "require c e = Inr u \<longleftrightarrow> c"
  by (cases c) auto

lemma require_eq_Inl_iff: "require c e = Inl e' \<longleftrightarrow> \<not> c \<and> e' = e"
  by (cases c) auto

lemmas result_iffs = ebind_eq_Inr_iff ebind_eq_Inl_iff require_eq_Inr_iff require_eq_Inl_iff

lemma ebind_InrE [result_elims]:
  assumes "ebind m k = Inr y"
  obtains x where "m = Inr x" "k x = Inr y"
  using assms by (auto simp: ebind_eq_Inr_iff)

lemma ebind_cong [fundef_cong]:
  "m = m' \<Longrightarrow> (\<And>x. m' = Inr x \<Longrightarrow> k x = k' x) \<Longrightarrow> ebind m k = ebind m' k'"
  by (cases m') auto

fun traverse :: "('a \<Rightarrow> 'e + 'b) \<Rightarrow> 'a list \<Rightarrow> 'e + 'b list" where
  "traverse f [] = Inr []"
| "traverse f (x # xs) = ebind (f x) (\<lambda>y. ebind (traverse f xs) (\<lambda>ys. Inr (y # ys)))"

lemma traverse_eq_Inr_iff:
  "traverse f xs = Inr ys \<longleftrightarrow> list_all2 (\<lambda>x y. f x = Inr y) xs ys"
  by (induction xs arbitrary: ys)
    (auto simp: ebind_eq_Inr_iff list_all2_Cons1 list_all2_Cons2)

lemma traverse_map: "traverse f (map g xs) = traverse (\<lambda>x. f (g x)) xs"
  by (induction xs) auto

lemma traverse_Inr: "(\<And>x. x \<in> set xs \<Longrightarrow> f x = Inr (g x)) \<Longrightarrow> traverse f xs = Inr (map g xs)"
  by (induction xs) auto

lemma traverse_length: "traverse f xs = Inr ys \<Longrightarrow> length ys = length xs"
  by (auto simp: traverse_eq_Inr_iff dest: list_all2_lengthD)

text \<open>The first failing check of a list decides, as in a loop that raises.\<close>

fun check_all :: "('a \<Rightarrow> 'e + unit) \<Rightarrow> 'a list \<Rightarrow> 'e + unit" where
  "check_all f [] = Inr ()"
| "check_all f (x # xs) = ebind (f x) (\<lambda>_. check_all f xs)"

lemma check_all_eq_Inr_iff: "check_all f xs = Inr u \<longleftrightarrow> (\<forall>x \<in> set xs. f x = Inr ())"
  by (induction xs) (auto simp: ebind_eq_Inr_iff)

lemma check_all_cong [fundef_cong]:
  "xs = ys \<Longrightarrow> (\<And>x. x \<in> set ys \<Longrightarrow> f x = g x) \<Longrightarrow> check_all f xs = check_all g ys"
proof (induction ys arbitrary: xs)
  case (Cons y ys)
  then show ?case by (auto intro: ebind_cong)
qed simp

section \<open>Positional numerals\<close>

fun digits_of :: "nat \<Rightarrow> nat \<Rightarrow> nat list" where
  "digits_of b n = (if b < 2 \<or> n < b then [n] else digits_of b (n div b) @ [n mod b])"

declare digits_of.simps [simp del]

definition value_of :: "nat \<Rightarrow> nat list \<Rightarrow> nat" where
  "value_of b ds = foldl (\<lambda>a d. a * b + d) 0 ds"

lemma value_of_Nil [simp]: "value_of b [] = 0"
  and value_of_snoc [simp]: "value_of b (ds @ [d]) = value_of b ds * b + d"
  by (simp_all add: value_of_def)

lemma value_of_single [simp]: "value_of b [d] = d"
  by (simp add: value_of_def)

lemma value_of_append: "value_of b (xs @ ys) = value_of b xs * b ^ length ys + value_of b ys"
proof (induction ys rule: rev_induct)
  case Nil
  then show ?case by simp
next
  case (snoc y ys)
  then show ?case by (simp flip: append_assoc add: algebra_simps)
qed

lemma value_of_Cons: "value_of b (d # ds) = d * b ^ length ds + value_of b ds"
  using value_of_append [of b "[d]" ds] by simp

lemma value_of_zeros [simp]: "value_of b (replicate k 0) = 0"
  by (induction k) (simp_all add: value_of_Cons)

lemma value_of_pad [simp]: "value_of b (replicate k 0 @ ds) = value_of b ds"
  by (simp add: value_of_append)

lemma value_digits_of [simp]: "value_of b (digits_of b n) = n"
proof (induction b n rule: digits_of.induct)
  case (1 b n)
  then show ?case
    by (cases "b < 2 \<or> n < b") (simp_all add: digits_of.simps [of b n])
qed

lemma digits_of_less: "2 \<le> b \<Longrightarrow> d \<in> set (digits_of b n) \<Longrightarrow> d < b"
proof (induction b n rule: digits_of.induct)
  case (1 b n)
  then show ?case
    by (cases "n < b") (auto simp: digits_of.simps [of b n])
qed

lemma digits_of_not_Nil [simp]: "digits_of b n \<noteq> []"
  by (subst digits_of.simps) simp

lemma digits_of_hd_pos: "0 < n \<Longrightarrow> 0 < hd (digits_of b n)"
proof (induction b n rule: digits_of.induct)
  case (1 b n)
  show ?case
  proof (cases "b < 2 \<or> n < b")
    case True
    with "1.prems" show ?thesis by (simp add: digits_of.simps [of b n])
  next
    case False
    then have "0 < n div b" by (simp add: div_greater_zero_iff)
    with False "1.IH" show ?thesis by (simp add: digits_of.simps [of b n] hd_append)
  qed
qed

lemma digits_of_length_le:
  "2 \<le> b \<Longrightarrow> 0 < k \<Longrightarrow> n < b ^ k \<Longrightarrow> length (digits_of b n) \<le> k"
proof (induction b n arbitrary: k rule: digits_of.induct)
  case (1 b n)
  show ?case
  proof (cases "n < b")
    case True
    with "1.prems" show ?thesis by (simp add: digits_of.simps [of b n])
  next
    case False
    obtain j where k: "k = Suc j" using "1.prems"(2) by (cases k) auto
    with False "1.prems" have j: "0 < j" by (cases j) auto
    have "n div b < b ^ j"
      using "1.prems" by (simp add: k less_mult_imp_div_less mult.commute)
    then have "length (digits_of b (n div b)) \<le> j"
      using False "1.prems" j by (intro "1.IH") auto
    with False "1.prems" k show ?thesis by (simp add: digits_of.simps [of b n])
  qed
qed

lemma value_of_less: "\<forall>d \<in> set ds. d < b \<Longrightarrow> value_of b ds < b ^ length ds"
proof (induction ds rule: rev_induct)
  case Nil
  then show ?case by simp
next
  case (snoc d ds)
  then have "value_of b ds + 1 \<le> b ^ length ds" and "d < b" by auto
  then have "value_of b ds * b + d < (value_of b ds + 1) * b" by simp
  also have "\<dots> \<le> b ^ length ds * b"
    using \<open>value_of b ds + 1 \<le> b ^ length ds\<close> by (intro mult_le_mono1)
  finally show ?case by (simp add: mult.commute)
qed

lemma value_of_inj:
  "length xs = length ys \<Longrightarrow> \<forall>d \<in> set xs. d < b \<Longrightarrow> \<forall>d \<in> set ys. d < b \<Longrightarrow>
   value_of b xs = value_of b ys \<Longrightarrow> xs = ys"
proof (induction xs arbitrary: ys rule: rev_induct)
  case Nil
  then show ?case by simp
next
  case (snoc x xs)
  obtain ys' y where ys: "ys = ys' @ [y]"
    using snoc.prems(1) by (cases ys rule: rev_cases) auto
  have lt: "x < b" "y < b" using snoc.prems ys by auto
  have eq: "value_of b xs * b + x = value_of b ys' * b + y"
    using snoc.prems(4) ys by simp
  then have "x = y" using lt by (metis mod_less mod_mult_self3)
  moreover have "value_of b xs = value_of b ys'" using eq \<open>x = y\<close> lt by simp
  then have "xs = ys'" using snoc.prems ys by (intro snoc.IH) auto
  ultimately show ?case using ys by simp
qed

lemma digits_of_value:
  assumes "2 \<le> b" "ds \<noteq> []" "\<forall>d \<in> set ds. d < b" "hd ds \<noteq> 0 \<or> length ds = 1"
  shows "digits_of b (value_of b ds) = ds"
  using assms
proof (induction ds rule: rev_induct)
  case Nil
  then show ?case by simp
next
  case (snoc d ds)
  show ?case
  proof (cases "ds = []")
    case True
    with snoc.prems show ?thesis by (simp add: digits_of.simps [of b d])
  next
    case False
    then have hd: "hd ds \<noteq> 0" using snoc.prems(4) by (cases ds) auto
    obtain e es where es: "ds = e # es" using False by (cases ds) auto
    have pos: "0 < value_of b ds"
      using hd snoc.prems(1) by (simp add: es value_of_Cons)
    then have "b \<le> value_of b ds * b + d" by (cases "value_of b ds") auto
    moreover have "(value_of b ds * b + d) div b = value_of b ds"
      and "(value_of b ds * b + d) mod b = d"
      using snoc.prems by simp_all
    ultimately show ?thesis
      using snoc.IH False hd snoc.prems
      by (simp add: digits_of.simps [of b "value_of b ds * b + d"])
  qed
qed

section \<open>Digits as characters\<close>

definition digit_char :: "nat \<Rightarrow> char" where
  "digit_char d = (if d < 10 then char_of (48 + d) else char_of (87 + d))"

definition char_digit :: "char \<Rightarrow> nat" where
  "char_digit c = (if (of_char c :: nat) < 58 then of_char c - 48 else of_char c - 87)"

definition is_dec :: "char \<Rightarrow> bool" where
  "is_dec c \<longleftrightarrow> 48 \<le> (of_char c :: nat) \<and> (of_char c :: nat) \<le> 57"

definition is_lower_hex :: "char \<Rightarrow> bool" where
  "is_lower_hex c \<longleftrightarrow> is_dec c \<or> 97 \<le> (of_char c :: nat) \<and> (of_char c :: nat) \<le> 102"

definition is_ascii :: "bytes \<Rightarrow> bool" where
  "is_ascii s \<longleftrightarrow> (\<forall>c \<in> set s. (of_char c :: nat) < 128)"

lemma of_char_digit_char: "d < 16 \<Longrightarrow> (of_char (digit_char d) :: nat) = (if d < 10 then 48 + d else 87 + d)"
  by (simp add: digit_char_def)

lemma char_digit_char [simp]: "d < 16 \<Longrightarrow> char_digit (digit_char d) = d"
  by (simp add: char_digit_def of_char_digit_char)

lemma is_dec_digit_char [simp]: "d < 10 \<Longrightarrow> is_dec (digit_char d)"
  by (simp add: is_dec_def of_char_digit_char)

lemma is_lower_hex_digit_char [simp]: "d < 16 \<Longrightarrow> is_lower_hex (digit_char d)"
  by (simp add: is_lower_hex_def is_dec_def of_char_digit_char)

lemma char_eq_of_char: "c = d \<longleftrightarrow> (of_char c :: nat) = of_char d"
  by (simp add: of_char_eq_iff)

lemma digit_char_digit_dec [simp]: "is_dec c \<Longrightarrow> digit_char (char_digit c) = c"
  by (auto simp: is_dec_def char_digit_def digit_char_def)

lemma digit_char_digit_hex [simp]: "is_lower_hex c \<Longrightarrow> digit_char (char_digit c) = c"
  by (auto simp: is_lower_hex_def is_dec_def char_digit_def digit_char_def)

lemma char_digit_dec_less: "is_dec c \<Longrightarrow> char_digit c < 10"
  by (auto simp: is_dec_def char_digit_def)

lemma char_digit_hex_less: "is_lower_hex c \<Longrightarrow> char_digit c < 16"
  by (auto simp: is_lower_hex_def is_dec_def char_digit_def)

lemma is_dec_is_lower_hex: "is_dec c \<Longrightarrow> is_lower_hex c"
  by (simp add: is_lower_hex_def)

lemma is_lower_hex_ascii: "is_lower_hex c \<Longrightarrow> (of_char c :: nat) < 128"
  by (auto simp: is_lower_hex_def is_dec_def)

lemma is_ascii_append [simp]: "is_ascii (s @ t) \<longleftrightarrow> is_ascii s \<and> is_ascii t"
  and is_ascii_Nil [simp]: "is_ascii []"
  and is_ascii_Cons [simp]: "is_ascii (c # s) \<longleftrightarrow> (of_char c :: nat) < 128 \<and> is_ascii s"
  by (auto simp: is_ascii_def)

lemma is_ascii_hex: "list_all is_lower_hex s \<Longrightarrow> is_ascii s"
  by (auto simp: is_ascii_def list_all_iff is_lower_hex_ascii)

text \<open>\<open>format_nat b w n\<close> is Python's \<open>f"{n:0<w>d}"\<close> (base 10) or \<open>f"{n:0<w>x}"\<close> (base 16);
  width 0 is \<open>str(n)\<close>.\<close>

definition format_nat :: "nat \<Rightarrow> nat \<Rightarrow> nat \<Rightarrow> string" where
  "format_nat b w n =
     (let ds = digits_of b n in map digit_char (replicate (w - length ds) 0 @ ds))"

definition parse_nat :: "nat \<Rightarrow> string \<Rightarrow> nat" where
  "parse_nat b s = value_of b (map char_digit s)"

definition int_str :: "int \<Rightarrow> string" where
  "int_str i = (if i < 0 then ''-'' @ format_nat 10 0 (nat (- i)) else format_nat 10 0 (nat i))"

lemma map_char_digit_digits:
  "2 \<le> b \<Longrightarrow> b \<le> 16 \<Longrightarrow> map (\<lambda>d. char_digit (digit_char d)) (digits_of b n) = digits_of b n"
  by (rule map_idI) (meson char_digit_char digits_of_less order_less_le_trans)

lemma parse_format_nat [simp, numeral_simps]:
  "2 \<le> b \<Longrightarrow> b \<le> 16 \<Longrightarrow> parse_nat b (format_nat b w n) = n"
  by (simp add: parse_nat_def format_nat_def Let_def map_char_digit_digits comp_def)

lemma length_format_nat [numeral_simps]:
  "2 \<le> b \<Longrightarrow> 0 < w \<Longrightarrow> n < b ^ w \<Longrightarrow> length (format_nat b w n) = w"
  using digits_of_length_le [of b w n] by (simp add: format_nat_def Let_def)

lemma format_nat_dec: "c \<in> set (format_nat 10 w n) \<Longrightarrow> is_dec c"
  by (auto simp: format_nat_def Let_def dest!: digits_of_less [of 10, simplified])

lemma format_nat_hex: "c \<in> set (format_nat 16 w n) \<Longrightarrow> is_lower_hex c"
  by (auto simp: format_nat_def Let_def dest!: digits_of_less [of 16, simplified])

lemma format_nat_not_Nil [simp]: "format_nat b w n \<noteq> []"
  by (simp add: format_nat_def Let_def)

lemma format_parse_nat_fixed:
  assumes "list_all is_lower_hex s" "length s = w" "0 < w"
  shows "format_nat 16 w (parse_nat 16 s) = s"
proof -
  let ?ds = "map char_digit s" and ?n = "parse_nat 16 s"
  have lt: "\<forall>d \<in> set ?ds. d < 16"
    using assms(1) by (auto simp: list_all_iff char_digit_hex_less)
  then have n: "?n < 16 ^ w"
    using value_of_less [of ?ds 16] assms(2) by (simp add: parse_nat_def)
  let ?es = "replicate (w - length (digits_of 16 ?n)) 0 @ digits_of 16 ?n"
  have "?es = ?ds"
  proof (rule value_of_inj)
    show "length ?es = length ?ds"
      using digits_of_length_le [of 16 w ?n] n assms by simp
    show "\<forall>d \<in> set ?es. d < 16"
      by (auto dest: digits_of_less [of 16, simplified])
    show "\<forall>d \<in> set ?ds. d < 16" by (fact lt)
    show "value_of 16 ?es = value_of 16 ?ds" by (simp add: parse_nat_def)
  qed
  then have "format_nat 16 w ?n = map digit_char ?ds"
    by (simp add: format_nat_def Let_def del: map_append)
  also have "\<dots> = s" using assms(1) by (auto simp: list_all_iff intro!: map_idI)
  finally show ?thesis .
qed

section \<open>Lists\<close>

lemma take_append_exact [simp]: "length xs = n \<Longrightarrow> take n (xs @ ys) = xs"
  and drop_append_exact [simp]: "length xs = n \<Longrightarrow> drop n (xs @ ys) = ys"
  by auto

lemma sum_list_map_add:
  "sum_list (map (\<lambda>x. f x + g x) xs) = sum_list (map f xs) + (sum_list (map g xs) :: 'a::comm_monoid_add)"
  by (induction xs) (auto simp: algebra_simps)

lemma filter_id_iff_all: "filter P xs = xs \<longleftrightarrow> (\<forall>x \<in> set xs. P x)"
  by (rule filter_id_conv)

end
