(* ===== verification/Json.thy ===== *)
theory Json
  imports Prelude "HOL-Library.List_Lexorder"
begin

text \<open>
  The part of the standard library's \<open>json\<close> module that the program uses:
  \<open>json.dumps(value, ensure_ascii=False, sort_keys=True, separators=(",", ":"))\<close> and
  \<open>json.loads\<close> with the program's hooks, which reject duplicate keys, floats, non-finite
  constants and integers beyond the interpreter's digit limit. A dict is an association list in
  insertion order. Every rejection of \<open>json.loads\<close> ends in one exception class in each caller,
  so \<open>json_loads\<close> returns an option. The length comparisons inside the parser only serve its
  termination: every step of the parser consumes text.
\<close>

section \<open>Values and printing\<close>

datatype jval =
    JNull
  | JBool bool
  | JInt int
  | JStr pystr
  | JArr "jval list"
  | JObj "(pystr \<times> jval) list"

definition asc :: "string \<Rightarrow> pystr" where
  "asc s = map of_char s"

definition escape_char :: "codepoint \<Rightarrow> pystr" where
  "escape_char c =
     (if c = 34 then [92, 34]
      else if c = 92 then [92, 92]
      else if c = 10 then [92, 110]
      else if c = 13 then [92, 114]
      else if c = 9 then [92, 116]
      else if c = 12 then [92, 102]
      else if c = 8 then [92, 98]
      else if c < 32 then [92, 117, 48, 48] @ asc (format_nat 16 2 c)
      else [c])"

definition quote_str :: "pystr \<Rightarrow> pystr" where
  "quote_str s = [34] @ concat (map escape_char s) @ [34]"

fun join_comma :: "pystr list \<Rightarrow> pystr" where
  "join_comma [] = []"
| "join_comma [x] = x"
| "join_comma (x # y # ys) = x @ [44] @ join_comma (y # ys)"

fun json_dumps :: "jval \<Rightarrow> pystr" where
  "json_dumps JNull = asc ''null''"
| "json_dumps (JBool b) = asc (if b then ''true'' else ''false'')"
| "json_dumps (JInt i) = asc (int_str i)"
| "json_dumps (JStr s) = quote_str s"
| "json_dumps (JArr vs) = [91] @ join_comma (map json_dumps vs) @ [93]"
| "json_dumps (JObj ps) =
     [123] @ join_comma (map (\<lambda>(k, t). quote_str k @ [58] @ t)
       (sort_key fst (map (\<lambda>(k, v). (k, json_dumps v)) ps))) @ [125]"

section \<open>Parsing\<close>

definition int_max_str_digits :: nat where
  "int_max_str_digits = 4300"

definition is_ws :: "codepoint \<Rightarrow> bool" where
  "is_ws c \<longleftrightarrow> c = 32 \<or> c = 9 \<or> c = 10 \<or> c = 13"

definition skip_ws :: "pystr \<Rightarrow> pystr" where
  "skip_ws s = dropWhile is_ws s"

definition is_digit :: "codepoint \<Rightarrow> bool" where
  "is_digit c \<longleftrightarrow> 48 \<le> c \<and> c \<le> 57"

definition hex_value :: "codepoint \<Rightarrow> nat option" where
  "hex_value c =
     (if 48 \<le> c \<and> c \<le> 57 then Some (c - 48)
      else if 97 \<le> c \<and> c \<le> 102 then Some (c - 87)
      else if 65 \<le> c \<and> c \<le> 70 then Some (c - 55)
      else None)"

fun scan_hex4 :: "pystr \<Rightarrow> (nat \<times> pystr) option" where
  "scan_hex4 (a # b # c # d # r) =
     (case (hex_value a, hex_value b, hex_value c, hex_value d) of
        (Some w, Some x, Some y, Some z) \<Rightarrow> Some (value_of 16 [w, x, y, z], r)
      | _ \<Rightarrow> None)"
| "scan_hex4 _ = None"

definition simple_escape :: "codepoint \<Rightarrow> codepoint option" where
  "simple_escape c =
     (if c = 34 then Some 34 else if c = 92 then Some 92 else if c = 47 then Some 47
      else if c = 98 then Some 8 else if c = 102 then Some 12 else if c = 110 then Some 10
      else if c = 114 then Some 13 else if c = 116 then Some 9 else None)"

text \<open>\<open>scan_escape\<close> reads what follows a backslash: one code point, or a surrogate pair written
  as two \<open>\u\<close> escapes, which is joined.\<close>

definition scan_escape :: "pystr \<Rightarrow> (codepoint \<times> pystr) option" where
  "scan_escape s =
     (case s of
        [] \<Rightarrow> None
      | c # r \<Rightarrow>
          if c = 117 then
            (case scan_hex4 r of
               None \<Rightarrow> None
             | Some (u, r1) \<Rightarrow>
                 if 55296 \<le> u \<and> u \<le> 56319 \<and> take 2 r1 = [92, 117] then
                   (case scan_hex4 (drop 2 r1) of
                      None \<Rightarrow> None
                    | Some (l, r2) \<Rightarrow>
                        if 56320 \<le> l \<and> l \<le> 57343
                        then Some (65536 + (u - 55296) * 1024 + (l - 56320), r2)
                        else Some (u, r1))
                 else Some (u, r1))
          else map_option (\<lambda>e. (e, r)) (simple_escape c))"

function scan_string :: "pystr \<Rightarrow> (pystr \<times> pystr) option" where
  "scan_string s =
     (case s of
        [] \<Rightarrow> None
      | c # r \<Rightarrow>
          if c = 34 then Some ([], r)
          else if c = 92 then
            (case scan_escape r of
               None \<Rightarrow> None
             | Some (e, r1) \<Rightarrow>
                 if length r1 < length s
                 then map_option (\<lambda>(t, r2). (e # t, r2)) (scan_string r1)
                 else None)
          else if c < 32 then None
          else map_option (\<lambda>(t, r2). (c # t, r2)) (scan_string r))"
  by pat_completeness auto
termination
  by (relation "measure length") auto

definition scan_nat :: "pystr \<Rightarrow> (nat \<times> pystr) option" where
  "scan_nat s =
     (case s of
        [] \<Rightarrow> None
      | c # r \<Rightarrow>
          if c = 48 then Some (0, r)
          else if is_digit c then
            (let ds = takeWhile is_digit s in
             if length ds \<le> int_max_str_digits
             then Some (value_of 10 (map (\<lambda>d. d - 48) ds), dropWhile is_digit s)
             else None)
          else None)"

definition scan_int :: "pystr \<Rightarrow> (jval \<times> pystr) option" where
  "scan_int s =
     (case s of
        [] \<Rightarrow> None
      | c # r \<Rightarrow>
          if c = 45 then map_option (\<lambda>(n, r1). (JInt (- int n), r1)) (scan_nat r)
          else map_option (\<lambda>(n, r1). (JInt (int n), r1)) (scan_nat s))"

definition scan_word :: "string \<Rightarrow> pystr \<Rightarrow> pystr option" where
  "scan_word w s = (if take (length w) s = asc w then Some (drop (length w) s) else None)"

definition scan_atom :: "pystr \<Rightarrow> (jval \<times> pystr) option" where
  "scan_atom s =
     (case scan_word ''null'' s of
        Some r \<Rightarrow> Some (JNull, r)
      | None \<Rightarrow>
          (case scan_word ''true'' s of
             Some r \<Rightarrow> Some (JBool True, r)
           | None \<Rightarrow>
               (case scan_word ''false'' s of
                  Some r \<Rightarrow> Some (JBool False, r)
                | None \<Rightarrow> scan_int s)))"

lemma length_skip_ws [simp]: "length (skip_ws s) \<le> length s"
  by (simp add: skip_ws_def length_dropWhile_le)

lemma length_skip_ws_less: "length s < n \<Longrightarrow> length (skip_ws s) < n"
  using length_skip_ws [of s] by linarith

lemma double_skip_ws:
  "length s \<le> n \<Longrightarrow> 2 * length (skip_ws s) < Suc (2 * n)"
  "length s < Suc n \<Longrightarrow> 2 * length (skip_ws s) < Suc (Suc (2 * n))"
  "length s < Suc n \<Longrightarrow> 2 * length (skip_ws s) < Suc (Suc (Suc (2 * n)))"
  using length_skip_ws [of s] by linarith+

declare scan_string.simps [simp del]

function parse_value :: "pystr \<Rightarrow> (jval \<times> pystr) option"
  and parse_elems :: "pystr \<Rightarrow> (jval list \<times> pystr) option"
  and parse_members :: "pystr \<Rightarrow> ((pystr \<times> jval) list \<times> pystr) option" where
  "parse_value s =
     (case s of
        [] \<Rightarrow> None
      | c # r \<Rightarrow>
          if c = 34 then map_option (\<lambda>(t, r1). (JStr t, r1)) (scan_string r)
          else if c = 91 then
            (if skip_ws r \<noteq> [] \<and> hd (skip_ws r) = 93 then Some (JArr [], tl (skip_ws r))
             else map_option (\<lambda>(vs, r1). (JArr vs, r1)) (parse_elems (skip_ws r)))
          else if c = 123 then
            (if skip_ws r \<noteq> [] \<and> hd (skip_ws r) = 125 then Some (JObj [], tl (skip_ws r))
             else (case parse_members (skip_ws r) of
                     None \<Rightarrow> None
                   | Some (ps, r1) \<Rightarrow>
                       if distinct (map fst ps) then Some (JObj ps, r1) else None))
          else scan_atom s)"
| "parse_elems s =
     (case parse_value s of
        None \<Rightarrow> None
      | Some (v, r) \<Rightarrow>
          (case skip_ws r of
             [] \<Rightarrow> None
           | c # r1 \<Rightarrow>
               if c = 93 then Some ([v], r1)
               else if c = 44 \<and> length r1 < length s
               then map_option (\<lambda>(vs, r2). (v # vs, r2)) (parse_elems (skip_ws r1))
               else None))"
| "parse_members s =
     (case s of
        [] \<Rightarrow> None
      | q # s1 \<Rightarrow>
          if q \<noteq> 34 then None
          else (case scan_string s1 of
             None \<Rightarrow> None
           | Some (k, r) \<Rightarrow>
               (case skip_ws r of
                  [] \<Rightarrow> None
                | c # r1 \<Rightarrow>
                    if c \<noteq> 58 \<or> \<not> length r1 < length s then None
                    else (case parse_value (skip_ws r1) of
                       None \<Rightarrow> None
                     | Some (v, r2) \<Rightarrow>
                         (case skip_ws r2 of
                            [] \<Rightarrow> None
                          | d # r3 \<Rightarrow>
                              if d = 125 then Some ([(k, v)], r3)
                              else if d = 44 \<and> length r3 < length s
                              then map_option (\<lambda>(ps, r4). ((k, v) # ps, r4))
                                     (parse_members (skip_ws r3))
                              else None)))))"
  by pat_completeness auto
termination
  by (relation "measure (\<lambda>x. case x of Inl s \<Rightarrow> 2 * length s
       | Inr y \<Rightarrow> (case y of Inl s \<Rightarrow> 2 * length s + 1 | Inr s \<Rightarrow> 2 * length s + 1))")
    (auto intro: length_skip_ws_less double_skip_ws)

declare parse_value.simps [simp del] parse_elems.simps [simp del] parse_members.simps [simp del]

definition json_loads :: "pystr \<Rightarrow> jval option" where
  "json_loads s =
     (if s \<noteq> [] \<and> hd s = 65279 then None
      else case parse_value (skip_ws s) of
             None \<Rightarrow> None
           | Some (v, r) \<Rightarrow> if skip_ws r = [] then Some v else None)"

section \<open>Printing is undone by parsing\<close>

text \<open>\<open>json_norm\<close> orders the members of every object by key, which is what printing with
  \<open>sort_keys\<close> and reading back does; \<open>json_wf\<close> collects what the printer's callers establish:
  distinct keys and integers within the interpreter's digit limit.\<close>

fun json_norm :: "jval \<Rightarrow> jval" where
  "json_norm (JArr vs) = JArr (map json_norm vs)"
| "json_norm (JObj ps) = JObj (sort_key fst (map (\<lambda>(k, v). (k, json_norm v)) ps))"
| "json_norm v = v"

fun json_wf :: "jval \<Rightarrow> bool" where
  "json_wf (JInt i) \<longleftrightarrow> \<bar>i\<bar> < 10 ^ int_max_str_digits"
| "json_wf (JArr vs) \<longleftrightarrow> (\<forall>v \<in> set vs. json_wf v)"
| "json_wf (JObj ps) \<longleftrightarrow> distinct (map fst ps) \<and> (\<forall>p \<in> set ps. json_wf (snd p))"
| "json_wf v \<longleftrightarrow> True"

definition delimited :: "pystr \<Rightarrow> bool" where
  "delimited r \<longleftrightarrow> r = [] \<or> hd r = 44 \<or> hd r = 93 \<or> hd r = 125"

lemma asc_append [simp]: "asc (s @ t) = asc s @ asc t"
  and asc_Nil [simp]: "asc [] = []"
  and asc_Cons [simp]: "asc (c # s) = of_char c # asc s"
  and length_asc [simp]: "length (asc s) = length s"
  by (simp_all add: asc_def)

lemma hex_value_digit: "d < 16 \<Longrightarrow> hex_value (of_char (digit_char d)) = Some d"
  by (simp add: hex_value_def of_char_digit_char)

lemma format_nat_16_2: "c < 256 \<Longrightarrow> format_nat 16 2 c = [digit_char (c div 16), digit_char (c mod 16)]"
  using less_mult_imp_div_less [of c 16 16]
  by (simp add: format_nat_def digits_of.simps [of 16 c] digits_of.simps [of 16 "c div 16"])

lemma scan_string_escape:
  "scan_string (escape_char c @ t) = map_option (\<lambda>(u, r). (c # u, r)) (scan_string t)"
proof -
  have "c < 256 \<Longrightarrow> value_of 16 [0, 0, c div 16, c mod 16] = c"
    by (simp add: value_of_Cons)
  then show ?thesis
    by (auto simp: escape_char_def scan_string.simps [of "_ # _"] scan_escape_def simple_escape_def
        format_nat_16_2 hex_value_digit hex_value_def [of 48])
qed

lemma scan_string_quote:
  "scan_string (concat (map escape_char s) @ 34 # rest) = Some (s, rest)"
  by (induction s) (simp_all add: scan_string_escape scan_string.simps [of "34 # _"])

lemma takeWhile_digits:
  "\<forall>c \<in> set xs. is_digit c \<Longrightarrow> r = [] \<or> \<not> is_digit (hd r) \<Longrightarrow>
   takeWhile is_digit (xs @ r) = xs \<and> dropWhile is_digit (xs @ r) = r"
  by (induction xs) (cases r; auto)+

lemma asc_format_digits: "c \<in> set (asc (format_nat 10 w n)) \<Longrightarrow> is_digit c"
  by (auto simp: asc_def is_digit_def is_dec_def dest!: format_nat_dec)

lemma asc_format_0: "asc (format_nat 10 0 n) = map (\<lambda>d. 48 + d) (digits_of 10 n)"
proof -
  have "of_char (digit_char d) = 48 + d" if "d \<in> set (digits_of 10 n)" for d
    using digits_of_less [OF _ that] by (simp add: of_char_digit_char)
  then show ?thesis by (simp add: asc_def format_nat_def)
qed

lemma int_max_str_digits_pos: "0 < int_max_str_digits"
  by (simp add: int_max_str_digits_def)

lemma scan_nat_format:
  assumes "n < 10 ^ int_max_str_digits" "r = [] \<or> \<not> is_digit (hd r)"
  shows "scan_nat (asc (format_nat 10 0 n) @ r) = Some (n, r)"
proof (cases "n = 0")
  case True
  then show ?thesis
    by (simp add: scan_nat_def asc_format_0 digits_of.simps [of 10 0])
next
  case False
  let ?ds = "asc (format_nat 10 0 n)"
  have len: "length (digits_of 10 n) \<le> int_max_str_digits"
    using assms(1) int_max_str_digits_pos by (intro digits_of_length_le) simp_all
  obtain d ds where ds: "digits_of 10 n = d # ds" by (cases "digits_of 10 n") auto
  have "d \<noteq> 0" using digits_of_hd_pos [of n 10] False ds by simp
  moreover have "is_digit (48 + d)" using digits_of_less [of 10 d n] ds by (simp add: is_digit_def)
  moreover have "takeWhile is_digit (?ds @ r) = ?ds \<and> dropWhile is_digit (?ds @ r) = r"
    using assms(2) asc_format_digits by (intro takeWhile_digits) auto
  moreover have "value_of 10 (map (\<lambda>d. d - 48) ?ds) = n"
    by (simp add: asc_format_0 comp_def)
  ultimately show ?thesis
    using len by (simp add: scan_nat_def asc_format_0 ds)
qed

lemma not_digit_delimited: "delimited r \<Longrightarrow> r = [] \<or> \<not> is_digit (hd r)"
  by (auto simp: delimited_def is_digit_def)

lemma hd_format: "is_digit (hd (asc (format_nat 10 0 n)))" and format_not_Nil: "asc (format_nat 10 0 n) \<noteq> []"
proof -
  show "asc (format_nat 10 0 n) \<noteq> []" by (simp add: asc_def)
  then show "is_digit (hd (asc (format_nat 10 0 n)))"
    by (intro asc_format_digits [of _ 0 n] hd_in_set)
qed

lemma scan_int_dumps:
  assumes "json_wf (JInt i)" "delimited r"
  shows "scan_int (asc (int_str i) @ r) = Some (JInt i, r)"
proof (cases "i < 0")
  case True
  then have "nat (- i) < 10 ^ int_max_str_digits"
    using assms(1) by (simp add: nat_less_iff)
  then show ?thesis
    using True scan_nat_format [of "nat (- i)" r] not_digit_delimited [OF assms(2)]
    by (simp add: scan_int_def int_str_def)
next
  case False
  then have "nat i < 10 ^ int_max_str_digits"
    using assms(1) by (simp add: nat_less_iff)
  moreover obtain c cs where c: "asc (format_nat 10 0 (nat i)) = c # cs"
    using format_not_Nil by (cases "asc (format_nat 10 0 (nat i))") auto
  moreover have "is_digit c" using hd_format [of "nat i"] c by simp
  ultimately show ?thesis
    using False scan_nat_format [of "nat i" r] not_digit_delimited [OF assms(2)]
    by (auto simp: scan_int_def int_str_def is_digit_def)
qed

lemma insort_key_map: "insort_key f (g x) (map g xs) = map g (insort_key (\<lambda>x. f (g x)) x xs)"
  by (induction xs) auto

lemma sort_key_map: "sort_key f (map g xs) = map g (sort_key (\<lambda>x. f (g x)) xs)"
  by (induction xs) (simp_all add: insort_key_map)

lemma sort_members:
  fixes ps :: "('k::linorder \<times> 'v) list" and h :: "'v \<Rightarrow> 'w"
  shows "sort_key fst (map (\<lambda>(k, v). (k, h v)) ps) = map (\<lambda>(k, v). (k, h v)) (sort_key fst ps)"
proof -
  have "(\<lambda>p. fst (case p of (k, v) \<Rightarrow> (k, h v))) = (fst :: 'k \<times> 'v \<Rightarrow> 'k)"
    by (auto simp: fun_eq_iff)
  then show ?thesis by (simp only: sort_key_map)
qed

text \<open>The first code point of a printed value selects the parser's branch and is no whitespace.\<close>

definition value_start :: "codepoint \<Rightarrow> bool" where
  "value_start c \<longleftrightarrow> c = 34 \<or> c = 91 \<or> c = 123 \<or> c = 110 \<or> c = 116 \<or> c = 102 \<or> c = 45 \<or> is_digit c"

lemma json_dumps_start: "json_dumps v \<noteq> [] \<and> value_start (hd (json_dumps v))"
proof (cases v)
  case (JInt i)
  then show ?thesis
    using hd_format [of "nat i"] format_not_Nil [of "nat i"]
    by (simp add: int_str_def value_start_def)
qed (auto simp: quote_str_def value_start_def)

lemma skip_ws_dumps [simp]: "skip_ws (json_dumps v @ r) = json_dumps v @ r"
  using json_dumps_start [of v]
  by (cases "json_dumps v") (auto simp: skip_ws_def is_ws_def value_start_def is_digit_def)

lemma skip_ws_Cons [simp]: "\<not> is_ws c \<Longrightarrow> skip_ws (c # r) = c # r"
  by (simp add: skip_ws_def)

lemma not_ws [simp]: "\<not> is_ws 34" "\<not> is_ws 44" "\<not> is_ws 58" "\<not> is_ws 93" "\<not> is_ws 125"
  by (simp_all add: is_ws_def)

lemma parse_value_int:
  assumes "json_wf (JInt i)" "delimited r"
  shows "parse_value (asc (int_str i) @ r) = Some (JInt i, r)"
proof -
  obtain c cs where c: "asc (int_str i) = c # cs" "c = 45 \<or> is_digit c"
    using hd_format [of "nat i"] format_not_Nil [of "nat i"]
    by (cases "asc (int_str i)") (auto simp: int_str_def split: if_splits)
  have "scan_atom (asc (int_str i) @ r) = scan_int (asc (int_str i) @ r)"
    using c by (auto simp: scan_atom_def scan_word_def is_digit_def)
  then show ?thesis
    using c scan_int_dumps [OF assms]
    by (auto simp: parse_value.simps [of "_ # _"] is_digit_def)
qed

lemma delimited_simps [simp]: "delimited (44 # r)" "delimited (93 # r)" "delimited (125 # r)" "delimited []"
  by (simp_all add: delimited_def)

lemma join_comma_Cons: "join_comma (x # xs) = x @ (if xs = [] then [] else 44 # join_comma xs)"
  by (cases xs) auto

lemma parse_elems_dumps:
  assumes "\<And>v r. v \<in> set vs \<Longrightarrow> delimited r \<Longrightarrow> parse_value (json_dumps v @ r) = Some (json_norm v, r)"
    and "vs \<noteq> []"
  shows "parse_elems (join_comma (map json_dumps vs) @ 93 # rest) = Some (map json_norm vs, rest)"
  using assms
proof (induction vs)
  case (Cons v vs)
  show ?case
  proof (cases vs)
    case Nil
    then show ?thesis
      using Cons.prems(1) by (subst parse_elems.simps) simp
  next
    case (Cons w ws)
    let ?t = "join_comma (map json_dumps vs) @ 93 # rest"
    have IH: "parse_elems ?t = Some (map json_norm vs, rest)"
      using Cons.IH Cons.prems(1) Cons by simp
    have ws: "skip_ws ?t = ?t"
      by (simp add: Cons join_comma_Cons)
    have "parse_value (json_dumps v @ 44 # ?t) = Some (json_norm v, 44 # ?t)"
      using Cons.prems(1) by simp
    then show ?thesis
      using IH ws by (subst parse_elems.simps) (simp add: Cons)
  qed
qed simp

definition member_text :: "pystr \<times> jval \<Rightarrow> pystr" where
  "member_text p = quote_str (fst p) @ [58] @ json_dumps (snd p)"

lemma length_quote_str: "2 \<le> length (quote_str s)"
  by (simp add: quote_str_def)

lemma parse_members_dumps:
  assumes "\<And>k v r. (k, v) \<in> set ps \<Longrightarrow> delimited r \<Longrightarrow> parse_value (json_dumps v @ r) = Some (json_norm v, r)"
    and "ps \<noteq> []"
  shows "parse_members (join_comma (map member_text ps) @ 125 # rest)
           = Some (map (\<lambda>(k, v). (k, json_norm v)) ps, rest)"
  using assms
proof (induction ps)
  case (Cons p ps)
  obtain k v where p: "p = (k, v)" by fastforce
  have v: "delimited r \<Longrightarrow> parse_value (json_dumps v @ r) = Some (json_norm v, r)" for r
    using Cons.prems(1) p by auto
  show ?case
  proof (cases ps)
    case Nil
    then show ?thesis
      using v by (subst parse_members.simps) (simp add: p member_text_def quote_str_def scan_string_quote)
  next
    case (Cons q qs)
    let ?t = "join_comma (map member_text ps) @ 125 # rest"
    have IH: "parse_members ?t = Some (map (\<lambda>(k, v). (k, json_norm v)) ps, rest)"
      using Cons by (intro Cons.IH Cons.prems(1)) auto
    have ws: "skip_ws ?t = ?t"
      by (simp add: Cons join_comma_Cons member_text_def quote_str_def)
    have "join_comma (map member_text (p # ps)) @ 125 # rest = member_text p @ 44 # ?t"
      by (simp add: Cons)
    then show ?thesis
      using IH ws v
      by (subst parse_members.simps) (simp add: p member_text_def quote_str_def scan_string_quote)
  qed
qed simp

lemma json_dumps_JObj: "json_dumps (JObj ps) = [123] @ join_comma (map member_text (sort_key fst ps)) @ [125]"
proof -
  have "(\<lambda>(k, t). quote_str k @ [58] @ t) \<circ> (\<lambda>(k, v). (k, json_dumps v)) = member_text"
    by (auto simp: fun_eq_iff member_text_def)
  then show ?thesis by (simp add: sort_members)
qed

theorem parse_value_dumps:
  "json_wf v \<Longrightarrow> delimited r \<Longrightarrow> parse_value (json_dumps v @ r) = Some (json_norm v, r)"
proof (induction v arbitrary: r)
  case JNull
  then show ?case
    by (simp add: parse_value.simps [of "_ # _"] scan_atom_def scan_word_def)
next
  case (JBool b)
  then show ?case
    by (cases b) (simp_all add: parse_value.simps [of "_ # _"] scan_atom_def scan_word_def)
next
  case (JInt i)
  then show ?case using parse_value_int by simp
next
  case (JStr s)
  then show ?case
    by (simp add: quote_str_def parse_value.simps [of "_ # _"] scan_string_quote)
next
  case (JArr vs)
  show ?case
  proof (cases vs)
    case Nil
    then show ?thesis by (simp add: parse_value.simps [of "_ # _"])
  next
    case (Cons w ws)
    let ?t = "join_comma (map json_dumps vs) @ 93 # r"
    have ws: "skip_ws ?t = ?t" by (simp add: Cons join_comma_Cons)
    have hd: "?t \<noteq> [] \<and> hd ?t \<noteq> 93"
      using json_dumps_start [of w] by (auto simp: Cons join_comma_Cons value_start_def is_digit_def)
    have "parse_elems ?t = Some (map json_norm vs, r)"
      using JArr Cons by (intro parse_elems_dumps) auto
    then show ?thesis
      using ws hd by (simp add: parse_value.simps [of "91 # _"])
  qed
next
  case (JObj ps)
  show ?case
  proof (cases "ps = []")
    case True
    then show ?thesis by (simp add: parse_value.simps [of "_ # _"])
  next
    case False
    let ?ps = "sort_key fst ps"
    let ?t = "join_comma (map member_text ?ps) @ 125 # r"
    have ne: "?ps \<noteq> []" using False by (metis set_empty set_sort)
    then obtain q qs where q: "?ps = q # qs" by (cases ?ps) auto
    have ws: "skip_ws ?t = ?t" and hd: "?t \<noteq> [] \<and> hd ?t \<noteq> 125"
      by (simp_all add: q join_comma_Cons member_text_def quote_str_def)
    have "parse_members ?t = Some (map (\<lambda>(k, v). (k, json_norm v)) ?ps, r)"
    proof (rule parse_members_dumps [OF _ ne])
      fix k v r' assume "(k, v) \<in> set ?ps" "delimited r'"
      then show "parse_value (json_dumps v @ r') = Some (json_norm v, r')"
        using JObj.IH [of "(k, v)" v r'] JObj.prems(1) by auto
    qed
    moreover have "distinct (map fst (map (\<lambda>(k, v). (k, json_norm v)) ?ps))"
    proof -
      have "map fst (map (\<lambda>(k, v). (k, json_norm v)) ?ps) = map fst ?ps" by auto
      moreover have "distinct (map fst ?ps)"
        using JObj.prems(1) by (simp add: distinct_map)
      ultimately show ?thesis by (simp only:)
    qed
    ultimately show ?thesis
      using ws hd by (simp add: json_dumps_JObj sort_members parse_value.simps [of "123 # _"] del: json_dumps.simps)
  qed
qed

lemma json_dumps_no_bom: "hd (json_dumps v) \<noteq> 65279"
  using json_dumps_start [of v] by (auto simp: value_start_def is_digit_def)

lemma json_loads_dumps: "json_wf v \<Longrightarrow> json_loads (json_dumps v) = Some (json_norm v)"
  using parse_value_dumps [of v "[]"] json_dumps_no_bom [of v] skip_ws_dumps [of v "[]"]
  by (simp add: json_loads_def skip_ws_def)

lemma json_dumps_inj:
  "json_wf v \<Longrightarrow> json_wf w \<Longrightarrow> json_dumps v = json_dumps w \<Longrightarrow> json_norm v = json_norm w"
  using json_loads_dumps by (metis option.inject)

end
