(* ===== verification/Stdlib_Text.thy ===== *)
theory Stdlib_Text
  imports Json
begin

text \<open>
  The remaining standard-library behaviour of the canonical layer: strict UTF-8 encoding and
  decoding (\<open>str.encode("utf-8")\<close>, \<open>bytes.decode("utf-8", errors="strict")\<close>), \<open>bytes.hex\<close> and
  \<open>bytes.fromhex\<close>. The lemmas show that UTF-8 decoding accepts exactly the encodings and that
  the hex forms are inverse to each other.
\<close>

section \<open>UTF-8\<close>

definition is_scalar :: "codepoint \<Rightarrow> bool" where
  "is_scalar c \<longleftrightarrow> c < 55296 \<or> 57344 \<le> c \<and> c < 1114112"

definition utf8_char :: "codepoint \<Rightarrow> nat list" where
  "utf8_char c =
     (if c < 128 then [c]
      else if c < 2048 then [192 + c div 64, 128 + c mod 64]
      else if c < 65536 then [224 + c div 4096, 128 + c div 64 mod 64, 128 + c mod 64]
      else [240 + c div 262144, 128 + c div 4096 mod 64, 128 + c div 64 mod 64, 128 + c mod 64])"

definition utf8_encode :: "pystr \<Rightarrow> exn + bytes" where
  "utf8_encode s =
     (if list_all is_scalar s then Inr (map char_of (concat (map utf8_char s)))
      else Inl UnicodeEncodeError)"

definition is_cont :: "nat \<Rightarrow> bool" where
  "is_cont b \<longleftrightarrow> 128 \<le> b \<and> b < 192"

text \<open>One code point off the front of the input; overlong forms, surrogates and values above
  U+10FFFF are rejected, as the strict decoder does.\<close>

definition utf8_head :: "nat list \<Rightarrow> (codepoint \<times> nat list) option" where
  "utf8_head bs =
     (case bs of
        [] \<Rightarrow> None
      | b # r \<Rightarrow>
          if b < 128 then Some (b, r)
          else
            (case r of
               [] \<Rightarrow> None
             | x # r1 \<Rightarrow>
                 if \<not> is_cont x then None
                 else if 194 \<le> b \<and> b < 224 then Some ((b - 192) * 64 + (x - 128), r1)
                 else
                   (case r1 of
                      [] \<Rightarrow> None
                    | y # r2 \<Rightarrow>
                        if \<not> is_cont y then None
                        else if 224 \<le> b \<and> b < 240 then
                          (let c = (b - 224) * 4096 + (x - 128) * 64 + (y - 128)
                           in if 2048 \<le> c \<and> is_scalar c then Some (c, r2) else None)
                        else
                          (case r2 of
                             [] \<Rightarrow> None
                           | z # r3 \<Rightarrow>
                               if is_cont z \<and> 240 \<le> b \<and> b < 245 then
                                 (let c = (b - 240) * 262144 + (x - 128) * 4096 + (y - 128) * 64 + (z - 128)
                                  in if 65536 \<le> c \<and> c < 1114112 then Some (c, r3) else None)
                               else None))))"

lemma utf8_head_shorter: "utf8_head bs = Some (c, r) \<Longrightarrow> length r < length bs"
  by (auto simp: utf8_head_def Let_def split: list.splits if_splits)

function utf8_decode :: "nat list \<Rightarrow> pystr option" where
  "utf8_decode bs =
     (if bs = [] then Some []
      else case utf8_head bs of
             None \<Rightarrow> None
           | Some (c, r) \<Rightarrow> map_option ((#) c) (utf8_decode r))"
  by pat_completeness auto
termination
  by (relation "measure length") (auto dest: utf8_head_shorter)

declare utf8_decode.simps [simp del]

definition utf8_decode_strict :: "bytes \<Rightarrow> pystr option" where
  "utf8_decode_strict b = utf8_decode (map of_char b)"

lemma div_4096: "c div 4096 = c div 64 div 64" and div_262144: "c div 262144 = c div 64 div 64 div (64 :: nat)"
  by (simp_all add: div_mult2_eq [symmetric])

lemma horner_64: "q < 64 \<Longrightarrow> (a * 64 + q) div 64 = a" "q < 64 \<Longrightarrow> (a * 64 + q) mod 64 = (q :: nat)"
  by simp_all

lemma utf8_head_char: "is_scalar c \<Longrightarrow> utf8_head (utf8_char c @ r) = Some (c, r)"
proof -
  assume sc: "is_scalar c"
  have step: "n div 64 * 64 + n mod 64 = n" for n :: nat by simp
  have two: "128 \<le> c \<Longrightarrow> c < 2048 \<Longrightarrow> 2 \<le> c div 64 \<and> c div 64 < 32"
    by (auto simp: less_mult_imp_div_less less_eq_div_iff_mult_less_eq)
  have three: "c < 65536 \<Longrightarrow> c div 4096 < 16" and four: "c < 1114112 \<Longrightarrow> c div 262144 < 5"
    by (simp_all add: less_mult_imp_div_less)
  have three': "c div 4096 * 4096 + c div 64 mod 64 * 64 + c mod 64 = c"
    and four': "c div 262144 * 262144 + c div 4096 mod 64 * 4096 + c div 64 mod 64 * 64 + c mod 64 = c"
    unfolding div_4096 div_262144
    using step [of c] step [of "c div 64"] step [of "c div 64 div 64"] by linarith+
  have lt: "c < 1114112" using sc by (auto simp: is_scalar_def)
  consider "c < 128" | "128 \<le> c" "c < 2048" | "2048 \<le> c" "c < 65536" | "65536 \<le> c" by linarith
  then show ?thesis
  proof cases
    case 2
    obtain p q where pq: "p = c div 64" "q = c mod 64" by simp
    then have "2 \<le> p" "p < 32" "q < 64" "c = p * 64 + q" using two 2 by auto
    then show ?thesis using 2 by (simp add: utf8_head_def utf8_char_def is_cont_def)
  next
    case 3
    then show ?thesis using three three' sc by (simp add: utf8_head_def utf8_char_def is_cont_def Let_def)
  next
    case 4
    then show ?thesis using four four' lt by (simp add: utf8_head_def utf8_char_def is_cont_def Let_def)
  qed (simp add: utf8_head_def utf8_char_def)
qed

lemma utf8_decode_concat: "list_all is_scalar s \<Longrightarrow> utf8_decode (concat (map utf8_char s)) = Some s"
proof (induction s)
  case Nil
  then show ?case by (simp add: utf8_decode.simps)
next
  case (Cons c s)
  have "utf8_char c \<noteq> []" by (simp add: utf8_char_def)
  with Cons show ?case
    by (subst utf8_decode.simps) (simp add: utf8_head_char)
qed

lemma utf8_char_bytes: "is_scalar c \<Longrightarrow> b \<in> set (utf8_char c) \<Longrightarrow> b < 256"
proof -
  assume "is_scalar c" "b \<in> set (utf8_char c)"
  moreover have "c < 2048 \<Longrightarrow> c div 64 < 32" "c < 65536 \<Longrightarrow> c div 4096 < 16"
    "c < 1114112 \<Longrightarrow> c div 262144 < 5"
    by (simp_all add: less_mult_imp_div_less)
  moreover have "c mod 64 < 64" "c div 64 mod 64 < 64" "c div 4096 mod 64 < 64" by simp_all
  ultimately show "b < 256"
    by (auto simp: utf8_char_def is_scalar_def split: if_splits)
qed

lemma map_of_char_char_of: "\<forall>b \<in> set bs. b < 256 \<Longrightarrow> map (of_char :: char \<Rightarrow> nat) (map char_of bs) = bs"
  by (induction bs) auto

lemma utf8_decode_encode: "utf8_encode s = Inr b \<Longrightarrow> utf8_decode_strict b = Some s"
proof -
  assume "utf8_encode s = Inr b"
  then have sc: "list_all is_scalar s" and b: "b = map char_of (concat (map utf8_char s))"
    by (simp_all add: utf8_encode_def split: if_splits)
  have "\<forall>x \<in> set (concat (map utf8_char s)). x < 256"
    using sc by (auto simp: list_all_iff intro: utf8_char_bytes)
  then have "map of_char b = concat (map utf8_char s)"
    unfolding b by (rule map_of_char_char_of)
  then show ?thesis
    using sc by (simp add: utf8_decode_strict_def utf8_decode_concat)
qed

text \<open>Strictness: what is accepted is the encoding of what is returned.\<close>

lemma utf8_char_2: "2 \<le> p \<Longrightarrow> p < 32 \<Longrightarrow> q < 64 \<Longrightarrow> utf8_char (p * 64 + q) = [192 + p, 128 + q]"
  by (simp add: utf8_char_def)

lemma utf8_char_3:
  assumes "q < 64" "r < 64" "p < 16" "2048 \<le> p * 4096 + q * 64 + r"
  shows "utf8_char (p * 4096 + q * 64 + r) = [224 + p, 128 + q, 128 + r]"
proof -
  let ?c = "p * 4096 + q * 64 + r"
  have c: "?c = (p * 64 + q) * 64 + r" by simp
  have "?c div 4096 = p" "?c div 64 mod 64 = q" "?c mod 64 = r"
    unfolding c by (simp_all only: div_4096 horner_64 assms)
  moreover have "?c < 65536" using assms(1-3) by linarith
  ultimately show ?thesis using assms(4) by (simp add: utf8_char_def)
qed

lemma utf8_char_4:
  assumes "q < 64" "r < 64" "t < 64" "65536 \<le> p * 262144 + q * 4096 + r * 64 + t"
  shows "utf8_char (p * 262144 + q * 4096 + r * 64 + t) = [240 + p, 128 + q, 128 + r, 128 + t]"
proof -
  let ?c = "p * 262144 + q * 4096 + r * 64 + t"
  have c: "?c = ((p * 64 + q) * 64 + r) * 64 + t" by simp
  have "?c div 262144 = p" "?c div 4096 mod 64 = q" "?c div 64 mod 64 = r" "?c mod 64 = t"
    unfolding c by (simp_all only: div_4096 div_262144 horner_64 assms)
  then show ?thesis using assms(4) by (simp add: utf8_char_def)
qed

lemma utf8_head_inv:
  assumes "utf8_head bs = Some (c, rest)"
  shows "is_scalar c \<and> bs = utf8_char c @ rest"
proof -
  obtain b r where bs: "bs = b # r" using assms by (cases bs) (auto simp: utf8_head_def)
  show ?thesis
  proof (cases "b < 128")
    case True
    with assms bs show ?thesis by (simp add: utf8_head_def utf8_char_def is_scalar_def)
  next
    case b: False
    then obtain x r1 where r: "r = x # r1" "is_cont x"
      using assms bs by (cases r) (auto simp: utf8_head_def split: if_splits)
    then have x: "x = 128 + (x - 128)" "x - 128 < 64" by (auto simp: is_cont_def)
    show ?thesis
    proof (cases "194 \<le> b \<and> b < 224")
      case True
      then have "b = 192 + (b - 192)" "2 \<le> b - 192" "b - 192 < 32" by auto
      with x have "utf8_char ((b - 192) * 64 + (x - 128)) = [b, x]"
        using utf8_char_2 [of "b - 192" "x - 128"] by simp
      moreover have "c = (b - 192) * 64 + (x - 128)" "rest = r1"
        using assms bs b r True by (auto simp: utf8_head_def)
      moreover have "(b - 192) * 64 + (x - 128) < 2048" using True x by linarith
      ultimately show ?thesis using bs r by (simp add: is_scalar_def)
    next
      case nb: False
      then obtain y r2 where r1: "r1 = y # r2" "is_cont y"
        using assms bs b r by (cases r1) (auto simp: utf8_head_def split: if_splits)
      then have y: "y = 128 + (y - 128)" "y - 128 < 64" by (auto simp: is_cont_def)
      show ?thesis
      proof (cases "224 \<le> b \<and> b < 240")
        case True
        let ?c = "(b - 224) * 4096 + (x - 128) * 64 + (y - 128)"
        have c: "c = ?c" "rest = r2" "2048 \<le> ?c" "is_scalar ?c"
          using assms bs b r nb r1 True by (auto simp: utf8_head_def Let_def split: if_splits)
        moreover have "b - 224 < 16" using True by linarith
        ultimately have "utf8_char ?c = [b, x, y]"
          using utf8_char_3 [of "x - 128" "y - 128" "b - 224"] x y True by simp
        with c bs r r1 show ?thesis by simp
      next
        case nb': False
        then obtain z r3 where r2: "r2 = z # r3"
          using assms bs b r nb r1 by (cases r2) (auto simp: utf8_head_def split: if_splits)
        let ?c = "(b - 240) * 262144 + (x - 128) * 4096 + (y - 128) * 64 + (z - 128)"
        have c: "c = ?c" "rest = r3" "65536 \<le> ?c" "?c < 1114112" "is_cont z" "240 \<le> b"
          using assms bs b r nb r1 nb' r2 by (auto simp: utf8_head_def Let_def split: if_splits)
        have z: "z = 128 + (z - 128)" "z - 128 < 64" using \<open>is_cont z\<close> by (auto simp: is_cont_def)
        then have "utf8_char ?c = [b, x, y, z]"
          using utf8_char_4 [of "x - 128" "y - 128" "z - 128" "b - 240"] x y c by simp
        with c bs r r1 r2 show ?thesis by (simp add: is_scalar_def)
      qed
    qed
  qed
qed

lemma utf8_decode_inv:
  "utf8_decode bs = Some s \<Longrightarrow> list_all is_scalar s \<and> bs = concat (map utf8_char s)"
proof (induction bs arbitrary: s rule: utf8_decode.induct)
  case (1 bs)
  show ?case
  proof (cases "bs = []")
    case True
    with "1.prems" show ?thesis by (simp add: utf8_decode.simps)
  next
    case False
    with "1.prems" obtain c r t where h: "utf8_head bs = Some (c, r)" "utf8_decode r = Some t" "s = c # t"
      by (subst (asm) utf8_decode.simps) (auto split: option.splits)
    with "1.IH" [OF False h(1) refl h(2)] utf8_head_inv [OF h(1)] show ?thesis by simp
  qed
qed

lemma utf8_encode_decode: "utf8_decode_strict b = Some s \<Longrightarrow> utf8_encode s = Inr b"
  using utf8_decode_inv [of "map of_char b" s]
  by (auto simp: utf8_decode_strict_def utf8_encode_def dest: arg_cong [where f = "map char_of"])

section \<open>Hexadecimal bytes\<close>

definition bytes_hex :: "bytes \<Rightarrow> string" where
  "bytes_hex b = concat (map (\<lambda>c. [digit_char (of_char c div 16), digit_char (of_char c mod 16)]) b)"

fun bytes_fromhex :: "string \<Rightarrow> bytes" where
  "bytes_fromhex (a # b # r) = char_of (char_digit a * 16 + char_digit b) # bytes_fromhex r"
| "bytes_fromhex _ = []"

lemma of_char_div_16: "(of_char c :: nat) div 16 < 16"
proof -
  have "(of_char c :: nat) < 256" by simp
  then show ?thesis by (simp add: less_mult_imp_div_less)
qed

lemma bytes_hex_Nil [simp]: "bytes_hex [] = []"
  and bytes_hex_Cons [simp]:
    "bytes_hex (c # b) = digit_char (of_char c div 16) # digit_char (of_char c mod 16) # bytes_hex b"
  by (simp_all add: bytes_hex_def)

lemma length_bytes_hex [simp]: "length (bytes_hex b) = 2 * length b"
  by (induction b) auto

lemma bytes_hex_lower: "list_all is_lower_hex (bytes_hex b)"
  by (induction b) (auto simp: of_char_div_16)

lemma is_ascii_bytes_hex [simp]: "is_ascii (bytes_hex b)"
  by (simp add: is_ascii_hex bytes_hex_lower)

lemma fromhex_hex [simp]: "bytes_fromhex (bytes_hex b) = b"
  by (induction b) (auto simp: of_char_div_16)

lemma hex_fromhex:
  "list_all is_lower_hex s \<Longrightarrow> even (length s) \<Longrightarrow> bytes_hex (bytes_fromhex s) = s"
proof (induction s rule: bytes_fromhex.induct)
  case (1 a b r)
  then have "char_digit a < 16" "char_digit b < 16" by (simp_all add: char_digit_hex_less)
  moreover from this have "char_digit a * 16 + char_digit b < 256" by linarith
  ultimately show ?case using 1 by simp
qed auto

end
