(* ===== verification/Calendar.thy ===== *)
theory Calendar
  imports Prelude
begin

text \<open>
  The part of the standard library's \<open>datetime\<close> that the canonical codec uses: validation of
  the constructors' arguments in the proleptic Gregorian calendar of years 1 to 9999, and
  subtraction of a UTC offset, where leaving that range is Python's \<open>OverflowError\<close> (here
  \<open>None\<close>). \<open>ordinal\<close> is \<open>date.toordinal\<close>; the lemmas show that day steps are steps of the
  ordinal and that forward and backward steps are inverse.
\<close>

record pydate =
  d_year :: nat
  d_month :: nat
  d_day :: nat

record pytime =
  t_hour :: nat
  t_minute :: nat
  t_second :: nat
  t_micro :: nat

text \<open>\<open>TzFixed\<close> is a built-in \<open>datetime.timezone\<close> with its offset in microseconds; \<open>TzOther\<close>
  is any other \<open>tzinfo\<close> with the offset it reports for this \<open>datetime\<close>, if any.\<close>

datatype tzinfo = TzNone | TzFixed int | TzOther "int option"

record pydatetime =
  dt_date :: pydate
  dt_time :: pytime
  dt_tzinfo :: tzinfo

definition is_leap :: "nat \<Rightarrow> bool" where
  "is_leap y \<longleftrightarrow> y mod 4 = 0 \<and> (y mod 100 \<noteq> 0 \<or> y mod 400 = 0)"

definition days_in_month :: "nat \<Rightarrow> nat \<Rightarrow> nat" where
  "days_in_month y m =
     (if m = 2 then (if is_leap y then 29 else 28)
      else if m = 4 \<or> m = 6 \<or> m = 9 \<or> m = 11 then 30 else 31)"

definition valid_date :: "pydate \<Rightarrow> bool" where
  "valid_date d \<longleftrightarrow>
     1 \<le> d_year d \<and> d_year d \<le> 9999 \<and> 1 \<le> d_month d \<and> d_month d \<le> 12 \<and>
     1 \<le> d_day d \<and> d_day d \<le> days_in_month (d_year d) (d_month d)"

definition valid_time :: "pytime \<Rightarrow> bool" where
  "valid_time t \<longleftrightarrow> t_hour t \<le> 23 \<and> t_minute t \<le> 59 \<and> t_second t \<le> 59 \<and> t_micro t < 1000000"

definition day_micros :: int where
  "day_micros = 86400000000"

definition time_micros :: "pytime \<Rightarrow> int" where
  "time_micros t =
     ((int (t_hour t) * 60 + int (t_minute t)) * 60 + int (t_second t)) * 1000000 + int (t_micro t)"

definition time_of_micros :: "int \<Rightarrow> pytime" where
  "time_of_micros u =
     \<lparr>t_hour = nat (u div 3600000000), t_minute = nat (u div 60000000 mod 60),
      t_second = nat (u div 1000000 mod 60), t_micro = nat (u mod 1000000)\<rparr>"

definition next_day :: "pydate \<Rightarrow> pydate option" where
  "next_day d =
     (if d_day d < days_in_month (d_year d) (d_month d) then Some (d\<lparr>d_day := d_day d + 1\<rparr>)
      else if d_month d < 12 then Some (d\<lparr>d_month := d_month d + 1, d_day := 1\<rparr>)
      else if d_year d < 9999 then Some \<lparr>d_year = d_year d + 1, d_month = 1, d_day = 1\<rparr>
      else None)"

definition prev_day :: "pydate \<Rightarrow> pydate option" where
  "prev_day d =
     (if 1 < d_day d then Some (d\<lparr>d_day := d_day d - 1\<rparr>)
      else if 1 < d_month d
      then Some (d\<lparr>d_month := d_month d - 1, d_day := days_in_month (d_year d) (d_month d - 1)\<rparr>)
      else if 1 < d_year d then Some \<lparr>d_year = d_year d - 1, d_month = 12, d_day = 31\<rparr>
      else None)"

fun iterate :: "('a \<Rightarrow> 'a option) \<Rightarrow> nat \<Rightarrow> 'a \<Rightarrow> 'a option" where
  "iterate f 0 x = Some x"
| "iterate f (Suc n) x = (case f x of None \<Rightarrow> None | Some y \<Rightarrow> iterate f n y)"

definition add_days :: "pydate \<Rightarrow> int \<Rightarrow> pydate option" where
  "add_days d k = (if 0 \<le> k then iterate next_day (nat k) d else iterate prev_day (nat (- k)) d)"

text \<open>\<open>value - offset\<close> for a naive date and time; the offset is in microseconds.\<close>

definition subtract_offset :: "pydate \<Rightarrow> pytime \<Rightarrow> int \<Rightarrow> (pydate \<times> pytime) option" where
  "subtract_offset d t off =
     (let u = time_micros t - off in
      map_option (\<lambda>d'. (d', time_of_micros (u mod day_micros))) (add_days d (u div day_micros)))"

definition days_before_year :: "nat \<Rightarrow> int" where
  "days_before_year y =
     (let p = y - 1 in int (p * 365) + int (p div 4) - int (p div 100) + int (p div 400))"

definition days_before_month :: "nat \<Rightarrow> nat \<Rightarrow> nat" where
  "days_before_month y m = sum_list (map (days_in_month y) [1..<m])"

definition ordinal :: "pydate \<Rightarrow> int" where
  "ordinal d =
     days_before_year (d_year d) + int (days_before_month (d_year d) (d_month d)) + int (d_day d)"

section \<open>Day steps\<close>

lemma days_in_month_pos [simp]: "0 < days_in_month y m" "Suc 0 \<le> days_in_month y m"
  by (simp_all add: days_in_month_def)

lemma days_in_december [simp]: "days_in_month y 12 = 31"
  by (simp add: days_in_month_def)

lemma next_day_valid: "valid_date d \<Longrightarrow> next_day d = Some d' \<Longrightarrow> valid_date d'"
  by (auto simp: valid_date_def next_day_def split: if_splits)

lemma prev_day_valid: "valid_date d \<Longrightarrow> prev_day d = Some d' \<Longrightarrow> valid_date d'"
  by (cases d) (auto simp: valid_date_def prev_day_def split: if_splits)

lemma prev_next_day: "valid_date d \<Longrightarrow> next_day d = Some d' \<Longrightarrow> prev_day d' = Some d"
  by (cases d) (auto simp: valid_date_def prev_day_def next_day_def split: if_splits)

lemma next_prev_day: "valid_date d \<Longrightarrow> prev_day d = Some d' \<Longrightarrow> next_day d' = Some d"
  by (cases d) (auto simp: valid_date_def prev_day_def next_day_def split: if_splits)

lemma iterate_valid:
  "(\<And>x y. P x \<Longrightarrow> f x = Some y \<Longrightarrow> P y) \<Longrightarrow> P x \<Longrightarrow> iterate f n x = Some y \<Longrightarrow> P y"
  by (induction n arbitrary: x) (auto split: option.splits)

lemma add_days_valid: "valid_date d \<Longrightarrow> add_days d k = Some d' \<Longrightarrow> valid_date d'"
  by (auto simp: add_days_def split: if_splits
      intro: iterate_valid [OF next_day_valid] iterate_valid [OF prev_day_valid])

lemma add_days_0 [simp]: "add_days d 0 = Some d"
  by (simp add: add_days_def)

lemma days_before_next_month: "1 \<le> m \<Longrightarrow> days_before_month y (m + 1) = days_before_month y m + days_in_month y m"
  by (simp add: days_before_month_def)

lemma days_before_month_12: "days_before_month y 12 + 31 = (if is_leap y then 366 else 365)"
  by (simp add: days_before_month_def days_in_month_def upt_rec [of 1 12] upt_rec [of "Suc _" 12])

lemma days_before_next_year:
  assumes "1 \<le> y"
  shows "days_before_year (y + 1) = days_before_year y + (if is_leap y then 366 else 365)"
proof -
  obtain p where y: "y = Suc p" using assms by (cases y) auto
  have "Suc p mod 100 = 0 \<Longrightarrow> Suc p mod 4 = 0" and "Suc p mod 400 = 0 \<Longrightarrow> Suc p mod 100 = 0"
    using mod_mod_cancel [of 4 100 "Suc p"] mod_mod_cancel [of 100 400 "Suc p"] by simp_all
  then show ?thesis
    by (auto simp: y days_before_year_def Let_def is_leap_def div_Suc)
qed

lemma ordinal_next_day:
  assumes "valid_date d" "next_day d = Some d'"
  shows "ordinal d' = ordinal d + 1"
proof -
  let ?y = "d_year d" and ?m = "d_month d"
  consider (day) "d_day d < days_in_month ?y ?m"
    | (month) "d_day d = days_in_month ?y ?m" "?m < 12"
    | (year) "d_day d = 31" "?m = 12"
    using assms by (cases "?m = 12") (auto simp: valid_date_def le_less)
  then show ?thesis
  proof cases
    case day
    then show ?thesis using assms by (auto simp: next_day_def ordinal_def)
  next
    case month
    then show ?thesis
      using assms days_before_next_month [of ?m ?y]
      by (auto simp: next_day_def ordinal_def valid_date_def)
  next
    case year
    then show ?thesis
      using assms days_before_month_12 [of ?y] days_before_next_year [of ?y]
      by (auto simp: next_day_def ordinal_def valid_date_def days_before_month_def split: if_splits)
  qed
qed

lemma ordinal_prev_day: "valid_date d \<Longrightarrow> prev_day d = Some d' \<Longrightarrow> ordinal d' = ordinal d - 1"
  using ordinal_next_day [of d' d] by (simp add: next_prev_day prev_day_valid)

lemma ordinal_iterate_next:
  "valid_date d \<Longrightarrow> iterate next_day n d = Some d' \<Longrightarrow> ordinal d' = ordinal d + int n"
proof (induction n arbitrary: d)
  case (Suc n)
  then obtain e where e: "next_day d = Some e" "iterate next_day n e = Some d'"
    by (auto split: option.splits)
  with Suc show ?case
    using next_day_valid [of d e] ordinal_next_day [of d e] by simp
qed simp

lemma ordinal_iterate_prev:
  "valid_date d \<Longrightarrow> iterate prev_day n d = Some d' \<Longrightarrow> ordinal d' = ordinal d - int n"
proof (induction n arbitrary: d)
  case (Suc n)
  then obtain e where e: "prev_day d = Some e" "iterate prev_day n e = Some d'"
    by (auto split: option.splits)
  with Suc show ?case
    using prev_day_valid [of d e] ordinal_prev_day [of d e] by simp
qed simp

lemma ordinal_add_days: "valid_date d \<Longrightarrow> add_days d k = Some d' \<Longrightarrow> ordinal d' = ordinal d + k"
  by (auto simp: add_days_def split: if_splits dest: ordinal_iterate_next ordinal_iterate_prev)

section \<open>Times of day\<close>

lemma horner_int: "0 \<le> q \<Longrightarrow> q < k \<Longrightarrow> (a * k + q) div k = a \<and> (a * k + q) mod k = (q :: int)"
  by simp

lemma div_minutes: "(u :: int) div 60000000 = u div 1000000 div 60"
  using zdiv_zmult2_eq [of 60 u 1000000] by simp

lemma div_hours: "(u :: int) div 3600000000 = u div 1000000 div 60 div 60"
  using zdiv_zmult2_eq [of 3600 u 1000000] zdiv_zmult2_eq [of 60 "u div 1000000" 60] by simp

lemma time_micros_bounds: "valid_time t \<Longrightarrow> 0 \<le> time_micros t \<and> time_micros t < day_micros"
  by (auto simp: valid_time_def time_micros_def day_micros_def)

lemma time_of_micros_valid: "0 \<le> u \<Longrightarrow> u < day_micros \<Longrightarrow> valid_time (time_of_micros u)"
  by (auto simp: valid_time_def time_of_micros_def day_micros_def nat_le_iff nat_less_iff)

lemma time_of_time_micros:
  assumes "valid_time t"
  shows "time_of_micros (time_micros t) = t"
proof -
  obtain h m s u where t: "t = \<lparr>t_hour = h, t_minute = m, t_second = s, t_micro = u\<rparr>" by (cases t)
  let ?u = "time_micros t"
  have b: "m \<le> 59" "s \<le> 59" "u < 1000000" using assms by (simp_all add: t valid_time_def)
  have "?u div 1000000 = (int h * 60 + int m) * 60 + int s" "?u mod 1000000 = int u"
    using horner_int [of "int u" 1000000 "(int h * 60 + int m) * 60 + int s"] b(3)
    by (simp_all only: time_micros_def t pytime.simps)
  moreover have "((int h * 60 + int m) * 60 + int s) div 60 = int h * 60 + int m"
    "((int h * 60 + int m) * 60 + int s) mod 60 = int s"
    using horner_int [of "int s" 60 "int h * 60 + int m"] b(2) by (simp_all only:)
  moreover have "(int h * 60 + int m) div 60 = int h" "(int h * 60 + int m) mod 60 = int m"
    using b(1) by simp_all
  ultimately show ?thesis
    by (simp only: time_of_micros_def div_minutes div_hours) (simp add: t)
qed

lemma subtract_offset_zero: "valid_time t \<Longrightarrow> subtract_offset d t 0 = Some (d, t)"
  using time_micros_bounds [of t]
  by (simp add: subtract_offset_def Let_def time_of_time_micros)

lemma subtract_offset_valid:
  assumes "valid_date d" "subtract_offset d t off = Some (d', t')"
  shows "valid_date d' \<and> valid_time t'"
proof -
  have "0 < day_micros" by (simp add: day_micros_def)
  then show ?thesis
    using assms add_days_valid [of d]
    by (auto simp: subtract_offset_def Let_def intro!: time_of_micros_valid)
qed

text \<open>The instant is shifted by exactly the offset.\<close>

definition instant_micros :: "pydate \<Rightarrow> pytime \<Rightarrow> int" where
  "instant_micros d t = ordinal d * day_micros + time_micros t"

lemma micros_of_time:
  assumes "0 \<le> u"
  shows "time_micros (time_of_micros u) = u"
proof -
  define a where "a = u div 1000000"
  define b where "b = a div 60"
  have "u div 60000000 = b" "u div 3600000000 = b div 60"
    by (simp_all add: a_def b_def div_minutes div_hours)
  moreover have "0 \<le> a" "0 \<le> b" "0 \<le> b div 60" "0 \<le> u mod 1000000"
    using assms by (simp_all add: a_def b_def pos_imp_zdiv_nonneg_iff)
  ultimately have "time_micros (time_of_micros u)
      = ((b div 60 * 60 + b mod 60) * 60 + a mod 60) * 1000000 + u mod 1000000"
    by (simp add: time_micros_def time_of_micros_def a_def [symmetric] del: div_mult_mod_eq)
  also have "b div 60 * 60 + b mod 60 = b" by simp
  also have "b * 60 + a mod 60 = a" by (simp add: b_def)
  also have "a * 1000000 + u mod 1000000 = u" by (simp add: a_def)
  finally show ?thesis .
qed

lemma subtract_offset_instant:
  assumes "valid_date d" "subtract_offset d t off = Some (d', t')"
  shows "instant_micros d' t' = instant_micros d t - off"
proof -
  let ?u = "time_micros t - off"
  have d': "add_days d (?u div day_micros) = Some d'" and t': "t' = time_of_micros (?u mod day_micros)"
    using assms(2) by (auto simp: subtract_offset_def Let_def)
  have pos: "0 < day_micros" by (simp add: day_micros_def)
  have "instant_micros d' t' = (ordinal d + ?u div day_micros) * day_micros + ?u mod day_micros"
    using ordinal_add_days [OF assms(1) d'] pos by (simp add: instant_micros_def t' micros_of_time)
  also have "\<dots> = ordinal d * day_micros + (?u div day_micros * day_micros + ?u mod day_micros)"
    by (simp add: algebra_simps)
  also have "\<dots> = instant_micros d t - off" by (simp add: instant_micros_def)
  finally show ?thesis .
qed

text \<open>Distinct dates have distinct ordinals, so an instant determines its date and time.\<close>

lemma days_before_month_mono: "1 \<le> m \<Longrightarrow> m < m' \<Longrightarrow> days_before_month y m + days_in_month y m \<le> days_before_month y m'"
proof (induction m')
  case (Suc k)
  have "days_before_month y (Suc k) = days_before_month y k + days_in_month y k"
    using days_before_next_month [of k y] Suc.prems by simp
  then show ?case using Suc by (cases "m = k") auto
qed simp

lemma days_before_year_mono:
  assumes "1 \<le> y" "y < y'"
  shows "days_before_year (y + 1) \<le> days_before_year y'"
  using assms(2)
proof (induction y' rule: less_Suc_induct)
  case (1 i)
  then show ?case by simp
next
  case (2 i j k)
  have "days_before_year j \<le> days_before_year (j + 1)"
    using days_before_next_year [of j] 2(1) by simp
  then show ?case using 2 by simp
qed

lemma ordinal_bounds:
  assumes "valid_date d"
  shows "days_before_year (d_year d) < ordinal d" "ordinal d \<le> days_before_year (d_year d + 1)"
proof -
  let ?y = "d_year d" and ?m = "d_month d"
  have v: "1 \<le> ?y" "1 \<le> ?m" "?m \<le> 12" "1 \<le> d_day d" "d_day d \<le> days_in_month ?y ?m"
    using assms by (auto simp: valid_date_def)
  show "days_before_year ?y < ordinal d" using v by (simp add: ordinal_def)
  have "days_before_month ?y ?m + days_in_month ?y ?m \<le> days_before_month ?y 12 + 31"
    using days_before_month_mono [of ?m 12 ?y] v by (cases "?m = 12") auto
  then show "ordinal d \<le> days_before_year (?y + 1)"
    using v days_before_month_12 [of ?y] days_before_next_year [of ?y]
    by (cases "is_leap ?y") (simp_all add: ordinal_def)
qed

lemma ordinal_inj:
  assumes "valid_date d" "valid_date d'" "ordinal d = ordinal d'"
  shows "d = d'"
proof -
  have less: False if "valid_date a" "valid_date b" "ordinal a = ordinal b" "d_year a < d_year b" for a b
    using ordinal_bounds [OF that(1)] ordinal_bounds [OF that(2)] that days_before_year_mono [of "d_year a" "d_year b"]
    by (auto simp: valid_date_def)
  have y: "d_year d = d_year d'"
    using less [OF assms] less [OF assms(2,1) assms(3) [symmetric]] by (meson linorder_neqE_nat)
  have month: False if "valid_date a" "valid_date b" "ordinal a = ordinal b" "d_year a = d_year b" "d_month a < d_month b" for a b
    using that days_before_month_mono [of "d_month a" "d_month b" "d_year a"]
    by (auto simp: valid_date_def ordinal_def)
  have m: "d_month d = d_month d'"
    using month [OF assms y] month [OF assms(2,1) assms(3) [symmetric] y [symmetric]] by (meson linorder_neqE_nat)
  then have "d_day d = d_day d'" using y assms(3) by (simp add: ordinal_def)
  then show ?thesis using y m by simp
qed

lemma instant_micros_inj:
  assumes "valid_date d" "valid_date d'" "valid_time t" "valid_time t'" "instant_micros d t = instant_micros d' t'"
  shows "d = d' \<and> t = t'"
proof -
  have b: "0 \<le> time_micros t" "time_micros t < day_micros" "0 \<le> time_micros t'" "time_micros t' < day_micros"
    using time_micros_bounds assms(3,4) by auto
  have "ordinal d = ordinal d' \<and> time_micros t = time_micros t'"
    using horner_int [OF b(1,2), of "ordinal d"] horner_int [OF b(3,4), of "ordinal d'"] assms(5)
    unfolding instant_micros_def by metis
  then show ?thesis
    using ordinal_inj assms(1-4) time_of_time_micros by metis
qed

end
