(* ===== verification/Canonical_Model.thy ===== *)
theory Canonical_Model
  imports Stdlib_Text Calendar
begin

text \<open>
  \<open>src/forensic_data/canonical/model.py\<close>: the logical schema of a relation and the Python
  values that the canonical codec takes and returns. A frozen dataclass whose \<open>__post_init__\<close>
  validates is modelled by a record and a constructor function that raises; the \<open>wf_\<close>
  predicates state what every constructed instance satisfies. Checks of the form
  \<open>type(x) is not int\<close> are the types of the fields.
\<close>

definition PROTOCOL :: pystr where
  "PROTOCOL = asc ''dfe_canon_v1''"

definition UINT32_MAX :: nat where
  "UINT32_MAX = 2 ^ 32 - 1"

definition UINT64_MAX :: nat where
  "UINT64_MAX = 2 ^ 64 - 1"

definition INT64_MAX :: int where
  "INT64_MAX = 2 ^ 63 - 1"

definition DECIMAL_38_MAX :: int where
  "DECIMAL_38_MAX = 10 ^ 38 - 1"

datatype logical_type =
    INT64
  | DECIMAL
  | BOOLEAN
  | STRING
  | DATE
  | TIMESTAMP_LOCAL
  | TIMESTAMP_INSTANT

fun logical_type_value :: "logical_type \<Rightarrow> pystr" where
  "logical_type_value INT64 = asc ''int64''"
| "logical_type_value DECIMAL = asc ''decimal''"
| "logical_type_value BOOLEAN = asc ''boolean''"
| "logical_type_value STRING = asc ''string''"
| "logical_type_value DATE = asc ''date''"
| "logical_type_value TIMESTAMP_LOCAL = asc ''timestamp_local''"
| "logical_type_value TIMESTAMP_INSTANT = asc ''timestamp_instant''"

definition logical_types :: "logical_type list" where
  "logical_types = [INT64, DECIMAL, BOOLEAN, STRING, DATE, TIMESTAMP_LOCAL, TIMESTAMP_INSTANT]"

text \<open>\<open>LogicalType(value)\<close>: lookup of an enum member by its value.\<close>

definition logical_type_of_value :: "pystr \<Rightarrow> logical_type option" where
  "logical_type_of_value s = List.find (\<lambda>t. logical_type_value t = s) logical_types"

datatype normalization = NORMALIZATION_NONE

definition normalization_value :: "normalization \<Rightarrow> pystr" where
  "normalization_value n = asc ''none''"

datatype field_parameters =
    NoParameters
  | DecimalParameters (dp_precision: int) (dp_scale: int)
  | TimestampParameters (tp_precision: int)

definition mk_DecimalParameters :: "int \<Rightarrow> int \<Rightarrow> exn + field_parameters" where
  "mk_DecimalParameters precision scale =
     ebind (require (1 \<le> precision \<and> precision \<le> 38) SchemaValidationError) (\<lambda>_.
     ebind (require (0 \<le> scale \<and> scale \<le> precision) SchemaValidationError) (\<lambda>_.
     Inr (DecimalParameters precision scale)))"

definition mk_TimestampParameters :: "int \<Rightarrow> exn + field_parameters" where
  "mk_TimestampParameters precision =
     ebind (require (0 \<le> precision \<and> precision \<le> 9) SchemaValidationError) (\<lambda>_.
     Inr (TimestampParameters precision))"

record field_schema =
  fs_name :: pystr
  fs_logical_type :: logical_type
  fs_nullable :: bool
  fs_parameters :: field_parameters
  fs_normalization :: normalization

definition is_surrogate :: "codepoint \<Rightarrow> bool" where
  "is_surrogate c \<longleftrightarrow> 55296 \<le> c \<and> c \<le> 57343"

definition validate_unicode_scalars :: "pystr \<Rightarrow> exn + unit" where
  "validate_unicode_scalars s =
     check_all (\<lambda>c. require (\<not> is_surrogate c) SchemaValidationError) s"

definition is_decimal_parameters :: "field_parameters \<Rightarrow> bool" where
  "is_decimal_parameters p \<longleftrightarrow> (case p of DecimalParameters _ _ \<Rightarrow> True | _ \<Rightarrow> False)"

definition is_timestamp_parameters :: "field_parameters \<Rightarrow> bool" where
  "is_timestamp_parameters p \<longleftrightarrow> (case p of TimestampParameters _ \<Rightarrow> True | _ \<Rightarrow> False)"

definition field_schema_post_init :: "field_schema \<Rightarrow> exn + unit" where
  "field_schema_post_init f =
     ebind (validate_unicode_scalars (fs_name f)) (\<lambda>_.
     ebind (require (fs_normalization f = NORMALIZATION_NONE) SchemaValidationError) (\<lambda>_.
     if fs_logical_type f = DECIMAL then
       require (is_decimal_parameters (fs_parameters f)) SchemaValidationError
     else if fs_logical_type f = TIMESTAMP_LOCAL \<or> fs_logical_type f = TIMESTAMP_INSTANT then
       require (is_timestamp_parameters (fs_parameters f)) SchemaValidationError
     else
       require (fs_parameters f = NoParameters) SchemaValidationError))"

definition mk_FieldSchema :: "field_schema \<Rightarrow> exn + field_schema" where
  "mk_FieldSchema f = ebind (field_schema_post_init f) (\<lambda>_. Inr f)"

record canonical_schema =
  cs_protocol :: pystr
  cs_fields :: "field_schema list"

definition mk_CanonicalSchema :: "canonical_schema \<Rightarrow> exn + canonical_schema" where
  "mk_CanonicalSchema s =
     ebind (require (cs_protocol s = PROTOCOL) SchemaValidationError) (\<lambda>_.
     ebind (require (length (cs_fields s) \<le> UINT32_MAX) SchemaValidationError) (\<lambda>_.
     Inr s))"

text \<open>The Python values of a row: \<open>CanonicalInput\<close> on the way in, \<open>DecodedValue\<close> on the way out. A
  \<open>Decimal\<close> is its \<open>as_tuple()\<close>: sign, digits and exponent, or a special value.\<close>

datatype pydecimal =
    DFinite (dec_sign: bool) (dec_digits: "nat list") (dec_exponent: int)
  | DSpecial

datatype pyval =
    PInt int
  | PDecimal pydecimal
  | PBool bool
  | PStr pystr
  | PDate pydate
  | PDateTime pydatetime

section \<open>Well-formed instances\<close>

definition wf_parameters :: "logical_type \<Rightarrow> field_parameters \<Rightarrow> bool" where
  "wf_parameters t p \<longleftrightarrow>
     (case p of
        NoParameters \<Rightarrow> t \<in> {INT64, BOOLEAN, STRING, DATE}
      | DecimalParameters pr sc \<Rightarrow> t = DECIMAL \<and> 1 \<le> pr \<and> pr \<le> 38 \<and> 0 \<le> sc \<and> sc \<le> pr
      | TimestampParameters pr \<Rightarrow> t \<in> {TIMESTAMP_LOCAL, TIMESTAMP_INSTANT} \<and> 0 \<le> pr \<and> pr \<le> 9)"

text \<open>Code points of a Python \<open>str\<close> are below \<open>0x110000\<close>.\<close>

definition wf_field :: "field_schema \<Rightarrow> bool" where
  "wf_field f \<longleftrightarrow>
     list_all is_scalar (fs_name f) \<and> wf_parameters (fs_logical_type f) (fs_parameters f)"

definition wf_schema :: "canonical_schema \<Rightarrow> bool" where
  "wf_schema s \<longleftrightarrow>
     cs_protocol s = PROTOCOL \<and> length (cs_fields s) \<le> UINT32_MAX \<and> list_all wf_field (cs_fields s)"

definition is_pystr :: "pystr \<Rightarrow> bool" where
  "is_pystr s \<longleftrightarrow> list_all (\<lambda>c. c < 1114112) s"

lemma logical_type_of_value [simp]: "logical_type_of_value (logical_type_value t) = Some t"
  by (cases t) (simp_all add: logical_type_of_value_def logical_types_def)

lemma logical_type_of_value_Some: "logical_type_of_value s = Some t \<Longrightarrow> s = logical_type_value t"
  by (auto simp: logical_type_of_value_def find_Some_iff)

lemma normalization_eq: "n = NORMALIZATION_NONE"
  by (cases n) simp

lemma is_scalar_iff: "is_scalar c \<longleftrightarrow> c < 1114112 \<and> \<not> is_surrogate c"
  by (auto simp: is_scalar_def is_surrogate_def)

lemma validate_unicode_scalars_iff:
  "is_pystr s \<Longrightarrow> validate_unicode_scalars s = Inr () \<longleftrightarrow> list_all is_scalar s"
  by (auto simp: validate_unicode_scalars_def check_all_eq_Inr_iff result_iffs is_pystr_def
      list_all_iff is_scalar_iff)

lemma mk_DecimalParameters_iff:
  "mk_DecimalParameters pr sc = Inr p \<longleftrightarrow>
     p = DecimalParameters pr sc \<and> 1 \<le> pr \<and> pr \<le> 38 \<and> 0 \<le> sc \<and> sc \<le> pr"
  by (auto simp: mk_DecimalParameters_def result_iffs)

lemma mk_TimestampParameters_iff:
  "mk_TimestampParameters pr = Inr p \<longleftrightarrow> p = TimestampParameters pr \<and> 0 \<le> pr \<and> pr \<le> 9"
  by (auto simp: mk_TimestampParameters_def result_iffs)

text \<open>A field whose parameters were built by their own constructor is accepted exactly when the
  parameters fit the logical type.\<close>

lemma mk_FieldSchema_iff:
  assumes "is_pystr (fs_name f)"
    and "fs_parameters f = NoParameters \<or>
         (\<exists>pr sc. mk_DecimalParameters pr sc = Inr (fs_parameters f)) \<or>
         (\<exists>pr. mk_TimestampParameters pr = Inr (fs_parameters f))"
  shows "mk_FieldSchema f = Inr g \<longleftrightarrow> g = f \<and> wf_field f"
  using assms(2) validate_unicode_scalars_iff [OF assms(1)] normalization_eq [of "fs_normalization f"]
  by (cases "fs_logical_type f")
    (auto simp: mk_FieldSchema_def field_schema_post_init_def wf_field_def wf_parameters_def
      result_iffs mk_DecimalParameters_iff mk_TimestampParameters_iff
      is_decimal_parameters_def is_timestamp_parameters_def)

lemma mk_CanonicalSchema_iff:
  "mk_CanonicalSchema s = Inr t \<longleftrightarrow> t = s \<and> cs_protocol s = PROTOCOL \<and> length (cs_fields s) \<le> UINT32_MAX"
  by (auto simp: mk_CanonicalSchema_def result_iffs)

lemma wf_field_cases:
  assumes "wf_field f"
  obtains (no) "fs_parameters f = NoParameters" "fs_logical_type f \<in> {INT64, BOOLEAN, STRING, DATE}"
    | (decimal) pr sc where "fs_parameters f = DecimalParameters pr sc" "fs_logical_type f = DECIMAL"
        "1 \<le> pr" "pr \<le> 38" "0 \<le> sc" "sc \<le> pr"
    | (timestamp) pr where "fs_parameters f = TimestampParameters pr"
        "fs_logical_type f \<in> {TIMESTAMP_LOCAL, TIMESTAMP_INSTANT}" "0 \<le> pr" "pr \<le> 9"
  using assms by (cases "fs_parameters f") (auto simp: wf_field_def wf_parameters_def)

end
