(* ===== verification/Sha256.thy ===== *)
theory Sha256
  imports Prelude
begin

unbundle bit_operations_syntax

text \<open>
  The standard library's \<open>hashlib.sha256\<close>, which the program applies to schema metadata,
  envelopes and evidence: FIPS 180-4 over 32-bit words. Padding, the message schedule and the
  64 rounds are written out, so that digests are computable and no property of the hash is
  assumed.
\<close>

type_synonym u32 = "32 word"
type_synonym sha_state = "u32 list"

definition sha256_k :: "u32 list" where
  "sha256_k =
    [1116352408, 1899447441, 3049323471, 3921009573, 961987163, 1508970993, 2453635748, 2870763221,
     3624381080, 310598401, 607225278, 1426881987, 1925078388, 2162078206, 2614888103, 3248222580,
     3835390401, 4022224774, 264347078, 604807628, 770255983, 1249150122, 1555081692, 1996064986,
     2554220882, 2821834349, 2952996808, 3210313671, 3336571891, 3584528711, 113926993, 338241895,
     666307205, 773529912, 1294757372, 1396182291, 1695183700, 1986661051, 2177026350, 2456956037,
     2730485921, 2820302411, 3259730800, 3345764771, 3516065817, 3600352804, 4094571909, 275423344,
     430227734, 506948616, 659060556, 883997877, 958139571, 1322822218, 1537002063, 1747873779,
     1955562222, 2024104815, 2227730452, 2361852424, 2428436474, 2756734187, 3204031479, 3329325298]"

definition sha256_init :: sha_state where
  "sha256_init =
    [1779033703, 3144134277, 1013904242, 2773480762, 1359893119, 2600822924, 528734635, 1541459225]"

definition big_sigma0 :: "u32 \<Rightarrow> u32" where
  "big_sigma0 x = word_rotr 2 x XOR word_rotr 13 x XOR word_rotr 22 x"

definition big_sigma1 :: "u32 \<Rightarrow> u32" where
  "big_sigma1 x = word_rotr 6 x XOR word_rotr 11 x XOR word_rotr 25 x"

definition small_sigma0 :: "u32 \<Rightarrow> u32" where
  "small_sigma0 x = word_rotr 7 x XOR word_rotr 18 x XOR drop_bit 3 x"

definition small_sigma1 :: "u32 \<Rightarrow> u32" where
  "small_sigma1 x = word_rotr 17 x XOR word_rotr 19 x XOR drop_bit 10 x"

definition choose_bits :: "u32 \<Rightarrow> u32 \<Rightarrow> u32 \<Rightarrow> u32" where
  "choose_bits x y z = (x AND y) XOR (NOT x AND z)"

definition majority_bits :: "u32 \<Rightarrow> u32 \<Rightarrow> u32 \<Rightarrow> u32" where
  "majority_bits x y z = (x AND y) XOR (x AND z) XOR (y AND z)"

text \<open>\<open>be_bytes w n\<close> is \<open>n.to_bytes(w, "big")\<close>; its inverse is \<open>value_of 256\<close>
  (\<open>int.from_bytes\<close>).\<close>

fun be_bytes :: "nat \<Rightarrow> nat \<Rightarrow> nat list" where
  "be_bytes 0 n = []"
| "be_bytes (Suc w) n = be_bytes w (n div 256) @ [n mod 256]"

definition sha256_pad :: "nat list \<Rightarrow> nat list" where
  "sha256_pad m =
     m @ [128] @ replicate ((119 - length m mod 64) mod 64) 0 @ be_bytes 8 (8 * length m)"

fun chunks :: "nat \<Rightarrow> nat \<Rightarrow> 'a list \<Rightarrow> 'a list list" where
  "chunks 0 k xs = []"
| "chunks (Suc n) k xs = take k xs # chunks n k (drop k xs)"

definition block_words :: "nat list \<Rightarrow> u32 list" where
  "block_words b = map (\<lambda>c. word_of_nat (value_of 256 c)) (chunks 16 4 b)"

definition schedule_step :: "u32 list \<Rightarrow> u32 list" where
  "schedule_step w =
     (let n = length w in
      w @ [small_sigma1 (w ! (n - 2)) + w ! (n - 7) + small_sigma0 (w ! (n - 15)) + w ! (n - 16)])"

definition schedule :: "u32 list \<Rightarrow> u32 list" where
  "schedule w = (schedule_step ^^ 48) w"

fun sha256_round :: "u32 \<times> u32 \<Rightarrow> sha_state \<Rightarrow> sha_state" where
  "sha256_round (k, w) [a, b, c, d, e, f, g, h] =
     (let t1 = h + big_sigma1 e + choose_bits e f g + k + w;
          t2 = big_sigma0 a + majority_bits a b c
      in [t1 + t2, a, b, c, d + t1, e, f, g])"
| "sha256_round _ s = s"

definition sha256_compress :: "nat list \<Rightarrow> sha_state \<Rightarrow> sha_state" where
  "sha256_compress b s =
     map2 (+) s (fold sha256_round (zip sha256_k (schedule (block_words b))) s)"

definition sha256 :: "bytes \<Rightarrow> bytes" where
  "sha256 m =
     (let p = sha256_pad (map of_char m);
          s = fold sha256_compress (chunks (length p div 64) 64 p) sha256_init
      in map char_of (concat (map (\<lambda>w. be_bytes 4 (unat w)) s)))"

lemma length_be_bytes [simp]: "length (be_bytes w n) = w"
  by (induction w arbitrary: n) auto

lemma length_sha256_round [simp]: "length (sha256_round kw s) = length s"
  by (induction kw s rule: sha256_round.induct) (auto simp: Let_def)

lemma length_fold_round [simp]: "length (fold sha256_round kws s) = length s"
  by (induction kws arbitrary: s) auto

lemma length_compress [simp]: "length (sha256_compress b s) = length s"
  by (simp add: sha256_compress_def)

lemma length_fold_compress [simp]: "length (fold sha256_compress bs s) = length s"
  by (induction bs arbitrary: s) auto

lemma length_sha256 [simp]: "length (sha256 m) = 32"
proof -
  have "length (concat (map (\<lambda>w::u32. be_bytes 4 (unat w)) s)) = 4 * length s" for s
    by (induction s) auto
  then show ?thesis by (simp add: sha256_def Let_def sha256_init_def)
qed

end
