(* ===== verification/Canonical_Schema.thy ===== *)
theory Canonical_Schema
  imports Canonical_Model Sha256
begin

text \<open>
  \<open>src/forensic_data/canonical/schema.py\<close>: canonical JSON metadata of a schema, its strict reader,
  the schema digest and the envelope headers. The metadata text is \<open>json_dumps\<close> of a value built
  field by field; \<open>schema_from_metadata_json\<close> reads it back with every check of the source. The
  main results are that reading undoes writing, that the metadata (and so the digest's preimage)
  determines the schema, and the shape of the envelope headers.
\<close>

section \<open>Writing\<close>

definition parameters_metadata :: "field_schema \<Rightarrow> jval" where
  "parameters_metadata f =
     (case fs_parameters f of
        DecimalParameters pr sc \<Rightarrow>
          JObj [(asc ''precision'', JInt pr), (asc ''scale'', JInt sc)]
      | TimestampParameters pr \<Rightarrow> JObj [(asc ''precision'', JInt pr)]
      | NoParameters \<Rightarrow> JObj [])"

definition field_metadata :: "field_schema \<Rightarrow> jval" where
  "field_metadata f =
     JObj [(asc ''name'', JStr (fs_name f)),
           (asc ''type'', JStr (logical_type_value (fs_logical_type f))),
           (asc ''nullable'', JBool (fs_nullable f)),
           (asc ''parameters'', parameters_metadata f),
           (asc ''normalization'', JStr (normalization_value (fs_normalization f)))]"

definition schema_metadata :: "canonical_schema \<Rightarrow> jval" where
  "schema_metadata s =
     JObj [(asc ''protocol'', JStr (cs_protocol s)),
           (asc ''fields'', JArr (map field_metadata (cs_fields s)))]"

definition canonical_schema_json :: "canonical_schema \<Rightarrow> pystr" where
  "canonical_schema_json s = json_dumps (schema_metadata s)"

definition metadata_digest :: "pystr \<Rightarrow> exn + bytes" where
  "metadata_digest m = ebind (utf8_encode m) (\<lambda>b. Inr (sha256 b))"

definition schema_digest :: "canonical_schema \<Rightarrow> exn + bytes" where
  "schema_digest s = metadata_digest (canonical_schema_json s)"

definition schema_digest_hex :: "canonical_schema \<Rightarrow> exn + string" where
  "schema_digest_hex s = ebind (schema_digest s) (\<lambda>d. Inr (bytes_hex d))"

definition ROW_PREFIX :: string where
  "ROW_PREFIX = ''DFE1R''"

definition KEY_PREFIX :: string where
  "KEY_PREFIX = ''DFE1K''"

record envelope_context =
  ec_schema :: canonical_schema
  ec_metadata_json :: pystr
  ec_schema_digest :: bytes
  ec_schema_digest_hex :: string
  ec_row_header :: string
  ec_key_header :: string

definition prepare_envelope_context :: "canonical_schema \<Rightarrow> exn + envelope_context" where
  "prepare_envelope_context s =
     (let metadata_json = canonical_schema_json s in
      ebind (metadata_digest metadata_json) (\<lambda>digest.
        let digest_hex = bytes_hex digest;
            header_suffix = digest_hex @ format_nat 16 8 (length (cs_fields s))
        in Inr \<lparr>ec_schema = s,
                ec_metadata_json = metadata_json,
                ec_schema_digest = digest,
                ec_schema_digest_hex = digest_hex,
                ec_row_header = ROW_PREFIX @ header_suffix,
                ec_key_header = KEY_PREFIX @ header_suffix\<rparr>))"

section \<open>Reading\<close>

definition require_object :: "jval \<Rightarrow> exn + (pystr \<times> jval) list" where
  "require_object v = (case v of JObj ps \<Rightarrow> Inr ps | _ \<Rightarrow> Inl SchemaValidationError)"

definition require_exact_keys :: "(pystr \<times> jval) list \<Rightarrow> string list \<Rightarrow> exn + unit" where
  "require_exact_keys ps expected =
     require (set (map fst ps) = set (map asc expected)) SchemaValidationError"

definition obj_get :: "(pystr \<times> jval) list \<Rightarrow> string \<Rightarrow> exn + jval" where
  "obj_get ps k = (case map_of ps (asc k) of None \<Rightarrow> Inl KeyError | Some v \<Rightarrow> Inr v)"

definition require_integer :: "jval \<Rightarrow> exn + int" where
  "require_integer v = (case v of JInt i \<Rightarrow> Inr i | _ \<Rightarrow> Inl SchemaValidationError)"

definition parameters_from_json_value :: "logical_type \<Rightarrow> jval \<Rightarrow> exn + field_parameters" where
  "parameters_from_json_value t v =
     ebind (require_object v) (\<lambda>ps.
     if t = DECIMAL then
       ebind (require_exact_keys ps [''precision'', ''scale'']) (\<lambda>_.
       ebind (obj_get ps ''precision'') (\<lambda>pv.
       ebind (require_integer pv) (\<lambda>p.
       ebind (obj_get ps ''scale'') (\<lambda>sv.
       ebind (require_integer sv) (\<lambda>s.
       mk_DecimalParameters p s)))))
     else if t = TIMESTAMP_LOCAL \<or> t = TIMESTAMP_INSTANT then
       ebind (require_exact_keys ps [''precision'']) (\<lambda>_.
       ebind (obj_get ps ''precision'') (\<lambda>pv.
       ebind (require_integer pv) (\<lambda>p.
       mk_TimestampParameters p)))
     else
       ebind (require_exact_keys ps []) (\<lambda>_. Inr NoParameters))"

definition field_from_json_value :: "jval \<Rightarrow> exn + field_schema" where
  "field_from_json_value v =
     ebind (require_object v) (\<lambda>ps.
     ebind (require_exact_keys ps [''name'', ''type'', ''nullable'', ''parameters'', ''normalization'']) (\<lambda>_.
     ebind (obj_get ps ''name'') (\<lambda>nv.
     ebind (case nv of JStr n \<Rightarrow> Inr n | _ \<Rightarrow> Inl SchemaValidationError) (\<lambda>name.
     ebind (obj_get ps ''type'') (\<lambda>tv.
     ebind (case tv of JStr t \<Rightarrow> Inr t | _ \<Rightarrow> Inl SchemaValidationError) (\<lambda>type_value.
     ebind (case logical_type_of_value type_value of Some t \<Rightarrow> Inr t | None \<Rightarrow> Inl SchemaValidationError)
       (\<lambda>logical_type.
     ebind (obj_get ps ''nullable'') (\<lambda>bv.
     ebind (case bv of JBool b \<Rightarrow> Inr b | _ \<Rightarrow> Inl SchemaValidationError) (\<lambda>nullable.
     ebind (obj_get ps ''normalization'') (\<lambda>norm.
     ebind (require (norm = JStr (normalization_value NORMALIZATION_NONE)) SchemaValidationError) (\<lambda>_.
     ebind (obj_get ps ''parameters'') (\<lambda>pv.
     ebind (parameters_from_json_value logical_type pv) (\<lambda>parameters.
     mk_FieldSchema \<lparr>fs_name = name, fs_logical_type = logical_type, fs_nullable = nullable,
       fs_parameters = parameters, fs_normalization = NORMALIZATION_NONE\<rparr>)))))))))))))"

definition schema_from_metadata_json :: "pystr \<Rightarrow> exn + canonical_schema" where
  "schema_from_metadata_json m =
     ebind (case json_loads m of Some v \<Rightarrow> Inr v | None \<Rightarrow> Inl SchemaValidationError) (\<lambda>parsed.
     ebind (require_object parsed) (\<lambda>ps.
     ebind (require_exact_keys ps [''protocol'', ''fields'']) (\<lambda>_.
     ebind (obj_get ps ''protocol'') (\<lambda>pv.
     ebind (case pv of JStr p \<Rightarrow> Inr p | _ \<Rightarrow> Inl SchemaValidationError) (\<lambda>protocol.
     ebind (obj_get ps ''fields'') (\<lambda>fv.
     ebind (case fv of JArr fs \<Rightarrow> Inr fs | _ \<Rightarrow> Inl SchemaValidationError) (\<lambda>fields_array.
     ebind (traverse field_from_json_value fields_array) (\<lambda>fields.
     mk_CanonicalSchema \<lparr>cs_protocol = protocol, cs_fields = fields\<rparr>))))))))"

section \<open>Reading undoes writing\<close>

lemma small_int_wf: "\<bar>i\<bar> < 100 \<Longrightarrow> json_wf (JInt i)"
proof -
  assume "\<bar>i\<bar> < 100"
  moreover have "(10::int) ^ 2 \<le> 10 ^ int_max_str_digits"
    by (rule power_increasing) (simp_all add: int_max_str_digits_def)
  ultimately show ?thesis by simp
qed

lemma parameters_metadata_wf: "wf_field f \<Longrightarrow> json_wf (parameters_metadata f)"
  by (erule wf_field_cases)
    (auto simp: parameters_metadata_def simp del: json_wf.simps(1) intro!: small_int_wf)

lemma field_metadata_wf: "wf_field f \<Longrightarrow> json_wf (field_metadata f)"
  using parameters_metadata_wf [of f] by (simp add: field_metadata_def)

lemma schema_metadata_wf: "wf_schema s \<Longrightarrow> json_wf (schema_metadata s)"
  using field_metadata_wf by (auto simp: schema_metadata_def wf_schema_def list_all_iff)

lemma parameters_norm: "json_norm (parameters_metadata f) = parameters_metadata f"
  by (simp add: parameters_metadata_def split: field_parameters.splits)

lemma parameters_from_metadata:
  "wf_field f \<Longrightarrow>
   parameters_from_json_value (fs_logical_type f) (parameters_metadata f) = Inr (fs_parameters f)"
  by (erule wf_field_cases)
    (auto simp: parameters_from_json_value_def parameters_metadata_def require_object_def
      require_exact_keys_def obj_get_def require_integer_def mk_DecimalParameters_def
      mk_TimestampParameters_def)

lemma wf_field_post_init: "wf_field f \<Longrightarrow> field_schema_post_init f = Inr ()"
proof -
  assume wf: "wf_field f"
  then have "is_pystr (fs_name f)" and "list_all is_scalar (fs_name f)"
    by (auto simp: wf_field_def is_pystr_def list_all_iff is_scalar_iff)
  then have "validate_unicode_scalars (fs_name f) = Inr ()" by (simp add: validate_unicode_scalars_iff)
  then show ?thesis
    using wf by (elim wf_field_cases)
      (auto simp: field_schema_post_init_def normalization_eq is_decimal_parameters_def
        is_timestamp_parameters_def)
qed

lemma field_norm:
  "json_norm (field_metadata f) =
     JObj [(asc ''name'', JStr (fs_name f)),
           (asc ''normalization'', JStr (normalization_value (fs_normalization f))),
           (asc ''nullable'', JBool (fs_nullable f)),
           (asc ''parameters'', parameters_metadata f),
           (asc ''type'', JStr (logical_type_value (fs_logical_type f)))]"
  by (simp add: field_metadata_def parameters_norm)

lemma field_from_metadata:
  assumes "wf_field f"
  shows "field_from_json_value (json_norm (field_metadata f)) = Inr f"
proof -
  have "require_exact_keys [(asc ''name'', a), (asc ''normalization'', b), (asc ''nullable'', c),
          (asc ''parameters'', d), (asc ''type'', e)]
          [''name'', ''type'', ''nullable'', ''parameters'', ''normalization''] = Inr ()" for a b c d e
    by (auto simp: require_exact_keys_def result_iffs)
  moreover have "\<lparr>fs_name = fs_name f, fs_logical_type = fs_logical_type f, fs_nullable = fs_nullable f,
      fs_parameters = fs_parameters f, fs_normalization = NORMALIZATION_NONE\<rparr> = f"
    by (rule field_schema.equality) (simp_all add: normalization_eq [of "fs_normalization f"])
  ultimately show ?thesis
    using wf_field_post_init [OF assms] parameters_from_metadata [OF assms]
    by (simp add: field_from_json_value_def field_norm require_object_def obj_get_def mk_FieldSchema_def normalization_value_def)
qed

lemma schema_from_metadata:
  assumes "wf_schema s"
  shows "schema_from_metadata_json (canonical_schema_json s) = Inr s"
proof -
  let ?fs = "map (\<lambda>f. json_norm (field_metadata f)) (cs_fields s)"
  have loads: "json_loads (canonical_schema_json s) =
      Some (JObj [(asc ''fields'', JArr ?fs), (asc ''protocol'', JStr (cs_protocol s))])"
    using json_loads_dumps [OF schema_metadata_wf [OF assms]]
    by (simp add: canonical_schema_json_def schema_metadata_def comp_def)
  have "traverse field_from_json_value ?fs = Inr (map id (cs_fields s))"
    unfolding traverse_map using assms
    by (intro traverse_Inr) (auto simp: field_from_metadata wf_schema_def list_all_iff)
  moreover have "require_exact_keys [(asc ''fields'', a), (asc ''protocol'', b)] [''protocol'', ''fields''] = Inr ()"
    for a b by (auto simp: require_exact_keys_def result_iffs)
  ultimately show ?thesis
    using assms
    by (simp add: schema_from_metadata_json_def loads require_object_def obj_get_def
        mk_CanonicalSchema_def wf_schema_def)
qed

lemma canonical_schema_json_inj:
  "wf_schema s \<Longrightarrow> wf_schema t \<Longrightarrow> canonical_schema_json s = canonical_schema_json t \<Longrightarrow> s = t"
  using schema_from_metadata by (metis sum.inject(2))

section \<open>Envelope contexts\<close>

fun json_scalar :: "jval \<Rightarrow> bool" where
  "json_scalar (JStr s) \<longleftrightarrow> list_all is_scalar s"
| "json_scalar (JArr vs) \<longleftrightarrow> (\<forall>v \<in> set vs. json_scalar v)"
| "json_scalar (JObj ps) \<longleftrightarrow> (\<forall>p \<in> set ps. list_all is_scalar (fst p) \<and> json_scalar (snd p))"
| "json_scalar v \<longleftrightarrow> True"

lemma is_scalar_of_char [simp]: "is_scalar (of_char c)"
proof -
  have "(of_char c :: nat) < 256" by (rule nat_of_char_less_256)
  then have "(of_char c :: nat) < 55296" by linarith
  then show ?thesis unfolding is_scalar_def ..
qed

lemma list_all_scalar_asc [simp]: "list_all is_scalar (asc s)"
  by (simp add: asc_def list_all_iff)

lemma escape_char_scalar: "is_scalar c \<Longrightarrow> list_all is_scalar (escape_char c)"
  by (simp add: escape_char_def is_scalar_def [of "numeral _"])

lemma quote_str_scalar: "list_all is_scalar s \<Longrightarrow> list_all is_scalar (quote_str s)"
  using escape_char_scalar by (auto simp: quote_str_def list_all_iff is_scalar_def [of "numeral _"])

lemma join_comma_scalar: "(\<And>x. x \<in> set xs \<Longrightarrow> list_all is_scalar x) \<Longrightarrow> list_all is_scalar (join_comma xs)"
  by (induction xs rule: join_comma.induct) (auto simp: is_scalar_def [of "numeral _"])

lemma json_dumps_scalar: "json_scalar v \<Longrightarrow> list_all is_scalar (json_dumps v)"
proof (induction v)
  case (JArr vs)
  have "list_all is_scalar (join_comma (map json_dumps vs))"
    using JArr by (intro join_comma_scalar) auto
  then show ?case by (simp add: is_scalar_def [of "numeral _"])
next
  case (JObj ps)
  have "list_all is_scalar (member_text p)" if "p \<in> set ps" for p
  proof -
    have "list_all is_scalar (json_dumps (snd p))"
      using that JObj.prems by (intro JObj.IH [of p]) (auto simp: snds.simps)
    then show ?thesis
      using that JObj.prems by (simp add: member_text_def is_scalar_def [of "numeral _"] quote_str_scalar)
  qed
  then have "list_all is_scalar (join_comma (map member_text (sort_key fst ps)))"
    by (intro join_comma_scalar) auto
  then show ?case
    by (simp add: json_dumps_JObj is_scalar_def [of "numeral _"] del: json_dumps.simps)
qed (auto intro: quote_str_scalar simp del: asc_Cons)

lemma field_metadata_scalar: "wf_field f \<Longrightarrow> json_scalar (field_metadata f)"
proof -
  assume "wf_field f"
  moreover have "list_all is_scalar (logical_type_value t)" for t
    by (cases t) (simp_all add: is_scalar_def)
  ultimately show ?thesis
    by (auto simp: field_metadata_def parameters_metadata_def wf_field_def normalization_value_def
        simp del: asc_Cons split: field_parameters.splits)
qed

lemma schema_json_scalar: "wf_schema s \<Longrightarrow> list_all is_scalar (canonical_schema_json s)"
  unfolding canonical_schema_json_def
  by (rule json_dumps_scalar)
    (auto simp: schema_metadata_def wf_schema_def PROTOCOL_def list_all_iff field_metadata_scalar
      simp del: asc_Cons intro: list_all_scalar_asc [unfolded list_all_iff, rule_format])

definition wf_context :: "envelope_context \<Rightarrow> bool" where
  "wf_context c \<longleftrightarrow> wf_schema (ec_schema c) \<and> prepare_envelope_context (ec_schema c) = Inr c"

lemma prepare_envelope_context_ok:
  assumes "wf_schema s"
  obtains c where "prepare_envelope_context s = Inr c" "wf_context c" "ec_schema c = s"
proof -
  have "utf8_encode (canonical_schema_json s) \<noteq> Inl e" for e
    using schema_json_scalar [OF assms] by (simp add: utf8_encode_def)
  then obtain b where "utf8_encode (canonical_schema_json s) = Inr b"
    by (cases "utf8_encode (canonical_schema_json s)") auto
  then show ?thesis
    using assms that by (auto simp: prepare_envelope_context_def metadata_digest_def Let_def wf_context_def)
qed

lemma wf_context_headers:
  assumes "wf_context c"
  obtains hex count where
    "ec_row_header c = ROW_PREFIX @ hex @ count" "ec_key_header c = KEY_PREFIX @ hex @ count"
    "length hex = 64" "list_all is_lower_hex hex" "length count = 8" "list_all is_lower_hex count"
proof -
  let ?n = "length (cs_fields (ec_schema c))" and ?hex = "ec_schema_digest_hex c"
  obtain d where d: "?hex = bytes_hex d" "length d = 32"
    and h: "ec_row_header c = ROW_PREFIX @ ?hex @ format_nat 16 8 ?n"
      "ec_key_header c = KEY_PREFIX @ ?hex @ format_nat 16 8 ?n"
    using assms
    by (cases c) (auto simp: wf_context_def prepare_envelope_context_def metadata_digest_def Let_def result_iffs)
  have "?n < 16 ^ 8" using assms by (simp add: wf_context_def wf_schema_def UINT32_MAX_def)
  then have "length (format_nat 16 8 ?n) = 8" by (simp add: length_format_nat)
  then show ?thesis
    using that [of ?hex "format_nat 16 8 ?n"] d h bytes_hex_lower [of d]
    by (auto simp: list_all_iff format_nat_hex)
qed

text \<open>(C32) The canonical JSON text of a schema is read back as the same schema.\<close>

theorem schema_json_round_trip:
  "wf_schema s \<Longrightarrow> schema_from_metadata_json (canonical_schema_json s) = Inr s"
  by (rule schema_from_metadata)

theorem schema_json_round_trip_witness:
  "schema_from_metadata_json (canonical_schema_json
     \<lparr>cs_protocol = PROTOCOL,
      cs_fields = [\<lparr>fs_name = asc ''amount'', fs_logical_type = DECIMAL, fs_nullable = True,
          fs_parameters = DecimalParameters 12 2, fs_normalization = NORMALIZATION_NONE\<rparr>]\<rparr>)
   = Inr \<lparr>cs_protocol = PROTOCOL,
      cs_fields = [\<lparr>fs_name = asc ''amount'', fs_logical_type = DECIMAL, fs_nullable = True,
          fs_parameters = DecimalParameters 12 2, fs_normalization = NORMALIZATION_NONE\<rparr>]\<rparr>"
  by (rule schema_json_round_trip)
    (simp add: wf_schema_def wf_field_def wf_parameters_def is_scalar_def UINT32_MAX_def)

end
