(* ===== verification/Canonical_Codec.thy ===== *)
theory Canonical_Codec
  imports Complex_Main Canonical_Schema
begin

text \<open>
  \<open>src/forensic_data/canonical/codec.py\<close>: encoding of Python values into canonical payloads,
  their strict decoders. Regular expressions of the source are written as the predicates they denote;
  an ASCII-only expression cannot match text with other code points, so text inputs are first
  converted by \<open>ascii_text\<close>. The lemmas show that decoding accepts exactly the payloads that encoding
  produces, each being the encoding of the decoded value.
\<close>

section \<open>Payload encoding and decoding\<close>

definition ascii_text :: "pystr \<Rightarrow> string option" where
  "ascii_text s = (if list_all (\<lambda>c. c < 128) s then Some (map char_of s) else None)"

definition decode_ascii :: "bytes \<Rightarrow> exn + string" where
  "decode_ascii payload = (if is_ascii payload then Inr payload else Inl PayloadValidationError)"

text \<open>\<open>_CANONICAL_INTEGER\<close>: \<open>0\<close> or an optional minus and digits without a leading zero.\<close>

definition canonical_integer :: "string \<Rightarrow> bool" where
  "canonical_integer s \<longleftrightarrow>
     s = ''0'' \<or>
     (let d = (if s \<noteq> [] \<and> hd s = CHR ''-'' then tl s else s)
      in d \<noteq> [] \<and> list_all is_dec d \<and> hd d \<noteq> CHR ''0'')"

definition encode_int64 :: "pyval \<Rightarrow> exn + bytes" where
  "encode_int64 v =
     (case v of
        PInt i \<Rightarrow>
          ebind (require (- (2 ^ 63) \<le> i \<and> i \<le> INT64_MAX) PayloadValidationError) (\<lambda>_.
          Inr (int_str i))
      | _ \<Rightarrow> Inl PayloadValidationError)"

text \<open>Python compares strings by code points: \<open>absolute_digits > limit\<close>.\<close>

fun str_less :: "string \<Rightarrow> string \<Rightarrow> bool" where
  "str_less [] [] \<longleftrightarrow> False"
| "str_less [] (_ # _) \<longleftrightarrow> True"
| "str_less (_ # _) [] \<longleftrightarrow> False"
| "str_less (a # s) (b # t) \<longleftrightarrow>
     (of_char a :: nat) < of_char b \<or> (of_char a :: nat) = of_char b \<and> str_less s t"

definition parse_int :: "string \<Rightarrow> int" where
  "parse_int s =
     (if s \<noteq> [] \<and> hd s = CHR ''-'' then - int (parse_nat 10 (tl s)) else int (parse_nat 10 s))"

definition decode_int64 :: "bytes \<Rightarrow> exn + pyval" where
  "decode_int64 payload =
     ebind (decode_ascii payload) (\<lambda>t.
     ebind (require (canonical_integer t) PayloadValidationError) (\<lambda>_.
     let negative = (t \<noteq> [] \<and> hd t = CHR ''-'');
         absolute_digits = (if negative then tl t else t);
         limit = (if negative then ''9223372036854775808'' else ''9223372036854775807'')
     in ebind (require (\<not> (length absolute_digits > length limit \<or>
            length absolute_digits = length limit \<and> str_less limit absolute_digits))
            PayloadValidationError) (\<lambda>_.
        Inr (PInt (parse_int t)))))"

text \<open>\<open>Decimal(str)\<close>: the constructor is exact; a result outside the exponent range of the decimal
  context of largest precision is \<open>InvalidOperation\<close>, which the codec turns into its own error.\<close>

definition MAX_EMAX :: int where
  "MAX_EMAX = 999999999999999999"

definition MIN_ETINY :: int where
  "MIN_ETINY = - 1999999999999999997"

definition strip_zeros :: "nat list \<Rightarrow> nat list" where
  "strip_zeros ds = dropWhile (\<lambda>d. d = 0) ds"

definition nonempty_digits :: "nat list \<Rightarrow> nat list" where
  "nonempty_digits ds = (if ds = [] then [0] else ds)"

definition decimal_in_range :: "nat list \<Rightarrow> int \<Rightarrow> bool" where
  "decimal_in_range ds e \<longleftrightarrow> e + int (length ds) - 1 \<le> MAX_EMAX \<and> MIN_ETINY \<le> e"

text \<open>\<open>_DECIMAL_INPUT\<close> with its parts: sign, integer digits, fraction digits, exponent.\<close>

definition split_sign :: "string \<Rightarrow> bool \<times> string" where
  "split_sign s =
     (if s \<noteq> [] \<and> hd s = CHR ''-'' then (True, tl s)
      else if s \<noteq> [] \<and> hd s = CHR ''+'' then (False, tl s)
      else (False, s))"

definition match_exponent :: "string \<Rightarrow> int option" where
  "match_exponent s =
     (if s = [] then Some 0
      else if hd s = CHR ''e'' \<or> hd s = CHR ''E'' then
        (let (neg, d) = split_sign (tl s) in
         if d \<noteq> [] \<and> list_all is_dec d
         then Some (if neg then - int (parse_nat 10 d) else int (parse_nat 10 d))
         else None)
      else None)"

definition match_decimal :: "string \<Rightarrow> (bool \<times> nat list \<times> nat list \<times> int) option" where
  "match_decimal s =
     (let (neg, r) = split_sign s;
          ip = takeWhile is_dec r;
          r1 = dropWhile is_dec r;
          dot = (r1 \<noteq> [] \<and> hd r1 = CHR ''.'');
          fp = (if dot then takeWhile is_dec (tl r1) else []);
          r2 = (if dot then dropWhile is_dec (tl r1) else r1)
      in if ip = [] \<and> fp = [] then None
         else map_option (\<lambda>e. (neg, map char_digit ip, map char_digit fp, e)) (match_exponent r2))"

definition decimal_of_int :: "int \<Rightarrow> pydecimal" where
  "decimal_of_int i = DFinite (i < 0) (digits_of 10 (nat \<bar>i\<bar>)) 0"

definition decimal_from_input :: "pyval \<Rightarrow> exn + pydecimal" where
  "decimal_from_input v =
     (case v of
        PDecimal d \<Rightarrow> Inr d
      | PInt i \<Rightarrow> Inr (decimal_of_int i)
      | PStr s \<Rightarrow>
          (case Option.bind (ascii_text s) match_decimal of
             None \<Rightarrow> Inl PayloadValidationError
           | Some (neg, ip, fp, e) \<Rightarrow>
               (let ds = nonempty_digits (strip_zeros (ip @ fp)); x = e - int (length fp)
                in if decimal_in_range ds x then Inr (DFinite neg ds x)
                   else Inl PayloadValidationError))
      | _ \<Rightarrow> Inl PayloadValidationError)"

text \<open>The scaled coefficient: digits are appended or, when they are all zero, removed.\<close>

definition scale_coefficient :: "nat list \<Rightarrow> int \<Rightarrow> int \<Rightarrow> exn + nat list" where
  "scale_coefficient coefficient shift precision =
     (if 0 \<le> shift then
        (if int (length coefficient) + shift > precision then Inl PayloadValidationError
         else Inr (coefficient @ replicate (nat shift) 0))
      else
        (let removed_digits = nat (- shift) in
         if removed_digits > length coefficient then Inl PayloadValidationError
         else if list_ex (\<lambda>d. d \<noteq> 0) (drop (length coefficient - removed_digits) coefficient)
         then Inl PayloadValidationError
         else Inr (take (length coefficient - removed_digits) coefficient)))"

definition encode_finite_decimal :: "bool \<Rightarrow> nat list \<Rightarrow> int \<Rightarrow> int \<Rightarrow> int \<Rightarrow> exn + bytes" where
  "encode_finite_decimal sign digits exponent precision scale =
     (let coefficient = strip_zeros digits in
      if coefficient = [] then Inr ''0''
      else
        ebind (scale_coefficient coefficient (exponent + scale) precision) (\<lambda>scaled.
        let scaled_digits = nonempty_digits (strip_zeros scaled) in
        if int (length scaled_digits) > precision then Inl PayloadValidationError
        else Inr ((if sign then ''-'' else []) @ map digit_char scaled_digits)))"

definition encode_decimal :: "pyval \<Rightarrow> int \<Rightarrow> int \<Rightarrow> exn + bytes" where
  "encode_decimal v precision scale =
     ebind (case v of
              PInt i \<Rightarrow>
                require (- (10 ^ nat (precision - scale)) < i \<and> i < 10 ^ nat (precision - scale))
                  PayloadValidationError
            | _ \<Rightarrow> Inr ()) (\<lambda>_.
     ebind (decimal_from_input v) (\<lambda>d.
     case d of
       DSpecial \<Rightarrow> Inl PayloadValidationError
     | DFinite sign digits exponent \<Rightarrow>
         encode_finite_decimal sign digits exponent precision scale))"

definition decode_decimal :: "bytes \<Rightarrow> int \<Rightarrow> int \<Rightarrow> exn + pyval" where
  "decode_decimal payload precision scale =
     ebind (decode_ascii payload) (\<lambda>t.
     ebind (require (canonical_integer t) PayloadValidationError) (\<lambda>_.
     let negative = (t \<noteq> [] \<and> hd t = CHR ''-'');
         absolute_digits = (if negative then tl t else t)
     in ebind (require (int (length absolute_digits) \<le> precision) PayloadValidationError) (\<lambda>_.
        Inr (PDecimal (DFinite negative (map char_digit absolute_digits) (- scale))))))"

definition encode_boolean :: "pyval \<Rightarrow> exn + bytes" where
  "encode_boolean v =
     (case v of PBool b \<Rightarrow> Inr (if b then ''1'' else ''0'') | _ \<Rightarrow> Inl PayloadValidationError)"

definition decode_boolean :: "bytes \<Rightarrow> exn + pyval" where
  "decode_boolean payload =
     (if payload = ''0'' then Inr (PBool False)
      else if payload = ''1'' then Inr (PBool True)
      else ebind (decode_ascii payload) (\<lambda>_. Inl PayloadValidationError))"

definition validate_string_scalars :: "pystr \<Rightarrow> exn + unit" where
  "validate_string_scalars s =
     check_all (\<lambda>c.
       ebind (require (\<not> is_surrogate c) PayloadValidationError) (\<lambda>_.
       require (c \<noteq> 0) PayloadValidationError)) s"

definition encode_string :: "pyval \<Rightarrow> exn + bytes" where
  "encode_string v =
     (case v of
        PStr s \<Rightarrow> ebind (validate_string_scalars s) (\<lambda>_. utf8_encode s)
      | _ \<Rightarrow> Inl PayloadValidationError)"

definition decode_string :: "bytes \<Rightarrow> exn + pyval" where
  "decode_string payload =
     (case utf8_decode_strict payload of
        None \<Rightarrow> Inl PayloadValidationError
      | Some s \<Rightarrow> ebind (validate_string_scalars s) (\<lambda>_. Inr (PStr s)))"

text \<open>Fixed-width expressions: \<open>d\<close> in a template stands for one decimal digit.\<close>

definition matches_template :: "string \<Rightarrow> string \<Rightarrow> bool" where
  "matches_template t s \<longleftrightarrow>
     list_all2 (\<lambda>p c. if p = CHR ''d'' then is_dec c else p = c) t s"

definition slice :: "nat \<Rightarrow> nat \<Rightarrow> 'a list \<Rightarrow> 'a list" where
  "slice i j s = take (j - i) (drop i s)"

definition parse_date :: "string \<Rightarrow> exn + pydate" where
  "parse_date s =
     ebind (require (matches_template ''dddd-dd-dd'' s) PayloadValidationError) (\<lambda>_.
     let d = \<lparr>d_year = parse_nat 10 (slice 0 4 s), d_month = parse_nat 10 (slice 5 7 s),
              d_day = parse_nat 10 (slice 8 10 s)\<rparr>
     in ebind (require (valid_date d) PayloadValidationError) (\<lambda>_. Inr d))"

definition format_date :: "pydate \<Rightarrow> string" where
  "format_date d =
     format_nat 10 4 (d_year d) @ ''-'' @ format_nat 10 2 (d_month d) @ ''-'' @ format_nat 10 2 (d_day d)"

definition encode_date :: "pyval \<Rightarrow> exn + bytes" where
  "encode_date v =
     (case v of
        PDate d \<Rightarrow> Inr (format_date d)
      | PStr s \<Rightarrow>
          (case ascii_text s of
             None \<Rightarrow> Inl PayloadValidationError
           | Some t \<Rightarrow>
               ebind (parse_date t) (\<lambda>parsed.
               ebind (require (t = format_date parsed) PayloadValidationError) (\<lambda>_.
               Inr (format_date parsed))))
      | _ \<Rightarrow> Inl PayloadValidationError)"

definition decode_date :: "bytes \<Rightarrow> exn + pyval" where
  "decode_date payload =
     ebind (decode_ascii payload) (\<lambda>t.
     ebind (parse_date t) (\<lambda>parsed.
     ebind (require (t = format_date parsed) PayloadValidationError) (\<lambda>_.
     Inr (PDate parsed))))"

text \<open>\<open>_datetime_from_match\<close> on the first 19 characters; the rest is the fraction (and offset).\<close>

definition datetime_from_match :: "string \<Rightarrow> exn + pydate \<times> pytime" where
  "datetime_from_match s =
     (let d = \<lparr>d_year = parse_nat 10 (slice 0 4 s), d_month = parse_nat 10 (slice 5 7 s),
               d_day = parse_nat 10 (slice 8 10 s)\<rparr>;
          t = \<lparr>t_hour = parse_nat 10 (slice 11 13 s), t_minute = parse_nat 10 (slice 14 16 s),
               t_second = parse_nat 10 (slice 17 19 s), t_micro = 0\<rparr>
      in if valid_date d \<and> valid_time t then Inr (d, t) else Inl PayloadValidationError)"

definition match_clock :: "string \<Rightarrow> bool" where
  "match_clock s \<longleftrightarrow> matches_template ''dddd-dd-ddTdd:dd:dd'' (take 19 s)"

text \<open>\<open>(?:\.(?P<fraction>[0-9]{1,9}))?\<close>: the fraction and the rest.\<close>

definition match_fraction :: "string \<Rightarrow> (string \<times> string) option" where
  "match_fraction s =
     (if s \<noteq> [] \<and> hd s = CHR ''.'' then
        (let f = takeWhile is_dec (tl s) in
         if 1 \<le> length f \<and> length f \<le> 9 then Some (f, dropWhile is_dec (tl s)) else None)
      else Some ([], s))"

definition parse_local_timestamp :: "string \<Rightarrow> exn + (pydate \<times> pytime) \<times> string" where
  "parse_local_timestamp s =
     (case (if match_clock s then match_fraction (drop 19 s) else None) of
        None \<Rightarrow> Inl PayloadValidationError
      | Some (f, rest) \<Rightarrow>
          if rest \<noteq> [] then Inl PayloadValidationError
          else ebind (datetime_from_match s) (\<lambda>v. Inr (v, f)))"

text \<open>The offset in microseconds of \<open>Z\<close> or \<open>\<plusminus>HH:MM\<close>.\<close>

definition match_offset :: "string \<Rightarrow> bool" where
  "match_offset s \<longleftrightarrow>
     s = ''Z'' \<or> matches_template ''+dd:dd'' s \<or> matches_template ''-dd:dd'' s"

definition parse_offset :: "string \<Rightarrow> exn + int" where
  "parse_offset s =
     (if s = ''Z'' then Inr 0
      else
        (let offset_hours = parse_nat 10 (slice 1 3 s); offset_minutes = parse_nat 10 (slice 4 6 s) in
         ebind (require (\<not> (offset_hours > 23 \<or> offset_minutes > 59)) PayloadValidationError) (\<lambda>_.
         let offset = (int offset_hours * 60 + int offset_minutes) * 60000000
         in Inr (if hd s = CHR ''-'' then - offset else offset))))"

definition parse_instant_timestamp :: "string \<Rightarrow> exn + (pydate \<times> pytime) \<times> string \<times> int" where
  "parse_instant_timestamp s =
     (case (if match_clock s then match_fraction (drop 19 s) else None) of
        None \<Rightarrow> Inl PayloadValidationError
      | Some (f, off) \<Rightarrow>
          if \<not> match_offset off then Inl PayloadValidationError
          else ebind (datetime_from_match s) (\<lambda>v.
               ebind (parse_offset off) (\<lambda>offset. Inr (v, f, offset))))"

definition fit_fraction :: "string \<Rightarrow> nat \<Rightarrow> exn + string" where
  "fit_fraction fraction precision =
     (if length fraction > precision \<and> list_ex (\<lambda>c. c \<noteq> CHR ''0'') (drop precision fraction)
      then Inl PayloadValidationError
      else (let kept = take precision fraction
            in Inr (kept @ replicate (precision - length kept) CHR ''0'')))"

definition format_timestamp :: "pydate \<Rightarrow> pytime \<Rightarrow> string \<Rightarrow> nat \<Rightarrow> string" where
  "format_timestamp d t fraction precision =
     format_date d @ ''T'' @ format_nat 10 2 (t_hour t) @ '':'' @ format_nat 10 2 (t_minute t) @ '':'' @
     format_nat 10 2 (t_second t) @ (if precision > 0 then ''.'' @ fraction else [])"

definition encode_timestamp_local :: "pyval \<Rightarrow> nat \<Rightarrow> exn + bytes" where
  "encode_timestamp_local v precision =
     (case v of
        PDateTime dt \<Rightarrow>
          if dt_tzinfo dt \<noteq> TzNone then Inl PayloadValidationError
          else
            ebind (fit_fraction (format_nat 10 6 (t_micro (dt_time dt))) precision) (\<lambda>fraction.
            Inr (format_timestamp (dt_date dt) (dt_time dt) fraction precision))
      | PStr s \<Rightarrow>
          (case ascii_text s of
             None \<Rightarrow> Inl PayloadValidationError
           | Some x \<Rightarrow>
               ebind (parse_local_timestamp x) (\<lambda>((d, t), input_fraction).
               ebind (fit_fraction input_fraction precision) (\<lambda>fraction.
               Inr (format_timestamp d t fraction precision))))
      | _ \<Rightarrow> Inl PayloadValidationError)"

definition decode_timestamp_local :: "bytes \<Rightarrow> nat \<Rightarrow> exn + pyval" where
  "decode_timestamp_local payload precision =
     ebind (decode_ascii payload) (\<lambda>t.
     ebind (encode_timestamp_local (PStr (asc t)) precision) (\<lambda>canonical.
     ebind (require (t = canonical) PayloadValidationError) (\<lambda>_.
     Inr (PStr (asc t)))))"

definition encode_timestamp_instant :: "pyval \<Rightarrow> nat \<Rightarrow> exn + bytes" where
  "encode_timestamp_instant v precision =
     (case v of
        PDateTime dt \<Rightarrow>
          (case dt_tzinfo dt of
             TzFixed offset \<Rightarrow>
               (case subtract_offset (dt_date dt) (dt_time dt) offset of
                  None \<Rightarrow> Inl PayloadValidationError
                | Some (d, t) \<Rightarrow>
                    ebind (fit_fraction (format_nat 10 6 (t_micro t)) precision) (\<lambda>fraction.
                    Inr (format_timestamp d t fraction precision @ ''Z'')))
           | _ \<Rightarrow> Inl PayloadValidationError)
      | PStr s \<Rightarrow>
          (case ascii_text s of
             None \<Rightarrow> Inl PayloadValidationError
           | Some x \<Rightarrow>
               ebind (parse_instant_timestamp x) (\<lambda>((d0, t0), input_fraction, offset).
               case subtract_offset d0 t0 offset of
                 None \<Rightarrow> Inl PayloadValidationError
               | Some (d, t) \<Rightarrow>
                   ebind (fit_fraction input_fraction precision) (\<lambda>fraction.
                   Inr (format_timestamp d t fraction precision @ ''Z''))))
      | _ \<Rightarrow> Inl PayloadValidationError)"

definition decode_timestamp_instant :: "bytes \<Rightarrow> nat \<Rightarrow> exn + pyval" where
  "decode_timestamp_instant payload precision =
     ebind (decode_ascii payload) (\<lambda>t.
     ebind (encode_timestamp_instant (PStr (asc t)) precision) (\<lambda>canonical.
     ebind (require (t = canonical) PayloadValidationError) (\<lambda>_.
     Inr (PStr (asc t)))))"

definition encode_payload :: "field_schema \<Rightarrow> pyval \<Rightarrow> exn + bytes" where
  "encode_payload f v =
     (case fs_logical_type f of
        INT64 \<Rightarrow> encode_int64 v
      | DECIMAL \<Rightarrow>
          (case fs_parameters f of
             DecimalParameters precision scale \<Rightarrow> encode_decimal v precision scale
           | _ \<Rightarrow> Inl SchemaValidationError)
      | BOOLEAN \<Rightarrow> encode_boolean v
      | STRING \<Rightarrow> encode_string v
      | DATE \<Rightarrow> encode_date v
      | TIMESTAMP_LOCAL \<Rightarrow>
          (case fs_parameters f of
             TimestampParameters precision \<Rightarrow> encode_timestamp_local v (nat precision)
           | _ \<Rightarrow> Inl SchemaValidationError)
      | TIMESTAMP_INSTANT \<Rightarrow>
          (case fs_parameters f of
             TimestampParameters precision \<Rightarrow> encode_timestamp_instant v (nat precision)
           | _ \<Rightarrow> Inl SchemaValidationError))"

definition decode_payload :: "field_schema \<Rightarrow> bytes \<Rightarrow> exn + pyval" where
  "decode_payload f payload =
     (case fs_logical_type f of
        INT64 \<Rightarrow> decode_int64 payload
      | DECIMAL \<Rightarrow>
          (case fs_parameters f of
             DecimalParameters precision scale \<Rightarrow> decode_decimal payload precision scale
           | _ \<Rightarrow> Inl SchemaValidationError)
      | BOOLEAN \<Rightarrow> decode_boolean payload
      | STRING \<Rightarrow> decode_string payload
      | DATE \<Rightarrow> decode_date payload
      | TIMESTAMP_LOCAL \<Rightarrow>
          (case fs_parameters f of
             TimestampParameters precision \<Rightarrow> decode_timestamp_local payload (nat precision)
           | _ \<Rightarrow> Inl SchemaValidationError)
      | TIMESTAMP_INSTANT \<Rightarrow>
          (case fs_parameters f of
             TimestampParameters precision \<Rightarrow> decode_timestamp_instant payload (nat precision)
           | _ \<Rightarrow> Inl SchemaValidationError))"

section \<open>Canonical integers\<close>

lemma digit_char_0 [simp]: "digit_char 0 = CHR ''0''" by code_simp

lemma int_str_0 [simp]: "int_str 0 = ''0''" and parse_int_0 [simp]: "parse_int ''0'' = 0"
  by code_simp+

lemma digits_canonical:
  "ds \<noteq> [] \<Longrightarrow> hd ds \<noteq> 0 \<Longrightarrow> \<forall>d \<in> set ds. d < 10 \<Longrightarrow>
   list_all is_dec (map digit_char ds) \<and> hd (map digit_char ds) \<noteq> CHR ''0'' \<and> hd (map digit_char ds) \<noteq> CHR ''-''"
proof -
  assume *: "ds \<noteq> []" "hd ds \<noteq> 0" "\<forall>d \<in> set ds. d < 10"
  then have h: "hd ds < 10" by simp
  then have "char_digit (digit_char (hd ds)) = hd ds" "is_dec (digit_char (hd ds))" by simp_all
  moreover have "char_digit CHR ''0'' = 0" "\<not> is_dec CHR ''-''" by (simp_all add: char_digit_def is_dec_def)
  ultimately have "digit_char (hd ds) \<noteq> CHR ''0''" "digit_char (hd ds) \<noteq> CHR ''-''" using *(2) by metis+
  then show ?thesis using * by (simp add: hd_map list_all_iff)
qed

text \<open>The texts accepted by \<open>canonical_integer\<close> are a sign and a digit list without leading zero.\<close>

definition sign_text :: "bool \<Rightarrow> string" where
  "sign_text neg = (if neg then ''-'' else [])"

lemma canonical_integer_cases:
  assumes "canonical_integer s"
  obtains (zero) "s = ''0''"
    | (nonzero) neg ds where "s = sign_text neg @ map digit_char ds" "ds \<noteq> []" "hd ds \<noteq> 0"
        "\<forall>d \<in> set ds. d < 10"
proof (cases "s = ''0''")
  case False
  define neg where "neg = (s \<noteq> [] \<and> hd s = CHR ''-'')"
  define d where "d = (if neg then tl s else s)"
  have d: "d \<noteq> []" "list_all is_dec d" "hd d \<noteq> CHR ''0''"
    using assms False by (auto simp: canonical_integer_def Let_def d_def neg_def)
  have s: "s = sign_text neg @ d"
    by (cases s) (auto simp: d_def neg_def sign_text_def)
  have "map digit_char (map char_digit d) = d"
    using d(2) by (auto simp: list_all_iff intro!: map_idI)
  moreover have "char_digit (hd d) \<noteq> 0"
  proof
    assume "char_digit (hd d) = 0"
    moreover have "is_dec (hd d)" using d by (cases d) auto
    ultimately have "digit_char 0 = hd d" by (metis digit_char_digit_dec)
    then show False using d(3) by simp
  qed
  ultimately show thesis
    using nonzero [of neg "map char_digit d"] s d char_digit_dec_less
    by (auto simp: hd_map list_all_iff)
qed (rule zero)

lemma canonical_integer_zero [simp]: "canonical_integer ''0''"
  by (simp add: canonical_integer_def)

lemma canonical_integer_nonzero [simp]:
  assumes "ds \<noteq> []" "hd ds \<noteq> 0" "\<forall>d \<in> set ds. d < 10"
  shows "canonical_integer (sign_text neg @ map digit_char ds)"
    "is_ascii (sign_text neg @ map digit_char ds)"
    "(sign_text neg @ map digit_char ds \<noteq> [] \<and> hd (sign_text neg @ map digit_char ds) = CHR ''-'') = neg"
  using digits_canonical [OF assms] assms(1)
    is_ascii_hex [of "map digit_char ds"]
  by (auto simp: canonical_integer_def sign_text_def Let_def list_all_iff is_dec_is_lower_hex)

lemma tl_sign_text [simp]: "(if neg then tl (sign_text neg @ s) else sign_text neg @ s) = s"
  by (simp add: sign_text_def)

lemma map_char_digit_char: "\<forall>d \<in> set ds. d < 10 \<Longrightarrow> map char_digit (map digit_char ds) = ds"
  by (auto intro!: map_idI)

lemma value_of_pos: "ds \<noteq> [] \<Longrightarrow> hd ds \<noteq> 0 \<Longrightarrow> 0 < value_of 10 ds"
  by (cases ds) (auto simp: value_of_Cons)

lemma parse_int_signed:
  assumes "ds \<noteq> []" "hd ds \<noteq> 0" "\<forall>d \<in> set ds. d < 10"
  shows "parse_int (sign_text neg @ map digit_char ds)
           = (if neg then - int (value_of 10 ds) else int (value_of 10 ds))"
  using canonical_integer_nonzero(3) [OF assms, of neg] map_char_digit_char [OF assms(3)]
  by (auto simp: parse_int_def sign_text_def parse_nat_def simp del: map_map)

lemma int_str_signed:
  assumes "ds \<noteq> []" "hd ds \<noteq> 0" "\<forall>d \<in> set ds. d < 10"
  shows "int_str (if neg then - int (value_of 10 ds) else int (value_of 10 ds))
           = sign_text neg @ map digit_char ds"
  using value_of_pos [OF assms(1,2)] digits_of_value [of 10 ds] assms
  by (auto simp: int_str_def sign_text_def format_nat_def)

lemma int_str_cases:
  obtains (zero) "i = 0" "int_str i = ''0''"
    | (nonzero) neg ds where "ds = digits_of 10 (nat \<bar>i\<bar>)" "neg = (i < 0)" "i = (if neg then - int (value_of 10 ds) else int (value_of 10 ds))"
        "int_str i = sign_text neg @ map digit_char ds" "ds \<noteq> []" "hd ds \<noteq> 0" "\<forall>d \<in> set ds. d < 10"
proof (cases "i = 0")
  case True
  then show ?thesis by (intro zero) simp_all
next
  case False
  let ?ds = "digits_of 10 (nat \<bar>i\<bar>)"
  have *: "?ds \<noteq> []" "hd ?ds \<noteq> 0" "\<forall>d \<in> set ?ds. d < 10"
    using False digits_of_hd_pos [of "nat \<bar>i\<bar>" 10] digits_of_less [of 10 _ "nat \<bar>i\<bar>"] by auto
  have i: "i = (if i < 0 then - int (value_of 10 ?ds) else int (value_of 10 ?ds))" by simp
  show ?thesis
    using nonzero [OF refl refl i _ *] int_str_signed [OF *, of "i < 0"] i by simp
qed

lemma parse_int_str [simp]: "parse_int (int_str i) = i"
proof (rule int_str_cases [of i])
  fix neg ds assume *: "i = (if neg then - int (value_of 10 ds) else int (value_of 10 ds))"
    "int_str i = sign_text neg @ map digit_char ds" "ds \<noteq> []" "hd ds \<noteq> 0" "\<forall>d \<in> set ds. d < 10"
  show ?thesis by (simp only: *(2) parse_int_signed [OF *(3-5)] *(1) [symmetric])
qed simp

lemma int_str_eq_iff [simp]: "int_str i = int_str j \<longleftrightarrow> i = j"
  using parse_int_str by metis

lemma canonical_int_str [simp]: "canonical_integer (int_str i) \<and> is_ascii (int_str i)"
proof (rule int_str_cases [of i])
  fix neg ds assume *: "int_str i = sign_text neg @ map digit_char ds" "ds \<noteq> []" "hd ds \<noteq> 0" "\<forall>d \<in> set ds. d < 10"
  show ?thesis unfolding *(1) using canonical_integer_nonzero [OF *(2-4)] by simp
qed simp

lemma int_str_parse_int: "canonical_integer s \<Longrightarrow> int_str (parse_int s) = s"
proof (erule canonical_integer_cases)
  fix neg ds assume *: "s = sign_text neg @ map digit_char ds" "ds \<noteq> []" "hd ds \<noteq> 0" "\<forall>d \<in> set ds. d < 10"
  show ?thesis by (simp only: *(1) parse_int_signed [OF *(2-4)] int_str_signed [OF *(2-4)])
qed simp

lemma decode_ascii_iff: "decode_ascii b = Inr t \<longleftrightarrow> t = b \<and> is_ascii b"
  by (auto simp: decode_ascii_def)

text \<open>Comparing digit texts of equal length by code points compares their values.\<close>

lemma str_less_value:
  "length xs = length ys \<Longrightarrow> \<forall>d \<in> set xs. d < 10 \<Longrightarrow> \<forall>d \<in> set ys. d < 10 \<Longrightarrow>
   str_less (map digit_char xs) (map digit_char ys) \<longleftrightarrow> value_of 10 xs < value_of 10 ys"
proof (induction xs ys rule: list_induct2)
  case (Cons x xs y ys)
  have xy: "x < 10" "y < 10" using Cons.prems by auto
  have v: "value_of 10 xs < 10 ^ length ys" "value_of 10 ys < 10 ^ length ys"
    using Cons value_of_less [of xs 10] value_of_less [of ys 10] by auto
  have "x * 10 ^ length ys + value_of 10 xs < y * 10 ^ length ys + value_of 10 ys
        \<longleftrightarrow> x < y \<or> x = y \<and> value_of 10 xs < value_of 10 ys"
  proof (cases x y rule: linorder_cases)
    case less
    then have "(x + 1) * 10 ^ length ys \<le> y * 10 ^ length ys" by (intro mult_right_mono) auto
    then show ?thesis using v less by (simp add: algebra_simps)
  next
    case greater
    then have "(y + 1) * 10 ^ length ys \<le> x * 10 ^ length ys" by (intro mult_right_mono) auto
    then show ?thesis using v greater by (simp add: algebra_simps)
  qed simp
  then show ?case
    using Cons xy by (simp add: value_of_Cons of_char_digit_char)
qed simp

lemma value_of_ge: "ds \<noteq> [] \<Longrightarrow> hd ds \<noteq> 0 \<Longrightarrow> 10 ^ (length ds - 1) \<le> value_of 10 ds"
  by (cases ds) (auto simp: value_of_Cons trans_le_add1)

lemma digit_limit:
  assumes ds: "ds \<noteq> []" "hd ds \<noteq> 0" "\<forall>d \<in> set ds. d < 10"
    and ls: "ls \<noteq> []" "hd ls \<noteq> 0" "\<forall>d \<in> set ls. d < 10"
  shows "length ds > length ls \<or> length ds = length ls \<and> str_less (map digit_char ls) (map digit_char ds)
     \<longleftrightarrow> value_of 10 ls < value_of 10 ds"
proof -
  have shorter: "value_of 10 xs < value_of 10 ys"
    if "length xs < length ys" "\<forall>d \<in> set xs. d < 10" "ys \<noteq> []" "hd ys \<noteq> 0" for xs ys
  proof -
    have "value_of 10 xs < 10 ^ length xs" using that by (intro value_of_less) auto
    also have "\<dots> \<le> 10 ^ (length ys - 1)" using that by (intro power_increasing) auto
    also have "\<dots> \<le> value_of 10 ys" using that by (intro value_of_ge) auto
    finally show ?thesis .
  qed
  show ?thesis
    using shorter [of ds ls] shorter [of ls ds] ds ls str_less_value [of ls ds]
    by (cases "length ds" "length ls" rule: linorder_cases) auto
qed

section \<open>Payload laws by type\<close>

definition int64_limit_digits :: "bool \<Rightarrow> nat list" where
  "int64_limit_digits neg = [9,2,2,3,3,7,2,0,3,6,8,5,4,7,7,5,8,0] @ [if neg then 8 else 7]"

lemma int64_limit_digits:
  "(if neg then ''9223372036854775808'' else ''9223372036854775807'') = map digit_char (int64_limit_digits neg)"
  "value_of 10 (int64_limit_digits neg) = (if neg then 2 ^ 63 else 2 ^ 63 - 1)"
  "int64_limit_digits neg \<noteq> []" "hd (int64_limit_digits neg) \<noteq> 0"
  "\<forall>d \<in> set (int64_limit_digits neg). d < 10" "length (int64_limit_digits neg) = 19"
  by (cases neg; simp only: if_True if_False int64_limit_digits_def append.simps; code_simp)
    (simp_all add: int64_limit_digits_def value_of_Cons)

text \<open>Decoding accepts exactly the canonical texts of the signed 64-bit integers.\<close>

lemma decode_int64_iff:
  "decode_int64 b = Inr v \<longleftrightarrow> (\<exists>i. v = PInt i \<and> - (2 ^ 63) \<le> i \<and> i \<le> INT64_MAX \<and> b = int_str i)"
proof (cases "canonical_integer b \<and> is_ascii b")
  case True
  then have canon: "canonical_integer b" ..
  define neg where "neg = (b \<noteq> [] \<and> hd b = CHR ''-'')"
  define d where "d = (if neg then tl b else b)"
  define l where "l = (if neg then ''9223372036854775808'' else ''9223372036854775807'')"
  have dec: "decode_int64 b = Inr v \<longleftrightarrow>
      \<not> (length d > length l \<or> length d = length l \<and> str_less l d) \<and> v = PInt (parse_int b)"
  proof -
    have "decode_ascii b = Inr b" using True by (simp add: decode_ascii_def)
    then have "decode_int64 b = ebind (require (\<not> (length d > length l \<or> length d = length l \<and> str_less l d))
        PayloadValidationError) (\<lambda>_. Inr (PInt (parse_int b)))"
      by (simp only: decode_int64_def Let_def ebind_Inr require_True canon neg_def d_def l_def)
    then show ?thesis by (auto simp: result_iffs)
  qed
  note l = l_def [unfolded int64_limit_digits(1)]
  have "\<not> (length d > length l \<or> length d = length l \<and> str_less l d)
        \<longleftrightarrow> - (2 ^ 63) \<le> parse_int b \<and> parse_int b \<le> INT64_MAX"
    using canon
  proof (cases rule: canonical_integer_cases)
    case zero
    have "length d < length l" using zero by (simp add: d_def l int64_limit_digits(6))
    then show ?thesis using zero by (simp add: INT64_MAX_def)
  next
    case (nonzero neg' ds)
    have "neg' = neg" using canonical_integer_nonzero(3) [OF nonzero(2-4), of neg'] nonzero(1) neg_def by simp
    then have d: "d = map digit_char ds" using nonzero(1) by (simp add: d_def sign_text_def)
    have "(length d > length l \<or> length d = length l \<and> str_less l d)
        \<longleftrightarrow> (if neg then 2 ^ 63 else 2 ^ 63 - 1) < value_of 10 ds"
      using digit_limit [OF nonzero(2-4) int64_limit_digits(3-5)] by (simp add: d l int64_limit_digits(2))
    then show ?thesis
      using \<open>neg' = neg\<close> parse_int_signed [OF nonzero(2-4), of neg] nonzero(1) by (cases neg) (auto simp: INT64_MAX_def)
  qed
  then show ?thesis
    using dec canon int_str_parse_int [of b] parse_int_str by metis
next
  case False
  then show ?thesis
    using canonical_int_str by (auto simp: decode_int64_def decode_ascii_iff result_iffs)
qed

text \<open>The values a caller can build: calendar fields in range, decimal digits below ten, code points
  of a Python string.\<close>

fun wf_value :: "pyval \<Rightarrow> bool" where
  "wf_value (PInt i) \<longleftrightarrow> True"
| "wf_value (PBool b) \<longleftrightarrow> True"
| "wf_value (PStr s) \<longleftrightarrow> is_pystr s"
| "wf_value (PDecimal DSpecial) \<longleftrightarrow> True"
| "wf_value (PDecimal (DFinite s ds e)) \<longleftrightarrow> (\<forall>d \<in> set ds. d < 10)"
| "wf_value (PDate d) \<longleftrightarrow> valid_date d"
| "wf_value (PDateTime dt) \<longleftrightarrow> valid_date (dt_date dt) \<and> valid_time (dt_time dt)"

lemma encode_int64_iff:
  "encode_int64 v = Inr b \<longleftrightarrow> (\<exists>i. v = PInt i \<and> - (2 ^ 63) \<le> i \<and> i \<le> INT64_MAX \<and> b = int_str i)"
  by (cases v) (auto simp: encode_int64_def result_iffs)

lemma encode_boolean_iff: "encode_boolean v = Inr b \<longleftrightarrow> (\<exists>x. v = PBool x \<and> b = (if x then ''1'' else ''0''))"
  by (cases v) (auto simp: encode_boolean_def)

lemma decode_boolean_iff: "decode_boolean b = Inr v \<longleftrightarrow> (\<exists>x. v = PBool x \<and> b = (if x then ''1'' else ''0''))"
  by (auto simp: decode_boolean_def result_iffs)

lemma validate_string_scalars_iff:
  "validate_string_scalars s = Inr u \<longleftrightarrow> 0 \<notin> set s \<and> (\<forall>c \<in> set s. \<not> is_surrogate c)"
proof -
  have "(0 \<notin> set s) = (\<forall>c \<in> set s. c \<noteq> 0)" by metis
  then show ?thesis
    by (auto simp: validate_string_scalars_def check_all_eq_Inr_iff result_iffs)
qed

lemma encode_string_iff:
  "encode_string v = Inr b \<longleftrightarrow> (\<exists>s. v = PStr s \<and> 0 \<notin> set s \<and> utf8_encode s = Inr b)"
  by (cases v) (auto simp: encode_string_def result_iffs validate_string_scalars_iff utf8_encode_def
      list_all_iff is_scalar_iff split: if_splits)

lemma decode_string_iff:
  "decode_string b = Inr v \<longleftrightarrow> (\<exists>s. v = PStr s \<and> 0 \<notin> set s \<and> utf8_encode s = Inr b)"
proof -
  have "utf8_decode_strict b = Some s \<longleftrightarrow> utf8_encode s = Inr b" for s
    using utf8_decode_encode utf8_encode_decode by blast
  moreover have "utf8_encode s = Inr b \<Longrightarrow> \<not> is_surrogate c" if "c \<in> set s" for s c
    using that by (auto simp: utf8_encode_def list_all_iff is_scalar_iff split: if_splits)
  moreover have "decode_string b = Inr v \<longleftrightarrow>
      (\<exists>s. utf8_decode_strict b = Some s \<and> v = PStr s \<and> 0 \<notin> set s \<and> (\<forall>c \<in> set s. \<not> is_surrogate c))"
    by (auto simp: decode_string_def result_iffs validate_string_scalars_iff split: option.splits)
  ultimately show ?thesis by blast
qed

lemma utf8_encode_pystr: "utf8_encode s = Inr b \<Longrightarrow> is_pystr s"
  by (auto simp: utf8_encode_def is_pystr_def list_all_iff is_scalar_iff split: if_splits)

subsection \<open>Decimals\<close>

lemma strip_zeros_hd: "strip_zeros ds \<noteq> [] \<Longrightarrow> hd (strip_zeros ds) \<noteq> 0"
  using hd_dropWhile [of "\<lambda>d. d = 0" ds] by (simp add: strip_zeros_def)

lemma strip_zeros_set: "d \<in> set (strip_zeros ds) \<Longrightarrow> d \<in> set ds"
  unfolding strip_zeros_def by (rule set_dropWhileD)

lemma strip_zeros_id: "ds = [] \<or> hd ds \<noteq> 0 \<Longrightarrow> strip_zeros ds = ds"
  by (cases ds) (auto simp: strip_zeros_def)

lemma value_strip_zeros [simp]: "value_of 10 (strip_zeros ds) = value_of 10 ds"
  by (induction ds) (auto simp: strip_zeros_def value_of_Cons)

text \<open>The scaled digits: what is appended or removed is a power of ten, exactly.\<close>

lemma scale_coefficient_ok:
  assumes "c \<noteq> []" "hd c \<noteq> 0" "\<forall>d \<in> set c. d < 10" "scale_coefficient c k p = Inr s"
  shows "s \<noteq> []" "hd s \<noteq> 0" "\<forall>d \<in> set s. d < 10"
    and "value_of 10 s * 10 ^ nat (- k) = value_of 10 c * 10 ^ nat k"
proof -
  have "s \<noteq> [] \<and> hd s \<noteq> 0 \<and> (\<forall>d \<in> set s. d < 10) \<and> value_of 10 s * 10 ^ nat (- k) = value_of 10 c * 10 ^ nat k"
  proof (cases "0 \<le> k")
    case True
    then show ?thesis
      using assms by (auto simp: scale_coefficient_def value_of_append split: if_splits)
  next
    case False
    let ?m = "length c - nat (- k)"
    have s: "s = take ?m c" and le: "nat (- k) \<le> length c" and z: "\<forall>d \<in> set (drop ?m c). d = 0"
      using assms(4) False by (auto simp: scale_coefficient_def Let_def list_ex_iff split: if_splits)
    have "?m \<noteq> 0"
      using z assms(1,2) by (cases c) auto
    moreover have "drop ?m c = replicate (nat (- k)) 0"
      using z le by (intro replicate_eqI) auto
    then have "value_of 10 c = value_of 10 s * 10 ^ nat (- k)"
      by (metis append_take_drop_id s length_replicate value_of_append value_of_zeros add_0_right)
    ultimately show ?thesis
      using assms(1-3) False s by (auto simp: hd_take dest: in_set_takeD)
  qed
  then show "s \<noteq> []" "hd s \<noteq> 0" "\<forall>d \<in> set s. d < 10"
    "value_of 10 s * 10 ^ nat (- k) = value_of 10 c * 10 ^ nat k" by blast+
qed

lemma digits_of_mult_power:
  assumes "0 < n"
  shows "digits_of 10 (n * 10 ^ m) = digits_of 10 n @ replicate m 0"
proof -
  have "digits_of 10 (value_of 10 (digits_of 10 n @ replicate m 0)) = digits_of 10 n @ replicate m 0"
    using digits_of_hd_pos [OF assms, of 10] digits_of_less [of 10 _ n]
    by (intro digits_of_value) auto
  then show ?thesis by (simp add: value_of_append)
qed

lemma length_digits_of_le_iff:
  assumes "0 < n" "0 < p"
  shows "length (digits_of 10 n) \<le> p \<longleftrightarrow> n < 10 ^ p"
proof
  assume "length (digits_of 10 n) \<le> p"
  moreover have "n < 10 ^ length (digits_of 10 n)"
    using value_of_less [of "digits_of 10 n" 10] digits_of_less [of 10 _ n] by simp
  moreover have "(10::nat) ^ length (digits_of 10 n) \<le> 10 ^ p" using calculation(1) by simp
  ultimately show "n < 10 ^ p" by linarith
qed (use assms in \<open>auto intro: digits_of_length_le\<close>)

lemma scale_coefficient_complete:
  assumes c: "c \<noteq> []" "hd c \<noteq> 0" "\<forall>d \<in> set c. d < 10"
    and n: "n * 10 ^ nat (- k) = value_of 10 c * 10 ^ nat k" "n < 10 ^ p" "0 < p"
  shows "scale_coefficient c k (int p) = Inr (digits_of 10 n)"
proof -
  have cd: "digits_of 10 (value_of 10 c) = c" using c by (intro digits_of_value) auto
  have pos: "0 < value_of 10 c" using c(1,2) by (rule value_of_pos)
  show ?thesis
  proof (cases "0 \<le> k")
    case True
    then have "n = value_of 10 c * 10 ^ nat k" using n(1) by simp
    then have d: "digits_of 10 n = c @ replicate (nat k) 0" and "0 < n"
      using digits_of_mult_power [OF pos] cd pos by simp_all
    then have "length c + nat k \<le> p"
      using length_digits_of_le_iff [of n p] n by simp
    then show ?thesis using True d by (simp add: scale_coefficient_def)
  next
    case False
    then have v: "value_of 10 c = n * 10 ^ nat (- k)" using n(1) by simp
    then have "0 < n" using pos by (cases n) auto
    then have "c = digits_of 10 n @ replicate (nat (- k)) 0"
      using cd v digits_of_mult_power by metis
    then show ?thesis using False by (simp add: scale_coefficient_def Let_def list_ex_iff)
  qed
qed

text \<open>A finite decimal is encoded exactly when its value times \<open>10 ^ scale\<close> is an integer of at most
  \<open>precision\<close> digits: nothing is ever rounded.\<close>

lemma encode_finite_decimal_iff:
  assumes ds: "\<forall>d \<in> set ds. d < 10" and p: "0 < p"
  shows "encode_finite_decimal sg ds e (int p) sc = Inr b \<longleftrightarrow>
     (\<exists>n. n < 10 ^ p \<and> n * 10 ^ nat (- (e + sc)) = value_of 10 ds * 10 ^ nat (e + sc) \<and>
          b = int_str (if sg then - int n else int n))"
proof (cases "strip_zeros ds = []")
  case True
  then have "value_of 10 ds = 0" using value_strip_zeros [of ds] by simp
  then show ?thesis using True p by (auto simp: encode_finite_decimal_def)
next
  case False
  let ?c = "strip_zeros ds" and ?k = "e + sc"
  have c: "?c \<noteq> []" "hd ?c \<noteq> 0" "\<forall>d \<in> set ?c. d < 10"
    using False strip_zeros_hd ds strip_zeros_set by auto
  show ?thesis
  proof
    assume "encode_finite_decimal sg ds e (int p) sc = Inr b"
    then obtain s where s: "scale_coefficient ?c ?k (int p) = Inr s"
      and l: "length (nonempty_digits (strip_zeros s)) \<le> p"
      and b: "b = sign_text sg @ map digit_char (nonempty_digits (strip_zeros s))"
      using False by (auto simp: encode_finite_decimal_def Let_def sign_text_def result_iffs split: if_splits)
    note sc = scale_coefficient_ok [OF c s]
    have ss: "nonempty_digits (strip_zeros s) = s"
      using sc(1,2) strip_zeros_id [of s] by (simp add: nonempty_digits_def)
    have "value_of 10 s < 10 ^ length s" using sc(3) by (rule value_of_less)
    also have "\<dots> \<le> 10 ^ p" using l ss by simp
    finally show "\<exists>n. n < 10 ^ p \<and> n * 10 ^ nat (- ?k) = value_of 10 ds * 10 ^ nat ?k \<and>
          b = int_str (if sg then - int n else int n)"
      using sc(4) b ss int_str_signed [OF sc(1-3), of sg] by (intro exI [of _ "value_of 10 s"]) simp
  next
    assume "\<exists>n. n < 10 ^ p \<and> n * 10 ^ nat (- ?k) = value_of 10 ds * 10 ^ nat ?k \<and>
          b = int_str (if sg then - int n else int n)"
    then obtain n where n: "n < 10 ^ p" "n * 10 ^ nat (- ?k) = value_of 10 ?c * 10 ^ nat ?k"
      and b: "b = int_str (if sg then - int n else int n)" by auto
    have "0 < value_of 10 ?c" using c(1,2) by (rule value_of_pos)
    then have pos: "0 < n" using n(2) by (cases n) auto
    have nd: "digits_of 10 n \<noteq> []" "hd (digits_of 10 n) \<noteq> 0" "\<forall>d \<in> set (digits_of 10 n). d < 10"
      using digits_of_hd_pos [OF pos, of 10] digits_of_less [of 10 _ n] by auto
    then have ss: "nonempty_digits (strip_zeros (digits_of 10 n)) = digits_of 10 n"
      using strip_zeros_id [of "digits_of 10 n"] by (simp add: nonempty_digits_def)
    show "encode_finite_decimal sg ds e (int p) sc = Inr b"
      using scale_coefficient_complete [OF c n(2,1) p] False ss length_digits_of_le_iff [OF pos p] n(1)
        int_str_signed [OF nd, of sg] b
      by (cases sg) (simp_all add: encode_finite_decimal_def Let_def sign_text_def)
  qed
qed

definition decimal_value :: "bool \<Rightarrow> nat list \<Rightarrow> int \<Rightarrow> rat" where
  "decimal_value sg ds e = (if sg then - 1 else 1) * of_nat (value_of 10 ds) * 10 powi e"

lemma scaled_eq_iff:
  "(of_nat n :: rat) = of_nat m * 10 powi k \<longleftrightarrow> n * 10 ^ nat (- k) = m * 10 ^ nat k"
proof (cases "0 \<le> k")
  case True
  then have "(10 :: rat) powi k = of_nat (10 ^ nat k)" by (simp add: power_int_def)
  then have "(of_nat n :: rat) = of_nat m * 10 powi k \<longleftrightarrow> n = m * 10 ^ nat k"
    by (metis of_nat_eq_iff of_nat_mult)
  then show ?thesis using True by simp
next
  case False
  define q :: rat where "q = of_nat (10 ^ nat (- k))"
  have q: "q \<noteq> 0" "10 powi k = inverse q"
    using False by (simp_all add: q_def power_int_def power_one_over inverse_eq_divide)
  then have "(of_nat n :: rat) = of_nat m * 10 powi k \<longleftrightarrow> of_nat n * q = of_nat m"
    unfolding q(2) using q(1) by (auto simp: nonzero_divide_eq_eq [symmetric] divide_inverse)
  also have "\<dots> \<longleftrightarrow> n * 10 ^ nat (- k) = m" unfolding q_def by (metis of_nat_eq_iff of_nat_mult)
  finally show ?thesis using False by simp
qed

lemma encode_finite_decimal_value:
  assumes "\<forall>d \<in> set ds. d < 10" "1 \<le> p"
  shows "encode_finite_decimal sg ds e p sc = Inr b \<longleftrightarrow>
     (\<exists>i. \<bar>i\<bar> < 10 ^ nat p \<and> of_int i = decimal_value sg ds e * 10 powi sc \<and> b = int_str i)"
    (is "?L \<longleftrightarrow> ?R")
proof -
  have v: "decimal_value sg ds e * 10 powi sc = (if sg then - 1 else 1) * (of_nat (value_of 10 ds) * 10 powi (e + sc))"
    by (simp add: decimal_value_def power_int_add)
  have L: "?L \<longleftrightarrow> (\<exists>n. n < 10 ^ nat p \<and> (of_nat n :: rat) = of_nat (value_of 10 ds) * 10 powi (e + sc) \<and>
          b = int_str (if sg then - int n else int n))"
    using encode_finite_decimal_iff [OF assms(1), of "nat p" sg e sc b] assms(2) by (simp add: scaled_eq_iff)
  show ?thesis
  proof
    assume ?L
    then obtain n where n: "n < 10 ^ nat p" "(of_nat n :: rat) = of_nat (value_of 10 ds) * 10 powi (e + sc)"
      "b = int_str (if sg then - int n else int n)" using L by blast
    then have "int n < 10 ^ nat p" by (metis of_nat_less_iff of_nat_numeral of_nat_power)
    then show ?R
      using n v by (intro exI [of _ "if sg then - int n else int n"]) auto
  next
    assume ?R
    then obtain i where i: "\<bar>i\<bar> < 10 ^ nat p" "of_int i = decimal_value sg ds e * 10 powi sc" "b = int_str i" by blast
    define n where "n = nat (if sg then - i else i)"
    have eq: "(of_int (if sg then - i else i) :: rat) = of_nat (value_of 10 ds) * 10 powi (e + sc)"
      using i(2) v by auto
    have "(0 :: rat) \<le> of_nat (value_of 10 ds) * 10 powi (e + sc)" by simp
    then have "0 \<le> (if sg then - i else i)" using eq by (metis of_int_0_le_iff)
    then have n: "int n = (if sg then - i else i)" by (simp add: n_def)
    then have "n < 10 ^ nat p" using i(1)
      by (metis abs_of_nat abs_minus_cancel of_nat_less_iff of_nat_numeral of_nat_power)
    moreover have "(of_nat n :: rat) = of_nat (value_of 10 ds) * 10 powi (e + sc)"
      using eq n by (metis of_int_of_nat_eq)
    moreover have "b = int_str (if sg then - int n else int n)" using n i(3) by (simp split: if_splits)
    ultimately show ?L using L by blast
  qed
qed

lemma ascii_text_dec: "ascii_text s = Some t \<Longrightarrow> t = map char_of s \<and> list_all (\<lambda>c. c < 128) s"
  by (simp add: ascii_text_def split: if_splits)

lemma match_decimal_digits:
  assumes "match_decimal s = Some (neg, ip, fp, e)"
  shows "\<forall>d \<in> set (ip @ fp). d < 10"
proof -
  have dig: "\<forall>d \<in> set (map char_digit (takeWhile is_dec r)). d < 10" for r
    by (auto simp: char_digit_dec_less dest: set_takeWhileD)
  show ?thesis
    using assms dig unfolding match_decimal_def Let_def
    by (auto split: if_splits prod.splits)
qed

lemma nonempty_strip_less: "\<forall>d \<in> set ds. d < 10 \<Longrightarrow> \<forall>d \<in> set (nonempty_digits (strip_zeros ds)). d < (10 :: nat)"
  using strip_zeros_set [of _ ds] by (auto simp: nonempty_digits_def)

lemma decimal_from_input_digits:
  "wf_value v \<Longrightarrow> decimal_from_input v = Inr (DFinite sg ds e) \<Longrightarrow> \<forall>d \<in> set ds. d < 10"
proof (cases v)
  case (PStr s)
  assume "decimal_from_input v = Inr (DFinite sg ds e)"
  then obtain ip fp e' where m: "Option.bind (ascii_text s) match_decimal = Some (sg, ip, fp, e')"
    and ds: "ds = nonempty_digits (strip_zeros (ip @ fp))"
    using PStr by (auto simp: decimal_from_input_def Let_def split: option.splits prod.splits if_splits)
  then obtain t where "match_decimal t = Some (sg, ip, fp, e')" by (auto simp: bind_eq_Some_conv)
  from nonempty_strip_less [OF match_decimal_digits [OF this]] show ?thesis unfolding ds .
qed (auto simp: decimal_from_input_def decimal_of_int_def digits_of_less [of 10, simplified])

lemma decimal_value_int: "decimal_value (i < 0) (digits_of 10 (nat \<bar>i\<bar>)) 0 = of_int i"
  by (simp add: decimal_value_def)

text \<open>The rational number a decimal input denotes.\<close>

definition decimal_input_value :: "pyval \<Rightarrow> rat option" where
  "decimal_input_value v =
     (case decimal_from_input v of
        Inr (DFinite sg ds e) \<Rightarrow> Some (decimal_value sg ds e)
      | _ \<Rightarrow> None)"

lemma encode_decimal_iff:
  assumes "wf_value v" "1 \<le> pr" "0 \<le> sc" "sc \<le> pr"
  shows "encode_decimal v pr sc = Inr b \<longleftrightarrow>
     (\<exists>q i. decimal_input_value v = Some q \<and> of_int i = q * 10 powi sc \<and> \<bar>i\<bar> < 10 ^ nat pr \<and> b = int_str i)"
    (is "?L \<longleftrightarrow> ?R")
proof -
  define guard where "guard = (case v of PInt i \<Rightarrow>
      - (10 ^ nat (pr - sc)) < i \<and> i < 10 ^ nat (pr - sc) | _ \<Rightarrow> True)"
  have L: "?L \<longleftrightarrow> guard \<and> (\<exists>sg ds e. decimal_from_input v = Inr (DFinite sg ds e) \<and>
      encode_finite_decimal sg ds e pr sc = Inr b)"
  proof -
    have "?L \<longleftrightarrow> guard \<and> (\<exists>d. decimal_from_input v = Inr d \<and> (case d of DSpecial \<Rightarrow> Inl PayloadValidationError
        | DFinite sg ds e \<Rightarrow> encode_finite_decimal sg ds e pr sc) = Inr b)"
      by (cases v) (auto simp: encode_decimal_def guard_def result_iffs)
    then show ?thesis by (auto split: pydecimal.splits) (metis pydecimal.exhaust)
  qed
  have R: "?R \<longleftrightarrow> (\<exists>sg ds e. decimal_from_input v = Inr (DFinite sg ds e) \<and>
      encode_finite_decimal sg ds e pr sc = Inr b)"
    using decimal_from_input_digits [OF assms(1)] encode_finite_decimal_value [OF _ assms(2)]
    by (fastforce simp: decimal_input_value_def split: sum.splits pydecimal.splits)
  have "guard" if q: ?R
  proof (cases v)
    case (PInt j)
    obtain i where i: "(of_int i :: rat) = of_int j * 10 powi sc" "\<bar>i\<bar> < 10 ^ nat pr"
      using q PInt by (auto simp: decimal_input_value_def decimal_from_input_def decimal_of_int_def decimal_value_int)
    have "(of_int i :: rat) = of_int (j * 10 ^ nat sc)"
      using i(1) assms(3) by (simp add: power_int_def)
    then have ij: "i = j * 10 ^ nat sc" by (simp only: of_int_eq_iff)
    have "(10 :: int) ^ nat pr = 10 ^ nat (pr - sc) * 10 ^ nat sc"
      using assms(3,4) by (simp add: power_add [symmetric] nat_add_distrib [symmetric])
    then have "\<bar>j\<bar> < 10 ^ nat (pr - sc)"
      using i(2) ij by (simp add: abs_mult)
    then show ?thesis using PInt by (simp add: guard_def abs_less_iff)
  qed (simp_all add: guard_def)
  then show ?thesis using L R by blast
qed

lemma decode_decimal_iff:
  assumes "1 \<le> pr"
  shows "decode_decimal b pr sc = Inr v \<longleftrightarrow>
     (\<exists>i. \<bar>i\<bar> < 10 ^ nat pr \<and> b = int_str i \<and>
          v = PDecimal (DFinite (i < 0) (digits_of 10 (nat \<bar>i\<bar>)) (- sc)))"
proof (cases "canonical_integer b \<and> is_ascii b")
  case True
  define i where "i = parse_int b"
  have b: "b = int_str i" using True int_str_parse_int by (simp add: i_def)
  have dec: "decode_ascii b = Inr b" using True by (simp add: decode_ascii_def)
  have "decode_decimal b pr sc = ebind (require (length (digits_of 10 (nat \<bar>i\<bar>)) \<le> nat pr) PayloadValidationError)
     (\<lambda>_. Inr (PDecimal (DFinite (i < 0) (digits_of 10 (nat \<bar>i\<bar>)) (- sc))))"
  proof (rule int_str_cases [of i])
    assume "i = 0" "int_str i = ''0''"
    then show ?thesis using assms dec b
      by (simp add: decode_decimal_def digits_of.simps [of 10 0] char_digit_def Suc_le_eq)
  next
    fix neg ds
    assume *: "ds = digits_of 10 (nat \<bar>i\<bar>)" "neg = (i < 0)" "int_str i = sign_text neg @ map digit_char ds"
      and ds: "ds \<noteq> []" "hd ds \<noteq> 0" "\<forall>d \<in> set ds. d < 10"
    have bb: "b = sign_text neg @ map digit_char ds" using b *(3) by simp
    have "(b \<noteq> [] \<and> hd b = CHR ''-'') = neg" unfolding bb by (rule canonical_integer_nonzero(3) [OF ds])
    moreover have "(if neg then tl b else b) = map digit_char ds" unfolding bb by (rule tl_sign_text)
    ultimately show ?thesis
      using dec True map_char_digit_char [OF ds(3)] assms
      by (simp only: decode_decimal_def Let_def ebind_Inr require_True *(1,2) [symmetric])
        (simp add: le_nat_iff)
  qed
  moreover have "length (digits_of 10 (nat \<bar>i\<bar>)) \<le> nat pr \<longleftrightarrow> \<bar>i\<bar> < 10 ^ nat pr"
  proof (cases "i = 0")
    case True
    then show ?thesis using assms by (simp add: digits_of.simps [of 10 0])
  next
    case False
    then have "length (digits_of 10 (nat \<bar>i\<bar>)) \<le> nat pr \<longleftrightarrow> nat \<bar>i\<bar> < 10 ^ nat pr"
      using assms by (intro length_digits_of_le_iff) auto
    also have "\<dots> \<longleftrightarrow> \<bar>i\<bar> < 10 ^ nat pr" by (metis abs_ge_zero nat_less_numeral_power_cancel_iff)
    finally show ?thesis .
  qed
  ultimately show ?thesis using b by (auto simp: result_iffs)
next
  case False
  then show ?thesis
    using canonical_int_str by (auto simp: decode_decimal_def decode_ascii_iff result_iffs)
qed

subsection \<open>Dates and timestamps\<close>

lemma ascii_text_asc [simp]: "ascii_text (asc s) = (if is_ascii s then Some s else None)"
  by (auto simp: ascii_text_def asc_def is_ascii_def list_all_iff comp_def)

lemma format_nat_4:
  assumes "n < 10000"
  obtains a b c d where "format_nat 10 4 n = [a, b, c, d]" "is_dec a" "is_dec b" "is_dec c" "is_dec d"
    "parse_nat 10 [a, b, c, d] = n"
proof -
  have "length (format_nat 10 4 n) = 4" using assms by (intro length_format_nat) auto
  then obtain a b c d where *: "format_nat 10 4 n = [a, b, c, d]"
    by (auto simp: numeral_eq_Suc length_Suc_conv)
  then show ?thesis
    using that [of a b c d] format_nat_dec [of _ 4 n] parse_format_nat [of 10 4 n] by auto
qed

lemma format_nat_2:
  assumes "n < 100"
  obtains a b where "format_nat 10 2 n = [a, b]" "is_dec a" "is_dec b" "parse_nat 10 [a, b] = n"
proof -
  have "length (format_nat 10 2 n) = 2" using assms by (intro length_format_nat) auto
  then obtain a b where *: "format_nat 10 2 n = [a, b]"
    by (auto simp: numeral_eq_Suc length_Suc_conv)
  then show ?thesis
    using that [of a b] format_nat_dec [of _ 2 n] parse_format_nat [of 10 2 n] by auto
qed

lemma is_dec_ascii: "is_dec c \<Longrightarrow> (of_char c :: nat) < 128"
  by (simp add: is_dec_is_lower_hex is_lower_hex_ascii)

text \<open>The ten characters of a formatted date.\<close>

lemma format_date_chars:
  assumes "valid_date d"
  obtains y1 y2 y3 y4 m1 m2 d1 d2 where
    "format_date d = [y1, y2, y3, y4, CHR ''-'', m1, m2, CHR ''-'', d1, d2]"
    "list_all is_dec [y1, y2, y3, y4, m1, m2, d1, d2]"
    "parse_nat 10 [y1, y2, y3, y4] = d_year d" "parse_nat 10 [m1, m2] = d_month d" "parse_nat 10 [d1, d2] = d_day d"
proof -
  have "d_day d \<le> 31" using assms by (auto simp: valid_date_def days_in_month_def split: if_splits)
  then have "d_year d < 10000" "d_month d < 100" "d_day d < 100" using assms by (auto simp: valid_date_def)
  then show ?thesis
    using that by (auto elim!: format_nat_4 [of "d_year d"] format_nat_2 [of "d_month d"] format_nat_2 [of "d_day d"]
        simp: format_date_def)
qed

lemma parse_format_date: "valid_date d \<Longrightarrow> parse_date (format_date d) = Inr d"
  by (rule format_date_chars [of d])
    (auto simp: parse_date_def matches_template_def slice_def Let_def result_iffs valid_date_def)

lemma is_ascii_format_date: "valid_date d \<Longrightarrow> is_ascii (format_date d)"
  by (rule format_date_chars [of d]) (auto simp: is_dec_ascii)

lemma parse_date_valid: "parse_date s = Inr d \<Longrightarrow> valid_date d"
  by (auto simp: parse_date_def Let_def result_iffs)

lemma ascii_text_iff: "ascii_text s = Some t \<longleftrightarrow> s = asc t \<and> is_ascii t"
proof
  assume "ascii_text s = Some t"
  then have t: "t = map char_of s" "\<forall>c \<in> set s. c < 128" by (auto simp: ascii_text_def list_all_iff split: if_splits)
  then have "map (of_char :: char \<Rightarrow> nat) t = s" by (auto intro!: map_idI)
  then show "s = asc t \<and> is_ascii t" using t by (auto simp: asc_def is_ascii_def list_all_iff)
qed simp

lemma asc_eq_iff [simp]: "asc s = asc t \<longleftrightarrow> s = t"
proof -
  have "inj (of_char :: char \<Rightarrow> nat)" by (rule injI) simp
  then show ?thesis by (simp add: asc_def inj_map_eq_map)
qed

lemma encode_date_iff:
  assumes "wf_value v"
  shows "encode_date v = Inr b \<longleftrightarrow>
     (\<exists>d. valid_date d \<and> b = format_date d \<and> (v = PDate d \<or> v = PStr (asc (format_date d))))"
proof (cases v)
  case (PStr s)
  have "encode_date v = Inr b \<longleftrightarrow> (\<exists>t d. s = asc t \<and> is_ascii t \<and> parse_date t = Inr d \<and> t = format_date d \<and> b = format_date d)"
  proof (cases "ascii_text s")
    case None
    then have "\<not> (s = asc t \<and> is_ascii t)" for t using ascii_text_iff [of s t] by simp
    then show ?thesis using PStr None by (auto simp: encode_date_def)
  next
    case (Some t)
    then have "s = asc t" "is_ascii t" using ascii_text_iff [of s t] by simp_all
    then show ?thesis using PStr by (auto simp: encode_date_def result_iffs)
  qed
  moreover have "v = PDate d \<or> v = PStr x \<longleftrightarrow> s = x" for d x using PStr by simp
  ultimately show ?thesis
    using parse_format_date is_ascii_format_date parse_date_valid by metis
qed (use assms in \<open>auto simp: encode_date_def\<close>)

lemma decode_date_iff: "decode_date b = Inr v \<longleftrightarrow> (\<exists>d. valid_date d \<and> b = format_date d \<and> v = PDate d)"
  by (auto simp: decode_date_def decode_ascii_iff result_iffs parse_format_date is_ascii_format_date
      dest: parse_date_valid)

text \<open>A timestamp text: 19 characters of date and clock, then the fraction.\<close>

definition clock_time :: "pytime \<Rightarrow> pytime" where
  "clock_time t = t\<lparr>t_micro := 0\<rparr>"

lemma clock_time_valid [simp]: "valid_time t \<Longrightarrow> valid_time (clock_time t)"
  by (simp add: valid_time_def clock_time_def)

lemma format_timestamp_clock [simp]: "format_timestamp d (clock_time t) f p = format_timestamp d t f p"
  by (simp add: format_timestamp_def clock_time_def)

lemma format_timestamp_prefix:
  assumes "valid_date d" "valid_time t"
  obtains c where "\<And>f p. format_timestamp d t f p = c @ (if p > 0 then ''.'' @ f else [])"
    "length c = 19" "is_ascii c" "\<And>r. match_clock (c @ r)"
    "\<And>r. datetime_from_match (c @ r) = Inr (d, clock_time t)"
proof -
  have b: "t_hour t < 100" "t_minute t < 100" "t_second t < 100"
    using assms(2) by (auto simp: valid_time_def)
  define c where "c = format_date d @ ''T'' @ format_nat 10 2 (t_hour t) @ '':'' @
      format_nat 10 2 (t_minute t) @ '':'' @ format_nat 10 2 (t_second t)"
  obtain y1 y2 y3 y4 m1 m2 d1 d2 where
    fd: "format_date d = [y1, y2, y3, y4, CHR ''-'', m1, m2, CHR ''-'', d1, d2]"
    and dd: "list_all is_dec [y1, y2, y3, y4, m1, m2, d1, d2]"
    and pd: "parse_nat 10 [y1, y2, y3, y4] = d_year d" "parse_nat 10 [m1, m2] = d_month d" "parse_nat 10 [d1, d2] = d_day d"
    using assms(1) by (rule format_date_chars)
  obtain h1 h2 where h: "format_nat 10 2 (t_hour t) = [h1, h2]" "is_dec h1" "is_dec h2" "parse_nat 10 [h1, h2] = t_hour t"
    using b(1) by (rule format_nat_2)
  obtain n1 n2 where n: "format_nat 10 2 (t_minute t) = [n1, n2]" "is_dec n1" "is_dec n2" "parse_nat 10 [n1, n2] = t_minute t"
    using b(2) by (rule format_nat_2)
  obtain s1 s2 where s: "format_nat 10 2 (t_second t) = [s1, s2]" "is_dec s1" "is_dec s2" "parse_nat 10 [s1, s2] = t_second t"
    using b(3) by (rule format_nat_2)
  have c: "c = [y1, y2, y3, y4, CHR ''-'', m1, m2, CHR ''-'', d1, d2, CHR ''T'', h1, h2, CHR '':'', n1, n2, CHR '':'', s1, s2]"
    by (simp add: c_def fd h n s)
  show ?thesis
  proof (rule that [of c])
    show "format_timestamp d t f p = c @ (if p > 0 then ''.'' @ f else [])" for f p
      by (simp add: format_timestamp_def c_def)
    show "length c = 19" by (simp add: c)
    show "is_ascii c" using dd h n s by (simp add: c is_dec_ascii)
    show "match_clock (c @ r)" for r using dd h n s by (simp add: c match_clock_def matches_template_def)
    have "\<lparr>d_year = d_year d, d_month = d_month d, d_day = d_day d\<rparr> = d" by simp
    moreover have "\<lparr>t_hour = t_hour t, t_minute = t_minute t, t_second = t_second t, t_micro = 0\<rparr> = clock_time t"
      by (simp add: clock_time_def)
    moreover have "valid_date \<lparr>d_year = d_year d, d_month = d_month d, d_day = d_day d\<rparr>"
      using assms(1) by (simp add: valid_date_def)
    ultimately show "datetime_from_match (c @ r) = Inr (d, clock_time t)" for r
      using assms clock_time_valid [of t] pd h(4) n(4) s(4)
      by (simp add: c datetime_from_match_def slice_def Let_def)
  qed
qed

lemma match_fraction_format:
  assumes "length f = p" "p \<le> 9" "list_all is_dec f" "r = [] \<or> \<not> is_dec (hd r) \<and> hd r \<noteq> CHR ''.''"
  shows "match_fraction ((if p > 0 then ''.'' @ f else []) @ r) = Some (f, r)"
proof -
  have "takeWhile is_dec (f @ r) = f \<and> dropWhile is_dec (f @ r) = r"
    using assms(3,4) by (cases r) (auto simp: takeWhile_append list_all_iff dropWhile_append)
  then show ?thesis using assms by (auto simp: match_fraction_def Let_def)
qed

lemma fit_fraction_iff:
  "fit_fraction f p = Inr g \<longleftrightarrow>
     (\<forall>c \<in> set (drop p f). c = CHR ''0'') \<and> g = take p f @ replicate (p - length f) CHR ''0''"
proof -
  have "length f > p \<and> list_ex (\<lambda>c. c \<noteq> CHR ''0'') (drop p f) \<longleftrightarrow> \<not> (\<forall>c \<in> set (drop p f). c = CHR ''0'')"
    by (cases "length f > p") (simp_all add: list_ex_iff)
  moreover have "p - length (take p f) = p - length f" by simp
  ultimately have "fit_fraction f p = (if \<forall>c \<in> set (drop p f). c = CHR ''0''
      then Inr (take p f @ replicate (p - length f) CHR ''0'') else Inl PayloadValidationError)"
    unfolding fit_fraction_def Let_def by presburger
  then show ?thesis by (metis Inr_inject Inr_not_Inl)
qed

lemma fit_fraction_fixed: "length f = p \<Longrightarrow> fit_fraction f p = Inr f"
  by (simp add: fit_fraction_def)

lemma fit_fraction_dec:
  assumes "fit_fraction f p = Inr g" "list_all is_dec f"
  shows "length g = p \<and> list_all is_dec g"
proof -
  have "is_dec CHR ''0''" by (simp add: is_dec_def)
  moreover have g: "g = take p f @ replicate (p - length f) CHR ''0''" using assms(1) unfolding fit_fraction_iff by blast
  moreover have "list_all is_dec (take p f)" using assms(2) by (metis append_take_drop_id list_all_append)
  ultimately show ?thesis by (auto simp: list_all_iff)
qed

definition timestamp_fields :: "pydate \<Rightarrow> pytime \<Rightarrow> string \<Rightarrow> nat \<Rightarrow> bool" where
  "timestamp_fields d t f p \<longleftrightarrow> valid_date d \<and> valid_time t \<and> length f = p \<and> p \<le> 9 \<and> list_all is_dec f"

lemma format_timestamp_ascii: "timestamp_fields d t f p \<Longrightarrow> is_ascii (format_timestamp d t f p)"
  unfolding timestamp_fields_def
  by (auto elim!: format_timestamp_prefix [of d t] simp: is_ascii_def list_all_iff is_dec_ascii)

lemma parse_local_format:
  assumes "timestamp_fields d t f p"
  shows "parse_local_timestamp (format_timestamp d t f p) = Inr ((d, clock_time t), f)"
proof -
  have v: "valid_date d" "valid_time t" "length f = p" "p \<le> 9" "list_all is_dec f"
    using assms by (simp_all add: timestamp_fields_def)
  obtain c where c: "\<And>f p. format_timestamp d t f p = c @ (if p > 0 then ''.'' @ f else [])"
    "length c = 19" "\<And>r. match_clock (c @ r)" "\<And>r. datetime_from_match (c @ r) = Inr (d, clock_time t)"
    using format_timestamp_prefix [OF v(1,2)] by metis
  show ?thesis
    using match_fraction_format [OF v(3-5), of "[]"] c(2-4) unfolding c(1)
    by (simp add: parse_local_timestamp_def)
qed

lemma parse_instant_format:
  assumes "timestamp_fields d t f p"
  shows "parse_instant_timestamp (format_timestamp d t f p @ ''Z'') = Inr ((d, clock_time t), f, 0)"
proof -
  have v: "valid_date d" "valid_time t" "length f = p" "p \<le> 9" "list_all is_dec f"
    using assms by (simp_all add: timestamp_fields_def)
  obtain c where c: "\<And>f p. format_timestamp d t f p = c @ (if p > 0 then ''.'' @ f else [])"
    "length c = 19" "\<And>r. match_clock (c @ r)" "\<And>r. datetime_from_match (c @ r) = Inr (d, clock_time t)"
    using format_timestamp_prefix [OF v(1,2)] by metis
  have "\<not> is_dec CHR ''Z''" by (simp add: is_dec_def)
  then show ?thesis
    using match_fraction_format [OF v(3-5), of "''Z''"] c(2-4) unfolding c(1) append_assoc
    by (simp add: parse_instant_timestamp_def match_offset_def parse_offset_def)
qed

lemma datetime_from_match_valid: "datetime_from_match s = Inr (d, t) \<Longrightarrow> valid_date d \<and> valid_time t"
  unfolding datetime_from_match_def Let_def by (metis Inl_Inr_False Inr_inject prod.inject)

lemma match_fraction_dec: "match_fraction s = Some (f, r) \<Longrightarrow> list_all is_dec f"
  by (auto simp: match_fraction_def Let_def list_all_iff dest: set_takeWhileD split: if_splits)

lemma parse_local_valid:
  "parse_local_timestamp s = Inr ((d, t), f) \<Longrightarrow> valid_date d \<and> valid_time t \<and> list_all is_dec f"
  by (auto simp: parse_local_timestamp_def result_iffs datetime_from_match_valid
      dest: match_fraction_dec split: option.splits if_splits prod.splits)

lemma parse_instant_valid:
  "parse_instant_timestamp s = Inr ((d, t), f, off) \<Longrightarrow> valid_date d \<and> valid_time t \<and> list_all is_dec f"
  by (auto simp: parse_instant_timestamp_def result_iffs datetime_from_match_valid
      dest: match_fraction_dec split: option.splits if_splits prod.splits)

lemma micro_text_dec: "list_all is_dec (format_nat 10 6 n)"
  by (simp add: list_all_iff format_nat_dec)

lemma encode_timestamp_local_shape:
  assumes "wf_value v" "p \<le> 9" "encode_timestamp_local v p = Inr b"
  obtains d t f where "timestamp_fields d t f p" "b = format_timestamp d t f p"
proof (cases v)
  case (PDateTime dt)
  then show ?thesis
    using assms that [of "dt_date dt" "dt_time dt"] fit_fraction_dec [OF _ micro_text_dec]
    by (auto simp: encode_timestamp_local_def timestamp_fields_def result_iffs split: if_splits)
next
  case (PStr s)
  then obtain x d t f0 f where "parse_local_timestamp x = Inr ((d, t), f0)" "fit_fraction f0 p = Inr f"
    "b = format_timestamp d t f p"
    using assms(3) by (auto simp: encode_timestamp_local_def result_iffs split: option.splits)
  then show ?thesis
    using that [of d t f] assms(2) parse_local_valid fit_fraction_dec by (simp add: timestamp_fields_def)
qed (use assms in \<open>auto simp: encode_timestamp_local_def\<close>)

lemma encode_timestamp_instant_shape:
  assumes "wf_value v" "p \<le> 9" "encode_timestamp_instant v p = Inr b"
  obtains d t f where "timestamp_fields d t f p" "b = format_timestamp d t f p @ ''Z''"
proof (cases v)
  case (PDateTime dt)
  then obtain off d t f where *: "subtract_offset (dt_date dt) (dt_time dt) off = Some (d, t)"
    "fit_fraction (format_nat 10 6 (t_micro t)) p = Inr f" "b = format_timestamp d t f p @ ''Z''"
    using assms(3) by (auto simp: encode_timestamp_instant_def result_iffs split: option.splits tzinfo.splits)
  have "valid_date (dt_date dt)" using assms(1) PDateTime by simp
  from subtract_offset_valid [OF this *(1)] show ?thesis
    using that [of d t f] assms(2) * fit_fraction_dec [OF *(2) micro_text_dec] by (simp add: timestamp_fields_def)
next
  case (PStr s)
  then obtain x d0 t0 f0 off d t f where *: "parse_instant_timestamp x = Inr ((d0, t0), f0, off)"
    "subtract_offset d0 t0 off = Some (d, t)" "fit_fraction f0 p = Inr f" "b = format_timestamp d t f p @ ''Z''"
    using assms(3) by (auto simp: encode_timestamp_instant_def result_iffs split: option.splits)
  have v: "valid_date d0" "list_all is_dec f0" using parse_instant_valid [OF *(1)] by auto
  show ?thesis
    using that [of d t f] assms(2) subtract_offset_valid [OF v(1) *(2)] fit_fraction_dec [OF *(3) v(2)] *(4)
    by (simp add: timestamp_fields_def)
qed (use assms in \<open>auto simp: encode_timestamp_instant_def\<close>)

lemma encode_timestamp_local_text:
  assumes "timestamp_fields d t f p"
  shows "encode_timestamp_local (PStr (asc (format_timestamp d t f p))) p = Inr (format_timestamp d t f p)"
  using parse_local_format [OF assms] format_timestamp_ascii [OF assms] fit_fraction_fixed [of f p] assms
  by (simp add: encode_timestamp_local_def timestamp_fields_def)

lemma encode_timestamp_instant_text:
  assumes "timestamp_fields d t f p"
  shows "encode_timestamp_instant (PStr (asc (format_timestamp d t f p @ ''Z''))) p = Inr (format_timestamp d t f p @ ''Z'')"
proof -
  have "subtract_offset d (clock_time t) 0 = Some (d, clock_time t)"
    using assms by (intro subtract_offset_zero) (simp add: timestamp_fields_def)
  then show ?thesis
    using parse_instant_format [OF assms] format_timestamp_ascii [OF assms] fit_fraction_fixed [of f p] assms
    by (simp add: encode_timestamp_instant_def timestamp_fields_def del: asc_append)
qed

lemma decode_timestamp_local_iff:
  "decode_timestamp_local b p = Inr v \<longleftrightarrow> is_ascii b \<and> v = PStr (asc b) \<and> encode_timestamp_local v p = Inr b"
  by (auto simp: decode_timestamp_local_def decode_ascii_iff result_iffs)

lemma decode_timestamp_instant_iff:
  "decode_timestamp_instant b p = Inr v \<longleftrightarrow> is_ascii b \<and> v = PStr (asc b) \<and> encode_timestamp_instant v p = Inr b"
  by (auto simp: decode_timestamp_instant_def decode_ascii_iff result_iffs)

section \<open>Instants\<close>

lemma format_timestamp_inj:
  assumes "timestamp_fields d t f p" "timestamp_fields d' t' f' p"
    "format_timestamp d t f p = format_timestamp d' t' f' p"
  shows "d = d' \<and> clock_time t = clock_time t' \<and> f = f'"
  using parse_local_format [OF assms(1)] parse_local_format [OF assms(2)] assms(3) by auto

lemma fit_fraction_inj:
  assumes "length f = length g" "fit_fraction f p = Inr x" "fit_fraction g p = Inr x"
  shows "f = g"
proof -
  have t: "take p f @ replicate (p - length f) CHR ''0'' = take p g @ replicate (p - length f) CHR ''0''"
    and z: "\<forall>c \<in> set (drop p f). c = CHR ''0''" "\<forall>c \<in> set (drop p g). c = CHR ''0''"
    using assms by (auto simp only: fit_fraction_iff)
  have "drop p f = replicate (length f - p) CHR ''0''" "drop p g = replicate (length f - p) CHR ''0''"
    using z assms(1) by (simp_all add: replicate_eqI)
  moreover have "take p f = take p g" using t by simp
  ultimately show ?thesis by (metis append_take_drop_id)
qed

lemma format_nat_inj: "format_nat 10 w m = format_nat 10 w n \<Longrightarrow> m = n"
proof -
  assume eq: "format_nat 10 w m = format_nat 10 w n"
  have "parse_nat 10 (format_nat 10 w m) = m" "parse_nat 10 (format_nat 10 w n) = n" by simp_all
  then show "m = n" unfolding eq by simp
qed

lemma clock_time_eq: "clock_time t = clock_time t' \<Longrightarrow> t_micro t = t_micro t' \<Longrightarrow> t = t'"
  by (cases t; cases t') (simp add: clock_time_def)

lemma encode_instant_of_fixed:
  assumes "wf_value (PDateTime dt)" "dt_tzinfo dt = TzFixed off" "p \<le> 9"
    "encode_timestamp_instant (PDateTime dt) p = Inr b"
  obtains d t f where "subtract_offset (dt_date dt) (dt_time dt) off = Some (d, t)" "valid_date d" "valid_time t"
    "fit_fraction (format_nat 10 6 (t_micro t)) p = Inr f" "timestamp_fields d t f p" "b = format_timestamp d t f p @ ''Z''"
    "instant_micros d t = instant_micros (dt_date dt) (dt_time dt) - off"
proof -
  obtain d t f where *: "subtract_offset (dt_date dt) (dt_time dt) off = Some (d, t)"
    "fit_fraction (format_nat 10 6 (t_micro t)) p = Inr f" "b = format_timestamp d t f p @ ''Z''"
    using assms(2,4) by (auto simp: encode_timestamp_instant_def result_iffs split: option.splits)
  have "valid_date (dt_date dt)" using assms(1) by simp
  then show ?thesis
    using that [OF *(1) _ _ *(2) _ *(3)] subtract_offset_valid [OF _ *(1)] subtract_offset_instant [OF _ *(1)]
      fit_fraction_dec [OF *(2) micro_text_dec] assms(3)
    by (simp add: timestamp_fields_def)
qed

section \<open>The contract of a canonical codec\<close>

text \<open>
  For each admissible schema \<open>s\<close>: a decoder accepts only payloads that encoding the decoded value
  gives back, and it accepts every payload that encoding produces. \<open>embed\<close> maps a decoded value to
  the input it stands for.
\<close>

locale canonical_codec =
  fixes ok :: "'s \<Rightarrow> bool"
    and wf :: "'v \<Rightarrow> bool"
    and enc :: "'s \<Rightarrow> 'v \<Rightarrow> exn + bytes"
    and dec :: "'s \<Rightarrow> bytes \<Rightarrow> exn + 'w"
    and embed :: "'w \<Rightarrow> 'v"
  assumes dec_canonical: "ok s \<Longrightarrow> dec s b = Inr w \<Longrightarrow> enc s (embed w) = Inr b \<and> wf (embed w)"
    and enc_decodes: "ok s \<Longrightarrow> wf v \<Longrightarrow> enc s v = Inr b \<Longrightarrow> \<exists>w. dec s b = Inr w"
begin

lemma round_trip:
  "ok s \<Longrightarrow> wf v \<Longrightarrow> enc s v = Inr b \<Longrightarrow> \<exists>w. dec s b = Inr w \<and> enc s (embed w) = Inr b"
  using dec_canonical enc_decodes by blast

lemma dec_inj: "ok s \<Longrightarrow> dec s b = Inr w \<Longrightarrow> dec s b' = Inr w \<Longrightarrow> b = b'"
  using dec_canonical by (metis sum.inject(2))

lemma accepted_iff_produced:
  "ok s \<Longrightarrow> (\<exists>w. dec s b = Inr w) \<longleftrightarrow> (\<exists>v. wf v \<and> enc s v = Inr b)"
  using dec_canonical enc_decodes by blast

lemma same_encoding_iff:
  "ok s \<Longrightarrow> wf v \<Longrightarrow> wf v' \<Longrightarrow> enc s v = Inr b \<Longrightarrow> enc s v' = Inr b' \<Longrightarrow>
   b = b' \<longleftrightarrow> dec s b = dec s b'"
  using round_trip dec_inj by metis

end

lemma payload_dec_canonical:
  assumes "wf_field f" "decode_payload f b = Inr w"
  shows "encode_payload f w = Inr b \<and> wf_value w"
  using assms(1)
proof (cases rule: wf_field_cases)
  case no
  then show ?thesis using assms(2)
    by (auto simp: decode_payload_def encode_payload_def decode_int64_iff encode_int64_iff
        decode_boolean_iff encode_boolean_iff decode_string_iff encode_string_iff utf8_encode_pystr
        decode_date_iff encode_date_iff)
next
  case (decimal pr sc)
  obtain i where i: "\<bar>i\<bar> < 10 ^ nat pr" "b = int_str i"
    "w = PDecimal (DFinite (i < 0) (digits_of 10 (nat \<bar>i\<bar>)) (- sc))"
    using assms(2) decimal by (auto simp: decode_payload_def decode_decimal_iff)
  have wf: "wf_value w" using i(3) by (auto simp: digits_of_less [of 10, simplified])
  have "decimal_input_value w = Some (decimal_value (i < 0) (digits_of 10 (nat \<bar>i\<bar>)) (- sc))"
    by (simp add: decimal_input_value_def decimal_from_input_def i(3))
  moreover have "of_int i = decimal_value (i < 0) (digits_of 10 (nat \<bar>i\<bar>)) (- sc) * 10 powi sc"
    by (simp add: decimal_value_def mult.assoc power_int_add [symmetric])
  ultimately show ?thesis
    using i wf decimal encode_decimal_iff [OF wf, of pr sc b] by (auto simp: encode_payload_def)
next
  case (timestamp pr)
  have "is_ascii b \<Longrightarrow> is_pystr (asc b)"
    by (auto simp: is_pystr_def asc_def list_all_iff is_ascii_def)
  then show ?thesis using assms(2) timestamp
    by (auto simp: decode_payload_def encode_payload_def decode_timestamp_local_iff decode_timestamp_instant_iff)
qed

lemma payload_enc_decodes:
  assumes "wf_field f" "wf_value v" "encode_payload f v = Inr b"
  shows "\<exists>w. decode_payload f b = Inr w"
  using assms(1)
proof (cases rule: wf_field_cases)
  case no
  then show ?thesis using assms(2,3)
    by (auto simp: decode_payload_def encode_payload_def decode_int64_iff encode_int64_iff
        decode_boolean_iff encode_boolean_iff decode_string_iff encode_string_iff
        decode_date_iff encode_date_iff)
next
  case (decimal pr sc)
  then show ?thesis using assms(2,3)
    by (auto simp: decode_payload_def encode_payload_def decode_decimal_iff encode_decimal_iff)
next
  case (timestamp pr)
  consider "fs_logical_type f = TIMESTAMP_LOCAL" | "fs_logical_type f = TIMESTAMP_INSTANT" using timestamp by auto
  then show ?thesis
  proof cases
    case 1
    then have "encode_timestamp_local v (nat pr) = Inr b" using assms(3) timestamp by (simp add: encode_payload_def)
    then obtain d t p where "timestamp_fields d t p (nat pr)" "b = format_timestamp d t p (nat pr)"
      using assms(2) timestamp(4) by (elim encode_timestamp_local_shape [rotated 2]) auto
    then show ?thesis
      using 1 timestamp encode_timestamp_local_text format_timestamp_ascii
      by (auto simp: decode_payload_def decode_timestamp_local_iff)
  next
    case 2
    then have "encode_timestamp_instant v (nat pr) = Inr b" using assms(3) timestamp by (simp add: encode_payload_def)
    then obtain d t p where "timestamp_fields d t p (nat pr)" "b = format_timestamp d t p (nat pr) @ ''Z''"
      using assms(2) timestamp(4) by (elim encode_timestamp_instant_shape [rotated 2]) auto
    then show ?thesis
      using 2 timestamp encode_timestamp_instant_text format_timestamp_ascii
      by (auto simp: decode_payload_def decode_timestamp_instant_iff simp del: asc_append)
  qed
qed

interpretation payload: canonical_codec wf_field wf_value encode_payload decode_payload id
  by unfold_locales (auto simp: payload_dec_canonical payload_enc_decodes)

text \<open>(C12) \<open>timestamp_instant\<close> payloads identify instants: two aware datetimes with built-in fixed offsets,
  whatever the offsets are, get the same payload exactly when they denote the same UTC microsecond.\<close>

theorem instant_payload_iff_same_instant:
  assumes "wf_value (PDateTime x)" "dt_tzinfo x = TzFixed offx" "encode_timestamp_instant (PDateTime x) p = Inr a"
    and "wf_value (PDateTime y)" "dt_tzinfo y = TzFixed offy" "encode_timestamp_instant (PDateTime y) p = Inr b"
    and "p \<le> 9"
  shows "a = b \<longleftrightarrow>
     instant_micros (dt_date x) (dt_time x) - offx = instant_micros (dt_date y) (dt_time y) - offy"
proof -
  obtain d t f where x: "valid_date d" "valid_time t" "fit_fraction (format_nat 10 6 (t_micro t)) p = Inr f"
    "timestamp_fields d t f p" "a = format_timestamp d t f p @ ''Z''"
    "instant_micros d t = instant_micros (dt_date x) (dt_time x) - offx"
    using encode_instant_of_fixed [OF assms(1,2,7,3)] by metis
  obtain d' t' f' where y: "valid_date d'" "valid_time t'" "fit_fraction (format_nat 10 6 (t_micro t')) p = Inr f'"
    "timestamp_fields d' t' f' p" "b = format_timestamp d' t' f' p @ ''Z''"
    "instant_micros d' t' = instant_micros (dt_date y) (dt_time y) - offy"
    using encode_instant_of_fixed [OF assms(4,5,7,6)] by metis
  have six: "length (format_nat 10 6 (t_micro t)) = length (format_nat 10 6 (t_micro t'))"
    using x(2) y(2) by (simp add: valid_time_def length_format_nat)
  show ?thesis
  proof
    assume "a = b"
    then have "d = d'" "clock_time t = clock_time t'" "f = f'"
      using format_timestamp_inj [OF x(4) y(4)] x(5) y(5) by auto
    moreover have "t_micro t = t_micro t'"
      using fit_fraction_inj [OF six x(3)] y(3) \<open>f = f'\<close> format_nat_inj by metis
    ultimately show "instant_micros (dt_date x) (dt_time x) - offx = instant_micros (dt_date y) (dt_time y) - offy"
      using clock_time_eq x(6) y(6) by metis
  next
    assume "instant_micros (dt_date x) (dt_time x) - offx = instant_micros (dt_date y) (dt_time y) - offy"
    then have "d = d' \<and> t = t'" using instant_micros_inj x(1,2,6) y(1,2,6) by metis
    then show "a = b" using x(3,5) y(3,5) by auto
  qed
qed

text \<open>(C3) Every payload that encoding produces for a field is accepted by the decoder of that field, and
  encoding the decoded value gives the same payload back.\<close>

theorem payload_round_trip:
  "wf_field f \<Longrightarrow> wf_value v \<Longrightarrow> encode_payload f v = Inr b \<Longrightarrow>
   \<exists>w. decode_payload f b = Inr w \<and> encode_payload f w = Inr b"
  using payload.round_trip [of f v b] by simp

definition example_instant_field :: field_schema where
  "example_instant_field =
     \<lparr>fs_name = asc ''at'', fs_logical_type = TIMESTAMP_INSTANT, fs_nullable = True,
      fs_parameters = TimestampParameters 3, fs_normalization = NORMALIZATION_NONE\<rparr>"

lemma example_instant_payload:
  "wf_field example_instant_field"
  "encode_payload example_instant_field (PStr (asc ''2024-02-29T23:30:00.5-01:00'')) = Inr ''2024-03-01T00:30:00.500Z''"
  by (simp add: wf_field_def wf_parameters_def example_instant_field_def is_scalar_def)
    code_simp

theorem payload_round_trip_witness:
  "\<exists>w. decode_payload example_instant_field ''2024-03-01T00:30:00.500Z'' = Inr w \<and>
       encode_payload example_instant_field w = Inr ''2024-03-01T00:30:00.500Z''"
  by (rule payload_round_trip [OF example_instant_payload(1) _ example_instant_payload(2)])
    (simp add: is_pystr_def)

text \<open>(C8) A decoder accepts only canonical payloads: whatever it accepts is the encoding of the value it
  returns, so two different payloads never decode to the same value.\<close>

theorem decode_payload_canonical:
  "wf_field f \<Longrightarrow> decode_payload f b = Inr w \<Longrightarrow>
   encode_payload f w = Inr b \<and> (\<forall>b'. decode_payload f b' = Inr w \<longrightarrow> b' = b)"
  using payload_dec_canonical payload.dec_inj by metis

theorem decode_payload_canonical_witness:
  "encode_payload example_instant_field (PStr (asc ''2024-03-01T00:30:00.500Z'')) = Inr ''2024-03-01T00:30:00.500Z''"
  by (rule decode_payload_canonical [THEN conjunct1]) (simp add: example_instant_payload(1), code_simp)

text \<open>(C10) A decimal input is encoded exactly when its value times ten to the declared scale is an integer of
  at most the declared number of digits, and the payload is then that integer: nothing is rounded and
  nothing representable is rejected.\<close>

theorem encode_decimal_exact:
  assumes "wf_value v" "1 \<le> precision" "0 \<le> scale" "scale \<le> precision"
  shows "encode_decimal v precision scale = Inr b \<longleftrightarrow>
     (\<exists>q i. decimal_input_value v = Some q \<and> of_int i = q * 10 powi scale \<and>
            \<bar>i\<bar> < 10 ^ nat precision \<and> b = int_str i)"
  by (rule encode_decimal_iff [OF assms])

theorem encode_decimal_exact_witness:
  "\<exists>q i. decimal_input_value (PStr (asc ''12.34'')) = Some q \<and> of_int i = q * 10 powi 3 \<and>
            \<bar>i\<bar> < 10 ^ nat 10 \<and> ''12340'' = int_str i"
proof -
  have "encode_decimal (PStr (asc ''12.34'')) 10 3 = Inr ''12340''" by code_simp
  then show ?thesis
    by (subst encode_decimal_exact [symmetric]) (simp_all add: is_pystr_def)
qed

text \<open>Integers, booleans and strings come back as they went in, not merely as an equal encoding.\<close>

theorem decode_encoded_value:
  assumes "wf_field f" "fs_logical_type f \<in> {INT64, BOOLEAN, STRING}" "encode_payload f v = Inr b"
  shows "decode_payload f b = Inr v"
  using assms(2,3)
  by (auto simp: encode_payload_def decode_payload_def encode_int64_iff decode_int64_iff
      encode_boolean_iff decode_boolean_iff encode_string_iff decode_string_iff)

theorem decode_encoded_value_witness:
  "decode_payload \<lparr>fs_name = asc ''n'', fs_logical_type = INT64, fs_nullable = False,
      fs_parameters = NoParameters, fs_normalization = NORMALIZATION_NONE\<rparr> ''-42'' = Inr (PInt (- 42))"
  by (rule decode_encoded_value) (simp add: wf_field_def wf_parameters_def is_scalar_def, simp, code_simp)

text \<open>Witness of the instant theorem: one instant written with two offsets.\<close>

definition example_aware :: "nat \<Rightarrow> nat \<Rightarrow> int \<Rightarrow> pydatetime" where
  "example_aware day hour off =
     \<lparr>dt_date = \<lparr>d_year = 2024, d_month = 3, d_day = day\<rparr>,
      dt_time = \<lparr>t_hour = hour, t_minute = 0, t_second = 0, t_micro = 0\<rparr>, dt_tzinfo = TzFixed off\<rparr>"

theorem instant_payload_iff_same_instant_witness:
  "''2024-03-01T23:00:00Z'' = ''2024-03-01T23:00:00Z'' \<longleftrightarrow>
     instant_micros (dt_date (example_aware 2 1 7200000000)) (dt_time (example_aware 2 1 7200000000)) - 7200000000 =
     instant_micros (dt_date (example_aware 1 23 0)) (dt_time (example_aware 1 23 0)) - 0"
proof (rule instant_payload_iff_same_instant [where p = 0])
  show "encode_timestamp_instant (PDateTime (example_aware 2 1 7200000000)) 0 = Inr ''2024-03-01T23:00:00Z''"
    "encode_timestamp_instant (PDateTime (example_aware 1 23 0)) 0 = Inr ''2024-03-01T23:00:00Z''"
    by code_simp+
qed (simp_all add: example_aware_def valid_date_def valid_time_def days_in_month_def)

end
