(* ===== verification/Canonical_Envelope.thy ===== *)
theory Canonical_Envelope
  imports Canonical_Codec
begin

text \<open>
  The second half of \<open>src/forensic_data/canonical/codec.py\<close>: row and key envelopes, a 77-character
  header followed by one frame per field. The position \<open>offset\<close> of the envelope parser is the suffix
  that is left to read.
\<close>

section \<open>Envelopes\<close>

fun type_tag :: "logical_type \<Rightarrow> string" where
  "type_tag INT64 = ''01''"
| "type_tag DECIMAL = ''02''"
| "type_tag BOOLEAN = ''03''"
| "type_tag STRING = ''04''"
| "type_tag DATE = ''05''"
| "type_tag TIMESTAMP_LOCAL = ''06''"
| "type_tag TIMESTAMP_INSTANT = ''07''"

definition null_frame :: "field_schema \<Rightarrow> string" where
  "null_frame f = type_tag (fs_logical_type f) @ ''0'' @ replicate 16 CHR ''0''"

definition present_frame :: "field_schema \<Rightarrow> bytes \<Rightarrow> exn + string" where
  "present_frame f payload =
     ebind (require (length payload \<le> UINT64_MAX) PayloadValidationError) (\<lambda>_.
     Inr (type_tag (fs_logical_type f) @ ''1'' @ format_nat 16 16 (length payload) @ bytes_hex payload))"

definition require_values :: "canonical_schema \<Rightarrow> 'v list \<Rightarrow> exn + unit" where
  "require_values s values = require (length values = length (cs_fields s)) PayloadValidationError"

definition row_frame :: "field_schema \<times> pyval option \<Rightarrow> exn + string" where
  "row_frame fv =
     (case fv of
        (f, None) \<Rightarrow>
          ebind (require (fs_nullable f) PayloadValidationError) (\<lambda>_. Inr (null_frame f))
      | (f, Some v) \<Rightarrow> ebind (encode_payload f v) (\<lambda>payload. present_frame f payload))"

definition key_frame :: "field_schema \<times> pyval option \<Rightarrow> exn + string" where
  "key_frame fv =
     (case fv of
        (f, None) \<Rightarrow> Inl NullKeyError
      | (f, Some v) \<Rightarrow> ebind (encode_payload f v) (\<lambda>payload. present_frame f payload))"

definition encode_row_with_context :: "envelope_context \<Rightarrow> pyval option list \<Rightarrow> exn + bytes" where
  "encode_row_with_context c values =
     ebind (require_values (ec_schema c) values) (\<lambda>_.
     ebind (traverse row_frame (zip (cs_fields (ec_schema c)) values)) (\<lambda>frames.
     Inr (ec_row_header c @ concat frames)))"

definition encode_key_with_context :: "envelope_context \<Rightarrow> pyval option list \<Rightarrow> exn + bytes" where
  "encode_key_with_context c values =
     ebind (require_values (ec_schema c) values) (\<lambda>_.
     ebind (traverse key_frame (zip (cs_fields (ec_schema c)) values)) (\<lambda>frames.
     Inr (ec_key_header c @ concat frames)))"

definition encode_row :: "canonical_schema \<Rightarrow> pyval option list \<Rightarrow> exn + bytes" where
  "encode_row s values =
     ebind (prepare_envelope_context s) (\<lambda>c. encode_row_with_context c values)"

definition encode_key :: "canonical_schema \<Rightarrow> pyval option list \<Rightarrow> exn + bytes" where
  "encode_key s values =
     ebind (prepare_envelope_context s) (\<lambda>c. encode_key_with_context c values)"

definition ENVELOPE_HEADER_LENGTH :: nat where
  "ENVELOPE_HEADER_LENGTH = 5 + 64 + 8"

definition FIELD_HEADER_LENGTH :: nat where
  "FIELD_HEADER_LENGTH = 2 + 1 + 16"

text \<open>One iteration of the field loop: the payload (\<open>None\<close> for NULL) and the text after it.\<close>

definition parse_frame :: "field_schema \<Rightarrow> string \<Rightarrow> exn + bytes option \<times> string" where
  "parse_frame f s =
     ebind (require (\<not> length s < FIELD_HEADER_LENGTH) FrameValidationError) (\<lambda>_.
     let tag = slice 0 2 s; presence = s ! 2; length_text = slice 3 FIELD_HEADER_LENGTH s in
     ebind (require (tag = type_tag (fs_logical_type f)) FrameValidationError) (\<lambda>_.
     ebind (require (presence = CHR ''0'' \<or> presence = CHR ''1'') FrameValidationError) (\<lambda>_.
     ebind (require (length length_text = 16 \<and> list_all is_lower_hex length_text) FrameValidationError) (\<lambda>_.
     let payload_length = parse_nat 16 length_text;
         body = drop FIELD_HEADER_LENGTH s;
         payload_hex_length = payload_length * 2
     in
     ebind (require (\<not> payload_hex_length > length body) FrameValidationError) (\<lambda>_.
     let payload_hex = take payload_hex_length body; rest = drop payload_hex_length body in
     ebind (require (even (length payload_hex) \<and> list_all is_lower_hex payload_hex) FrameValidationError) (\<lambda>_.
     if presence = CHR ''0'' then
       ebind (require (payload_length = 0) FrameValidationError) (\<lambda>_. Inr (None, rest))
     else Inr (Some (bytes_fromhex payload_hex), rest)))))))"

fun parse_frames :: "field_schema list \<Rightarrow> string \<Rightarrow> exn + bytes option list" where
  "parse_frames [] s = ebind (require (s = []) FrameValidationError) (\<lambda>_. Inr [])"
| "parse_frames (f # fs) s =
     ebind (parse_frame f s) (\<lambda>(p, rest). ebind (parse_frames fs rest) (\<lambda>ps. Inr (p # ps)))"

definition parse_envelope :: "envelope_context \<Rightarrow> bytes \<Rightarrow> string \<Rightarrow> exn + bytes option list" where
  "parse_envelope c envelope expected_header =
     ebind (require (is_ascii envelope) FrameValidationError) (\<lambda>_.
     ebind (require (\<not> length envelope < ENVELOPE_HEADER_LENGTH) FrameValidationError) (\<lambda>_.
     ebind (require (slice 0 5 envelope = slice 0 5 expected_header) FrameValidationError) (\<lambda>_.
     let digest_text = slice 5 69 envelope in
     ebind (require (length digest_text = 64 \<and> list_all is_lower_hex digest_text) FrameValidationError) (\<lambda>_.
     ebind (require (digest_text = slice 5 69 expected_header) FrameValidationError) (\<lambda>_.
     let field_count_text = slice 69 77 envelope in
     ebind (require (length field_count_text = 8 \<and> list_all is_lower_hex field_count_text)
       FrameValidationError) (\<lambda>_.
     ebind (require (parse_nat 16 field_count_text = parse_nat 16 (slice 69 77 expected_header))
       FrameValidationError) (\<lambda>_.
     parse_frames (cs_fields (ec_schema c)) (drop ENVELOPE_HEADER_LENGTH envelope))))))))"

definition decode_row_field :: "field_schema \<times> bytes option \<Rightarrow> exn + pyval option" where
  "decode_row_field fp =
     (case fp of
        (f, None) \<Rightarrow> ebind (require (fs_nullable f) FrameValidationError) (\<lambda>_. Inr None)
      | (f, Some payload) \<Rightarrow> ebind (decode_payload f payload) (\<lambda>v. Inr (Some v)))"

definition decode_key_field :: "field_schema \<times> bytes option \<Rightarrow> exn + pyval" where
  "decode_key_field fp =
     (case fp of
        (f, None) \<Rightarrow> Inl NullKeyError
      | (f, Some payload) \<Rightarrow> decode_payload f payload)"

definition decode_row_with_context :: "envelope_context \<Rightarrow> bytes \<Rightarrow> exn + pyval option list" where
  "decode_row_with_context c envelope =
     ebind (parse_envelope c envelope (ec_row_header c)) (\<lambda>parsed.
     traverse decode_row_field (zip (cs_fields (ec_schema c)) parsed))"

definition decode_key_with_context :: "envelope_context \<Rightarrow> bytes \<Rightarrow> exn + pyval list" where
  "decode_key_with_context c envelope =
     ebind (parse_envelope c envelope (ec_key_header c)) (\<lambda>parsed.
     traverse decode_key_field (zip (cs_fields (ec_schema c)) parsed))"

definition decode_row :: "canonical_schema \<Rightarrow> bytes \<Rightarrow> exn + pyval option list" where
  "decode_row s envelope =
     ebind (prepare_envelope_context s) (\<lambda>c. decode_row_with_context c envelope)"

definition decode_key :: "canonical_schema \<Rightarrow> bytes \<Rightarrow> exn + pyval list" where
  "decode_key s envelope =
     ebind (prepare_envelope_context s) (\<lambda>c. decode_key_with_context c envelope)"

section \<open>Frames\<close>

text \<open>The frame of one payload, absent for NULL; lengths are 64-bit.\<close>

definition frame_text :: "field_schema \<Rightarrow> bytes option \<Rightarrow> string" where
  "frame_text f p =
     (case p of
        None \<Rightarrow> null_frame f
      | Some b \<Rightarrow> type_tag (fs_logical_type f) @ ''1'' @ format_nat 16 16 (length b) @ bytes_hex b)"

definition frame_fits :: "bytes option \<Rightarrow> bool" where
  "frame_fits p \<longleftrightarrow> (case p of None \<Rightarrow> True | Some b \<Rightarrow> length b \<le> UINT64_MAX)"

lemma type_tag_chars:
  obtains a b where "type_tag t = [a, b]" "is_ascii [a, b]"
  using that by (cases t) auto

lemma uint64_less: "n \<le> UINT64_MAX \<longleftrightarrow> n < 16 ^ 16"
  by (simp add: UINT64_MAX_def) linarith

lemma replicate_zero_hex: "replicate 16 CHR ''0'' = format_nat 16 16 0"
  by code_simp

text \<open>Both kinds of frame in one form: tag, presence digit, length and payload digits.\<close>

lemma frame_text_form:
  "frame_text f p = type_tag (fs_logical_type f) @ (case p of None \<Rightarrow> ''0'' | Some _ \<Rightarrow> ''1'') @
     format_nat 16 16 (case p of None \<Rightarrow> 0 | Some b \<Rightarrow> length b) @ bytes_hex (case p of None \<Rightarrow> [] | Some b \<Rightarrow> b)"
  by (simp add: frame_text_def null_frame_def replicate_zero_hex split: option.split)

lemma parse_frame_text:
  assumes "frame_fits p"
  shows "parse_frame f (frame_text f p @ r) = Inr (p, r)"
proof -
  define n where "n = (case p of None \<Rightarrow> 0 | Some b \<Rightarrow> length b)"
  define b where "b = (case p of None \<Rightarrow> [] | Some b \<Rightarrow> b)"
  define x where "x = (case p of None \<Rightarrow> CHR ''0'' | Some _ \<Rightarrow> CHR ''1'')"
  have n: "n < 16 ^ 16" "length b = n"
    using assms by (auto simp: frame_fits_def n_def b_def uint64_less split: option.splits)
  have l: "length (format_nat 16 16 n) = 16" "list_all is_lower_hex (format_nat 16 16 n)"
    using n(1) by (auto simp: length_format_nat list_all_iff format_nat_hex)
  obtain t u where tag: "type_tag (fs_logical_type f) = [t, u]" by (rule type_tag_chars)
  have "frame_text f p = t # u # x # format_nat 16 16 n @ bytes_hex b"
    unfolding frame_text_form tag n_def b_def x_def by (cases p) simp_all
  then show ?thesis
    using l n tag bytes_hex_lower [of b]
    by (cases p) (simp_all add: parse_frame_def FIELD_HEADER_LENGTH_def slice_def x_def b_def Let_def)
qed

lemma parse_frame_inv:
  assumes "parse_frame f s = Inr (p, r)"
  shows "s = frame_text f p @ r \<and> frame_fits p"
proof -
  let ?l = "slice 3 FIELD_HEADER_LENGTH s" and ?body = "drop FIELD_HEADER_LENGTH s"
  define n where "n = parse_nat 16 ?l"
  have len: "19 \<le> length s"
    and tag: "slice 0 2 s = type_tag (fs_logical_type f)"
    and pres: "s ! 2 = CHR ''0'' \<or> s ! 2 = CHR ''1''"
    and l: "length ?l = 16" "list_all is_lower_hex ?l"
    and fits: "n * 2 \<le> length ?body"
    and hex: "list_all is_lower_hex (take (n * 2) ?body)"
    and res: "s ! 2 = CHR ''0'' \<longrightarrow> n = 0 \<and> p = None" "s ! 2 = CHR ''1'' \<longrightarrow> p = Some (bytes_fromhex (take (n * 2) ?body))"
    and r: "r = drop (n * 2) ?body"
    using assms by (auto simp: parse_frame_def Let_def result_iffs n_def FIELD_HEADER_LENGTH_def split: if_splits)
  have "\<forall>d \<in> set (map char_digit ?l). d < 16" using l(2) by (auto simp: list_all_iff char_digit_hex_less)
  from value_of_less [OF this] have "n < 16 ^ length ?l" by (simp add: n_def parse_nat_def)
  then have n: "n < 16 ^ 16" using l(1) by simp
  have lf: "format_nat 16 16 n = ?l" unfolding n_def using l by (intro format_parse_nat_fixed) auto
  have hx: "bytes_hex (bytes_fromhex (take (n * 2) ?body)) = take (n * 2) ?body"
    using hex fits by (intro hex_fromhex) auto
  then have lb: "length (bytes_fromhex (take (n * 2) ?body)) = n"
    using fits length_bytes_hex [of "bytes_fromhex (take (n * 2) ?body)"] by simp
  have "s = slice 0 2 s @ [s ! 2] @ ?l @ ?body"
  proof -
    have "s = take 2 s @ drop 2 s" by simp
    also have "drop 2 s = s ! 2 # drop 3 s" using len Cons_nth_drop_Suc [of 2 s] by simp
    also have "drop 3 s = take 16 (drop 3 s) @ drop 16 (drop 3 s)" by (rule append_take_drop_id [symmetric])
    finally show ?thesis by (simp add: slice_def FIELD_HEADER_LENGTH_def)
  qed
  moreover have "?body = take (n * 2) ?body @ r" unfolding r by (rule append_take_drop_id [symmetric])
  ultimately have "s = type_tag (fs_logical_type f) @ [s ! 2] @ format_nat 16 16 n @ take (n * 2) ?body @ r"
    using tag lf by metis
  then show ?thesis
    using pres res n lb hx by (auto simp: frame_text_form frame_fits_def uint64_less)
qed

definition frames_text :: "field_schema list \<Rightarrow> bytes option list \<Rightarrow> string" where
  "frames_text fs ps = concat (map2 frame_text fs ps)"

lemma parse_frames_iff:
  "parse_frames fs s = Inr ps \<longleftrightarrow> length ps = length fs \<and> list_all frame_fits ps \<and> s = frames_text fs ps"
proof (induction fs arbitrary: s ps)
  case Nil
  then show ?case by (auto simp: frames_text_def result_iffs)
next
  case (Cons f fs)
  have "parse_frames (f # fs) s = Inr ps \<longleftrightarrow>
      (\<exists>p r qs. parse_frame f s = Inr (p, r) \<and> parse_frames fs r = Inr qs \<and> ps = p # qs)"
    by (auto simp: result_iffs)
  also have "\<dots> \<longleftrightarrow> (\<exists>p r qs. s = frame_text f p @ r \<and> frame_fits p \<and> parse_frames fs r = Inr qs \<and> ps = p # qs)"
    using parse_frame_text parse_frame_inv by metis
  also have "\<dots> \<longleftrightarrow> length ps = length (f # fs) \<and> list_all frame_fits ps \<and> s = frames_text (f # fs) ps"
    unfolding Cons.IH by (cases ps) (auto simp: frames_text_def)
  finally show ?case .
qed

lemma frame_text_ascii [simp]: "is_ascii (frame_text f p)"
proof -
  have "is_ascii (format_nat 16 16 n)" for n
    by (rule is_ascii_hex) (simp add: list_all_iff format_nat_hex)
  moreover have "is_ascii (type_tag (fs_logical_type f))" by (cases "fs_logical_type f") simp_all
  ultimately show ?thesis by (simp add: frame_text_form split: option.split)
qed

lemma frames_text_ascii: "is_ascii (frames_text fs ps)"
  unfolding frames_text_def by (induction fs ps rule: list_induct2') simp_all

text \<open>A header of the right shape: prefix, digest digits and field count.\<close>

definition header_shape :: "string \<Rightarrow> bool" where
  "header_shape h \<longleftrightarrow> length h = 77 \<and> is_ascii h \<and> list_all is_lower_hex (drop 5 h)"

lemma parse_envelope_iff:
  assumes "header_shape h"
  shows "parse_envelope c e h = Inr ps \<longleftrightarrow>
     length ps = length (cs_fields (ec_schema c)) \<and> list_all frame_fits ps \<and>
     e = h @ frames_text (cs_fields (ec_schema c)) ps"
    (is "?L \<longleftrightarrow> ?R")
proof
  have h: "length h = 77" "list_all is_lower_hex (drop 5 h)" "is_ascii h"
    using assms by (simp_all add: header_shape_def)
  have hex: "list_all is_lower_hex (slice 5 69 h)" "list_all is_lower_hex (slice 69 77 h)"
    using h(2) set_drop_subset [of 64 "drop 5 h"] by (auto simp: slice_def list_all_iff dest!: in_set_takeD)
  have split77: "slice 0 5 x @ slice 5 69 x @ slice 69 77 x @ drop 77 x = x" for x :: string
  proof -
    have "take 5 x @ take 64 (drop 5 x) @ take 8 (drop 64 (drop 5 x)) @ drop 8 (drop 64 (drop 5 x)) = x"
      by (simp only: append_take_drop_id)
    then show ?thesis by (simp add: slice_def)
  qed
  have len8: "length (slice 69 77 h) = 8" using h(1) by (simp add: slice_def)
  {
    assume ?L
    then have e: "slice 0 5 e = slice 0 5 h" "slice 5 69 e = slice 5 69 h"
      "length (slice 69 77 e) = 8" "list_all is_lower_hex (slice 69 77 e)"
      "parse_nat 16 (slice 69 77 e) = parse_nat 16 (slice 69 77 h)"
      and ps: "parse_frames (cs_fields (ec_schema c)) (drop 77 e) = Inr ps"
      by (auto simp: parse_envelope_def ENVELOPE_HEADER_LENGTH_def result_iffs Let_def)
    have "slice 69 77 e = slice 69 77 h"
      using format_parse_nat_fixed [OF e(4,3)] format_parse_nat_fixed [OF hex(2), of 8] e(5) len8
      by (metis zero_less_numeral)
    then have "(slice 0 5 h @ slice 5 69 h @ slice 69 77 h) @ drop 77 e = e"
      using split77 [of e] e(1,2) by simp
    moreover have "slice 0 5 h @ slice 5 69 h @ slice 69 77 h = h" using split77 [of h] h(1) by simp
    ultimately have "e = h @ drop 77 e" by simp
    then show ?R using ps by (simp add: parse_frames_iff)
  }
  assume R: ?R
  have "slice i j (h @ x) = slice i j h" if "j \<le> 77" for i j x
    using h(1) that by (cases "i \<le> j") (simp_all add: slice_def)
  moreover have "parse_frames (cs_fields (ec_schema c)) (frames_text (cs_fields (ec_schema c)) ps) = Inr ps"
    using R by (simp add: parse_frames_iff)
  ultimately show ?L
    using R h hex frames_text_ascii
    by (simp add: parse_envelope_def ENVELOPE_HEADER_LENGTH_def Let_def) (simp add: slice_def)
qed

lemma wf_context_header_shape:
  assumes "wf_context c"
  shows "header_shape (ec_row_header c)" "header_shape (ec_key_header c)"
proof -
  obtain hex count where h: "ec_row_header c = ROW_PREFIX @ hex @ count" "ec_key_header c = KEY_PREFIX @ hex @ count"
    and l: "length hex = 64" "list_all is_lower_hex hex" "length count = 8" "list_all is_lower_hex count"
    using assms by (rule wf_context_headers)
  show "header_shape (ec_row_header c)" "header_shape (ec_key_header c)"
    using l is_ascii_hex [OF l(2)] is_ascii_hex [OF l(4)]
    by (simp_all add: h header_shape_def ROW_PREFIX_def KEY_PREFIX_def)
qed

section \<open>Rows and keys\<close>

text \<open>What a field of a row or key contributes to the envelope.\<close>

definition row_payload :: "field_schema \<Rightarrow> pyval option \<Rightarrow> bytes option \<Rightarrow> bool" where
  "row_payload f v p \<longleftrightarrow>
     (case v of None \<Rightarrow> fs_nullable f \<and> p = None
      | Some x \<Rightarrow> (\<exists>b. encode_payload f x = Inr b \<and> p = Some b \<and> length b \<le> UINT64_MAX))"

definition key_payload :: "field_schema \<Rightarrow> pyval option \<Rightarrow> bytes option \<Rightarrow> bool" where
  "key_payload f v p \<longleftrightarrow> v \<noteq> None \<and> row_payload f v p"

lemma row_frame_iff: "row_frame (f, v) = Inr t \<longleftrightarrow> (\<exists>p. row_payload f v p \<and> t = frame_text f p)"
  by (auto simp: row_frame_def row_payload_def present_frame_def frame_text_def result_iffs split: option.split)

lemma key_frame_iff: "key_frame (f, v) = Inr t \<longleftrightarrow> (\<exists>p. key_payload f v p \<and> t = frame_text f p)"
  by (auto simp: key_frame_def key_payload_def row_payload_def present_frame_def frame_text_def result_iffs
      split: option.split)

lemma row_payload_fits: "row_payload f v p \<Longrightarrow> frame_fits p"
  by (auto simp: row_payload_def frame_fits_def split: option.splits)

lemma traverse_frames_iff:
  assumes "\<And>f v t. frame (f, v) = Inr t \<longleftrightarrow> (\<exists>p. rel f v p \<and> t = frame_text f p)" "length vs = length fs"
  shows "ebind (traverse frame (zip fs vs)) (\<lambda>ts. Inr (h @ concat ts)) = Inr b \<longleftrightarrow>
     (\<exists>ps. list_all2 (\<lambda>(f, v) p. rel f v p) (zip fs vs) ps \<and> b = h @ frames_text fs ps)"
proof -
  have "list_all2 (\<lambda>x t. frame x = Inr t) (zip fs vs) ts \<longleftrightarrow>
      (\<exists>ps. list_all2 (\<lambda>(f, v) p. rel f v p) (zip fs vs) ps \<and> ts = map2 frame_text fs ps)" for ts
    using assms(2)
  proof (induction vs fs arbitrary: ts rule: list_induct2)
    case (Cons v vs f fs)
    have "list_all2 (\<lambda>x t. frame x = Inr t) (zip (f # fs) (v # vs)) ts \<longleftrightarrow>
        (\<exists>t ts'. ts = t # ts' \<and> frame (f, v) = Inr t \<and> list_all2 (\<lambda>x t. frame x = Inr t) (zip fs vs) ts')"
      by (auto simp: list_all2_Cons1)
    also have "\<dots> \<longleftrightarrow> (\<exists>p ps. ts = frame_text f p # map2 frame_text fs ps \<and> rel f v p \<and>
        list_all2 (\<lambda>(f, v) p. rel f v p) (zip fs vs) ps)"
      unfolding Cons.IH assms(1) by blast
    also have "\<dots> \<longleftrightarrow> (\<exists>ps. list_all2 (\<lambda>(f, v) p. rel f v p) (zip (f # fs) (v # vs)) ps \<and>
        ts = map2 frame_text (f # fs) ps)"
    proof
      assume "\<exists>ps. list_all2 (\<lambda>(f, v) p. rel f v p) (zip (f # fs) (v # vs)) ps \<and> ts = map2 frame_text (f # fs) ps"
      then obtain p ps where "ts = frame_text f p # map2 frame_text fs ps" "rel f v p"
        "list_all2 (\<lambda>(f, v) p. rel f v p) (zip fs vs) ps"
        by (auto simp: list_all2_Cons1)
      then show "\<exists>p ps. ts = frame_text f p # map2 frame_text fs ps \<and> rel f v p \<and>
        list_all2 (\<lambda>(f, v) p. rel f v p) (zip fs vs) ps"
        by blast
    next
      assume "\<exists>p ps. ts = frame_text f p # map2 frame_text fs ps \<and> rel f v p \<and>
        list_all2 (\<lambda>(f, v) p. rel f v p) (zip fs vs) ps"
      then obtain p ps where "ts = frame_text f p # map2 frame_text fs ps" "rel f v p"
        "list_all2 (\<lambda>(f, v) p. rel f v p) (zip fs vs) ps" by blast
      then show "\<exists>ps. list_all2 (\<lambda>(f, v) p. rel f v p) (zip (f # fs) (v # vs)) ps \<and> ts = map2 frame_text (f # fs) ps"
        by (intro exI [of _ "p # ps"]) simp
    qed
    finally show ?case .
  qed auto
  then show ?thesis by (auto simp: result_iffs traverse_eq_Inr_iff frames_text_def)
qed

lemma encode_row_iff:
  "encode_row_with_context c vs = Inr b \<longleftrightarrow>
     length vs = length (cs_fields (ec_schema c)) \<and>
     (\<exists>ps. list_all2 (\<lambda>(f, v) p. row_payload f v p) (zip (cs_fields (ec_schema c)) vs) ps \<and>
           b = ec_row_header c @ frames_text (cs_fields (ec_schema c)) ps)"
  using traverse_frames_iff [OF row_frame_iff, of vs "cs_fields (ec_schema c)" "ec_row_header c" b]
  by (cases "length vs = length (cs_fields (ec_schema c))")
    (auto simp: encode_row_with_context_def require_values_def)

lemma encode_key_iff:
  "encode_key_with_context c vs = Inr b \<longleftrightarrow>
     length vs = length (cs_fields (ec_schema c)) \<and>
     (\<exists>ps. list_all2 (\<lambda>(f, v) p. key_payload f v p) (zip (cs_fields (ec_schema c)) vs) ps \<and>
           b = ec_key_header c @ frames_text (cs_fields (ec_schema c)) ps)"
  using traverse_frames_iff [OF key_frame_iff, of vs "cs_fields (ec_schema c)" "ec_key_header c" b]
  by (cases "length vs = length (cs_fields (ec_schema c))")
    (auto simp: encode_key_with_context_def require_values_def)

lemma decode_row_iff:
  assumes "wf_context c"
  shows "decode_row_with_context c b = Inr ws \<longleftrightarrow>
     (\<exists>ps. length ps = length (cs_fields (ec_schema c)) \<and> list_all frame_fits ps \<and>
        b = ec_row_header c @ frames_text (cs_fields (ec_schema c)) ps \<and>
        list_all2 (\<lambda>x w. decode_row_field x = Inr w) (zip (cs_fields (ec_schema c)) ps) ws)"
  by (auto simp: decode_row_with_context_def result_iffs traverse_eq_Inr_iff
      parse_envelope_iff [OF wf_context_header_shape(1) [OF assms]])

lemma decode_key_iff:
  assumes "wf_context c"
  shows "decode_key_with_context c b = Inr ws \<longleftrightarrow>
     (\<exists>ps. length ps = length (cs_fields (ec_schema c)) \<and> list_all frame_fits ps \<and>
        b = ec_key_header c @ frames_text (cs_fields (ec_schema c)) ps \<and>
        list_all2 (\<lambda>x w. decode_key_field x = Inr w) (zip (cs_fields (ec_schema c)) ps) ws)"
  by (auto simp: decode_key_with_context_def result_iffs traverse_eq_Inr_iff
      parse_envelope_iff [OF wf_context_header_shape(2) [OF assms]])

lemma decode_row_field_canonical:
  "wf_field f \<Longrightarrow> frame_fits p \<Longrightarrow> decode_row_field (f, p) = Inr w \<Longrightarrow> row_payload f w p \<and> pred_option wf_value w"
  using payload_dec_canonical [of f]
  by (auto simp: decode_row_field_def row_payload_def frame_fits_def result_iffs split: option.splits)

lemma decode_key_field_canonical:
  "wf_field f \<Longrightarrow> frame_fits p \<Longrightarrow> decode_key_field (f, p) = Inr w \<Longrightarrow> key_payload f (Some w) p \<and> wf_value w"
  using payload_dec_canonical [of f]
  by (auto simp: decode_key_field_def key_payload_def row_payload_def frame_fits_def split: option.splits)

lemma row_payload_decodes:
  "wf_field f \<Longrightarrow> pred_option wf_value v \<Longrightarrow> row_payload f v p \<Longrightarrow> \<exists>w. decode_row_field (f, p) = Inr w"
  using payload_enc_decodes [of f]
  by (fastforce simp: decode_row_field_def row_payload_def split: option.splits)

lemma key_payload_decodes:
  "wf_field f \<Longrightarrow> pred_option wf_value v \<Longrightarrow> key_payload f v p \<Longrightarrow> \<exists>w. decode_key_field (f, p) = Inr w"
  using payload_enc_decodes [of f]
  by (fastforce simp: decode_key_field_def key_payload_def row_payload_def split: option.splits)

lemma choose_list: "(\<And>x. x \<in> set xs \<Longrightarrow> \<exists>y. P x y) \<Longrightarrow> \<exists>ys. list_all2 P xs ys"
  by (induction xs) (auto simp: list_all2_Cons1)

lemma wf_context_field: "wf_context c \<Longrightarrow> f \<in> set (cs_fields (ec_schema c)) \<Longrightarrow> wf_field f"
  by (auto simp: wf_context_def wf_schema_def list_all_iff)

lemma wf_context_nth: "wf_context c \<Longrightarrow> i < length (cs_fields (ec_schema c)) \<Longrightarrow> wf_field (cs_fields (ec_schema c) ! i)"
  by (rule wf_context_field) auto

lemma zip_decodes:
  assumes "length vs = length fs" "list_all2 (\<lambda>(f, v) p. rel f v p) (zip fs vs) ps"
    and "\<And>i. i < length fs \<Longrightarrow> rel (fs ! i) (vs ! i) (ps ! i) \<Longrightarrow> \<exists>w. decode (fs ! i, ps ! i) = Inr w"
  shows "length ps = length fs \<and> (\<exists>ws. list_all2 (\<lambda>x w. decode x = Inr w) (zip fs ps) ws)"
proof -
  have l: "length ps = length fs" and r: "\<And>i. i < length fs \<Longrightarrow> rel (fs ! i) (vs ! i) (ps ! i)"
    using assms(1,2) by (auto simp: list_all2_conv_all_nth)
  have "\<exists>w. decode x = Inr w" if x: "x \<in> set (zip fs ps)" for x
  proof -
    obtain i where "i < length fs" "x = (fs ! i, ps ! i)"
      using x by (auto simp: in_set_zip)
    then show ?thesis using assms(3) r by blast
  qed
  then show ?thesis using l choose_list [of "zip fs ps" "\<lambda>x w. decode x = Inr w"] by blast
qed

interpretation row: canonical_codec wf_context "list_all (pred_option wf_value)"
    encode_row_with_context decode_row_with_context id
proof
  fix c b ws
  assume c: "wf_context c" and "decode_row_with_context c b = Inr ws"
  let ?fs = "cs_fields (ec_schema c)"
  obtain ps where ps: "length ps = length ?fs" "list_all frame_fits ps" "b = ec_row_header c @ frames_text ?fs ps"
    "list_all2 (\<lambda>x w. decode_row_field x = Inr w) (zip ?fs ps) ws"
    using decode_row_iff [OF c] \<open>decode_row_with_context c b = Inr ws\<close> by blast
  have "row_payload (?fs ! i) (ws ! i) (ps ! i) \<and> pred_option wf_value (ws ! i)" if "i < length ?fs" for i
    using decode_row_field_canonical [OF wf_context_nth [OF c that], of "ps ! i" "ws ! i"] ps that
    by (auto simp: list_all2_conv_all_nth list_all_length)
  moreover have "length ws = length ?fs" using ps(1,4) by (auto simp: list_all2_conv_all_nth)
  ultimately show "encode_row_with_context c (id ws) = Inr b \<and> list_all (pred_option wf_value) (id ws)"
    using ps(1,3) by (auto simp: encode_row_iff list_all_length list_all2_conv_all_nth intro!: exI [of _ ps])
next
  fix c vs b
  assume c: "wf_context c" and vs: "list_all (pred_option wf_value) vs" and "encode_row_with_context c vs = Inr b"
  let ?fs = "cs_fields (ec_schema c)"
  obtain ps where l: "length vs = length ?fs" and ps: "list_all2 (\<lambda>(f, v) p. row_payload f v p) (zip ?fs vs) ps"
    and b: "b = ec_row_header c @ frames_text ?fs ps"
    using \<open>encode_row_with_context c vs = Inr b\<close> by (auto simp: encode_row_iff)
  have "list_all frame_fits ps"
    using ps l by (auto simp: list_all_length list_all2_conv_all_nth intro: row_payload_fits)
  moreover have "length ps = length ?fs \<and> (\<exists>ws. list_all2 (\<lambda>x w. decode_row_field x = Inr w) (zip ?fs ps) ws)"
    using vs l by (intro zip_decodes [OF l ps] row_payload_decodes [OF wf_context_nth [OF c]]) (auto simp: list_all_length)
  ultimately show "\<exists>ws. decode_row_with_context c b = Inr ws"
    using b by (auto simp: decode_row_iff [OF c])
qed

interpretation key: canonical_codec wf_context "list_all (pred_option wf_value)"
    encode_key_with_context decode_key_with_context "map Some"
proof
  fix c b ws
  assume c: "wf_context c" and "decode_key_with_context c b = Inr ws"
  let ?fs = "cs_fields (ec_schema c)"
  obtain ps where ps: "length ps = length ?fs" "list_all frame_fits ps" "b = ec_key_header c @ frames_text ?fs ps"
    "list_all2 (\<lambda>x w. decode_key_field x = Inr w) (zip ?fs ps) ws"
    using decode_key_iff [OF c] \<open>decode_key_with_context c b = Inr ws\<close> by blast
  have "key_payload (?fs ! i) (Some (ws ! i)) (ps ! i) \<and> wf_value (ws ! i)" if "i < length ?fs" for i
    using decode_key_field_canonical [OF wf_context_nth [OF c that], of "ps ! i" "ws ! i"] ps that
    by (auto simp: list_all2_conv_all_nth list_all_length)
  moreover have "length ws = length ?fs" using ps(1,4) by (auto simp: list_all2_conv_all_nth)
  ultimately show "encode_key_with_context c (map Some ws) = Inr b \<and> list_all (pred_option wf_value) (map Some ws)"
    using ps(1,3) by (auto simp: encode_key_iff list_all_length list_all2_conv_all_nth intro!: exI [of _ ps])
next
  fix c vs b
  assume c: "wf_context c" and vs: "list_all (pred_option wf_value) vs" and "encode_key_with_context c vs = Inr b"
  let ?fs = "cs_fields (ec_schema c)"
  obtain ps where l: "length vs = length ?fs" and ps: "list_all2 (\<lambda>(f, v) p. key_payload f v p) (zip ?fs vs) ps"
    and b: "b = ec_key_header c @ frames_text ?fs ps"
    using \<open>encode_key_with_context c vs = Inr b\<close> by (auto simp: encode_key_iff)
  have "list_all frame_fits ps"
    using ps l by (auto simp: list_all_length list_all2_conv_all_nth key_payload_def intro: row_payload_fits)
  moreover have "length ps = length ?fs \<and> (\<exists>ws. list_all2 (\<lambda>x w. decode_key_field x = Inr w) (zip ?fs ps) ws)"
    using vs l by (intro zip_decodes [OF l ps] key_payload_decodes [OF wf_context_nth [OF c]]) (auto simp: list_all_length)
  ultimately show "\<exists>ws. decode_key_with_context c b = Inr ws"
    using b by (auto simp: decode_key_iff [OF c])
qed

lemma encode_row_context:
  assumes "wf_schema s" "encode_row s vs = Inr b"
  obtains c where "wf_context c" "prepare_envelope_context s = Inr c" "encode_row_with_context c vs = Inr b"
  using prepare_envelope_context_ok [OF assms(1)] assms(2) by (metis encode_row_def ebind_Inr)

lemma decode_row_context:
  assumes "wf_schema s" "decode_row s b = Inr ws"
  obtains c where "wf_context c" "prepare_envelope_context s = Inr c" "decode_row_with_context c b = Inr ws"
  using prepare_envelope_context_ok [OF assms(1)] assms(2) by (metis decode_row_def ebind_Inr)

lemma encode_key_context:
  assumes "wf_schema s" "encode_key s vs = Inr b"
  obtains c where "wf_context c" "prepare_envelope_context s = Inr c" "encode_key_with_context c vs = Inr b"
  using prepare_envelope_context_ok [OF assms(1)] assms(2) by (metis encode_key_def ebind_Inr)

lemma encode_row_header:
  assumes "wf_schema s" "encode_row s vs = Inr b"
  obtains c hex count where "prepare_envelope_context s = Inr c" "take 5 b = ROW_PREFIX" "slice 5 69 b = ec_schema_digest_hex c"
proof -
  obtain c where c: "wf_context c" "prepare_envelope_context s = Inr c" "encode_row_with_context c vs = Inr b"
    using assms by (rule encode_row_context)
  obtain d n where "ec_row_header c = ROW_PREFIX @ ec_schema_digest_hex c @ n" "ec_schema_digest_hex c = bytes_hex d" "length d = 32"
    using c(2) by (auto simp: prepare_envelope_context_def metadata_digest_def Let_def result_iffs)
  then show ?thesis
    using that [OF c(2)] c(3) by (auto simp: encode_row_iff ROW_PREFIX_def slice_def)
qed

lemma encode_key_prefix:
  assumes "wf_schema s" "encode_key s vs = Inr b"
  shows "take 5 b = KEY_PREFIX"
proof -
  obtain c where c: "wf_context c" "prepare_envelope_context s = Inr c" "encode_key_with_context c vs = Inr b"
    using assms by (rule encode_key_context)
  then show ?thesis
    by (auto elim!: wf_context_headers simp: encode_key_iff KEY_PREFIX_def)
qed

text \<open>(C1) Row envelopes round-trip: whatever \<open>encode_row\<close> produces for a schema, \<open>decode_row\<close> accepts
  under that schema, and encoding the decoded row gives the same bytes.\<close>

theorem row_round_trip:
  assumes "wf_schema s" "list_all (pred_option wf_value) vs" "encode_row s vs = Inr b"
  shows "\<exists>ws. decode_row s b = Inr ws \<and> encode_row s ws = Inr b"
proof -
  obtain c where c: "wf_context c" "prepare_envelope_context s = Inr c" "encode_row_with_context c vs = Inr b"
    using assms(1,3) by (rule encode_row_context)
  show ?thesis
    using row.round_trip [OF c(1) assms(2) c(3)] c(2) by (auto simp: decode_row_def encode_row_def)
qed

text \<open>(C19) \<open>decode_row\<close> accepts only canonical envelopes: an accepted envelope is the encoding of the row it
  decodes to, so two different envelopes never decode to the same row.\<close>

theorem decode_row_canonical:
  assumes "wf_schema s" "decode_row s b = Inr ws"
  shows "encode_row s ws = Inr b \<and> (\<forall>b'. decode_row s b' = Inr ws \<longrightarrow> b' = b)"
proof -
  obtain c where c: "wf_context c" "prepare_envelope_context s = Inr c" "decode_row_with_context c b = Inr ws"
    using assms by (rule decode_row_context)
  have "decode_row s b' = decode_row_with_context c b'" for b' using c(2) by (simp add: decode_row_def)
  then show ?thesis
    using row.dec_canonical [OF c(1,3)] row.dec_inj [OF c(1,3)] c(2) by (auto simp: encode_row_def)
qed

text \<open>(C21) Key envelopes round-trip, and only keys without NULL are encoded: a NULL key field is an error in
  \<open>encode_key\<close> as in \<open>decode_key\<close>.\<close>

theorem key_round_trip:
  assumes "wf_schema s" "list_all (pred_option wf_value) vs" "encode_key s vs = Inr b"
  shows "None \<notin> set vs \<and> (\<exists>ws. decode_key s b = Inr ws \<and> encode_key s (map Some ws) = Inr b)"
proof -
  obtain c where c: "wf_context c" "prepare_envelope_context s = Inr c" "encode_key_with_context c vs = Inr b"
    using assms(1,3) by (rule encode_key_context)
  have "None \<notin> set vs"
    using c(3) by (auto simp: encode_key_iff key_payload_def list_all2_conv_all_nth in_set_conv_nth)
  then show ?thesis
    using key.round_trip [OF c(1) assms(2) c(3)] c(2) by (auto simp: decode_key_def encode_key_def)
qed

text \<open>(C30) An envelope binds its kind and its schema: a key envelope is never a row envelope, and a row
  envelope of one schema is rejected under every schema whose metadata digest differs.\<close>

theorem envelope_binds_kind_and_schema:
  assumes "wf_schema s" "wf_schema s'" "encode_row s vs = Inr b"
  shows "encode_key s' ws \<noteq> Inr b \<and>
    (decode_row s' b = Inr xs \<longrightarrow> schema_digest_hex s' = schema_digest_hex s)"
proof (rule conjI)
  obtain c where c: "prepare_envelope_context s = Inr c" "take 5 b = ROW_PREFIX" "slice 5 69 b = ec_schema_digest_hex c"
    using assms(1,3) by (rule encode_row_header)
  have "ROW_PREFIX \<noteq> KEY_PREFIX" by (simp add: ROW_PREFIX_def KEY_PREFIX_def)
  then show "encode_key s' ws \<noteq> Inr b"
    using c(2) encode_key_prefix [OF assms(2)] by metis
  show "decode_row s' b = Inr xs \<longrightarrow> schema_digest_hex s' = schema_digest_hex s"
  proof
  assume "decode_row s' b = Inr xs"
  then obtain c' where c': "wf_context c'" "prepare_envelope_context s' = Inr c'" "decode_row_with_context c' b = Inr xs"
    using assms(2) by (elim decode_row_context [rotated]) auto
  then have "encode_row s' xs = Inr b" using row.dec_canonical [OF c'(1,3)] by (simp add: encode_row_def)
  with assms(2) obtain c2 where "prepare_envelope_context s' = Inr c2" "slice 5 69 b = ec_schema_digest_hex c2"
    by (rule encode_row_header)
  then show "schema_digest_hex s' = schema_digest_hex s"
    using c(1,3) by (auto simp: prepare_envelope_context_def Let_def result_iffs schema_digest_hex_def schema_digest_def)
  qed
qed

definition example_schema :: canonical_schema where
  "example_schema =
     \<lparr>cs_protocol = PROTOCOL,
      cs_fields =
        [\<lparr>fs_name = asc ''id'', fs_logical_type = INT64, fs_nullable = False,
          fs_parameters = NoParameters, fs_normalization = NORMALIZATION_NONE\<rparr>,
         \<lparr>fs_name = asc ''note'', fs_logical_type = STRING, fs_nullable = True,
          fs_parameters = NoParameters, fs_normalization = NORMALIZATION_NONE\<rparr>]\<rparr>"

lemma example_schema_wf: "wf_schema example_schema"
  by (simp add: example_schema_def wf_schema_def wf_field_def wf_parameters_def is_scalar_def UINT32_MAX_def)

lemma example_frames:
  "traverse row_frame (zip (cs_fields example_schema) [Some (PInt 7), None])
     = Inr [''011000000000000000137'', ''0400000000000000000'']"
  "traverse key_frame (zip (cs_fields example_schema) [Some (PInt 7), Some (PStr [97])])
     = Inr [''011000000000000000137'', ''041000000000000000161'']"
  by code_simp+

lemma example_row_encodes: "\<exists>b. encode_row example_schema [Some (PInt 7), None] = Inr b"
  by (rule prepare_envelope_context_ok [OF example_schema_wf])
    (simp add: encode_row_def encode_row_with_context_def require_values_def example_frames,
      simp add: example_schema_def)

lemma example_key_encodes: "\<exists>b. encode_key example_schema [Some (PInt 7), Some (PStr [97])] = Inr b"
  by (rule prepare_envelope_context_ok [OF example_schema_wf])
    (simp add: encode_key_def encode_key_with_context_def require_values_def example_frames,
      simp add: example_schema_def)

lemma example_row_decodes:
  obtains b ws where "encode_row example_schema [Some (PInt 7), None] = Inr b" "decode_row example_schema b = Inr ws"
proof -
  obtain b where b: "encode_row example_schema [Some (PInt 7), None] = Inr b"
    using example_row_encodes by blast
  obtain c where c: "wf_context c" "prepare_envelope_context example_schema = Inr c"
    "encode_row_with_context c [Some (PInt 7), None] = Inr b"
    using example_schema_wf b by (rule encode_row_context)
  then show ?thesis using row.enc_decodes [OF c(1) _ c(3)] b that by (auto simp: decode_row_def)
qed

theorem row_round_trip_witness:
  "\<exists>b ws. encode_row example_schema [Some (PInt 7), None] = Inr b \<and>
     decode_row example_schema b = Inr ws \<and> encode_row example_schema ws = Inr b"
proof -
  obtain b where b: "encode_row example_schema [Some (PInt 7), None] = Inr b"
    using example_row_encodes by blast
  show ?thesis using row_round_trip [OF example_schema_wf _ b] b by auto
qed

theorem key_round_trip_witness:
  "\<exists>b ws. encode_key example_schema [Some (PInt 7), Some (PStr [97])] = Inr b \<and>
     decode_key example_schema b = Inr ws \<and> encode_key example_schema (map Some ws) = Inr b"
proof -
  obtain b where b: "encode_key example_schema [Some (PInt 7), Some (PStr [97])] = Inr b"
    using example_key_encodes by blast
  show ?thesis using key_round_trip [OF example_schema_wf _ b] b by (auto simp: is_pystr_def)
qed


theorem decode_row_canonical_witness:
  "\<exists>b ws. decode_row example_schema b = Inr ws \<and> encode_row example_schema ws = Inr b"
proof -
  obtain b ws where "decode_row example_schema b = Inr ws" by (rule example_row_decodes)
  then show ?thesis using decode_row_canonical [OF example_schema_wf] by blast
qed

theorem envelope_binds_kind_and_schema_witness:
  "\<exists>b ws. encode_row example_schema [Some (PInt 7), None] = Inr b \<and> decode_row example_schema b = Inr ws \<and>
     encode_key example_schema [Some (PInt 7), Some (PStr [97])] \<noteq> Inr b"
proof -
  obtain b ws where "encode_row example_schema [Some (PInt 7), None] = Inr b" "decode_row example_schema b = Inr ws"
    by (rule example_row_decodes)
  then show ?thesis
    using envelope_binds_kind_and_schema [OF example_schema_wf example_schema_wf] by blast
qed

section \<open>Types of decoded values\<close>

text \<open>The values of the Python types that \<open>DecodedValue\<close> names, one for each logical type and within its parameters. A
  timestamp is its canonical text.\<close>

definition has_field_type :: "field_schema \<Rightarrow> pyval \<Rightarrow> bool" where
  "has_field_type f w \<longleftrightarrow>
     (case fs_logical_type f of
        INT64 \<Rightarrow> \<exists>i. w = PInt i \<and> - (2 ^ 63) \<le> i \<and> i < 2 ^ 63
      | DECIMAL \<Rightarrow> \<exists>precision scale negative ds. fs_parameters f = DecimalParameters precision scale \<and>
          w = PDecimal (DFinite negative ds (- scale)) \<and> 0 < length ds \<and> int (length ds) \<le> precision \<and> (\<forall>d \<in> set ds. d < 10)
      | BOOLEAN \<Rightarrow> \<exists>b. w = PBool b
      | STRING \<Rightarrow> \<exists>s. w = PStr s \<and> (\<forall>c \<in> set s. is_scalar c \<and> c \<noteq> 0)
      | DATE \<Rightarrow> \<exists>d. w = PDate d \<and> valid_date d
      | TIMESTAMP_LOCAL \<Rightarrow> \<exists>precision d t g. fs_parameters f = TimestampParameters precision \<and>
          timestamp_fields d t g (nat precision) \<and> w = PStr (asc (format_timestamp d t g (nat precision)))
      | TIMESTAMP_INSTANT \<Rightarrow> \<exists>precision d t g. fs_parameters f = TimestampParameters precision \<and>
          timestamp_fields d t g (nat precision) \<and> w = PStr (asc (format_timestamp d t g (nat precision) @ ''Z'')))"

lemma decoded_value_typed:
  assumes "wf_field f" "decode_payload f b = Inr w"
  shows "has_field_type f w"
  using assms(1)
proof (cases rule: wf_field_cases)
  case no
  then consider "fs_logical_type f = INT64" | "fs_logical_type f = BOOLEAN" | "fs_logical_type f = STRING"
    | "fs_logical_type f = DATE" by auto
  then show ?thesis
  proof cases
    case 1
    then show ?thesis using assms(2) by (auto simp: decode_payload_def decode_int64_iff has_field_type_def INT64_MAX_def)
  next
    case 2
    then show ?thesis using assms(2) by (auto simp: decode_payload_def decode_boolean_def has_field_type_def result_iffs split: if_splits)
  next
    case 3
    then show ?thesis using assms(2)
      by (auto simp: decode_payload_def decode_string_iff has_field_type_def utf8_encode_def list_all_iff split: if_splits
          intro: gr0I)
  next
    case 4
    then show ?thesis using assms(2) by (auto simp: decode_payload_def decode_date_iff has_field_type_def)
  qed
next
  case (decimal pr sc)
  then have "decode_decimal b pr sc = Inr w" using assms(2) by (simp add: decode_payload_def)
  then obtain i where i: "\<bar>i\<bar> < 10 ^ nat pr" "w = PDecimal (DFinite (i < 0) (digits_of 10 (nat \<bar>i\<bar>)) (- sc))"
    unfolding decode_decimal_iff [OF decimal(3)] by blast
  have "int (nat \<bar>i\<bar>) < int (10 ^ nat pr)" using i(1) by simp
  then have "nat \<bar>i\<bar> < 10 ^ nat pr" unfolding of_nat_less_iff .
  then have "length (digits_of 10 (nat \<bar>i\<bar>)) \<le> nat pr" using digits_of_length_le [of 10 "nat pr"] decimal(3) by simp
  then show ?thesis using decimal i(2) digits_of_less [of 10] by (auto simp: has_field_type_def)
next
  case (timestamp pr)
  have wf: "wf_value w" using payload_dec_canonical [OF assms] by simp
  have p: "nat pr \<le> 9" using timestamp(4) by simp
  consider "fs_logical_type f = TIMESTAMP_LOCAL" | "fs_logical_type f = TIMESTAMP_INSTANT" using timestamp(2) by auto
  then show ?thesis
  proof cases
    case 1
    then have "decode_timestamp_local b (nat pr) = Inr w" using assms(2) timestamp(1) by (simp add: decode_payload_def)
    then have w: "w = PStr (asc b)" "encode_timestamp_local w (nat pr) = Inr b"
      unfolding decode_timestamp_local_iff by blast+
    obtain d t g where "timestamp_fields d t g (nat pr)" "b = format_timestamp d t g (nat pr)"
      by (rule encode_timestamp_local_shape [OF wf p w(2)])
    then show ?thesis using 1 timestamp(1) w(1) by (auto simp: has_field_type_def)
  next
    case 2
    then have "decode_timestamp_instant b (nat pr) = Inr w" using assms(2) timestamp(1) by (simp add: decode_payload_def)
    then have w: "w = PStr (asc b)" "encode_timestamp_instant w (nat pr) = Inr b"
      unfolding decode_timestamp_instant_iff by blast+
    obtain d t g where "timestamp_fields d t g (nat pr)" "b = format_timestamp d t g (nat pr) @ ''Z''"
      by (rule encode_timestamp_instant_shape [OF wf p w(2)])
    then show ?thesis using 2 timestamp(1) w(1) by (auto simp: has_field_type_def)
  qed
qed

text \<open>(C26) A decoded row is well typed: it has one value per field of the schema, a null only where the field is nullable,
  and every other value has the Python type of the field's logical type within the field's parameters.\<close>

theorem decoded_rows_are_typed:
  assumes "wf_schema s" "decode_row s b = Inr ws"
  shows "list_all2 (\<lambda>f v. case v of None \<Rightarrow> fs_nullable f | Some w \<Rightarrow> has_field_type f w) (cs_fields s) ws"
proof -
  obtain c where c: "wf_context c" "prepare_envelope_context s = Inr c" "decode_row_with_context c b = Inr ws"
    using assms by (rule decode_row_context)
  have schema: "ec_schema c = s" using c(2) by (auto simp: prepare_envelope_context_def Let_def result_iffs)
  obtain ps where ps: "length ps = length (cs_fields s)"
    "list_all2 (\<lambda>x w. decode_row_field x = Inr w) (zip (cs_fields s) ps) ws"
    using c(3) unfolding decode_row_iff [OF c(1)] schema by blast
  have field: "wf_field f" if "f \<in> set (cs_fields s)" for f using that assms(1) by (auto simp: wf_schema_def list_all_iff)
  have "case w of None \<Rightarrow> fs_nullable f | Some w \<Rightarrow> has_field_type f w"
    if "f \<in> set (cs_fields s)" "decode_row_field (f, p) = Inr w" for f p w
    using that(2) decoded_value_typed [OF field [OF that(1)]]
    by (auto simp: decode_row_field_def result_iffs split: option.splits)
  then show ?thesis using ps by (auto simp: list_all2_conv_all_nth)
qed

theorem decoded_rows_are_typed_witness:
  "\<exists>b v w. decode_row example_schema b = Inr [v, w] \<and>
     (case v of None \<Rightarrow> False | Some x \<Rightarrow> \<exists>i. x = PInt i \<and> - (2 ^ 63) \<le> i \<and> i < 2 ^ 63)"
proof -
  obtain b ws where b: "decode_row example_schema b = Inr ws" by (rule example_row_decodes)
  have "list_all2 (\<lambda>f v. case v of None \<Rightarrow> fs_nullable f | Some w \<Rightarrow> has_field_type f w) (cs_fields example_schema) ws"
    by (rule decoded_rows_are_typed [OF example_schema_wf b])
  then show ?thesis using b by (auto simp: example_schema_def list_all2_Cons1 has_field_type_def split: option.splits)
qed

end
