(* ===== verification/Canonical_Hashing.thy ===== *)
theory Canonical_Hashing
  imports Canonical_Envelope
begin

text \<open>
  \<open>src/forensic_data/canonical/hashing.py\<close>: envelope hashes, additive fingerprints (a row count and
  eight sums of 32-bit limbs of SHA-256 digests) and hash segments (the leading bits of a digest).
  Iterables are lists; the generator expression of \<open>fingerprint_rows\<close> is a list of results, since an
  envelope is hashed, and can be rejected, only when the loop reaches it. The lemmas show that a
  fingerprint is the exact sum of its digests, independent of their order, that fingerprints
  of parts combine to the fingerprint of the whole, and that segments refine each other.
\<close>

record fingerprint =
  fp_count :: int
  fp_limb_sums :: "int list"

definition mk_Fingerprint :: "int \<Rightarrow> int list \<Rightarrow> exn + fingerprint" where
  "mk_Fingerprint row_count limb_sums =
     ebind (require (0 \<le> row_count \<and> row_count \<le> INT64_MAX) FingerprintOverflowError) (\<lambda>_.
     ebind (require (length limb_sums = 8) FingerprintOverflowError) (\<lambda>_.
     let maximum_sum = row_count * int UINT32_MAX in
     ebind (check_all (\<lambda>limb_sum.
         ebind (require (0 \<le> limb_sum \<and> limb_sum \<le> DECIMAL_38_MAX) FingerprintOverflowError) (\<lambda>_.
         require (\<not> limb_sum > maximum_sum) FingerprintOverflowError)) limb_sums) (\<lambda>_.
     Inr \<lparr>fp_count = row_count, fp_limb_sums = limb_sums\<rparr>)))"

record segment_identity =
  si_depth :: int
  si_prefix :: int

definition mk_SegmentIdentity :: "int \<Rightarrow> int \<Rightarrow> exn + segment_identity" where
  "mk_SegmentIdentity depth prefix =
     ebind (require (0 \<le> depth \<and> depth \<le> 256) SegmentValidationError) (\<lambda>_.
     ebind (require (0 \<le> prefix \<and> prefix < 2 ^ nat depth) SegmentValidationError) (\<lambda>_.
     Inr \<lparr>si_depth = depth, si_prefix = prefix\<rparr>))"

definition envelope_sha256 :: "bytes \<Rightarrow> bytes" where
  "envelope_sha256 envelope = sha256 envelope"

definition require_sha256 :: "bytes \<Rightarrow> exn + unit" where
  "require_sha256 digest = require (length digest = 32) FrameValidationError"

text \<open>\<open>int.from_bytes(b, "big")\<close>\<close>

definition int_from_bytes :: "bytes \<Rightarrow> int" where
  "int_from_bytes b = int (value_of 256 (map of_char b))"

definition sha256_limbs :: "bytes \<Rightarrow> exn + int list" where
  "sha256_limbs digest =
     ebind (require_sha256 digest) (\<lambda>_.
     Inr (map (\<lambda>i. int_from_bytes (slice (4 * i) (4 * i + 4) digest)) [0..<8]))"

text \<open>The inner loop over the eight limbs.\<close>

definition add_limbs :: "int list \<Rightarrow> int list \<Rightarrow> exn + int list" where
  "add_limbs totals limbs =
     traverse (\<lambda>(s, l).
       ebind (require (\<not> s + l > DECIMAL_38_MAX) FingerprintOverflowError) (\<lambda>_. Inr (s + l)))
     (zip totals limbs)"

fun fingerprint_hashes_loop :: "int \<Rightarrow> int list \<Rightarrow> (exn + bytes) list \<Rightarrow> exn + fingerprint" where
  "fingerprint_hashes_loop row_count totals [] = mk_Fingerprint row_count totals"
| "fingerprint_hashes_loop row_count totals (item # items) =
     ebind item (\<lambda>digest.
     ebind (require (row_count \<noteq> INT64_MAX) FingerprintOverflowError) (\<lambda>_.
     ebind (sha256_limbs digest) (\<lambda>limbs.
     ebind (add_limbs totals limbs) (\<lambda>totals'.
     fingerprint_hashes_loop (row_count + 1) totals' items))))"

definition fingerprint_hashes :: "bytes list \<Rightarrow> exn + fingerprint" where
  "fingerprint_hashes digests = fingerprint_hashes_loop 0 (replicate 8 0) (map Inr digests)"

definition require_envelope_kind :: "bytes \<Rightarrow> bytes \<Rightarrow> exn + unit" where
  "require_envelope_kind envelope expected_prefix =
     ebind (require (\<not> length envelope < ENVELOPE_HEADER_LENGTH) FrameValidationError) (\<lambda>_.
     ebind (require (is_ascii envelope) FrameValidationError) (\<lambda>_.
     require (take (length expected_prefix) envelope = expected_prefix) FrameValidationError))"

definition row_envelope_sha256 :: "bytes \<Rightarrow> exn + bytes" where
  "row_envelope_sha256 envelope =
     ebind (require_envelope_kind envelope ROW_PREFIX) (\<lambda>_. Inr (envelope_sha256 envelope))"

definition key_envelope_sha256 :: "bytes \<Rightarrow> exn + bytes" where
  "key_envelope_sha256 envelope =
     ebind (require_envelope_kind envelope KEY_PREFIX) (\<lambda>_. Inr (envelope_sha256 envelope))"

definition fingerprint_rows :: "bytes list \<Rightarrow> exn + fingerprint" where
  "fingerprint_rows envelopes =
     fingerprint_hashes_loop 0 (replicate 8 0) (map row_envelope_sha256 envelopes)"

fun combine_fingerprints_loop :: "int \<Rightarrow> int list \<Rightarrow> fingerprint list \<Rightarrow> exn + fingerprint" where
  "combine_fingerprints_loop row_count totals [] = mk_Fingerprint row_count totals"
| "combine_fingerprints_loop row_count totals (f # fs) =
     (let row_row_count' = row_count + fp_count f in
      ebind (require (\<not> row_row_count' > INT64_MAX) FingerprintOverflowError) (\<lambda>_.
      ebind (add_limbs totals (fp_limb_sums f)) (\<lambda>totals'.
      combine_fingerprints_loop row_row_count' totals' fs)))"

definition combine_fingerprints :: "fingerprint list \<Rightarrow> exn + fingerprint" where
  "combine_fingerprints fingerprints = combine_fingerprints_loop 0 (replicate 8 0) fingerprints"

definition segment_identity :: "bytes \<Rightarrow> int \<Rightarrow> exn + segment_identity" where
  "segment_identity digest total_depth =
     ebind (require_sha256 digest) (\<lambda>_.
     ebind (require (0 \<le> total_depth \<and> total_depth \<le> 256) SegmentValidationError) (\<lambda>_.
     let prefix = (if total_depth > 0 then int_from_bytes digest div 2 ^ nat (256 - total_depth) else 0)
     in mk_SegmentIdentity total_depth prefix))"

definition row_segment :: "bytes \<Rightarrow> int \<Rightarrow> exn + segment_identity" where
  "row_segment envelope total_depth =
     ebind (row_envelope_sha256 envelope) (\<lambda>d. segment_identity d total_depth)"

definition key_segment :: "bytes \<Rightarrow> int \<Rightarrow> exn + segment_identity" where
  "key_segment envelope total_depth =
     ebind (key_envelope_sha256 envelope) (\<lambda>d. segment_identity d total_depth)"

definition row_bucket :: "bytes \<Rightarrow> int \<Rightarrow> exn + int" where
  "row_bucket envelope bucket_bits = ebind (row_segment envelope bucket_bits) (\<lambda>s. Inr (si_prefix s))"

definition key_bucket :: "bytes \<Rightarrow> int \<Rightarrow> exn + int" where
  "key_bucket envelope bucket_bits = ebind (key_segment envelope bucket_bits) (\<lambda>s. Inr (si_prefix s))"

section \<open>Fingerprints are exact sums\<close>

text \<open>Invariant of a fingerprint: what its constructor accepts.\<close>

definition wf_fingerprint :: "fingerprint \<Rightarrow> bool" where
  "wf_fingerprint f \<longleftrightarrow>
     0 \<le> fp_count f \<and> fp_count f \<le> INT64_MAX \<and> length (fp_limb_sums f) = 8 \<and>
     (\<forall>s \<in> set (fp_limb_sums f). 0 \<le> s \<and> s \<le> fp_count f * int UINT32_MAX)"

lemma max_sum_decimal38: "c \<le> INT64_MAX \<Longrightarrow> s \<le> c * int UINT32_MAX \<Longrightarrow> s \<le> DECIMAL_38_MAX"
  by (simp add: INT64_MAX_def UINT32_MAX_def DECIMAL_38_MAX_def)

lemma mk_Fingerprint_iff:
  "mk_Fingerprint c s = Inr f \<longleftrightarrow> f = \<lparr>fp_count = c, fp_limb_sums = s\<rparr> \<and> wf_fingerprint f"
  using max_sum_decimal38 [of c]
  by (auto simp: mk_Fingerprint_def Let_def result_iffs check_all_eq_Inr_iff wf_fingerprint_def not_less)

definition digest_limbs :: "bytes \<Rightarrow> int list" where
  "digest_limbs d = map (\<lambda>i. int_from_bytes (slice (4 * i) (4 * i + 4) d)) [0..<8]"

definition limb_total :: "nat \<Rightarrow> bytes list \<Rightarrow> int" where
  "limb_total i ds = sum_list (map (\<lambda>d. digest_limbs d ! i) ds)"

definition exact_fingerprint :: "bytes list \<Rightarrow> fingerprint" where
  "exact_fingerprint ds =
     \<lparr>fp_count = int (length ds), fp_limb_sums = map (\<lambda>i. limb_total i ds) [0..<8]\<rparr>"

lemma length_digest_limbs [simp]: "length (digest_limbs d) = 8"
  by (simp add: digest_limbs_def)

lemma sha256_limbs_eq: "sha256_limbs d = (if length d = 32 then Inr (digest_limbs d) else Inl FrameValidationError)"
  by (simp add: sha256_limbs_def require_sha256_def digest_limbs_def)

lemma digest_limbs_bound:
  assumes "length d = 32" "i < 8"
  shows "0 \<le> digest_limbs d ! i \<and> digest_limbs d ! i \<le> int UINT32_MAX"
proof -
  let ?b = "map of_char (slice (4 * i) (4 * i + 4) d) :: nat list"
  have "\<forall>x \<in> set ?b. x < 256" by auto
  from value_of_less [OF this] have "value_of 256 ?b < 256 ^ 4" using assms by (simp add: slice_def)
  then show ?thesis using assms(2) by (simp add: digest_limbs_def int_from_bytes_def UINT32_MAX_def)
qed

lemma limb_total_bound:
  "\<forall>d \<in> set ds. length d = 32 \<Longrightarrow> i < 8 \<Longrightarrow>
   0 \<le> limb_total i ds \<and> limb_total i ds \<le> int (length ds) * int UINT32_MAX"
proof (induction ds)
  case (Cons d ds)
  then show ?case using digest_limbs_bound [of d i] by (simp add: limb_total_def distrib_right)
qed (simp add: limb_total_def)

lemma wf_exact_fingerprint:
  "\<forall>d \<in> set ds. length d = 32 \<Longrightarrow> int (length ds) \<le> INT64_MAX \<Longrightarrow> wf_fingerprint (exact_fingerprint ds)"
  using limb_total_bound [of ds] by (auto simp: wf_fingerprint_def exact_fingerprint_def)

lemma add_limbs_iff:
  assumes "length xs = length ys"
  shows "add_limbs xs ys = Inr zs \<longleftrightarrow> zs = map2 (+) xs ys \<and> (\<forall>z \<in> set zs. z \<le> DECIMAL_38_MAX)"
proof -
  have "add_limbs xs ys = Inr zs \<longleftrightarrow>
      list_all2 (\<lambda>(s, l) z. s + l \<le> DECIMAL_38_MAX \<and> z = s + l) (zip xs ys) zs"
    unfolding add_limbs_def traverse_eq_Inr_iff
    by (intro arg_cong [where f = "\<lambda>r. list_all2 r (zip xs ys) zs"] ext) (auto simp: result_iffs)
  also have "\<dots> \<longleftrightarrow> zs = map2 (+) xs ys \<and> (\<forall>z \<in> set zs. z \<le> DECIMAL_38_MAX)"
    using assms by (auto simp: list_all2_conv_all_nth all_set_conv_all_nth list_eq_iff_nth_eq)
  finally show ?thesis .
qed

lemma add_limbs_error: "add_limbs xs ys = Inl e \<Longrightarrow> e = FingerprintOverflowError"
  unfolding add_limbs_def by (induction xs ys rule: list_induct2') (auto simp: result_iffs)

lemma limb_total_append: "limb_total i (xs @ ys) = limb_total i xs + limb_total i ys"
  by (simp add: limb_total_def)

lemma exact_sums_append:
  "map2 (+) (fp_limb_sums (exact_fingerprint xs)) (fp_limb_sums (exact_fingerprint ys))
     = fp_limb_sums (exact_fingerprint (xs @ ys))"
  by (simp add: exact_fingerprint_def limb_total_append map2_map_map)

lemma exact_sums_single: "fp_limb_sums (exact_fingerprint [d]) = digest_limbs d"
  by (intro nth_equalityI) (simp_all add: exact_fingerprint_def limb_total_def)

lemma exact_sums_decimal38:
  "\<forall>d \<in> set ds. length d = 32 \<Longrightarrow> int (length ds) \<le> INT64_MAX \<Longrightarrow>
   z \<in> set (fp_limb_sums (exact_fingerprint ds)) \<Longrightarrow> z \<le> DECIMAL_38_MAX"
  using wf_exact_fingerprint [of ds] max_sum_decimal38
  by (auto simp: wf_fingerprint_def exact_fingerprint_def)

lemma add_exact_sums:
  assumes "\<forall>d \<in> set (xs @ ys). length d = 32" "int (length (xs @ ys)) \<le> INT64_MAX"
  shows "add_limbs (fp_limb_sums (exact_fingerprint xs)) (fp_limb_sums (exact_fingerprint ys))
     = Inr (fp_limb_sums (exact_fingerprint (xs @ ys)))"
  using exact_sums_decimal38 [OF assms]
  by (subst add_limbs_iff) (auto simp: exact_sums_append, simp add: exact_fingerprint_def)

lemma hashes_loop_ok:
  assumes "\<forall>d \<in> set (xs @ ys). length d = 32" "int (length (xs @ ys)) \<le> INT64_MAX"
  shows "fingerprint_hashes_loop (int (length xs)) (fp_limb_sums (exact_fingerprint xs)) (map Inr ys)
     = Inr (exact_fingerprint (xs @ ys))"
  using assms
proof (induction ys arbitrary: xs)
  case Nil
  then have "wf_fingerprint (exact_fingerprint xs)" by (intro wf_exact_fingerprint) auto
  then show ?case by (auto simp: mk_Fingerprint_iff) (simp add: exact_fingerprint_def)
next
  case (Cons d ys)
  have "add_limbs (fp_limb_sums (exact_fingerprint xs)) (digest_limbs d)
      = Inr (fp_limb_sums (exact_fingerprint (xs @ [d])))"
    using Cons.prems add_exact_sums [of xs "[d]"] by (simp add: exact_sums_single)
  moreover have "int (length xs) \<noteq> INT64_MAX" using Cons.prems by simp
  ultimately show ?case
    using Cons.prems Cons.IH [of "xs @ [d]"] by (simp add: sha256_limbs_eq add.commute)
qed

lemma hashes_loop_overflow:
  assumes "\<forall>d \<in> set (xs @ ys). length d = 32" "int (length xs) \<le> INT64_MAX" "int (length (xs @ ys)) > INT64_MAX"
  shows "fingerprint_hashes_loop (int (length xs)) (fp_limb_sums (exact_fingerprint xs)) (map Inr ys)
     = Inl FingerprintOverflowError"
  using assms
proof (induction ys arbitrary: xs)
  case (Cons d ys)
  show ?case
  proof (cases "int (length xs) = INT64_MAX")
    case False
    have "add_limbs (fp_limb_sums (exact_fingerprint xs)) (digest_limbs d)
        = Inr (fp_limb_sums (exact_fingerprint (xs @ [d])))"
      using Cons.prems False add_exact_sums [of xs "[d]"] by (simp add: exact_sums_single)
    then show ?thesis
      using Cons.prems False Cons.IH [of "xs @ [d]"] by (simp add: sha256_limbs_eq add.commute)
  qed simp
qed simp

lemma exact_fingerprint_Nil: "fp_limb_sums (exact_fingerprint []) = replicate 8 0"
  by (simp add: exact_fingerprint_def limb_total_def map_replicate_const)

lemma fingerprint_hashes_eq:
  assumes "\<forall>d \<in> set ds. length d = 32"
  shows "fingerprint_hashes ds =
     (if int (length ds) \<le> INT64_MAX then Inr (exact_fingerprint ds) else Inl FingerprintOverflowError)"
  using hashes_loop_ok [of "[]" ds] hashes_loop_overflow [of "[]" ds] assms
  by (simp add: fingerprint_hashes_def exact_fingerprint_Nil INT64_MAX_def)

lemma hashes_loop_lengths:
  "fingerprint_hashes_loop n ss items = Inr f \<Longrightarrow> \<exists>ds. items = map Inr ds \<and> (\<forall>d \<in> set ds. length d = 32)"
proof (induction n ss items rule: fingerprint_hashes_loop.induct)
  case (2 n ss item items)
  then obtain d l s where "item = Inr d" "length d = 32" "fingerprint_hashes_loop (n + 1) s items = Inr f"
    by (auto simp: result_iffs sha256_limbs_eq split: if_splits)
  moreover have "\<exists>ds. items = map Inr ds \<and> (\<forall>d \<in> set ds. length d = 32)"
    using 2 by (auto simp: result_iffs)
  ultimately show ?case by (metis list.simps(9) set_ConsD)
qed simp

lemma fingerprint_hashes_iff:
  "fingerprint_hashes ds = Inr f \<longleftrightarrow>
     (\<forall>d \<in> set ds. length d = 32) \<and> int (length ds) \<le> INT64_MAX \<and> f = exact_fingerprint ds"
proof
  assume f: "fingerprint_hashes ds = Inr f"
  then have "\<exists>ds'. map Inr ds = (map Inr ds' :: (exn + bytes) list) \<and> (\<forall>d \<in> set ds'. length d = 32)"
    unfolding fingerprint_hashes_def by (rule hashes_loop_lengths)
  then have "\<forall>d \<in> set ds. length d = 32"
    by (metis (mono_tags, lifting) inj_Inr inj_map_eq_map)
  then show "(\<forall>d \<in> set ds. length d = 32) \<and> int (length ds) \<le> INT64_MAX \<and> f = exact_fingerprint ds"
    using f fingerprint_hashes_eq [of ds] by (auto split: if_splits)
qed (simp add: fingerprint_hashes_eq)

lemma exact_fingerprint_perm: "mset xs = mset ys \<Longrightarrow> exact_fingerprint xs = exact_fingerprint ys"
proof -
  assume eq: "mset xs = mset ys"
  have "sum_list (map g xs) = sum_list (map g ys)" for g :: "bytes \<Rightarrow> int"
    using eq by (metis mset_map sum_mset_sum_list)
  moreover have "length xs = length ys" using eq by (rule mset_eq_length)
  ultimately show ?thesis by (simp add: exact_fingerprint_def limb_total_def)
qed

section \<open>Combination\<close>

lemma combine_loop:
  assumes "list_all2 (\<lambda>ds f. fingerprint_hashes ds = Inr f) dss fs" "\<forall>d \<in> set xs. length d = 32" "int (length xs) \<le> INT64_MAX"
  shows "combine_fingerprints_loop (int (length xs)) (fp_limb_sums (exact_fingerprint xs)) fs =
    (if int (length (xs @ concat dss)) \<le> INT64_MAX then Inr (exact_fingerprint (xs @ concat dss))
     else Inl FingerprintOverflowError)"
  using assms
proof (induction dss fs arbitrary: xs rule: list_all2_induct)
  case Nil
  then have "wf_fingerprint (exact_fingerprint xs)" by (intro wf_exact_fingerprint) auto
  then show ?case using Nil by (auto simp: mk_Fingerprint_iff) (simp add: exact_fingerprint_def)
next
  case (Cons ds dss f fs)
  have f: "f = exact_fingerprint ds" "\<forall>d \<in> set ds. length d = 32"
    using Cons.hyps(1) by (auto simp: fingerprint_hashes_iff)
  have c: "fp_count f = int (length ds)" by (simp add: f exact_fingerprint_def)
  show ?case
  proof (cases "int (length (xs @ ds)) \<le> INT64_MAX")
    case True
    then have "add_limbs (fp_limb_sums (exact_fingerprint xs)) (fp_limb_sums f)
        = Inr (fp_limb_sums (exact_fingerprint (xs @ ds)))"
      unfolding f(1) using f(2) Cons.prems by (intro add_exact_sums) auto
    then show ?thesis
      using True f(2) Cons.prems Cons.IH [of "xs @ ds"] by (simp add: Let_def c ball_Un)
  qed (simp add: Let_def c)
qed

section \<open>Segments\<close>

lemma int_from_bytes_bounds: "length d = 32 \<Longrightarrow> 0 \<le> int_from_bytes d \<and> int_from_bytes d < 2 ^ 256"
  using value_of_less [of "map of_char d" 256] by (auto simp: int_from_bytes_def)

lemma div_less_bound: "0 < q \<Longrightarrow> v < n * q \<Longrightarrow> v div q < (n :: int)"
proof (rule ccontr)
  assume "0 < q" "v < n * q" "\<not> v div q < n"
  then have "n * q \<le> v div q * q" by (intro mult_right_mono) auto
  also have "\<dots> \<le> v" using \<open>0 < q\<close> by (simp add: minus_mod_eq_div_mult [symmetric])
  finally show False using \<open>v < n * q\<close> by simp
qed

lemma segment_identity_eq:
  assumes "length d = 32" "0 \<le> n" "n \<le> 256"
  shows "segment_identity d n = Inr \<lparr>si_depth = n, si_prefix = int_from_bytes d div 2 ^ nat (256 - n)\<rparr>"
proof -
  let ?v = "int_from_bytes d"
  have v: "0 \<le> ?v" "?v < 2 ^ 256" using int_from_bytes_bounds [OF assms(1)] by simp_all
  have zero: "?v div 2 ^ 256 = 0" using v by simp
  have "(2 :: int) ^ 256 = 2 ^ nat n * 2 ^ nat (256 - n)"
    using assms by (simp only: power_add [symmetric] nat_add_distrib [symmetric]) simp
  then have "?v < 2 ^ nat n * 2 ^ nat (256 - n)" using v(2) by simp
  then have "?v div 2 ^ nat (256 - n) < 2 ^ nat n" by (intro div_less_bound) simp_all
  moreover have "0 \<le> ?v div 2 ^ nat (256 - n)" using v(1) by (simp add: pos_imp_zdiv_nonneg_iff)
  ultimately show ?thesis
    using assms zero by (cases "n = 0") (simp_all add: segment_identity_def require_sha256_def mk_SegmentIdentity_def)
qed

lemma segment_identity_iff:
  "segment_identity d n = Inr s \<longleftrightarrow>
     length d = 32 \<and> 0 \<le> n \<and> n \<le> 256 \<and> s = \<lparr>si_depth = n, si_prefix = int_from_bytes d div 2 ^ nat (256 - n)\<rparr>"
proof
  assume "segment_identity d n = Inr s"
  then have "length d = 32" "0 \<le> n" "n \<le> 256"
    by (auto simp: segment_identity_def require_sha256_def result_iffs)
  then show "length d = 32 \<and> 0 \<le> n \<and> n \<le> 256 \<and> s = \<lparr>si_depth = n, si_prefix = int_from_bytes d div 2 ^ nat (256 - n)\<rparr>"
    using \<open>segment_identity d n = Inr s\<close> segment_identity_eq [of d n] by simp
qed (simp add: segment_identity_eq)

section \<open>Properties\<close>

text \<open>(C23) A fingerprint is exact: for at most \<open>2 ^ 63 - 1\<close> digests of 32 bytes it is their number and the
  exact sums of their limbs, and no decimal(38,0) bound is ever reached; one digest more is an overflow.\<close>

theorem fingerprint_hashes_exact:
  "\<forall>d \<in> set ds. length d = 32 \<Longrightarrow>
   fingerprint_hashes ds =
     (if int (length ds) \<le> INT64_MAX then Inr (exact_fingerprint ds) else Inl FingerprintOverflowError)"
  by (rule fingerprint_hashes_eq)

theorem fingerprint_hashes_exact_witness:
  "fingerprint_hashes [replicate 32 CHR ''a'', replicate 32 CHR ''b''] =
     Inr \<lparr>fp_count = 2, fp_limb_sums = replicate 8 (1633771873 + 1650614882)\<rparr>"
proof -
  have "exact_fingerprint [replicate 32 CHR ''a'', replicate 32 CHR ''b'']
      = \<lparr>fp_count = 2, fp_limb_sums = replicate 8 (1633771873 + 1650614882)\<rparr>" by code_simp
  then show ?thesis
    using fingerprint_hashes_exact [of "[replicate 32 CHR ''a'', replicate 32 CHR ''b'']"]
    by (simp add: INT64_MAX_def)
qed

text \<open>(C25) The fingerprint of a relation does not depend on the order in which its rows are read.\<close>

theorem fingerprint_order_independent:
  assumes "fingerprint_hashes ds = Inr f" "mset es = mset ds"
  shows "fingerprint_hashes es = Inr f"
proof -
  have "set es = set ds" "length es = length ds" using assms(2) by (auto dest: mset_eq_setD mset_eq_length)
  then show ?thesis
    using assms exact_fingerprint_perm [OF assms(2)] by (simp add: fingerprint_hashes_iff)
qed

theorem fingerprint_order_independent_witness:
  "fingerprint_hashes [replicate 32 CHR ''b'', replicate 32 CHR ''a''] =
   Inr (exact_fingerprint [replicate 32 CHR ''a'', replicate 32 CHR ''b''])"
  by (rule fingerprint_order_independent [where ds = "[replicate 32 CHR ''a'', replicate 32 CHR ''b'']"])
    (simp_all add: fingerprint_hashes_iff INT64_MAX_def)

text \<open>(C28) Fingerprints of parts combine to the fingerprint of the whole, including the overflow of the row
  count, which both raise.\<close>

theorem combine_fingerprints_of_parts:
  "list_all2 (\<lambda>ds f. fingerprint_hashes ds = Inr f) dss fs \<Longrightarrow>
   combine_fingerprints fs = fingerprint_hashes (concat dss)"
proof -
  assume parts: "list_all2 (\<lambda>ds f. fingerprint_hashes ds = Inr f) dss fs"
  then have "\<forall>d \<in> set (concat dss). length d = 32"
    by (auto simp: list_all2_conv_all_nth in_set_conv_nth fingerprint_hashes_iff) (metis nth_mem)
  then show ?thesis
    using combine_loop [OF parts, of "[]"]
    by (simp add: combine_fingerprints_def exact_fingerprint_Nil fingerprint_hashes_eq INT64_MAX_def)
qed

theorem combine_fingerprints_of_parts_witness:
  "combine_fingerprints [exact_fingerprint [replicate 32 CHR ''a''], exact_fingerprint [], exact_fingerprint [replicate 32 CHR ''b'']] =
   fingerprint_hashes (concat [[replicate 32 CHR ''a''], [], [replicate 32 CHR ''b'']])"
  by (rule combine_fingerprints_of_parts) (simp add: fingerprint_hashes_iff INT64_MAX_def)

text \<open>(C33) Hash segments refine each other: every 32-byte digest lies in a segment at every depth up to 256,
  and its segment at a smaller depth is the prefix of its segment at a larger depth.\<close>

theorem segment_identity_refines:
  assumes "length d = 32" "0 \<le> n" "n \<le> m" "m \<le> 256"
  shows "\<exists>s t. segment_identity d m = Inr s \<and> segment_identity d n = Inr t \<and>
     si_depth t = n \<and> si_prefix t = si_prefix s div 2 ^ nat (m - n)"
proof -
  have "(2 :: int) ^ nat (256 - n) = 2 ^ nat (256 - m) * 2 ^ nat (m - n)"
    using assms by (simp only: power_add [symmetric] nat_add_distrib [symmetric]) simp
  then have "int_from_bytes d div 2 ^ nat (256 - n) = int_from_bytes d div 2 ^ nat (256 - m) div 2 ^ nat (m - n)"
    by (simp add: zdiv_zmult2_eq)
  then show ?thesis using assms by (simp add: segment_identity_eq)
qed

theorem segment_identity_refines_witness:
  "\<exists>s t. segment_identity (replicate 32 CHR ''a'') 12 = Inr s \<and> segment_identity (replicate 32 CHR ''a'') 8 = Inr t \<and>
     si_depth t = 8 \<and> si_prefix t = si_prefix s div 2 ^ nat (12 - 8)"
  by (rule segment_identity_refines) simp_all

end
