(* ===== verification/Run_Result.thy ===== *)
theory Run_Result
  imports Canonical_Hashing
begin

text \<open>
  \<open>src/forensic_data/result.py\<close>: the result of a run, the validators of its parts and of the whole,
  and the exit code. A pydantic model is a record; \<open>mk_\<close> functions check the constraints of its
  fields (\<open>ge=0\<close>, \<open>min_length=1\<close>, the patterns) and then run its validator, and every failure is a
  \<open>ValueError\<close>. \<open>mk_RunResult\<close> builds the nested models before the whole, in the order of the
  fields. UUIDs are numbers. The theorems say what an accepted result means: what a match,
  a mismatch, each guarantee, each status and each exit code implies.
\<close>

type_synonym uuid = nat

section \<open>Enumerations\<close>

datatype execution_status = COMPLETED | INCOMPLETE | ERROR

datatype verdict = MATCH | MISMATCH | INCONCLUSIVE

datatype guarantee = NOT_ESTABLISHED | EXACT | FINGERPRINT | AGGREGATE | STRUCTURAL

datatype consistency_level = VERIFIED | ASSERTED | UNKNOWN

datatype exit_code = ExitMatch | ExitMismatch | ExitError | ExitIncomplete

fun exit_code_value :: "exit_code \<Rightarrow> int" where
  "exit_code_value ExitMatch = 0"
| "exit_code_value ExitMismatch = 1"
| "exit_code_value ExitError = 2"
| "exit_code_value ExitIncomplete = 3"

datatype reason_code =
    DATA_MISMATCH
  | CONTRACT_VIOLATION
  | NOT_READY
  | CUT_MISMATCH
  | SNAPSHOT_LOST
  | BUDGET_EXHAUSTED
  | CANCELLED
  | CANCELLATION_UNCONFIRMED
  | OVERSIZED_RECORD
  | INVALID_CONTRACT
  | UNSUPPORTED_CAPABILITY
  | LOSSY_TRANSPORT
  | QUERY_ERROR
  | PERSISTENCE_ERROR
  | COMMIT_UNKNOWN_REASON
  | PROTOCOL_VIOLATION

definition COMPLETED_REASON_CODES :: "reason_code set" where
  "COMPLETED_REASON_CODES = {DATA_MISMATCH, CONTRACT_VIOLATION}"

definition INCOMPLETE_REASON_CODES :: "reason_code set" where
  "INCOMPLETE_REASON_CODES =
     {NOT_READY, CUT_MISMATCH, SNAPSHOT_LOST, BUDGET_EXHAUSTED, CANCELLED, CANCELLATION_UNCONFIRMED,
      OVERSIZED_RECORD}"

definition ERROR_REASON_CODES :: "reason_code set" where
  "ERROR_REASON_CODES =
     {INVALID_CONTRACT, UNSUPPORTED_CAPABILITY, LOSSY_TRANSPORT, QUERY_ERROR, PERSISTENCE_ERROR,
      COMMIT_UNKNOWN_REASON, PROTOCOL_VIOLATION}"

section \<open>Parts of a result\<close>

text \<open>\<open>NonNegativeIntegerText\<close>, \<open>NonEmptyText\<close> and \<open>Sha256Hex\<close>.\<close>

definition is_nonneg_text :: "pystr \<Rightarrow> bool" where
  "is_nonneg_text s \<longleftrightarrow>
     (case ascii_text s of
        None \<Rightarrow> False
      | Some t \<Rightarrow> canonical_integer t \<and> hd t \<noteq> CHR ''-'')"

definition is_sha256_hex :: "pystr \<Rightarrow> bool" where
  "is_sha256_hex s \<longleftrightarrow>
     (case ascii_text s of
        None \<Rightarrow> False
      | Some t \<Rightarrow> length t = 64 \<and> list_all is_lower_hex t)"

record safe_parameter =
  sp_name :: pystr
  sp_value :: pystr

definition mk_SafeParameter :: "safe_parameter \<Rightarrow> exn + safe_parameter" where
  "mk_SafeParameter p = ebind (require (sp_name p \<noteq> []) ValueError) (\<lambda>_. Inr p)"

record result_reason =
  rr_code :: reason_code
  rr_operation :: pystr
  rr_message :: pystr
  rr_safe_parameters :: "safe_parameter list"
  rr_native_error_code :: "pystr option"
  rr_query_id :: "pystr option"
  rr_redacted_response :: "pystr option"

definition mk_ResultReason :: "result_reason \<Rightarrow> exn + result_reason" where
  "mk_ResultReason r =
     ebind (require (rr_operation r \<noteq> []) ValueError) (\<lambda>_.
     ebind (require (rr_message r \<noteq> []) ValueError) (\<lambda>_.
     ebind (check_all (\<lambda>p. ebind (mk_SafeParameter p) (\<lambda>_. Inr ())) (rr_safe_parameters r)) (\<lambda>_.
     Inr r)))"

datatype total =
    ExactTotal (total_value: pystr)
  | LowerBoundTotal (total_value: pystr)
  | InferredTotal (total_value: pystr)
  | UnavailableTotal (total_reason: reason_code)

fun mk_Total :: "total \<Rightarrow> exn + total" where
  "mk_Total (UnavailableTotal r) = Inr (UnavailableTotal r)"
| "mk_Total t = ebind (require (is_nonneg_text (total_value t)) ValueError) (\<lambda>_. Inr t)"

record comparison_totals =
  ct_matched :: total
  ct_missing :: total
  ct_extra :: total
  ct_modified :: total

definition totals_values :: "comparison_totals \<Rightarrow> total list" where
  "totals_values t = [ct_matched t, ct_missing t, ct_extra t, ct_modified t]"

definition totals_differences :: "comparison_totals \<Rightarrow> total list" where
  "totals_differences t = [ct_missing t, ct_extra t, ct_modified t]"

definition mk_ComparisonTotals :: "comparison_totals \<Rightarrow> exn + comparison_totals" where
  "mk_ComparisonTotals t =
     ebind (check_all (\<lambda>x. ebind (mk_Total x) (\<lambda>_. Inr ())) (totals_values t)) (\<lambda>_. Inr t)"

record comparison_coverage =
  cc_total_partitions :: int
  cc_covered_partitions :: int
  cc_resolved_segments :: int
  cc_pruned_segments :: int
  cc_exact_segments :: int
  cc_unresolved_segments :: int
  cc_unresolved_reasons :: "reason_code list"

definition validate_segment_counts :: "comparison_coverage \<Rightarrow> exn + unit" where
  "validate_segment_counts c =
     ebind (require (\<not> cc_covered_partitions c > cc_total_partitions c) ValueError) (\<lambda>_.
     ebind (require (cc_resolved_segments c = cc_pruned_segments c + cc_exact_segments c) ValueError) (\<lambda>_.
     ebind (require (\<not> cc_covered_partitions c > cc_resolved_segments c) ValueError) (\<lambda>_.
     ebind (require (\<not> (cc_unresolved_segments c > 0 \<and>
         cc_covered_partitions c = cc_total_partitions c)) ValueError) (\<lambda>_.
     ebind (require (\<not> (cc_unresolved_segments c = 0 \<and> cc_unresolved_reasons c \<noteq> [])) ValueError) (\<lambda>_.
     require (\<not> (cc_unresolved_segments c > 0 \<and> cc_unresolved_reasons c = [])) ValueError)))))"

definition mk_ComparisonCoverage :: "comparison_coverage \<Rightarrow> exn + comparison_coverage" where
  "mk_ComparisonCoverage c =
     ebind (check_all (\<lambda>n. require (0 \<le> n) ValueError)
       [cc_total_partitions c, cc_covered_partitions c, cc_resolved_segments c,
        cc_pruned_segments c, cc_exact_segments c, cc_unresolved_segments c]) (\<lambda>_.
     ebind (validate_segment_counts c) (\<lambda>_. Inr c))"

record evidence_coverage =
  ev_found_records :: int
  ev_retained_records :: int
  ev_found_bytes :: int
  ev_retained_bytes :: int

definition mk_EvidenceCoverage :: "evidence_coverage \<Rightarrow> exn + evidence_coverage" where
  "mk_EvidenceCoverage e =
     ebind (check_all (\<lambda>n. require (0 \<le> n) ValueError)
       [ev_found_records e, ev_retained_records e, ev_found_bytes e, ev_retained_bytes e]) (\<lambda>_.
     ebind (require (\<not> ev_retained_records e > ev_found_records e) ValueError) (\<lambda>_.
     ebind (require (\<not> ev_retained_bytes e > ev_found_bytes e) ValueError) (\<lambda>_.
     Inr e)))"

record consistency_status =
  cn_stable_reads :: consistency_level
  cn_cut_alignment :: consistency_level
  cn_read_context_ids :: "uuid list"

definition mk_ConsistencyStatus :: "consistency_status \<Rightarrow> exn + consistency_status" where
  "mk_ConsistencyStatus c =
     ebind (require (card (set (cn_read_context_ids c)) = length (cn_read_context_ids c)) ValueError) (\<lambda>_.
     Inr c)"

record result_metrics =
  rm_queries :: int
  rm_fetched_records :: int
  rm_result_bytes :: int
  rm_fingerprint_nodes :: int
  rm_coordinator_peak_bytes :: int
  rm_elapsed_milliseconds :: int

definition mk_ResultMetrics :: "result_metrics \<Rightarrow> exn + result_metrics" where
  "mk_ResultMetrics m =
     ebind (check_all (\<lambda>n. require (0 \<le> n) ValueError)
       [rm_queries m, rm_fetched_records m, rm_result_bytes m, rm_fingerprint_nodes m,
        rm_coordinator_peak_bytes m, rm_elapsed_milliseconds m]) (\<lambda>_. Inr m)"

datatype persistence_state = CONFIRMED | NOT_ATTEMPTED | FAILED | COMMIT_UNKNOWN

definition PERSISTENCE_REASON_STATES :: "(reason_code \<times> persistence_state) list" where
  "PERSISTENCE_REASON_STATES = [(PERSISTENCE_ERROR, FAILED), (COMMIT_UNKNOWN_REASON, COMMIT_UNKNOWN)]"

record persistence_status =
  ps_state :: persistence_state
  ps_operation_id :: "uuid option"
  ps_reason :: "result_reason option"

definition validate_state_details :: "persistence_status \<Rightarrow> exn + unit" where
  "validate_state_details p =
     (if ps_state p = NOT_ATTEMPTED then
        require (\<not> (ps_operation_id p \<noteq> None \<or> ps_reason p \<noteq> None)) ValueError
      else
        ebind (require (ps_operation_id p \<noteq> None) ValueError) (\<lambda>_.
        if ps_state p = CONFIRMED then require (ps_reason p = None) ValueError
        else
          (case ps_reason p of
             None \<Rightarrow> Inl ValueError
           | Some reason \<Rightarrow>
               (let expected_code = (if ps_state p = FAILED then PERSISTENCE_ERROR else COMMIT_UNKNOWN_REASON)
                in require (rr_code reason = expected_code) ValueError))))"

definition mk_PersistenceStatus :: "persistence_status \<Rightarrow> exn + persistence_status" where
  "mk_PersistenceStatus p =
     ebind (case ps_reason p of None \<Rightarrow> Inr () | Some r \<Rightarrow> ebind (mk_ResultReason r) (\<lambda>_. Inr ())) (\<lambda>_.
     ebind (validate_state_details p) (\<lambda>_. Inr p))"

record run_result =
  res_run_id :: uuid
  res_attempt_id :: uuid
  res_check_id :: pystr
  res_contract_digest :: pystr
  res_scope_digest :: pystr
  res_execution_status :: execution_status
  res_verdict :: verdict
  res_consistency :: consistency_status
  res_guarantee :: guarantee
  res_coverage :: comparison_coverage
  res_totals :: comparison_totals
  res_evidence :: evidence_coverage
  res_metrics :: result_metrics
  res_reasons :: "result_reason list"
  res_persistence :: persistence_status

section \<open>Validation of the outcome\<close>

definition is_exact :: "total \<Rightarrow> bool" where
  "is_exact t \<longleftrightarrow> (case t of ExactTotal _ \<Rightarrow> True | _ \<Rightarrow> False)"

definition is_lower_bound :: "total \<Rightarrow> bool" where
  "is_lower_bound t \<longleftrightarrow> (case t of LowerBoundTotal _ \<Rightarrow> True | _ \<Rightarrow> False)"

definition is_inferred :: "total \<Rightarrow> bool" where
  "is_inferred t \<longleftrightarrow> (case t of InferredTotal _ \<Rightarrow> True | _ \<Rightarrow> False)"

definition is_unavailable :: "total \<Rightarrow> bool" where
  "is_unavailable t \<longleftrightarrow> (case t of UnavailableTotal _ \<Rightarrow> True | _ \<Rightarrow> False)"

text \<open>\<open>total.value != "0"\<close>; the value of an unavailable total is \<open>None\<close>.\<close>

definition total_nonzero :: "total \<Rightarrow> bool" where
  "total_nonzero t \<longleftrightarrow> (case t of UnavailableTotal _ \<Rightarrow> True | _ \<Rightarrow> total_value t \<noteq> asc ''0'')"

definition all_reason_codes :: "run_result \<Rightarrow> reason_code set" where
  "all_reason_codes r =
     set (map rr_code (res_reasons r)) \<union> set (cc_unresolved_reasons (res_coverage r)) \<union>
     set (map total_reason (filter is_unavailable (totals_values (res_totals r)))) \<union>
     (case ps_reason (res_persistence r) of None \<Rightarrow> {} | Some x \<Rightarrow> {rr_code x})"

fun valid_verdicts :: "execution_status \<Rightarrow> verdict set" where
  "valid_verdicts COMPLETED = {MATCH, MISMATCH}"
| "valid_verdicts INCOMPLETE = {INCONCLUSIVE, MISMATCH}"
| "valid_verdicts ERROR = {INCONCLUSIVE, MISMATCH}"

definition validate_execution_state :: "run_result \<Rightarrow> exn + unit" where
  "validate_execution_state r =
     ebind (require (res_verdict r \<in> valid_verdicts (res_execution_status r)) ValueError) (\<lambda>_.
     ebind (if res_execution_status r = COMPLETED then
              ebind (require (cc_unresolved_segments (res_coverage r) = 0) ValueError) (\<lambda>_.
              require (ps_state (res_persistence r) = CONFIRMED) ValueError)
            else Inr ()) (\<lambda>_.
     ebind (require (\<not> (res_execution_status r = INCOMPLETE \<and> res_guarantee r \<noteq> NOT_ESTABLISHED))
       ValueError) (\<lambda>_.
     require (\<not> (ps_state (res_persistence r) \<in> {FAILED, COMMIT_UNKNOWN} \<and>
         res_execution_status r \<noteq> ERROR)) ValueError)))"

definition validate_persistence_reason_codes :: "run_result \<Rightarrow> reason_code set \<Rightarrow> exn + unit" where
  "validate_persistence_reason_codes r reason_codes =
     check_all (\<lambda>(reason_code, persistence_state).
       let has_reason = (reason_code \<in> reason_codes);
           has_state = (ps_state (res_persistence r) = persistence_state)
       in require (has_reason = has_state) ValueError) PERSISTENCE_REASON_STATES"

definition has_known_consistency :: "run_result \<Rightarrow> bool" where
  "has_known_consistency r \<longleftrightarrow>
     cn_read_context_ids (res_consistency r) \<noteq> [] \<and>
     cn_stable_reads (res_consistency r) \<noteq> UNKNOWN \<and> cn_cut_alignment (res_consistency r) \<noteq> UNKNOWN"

definition validate_guarantee :: "run_result \<Rightarrow> exn + unit" where
  "validate_guarantee r =
     (if res_guarantee r = NOT_ESTABLISHED then
        require (\<not> (res_execution_status r = COMPLETED \<or> res_verdict r = MATCH)) ValueError
      else
        ebind (require (cn_read_context_ids (res_consistency r) \<noteq> []) ValueError) (\<lambda>_.
        ebind (require (\<not> (cn_stable_reads (res_consistency r) = UNKNOWN \<or>
            cn_cut_alignment (res_consistency r) = UNKNOWN)) ValueError) (\<lambda>_.
        let coverage = res_coverage r in
        ebind (require (cc_total_partitions coverage \<noteq> 0) ValueError) (\<lambda>_.
        ebind (require (\<not> (cc_covered_partitions coverage \<noteq> cc_total_partitions coverage \<or>
            cc_unresolved_segments coverage \<noteq> 0 \<or>
            cc_resolved_segments coverage < cc_covered_partitions coverage)) ValueError) (\<lambda>_.
        ebind (if res_guarantee r = EXACT then
                 ebind (require (cc_pruned_segments coverage = 0) ValueError) (\<lambda>_.
                 require (list_all is_exact (totals_values (res_totals r))) ValueError)
               else Inr ()) (\<lambda>_.
        if res_guarantee r = FINGERPRINT then
          ebind (require (cc_pruned_segments coverage \<noteq> 0) ValueError) (\<lambda>_.
          ebind (require (\<not> is_exact (ct_matched (res_totals r))) ValueError) (\<lambda>_.
          require (is_inferred (ct_matched (res_totals r))) ValueError))
        else Inr ()))))))"

definition has_positive_proven_difference :: "run_result \<Rightarrow> bool" where
  "has_positive_proven_difference r \<longleftrightarrow>
     list_ex (\<lambda>t. (is_exact t \<or> is_lower_bound t) \<and> total_nonzero t) (totals_differences (res_totals r))"

definition validate_match_totals :: "run_result \<Rightarrow> exn + unit" where
  "validate_match_totals r =
     (if res_verdict r \<noteq> MATCH then Inr ()
      else
        ebind (require (\<not> list_ex is_unavailable (totals_values (res_totals r))) ValueError) (\<lambda>_.
        ebind (require (\<not> list_ex total_nonzero (totals_differences (res_totals r))) ValueError) (\<lambda>_.
        if res_guarantee r = FINGERPRINT then Inr ()
        else require (list_all is_exact (totals_differences (res_totals r))) ValueError)))"

definition validate_fingerprint_evidence :: "run_result \<Rightarrow> exn + unit" where
  "validate_fingerprint_evidence r =
     (if res_guarantee r \<noteq> FINGERPRINT then Inr ()
      else if res_verdict r = INCONCLUSIVE then
        require (\<not> list_ex is_unavailable (totals_values (res_totals r))) ValueError
      else Inr ())"

definition validate_late_persistence_evidence :: "run_result \<Rightarrow> exn + unit" where
  "validate_late_persistence_evidence r =
     (if res_guarantee r = NOT_ESTABLISHED then Inr ()
      else if ps_state (res_persistence r) \<notin> {FAILED, COMMIT_UNKNOWN} then Inr ()
      else require (\<not> list_ex (\<lambda>t. is_unavailable t \<and> total_reason t \<in> {PERSISTENCE_ERROR, COMMIT_UNKNOWN_REASON})
             (totals_values (res_totals r))) ValueError)"

definition has_positive_inferred_difference :: "run_result \<Rightarrow> bool" where
  "has_positive_inferred_difference r \<longleftrightarrow>
     list_ex (\<lambda>t. is_inferred t \<and> total_nonzero t) (totals_differences (res_totals r))"

definition validate_totals :: "run_result \<Rightarrow> reason_code set \<Rightarrow> exn + unit" where
  "validate_totals r reason_codes =
     ebind (if list_ex is_inferred (totals_values (res_totals r))
            then require (res_guarantee r = FINGERPRINT) ValueError else Inr ()) (\<lambda>_.
     ebind (validate_match_totals r) (\<lambda>_.
     let has_positive_difference = has_positive_proven_difference r;
         has_data_mismatch_reason = (DATA_MISMATCH \<in> reason_codes);
         has_contract_violation = (CONTRACT_VIOLATION \<in> reason_codes);
         has_positive_classified_difference =
           (has_positive_difference \<or> has_positive_inferred_difference r)
     in
     ebind (require (\<not> ((has_positive_classified_difference \<or> has_data_mismatch_reason) \<and>
         \<not> has_known_consistency r)) ValueError) (\<lambda>_.
     ebind (require (\<not> (res_guarantee r = FINGERPRINT \<and> has_positive_classified_difference \<and>
         cc_exact_segments (res_coverage r) = 0)) ValueError) (\<lambda>_.
     ebind (require (\<not> (res_guarantee r = EXACT \<and> res_verdict r = MISMATCH \<and>
         \<not> has_positive_difference)) ValueError) (\<lambda>_.
     ebind (require (\<not> (res_guarantee r = FINGERPRINT \<and> has_data_mismatch_reason \<and>
         \<not> has_positive_classified_difference)) ValueError) (\<lambda>_.
     let has_proven_mismatch =
           (has_positive_classified_difference \<or> has_data_mismatch_reason \<or> has_contract_violation)
     in
     ebind (require (\<not> (has_proven_mismatch \<and> res_verdict r \<noteq> MISMATCH)) ValueError) (\<lambda>_.
     ebind (require (\<not> (res_verdict r = MISMATCH \<and> \<not> has_proven_mismatch)) ValueError) (\<lambda>_.
     ebind (require (\<not> (has_contract_violation \<and>
         \<not> list_all is_unavailable (totals_values (res_totals r)))) ValueError) (\<lambda>_.
     ebind (validate_fingerprint_evidence r) (\<lambda>_.
     validate_late_persistence_evidence r))))))))))"

fun reason_codes_for_status :: "execution_status \<Rightarrow> reason_code set" where
  "reason_codes_for_status ERROR = ERROR_REASON_CODES"
| "reason_codes_for_status INCOMPLETE = INCOMPLETE_REASON_CODES"
| "reason_codes_for_status COMPLETED = COMPLETED_REASON_CODES"

definition highest_reason_status :: "reason_code set \<Rightarrow> execution_status option" where
  "highest_reason_status reason_codes =
     List.find (\<lambda>status. reason_codes \<inter> reason_codes_for_status status \<noteq> {}) [ERROR, INCOMPLETE, COMPLETED]"

definition validate_reason_severity ::
    "run_result \<Rightarrow> reason_code set \<Rightarrow> reason_code set \<Rightarrow> exn + unit" where
  "validate_reason_severity r reason_codes top_level_reason_codes =
     ebind (case highest_reason_status reason_codes of
              None \<Rightarrow> Inr ()
            | Some status \<Rightarrow> require (status = res_execution_status r) ValueError) (\<lambda>_.
     if res_verdict r = MATCH then require (reason_codes = {}) ValueError
     else
       (let governing_reason_codes = reason_codes_for_status (res_execution_status r) in
        if res_execution_status r = COMPLETED then
          require (reason_codes \<inter> governing_reason_codes \<noteq> {}) ValueError
        else
          (let detailed_reason_codes = top_level_reason_codes \<union>
                 (case ps_reason (res_persistence r) of None \<Rightarrow> {} | Some x \<Rightarrow> {rr_code x})
           in require (detailed_reason_codes \<inter> governing_reason_codes \<noteq> {}) ValueError)))"

definition validate_outcome :: "run_result \<Rightarrow> exn + unit" where
  "validate_outcome r =
     (let reason_codes = all_reason_codes r;
          top_level_reason_codes = set (map rr_code (res_reasons r))
      in
      ebind (validate_execution_state r) (\<lambda>_.
      ebind (validate_persistence_reason_codes r reason_codes) (\<lambda>_.
      ebind (validate_guarantee r) (\<lambda>_.
      ebind (validate_totals r reason_codes) (\<lambda>_.
      validate_reason_severity r reason_codes top_level_reason_codes)))))"

definition mk_RunResult :: "run_result \<Rightarrow> exn + run_result" where
  "mk_RunResult r =
     ebind (require (res_check_id r \<noteq> []) ValueError) (\<lambda>_.
     ebind (require (is_sha256_hex (res_contract_digest r)) ValueError) (\<lambda>_.
     ebind (require (is_sha256_hex (res_scope_digest r)) ValueError) (\<lambda>_.
     ebind (mk_ConsistencyStatus (res_consistency r)) (\<lambda>_.
     ebind (mk_ComparisonCoverage (res_coverage r)) (\<lambda>_.
     ebind (mk_ComparisonTotals (res_totals r)) (\<lambda>_.
     ebind (mk_EvidenceCoverage (res_evidence r)) (\<lambda>_.
     ebind (mk_ResultMetrics (res_metrics r)) (\<lambda>_.
     ebind (check_all (\<lambda>x. ebind (mk_ResultReason x) (\<lambda>_. Inr ())) (res_reasons r)) (\<lambda>_.
     ebind (mk_PersistenceStatus (res_persistence r)) (\<lambda>_.
     ebind (validate_outcome r) (\<lambda>_. Inr r)))))))))))"

definition exit_code_for_result :: "run_result \<Rightarrow> exit_code" where
  "exit_code_for_result r =
     (if res_execution_status r = ERROR then ExitError
      else if res_execution_status r = INCOMPLETE then ExitIncomplete
      else if res_verdict r = MISMATCH then ExitMismatch
      else ExitMatch)"

section \<open>What the validators accept\<close>

lemma mk_RunResult_parts:
  assumes "mk_RunResult r = Inr r'"
  shows "r' = r" "validate_outcome r = Inr ()" "mk_ComparisonCoverage (res_coverage r) = Inr (res_coverage r)"
    "mk_ComparisonTotals (res_totals r) = Inr (res_totals r)"
    "mk_PersistenceStatus (res_persistence r) = Inr (res_persistence r)"
  using assms
  by (auto simp: mk_RunResult_def result_iffs mk_ComparisonCoverage_def mk_ComparisonTotals_def mk_PersistenceStatus_def)

lemma validate_outcome_parts:
  "validate_outcome r = Inr u \<longleftrightarrow>
     validate_execution_state r = Inr () \<and> validate_persistence_reason_codes r (all_reason_codes r) = Inr () \<and>
     validate_guarantee r = Inr () \<and> validate_totals r (all_reason_codes r) = Inr () \<and>
     validate_reason_severity r (all_reason_codes r) (set (map rr_code (res_reasons r))) = Inr ()"
  by (auto simp: validate_outcome_def Let_def result_iffs)

lemma validate_execution_state_iff:
  "validate_execution_state r = Inr u \<longleftrightarrow>
     res_verdict r \<in> valid_verdicts (res_execution_status r) \<and>
     (res_execution_status r = COMPLETED \<longrightarrow>
        cc_unresolved_segments (res_coverage r) = 0 \<and> ps_state (res_persistence r) = CONFIRMED) \<and>
     (res_execution_status r = INCOMPLETE \<longrightarrow> res_guarantee r = NOT_ESTABLISHED) \<and>
     (ps_state (res_persistence r) \<in> {FAILED, COMMIT_UNKNOWN} \<longrightarrow> res_execution_status r = ERROR)"
  by (auto simp: validate_execution_state_def result_iffs)

lemma validate_persistence_reason_codes_iff:
  "validate_persistence_reason_codes r cs = Inr u \<longleftrightarrow>
     (PERSISTENCE_ERROR \<in> cs \<longleftrightarrow> ps_state (res_persistence r) = FAILED) \<and>
     (COMMIT_UNKNOWN_REASON \<in> cs \<longleftrightarrow> ps_state (res_persistence r) = COMMIT_UNKNOWN)"
  by (auto simp: validate_persistence_reason_codes_def PERSISTENCE_REASON_STATES_def check_all_eq_Inr_iff result_iffs)

definition complete_frontier :: "comparison_coverage \<Rightarrow> bool" where
  "complete_frontier c \<longleftrightarrow>
     cc_total_partitions c \<noteq> 0 \<and> cc_covered_partitions c = cc_total_partitions c \<and> cc_unresolved_segments c = 0"

lemma validate_guarantee_iff:
  "validate_guarantee r = Inr u \<longleftrightarrow>
     (if res_guarantee r = NOT_ESTABLISHED then res_execution_status r \<noteq> COMPLETED \<and> res_verdict r \<noteq> MATCH
      else
        has_known_consistency r \<and> complete_frontier (res_coverage r) \<and>
        cc_covered_partitions (res_coverage r) \<le> cc_resolved_segments (res_coverage r) \<and>
        (res_guarantee r = EXACT \<longrightarrow>
           cc_pruned_segments (res_coverage r) = 0 \<and> list_all is_exact (totals_values (res_totals r))) \<and>
        (res_guarantee r = FINGERPRINT \<longrightarrow>
           cc_pruned_segments (res_coverage r) \<noteq> 0 \<and> is_inferred (ct_matched (res_totals r))))"
  by (cases "res_guarantee r"; cases "ct_matched (res_totals r)")
    (auto simp: validate_guarantee_def result_iffs Let_def has_known_consistency_def complete_frontier_def
      is_exact_def is_inferred_def)

definition proven_mismatch :: "run_result \<Rightarrow> bool" where
  "proven_mismatch r \<longleftrightarrow>
     has_positive_proven_difference r \<or> has_positive_inferred_difference r \<or>
     DATA_MISMATCH \<in> all_reason_codes r \<or> CONTRACT_VIOLATION \<in> all_reason_codes r"

lemma validate_match_totals_iff:
  "validate_match_totals r = Inr u \<longleftrightarrow>
     (res_verdict r = MATCH \<longrightarrow>
        \<not> list_ex is_unavailable (totals_values (res_totals r)) \<and>
        \<not> list_ex total_nonzero (totals_differences (res_totals r)) \<and>
        (res_guarantee r \<noteq> FINGERPRINT \<longrightarrow> list_all is_exact (totals_differences (res_totals r))))"
  by (auto simp: validate_match_totals_def result_iffs)

lemma validate_totals_parts:
  assumes "validate_totals r (all_reason_codes r) = Inr u"
  shows "validate_match_totals r = Inr ()"
    and "res_verdict r = MISMATCH \<longleftrightarrow> proven_mismatch r"
    and "has_positive_proven_difference r \<or> has_positive_inferred_difference r \<or> DATA_MISMATCH \<in> all_reason_codes r \<Longrightarrow>
         has_known_consistency r"
    and "res_guarantee r = EXACT \<Longrightarrow> res_verdict r = MISMATCH \<Longrightarrow> has_positive_proven_difference r"
    and "list_ex is_inferred (totals_values (res_totals r)) \<Longrightarrow> res_guarantee r = FINGERPRINT"
proof -
  note expanded = assms [unfolded validate_totals_def Let_def ebind_eq_Inr_iff require_eq_Inr_iff]
  show "validate_match_totals r = Inr ()"
    using expanded by (elim exE conjE) simp
  show "res_verdict r = MISMATCH \<longleftrightarrow> proven_mismatch r"
    using expanded unfolding proven_mismatch_def by blast
  show "has_positive_proven_difference r \<or> has_positive_inferred_difference r \<or> DATA_MISMATCH \<in> all_reason_codes r \<Longrightarrow>
         has_known_consistency r"
    using expanded by blast
  show "res_guarantee r = EXACT \<Longrightarrow> res_verdict r = MISMATCH \<Longrightarrow> has_positive_proven_difference r"
    using expanded by blast
  show "list_ex is_inferred (totals_values (res_totals r)) \<Longrightarrow> res_guarantee r = FINGERPRINT"
    using expanded by (auto simp: require_eq_Inr_iff split: if_splits)
qed

lemma validate_reason_severity_parts:
  assumes "validate_reason_severity r cs ts = Inr u"
  shows "highest_reason_status cs = None \<or> highest_reason_status cs = Some (res_execution_status r)"
    and "res_verdict r = MATCH \<Longrightarrow> cs = {}"
    and "res_verdict r \<noteq> MATCH \<Longrightarrow> ts \<subseteq> cs \<Longrightarrow>
         (\<And>x. ps_reason (res_persistence r) = Some x \<Longrightarrow> rr_code x \<in> cs) \<Longrightarrow>
         cs \<inter> reason_codes_for_status (res_execution_status r) \<noteq> {}"
proof -
  have a: "case highest_reason_status cs of None \<Rightarrow> True | Some s \<Rightarrow> s = res_execution_status r"
    and b: "res_verdict r = MATCH \<longrightarrow> cs = {}"
    and c: "res_verdict r \<noteq> MATCH \<longrightarrow> res_execution_status r = COMPLETED \<longrightarrow>
       cs \<inter> reason_codes_for_status (res_execution_status r) \<noteq> {}"
    and d: "res_verdict r \<noteq> MATCH \<longrightarrow> res_execution_status r \<noteq> COMPLETED \<longrightarrow>
       (ts \<union> (case ps_reason (res_persistence r) of None \<Rightarrow> {} | Some x \<Rightarrow> {rr_code x}))
         \<inter> reason_codes_for_status (res_execution_status r) \<noteq> {}"
    using assms
    by (auto simp: validate_reason_severity_def Let_def ebind_eq_Inr_iff require_eq_Inr_iff split: option.splits if_splits)
  show "highest_reason_status cs = None \<or> highest_reason_status cs = Some (res_execution_status r)"
    using a by (cases "highest_reason_status cs") auto
  show "res_verdict r = MATCH \<Longrightarrow> cs = {}" using b by blast
  assume "res_verdict r \<noteq> MATCH" "ts \<subseteq> cs" "\<And>x. ps_reason (res_persistence r) = Some x \<Longrightarrow> rr_code x \<in> cs"
  then show "cs \<inter> reason_codes_for_status (res_execution_status r) \<noteq> {}"
    using c d by (cases "ps_reason (res_persistence r)") auto
qed

lemma highest_reason_status_Some:
  assumes "cs \<inter> reason_codes_for_status s \<noteq> {}"
  shows "highest_reason_status cs \<noteq> None"
  using assms by (cases s) (auto simp: highest_reason_status_def)

lemma all_reason_codes_sub:
  "set (map rr_code (res_reasons r)) \<subseteq> all_reason_codes r"
  "ps_reason (res_persistence r) = Some x \<Longrightarrow> rr_code x \<in> all_reason_codes r"
  by (auto simp: all_reason_codes_def)

section \<open>Reasons, differences and severities\<close>

text \<open>The reasons a result gives, wherever it gives them.\<close>

definition gives_reason :: "run_result \<Rightarrow> reason_code \<Rightarrow> bool" where
  "gives_reason r c \<longleftrightarrow>
     (\<exists>x \<in> set (res_reasons r). rr_code x = c) \<or> c \<in> set (cc_unresolved_reasons (res_coverage r)) \<or>
     UnavailableTotal c \<in> {ct_matched (res_totals r), ct_missing (res_totals r), ct_extra (res_totals r), ct_modified (res_totals r)} \<or>
     (\<exists>x. ps_reason (res_persistence r) = Some x \<and> rr_code x = c)"

lemma all_reason_codes_iff: "c \<in> all_reason_codes r \<longleftrightarrow> gives_reason r c"
proof -
  have unavailable: "is_unavailable t \<and> total_reason t = c \<longleftrightarrow> t = UnavailableTotal c" for t
    by (cases t) (auto simp: is_unavailable_def)
  have "c \<in> set (map total_reason (filter is_unavailable (totals_values (res_totals r)))) \<longleftrightarrow>
      (\<exists>t \<in> set (totals_values (res_totals r)). is_unavailable t \<and> total_reason t = c)" by auto
  then show ?thesis
    unfolding unavailable by (auto simp: all_reason_codes_def gives_reason_def totals_values_def split: option.splits)
qed

text \<open>A difference total that says a positive number.\<close>

definition positive_difference :: "comparison_totals \<Rightarrow> bool" where
  "positive_difference t \<longleftrightarrow>
     (\<exists>n > 0. \<exists>d \<in> {ct_missing t, ct_extra t, ct_modified t}.
        d \<in> {ExactTotal (asc (int_str n)), LowerBoundTotal (asc (int_str n)), InferredTotal (asc (int_str n))})"

lemma nonneg_text_number:
  assumes "is_nonneg_text s"
  obtains n where "0 \<le> n" "s = asc (int_str n)"
proof -
  obtain t where t: "ascii_text s = Some t" "canonical_integer t" "hd t \<noteq> CHR ''-''"
    using assms by (auto simp: is_nonneg_text_def split: option.splits)
  have "t = int_str (parse_int t)" using t(2) by (simp add: int_str_parse_int)
  moreover have "0 \<le> parse_int t" using t(3) by (auto simp: parse_int_def)
  moreover have "s = asc t" using ascii_text_dec [OF t(1)] by (auto simp: asc_def list_all_iff intro!: map_idI [symmetric])
  ultimately show thesis using that by metis
qed

lemma positive_total:
  assumes "mk_Total t = Inr u"
  shows "(is_exact t \<or> is_lower_bound t \<or> is_inferred t) \<and> total_nonzero t \<longleftrightarrow>
    (\<exists>n > 0. t \<in> {ExactTotal (asc (int_str n)), LowerBoundTotal (asc (int_str n)), InferredTotal (asc (int_str n))})"
proof -
  have nonzero: "v \<noteq> asc ''0'' \<longleftrightarrow> (\<exists>n > 0. v = asc (int_str n))" if v: "is_nonneg_text v" for v
  proof -
    obtain n where n: "0 \<le> n" "v = asc (int_str n)" by (rule nonneg_text_number [OF v])
    have same: "v = asc (int_str m) \<longleftrightarrow> m = n" for m unfolding n(2) asc_eq_iff int_str_eq_iff by blast
    have "v = asc ''0'' \<longleftrightarrow> n = 0" using same [of 0] unfolding int_str_0 by auto
    then show ?thesis unfolding same using n(1) by auto
  qed
  show ?thesis
    using assms nonzero
    by (cases t) (auto simp: is_exact_def is_lower_bound_def is_inferred_def total_nonzero_def result_iffs)
qed

lemma positive_differences:
  assumes "mk_ComparisonTotals t = Inr t"
  shows "list_ex (\<lambda>d. (is_exact d \<or> is_lower_bound d) \<and> total_nonzero d) (totals_differences t) \<or>
      list_ex (\<lambda>d. is_inferred d \<and> total_nonzero d) (totals_differences t) \<longleftrightarrow> positive_difference t"
proof -
  have "\<exists>u. mk_Total d = Inr u" if "d \<in> set (totals_values t)" for d
    using assms that by (auto simp: mk_ComparisonTotals_def check_all_eq_Inr_iff result_iffs)
  then have "(is_exact d \<or> is_lower_bound d \<or> is_inferred d) \<and> total_nonzero d \<longleftrightarrow>
      (\<exists>n > 0. d \<in> {ExactTotal (asc (int_str n)), LowerBoundTotal (asc (int_str n)), InferredTotal (asc (int_str n))})"
    if "d \<in> {ct_missing t, ct_extra t, ct_modified t}" for d
    using that positive_total [of d] by (auto simp: totals_values_def)
  then show ?thesis
    unfolding positive_difference_def totals_differences_def list_ex_iff by (simp only: list.set) blast
qed

text \<open>How severe a reason and a status are.\<close>

primrec reason_severity :: "reason_code \<Rightarrow> nat" where
  "reason_severity DATA_MISMATCH = 0"
| "reason_severity CONTRACT_VIOLATION = 0"
| "reason_severity NOT_READY = 1"
| "reason_severity CUT_MISMATCH = 1"
| "reason_severity SNAPSHOT_LOST = 1"
| "reason_severity BUDGET_EXHAUSTED = 1"
| "reason_severity CANCELLED = 1"
| "reason_severity CANCELLATION_UNCONFIRMED = 1"
| "reason_severity OVERSIZED_RECORD = 1"
| "reason_severity INVALID_CONTRACT = 2"
| "reason_severity UNSUPPORTED_CAPABILITY = 2"
| "reason_severity LOSSY_TRANSPORT = 2"
| "reason_severity QUERY_ERROR = 2"
| "reason_severity PERSISTENCE_ERROR = 2"
| "reason_severity COMMIT_UNKNOWN_REASON = 2"
| "reason_severity PROTOCOL_VIOLATION = 2"

primrec status_severity :: "execution_status \<Rightarrow> nat" where
  "status_severity COMPLETED = 0"
| "status_severity INCOMPLETE = 1"
| "status_severity ERROR = 2"

lemma severity_status: "c \<in> reason_codes_for_status s \<longleftrightarrow> reason_severity c = status_severity s"
  by (cases s; cases c) (simp_all add: COMPLETED_REASON_CODES_def INCOMPLETE_REASON_CODES_def ERROR_REASON_CODES_def)

lemma highest_reason_status_severity:
  assumes "highest_reason_status cs = Some s" "c \<in> cs"
  shows "reason_severity c \<le> status_severity s"
proof -
  have found: "s = ERROR \<or> (s = INCOMPLETE \<and> cs \<inter> reason_codes_for_status ERROR = {}) \<or>
      cs \<inter> (reason_codes_for_status ERROR \<union> reason_codes_for_status INCOMPLETE) = {}"
    using assms(1) by (auto simp: highest_reason_status_def split: if_splits)
  have "reason_severity c \<le> 2" by (cases c) simp_all
  then show ?thesis
    using found assms(2) severity_status [of c ERROR] severity_status [of c INCOMPLETE] by (cases s) auto
qed

section \<open>Properties of accepted results\<close>

text \<open>(C34) A match is only ever reported for a completed run with a complete frontier, known consistency, an
  established guarantee and confirmed persistence, whose difference totals are all zero and which
  carries no failure reason of any kind.\<close>

theorem accepted_match_meaning:
  assumes "mk_RunResult r = Inr r" "res_verdict r = MATCH"
  shows "res_execution_status r = COMPLETED \<and> res_guarantee r \<noteq> NOT_ESTABLISHED \<and>
    complete_frontier (res_coverage r) \<and> has_known_consistency r \<and>
    ps_state (res_persistence r) = CONFIRMED \<and> all_reason_codes r = {} \<and>
    (\<forall>t \<in> set (totals_differences (res_totals r)). \<not> is_unavailable t \<and> total_value t = asc ''0'')"
proof -
  note parts = mk_RunResult_parts(2) [OF assms(1), unfolded validate_outcome_parts]
  have state: "res_execution_status r = COMPLETED" "ps_state (res_persistence r) = CONFIRMED"
    using parts assms(2) by (cases "res_execution_status r"; simp add: validate_execution_state_iff)+
  have g: "res_guarantee r \<noteq> NOT_ESTABLISHED" "has_known_consistency r" "complete_frontier (res_coverage r)"
    using parts assms(2) by (auto simp: validate_guarantee_iff split: if_splits)
  have t: "\<not> list_ex total_nonzero (totals_differences (res_totals r))"
    using validate_totals_parts(1) parts assms(2) by (auto simp: validate_match_totals_iff)
  have "all_reason_codes r = {}" using validate_reason_severity_parts(2) parts assms(2) by blast
  moreover have "\<not> is_unavailable t \<and> total_value t = asc ''0''" if "t \<in> set (totals_differences (res_totals r))" for t
    using t that by (cases t) (auto simp: list_ex_iff total_nonzero_def is_unavailable_def)
  ultimately show ?thesis using state g by blast
qed

text \<open>(C35) The verdict of an accepted result is \<open>mismatch\<close> exactly when the result itself proves one: the number of
  missing, extra or modified rows, exact, a lower bound or inferred, is positive, or \<open>data_mismatch\<close> or
  \<open>contract_violation\<close> is among the reasons it gives, at the top level, for unresolved segments, for unavailable totals or for
  its persistence.\<close>

theorem accepted_mismatch_iff_proven:
  assumes "mk_RunResult r = Inr r"
  shows "res_verdict r = MISMATCH \<longleftrightarrow>
     positive_difference (res_totals r) \<or> gives_reason r DATA_MISMATCH \<or> gives_reason r CONTRACT_VIOLATION"
proof -
  have "res_verdict r = MISMATCH \<longleftrightarrow> proven_mismatch r"
    using mk_RunResult_parts(2) [OF assms] validate_totals_parts(2) by (simp add: validate_outcome_parts)
  then show ?thesis
    using positive_differences [OF mk_RunResult_parts(4) [OF assms]]
    by (auto simp: proven_mismatch_def has_positive_proven_difference_def has_positive_inferred_difference_def all_reason_codes_iff)
qed

text \<open>The exit code of an accepted result determines its outcome: 0 means exactly a match, 1 exactly a
  completed mismatch, 2 an error and 3 an incomplete run, and a result that failed to be persisted
  never exits with 0, 1 or 3.\<close>

theorem accepted_exit_code_meaning:
  assumes "mk_RunResult r = Inr r"
  shows "(exit_code_for_result r = ExitMatch \<longleftrightarrow> res_verdict r = MATCH) \<and>
    (exit_code_for_result r = ExitMismatch \<longleftrightarrow>
       res_execution_status r = COMPLETED \<and> res_verdict r = MISMATCH) \<and>
    (exit_code_for_result r = ExitError \<longleftrightarrow> res_execution_status r = ERROR) \<and>
    (exit_code_for_result r = ExitIncomplete \<longleftrightarrow> res_execution_status r = INCOMPLETE) \<and>
    (ps_state (res_persistence r) \<in> {FAILED, COMMIT_UNKNOWN} \<longrightarrow> exit_code_for_result r = ExitError)"
proof -
  have "validate_execution_state r = Inr ()"
    using mk_RunResult_parts(2) [OF assms] by (simp add: validate_outcome_parts)
  then show ?thesis
    by (cases "res_execution_status r"; cases "res_verdict r")
      (auto simp: validate_execution_state_iff exit_code_for_result_def)
qed

text \<open>(C36) Every accepted result that is not a match states why: no reason it gives anywhere is more severe than its execution
  status, where a failure of the run outranks an incomplete comparison and that outranks a finding; one reason is as severe, and
  when the run did not complete, that one is spelled out as a top-level or persistence reason.\<close>

theorem accepted_status_is_highest_severity:
  assumes "mk_RunResult r = Inr r" "res_verdict r \<noteq> MATCH"
  shows "(\<forall>c. gives_reason r c \<longrightarrow> reason_severity c \<le> status_severity (res_execution_status r)) \<and>
    (\<exists>c. gives_reason r c \<and> reason_severity c = status_severity (res_execution_status r) \<and>
      (res_execution_status r = COMPLETED \<or>
       (\<exists>x. (x \<in> set (res_reasons r) \<or> ps_reason (res_persistence r) = Some x) \<and> rr_code x = c)))"
proof -
  have sev: "validate_reason_severity r (all_reason_codes r) (set (map rr_code (res_reasons r))) = Inr ()"
    using mk_RunResult_parts(2) [OF assms(1)] by (simp add: validate_outcome_parts)
  let ?st = "res_execution_status r"
  have ne: "all_reason_codes r \<inter> reason_codes_for_status ?st \<noteq> {}"
    using validate_reason_severity_parts(3) [OF sev assms(2)] all_reason_codes_sub by blast
  then have "highest_reason_status (all_reason_codes r) = Some ?st"
    using highest_reason_status_Some [OF ne] validate_reason_severity_parts(1) [OF sev] by auto
  then have "\<forall>c. gives_reason r c \<longrightarrow> reason_severity c \<le> status_severity ?st"
    using highest_reason_status_severity by (simp add: all_reason_codes_iff [symmetric])
  moreover have "\<exists>c. gives_reason r c \<and> reason_severity c = status_severity ?st \<and>
      (?st = COMPLETED \<or> (\<exists>x. (x \<in> set (res_reasons r) \<or> ps_reason (res_persistence r) = Some x) \<and> rr_code x = c))"
  proof (cases "?st = COMPLETED")
    case True
    obtain c where "c \<in> all_reason_codes r" "c \<in> reason_codes_for_status ?st" using ne by blast
    then have "gives_reason r c" "reason_severity c = status_severity ?st" using all_reason_codes_iff severity_status by blast+
    then show ?thesis using True by blast
  next
    case False
    then obtain x where x: "x \<in> set (res_reasons r) \<or> ps_reason (res_persistence r) = Some x"
        "rr_code x \<in> reason_codes_for_status ?st"
      using sev assms(2) by (auto simp: validate_reason_severity_def Let_def result_iffs split: if_splits option.splits)
    then have "gives_reason r (rr_code x)" by (auto simp: gives_reason_def)
    then show ?thesis using x severity_status by blast
  qed
  ultimately show ?thesis by blast
qed

text \<open>(C37) What the guarantee of an accepted result promises: an established guarantee has a complete frontier read
  under known consistency; \<open>exact\<close> means that nothing was pruned, every total is exact and a mismatch
  shows a positive exact difference; \<open>fingerprint\<close> means that something was pruned and the matched
  total is inferred; and inferred totals appear under no other guarantee.\<close>

theorem accepted_guarantee_meaning:
  assumes "mk_RunResult r = Inr r"
  shows "(res_guarantee r \<noteq> NOT_ESTABLISHED \<longrightarrow>
      complete_frontier (res_coverage r) \<and> has_known_consistency r \<and> res_execution_status r \<noteq> INCOMPLETE) \<and>
    (res_guarantee r = EXACT \<longrightarrow>
      cc_pruned_segments (res_coverage r) = 0 \<and> list_all is_exact (totals_values (res_totals r)) \<and>
      (res_verdict r = MISMATCH \<longrightarrow> has_positive_proven_difference r)) \<and>
    (res_guarantee r = FINGERPRINT \<longrightarrow>
      cc_pruned_segments (res_coverage r) \<noteq> 0 \<and> is_inferred (ct_matched (res_totals r))) \<and>
    (list_ex is_inferred (totals_values (res_totals r)) \<longrightarrow> res_guarantee r = FINGERPRINT)"
proof -
  note parts = mk_RunResult_parts(2) [OF assms, unfolded validate_outcome_parts]
  have g: "validate_guarantee r = Inr ()" and t: "validate_totals r (all_reason_codes r) = Inr ()"
    and e: "validate_execution_state r = Inr ()" using parts by blast+
  have "res_guarantee r \<noteq> NOT_ESTABLISHED \<longrightarrow>
      complete_frontier (res_coverage r) \<and> has_known_consistency r \<and> res_execution_status r \<noteq> INCOMPLETE"
    using g [unfolded validate_guarantee_iff] e [unfolded validate_execution_state_iff] by argo
  moreover have "res_guarantee r = EXACT \<longrightarrow>
      cc_pruned_segments (res_coverage r) = 0 \<and> list_all is_exact (totals_values (res_totals r))"
    using g by (auto simp: validate_guarantee_iff)
  moreover have "res_guarantee r = FINGERPRINT \<longrightarrow>
      cc_pruned_segments (res_coverage r) \<noteq> 0 \<and> is_inferred (ct_matched (res_totals r))"
    using g by (auto simp: validate_guarantee_iff)
  ultimately show ?thesis using validate_totals_parts(4,5) [OF t] by blast
qed

text \<open>Two accepted results: a fingerprint match and a run cancelled after an exact difference was seen.\<close>

definition example_persistence :: persistence_status where
  "example_persistence = \<lparr>ps_state = CONFIRMED, ps_operation_id = Some 9, ps_reason = None\<rparr>"

definition example_match :: run_result where
  "example_match =
     \<lparr>res_run_id = 1, res_attempt_id = 2, res_check_id = asc ''orders'', res_contract_digest = asc (replicate 64 CHR ''a''),
      res_scope_digest = asc (replicate 64 CHR ''b''), res_execution_status = COMPLETED, res_verdict = MATCH,
      res_consistency = \<lparr>cn_stable_reads = VERIFIED, cn_cut_alignment = ASSERTED, cn_read_context_ids = [3, 4]\<rparr>,
      res_guarantee = FINGERPRINT,
      res_coverage = \<lparr>cc_total_partitions = 1, cc_covered_partitions = 1, cc_resolved_segments = 2,
        cc_pruned_segments = 2, cc_exact_segments = 0, cc_unresolved_segments = 0, cc_unresolved_reasons = []\<rparr>,
      res_totals = \<lparr>ct_matched = InferredTotal (asc ''10''), ct_missing = InferredTotal (asc ''0''),
        ct_extra = InferredTotal (asc ''0''), ct_modified = InferredTotal (asc ''0'')\<rparr>,
      res_evidence = \<lparr>ev_found_records = 0, ev_retained_records = 0, ev_found_bytes = 0, ev_retained_bytes = 0\<rparr>,
      res_metrics = \<lparr>rm_queries = 4, rm_fetched_records = 4, rm_result_bytes = 64, rm_fingerprint_nodes = 2,
        rm_coordinator_peak_bytes = 0, rm_elapsed_milliseconds = 5\<rparr>,
      res_reasons = [], res_persistence = example_persistence\<rparr>"

definition example_cancelled :: run_result where
  "example_cancelled =
     example_match\<lparr>res_execution_status := INCOMPLETE, res_verdict := MISMATCH, res_guarantee := NOT_ESTABLISHED,
      res_coverage := \<lparr>cc_total_partitions = 2, cc_covered_partitions = 1, cc_resolved_segments = 1,
        cc_pruned_segments = 0, cc_exact_segments = 1, cc_unresolved_segments = 1, cc_unresolved_reasons = [CANCELLED]\<rparr>,
      res_totals := \<lparr>ct_matched = LowerBoundTotal (asc ''7''), ct_missing = LowerBoundTotal (asc ''1''),
        ct_extra = LowerBoundTotal (asc ''0''), ct_modified = LowerBoundTotal (asc ''0'')\<rparr>,
      res_reasons := [\<lparr>rr_code = CANCELLED, rr_operation = asc ''compare'', rr_message = asc ''cancelled'',
        rr_safe_parameters = [], rr_native_error_code = None, rr_query_id = None, rr_redacted_response = None\<rparr>]\<rparr>"

lemma example_match_accepted: "mk_RunResult example_match = Inr example_match" by code_simp

lemma example_cancelled_accepted: "mk_RunResult example_cancelled = Inr example_cancelled" by code_simp

theorem accepted_match_meaning_witness:
  "complete_frontier (res_coverage example_match) \<and> all_reason_codes example_match = {}"
  using accepted_match_meaning [OF example_match_accepted] by (simp add: example_match_def)

theorem accepted_mismatch_iff_proven_witness:
  "positive_difference (res_totals example_cancelled) \<or> gives_reason example_cancelled DATA_MISMATCH \<or>
     gives_reason example_cancelled CONTRACT_VIOLATION"
  using accepted_mismatch_iff_proven [OF example_cancelled_accepted] by (simp add: example_cancelled_def)

theorem accepted_exit_code_meaning_witness:
  "exit_code_for_result example_match = ExitMatch"
  using accepted_exit_code_meaning [OF example_match_accepted] by (simp add: example_match_def)

theorem accepted_status_is_highest_severity_witness:
  "\<exists>c. gives_reason example_cancelled c \<and> reason_severity c = 1"
  using accepted_status_is_highest_severity [OF example_cancelled_accepted] by (auto simp: example_cancelled_def)

theorem accepted_guarantee_meaning_witness:
  "cc_pruned_segments (res_coverage example_match) \<noteq> 0 \<and> is_inferred (ct_matched (res_totals example_match))"
  using accepted_guarantee_meaning [OF example_match_accepted] by (simp add: example_match_def)

end
