(* ===== verification/Semantics.thy ===== *)
theory Semantics
  imports Canonical_Schema
begin

text \<open>
  \<open>src/forensic_data/contracts/semantics.py\<close>: canonical JSON of contract metadata, its strict reader
  and its digest, and the canonical JSON bytes that other parts of the program write with the same
  \<open>json.dumps\<close> call. \<open>json.dumps\<close> raises \<open>ValueError\<close> on an integer whose decimal text is beyond the
  interpreter's digit limit. A Python tuple and a list print alike and are one constructor here.
  The nesting limit of the parser (\<open>RecursionError\<close>) is not modelled.
\<close>

text \<open>\<open>json.dumps\<close> with its exception.\<close>

fun json_printable :: "jval \<Rightarrow> bool" where
  "json_printable (JInt i) \<longleftrightarrow> \<bar>i\<bar> < 10 ^ int_max_str_digits"
| "json_printable (JArr vs) \<longleftrightarrow> list_all json_printable vs"
| "json_printable (JObj ps) \<longleftrightarrow> list_all (\<lambda>p. json_printable (snd p)) ps"
| "json_printable v \<longleftrightarrow> True"

definition json_dumps_text :: "jval \<Rightarrow> exn + pystr" where
  "json_dumps_text v = ebind (require (json_printable v) ValueError) (\<lambda>_. Inr (json_dumps v))"

fun validate_semantic_value :: "jval \<Rightarrow> exn + unit" where
  "validate_semantic_value (JStr s) =
     check_all (\<lambda>c. require (\<not> is_surrogate c) ContractValidationError) s"
| "validate_semantic_value (JArr vs) = check_all validate_semantic_value vs"
| "validate_semantic_value (JObj ps) =
     check_all (\<lambda>p.
       ebind (check_all (\<lambda>c. require (\<not> is_surrogate c) ContractValidationError) (fst p)) (\<lambda>_.
       validate_semantic_value (snd p))) ps"
| "validate_semantic_value v = Inr ()"

definition canonical_semantic_json :: "jval \<Rightarrow> exn + pystr" where
  "canonical_semantic_json v = ebind (validate_semantic_value v) (\<lambda>_. json_dumps_text v)"

definition semantic_digest_hex :: "jval \<Rightarrow> exn + string" where
  "semantic_digest_hex v =
     ebind (canonical_semantic_json v) (\<lambda>text.
     ebind (utf8_encode text) (\<lambda>metadata.
     Inr (bytes_hex (sha256 metadata))))"

definition semantic_value_from_json :: "pystr \<Rightarrow> exn + jval" where
  "semantic_value_from_json s =
     (case json_loads s of
        None \<Rightarrow> Inl ContractValidationError
      | Some v \<Rightarrow> ebind (validate_semantic_value v) (\<lambda>_. Inr v))"

definition canonicalize_semantic_json :: "pystr \<Rightarrow> exn + pystr" where
  "canonicalize_semantic_json s = ebind (semantic_value_from_json s) canonical_semantic_json"

text \<open>\<open>_canonical_json_bytes\<close> of \<open>reporting.py\<close> and the end of
  \<open>canonical_partial_comparison_frontier_bytes\<close>.\<close>

definition canonical_json_bytes :: "jval \<Rightarrow> exn + bytes" where
  "canonical_json_bytes v = ebind (json_dumps_text v) utf8_encode"

section \<open>Reading undoes writing\<close>

fun json_distinct :: "jval \<Rightarrow> bool" where
  "json_distinct (JArr vs) \<longleftrightarrow> list_all json_distinct vs"
| "json_distinct (JObj ps) \<longleftrightarrow> distinct (map fst ps) \<and> list_all (\<lambda>p. json_distinct (snd p)) ps"
| "json_distinct v \<longleftrightarrow> True"

lemma json_wf_iff: "json_wf v \<longleftrightarrow> json_printable v \<and> json_distinct v"
  by (induction v) (auto simp: list_all_iff snds.simps)

fun json_pystr :: "jval \<Rightarrow> bool" where
  "json_pystr (JStr s) \<longleftrightarrow> is_pystr s"
| "json_pystr (JArr vs) \<longleftrightarrow> list_all json_pystr vs"
| "json_pystr (JObj ps) \<longleftrightarrow> list_all (\<lambda>p. is_pystr (fst p) \<and> json_pystr (snd p)) ps"
| "json_pystr v \<longleftrightarrow> True"

lemma no_surrogates_iff:
  "is_pystr s \<Longrightarrow>
   check_all (\<lambda>c. require (\<not> is_surrogate c) ContractValidationError) s = Inr u \<longleftrightarrow> list_all is_scalar s"
  by (auto simp: check_all_eq_Inr_iff result_iffs is_pystr_def list_all_iff is_scalar_iff)

lemma validate_semantic_value_iff:
  "json_pystr v \<Longrightarrow> validate_semantic_value v = Inr u \<longleftrightarrow> json_scalar v"
proof (induction v arbitrary: u)
  case (JArr vs)
  then show ?case by (auto simp: check_all_eq_Inr_iff list_all_iff)
next
  case (JObj ps)
  then show ?case
    by (auto simp: check_all_eq_Inr_iff list_all_iff result_iffs snds.simps is_pystr_def is_scalar_iff)
qed (simp_all add: no_surrogates_iff)

lemma json_pystr_scalar: "json_scalar v \<Longrightarrow> json_pystr v"
proof (induction v)
  case (JObj ps)
  then show ?case by (auto simp: list_all_iff snds.simps is_pystr_def is_scalar_iff)
qed (auto simp: list_all_iff is_pystr_def is_scalar_iff)

lemma json_scalar_norm: "json_scalar v \<Longrightarrow> json_scalar (json_norm v)"
  by (induction v) (auto simp: snds.simps)

lemma semantic_json_ok:
  assumes "json_scalar v" "json_wf v"
  shows "canonical_semantic_json v = Inr (json_dumps v)"
    and "semantic_value_from_json (json_dumps v) = Inr (json_norm v)"
proof -
  have "validate_semantic_value w = Inr ()" if "json_scalar w" for w
    using that validate_semantic_value_iff json_pystr_scalar by blast
  then show "canonical_semantic_json v = Inr (json_dumps v)"
    "semantic_value_from_json (json_dumps v) = Inr (json_norm v)"
    using assms
    by (simp_all add: canonical_semantic_json_def semantic_value_from_json_def json_dumps_text_def
        json_wf_iff json_loads_dumps json_scalar_norm)
qed

lemma canonical_json_bytes_ok:
  assumes "json_scalar v" "json_printable v"
  obtains b where "canonical_json_bytes v = Inr b" "utf8_decode_strict b = Some (json_dumps v)"
  using json_dumps_scalar [OF assms(1)] assms utf8_decode_encode
  by (auto simp: canonical_json_bytes_def json_dumps_text_def utf8_encode_def)

end
