(* ===== verification/Evidence.thy ===== *)
theory Evidence
  imports Run_Result Semantics
begin

text \<open>
  The row-difference part of \<open>src/forensic_data/reporting.py\<close>: one retained field value, one
  difference record, their validators, and the canonical bytes that are digested, counted against
  the evidence budget and stored. \<open>model_dump(mode="json")\<close> is the object of a model's fields with
  each enum replaced by its value. Failures of a pydantic model are \<open>ValueError\<close>s.
\<close>

datatype difference_kind = MISSING | EXTRA | MODIFIED

fun difference_kind_value :: "difference_kind \<Rightarrow> pystr" where
  "difference_kind_value MISSING = asc ''missing''"
| "difference_kind_value EXTRA = asc ''extra''"
| "difference_kind_value MODIFIED = asc ''modified''"

datatype evidence_value_availability = STORED | REDACTED

fun evidence_value_availability_value :: "evidence_value_availability \<Rightarrow> pystr" where
  "evidence_value_availability_value STORED = asc ''stored''"
| "evidence_value_availability_value REDACTED = asc ''redacted''"

datatype evidence_unavailable_reason = POLICY_REDACTED

definition evidence_unavailable_reason_value :: "evidence_unavailable_reason \<Rightarrow> pystr" where
  "evidence_unavailable_reason_value r = asc ''policy_redacted''"

datatype key_availability = KEY_AVAILABLE | KEYSET_UNAVAILABLE

fun key_availability_value :: "key_availability \<Rightarrow> pystr" where
  "key_availability_value KEY_AVAILABLE = asc ''available''"
| "key_availability_value KEYSET_UNAVAILABLE = asc ''keyset_unavailable''"

section \<open>Field values\<close>

record evidence_field_value =
  efv_field_name :: pystr
  efv_logical_type :: logical_type
  efv_decimal_precision :: "int option"
  efv_decimal_scale :: "int option"
  efv_timestamp_precision :: "int option"
  efv_raw_available :: bool
  efv_availability :: evidence_value_availability
  efv_is_null :: "bool option"
  efv_canonical_text :: "pystr option"
  efv_canonical_hex :: "pystr option"
  efv_unavailable_reason :: "evidence_unavailable_reason option"

text \<open>The pattern \<open>^(?:[0-9a-f]{2})*$\<close>.\<close>

definition is_hex_pairs :: "pystr \<Rightarrow> bool" where
  "is_hex_pairs s \<longleftrightarrow>
     (case ascii_text s of
        None \<Rightarrow> False
      | Some t \<Rightarrow> even (length t) \<and> list_all is_lower_hex t)"

definition optional_in :: "int \<Rightarrow> int \<Rightarrow> int option \<Rightarrow> bool" where
  "optional_in lo hi v \<longleftrightarrow> (case v of None \<Rightarrow> True | Some n \<Rightarrow> lo \<le> n \<and> n \<le> hi)"

definition validate_type_parameters :: "evidence_field_value \<Rightarrow> exn + unit" where
  "validate_type_parameters v =
     (if efv_logical_type v = DECIMAL then
        (case (efv_decimal_precision v, efv_decimal_scale v) of
           (Some precision, Some scale) \<Rightarrow>
             ebind (require (\<not> scale > precision) ValueError) (\<lambda>_.
             require (efv_timestamp_precision v = None) ValueError)
         | _ \<Rightarrow> Inl ValueError)
      else if efv_logical_type v \<in> {TIMESTAMP_LOCAL, TIMESTAMP_INSTANT} then
        ebind (require (efv_timestamp_precision v \<noteq> None) ValueError) (\<lambda>_.
        require (\<not> (efv_decimal_precision v \<noteq> None \<or> efv_decimal_scale v \<noteq> None)) ValueError)
      else
        require (\<not> (efv_decimal_precision v \<noteq> None \<or> efv_decimal_scale v \<noteq> None \<or>
          efv_timestamp_precision v \<noteq> None)) ValueError)"

definition validate_value :: "evidence_field_value \<Rightarrow> exn + unit" where
  "validate_value v =
     ebind (validate_type_parameters v) (\<lambda>_.
     if efv_availability v = STORED then
       ebind (require (efv_raw_available v) ValueError) (\<lambda>_.
       case efv_is_null v of
         None \<Rightarrow> Inl ValueError
       | Some is_null \<Rightarrow>
           ebind (require (efv_unavailable_reason v = None) ValueError) (\<lambda>_.
           let value_count = (if efv_canonical_text v \<noteq> None then 1 else 0) +
                 (if efv_canonical_hex v \<noteq> None then 1 else 0 :: int) in
           ebind (require (\<not> (is_null \<and> value_count \<noteq> 0)) ValueError) (\<lambda>_.
           require (\<not> (\<not> is_null \<and> value_count \<noteq> 1)) ValueError)))
     else
       ebind (require (\<not> (efv_raw_available v \<or> efv_is_null v \<noteq> None)) ValueError) (\<lambda>_.
       ebind (require (\<not> (efv_canonical_text v \<noteq> None \<or> efv_canonical_hex v \<noteq> None)) ValueError) (\<lambda>_.
       require (efv_unavailable_reason v = Some POLICY_REDACTED) ValueError)))"

definition mk_EvidenceFieldValue :: "evidence_field_value \<Rightarrow> exn + evidence_field_value" where
  "mk_EvidenceFieldValue v =
     ebind (require (efv_field_name v \<noteq> []) ValueError) (\<lambda>_.
     ebind (require (optional_in 1 38 (efv_decimal_precision v)) ValueError) (\<lambda>_.
     ebind (require (optional_in 0 38 (efv_decimal_scale v)) ValueError) (\<lambda>_.
     ebind (require (optional_in 0 9 (efv_timestamp_precision v)) ValueError) (\<lambda>_.
     ebind (require (case efv_canonical_hex v of None \<Rightarrow> True | Some h \<Rightarrow> is_hex_pairs h) ValueError) (\<lambda>_.
     ebind (validate_value v) (\<lambda>_. Inr v))))))"

definition optional_json :: "('a \<Rightarrow> jval) \<Rightarrow> 'a option \<Rightarrow> jval" where
  "optional_json f v = (case v of None \<Rightarrow> JNull | Some x \<Rightarrow> f x)"

definition evidence_field_value_dump :: "evidence_field_value \<Rightarrow> jval" where
  "evidence_field_value_dump v = JObj
     [(asc ''field_name'', JStr (efv_field_name v)),
      (asc ''logical_type'', JStr (logical_type_value (efv_logical_type v))),
      (asc ''decimal_precision'', optional_json JInt (efv_decimal_precision v)),
      (asc ''decimal_scale'', optional_json JInt (efv_decimal_scale v)),
      (asc ''timestamp_precision'', optional_json JInt (efv_timestamp_precision v)),
      (asc ''raw_available'', JBool (efv_raw_available v)),
      (asc ''availability'', JStr (evidence_value_availability_value (efv_availability v))),
      (asc ''is_null'', optional_json JBool (efv_is_null v)),
      (asc ''canonical_text'', optional_json JStr (efv_canonical_text v)),
      (asc ''canonical_hex'', optional_json JStr (efv_canonical_hex v)),
      (asc ''unavailable_reason'',
         optional_json (\<lambda>r. JStr (evidence_unavailable_reason_value r)) (efv_unavailable_reason v))]"

section \<open>Difference records\<close>

record difference_record =
  dr_sequence :: int
  dr_segment_sequence :: int
  dr_kind :: difference_kind
  dr_key_availability :: key_availability
  dr_key_digest :: "pystr option"
  dr_omitted_field_names :: "pystr list"
  dr_key_values :: "evidence_field_value list"
  dr_reference_values :: "evidence_field_value list"
  dr_target_values :: "evidence_field_value list"

definition require_unique_field_names :: "evidence_field_value list \<Rightarrow> exn + unit" where
  "require_unique_field_names values =
     (let names = map efv_field_name values in
      require (card (set names) = length names) ValueError)"

definition canonical_difference_key_bytes :: "evidence_field_value list \<Rightarrow> exn + bytes" where
  "canonical_difference_key_bytes key_values =
     ebind (require_unique_field_names key_values) (\<lambda>_.
     ebind (require (\<not> (key_values = [] \<or> list_ex (\<lambda>v. efv_availability v \<noteq> STORED) key_values))
       ValueError) (\<lambda>_.
     canonical_json_bytes
       (JObj [(asc ''key_values'', JArr (map evidence_field_value_dump key_values))])))"

definition sha256_hexdigest :: "bytes \<Rightarrow> pystr" where
  "sha256_hexdigest b = asc (bytes_hex (sha256 b))"

definition validate_key_availability :: "difference_record \<Rightarrow> exn + unit" where
  "validate_key_availability r =
     (if dr_key_availability r = KEY_AVAILABLE then
        ebind (require (\<not> (dr_key_values r = [] \<or>
          \<not> list_all (\<lambda>v. efv_availability v = STORED) (dr_key_values r))) ValueError) (\<lambda>_.
        case dr_key_digest r of
          None \<Rightarrow> Inl ValueError
        | Some key_digest \<Rightarrow>
            (case canonical_difference_key_bytes (dr_key_values r) of
               Inl e \<Rightarrow> Inl ValueError
             | Inr b \<Rightarrow> require (key_digest = sha256_hexdigest b) ValueError))
      else require (dr_key_digest r = None) ValueError)"

definition validate_record :: "difference_record \<Rightarrow> exn + unit" where
  "validate_record r =
     ebind (require_unique_field_names (dr_key_values r)) (\<lambda>_.
     ebind (require_unique_field_names (dr_reference_values r)) (\<lambda>_.
     ebind (require_unique_field_names (dr_target_values r)) (\<lambda>_.
     ebind (require (card (set (dr_omitted_field_names r)) = length (dr_omitted_field_names r))
       ValueError) (\<lambda>_.
     let represented_names = set (map efv_field_name
           (dr_key_values r @ dr_reference_values r @ dr_target_values r)) in
     ebind (require (represented_names \<inter> set (dr_omitted_field_names r) = {}) ValueError) (\<lambda>_.
     ebind (validate_key_availability r) (\<lambda>_.
     ebind (require (\<not> (dr_kind r = MISSING \<and> dr_target_values r \<noteq> [])) ValueError) (\<lambda>_.
     require (\<not> (dr_kind r = EXTRA \<and> dr_reference_values r \<noteq> [])) ValueError)))))))"

definition mk_DifferenceRecord :: "difference_record \<Rightarrow> exn + difference_record" where
  "mk_DifferenceRecord r =
     ebind (require (0 \<le> dr_sequence r) ValueError) (\<lambda>_.
     ebind (require (0 \<le> dr_segment_sequence r) ValueError) (\<lambda>_.
     ebind (require (case dr_key_digest r of None \<Rightarrow> True | Some d \<Rightarrow> is_sha256_hex d) ValueError) (\<lambda>_.
     ebind (check_all (\<lambda>n. require (n \<noteq> []) ValueError) (dr_omitted_field_names r)) (\<lambda>_.
     ebind (validate_record r) (\<lambda>_. Inr r)))))"

definition difference_record_dump :: "difference_record \<Rightarrow> jval" where
  "difference_record_dump r = JObj
     [(asc ''sequence'', JInt (dr_sequence r)),
      (asc ''segment_sequence'', JInt (dr_segment_sequence r)),
      (asc ''kind'', JStr (difference_kind_value (dr_kind r))),
      (asc ''key_availability'', JStr (key_availability_value (dr_key_availability r))),
      (asc ''key_digest'', optional_json JStr (dr_key_digest r)),
      (asc ''omitted_field_names'', JArr (map JStr (dr_omitted_field_names r))),
      (asc ''key_values'', JArr (map evidence_field_value_dump (dr_key_values r))),
      (asc ''reference_values'', JArr (map evidence_field_value_dump (dr_reference_values r))),
      (asc ''target_values'', JArr (map evidence_field_value_dump (dr_target_values r)))]"

definition canonical_difference_record_bytes :: "difference_record \<Rightarrow> exn + bytes" where
  "canonical_difference_record_bytes record = canonical_json_bytes (difference_record_dump record)"

section \<open>What an accepted record guarantees\<close>

lemma mk_EvidenceFieldValue_eq: "mk_EvidenceFieldValue v = Inr w \<Longrightarrow> w = v"
  by (auto simp: mk_EvidenceFieldValue_def result_iffs)

lemma mk_DifferenceRecord_eq: "mk_DifferenceRecord r = Inr s \<Longrightarrow> s = r"
  by (auto simp: mk_DifferenceRecord_def result_iffs)

lemma require_unique_field_names_iff:
  "require_unique_field_names vs = Inr u \<longleftrightarrow> distinct (map efv_field_name vs)"
  using distinct_card [of "map efv_field_name vs"] card_distinct [of "map efv_field_name vs"]
  by (auto simp: require_unique_field_names_def result_iffs Let_def)

text \<open>A redacted value carries no information about the row.\<close>

lemma redacted_value_hides:
  "mk_EvidenceFieldValue v = Inr w \<Longrightarrow> efv_availability v = REDACTED \<Longrightarrow>
   efv_is_null v = None \<and> efv_canonical_text v = None \<and> efv_canonical_hex v = None"
  by (auto simp: mk_EvidenceFieldValue_def validate_value_def result_iffs)

end
