(* ===== verification/Source_Budget.thy ===== *)
theory Source_Budget
  imports Run_Result
begin

text \<open>
  The whole-run source budget: \<open>ExecutionBudgets\<close> of \<open>src/forensic_data/contracts/model.py\<close> and the
  ledger, attempt and charge objects of \<open>src/forensic_data/postgres.py\<close>. The ledger is mutable and
  shared by all attempts of a run; every method body runs under its lock, so concurrent callers
  interleave whole operations. An operation takes the ledger and the readings of the monotonic
  clock it makes, in order, and returns its result and the ledger after it: a charge stays on the
  ledger when the operation raises. The step relation \<open>ledger_step\<close> is any of these operations
  with any arguments; the theorems hold along all of its runs.
\<close>

section \<open>Budgets\<close>

record execution_budgets =
  eb_version :: int
  eb_max_queries :: int
  eb_max_fetched_records :: int
  eb_max_application_result_bytes :: int
  eb_max_evidence_rows :: int
  eb_max_evidence_bytes :: int
  eb_max_fingerprint_nodes :: int
  eb_max_coordinator_memory_bytes :: int
  eb_max_depth :: int
  eb_max_full_scans_per_side :: int
  eb_statement_timeout_milliseconds :: int
  eb_run_timeout_milliseconds :: int
  eb_max_attempts :: int
  eb_max_checks_concurrency :: int
  eb_max_source_concurrency :: int

definition mk_ExecutionBudgets :: "execution_budgets \<Rightarrow> exn + execution_budgets" where
  "mk_ExecutionBudgets b =
     ebind (require (eb_version b = 1) ContractValidationError) (\<lambda>_.
     ebind (check_all (\<lambda>v. require (1 \<le> v) ContractValidationError)
       [eb_max_queries b, eb_max_fetched_records b, eb_max_application_result_bytes b,
        eb_max_fingerprint_nodes b, eb_max_coordinator_memory_bytes b,
        eb_statement_timeout_milliseconds b, eb_run_timeout_milliseconds b, eb_max_attempts b,
        eb_max_checks_concurrency b, eb_max_source_concurrency b]) (\<lambda>_.
     ebind (check_all (\<lambda>v. require (0 \<le> v) ContractValidationError)
       [eb_max_evidence_rows b, eb_max_evidence_bytes b, eb_max_depth b, eb_max_full_scans_per_side b]) (\<lambda>_.
     Inr b)))"

definition validate_positive_integer :: "int \<Rightarrow> exn + unit" where
  "validate_positive_integer v = require (\<not> v < 1) ValueError"

definition validate_nonnegative_integer :: "int \<Rightarrow> exn + unit" where
  "validate_nonnegative_integer v = require (\<not> v < 0) ValueError"

section \<open>Snapshots\<close>

record read_deadline =
  rd_statement_timeout_milliseconds :: int
  rd_deadline_nanoseconds :: int

definition mk_PostgresReadDeadline :: "int \<Rightarrow> int \<Rightarrow> exn + read_deadline" where
  "mk_PostgresReadDeadline statement_timeout deadline =
     ebind (validate_positive_integer statement_timeout) (\<lambda>_.
     ebind (validate_nonnegative_integer deadline) (\<lambda>_.
     Inr \<lparr>rd_statement_timeout_milliseconds = statement_timeout, rd_deadline_nanoseconds = deadline\<rparr>))"

record read_metrics =
  rdm_fetched_records :: int
  rdm_result_bytes :: int

definition mk_PostgresReadMetrics :: "int \<Rightarrow> int \<Rightarrow> exn + read_metrics" where
  "mk_PostgresReadMetrics fetched_records result_bytes =
     ebind (validate_nonnegative_integer fetched_records) (\<lambda>_.
     ebind (validate_nonnegative_integer result_bytes) (\<lambda>_.
     Inr \<lparr>rdm_fetched_records = fetched_records, rdm_result_bytes = result_bytes\<rparr>))"

record usage_snapshot =
  us_queries :: int
  us_fetched_records :: int
  us_result_bytes :: int
  us_reference_full_scans :: int
  us_target_full_scans :: int
  us_elapsed_milliseconds :: int

definition mk_PostgresSourceUsageSnapshot :: "usage_snapshot \<Rightarrow> exn + usage_snapshot" where
  "mk_PostgresSourceUsageSnapshot s =
     ebind (check_all validate_nonnegative_integer
       [us_queries s, us_fetched_records s, us_result_bytes s, us_reference_full_scans s,
        us_target_full_scans s, us_elapsed_milliseconds s]) (\<lambda>_. Inr s)"

record capacity_snapshot =
  cap_queries :: int
  cap_fetched_records :: int
  cap_result_bytes :: int
  cap_reference_full_scans :: int
  cap_target_full_scans :: int
  cap_deadline_nanoseconds :: int

definition mk_PostgresSourceCapacitySnapshot :: "capacity_snapshot \<Rightarrow> exn + capacity_snapshot" where
  "mk_PostgresSourceCapacitySnapshot s =
     ebind (check_all validate_nonnegative_integer
       [cap_queries s, cap_fetched_records s, cap_result_bytes s, cap_reference_full_scans s,
        cap_target_full_scans s, cap_deadline_nanoseconds s]) (\<lambda>_. Inr s)"

record source_usage =
  su_queries :: int
  su_fetched_records :: int
  su_result_bytes :: int
  su_reference_full_scans :: int
  su_target_full_scans :: int

definition elapsed_milliseconds_since :: "int \<Rightarrow> int \<Rightarrow> int" where
  "elapsed_milliseconds_since started now = max 0 ((now - started) div 1000000)"

definition source_usage_snapshot :: "source_usage \<Rightarrow> int \<Rightarrow> exn + usage_snapshot" where
  "source_usage_snapshot u elapsed =
     mk_PostgresSourceUsageSnapshot
       \<lparr>us_queries = su_queries u, us_fetched_records = su_fetched_records u,
        us_result_bytes = su_result_bytes u, us_reference_full_scans = su_reference_full_scans u,
        us_target_full_scans = su_target_full_scans u, us_elapsed_milliseconds = elapsed\<rparr>"

section \<open>The ledger\<close>

datatype source_direction = REFERENCE | TARGET

record ledger =
  lg_budgets :: execution_budgets
  lg_started :: int
  lg_deadline :: int
  lg_usage :: source_usage
  lg_attempt_ids :: "uuid set"

record attempt =
  at_attempt_id :: uuid
  at_baseline :: usage_snapshot
  at_started :: int

definition new_ledger :: "execution_budgets \<Rightarrow> int \<Rightarrow> ledger" where
  "new_ledger budgets now =
     \<lparr>lg_budgets = budgets, lg_started = now,
      lg_deadline = now + eb_run_timeout_milliseconds budgets * 1000000,
      lg_usage = \<lparr>su_queries = 0, su_fetched_records = 0, su_result_bytes = 0,
        su_reference_full_scans = 0, su_target_full_scans = 0\<rparr>,
      lg_attempt_ids = {}\<rparr>"

definition start_attempt :: "uuid \<Rightarrow> int \<Rightarrow> int \<Rightarrow> ledger \<Rightarrow> (exn + attempt) \<times> ledger" where
  "start_attempt attempt_id now now' l =
     (if attempt_id \<in> lg_attempt_ids l then (Inl ValueError, l)
      else
        (let l' = l\<lparr>lg_attempt_ids := insert attempt_id (lg_attempt_ids l)\<rparr> in
         (ebind (source_usage_snapshot (lg_usage l') (elapsed_milliseconds_since (lg_started l') now)) (\<lambda>baseline.
            Inr \<lparr>at_attempt_id = attempt_id, at_baseline = baseline, at_started = now'\<rparr>), l')))"

definition ledger_snapshot :: "int \<Rightarrow> ledger \<Rightarrow> exn + usage_snapshot" where
  "ledger_snapshot now l = source_usage_snapshot (lg_usage l) (elapsed_milliseconds_since (lg_started l) now)"

definition remaining :: "ledger \<Rightarrow> exn + capacity_snapshot" where
  "remaining l =
     (let b = lg_budgets l; u = lg_usage l in
      mk_PostgresSourceCapacitySnapshot
        \<lparr>cap_queries = max 0 (eb_max_queries b - su_queries u),
         cap_fetched_records = max 0 (eb_max_fetched_records b - su_fetched_records u),
         cap_result_bytes = max 0 (eb_max_application_result_bytes b - su_result_bytes u),
         cap_reference_full_scans = max 0 (eb_max_full_scans_per_side b - su_reference_full_scans u),
         cap_target_full_scans = max 0 (eb_max_full_scans_per_side b - su_target_full_scans u),
         cap_deadline_nanoseconds = lg_deadline l\<rparr>)"

definition require_source_deadline :: "int \<Rightarrow> int \<Rightarrow> exn + unit" where
  "require_source_deadline deadline now = require (\<not> now \<ge> deadline) PostgresReadDeadlineExceededError"

text \<open>The checks of \<open>dispatch_query\<close> and the usage it charges.\<close>

definition dispatch_usage :: "source_direction \<Rightarrow> int \<Rightarrow> int \<Rightarrow> ledger \<Rightarrow> exn + source_usage" where
  "dispatch_usage direction full_scans now l =
     (let b = lg_budgets l; u = lg_usage l in
      ebind (validate_nonnegative_integer full_scans) (\<lambda>_.
      ebind (require_source_deadline (lg_deadline l) now) (\<lambda>_.
      ebind (require (\<not> su_queries u \<ge> eb_max_queries b) PostgresSourceBudgetExceededError) (\<lambda>_.
      ebind (case direction of
               REFERENCE \<Rightarrow>
                 ebind (require (\<not> su_reference_full_scans u + full_scans > eb_max_full_scans_per_side b)
                   PostgresSourceBudgetExceededError) (\<lambda>_.
                 Inr (u\<lparr>su_reference_full_scans := su_reference_full_scans u + full_scans\<rparr>))
             | TARGET \<Rightarrow>
                 ebind (require (\<not> su_target_full_scans u + full_scans > eb_max_full_scans_per_side b)
                   PostgresSourceBudgetExceededError) (\<lambda>_.
                 Inr (u\<lparr>su_target_full_scans := su_target_full_scans u + full_scans\<rparr>))) (\<lambda>u'.
      Inr (u'\<lparr>su_queries := su_queries u' + 1\<rparr>))))))"

definition dispatch_query :: "source_direction \<Rightarrow> int \<Rightarrow> int \<Rightarrow> ledger \<Rightarrow> (exn + unit) \<times> ledger" where
  "dispatch_query direction full_scans now l =
     (case dispatch_usage direction full_scans now l of
        Inl e \<Rightarrow> (Inl e, l)
      | Inr u \<Rightarrow> (Inr (), l\<lparr>lg_usage := u\<rparr>))"

definition consume_records :: "int list \<Rightarrow> int \<Rightarrow> ledger \<Rightarrow> (exn + unit) \<times> ledger" where
  "consume_records record_bytes now l =
     (case check_all validate_nonnegative_integer record_bytes of
        Inl e \<Rightarrow> (Inl e, l)
      | Inr _ \<Rightarrow>
          (let b = lg_budgets l; u = lg_usage l;
               u' = u\<lparr>su_fetched_records := su_fetched_records u + int (length record_bytes),
                     su_result_bytes := su_result_bytes u + sum_list record_bytes\<rparr>
           in (ebind (require (\<not> now \<ge> lg_deadline l) PostgresReadDeadlineExceededError) (\<lambda>_.
               ebind (require (\<not> su_fetched_records u' > eb_max_fetched_records b)
                 PostgresSourceBudgetExceededError) (\<lambda>_.
               require (\<not> su_result_bytes u' > eb_max_application_result_bytes b)
                 PostgresSourceBudgetExceededError)),
               l\<lparr>lg_usage := u'\<rparr>)))"

definition consume_record :: "int \<Rightarrow> int \<Rightarrow> ledger \<Rightarrow> (exn + unit) \<times> ledger" where
  "consume_record record_bytes = consume_records [record_bytes]"

definition consume_observed_result_bytes :: "int \<Rightarrow> int \<Rightarrow> ledger \<Rightarrow> (exn + unit) \<times> ledger" where
  "consume_observed_result_bytes result_bytes now l =
     (case validate_nonnegative_integer result_bytes of
        Inl e \<Rightarrow> (Inl e, l)
      | Inr _ \<Rightarrow>
          (let b = lg_budgets l; u = lg_usage l;
               u' = u\<lparr>su_result_bytes := su_result_bytes u + result_bytes\<rparr>
           in (ebind (require (\<not> now \<ge> lg_deadline l) PostgresReadDeadlineExceededError) (\<lambda>_.
               require (\<not> su_result_bytes u' > eb_max_application_result_bytes b)
                 PostgresSourceBudgetExceededError),
               l\<lparr>lg_usage := u'\<rparr>)))"

definition require_result_fetch_deadline :: "int \<Rightarrow> ledger \<Rightarrow> exn + unit" where
  "require_result_fetch_deadline now l = require_source_deadline (lg_deadline l) now"

definition effective_statement_timeout_milliseconds :: "int \<Rightarrow> ledger \<Rightarrow> exn + int" where
  "effective_statement_timeout_milliseconds now l =
     (let remaining_nanoseconds = lg_deadline l - now in
      ebind (require (\<not> remaining_nanoseconds \<le> 0) PostgresReadDeadlineExceededError) (\<lambda>_.
      let remaining_milliseconds = max 1 (remaining_nanoseconds div 1000000)
      in Inr (min (eb_statement_timeout_milliseconds (lg_budgets l)) remaining_milliseconds)))"

definition attempt_snapshot :: "attempt \<Rightarrow> int \<Rightarrow> int \<Rightarrow> ledger \<Rightarrow> exn + usage_snapshot" where
  "attempt_snapshot a now now' l =
     ebind (ledger_snapshot now l) (\<lambda>current.
     mk_PostgresSourceUsageSnapshot
       \<lparr>us_queries = us_queries current - us_queries (at_baseline a),
        us_fetched_records = us_fetched_records current - us_fetched_records (at_baseline a),
        us_result_bytes = us_result_bytes current - us_result_bytes (at_baseline a),
        us_reference_full_scans = us_reference_full_scans current - us_reference_full_scans (at_baseline a),
        us_target_full_scans = us_target_full_scans current - us_target_full_scans (at_baseline a),
        us_elapsed_milliseconds = elapsed_milliseconds_since (at_started a) now'\<rparr>)"

definition attempt_read_deadline :: "int \<Rightarrow> ledger \<Rightarrow> exn + read_deadline" where
  "attempt_read_deadline statement_timeout l =
     ebind (validate_positive_integer statement_timeout) (\<lambda>_.
     mk_PostgresReadDeadline statement_timeout (lg_deadline l))"

section \<open>Runs of the ledger\<close>

inductive ledger_step :: "ledger \<Rightarrow> ledger \<Rightarrow> bool" where
  start: "start_attempt i now now' l = (r, l') \<Longrightarrow> ledger_step l l'"
| dispatch: "dispatch_query d n now l = (r, l') \<Longrightarrow> ledger_step l l'"
| records: "consume_records bs now l = (r, l') \<Longrightarrow> ledger_step l l'"
| observed: "consume_observed_result_bytes b now l = (r, l') \<Longrightarrow> ledger_step l l'"

definition usage_le :: "source_usage \<Rightarrow> source_usage \<Rightarrow> bool" where
  "usage_le u v \<longleftrightarrow>
     su_queries u \<le> su_queries v \<and> su_fetched_records u \<le> su_fetched_records v \<and>
     su_result_bytes u \<le> su_result_bytes v \<and> su_reference_full_scans u \<le> su_reference_full_scans v \<and>
     su_target_full_scans u \<le> su_target_full_scans v"

definition ledger_ok :: "ledger \<Rightarrow> bool" where
  "ledger_ok l \<longleftrightarrow>
     (let u = lg_usage l; b = lg_budgets l in
      0 \<le> su_fetched_records u \<and> 0 \<le> su_result_bytes u \<and>
      0 \<le> su_queries u \<and> su_queries u \<le> eb_max_queries b \<and>
      0 \<le> su_reference_full_scans u \<and> su_reference_full_scans u \<le> eb_max_full_scans_per_side b \<and>
      0 \<le> su_target_full_scans u \<and> su_target_full_scans u \<le> eb_max_full_scans_per_side b \<and>
      lg_deadline l = lg_started l + eb_run_timeout_milliseconds b * 1000000)"

definition same_frame :: "ledger \<Rightarrow> ledger \<Rightarrow> bool" where
  "same_frame l l' \<longleftrightarrow>
     lg_budgets l' = lg_budgets l \<and> lg_deadline l' = lg_deadline l \<and> lg_started l' = lg_started l"

lemma start_attempt_frame:
  "start_attempt i now now' l = (r, l') \<Longrightarrow>
   lg_usage l' = lg_usage l \<and> same_frame l l'"
  by (auto simp: start_attempt_def same_frame_def Let_def split: if_splits)

lemma dispatch_query_cases:
  assumes "dispatch_query d n now l = (r, l')"
  obtains (refused) e where "r = Inl e" "l' = l"
    | (charged) "r = Inr ()" "0 \<le> n" "now < lg_deadline l" "su_queries (lg_usage l) < eb_max_queries (lg_budgets l)"
        "same_frame l l'" "su_queries (lg_usage l') = su_queries (lg_usage l) + 1"
        "su_fetched_records (lg_usage l') = su_fetched_records (lg_usage l)"
        "su_result_bytes (lg_usage l') = su_result_bytes (lg_usage l)"
        "su_reference_full_scans (lg_usage l') = su_reference_full_scans (lg_usage l) + (if d = REFERENCE then n else 0)"
        "su_target_full_scans (lg_usage l') = su_target_full_scans (lg_usage l) + (if d = TARGET then n else 0)"
        "d = REFERENCE \<longrightarrow> su_reference_full_scans (lg_usage l') \<le> eb_max_full_scans_per_side (lg_budgets l)"
        "d = TARGET \<longrightarrow> su_target_full_scans (lg_usage l') \<le> eb_max_full_scans_per_side (lg_budgets l)"
proof (cases "dispatch_usage d n now l")
  case (Inl e)
  then show ?thesis using assms refused [of e] by (simp add: dispatch_query_def)
next
  case (Inr u)
  then have l': "l' = l\<lparr>lg_usage := u\<rparr>" "r = Inr ()" using assms by (simp_all add: dispatch_query_def)
  have pre: "0 \<le> n" "now < lg_deadline l" "su_queries (lg_usage l) < eb_max_queries (lg_budgets l)"
    using Inr by (auto simp: dispatch_usage_def Let_def validate_nonnegative_integer_def require_source_deadline_def result_iffs)
  show ?thesis
    by (rule charged)
      (use Inr pre in \<open>(cases d; auto simp: l' same_frame_def dispatch_usage_def Let_def result_iffs)+\<close>)
qed

lemma check_all_nonneg: "check_all validate_nonnegative_integer bs = Inr u \<longleftrightarrow> (\<forall>b \<in> set bs. 0 \<le> b)"
  by (auto simp: check_all_eq_Inr_iff validate_nonnegative_integer_def result_iffs)

lemma sum_list_nonneg_int: "\<forall>b \<in> set bs. 0 \<le> (b :: int) \<Longrightarrow> 0 \<le> sum_list bs"
  by (induction bs) auto

lemma consume_records_cases:
  assumes "consume_records bs now l = (r, l')"
  obtains (invalid) e where "r = Inl e" "l' = l" "\<not> (\<forall>b \<in> set bs. 0 \<le> b)"
    | (charged) "\<forall>b \<in> set bs. 0 \<le> b" "same_frame l l'"
        "lg_usage l' = (lg_usage l)\<lparr>su_fetched_records := su_fetched_records (lg_usage l) + int (length bs),
           su_result_bytes := su_result_bytes (lg_usage l) + sum_list bs\<rparr>"
        "r = Inr () \<longleftrightarrow> now < lg_deadline l \<and> su_fetched_records (lg_usage l') \<le> eb_max_fetched_records (lg_budgets l) \<and>
           su_result_bytes (lg_usage l') \<le> eb_max_application_result_bytes (lg_budgets l)"
proof (cases "check_all validate_nonnegative_integer bs")
  case (Inl e)
  then have "\<not> (\<forall>b \<in> set bs. 0 \<le> b)" using check_all_nonneg [of bs "()"] by simp
  then show ?thesis using assms Inl invalid [of e] by (auto simp: consume_records_def)
next
  case (Inr u)
  then show ?thesis
    using assms charged check_all_nonneg [of bs u]
    by (auto simp: consume_records_def same_frame_def Let_def result_iffs not_le not_less)
qed

lemma consume_observed_cases:
  assumes "consume_observed_result_bytes n now l = (r, l')"
  obtains (invalid) e where "r = Inl e" "l' = l" "n < 0"
    | (charged) "0 \<le> n" "same_frame l l'"
        "lg_usage l' = (lg_usage l)\<lparr>su_result_bytes := su_result_bytes (lg_usage l) + n\<rparr>"
        "r = Inr () \<longleftrightarrow> now < lg_deadline l \<and>
           su_result_bytes (lg_usage l') \<le> eb_max_application_result_bytes (lg_budgets l)"
  using assms
  by (auto simp: consume_observed_result_bytes_def validate_nonnegative_integer_def Let_def result_iffs
      same_frame_def not_le not_less split: sum.splits)

lemma ledger_step_frame:
  assumes "ledger_step l l'"
  shows "usage_le (lg_usage l) (lg_usage l') \<and> same_frame l l'"
  using assms
proof cases
  case (start i now now' r)
  then show ?thesis using start_attempt_frame by (auto simp: usage_le_def)
next
  case (dispatch d n now r)
  then show ?thesis
    by (elim dispatch_query_cases) (auto simp: usage_le_def same_frame_def split: if_splits)
next
  case (records bs now r)
  then show ?thesis
    by (elim consume_records_cases) (auto simp: usage_le_def same_frame_def sum_list_nonneg_int)
next
  case (observed b now r)
  then show ?thesis
    by (elim consume_observed_cases) (auto simp: usage_le_def same_frame_def split: if_splits)
qed

lemma usage_le_trans: "usage_le u v \<Longrightarrow> usage_le v w \<Longrightarrow> usage_le u w"
  and usage_le_refl: "usage_le u u"
  by (auto simp: usage_le_def)

lemma ledger_steps_frame: "ledger_step\<^sup>*\<^sup>* l l' \<Longrightarrow> usage_le (lg_usage l) (lg_usage l') \<and> same_frame l l'"
proof (induction rule: rtranclp_induct)
  case base
  then show ?case by (simp add: usage_le_refl same_frame_def)
next
  case (step m n)
  then show ?case using ledger_step_frame [of m n] usage_le_trans by (auto simp: same_frame_def)
qed

lemma new_ledger_ok: "mk_ExecutionBudgets b = Inr b \<Longrightarrow> ledger_ok (new_ledger b now)"
  by (auto simp: ledger_ok_def new_ledger_def mk_ExecutionBudgets_def check_all_eq_Inr_iff result_iffs)

lemma ledger_ok_step:
  assumes "ledger_step l l'" "ledger_ok l"
  shows "ledger_ok l'"
  using assms(1)
proof cases
  case (start i now now' r)
  then show ?thesis using start_attempt_frame [of i now now' l r l'] assms(2) by (simp add: ledger_ok_def same_frame_def)
next
  case (dispatch d n now r)
  then show ?thesis
    using assms(2) by (elim dispatch_query_cases) (auto simp: ledger_ok_def Let_def same_frame_def split: if_splits)
next
  case (records bs now r)
  then show ?thesis
    using assms(2) by (elim consume_records_cases) (auto simp: ledger_ok_def Let_def same_frame_def sum_list_nonneg_int)
next
  case (observed b now r)
  then show ?thesis
    using assms(2) by (elim consume_observed_cases) (auto simp: ledger_ok_def Let_def same_frame_def)
qed

lemma ledger_ok_steps: "ledger_step\<^sup>*\<^sup>* l l' \<Longrightarrow> ledger_ok l \<Longrightarrow> ledger_ok l'"
  by (induction rule: rtranclp_induct) (auto intro: ledger_ok_step)

section \<open>Properties\<close>

text \<open>(C38) Whatever operations run in whatever interleaving and however often they raise, a ledger never has
  dispatched more queries, nor more full scans of either side, than its budgets allow.\<close>

theorem ledger_dispatch_within_budget:
  assumes "mk_ExecutionBudgets b = Inr b" "ledger_step\<^sup>*\<^sup>* (new_ledger b now) l"
  shows "su_queries (lg_usage l) \<le> eb_max_queries b \<and>
    su_reference_full_scans (lg_usage l) \<le> eb_max_full_scans_per_side b \<and>
    su_target_full_scans (lg_usage l) \<le> eb_max_full_scans_per_side b"
  using ledger_ok_steps [OF assms(2) new_ledger_ok [OF assms(1)]] ledger_steps_frame [OF assms(2)]
  by (auto simp: ledger_ok_def same_frame_def new_ledger_def Let_def)

text \<open>(C39) Overruns cannot be forgotten, in any attempt of the run. Once its result bytes exceed their budget, every later charge
  of records or observed bytes raises; once its records exceed theirs, every charge of records; once its queries are used up,
  every dispatch; and after its deadline every charge, every dispatch, every fetch and every request for a statement timeout.\<close>

theorem ledger_overrun_is_permanent:
  assumes "ledger_step\<^sup>*\<^sup>* l l'"
  shows "(eb_max_application_result_bytes (lg_budgets l) < su_result_bytes (lg_usage l) \<longrightarrow>
      fst (consume_records bs now l') \<noteq> Inr () \<and> fst (consume_observed_result_bytes n now l') \<noteq> Inr ()) \<and>
    (eb_max_fetched_records (lg_budgets l) < su_fetched_records (lg_usage l) \<longrightarrow> fst (consume_records bs now l') \<noteq> Inr ()) \<and>
    (eb_max_queries (lg_budgets l) \<le> su_queries (lg_usage l) \<longrightarrow> fst (dispatch_query d k now l') \<noteq> Inr ()) \<and>
    (lg_deadline l \<le> now \<longrightarrow>
      fst (consume_records bs now l') \<noteq> Inr () \<and> fst (consume_observed_result_bytes n now l') \<noteq> Inr () \<and>
      fst (dispatch_query d k now l') \<noteq> Inr () \<and> require_result_fetch_deadline now l' \<noteq> Inr () \<and>
      effective_statement_timeout_milliseconds now l' = Inl PostgresReadDeadlineExceededError)"
proof -
  have f: "su_result_bytes (lg_usage l) \<le> su_result_bytes (lg_usage l')" "su_fetched_records (lg_usage l) \<le> su_fetched_records (lg_usage l')"
    "su_queries (lg_usage l) \<le> su_queries (lg_usage l')" "lg_budgets l' = lg_budgets l" "lg_deadline l' = lg_deadline l"
    using ledger_steps_frame [OF assms(1)] by (auto simp: usage_le_def same_frame_def)
  have records: "now < lg_deadline l \<and> su_fetched_records (lg_usage l) \<le> eb_max_fetched_records (lg_budgets l) \<and>
      su_result_bytes (lg_usage l) \<le> eb_max_application_result_bytes (lg_budgets l)" if ok: "fst (consume_records bs now l') = Inr ()"
  proof -
    obtain m where "consume_records bs now l' = (Inr (), m)" using ok by (metis prod.collapse)
    then show ?thesis by (rule consume_records_cases) (use f sum_list_nonneg_int [of bs] in auto)
  qed
  have observed: "now < lg_deadline l \<and> su_result_bytes (lg_usage l) \<le> eb_max_application_result_bytes (lg_budgets l)"
    if ok: "fst (consume_observed_result_bytes n now l') = Inr ()"
  proof -
    obtain m where "consume_observed_result_bytes n now l' = (Inr (), m)" using ok by (metis prod.collapse)
    then show ?thesis by (rule consume_observed_cases) (use f in auto)
  qed
  have dispatched: "now < lg_deadline l \<and> su_queries (lg_usage l) < eb_max_queries (lg_budgets l)"
    if ok: "fst (dispatch_query d k now l') = Inr ()"
  proof -
    obtain m where "dispatch_query d k now l' = (Inr (), m)" using ok by (metis prod.collapse)
    then show ?thesis by (rule dispatch_query_cases) (use f in \<open>auto simp: dispatch_query_def\<close>)
  qed
  have "require_result_fetch_deadline now l' = Inr () \<Longrightarrow> now < lg_deadline l"
    using f by (auto simp: require_result_fetch_deadline_def require_source_deadline_def result_iffs)
  moreover have "lg_deadline l \<le> now \<Longrightarrow> effective_statement_timeout_milliseconds now l' = Inl PostgresReadDeadlineExceededError"
    using f by (simp add: effective_statement_timeout_milliseconds_def Let_def ebind_def require_def)
  ultimately show ?thesis using records observed dispatched by fastforce
qed

text \<open>(C40) An attempt sees its own work only: after any further operations its snapshot succeeds and is, in all five
  counters, the usage of the ledger minus the usage when the attempt started, which is never negative, with the whole milliseconds
  since then.\<close>

theorem attempt_snapshot_is_own_usage:
  assumes "ledger_ok l" "start_attempt i t1 t2 l = (Inr a, l1)" "ledger_step\<^sup>*\<^sup>* l1 l2"
  shows "let u = lg_usage l; u' = lg_usage l2 in
    usage_le u u' \<and>
    attempt_snapshot a t3 t4 l2 = Inr
      \<lparr>us_queries = su_queries u' - su_queries u, us_fetched_records = su_fetched_records u' - su_fetched_records u,
       us_result_bytes = su_result_bytes u' - su_result_bytes u,
       us_reference_full_scans = su_reference_full_scans u' - su_reference_full_scans u,
       us_target_full_scans = su_target_full_scans u' - su_target_full_scans u,
       us_elapsed_milliseconds = (if t4 < t2 then 0 else (t4 - t2) div 1000000)\<rparr>"
proof -
  have f1: "lg_usage l1 = lg_usage l" "same_frame l l1" using start_attempt_frame [OF assms(2)] by auto
  have f2: "usage_le (lg_usage l) (lg_usage l2)" using ledger_steps_frame [OF assms(3)] f1 by simp
  have ok2: "ledger_ok l2"
    using ledger_ok_steps [OF assms(3)] f1 assms(1) by (simp add: ledger_ok_def same_frame_def)
  have base: "us_queries (at_baseline a) = su_queries (lg_usage l)"
    "us_fetched_records (at_baseline a) = su_fetched_records (lg_usage l)"
    "us_result_bytes (at_baseline a) = su_result_bytes (lg_usage l)"
    "us_reference_full_scans (at_baseline a) = su_reference_full_scans (lg_usage l)"
    "us_target_full_scans (at_baseline a) = su_target_full_scans (lg_usage l)" "at_started a = t2"
    using assms(2)
    by (auto simp: start_attempt_def Let_def result_iffs source_usage_snapshot_def mk_PostgresSourceUsageSnapshot_def
        split: if_splits)
  obtain s0 where s0: "ledger_snapshot t3 l2 = Inr s0" "us_queries s0 = su_queries (lg_usage l2)"
    "us_fetched_records s0 = su_fetched_records (lg_usage l2)" "us_result_bytes s0 = su_result_bytes (lg_usage l2)"
    "us_reference_full_scans s0 = su_reference_full_scans (lg_usage l2)"
    "us_target_full_scans s0 = su_target_full_scans (lg_usage l2)"
    using ok2
    by (auto simp: ledger_snapshot_def source_usage_snapshot_def mk_PostgresSourceUsageSnapshot_def check_all_eq_Inr_iff
        validate_nonnegative_integer_def ledger_ok_def Let_def elapsed_milliseconds_since_def not_less)
  have elapsed: "elapsed_milliseconds_since t2 t4 = (if t4 < t2 then 0 else (t4 - t2) div 1000000)"
    by (simp add: elapsed_milliseconds_since_def max_def div_int_pos_iff not_less)
  have "0 \<le> elapsed_milliseconds_since t2 t4" by (simp add: elapsed_milliseconds_since_def)
  then show ?thesis
    using s0 f2 base
    by (simp add: Let_def usage_le_def attempt_snapshot_def mk_PostgresSourceUsageSnapshot_def validate_nonnegative_integer_def
        elapsed [symmetric])
qed

text \<open>The statement timeout handed to a query is positive, at most the configured one, and does not outlive the
  deadline unless less than a millisecond is left; after the deadline there is none.\<close>

theorem effective_timeout_within_deadline:
  assumes "ledger_ok l" "mk_ExecutionBudgets (lg_budgets l) = Inr (lg_budgets l)"
  shows "effective_statement_timeout_milliseconds now l =
      (if lg_deadline l \<le> now then Inl PostgresReadDeadlineExceededError
       else Inr (min (eb_statement_timeout_milliseconds (lg_budgets l)) (max 1 ((lg_deadline l - now) div 1000000)))) \<and>
    (\<forall>t. effective_statement_timeout_milliseconds now l = Inr t \<longrightarrow>
       1 \<le> t \<and> t \<le> eb_statement_timeout_milliseconds (lg_budgets l) \<and> (t = 1 \<or> now + t * 1000000 \<le> lg_deadline l))"
proof -
  have "1 \<le> eb_statement_timeout_milliseconds (lg_budgets l)"
    using assms(2) by (auto simp: mk_ExecutionBudgets_def check_all_eq_Inr_iff result_iffs)
  moreover have "(lg_deadline l - now) div 1000000 * 1000000 \<le> lg_deadline l - now"
    by (simp add: minus_mod_eq_div_mult [symmetric])
  ultimately show ?thesis
    by (auto simp: effective_statement_timeout_milliseconds_def Let_def result_iffs min_def max_def)
qed

definition example_budgets :: execution_budgets where
  "example_budgets =
     \<lparr>eb_version = 1, eb_max_queries = 10, eb_max_fetched_records = 100, eb_max_application_result_bytes = 1000,
      eb_max_evidence_rows = 5, eb_max_evidence_bytes = 500, eb_max_fingerprint_nodes = 64,
      eb_max_coordinator_memory_bytes = 1000000, eb_max_depth = 8, eb_max_full_scans_per_side = 2,
      eb_statement_timeout_milliseconds = 1000, eb_run_timeout_milliseconds = 60000, eb_max_attempts = 2,
      eb_max_checks_concurrency = 1, eb_max_source_concurrency = 1\<rparr>"

lemma example_budgets_accepted: "mk_ExecutionBudgets example_budgets = Inr example_budgets" by code_simp

theorem ledger_dispatch_within_budget_witness:
  "su_queries (lg_usage (snd (dispatch_query REFERENCE 1 5 (new_ledger example_budgets 0)))) \<le> eb_max_queries example_budgets"
proof -
  obtain r l where l: "dispatch_query REFERENCE 1 5 (new_ledger example_budgets 0) = (r, l)"
    by (cases "dispatch_query REFERENCE 1 5 (new_ledger example_budgets 0)") auto
  then have "ledger_step\<^sup>*\<^sup>* (new_ledger example_budgets 0) l" by (auto intro: ledger_step.dispatch)
  from ledger_dispatch_within_budget [OF example_budgets_accepted this] show ?thesis by (simp add: l)
qed

theorem ledger_overrun_is_permanent_witness:
  "fst (consume_records [2] 5 (snd (dispatch_query TARGET 0 5 (snd (consume_records [1001] 5 (new_ledger example_budgets 0)))))) \<noteq> Inr ()"
proof -
  define l where "l = snd (consume_records [1001] 5 (new_ledger example_budgets 0))"
  have over: "eb_max_application_result_bytes (lg_budgets l) < su_result_bytes (lg_usage l)"
    unfolding l_def by code_simp
  have "ledger_step\<^sup>*\<^sup>* l (snd (dispatch_query TARGET 0 5 l))" using surjective_pairing by (blast intro: ledger_step.dispatch)
  from ledger_overrun_is_permanent [OF this, THEN conjunct1] over show ?thesis unfolding l_def by blast
qed

theorem attempt_snapshot_is_own_usage_witness:
  "\<exists>a l1 s. start_attempt 7 1 2 (new_ledger example_budgets 0) = (Inr a, l1) \<and>
    attempt_snapshot a 3 4000002 (snd (dispatch_query TARGET 1 5 l1)) = Inr s \<and> us_queries s = 1 \<and> us_elapsed_milliseconds s = 4"
proof -
  obtain a l1 where s: "start_attempt 7 1 2 (new_ledger example_budgets 0) = (Inr a, l1)"
    using that by (simp add: start_attempt_def new_ledger_def source_usage_snapshot_def mk_PostgresSourceUsageSnapshot_def
        validate_nonnegative_integer_def elapsed_milliseconds_since_def)
  have l1: "lg_usage l1 = lg_usage (new_ledger example_budgets 0)" "same_frame (new_ledger example_budgets 0) l1"
    using start_attempt_frame [OF s] by auto
  then have queries: "su_queries (lg_usage (snd (dispatch_query TARGET 1 5 l1))) = 1" "su_queries (lg_usage (new_ledger example_budgets 0)) = 0"
    by (auto simp: dispatch_query_def dispatch_usage_def same_frame_def new_ledger_def example_budgets_def Let_def
        validate_nonnegative_integer_def require_source_deadline_def)
  have "ledger_step\<^sup>*\<^sup>* l1 (snd (dispatch_query TARGET 1 5 l1))" using surjective_pairing by (blast intro: ledger_step.dispatch)
  from attempt_snapshot_is_own_usage [OF new_ledger_ok [OF example_budgets_accepted] s this, of 3 4000002] s queries
  show ?thesis by (simp add: Let_def)
qed

theorem effective_timeout_within_deadline_witness:
  "effective_statement_timeout_milliseconds 0 (new_ledger example_budgets 0) = Inr 1000"
proof -
  have l: "lg_budgets (new_ledger example_budgets 0) = example_budgets" by (simp add: new_ledger_def)
  have v: "lg_deadline (new_ledger example_budgets 0) = 60000000000" "eb_statement_timeout_milliseconds example_budgets = 1000"
    by code_simp+
  show ?thesis
    using effective_timeout_within_deadline [OF new_ledger_ok [OF example_budgets_accepted], of 0 0, unfolded l v,
        OF example_budgets_accepted, THEN conjunct1] by simp
qed

end
