(* ===== verification/Effects.thy ===== *)
theory Effects
  imports Prelude
begin

text \<open>
  Sequencing of code that runs against the outside world (the clock, the database sessions, the
  shared ledger) and may raise: a computation maps a world to a result or an exception, and the
  world after it. \<open>keeps R m\<close> says that every run of \<open>m\<close>, successful or not, relates the worlds before
  and after it by \<open>R\<close>; for a reflexive and transitive \<open>R\<close> it is closed under sequencing. \<open>raises P m\<close>
  bounds the exceptions of \<open>m\<close>.
\<close>

named_theorems keeps_intros \<open>computations that keep a relation on worlds\<close>

type_synonym ('w, 'e, 'a) eff = "'w \<Rightarrow> ('e + 'a) \<times> 'w"

definition wreturn :: "'a \<Rightarrow> ('w, 'e, 'a) eff" where
  "wreturn x = (\<lambda>w. (Inr x, w))"

definition wraise :: "'e \<Rightarrow> ('w, 'e, 'a) eff" where
  "wraise e = (\<lambda>w. (Inl e, w))"

definition wbind :: "('w, 'e, 'a) eff \<Rightarrow> ('a \<Rightarrow> ('w, 'e, 'b) eff) \<Rightarrow> ('w, 'e, 'b) eff" where
  "wbind m k = (\<lambda>w. case m w of (Inl e, w') \<Rightarrow> (Inl e, w') | (Inr x, w') \<Rightarrow> k x w')"

definition wlift :: "'e + 'a \<Rightarrow> ('w, 'e, 'a) eff" where
  "wlift r = (\<lambda>w. (r, w))"

definition wrequire :: "bool \<Rightarrow> 'e \<Rightarrow> ('w, 'e, unit) eff" where
  "wrequire c e = (if c then wreturn () else wraise e)"

lemma wreturn_apply [simp]: "wreturn x w = (Inr x, w)"
  and wraise_apply [simp]: "wraise e w = (Inl e, w)"
  and wlift_apply [simp]: "wlift r w = (r, w)"
  and wrequire_apply [simp]: "wrequire c e w = (if c then (Inr (), w) else (Inl e, w))"
  by (simp_all add: wreturn_def wraise_def wlift_def wrequire_def)

lemma wbind_apply:
  "wbind m k w = (case m w of (Inl e, w') \<Rightarrow> (Inl e, w') | (Inr x, w') \<Rightarrow> k x w')"
  by (simp add: wbind_def)

lemma wbind_eq_Inr_iff:
  "wbind m k w = (Inr y, w'') \<longleftrightarrow> (\<exists>x w'. m w = (Inr x, w') \<and> k x w' = (Inr y, w''))"
  by (auto simp: wbind_def split: prod.splits sum.splits)

lemma wbind_eq_Inl_iff:
  "wbind m k w = (Inl e, w'') \<longleftrightarrow>
     m w = (Inl e, w'') \<or> (\<exists>x w'. m w = (Inr x, w') \<and> k x w' = (Inl e, w''))"
  by (auto simp: wbind_def split: prod.splits sum.splits)

lemma wbind_wreturn [simp]: "wbind (wreturn x) k = k x"
  and wbind_wraise [simp]: "wbind (wraise e) k = wraise e"
  by (simp_all add: wbind_def fun_eq_iff)

lemmas weff_iffs = wbind_eq_Inr_iff wbind_eq_Inl_iff

text \<open>Every element of a list in turn, the first exception ends the loop.\<close>

fun wfold :: "('b \<Rightarrow> 'a \<Rightarrow> ('w, 'e, 'b) eff) \<Rightarrow> 'b \<Rightarrow> 'a list \<Rightarrow> ('w, 'e, 'b) eff" where
  "wfold f b [] = wreturn b"
| "wfold f b (x # xs) = wbind (f b x) (\<lambda>b'. wfold f b' xs)"

section \<open>Relations that computations keep\<close>

definition keeps :: "('w \<Rightarrow> 'w \<Rightarrow> bool) \<Rightarrow> ('w, 'e, 'a) eff \<Rightarrow> bool" where
  "keeps R m \<longleftrightarrow> (\<forall>w. R w (snd (m w)))"

lemma keepsD: "keeps R m \<Longrightarrow> m w = (r, w') \<Longrightarrow> R w w'"
  by (metis keeps_def snd_conv)

lemma keeps_pure [keeps_intros]:
  "reflp R \<Longrightarrow> keeps R (wreturn x)"
  "reflp R \<Longrightarrow> keeps R (wraise e)"
  "reflp R \<Longrightarrow> keeps R (wlift r)"
  "reflp R \<Longrightarrow> keeps R (wrequire c e)"
  by (simp_all add: keeps_def reflp_def)

lemma keeps_wbind [keeps_intros]:
  assumes "transp R" "keeps R m" "\<And>x. keeps R (k x)"
  shows "keeps R (wbind m k)"
proof -
  have "R w (snd (wbind m k w))" for w
  proof (cases "m w")
    case (Pair r w')
    then have "R w w'" using assms(2) by (auto dest: keepsD)
    moreover have "R w' (snd (k x w'))" for x using assms(3) by (simp add: keeps_def)
    ultimately show ?thesis
      using assms(1) Pair by (auto simp: wbind_def transp_def split: sum.splits)
  qed
  then show ?thesis by (simp add: keeps_def)
qed

lemma keeps_if [keeps_intros]:
  "(c \<Longrightarrow> keeps R m) \<Longrightarrow> (\<not> c \<Longrightarrow> keeps R n) \<Longrightarrow> keeps R (if c then m else n)"
  by simp

lemma keeps_case_prod [keeps_intros]: "(\<And>a b. keeps R (f a b)) \<Longrightarrow> keeps R (case x of (a, b) \<Rightarrow> f a b)"
  by (cases x) simp

lemma keeps_case_option [keeps_intros]:
  "keeps R m \<Longrightarrow> (\<And>x. v = Some x \<Longrightarrow> keeps R (f x)) \<Longrightarrow> keeps R (case v of None \<Rightarrow> m | Some x \<Rightarrow> f x)"
  by (cases v) simp_all

lemma keeps_wfold [keeps_intros]:
  "reflp R \<Longrightarrow> transp R \<Longrightarrow> (\<And>b x. keeps R (f b x)) \<Longrightarrow> keeps R (wfold f b xs)"
  by (induction xs arbitrary: b) (auto intro!: keeps_intros)

section \<open>Exceptions that computations raise\<close>

definition raises :: "('e \<Rightarrow> bool) \<Rightarrow> ('w, 'e, 'a) eff \<Rightarrow> bool" where
  "raises P m \<longleftrightarrow> (\<forall>w e w'. m w = (Inl e, w') \<longrightarrow> P e)"

lemma raisesD: "raises P m \<Longrightarrow> m w = (Inl e, w') \<Longrightarrow> P e"
  by (auto simp: raises_def)

lemma raises_wreturn: "raises P (wreturn x)"
  by (simp add: raises_def)

lemma raises_wbind: "raises P m \<Longrightarrow> (\<And>x. raises P (k x)) \<Longrightarrow> raises P (wbind m k)"
  by (simp add: raises_def wbind_eq_Inl_iff) blast

lemma raises_if: "raises P m \<Longrightarrow> raises P n \<Longrightarrow> raises P (if c then m else n)"
  by simp

lemma raises_case_option: "raises P m \<Longrightarrow> (\<And>x. raises P (f x)) \<Longrightarrow> raises P (case v of None \<Rightarrow> m | Some x \<Rightarrow> f x)"
  by (cases v) simp_all

end
