(* ===== verification/Comparison_Model.thy ===== *)
theory Comparison_Model
  imports Evidence Source_Budget Effects
begin

text \<open>
  The data of the comparison engine: the receipts that the connectors return (the data classes of
  \<open>src/forensic_data/postgres.py\<close>), and the segments, artifacts and progress of
  \<open>src/forensic_data/comparison.py\<close> with their \<open>__post_init__\<close> validators. Checks of the form
  \<open>_require_instance\<close> are the types of the fields. A segment is a half-open interval of 64-bit keys;
  a missing upper bound stands for \<open>INT64_MAX + 1\<close>, which is not a 64-bit integer.
\<close>

section \<open>Receipts of the connectors\<close>

definition INT64_MIN :: int where
  "INT64_MIN = - (2 ^ 63)"

definition require_bounded_integer :: "int \<Rightarrow> int \<Rightarrow> int \<Rightarrow> exn + int" where
  "require_bounded_integer v lo hi =
     ebind (require (lo \<le> v \<and> v \<le> hi) PostgresDataValidationError) (\<lambda>_. Inr v)"

definition require_some :: "'a option \<Rightarrow> 'e \<Rightarrow> 'e + 'a" where
  "require_some v e = (case v of None \<Rightarrow> Inl e | Some x \<Rightarrow> Inr x)"

record key_summary =
  ks_row_count :: int
  ks_null_key_count :: int
  ks_invalid_key_count :: int
  ks_valid_key_count :: int
  ks_distinct_key_count :: int
  ks_minimum_key :: "int option"
  ks_maximum_key :: "int option"
  ks_usable_access_path :: bool

definition mk_PostgresIntegerKeySummary :: "key_summary \<Rightarrow> exn + key_summary" where
  "mk_PostgresIntegerKeySummary s =
     ebind (check_all (\<lambda>v. ebind (require_bounded_integer v 0 INT64_MAX) (\<lambda>_. Inr ()))
       [ks_row_count s, ks_null_key_count s, ks_invalid_key_count s, ks_valid_key_count s,
        ks_distinct_key_count s]) (\<lambda>_.
     ebind (require (ks_row_count s =
         ks_null_key_count s + ks_invalid_key_count s + ks_valid_key_count s)
       PostgresDataValidationError) (\<lambda>_.
     ebind (require (\<not> ks_distinct_key_count s > ks_valid_key_count s) PostgresDataValidationError) (\<lambda>_.
     ebind (if ks_valid_key_count s = 0 then
              require (\<not> (ks_minimum_key s \<noteq> None \<or> ks_maximum_key s \<noteq> None)) PostgresDataValidationError
            else
              ebind (require_some (ks_minimum_key s) PostgresDataValidationError) (\<lambda>minimum_key.
              ebind (require_bounded_integer minimum_key INT64_MIN INT64_MAX) (\<lambda>minimum.
              ebind (require_some (ks_maximum_key s) PostgresDataValidationError) (\<lambda>maximum_key.
              ebind (require_bounded_integer maximum_key INT64_MIN INT64_MAX) (\<lambda>maximum.
              require (\<not> minimum > maximum) PostgresDataValidationError))))) (\<lambda>_.
     Inr s))))"

record key_summary_read =
  ksr_summary :: key_summary
  ksr_metrics :: read_metrics

record range_fingerprint =
  rf_segment_id :: pystr
  rf_fingerprint :: fingerprint
  rf_row_envelope_bytes :: int
  rf_key_envelope_bytes :: int

definition mk_PostgresRangeFingerprint :: "range_fingerprint \<Rightarrow> exn + range_fingerprint" where
  "mk_PostgresRangeFingerprint r =
     ebind (require (rf_segment_id r \<noteq> []) PostgresDataValidationError) (\<lambda>_.
     ebind (validate_nonnegative_integer (rf_row_envelope_bytes r)) (\<lambda>_.
     ebind (validate_nonnegative_integer (rf_key_envelope_bytes r)) (\<lambda>_.
     Inr r)))"

record range_fingerprint_read =
  rfr_ranges :: "range_fingerprint list"
  rfr_metrics :: read_metrics

record exact_row =
  er_segment_id :: pystr
  er_key_value :: int
  er_key_envelope :: bytes
  er_row_envelope :: bytes
  er_values :: "pyval option list"

definition mk_PostgresIntegerExactRow :: "exact_row \<Rightarrow> exn + exact_row" where
  "mk_PostgresIntegerExactRow r =
     ebind (require (er_segment_id r \<noteq> []) PostgresDataValidationError) (\<lambda>_.
     ebind (require_bounded_integer (er_key_value r) INT64_MIN INT64_MAX) (\<lambda>_.
     Inr r))"

record exact_rows_read =
  err_rows :: "exact_row list"
  err_metrics :: read_metrics

record range_request =
  rq_segment_id :: pystr
  rq_lower_inclusive :: int
  rq_upper_exclusive :: "int option"

definition mk_PostgresIntegerRangeRequest :: "range_request \<Rightarrow> exn + range_request" where
  "mk_PostgresIntegerRangeRequest r =
     ebind (check_all (\<lambda>c. require (\<not> is_surrogate c) PostgresLoweringError) (rq_segment_id r)) (\<lambda>_.
     ebind (require (INT64_MIN \<le> rq_lower_inclusive r \<and> rq_lower_inclusive r \<le> INT64_MAX)
       PostgresLoweringError) (\<lambda>_.
     ebind (case rq_upper_exclusive r of
              None \<Rightarrow> Inr ()
            | Some u \<Rightarrow>
                ebind (require (INT64_MIN \<le> u \<and> u \<le> INT64_MAX) PostgresLoweringError) (\<lambda>_.
                require (\<not> u \<le> rq_lower_inclusive r) PostgresLoweringError)) (\<lambda>_.
     Inr r)))"

section \<open>Segments\<close>

definition require_nonnegative_integer :: "int \<Rightarrow> exn + unit" where
  "require_nonnegative_integer v = require (\<not> v < 0) ValueError"

definition require_int64 :: "int \<Rightarrow> exn + unit" where
  "require_int64 v = require (INT64_MIN \<le> v \<and> v \<le> INT64_MAX) ValueError"

datatype segment_state = SPLIT | FINGERPRINT_MATCH | EXACT_MATCH | EXACT_MISMATCH

fun segment_state_value :: "segment_state \<Rightarrow> pystr" where
  "segment_state_value SPLIT = asc ''split''"
| "segment_state_value FINGERPRINT_MATCH = asc ''fingerprint_match''"
| "segment_state_value EXACT_MATCH = asc ''exact_match''"
| "segment_state_value EXACT_MISMATCH = asc ''exact_mismatch''"

record segment_record =
  sr_segment_sequence :: int
  sr_parent_segment_sequence :: "int option"
  sr_depth :: int
  sr_lower_inclusive :: int
  sr_upper_exclusive :: "int option"
  sr_state :: segment_state
  sr_reference_fingerprint :: fingerprint
  sr_target_fingerprint :: fingerprint

text \<open>The checks that \<open>ComparisonSegmentRecord\<close> and \<open>UnresolvedComparisonSegment\<close> share word for
  word: sequence, parent, depth and bounds.\<close>

definition validate_segment_position :: "int \<Rightarrow> int option \<Rightarrow> int \<Rightarrow> int \<Rightarrow> int option \<Rightarrow> exn + unit" where
  "validate_segment_position segment_sequence parent depth lower upper =
     ebind (require_nonnegative_integer segment_sequence) (\<lambda>_.
     ebind (case parent of
              None \<Rightarrow> Inr ()
            | Some p \<Rightarrow>
                ebind (require_nonnegative_integer p) (\<lambda>_.
                require (\<not> p \<ge> segment_sequence) ValueError)) (\<lambda>_.
     ebind (require_nonnegative_integer depth) (\<lambda>_.
     ebind (require (\<not> ((depth = 0) \<noteq> (parent = None))) ValueError) (\<lambda>_.
     ebind (require_int64 lower) (\<lambda>_.
     case upper of
       None \<Rightarrow> Inr ()
     | Some u \<Rightarrow>
         ebind (require_int64 u) (\<lambda>_.
         require (\<not> u \<le> lower) ValueError))))))"

definition mk_ComparisonSegmentRecord :: "segment_record \<Rightarrow> exn + segment_record" where
  "mk_ComparisonSegmentRecord s =
     ebind (validate_segment_position (sr_segment_sequence s) (sr_parent_segment_sequence s)
       (sr_depth s) (sr_lower_inclusive s) (sr_upper_exclusive s)) (\<lambda>_.
     ebind (require (\<not> (sr_state s \<in> {FINGERPRINT_MATCH, EXACT_MATCH} \<and>
         sr_reference_fingerprint s \<noteq> sr_target_fingerprint s)) ValueError) (\<lambda>_.
     ebind (require (\<not> (sr_state s \<in> {SPLIT, EXACT_MISMATCH} \<and>
         sr_reference_fingerprint s = sr_target_fingerprint s)) ValueError) (\<lambda>_.
     Inr s)))"

record unresolved_segment =
  us_segment_sequence :: int
  us_parent_segment_sequence :: "int option"
  us_depth :: int
  us_lower_inclusive :: int
  us_upper_exclusive :: "int option"
  us_reason :: reason_code
  us_reference_fingerprint :: "fingerprint option"
  us_target_fingerprint :: "fingerprint option"

definition mk_UnresolvedComparisonSegment :: "unresolved_segment \<Rightarrow> exn + unresolved_segment" where
  "mk_UnresolvedComparisonSegment s =
     ebind (validate_segment_position (us_segment_sequence s) (us_parent_segment_sequence s)
       (us_depth s) (us_lower_inclusive s) (us_upper_exclusive s)) (\<lambda>_.
     ebind (require (\<not> ((us_reference_fingerprint s = None) \<noteq> (us_target_fingerprint s = None)))
       ValueError) (\<lambda>_.
     ebind (if us_reference_fingerprint s \<noteq> None then
              require (us_reference_fingerprint s \<noteq> us_target_fingerprint s) ValueError
            else Inr ()) (\<lambda>_.
     Inr s)))"

record partial_frontier =
  pf_topology :: "segment_record list"
  pf_unresolved :: "unresolved_segment list"

text \<open>\<open>PartialComparisonFrontier\<close>: \<open>sorted(set)\<close> is the ascending list of a set's elements.\<close>

fun require_unique_sequences :: "int set \<Rightarrow> int list \<Rightarrow> exn + int set" where
  "require_unique_sequences seen [] = Inr seen"
| "require_unique_sequences seen (n # ns) =
     ebind (require (n \<notin> seen) ValueError) (\<lambda>_. require_unique_sequences (insert n seen) ns)"

definition mk_PartialComparisonFrontier :: "partial_frontier \<Rightarrow> exn + partial_frontier" where
  "mk_PartialComparisonFrontier f =
     (let topology = map sr_segment_sequence (pf_topology f);
          unresolved = map us_segment_sequence (pf_unresolved f) in
      ebind (require_unique_sequences {} topology) (\<lambda>topology_sequences.
      ebind (require_unique_sequences {} unresolved) (\<lambda>unresolved_sequences.
      ebind (require (topology_sequences \<inter> unresolved_sequences = {}) ValueError) (\<lambda>_.
      ebind (require (topology = sorted_list_of_set topology_sequences) ValueError) (\<lambda>_.
      ebind (require (unresolved = sorted_list_of_set unresolved_sequences) ValueError) (\<lambda>_.
      Inr f))))))"

section \<open>Exceptions of a comparison\<close>

text \<open>The connector exception classes that \<open>_interruption_reason_code\<close> tells apart, with the classes
  they inherit from; \<open>ClickHouseQueryError\<close> and \<open>ClickHouseAttemptDeadlineExceededError\<close> carry how
  the query ended.\<close>

datatype query_completion = NOT_DISPATCHED | SERVER_TERMINAL | QUERY_CANCELLED | UNCONFIRMED

datatype connector_error =
    PostgresConnectionError | UnsupportedPostgresProfileError | PostgresAcquisitionRaceError
  | PostgresContextClosedError | PostgresContextLostError | PostgresQueryError
  | PostgresQueryContextError | PostgresCloseError
  | MssqlConnectionError | MssqlQueryError | MssqlDataValidationError | MssqlLossyTransportError
  | MssqlResultLimitError | MssqlCancellationConfirmedError | MssqlCancellationUnconfirmedError
  | MssqlTransportClosedError | MssqlQueryTimeoutError | UnsupportedMssqlProfileError
  | MssqlMetadataError | MssqlQueryContextError | MssqlContextClosedError | MssqlContextLostError
  | GreenplumConnectionError | UnsupportedGreenplumProfileError | GreenplumMetadataError
  | GreenplumDataValidationError | GreenplumQueryError | GreenplumCloseError
  | GreenplumContextClosedError | GreenplumContextLostError
  | GreengageAcquisitionRaceError | GreengageBudgetExceededError
  | OriginalGreenplumAcquisitionRaceError | OriginalGreenplumBudgetExceededError
  | ClickHouseConnectionError | ClickHouseQueryError query_completion
  | ClickHouseAttemptDeadlineExceededError query_completion
  | ClickHouseCancellationUnconfirmedError | ClickHouseTransportAttemptMismatchError
  | ClickHouseTransportCleanupError | ClickHouseSourceAccountingError
  | ClickHouseDataValidationError | ClickHouseResultLimitError | UnsupportedClickHouseProfileError
  | ClickHouseTransportClosedError | ClickHouseProtectedContextClosedError
  | ClickHouseProtectedContextLostError | ClickHouseProtectedContextConfirmationError
  | ClickHouseProtectedContextCleanupError

record key_mapping_error =
  km_reference_summary :: key_summary
  km_target_summary :: key_summary
  km_metrics :: result_metrics
  km_reference_full_scans :: int
  km_target_full_scans :: int
  km_contract_violation_reason :: "result_reason option"

datatype cause =
    Raised exn
  | ComparisonKeyMappingError key_mapping_error
  | ConnectorError connector_error

definition raised :: "exn + 'a \<Rightarrow> ('w, cause, 'a) eff" where
  "raised r = wlift (map_sum Raised id r)"

section \<open>State of a comparison\<close>

record pending_segment =
  pe_segment_sequence :: int
  pe_parent_segment_sequence :: "int option"
  pe_depth :: int
  pe_lower_inclusive :: int
  pe_upper_exclusive :: "int option"

record fingerprint_node =
  fn_segment :: pending_segment
  fn_reference :: range_fingerprint
  fn_target :: range_fingerprint

record exact_counts =
  xc_matched :: int
  xc_missing :: int
  xc_extra :: int
  xc_modified :: int

definition mk_ExactCounts :: "int \<Rightarrow> int \<Rightarrow> int \<Rightarrow> int \<Rightarrow> exn + exact_counts" where
  "mk_ExactCounts matched missing extra modified =
     ebind (require_nonnegative_integer matched) (\<lambda>_.
     ebind (require_nonnegative_integer missing) (\<lambda>_.
     ebind (require_nonnegative_integer extra) (\<lambda>_.
     ebind (require_nonnegative_integer modified) (\<lambda>_.
     Inr \<lparr>xc_matched = matched, xc_missing = missing, xc_extra = extra, xc_modified = modified\<rparr>))))"

record exact_difference =
  xd_segment_sequence :: int
  xd_kind :: difference_kind
  xd_key_row :: exact_row
  xd_reference_row :: "exact_row option"
  xd_target_row :: "exact_row option"

record usage =
  ug_queries :: int
  ug_fetched_records :: int
  ug_result_bytes :: int
  ug_fingerprint_nodes :: int
  ug_coordinator_peak_bytes :: int
  ug_reference_full_scans :: int
  ug_target_full_scans :: int
  ug_elapsed_milliseconds :: int

record progress =
  pg_pending :: "pending_segment list"
  pg_topology :: "segment_record list"
  pg_exact_counts :: exact_counts
  pg_pruned_matched :: int
  pg_pruned_segments :: int
  pg_exact_segments :: int
  pg_summaries_verified :: bool
  pg_mismatch_witnesses :: "fingerprint_node list"
  pg_usage :: usage
  pg_anomalies :: "difference_record list"
  pg_found_records :: int
  pg_found_bytes :: int
  pg_retained_bytes :: int
  pg_retention_open :: bool

text \<open>\<open>_initial_comparison_progress\<close>, given the snapshot it takes.\<close>

definition initial_comparison_progress :: "usage_snapshot \<Rightarrow> progress" where
  "initial_comparison_progress snapshot =
     \<lparr>pg_pending = [\<lparr>pe_segment_sequence = 0, pe_parent_segment_sequence = None, pe_depth = 0,
        pe_lower_inclusive = INT64_MIN, pe_upper_exclusive = None\<rparr>],
      pg_topology = [],
      pg_exact_counts = \<lparr>xc_matched = 0, xc_missing = 0, xc_extra = 0, xc_modified = 0\<rparr>,
      pg_pruned_matched = 0,
      pg_pruned_segments = 0,
      pg_exact_segments = 0,
      pg_summaries_verified = False,
      pg_mismatch_witnesses = [],
      pg_usage = \<lparr>ug_queries = us_queries snapshot,
        ug_fetched_records = us_fetched_records snapshot,
        ug_result_bytes = us_result_bytes snapshot,
        ug_fingerprint_nodes = 0,
        ug_coordinator_peak_bytes = 0,
        ug_reference_full_scans = us_reference_full_scans snapshot,
        ug_target_full_scans = us_target_full_scans snapshot,
        ug_elapsed_milliseconds = us_elapsed_milliseconds snapshot\<rparr>,
      pg_anomalies = [],
      pg_found_records = 0,
      pg_found_bytes = 0,
      pg_retained_bytes = 0,
      pg_retention_open = True\<rparr>"

end
