(* ===== verification/Comparison_Frontier.thy ===== *)
theory Comparison_Frontier
  imports Comparison_Model
begin

text \<open>
  Canonical bytes of a partial comparison frontier and their strict reader
  (\<open>canonical_partial_comparison_frontier_bytes\<close> and
  \<open>partial_comparison_frontier_from_canonical_bytes\<close> of \<open>src/forensic_data/comparison.py\<close>). The
  theorems say that reading undoes writing on every frontier that its constructors accept, and that
  every accepted input is the canonical writing of what is returned.
\<close>

section \<open>Writing\<close>

fun reason_code_value :: "reason_code \<Rightarrow> pystr" where
  "reason_code_value DATA_MISMATCH = asc ''data_mismatch''"
| "reason_code_value CONTRACT_VIOLATION = asc ''contract_violation''"
| "reason_code_value NOT_READY = asc ''not_ready''"
| "reason_code_value CUT_MISMATCH = asc ''cut_mismatch''"
| "reason_code_value SNAPSHOT_LOST = asc ''snapshot_lost''"
| "reason_code_value BUDGET_EXHAUSTED = asc ''budget_exhausted''"
| "reason_code_value CANCELLED = asc ''cancelled''"
| "reason_code_value CANCELLATION_UNCONFIRMED = asc ''cancellation_unconfirmed''"
| "reason_code_value OVERSIZED_RECORD = asc ''oversized_record''"
| "reason_code_value INVALID_CONTRACT = asc ''invalid_contract''"
| "reason_code_value UNSUPPORTED_CAPABILITY = asc ''unsupported_capability''"
| "reason_code_value LOSSY_TRANSPORT = asc ''lossy_transport''"
| "reason_code_value QUERY_ERROR = asc ''query_error''"
| "reason_code_value PERSISTENCE_ERROR = asc ''persistence_error''"
| "reason_code_value COMMIT_UNKNOWN_REASON = asc ''commit_unknown''"
| "reason_code_value PROTOCOL_VIOLATION = asc ''protocol_violation''"

definition reason_codes :: "reason_code list" where
  "reason_codes =
     [DATA_MISMATCH, CONTRACT_VIOLATION, NOT_READY, CUT_MISMATCH, SNAPSHOT_LOST, BUDGET_EXHAUSTED,
      CANCELLED, CANCELLATION_UNCONFIRMED, OVERSIZED_RECORD, INVALID_CONTRACT,
      UNSUPPORTED_CAPABILITY, LOSSY_TRANSPORT, QUERY_ERROR, PERSISTENCE_ERROR,
      COMMIT_UNKNOWN_REASON, PROTOCOL_VIOLATION]"

text \<open>\<open>ReasonCode(value)\<close> and \<open>ComparisonSegmentState(value)\<close>.\<close>

definition reason_code_of_value :: "pystr \<Rightarrow> exn + reason_code" where
  "reason_code_of_value s = require_some (List.find (\<lambda>c. reason_code_value c = s) reason_codes) ValueError"

definition segment_state_of_value :: "pystr \<Rightarrow> exn + segment_state" where
  "segment_state_of_value s =
     require_some (List.find (\<lambda>c. segment_state_value c = s)
       [SPLIT, FINGERPRINT_MATCH, EXACT_MATCH, EXACT_MISMATCH]) ValueError"

definition fingerprint_semantic_value :: "fingerprint \<Rightarrow> jval" where
  "fingerprint_semantic_value f =
     JObj [(asc ''count'', JInt (fp_count f)), (asc ''limb_sums'', JArr (map JInt (fp_limb_sums f)))]"

definition segment_semantic_value :: "segment_record \<Rightarrow> jval" where
  "segment_semantic_value s = JObj
     [(asc ''depth'', JInt (sr_depth s)),
      (asc ''lower_inclusive'', JInt (sr_lower_inclusive s)),
      (asc ''parent_segment_sequence'', optional_json JInt (sr_parent_segment_sequence s)),
      (asc ''reference_fingerprint'', fingerprint_semantic_value (sr_reference_fingerprint s)),
      (asc ''segment_sequence'', JInt (sr_segment_sequence s)),
      (asc ''state'', JStr (segment_state_value (sr_state s))),
      (asc ''target_fingerprint'', fingerprint_semantic_value (sr_target_fingerprint s)),
      (asc ''upper_exclusive'', optional_json JInt (sr_upper_exclusive s))]"

definition unresolved_semantic_value :: "unresolved_segment \<Rightarrow> jval" where
  "unresolved_semantic_value s = JObj
     [(asc ''depth'', JInt (us_depth s)),
      (asc ''lower_inclusive'', JInt (us_lower_inclusive s)),
      (asc ''parent_segment_sequence'', optional_json JInt (us_parent_segment_sequence s)),
      (asc ''reference_fingerprint'', optional_json fingerprint_semantic_value (us_reference_fingerprint s)),
      (asc ''reason'', JStr (reason_code_value (us_reason s))),
      (asc ''segment_sequence'', JInt (us_segment_sequence s)),
      (asc ''target_fingerprint'', optional_json fingerprint_semantic_value (us_target_fingerprint s)),
      (asc ''upper_exclusive'', optional_json JInt (us_upper_exclusive s))]"

definition frontier_payload :: "partial_frontier \<Rightarrow> jval" where
  "frontier_payload f =
     JObj [(asc ''topology'', JArr (map segment_semantic_value (pf_topology f))),
           (asc ''unresolved'', JArr (map unresolved_semantic_value (pf_unresolved f)))]"

definition canonical_partial_comparison_frontier_bytes :: "partial_frontier \<Rightarrow> exn + bytes" where
  "canonical_partial_comparison_frontier_bytes f = canonical_json_bytes (frontier_payload f)"

section \<open>Reading\<close>

definition require_json_object :: "jval \<Rightarrow> exn + (pystr \<times> jval) list" where
  "require_json_object v = (case v of JObj ps \<Rightarrow> Inr ps | _ \<Rightarrow> Inl ValueError)"

definition require_json_array :: "jval \<Rightarrow> exn + jval list" where
  "require_json_array v = (case v of JArr vs \<Rightarrow> Inr vs | _ \<Rightarrow> Inl ValueError)"

definition require_json_integer :: "jval \<Rightarrow> exn + int" where
  "require_json_integer v = (case v of JInt i \<Rightarrow> Inr i | _ \<Rightarrow> Inl ValueError)"

definition optional_json_integer :: "jval \<Rightarrow> exn + int option" where
  "optional_json_integer v =
     (if v = JNull then Inr None else ebind (require_json_integer v) (\<lambda>i. Inr (Some i)))"

definition require_json_string :: "jval \<Rightarrow> exn + pystr" where
  "require_json_string v = (case v of JStr s \<Rightarrow> Inr s | _ \<Rightarrow> Inl ValueError)"

definition require_fields :: "(pystr \<times> jval) list \<Rightarrow> string list \<Rightarrow> exn + unit" where
  "require_fields item expected = require (set (map fst item) = set (map asc expected)) ValueError"

definition fingerprint_from_semantic_value :: "jval \<Rightarrow> exn + fingerprint" where
  "fingerprint_from_semantic_value v =
     ebind (require_json_object v) (\<lambda>item.
     ebind (require_fields item [''count'', ''limb_sums'']) (\<lambda>_.
     ebind (obj_get item ''limb_sums'') (\<lambda>lv.
     ebind (require_json_array lv) (\<lambda>limbs.
     ebind (require (length limbs = 8) ValueError) (\<lambda>_.
     ebind (traverse require_json_integer limbs) (\<lambda>parsed_limbs.
     ebind (obj_get item ''count'') (\<lambda>cv.
     ebind (require_json_integer cv) (\<lambda>row_count.
     mk_Fingerprint row_count parsed_limbs))))))))"

definition optional_fingerprint_from_semantic_value :: "jval \<Rightarrow> exn + fingerprint option" where
  "optional_fingerprint_from_semantic_value v =
     (if v = JNull then Inr None else ebind (fingerprint_from_semantic_value v) (\<lambda>f. Inr (Some f)))"

text \<open>The keyword arguments are evaluated in the order in which the call writes them.\<close>

definition comparison_segment_from_semantic_value :: "jval \<Rightarrow> exn + segment_record" where
  "comparison_segment_from_semantic_value v =
     ebind (require_json_object v) (\<lambda>item.
     ebind (require_fields item
       [''depth'', ''lower_inclusive'', ''parent_segment_sequence'', ''reference_fingerprint'',
        ''segment_sequence'', ''state'', ''target_fingerprint'', ''upper_exclusive'']) (\<lambda>_.
     ebind (ebind (obj_get item ''segment_sequence'') require_json_integer) (\<lambda>segment_sequence.
     ebind (ebind (obj_get item ''parent_segment_sequence'') optional_json_integer) (\<lambda>parent.
     ebind (ebind (obj_get item ''depth'') require_json_integer) (\<lambda>depth.
     ebind (ebind (obj_get item ''lower_inclusive'') require_json_integer) (\<lambda>lower.
     ebind (ebind (obj_get item ''upper_exclusive'') optional_json_integer) (\<lambda>upper.
     ebind (ebind (ebind (obj_get item ''state'') require_json_string) segment_state_of_value) (\<lambda>state.
     ebind (ebind (obj_get item ''reference_fingerprint'') fingerprint_from_semantic_value) (\<lambda>reference.
     ebind (ebind (obj_get item ''target_fingerprint'') fingerprint_from_semantic_value) (\<lambda>target.
     mk_ComparisonSegmentRecord
       \<lparr>sr_segment_sequence = segment_sequence, sr_parent_segment_sequence = parent, sr_depth = depth,
        sr_lower_inclusive = lower, sr_upper_exclusive = upper, sr_state = state,
        sr_reference_fingerprint = reference, sr_target_fingerprint = target\<rparr>))))))))))"

definition unresolved_segment_from_semantic_value :: "jval \<Rightarrow> exn + unresolved_segment" where
  "unresolved_segment_from_semantic_value v =
     ebind (require_json_object v) (\<lambda>item.
     ebind (require_fields item
       [''depth'', ''lower_inclusive'', ''parent_segment_sequence'', ''reference_fingerprint'',
        ''reason'', ''segment_sequence'', ''target_fingerprint'', ''upper_exclusive'']) (\<lambda>_.
     ebind (ebind (obj_get item ''segment_sequence'') require_json_integer) (\<lambda>segment_sequence.
     ebind (ebind (obj_get item ''parent_segment_sequence'') optional_json_integer) (\<lambda>parent.
     ebind (ebind (obj_get item ''depth'') require_json_integer) (\<lambda>depth.
     ebind (ebind (obj_get item ''lower_inclusive'') require_json_integer) (\<lambda>lower.
     ebind (ebind (obj_get item ''upper_exclusive'') optional_json_integer) (\<lambda>upper.
     ebind (ebind (ebind (obj_get item ''reason'') require_json_string) reason_code_of_value) (\<lambda>reason.
     ebind (ebind (obj_get item ''reference_fingerprint'') optional_fingerprint_from_semantic_value) (\<lambda>reference.
     ebind (ebind (obj_get item ''target_fingerprint'') optional_fingerprint_from_semantic_value) (\<lambda>target.
     mk_UnresolvedComparisonSegment
       \<lparr>us_segment_sequence = segment_sequence, us_parent_segment_sequence = parent, us_depth = depth,
        us_lower_inclusive = lower, us_upper_exclusive = upper, us_reason = reason,
        us_reference_fingerprint = reference, us_target_fingerprint = target\<rparr>))))))))))"

definition partial_comparison_frontier_from_canonical_bytes :: "bytes \<Rightarrow> exn + partial_frontier" where
  "partial_comparison_frontier_from_canonical_bytes payload =
     ebind (require_some (utf8_decode_strict payload) ValueError) (\<lambda>text.
     ebind (semantic_value_from_json text) (\<lambda>value.
     ebind (require_json_object value) (\<lambda>root.
     ebind (require_fields root [''topology'', ''unresolved'']) (\<lambda>_.
     ebind (ebind (obj_get root ''topology'') require_json_array) (\<lambda>topology_values.
     ebind (ebind (obj_get root ''unresolved'') require_json_array) (\<lambda>unresolved_values.
     ebind (traverse comparison_segment_from_semantic_value topology_values) (\<lambda>topology.
     ebind (traverse unresolved_segment_from_semantic_value unresolved_values) (\<lambda>unresolved.
     ebind (mk_PartialComparisonFrontier \<lparr>pf_topology = topology, pf_unresolved = unresolved\<rparr>) (\<lambda>frontier.
     ebind (canonical_partial_comparison_frontier_bytes frontier) (\<lambda>expected.
     ebind (require (expected = payload) ValueError) (\<lambda>_.
     Inr frontier)))))))))))"

section \<open>Round trip\<close>

text \<open>What the constructors of the parts of a frontier establish.\<close>

definition wf_segment_record :: "segment_record \<Rightarrow> bool" where
  "wf_segment_record s \<longleftrightarrow>
     mk_ComparisonSegmentRecord s = Inr s \<and>
     wf_fingerprint (sr_reference_fingerprint s) \<and> wf_fingerprint (sr_target_fingerprint s)"

definition wf_unresolved :: "unresolved_segment \<Rightarrow> bool" where
  "wf_unresolved s \<longleftrightarrow>
     mk_UnresolvedComparisonSegment s = Inr s \<and>
     pred_option wf_fingerprint (us_reference_fingerprint s) \<and>
     pred_option wf_fingerprint (us_target_fingerprint s)"

definition wf_frontier :: "partial_frontier \<Rightarrow> bool" where
  "wf_frontier f \<longleftrightarrow>
     mk_PartialComparisonFrontier f = Inr f \<and>
     list_all wf_segment_record (pf_topology f) \<and> list_all wf_unresolved (pf_unresolved f)"

lemma segment_state_of_value [simp]: "segment_state_of_value (segment_state_value s) = Inr s"
  by (cases s) (simp_all add: segment_state_of_value_def require_some_def)

lemma reason_code_of_value [simp]: "reason_code_of_value (reason_code_value c) = Inr c"
  by (cases c) (simp_all add: reason_code_of_value_def reason_codes_def require_some_def)

lemma segment_state_scalar [simp]: "list_all is_scalar (segment_state_value s)"
  by (cases s) (simp_all del: asc_Cons)

lemma reason_code_scalar [simp]: "list_all is_scalar (reason_code_value c)"
  by (cases c) (simp_all del: asc_Cons)

lemma mk_Fingerprint_ok: "wf_fingerprint f \<Longrightarrow> mk_Fingerprint (fp_count f) (fp_limb_sums f) = Inr f"
  by (simp add: mk_Fingerprint_iff)

lemma fingerprint_norm: "json_norm (fingerprint_semantic_value f) = fingerprint_semantic_value f"
  by (simp add: fingerprint_semantic_value_def comp_def)

lemma fingerprint_read:
  "wf_fingerprint f \<Longrightarrow> fingerprint_from_semantic_value (fingerprint_semantic_value f) = Inr f"
  by (simp add: fingerprint_from_semantic_value_def fingerprint_semantic_value_def require_json_object_def
      require_fields_def obj_get_def require_json_array_def require_json_integer_def traverse_map
      traverse_Inr [where g = id] mk_Fingerprint_ok wf_fingerprint_def)

lemma optional_json_simps [simp]:
  "optional_json f None = JNull" "optional_json f (Some x) = f x"
  by (simp_all add: optional_json_def)

lemma optional_integer_read [simp]: "optional_json_integer (optional_json JInt v) = Inr v"
  by (cases v) (simp_all add: optional_json_integer_def require_json_integer_def)

lemma optional_fingerprint_read:
  "pred_option wf_fingerprint v \<Longrightarrow>
   optional_fingerprint_from_semantic_value (optional_json fingerprint_semantic_value v) = Inr v"
  by (cases v)
    (simp_all add: optional_fingerprint_from_semantic_value_def fingerprint_read,
     simp add: fingerprint_semantic_value_def)

lemma optional_norm [simp]:
  "json_norm (optional_json JInt v) = optional_json JInt v"
  "json_norm (optional_json fingerprint_semantic_value w) = optional_json fingerprint_semantic_value w"
  by (cases v, simp_all) (cases w, simp_all add: fingerprint_norm)

lemma segment_norm: "json_norm (segment_semantic_value s) = segment_semantic_value s"
  by (simp add: segment_semantic_value_def fingerprint_norm)

lemma segment_read:
  "wf_segment_record s \<Longrightarrow> comparison_segment_from_semantic_value (segment_semantic_value s) = Inr s"
  by (cases s) (simp add: comparison_segment_from_semantic_value_def segment_semantic_value_def
      require_json_object_def require_fields_def obj_get_def require_json_integer_def
      require_json_string_def fingerprint_read wf_segment_record_def)

lemma unresolved_norm:
  "json_norm (unresolved_semantic_value s) = JObj
     [(asc ''depth'', JInt (us_depth s)),
      (asc ''lower_inclusive'', JInt (us_lower_inclusive s)),
      (asc ''parent_segment_sequence'', optional_json JInt (us_parent_segment_sequence s)),
      (asc ''reason'', JStr (reason_code_value (us_reason s))),
      (asc ''reference_fingerprint'', optional_json fingerprint_semantic_value (us_reference_fingerprint s)),
      (asc ''segment_sequence'', JInt (us_segment_sequence s)),
      (asc ''target_fingerprint'', optional_json fingerprint_semantic_value (us_target_fingerprint s)),
      (asc ''upper_exclusive'', optional_json JInt (us_upper_exclusive s))]"
  by (simp add: unresolved_semantic_value_def)

lemma unresolved_read:
  "wf_unresolved s \<Longrightarrow>
   unresolved_segment_from_semantic_value (json_norm (unresolved_semantic_value s)) = Inr s"
  unfolding unresolved_norm
  by (cases s) (simp add: unresolved_segment_from_semantic_value_def insert_commute
      require_json_object_def require_fields_def obj_get_def require_json_integer_def
      require_json_string_def optional_fingerprint_read wf_unresolved_def)

lemma payload_scalar: "json_scalar (frontier_payload f)"
proof -
  have fp: "json_scalar (fingerprint_semantic_value p)" for p
    by (auto simp: fingerprint_semantic_value_def simp del: asc_Cons)
  have "json_scalar (optional_json JInt v)" for v by (cases v) simp_all
  moreover have "json_scalar (optional_json fingerprint_semantic_value v)" for v
    using fp by (cases v) simp_all
  ultimately show ?thesis
    using fp
    by (auto simp: frontier_payload_def segment_semantic_value_def unresolved_semantic_value_def
        simp del: asc_Cons)
qed

lemma payload_distinct: "json_distinct (frontier_payload f)"
proof -
  have fp: "json_distinct (fingerprint_semantic_value p)" for p
    by (simp add: fingerprint_semantic_value_def list_all_iff)
  have "json_distinct (optional_json JInt v)" for v by (cases v) simp_all
  moreover have "json_distinct (optional_json fingerprint_semantic_value v)" for v
    using fp by (cases v) simp_all
  ultimately show ?thesis
    using fp
    by (simp add: frontier_payload_def segment_semantic_value_def unresolved_semantic_value_def
        list_all_iff)
qed

lemma frontier_read:
  assumes "wf_frontier f" "canonical_partial_comparison_frontier_bytes f = Inr b"
  shows "partial_comparison_frontier_from_canonical_bytes b = Inr f"
proof -
  let ?t = "map segment_semantic_value (pf_topology f)"
  let ?u = "map (\<lambda>s. json_norm (unresolved_semantic_value s)) (pf_unresolved f)"
  have printable: "json_printable (frontier_payload f)" and "utf8_encode (json_dumps (frontier_payload f)) = Inr b"
    using assms(2)
    by (auto simp: canonical_partial_comparison_frontier_bytes_def canonical_json_bytes_def
        json_dumps_text_def result_iffs)
  then have decoded: "utf8_decode_strict b = Some (json_dumps (frontier_payload f))"
    by (simp add: utf8_decode_encode)
  have "semantic_value_from_json (json_dumps (frontier_payload f)) =
      Inr (JObj [(asc ''topology'', JArr ?t), (asc ''unresolved'', JArr ?u)])"
    using semantic_json_ok(2) [OF payload_scalar, of f] printable payload_distinct [of f]
    by (simp add: json_wf_iff frontier_payload_def segment_norm comp_def)
  moreover have "traverse comparison_segment_from_semantic_value ?t = Inr (map id (pf_topology f))"
    unfolding traverse_map using assms(1)
    by (intro traverse_Inr) (auto simp: segment_read wf_frontier_def list_all_iff)
  moreover have "traverse unresolved_segment_from_semantic_value ?u = Inr (map id (pf_unresolved f))"
    unfolding traverse_map using assms(1)
    by (intro traverse_Inr) (auto simp: unresolved_read wf_frontier_def list_all_iff)
  moreover have eta: "\<lparr>pf_topology = pf_topology f, pf_unresolved = pf_unresolved f\<rparr> = f" by (cases f) simp
  ultimately show ?thesis
    using assms decoded
    by (simp add: partial_comparison_frontier_from_canonical_bytes_def require_some_def
        require_json_object_def require_fields_def obj_get_def require_json_array_def wf_frontier_def eta)
qed

lemma fingerprint_read_wf: "fingerprint_from_semantic_value v = Inr f \<Longrightarrow> wf_fingerprint f"
  by (auto simp: fingerprint_from_semantic_value_def result_iffs mk_Fingerprint_iff)

lemma mk_ComparisonSegmentRecord_eq: "mk_ComparisonSegmentRecord s = Inr t \<Longrightarrow> t = s"
  by (auto simp: mk_ComparisonSegmentRecord_def result_iffs)

lemma mk_UnresolvedComparisonSegment_eq: "mk_UnresolvedComparisonSegment s = Inr t \<Longrightarrow> t = s"
  by (auto simp: mk_UnresolvedComparisonSegment_def result_iffs)

lemma mk_PartialComparisonFrontier_eq: "mk_PartialComparisonFrontier f = Inr g \<Longrightarrow> g = f"
  by (auto simp: mk_PartialComparisonFrontier_def Let_def result_iffs)

lemma segment_read_wf: "comparison_segment_from_semantic_value v = Inr s \<Longrightarrow> wf_segment_record s"
  by (auto simp: comparison_segment_from_semantic_value_def wf_segment_record_def result_iffs
      dest!: fingerprint_read_wf dest: mk_ComparisonSegmentRecord_eq)

lemma optional_fingerprint_read_wf:
  "optional_fingerprint_from_semantic_value v = Inr w \<Longrightarrow> pred_option wf_fingerprint w"
  by (auto simp: optional_fingerprint_from_semantic_value_def result_iffs
      split: if_splits dest!: fingerprint_read_wf)

lemma unresolved_read_wf: "unresolved_segment_from_semantic_value v = Inr s \<Longrightarrow> wf_unresolved s"
  by (auto simp: unresolved_segment_from_semantic_value_def wf_unresolved_def result_iffs
      dest!: optional_fingerprint_read_wf dest: mk_UnresolvedComparisonSegment_eq)

lemma traverse_all: "traverse g vs = Inr xs \<Longrightarrow> (\<And>v x. g v = Inr x \<Longrightarrow> P x) \<Longrightarrow> list_all P xs"
  by (auto simp: traverse_eq_Inr_iff list_all2_conv_all_nth list_all_length)

lemma frontier_read_wf:
  assumes "partial_comparison_frontier_from_canonical_bytes b = Inr f"
  shows "wf_frontier f \<and> canonical_partial_comparison_frontier_bytes f = Inr b"
  using assms
  by (auto simp: partial_comparison_frontier_from_canonical_bytes_def result_iffs wf_frontier_def
      dest: mk_PartialComparisonFrontier_eq
      elim!: traverse_all [OF _ segment_read_wf] traverse_all [OF _ unresolved_read_wf])

text \<open>(C7) A byte string is read as a partial frontier exactly when it is the canonical writing of that
  frontier and the frontier and its segments satisfy their constructors: the reader undoes the
  writer, and no frontier has a second accepted encoding.\<close>

theorem frontier_bytes_round_trip:
  "partial_comparison_frontier_from_canonical_bytes b = Inr f \<longleftrightarrow>
   wf_frontier f \<and> canonical_partial_comparison_frontier_bytes f = Inr b"
  using frontier_read frontier_read_wf by blast

end
