(* ===== verification/Contract_Model.thy ===== *)
theory Contract_Model
  imports Semantics Source_Budget
begin

text \<open>
  \<open>src/forensic_data/contracts/model.py\<close> and \<open>src/forensic_data/contracts/identity.py\<close>: the
  definitions of a contract file after it is compiled (connections, schemas, datasets, scopes,
  consistency policies, row checks), the validators of their \<open>__post_init__\<close> methods, and the semantic
  values whose digests identify a dataset and a contract. \<open>isinstance\<close> and enum checks are the types
  of the fields; every failure is a \<open>ContractValidationError\<close>. A \<open>Path\<close> is its text.
\<close>

section \<open>Enumerations\<close>

datatype adapter = POSTGRESQL | MSSQL | GREENGAGE | GREENPLUM | CLICKHOUSE
datatype connection_role = ROLE_SOURCE | ROLE_TARGET | ROLE_METADATA
datatype sql_dialect = DIALECT_POSTGRESQL
datatype field_equality = EQUALITY_EXACT
datatype relation_scope = PHYSICAL_ONLY | FROZEN_PHYSICAL_UNION
datatype scope_operator = OPERATOR_EQUAL
datatype null_partition_policy = NULL_PARTITION_REJECT
datatype minimum_evidence = MINIMUM_VERIFIED | MINIMUM_ASSERTED
datatype stable_read_kind = TRANSACTION_SNAPSHOT | IMMUTABLE_NAMED_VERSION
datatype late_arrival_policy = NEXT_BATCH
datatype assurance_policy = FINGERPRINT_ALLOWED | EXACT_REQUIRED
datatype capture_policy = CAPTURE_ENABLED | CAPTURE_DISABLED
datatype evidence_action = STORE | REDACT | OMIT

fun adapter_value :: "adapter \<Rightarrow> pystr" where
  "adapter_value POSTGRESQL = asc ''postgresql''"
| "adapter_value MSSQL = asc ''mssql''"
| "adapter_value GREENGAGE = asc ''greengage''"
| "adapter_value GREENPLUM = asc ''greenplum''"
| "adapter_value CLICKHOUSE = asc ''clickhouse''"

definition sql_dialect_value :: "sql_dialect \<Rightarrow> pystr" where
  "sql_dialect_value d = asc ''postgresql''"

definition field_equality_value :: "field_equality \<Rightarrow> pystr" where
  "field_equality_value e = asc ''exact''"

fun relation_scope_value :: "relation_scope \<Rightarrow> pystr" where
  "relation_scope_value PHYSICAL_ONLY = asc ''physical_only''"
| "relation_scope_value FROZEN_PHYSICAL_UNION = asc ''frozen_physical_union''"

definition scope_operator_value :: "scope_operator \<Rightarrow> pystr" where
  "scope_operator_value s = asc ''eq''"

definition null_partition_policy_value :: "null_partition_policy \<Rightarrow> pystr" where
  "null_partition_policy_value p = asc ''reject''"

fun minimum_evidence_value :: "minimum_evidence \<Rightarrow> pystr" where
  "minimum_evidence_value MINIMUM_VERIFIED = asc ''verified''"
| "minimum_evidence_value MINIMUM_ASSERTED = asc ''asserted''"

fun stable_read_kind_value :: "stable_read_kind \<Rightarrow> pystr" where
  "stable_read_kind_value TRANSACTION_SNAPSHOT = asc ''transaction_snapshot''"
| "stable_read_kind_value IMMUTABLE_NAMED_VERSION = asc ''immutable_named_version''"

definition late_arrival_policy_value :: "late_arrival_policy \<Rightarrow> pystr" where
  "late_arrival_policy_value p = asc ''next_batch''"

fun assurance_policy_value :: "assurance_policy \<Rightarrow> pystr" where
  "assurance_policy_value FINGERPRINT_ALLOWED = asc ''fingerprint_allowed''"
| "assurance_policy_value EXACT_REQUIRED = asc ''exact_required''"

section \<open>Checks shared by the definitions\<close>

text \<open>\<open>str.strip\<close> removes the characters for which \<open>str.isspace\<close> holds; a text is blank when nothing
  else is left.\<close>

definition is_pyspace :: "codepoint \<Rightarrow> bool" where
  "is_pyspace c \<longleftrightarrow>
     9 \<le> c \<and> c \<le> 13 \<or> 28 \<le> c \<and> c \<le> 32 \<or> c = 133 \<or> c = 160 \<or> c = 5760 \<or>
     8192 \<le> c \<and> c \<le> 8202 \<or> c = 8232 \<or> c = 8233 \<or> c = 8239 \<or> c = 8287 \<or> c = 12288"

definition is_blank :: "pystr \<Rightarrow> bool" where
  "is_blank s \<longleftrightarrow> list_all is_pyspace s"

definition contract_require :: "bool \<Rightarrow> exn + unit" where
  "contract_require c = require c ContractValidationError"

definition require_unicode_text :: "pystr \<Rightarrow> exn + unit" where
  "require_unicode_text s =
     check_all (\<lambda>c. ebind (contract_require (c \<noteq> 0)) (\<lambda>_. contract_require (\<not> is_surrogate c))) s"

definition require_logical_text :: "pystr \<Rightarrow> exn + unit" where
  "require_logical_text s = ebind (contract_require (\<not> is_blank s)) (\<lambda>_. require_unicode_text s)"

definition require_physical_text :: "pystr \<Rightarrow> exn + unit" where
  "require_physical_text s = ebind (contract_require (s \<noteq> [])) (\<lambda>_. require_unicode_text s)"

definition contract_require_sha256 :: "pystr \<Rightarrow> exn + unit" where
  "contract_require_sha256 s = contract_require (is_sha256_hex s)"

fun unique_names_loop :: "pystr set \<Rightarrow> pystr list \<Rightarrow> exn + unit" where
  "unique_names_loop seen [] = Inr ()"
| "unique_names_loop seen (n # ns) =
     ebind (require_logical_text n) (\<lambda>_.
     ebind (contract_require (n \<notin> seen)) (\<lambda>_.
     unique_names_loop (insert n seen) ns))"

definition require_unique_names :: "pystr list \<Rightarrow> exn + unit" where
  "require_unique_names names = unique_names_loop {} names"

definition require_positive_integer :: "int \<Rightarrow> exn + unit" where
  "require_positive_integer v = contract_require (\<not> v < 1)"

definition require_parameter_field :: "pystr \<Rightarrow> field_schema \<Rightarrow> exn + unit" where
  "require_parameter_field name field =
     ebind (contract_require (fs_name field = name)) (\<lambda>_.
     contract_require (\<not> fs_nullable field))"

definition same_logical_type :: "field_schema \<Rightarrow> field_schema \<Rightarrow> bool" where
  "same_logical_type left right \<longleftrightarrow>
     fs_logical_type left = fs_logical_type right \<and> fs_parameters left = fs_parameters right \<and>
     fs_normalization left = fs_normalization right"

section \<open>Definitions\<close>

record connection_definition =
  cd_connection_id :: pystr
  cd_adapter :: adapter
  cd_driver :: pystr
  cd_profile :: pystr
  cd_roles :: "connection_role list"
  cd_secret_ref :: pystr

definition mk_ConnectionDefinition :: "connection_definition \<Rightarrow> exn + connection_definition" where
  "mk_ConnectionDefinition c =
     ebind (require_logical_text (cd_connection_id c)) (\<lambda>_.
     ebind (require_logical_text (cd_driver c)) (\<lambda>_.
     ebind (require_logical_text (cd_profile c)) (\<lambda>_.
     ebind (contract_require (cd_roles c \<noteq> [])) (\<lambda>_.
     ebind (contract_require (card (set (cd_roles c)) = length (cd_roles c))) (\<lambda>_.
     ebind (require_logical_text (cd_secret_ref c)) (\<lambda>_. Inr c))))))"

record logical_schema_definition =
  ls_schema_id :: pystr
  ls_schema :: canonical_schema
  ls_equality :: "field_equality list"
  ls_logical_schema_digest :: pystr

definition mk_LogicalSchemaDefinition :: "logical_schema_definition \<Rightarrow> exn + logical_schema_definition" where
  "mk_LogicalSchemaDefinition s =
     ebind (require_logical_text (ls_schema_id s)) (\<lambda>_.
     ebind (contract_require (length (ls_equality s) = length (cs_fields (ls_schema s)))) (\<lambda>_.
     ebind (contract_require_sha256 (ls_logical_schema_digest s)) (\<lambda>_.
     ebind (schema_digest_hex (ls_schema s)) (\<lambda>digest.
     ebind (contract_require (ls_logical_schema_digest s = asc digest)) (\<lambda>_. Inr s)))))"

record relation_locator =
  rl_catalog :: "pystr option"
  rl_schema :: pystr
  rl_name :: pystr
  rl_relation_scope :: relation_scope

definition mk_RelationLocator :: "relation_locator \<Rightarrow> exn + relation_locator" where
  "mk_RelationLocator l =
     ebind (case rl_catalog l of None \<Rightarrow> Inr () | Some c \<Rightarrow> require_physical_text c) (\<lambda>_.
     ebind (require_physical_text (rl_schema l)) (\<lambda>_.
     ebind (require_physical_text (rl_name l)) (\<lambda>_. Inr l)))"

record sql_parameter =
  sqp_name :: pystr
  sqp_field :: field_schema

definition mk_SqlParameterDefinition :: "sql_parameter \<Rightarrow> exn + sql_parameter" where
  "mk_SqlParameterDefinition p =
     ebind (require_logical_text (sqp_name p)) (\<lambda>_.
     ebind (require_parameter_field (sqp_name p) (sqp_field p)) (\<lambda>_. Inr p))"

record sql_artifact =
  sa_path :: pystr
  sa_dialect :: sql_dialect
  sa_parameters :: "sql_parameter list"
  sa_content :: pystr
  sa_content_sha256 :: pystr

definition mk_SqlArtifactDefinition :: "sql_artifact \<Rightarrow> exn + sql_artifact" where
  "mk_SqlArtifactDefinition a =
     ebind (require_unique_names (map sqp_name (sa_parameters a))) (\<lambda>_.
     ebind (contract_require (\<not> is_blank (sa_content a))) (\<lambda>_.
     case utf8_encode (sa_content a) of
       Inl e \<Rightarrow> Inl ContractValidationError
     | Inr encoded \<Rightarrow>
         ebind (contract_require_sha256 (sa_content_sha256 a)) (\<lambda>_.
         ebind (contract_require (asc (bytes_hex (sha256 encoded)) = sa_content_sha256 a)) (\<lambda>_. Inr a))))"

datatype dataset_locator = RelationDataset relation_locator | SqlDataset sql_artifact

record readiness_columns =
  rmc_dataset_id :: pystr
  rmc_scope_digest :: pystr
  rmc_batch_id :: pystr
  rmc_state :: pystr
  rmc_business_date :: pystr
  rmc_source_cut :: pystr
  rmc_dataset_version :: pystr
  rmc_completed_at :: pystr

definition readiness_columns_values :: "readiness_columns \<Rightarrow> pystr list" where
  "readiness_columns_values c =
     [rmc_dataset_id c, rmc_scope_digest c, rmc_batch_id c, rmc_state c, rmc_business_date c,
      rmc_source_cut c, rmc_dataset_version c, rmc_completed_at c]"

definition mk_ReadinessManifestColumns :: "readiness_columns \<Rightarrow> exn + readiness_columns" where
  "mk_ReadinessManifestColumns c =
     (let values = readiness_columns_values c in
      ebind (check_all require_physical_text values) (\<lambda>_.
      ebind (contract_require (card (set values) = length values)) (\<lambda>_. Inr c)))"

record manifest_readiness =
  mr_connection_id :: pystr
  mr_relation :: relation_locator
  mr_columns :: readiness_columns

definition mk_RelationManifestReadiness :: "manifest_readiness \<Rightarrow> exn + manifest_readiness" where
  "mk_RelationManifestReadiness r =
     ebind (require_logical_text (mr_connection_id r)) (\<lambda>_.
     ebind (contract_require (rl_catalog (mr_relation r) = None)) (\<lambda>_.
     ebind (contract_require (rl_relation_scope (mr_relation r) = PHYSICAL_ONLY)) (\<lambda>_. Inr r)))"

datatype readiness_definition = SqlReadiness sql_artifact | ManifestReadiness manifest_readiness

record projected_field =
  pj_field_name :: pystr
  pj_column_name :: pystr

definition mk_ProjectedField :: "projected_field \<Rightarrow> exn + projected_field" where
  "mk_ProjectedField p =
     ebind (require_logical_text (pj_field_name p)) (\<lambda>_.
     ebind (require_physical_text (pj_column_name p)) (\<lambda>_. Inr p))"

definition require_nonnullable_fields :: "pystr list \<Rightarrow> logical_schema_definition \<Rightarrow> exn + unit" where
  "require_nonnullable_fields values s =
     ebind (require_unique_names values) (\<lambda>_.
     ebind (contract_require (values \<noteq> [])) (\<lambda>_.
     let by_name = map_of (rev (map (\<lambda>f. (fs_name f, f)) (cs_fields (ls_schema s)))) in
     check_all (\<lambda>value.
       case by_name value of
         None \<Rightarrow> Inl ContractValidationError
       | Some field \<Rightarrow> contract_require (\<not> fs_nullable field)) values))"

record dataset_definition =
  ds_dataset_id :: pystr
  ds_connection :: connection_definition
  ds_locator :: dataset_locator
  ds_logical_schema :: logical_schema_definition
  ds_projection :: "projected_field list"
  ds_grain :: "pystr list"

record scope_parameter =
  scp_name :: pystr
  scp_field :: field_schema

definition mk_ScopeParameterDefinition :: "scope_parameter \<Rightarrow> exn + scope_parameter" where
  "mk_ScopeParameterDefinition p =
     ebind (require_logical_text (scp_name p)) (\<lambda>_.
     ebind (require_parameter_field (scp_name p) (scp_field p)) (\<lambda>_. Inr p))"

record scope_binding =
  sb_dataset_id :: pystr
  sb_column :: pystr
  sb_operator :: scope_operator
  sb_parameter :: pystr

definition mk_ScopeBinding :: "scope_binding \<Rightarrow> exn + scope_binding" where
  "mk_ScopeBinding b =
     ebind (require_logical_text (sb_dataset_id b)) (\<lambda>_.
     ebind (require_physical_text (sb_column b)) (\<lambda>_.
     ebind (require_logical_text (sb_parameter b)) (\<lambda>_. Inr b)))"

record scope_definition =
  sd_parameters :: "scope_parameter list"
  sd_bindings :: "scope_binding list"
  sd_null_partition :: null_partition_policy

definition mk_ScopeDefinition :: "scope_definition \<Rightarrow> exn + scope_definition" where
  "mk_ScopeDefinition s =
     ebind (contract_require (\<not> length (sd_parameters s) > 1)) (\<lambda>_.
     ebind (require_unique_names (map scp_name (sd_parameters s))) (\<lambda>_.
     ebind (require_unique_names (map sb_dataset_id (sd_bindings s))) (\<lambda>_.
     let parameter_names = set (map scp_name (sd_parameters s)) in
     ebind (contract_require (\<not> (parameter_names = {} \<and> sd_bindings s \<noteq> []))) (\<lambda>_.
     ebind (check_all (\<lambda>b. contract_require (sb_parameter b \<in> parameter_names)) (sd_bindings s)) (\<lambda>_.
     Inr s)))))"

record consistency_dataset =
  cds_dataset_id :: pystr
  cds_readiness :: readiness_definition
  cds_stable_read :: stable_read_kind

definition mk_ConsistencyDatasetDefinition :: "consistency_dataset \<Rightarrow> exn + consistency_dataset" where
  "mk_ConsistencyDatasetDefinition d = ebind (require_logical_text (cds_dataset_id d)) (\<lambda>_. Inr d)"

record consistency_definition =
  cdf_minimum_evidence :: minimum_evidence
  cdf_alignment_fields :: "pystr list"
  cdf_late_arrivals :: late_arrival_policy
  cdf_datasets :: "consistency_dataset list"

definition mk_ConsistencyDefinition :: "consistency_definition \<Rightarrow> exn + consistency_definition" where
  "mk_ConsistencyDefinition c =
     ebind (require_unique_names (cdf_alignment_fields c)) (\<lambda>_.
     ebind (contract_require (cdf_alignment_fields c \<noteq> [])) (\<lambda>_.
     ebind (contract_require (cdf_datasets c \<noteq> [])) (\<lambda>_.
     ebind (require_unique_names (map cds_dataset_id (cdf_datasets c))) (\<lambda>_. Inr c))))"

record evidence_field_policy =
  efp_field_name :: pystr
  efp_action :: evidence_action

definition mk_EvidenceFieldPolicy :: "evidence_field_policy \<Rightarrow> exn + evidence_field_policy" where
  "mk_EvidenceFieldPolicy p = ebind (require_logical_text (efp_field_name p)) (\<lambda>_. Inr p)"

record evidence_definition =
  edf_sql_capture :: capture_policy
  edf_ddl_capture :: capture_policy
  edf_fields :: "evidence_field_policy list"
  edf_unspecified_fields :: evidence_action

definition mk_EvidenceDefinition :: "evidence_definition \<Rightarrow> exn + evidence_definition" where
  "mk_EvidenceDefinition e =
     ebind (require_unique_names (map efp_field_name (edf_fields e))) (\<lambda>_. Inr e)"

record row_check =
  rc_check_id :: pystr
  rc_revision :: int
  rc_reference :: dataset_definition
  rc_target :: dataset_definition
  rc_comparison_schema :: logical_schema_definition
  rc_key :: "pystr list"
  rc_scope :: scope_definition
  rc_consistency :: consistency_definition
  rc_assurance_policy :: assurance_policy
  rc_contract_digest :: pystr

section \<open>Semantic values and digests\<close>

definition SEMANTIC_DIGEST_PROTOCOL :: pystr where
  "SEMANTIC_DIGEST_PROTOCOL = asc ''dfe_semantic_v1''"

definition optional_text :: "pystr option \<Rightarrow> jval" where
  "optional_text v = (case v of None \<Rightarrow> JNull | Some s \<Rightarrow> JStr s)"

definition field_type_semantics :: "field_schema \<Rightarrow> jval" where
  "field_type_semantics f = JObj
     [(asc ''kind'', JStr (logical_type_value (fs_logical_type f))),
      (asc ''normalization'', JStr (normalization_value (fs_normalization f))),
      (asc ''parameters'', parameters_metadata f)]"

definition named_type_semantics :: "pystr \<Rightarrow> field_schema \<Rightarrow> jval" where
  "named_type_semantics name field =
     JObj [(asc ''name'', JStr name), (asc ''type'', field_type_semantics field)]"

definition sql_parameters_semantic_value :: "sql_parameter list \<Rightarrow> jval" where
  "sql_parameters_semantic_value ps = JArr (map (\<lambda>p. named_type_semantics (sqp_name p) (sqp_field p)) ps)"

definition connection_semantics :: "connection_definition \<Rightarrow> jval" where
  "connection_semantics c = JObj
     [(asc ''adapter'', JStr (adapter_value (cd_adapter c))),
      (asc ''connection_id'', JStr (cd_connection_id c)),
      (asc ''driver'', JStr (cd_driver c)),
      (asc ''profile'', JStr (cd_profile c))]"

definition schema_semantics :: "logical_schema_definition \<Rightarrow> jval" where
  "schema_semantics s = JObj
     [(asc ''equality'', JArr (map (\<lambda>e. JStr (field_equality_value e)) (ls_equality s))),
      (asc ''logical_schema_digest'', JStr (ls_logical_schema_digest s))]"

definition relation_semantics :: "relation_locator \<Rightarrow> jval" where
  "relation_semantics l = JObj
     [(asc ''catalog'', optional_text (rl_catalog l)),
      (asc ''kind'', JStr (asc ''relation'')),
      (asc ''name'', JStr (rl_name l)),
      (asc ''relation_scope'', JStr (relation_scope_value (rl_relation_scope l))),
      (asc ''schema'', JStr (rl_schema l))]"

definition sql_artifact_semantics :: "sql_artifact \<Rightarrow> jval" where
  "sql_artifact_semantics a = JObj
     [(asc ''content_sha256'', JStr (sa_content_sha256 a)),
      (asc ''dialect'', JStr (sql_dialect_value (sa_dialect a))),
      (asc ''kind'', JStr (asc ''sql'')),
      (asc ''parameters'', sql_parameters_semantic_value (sa_parameters a))]"

fun locator_semantics :: "dataset_locator \<Rightarrow> jval" where
  "locator_semantics (RelationDataset l) = relation_semantics l"
| "locator_semantics (SqlDataset a) = sql_artifact_semantics a"

fun readiness_semantics :: "readiness_definition \<Rightarrow> jval" where
  "readiness_semantics (SqlReadiness a) = sql_artifact_semantics a"
| "readiness_semantics (ManifestReadiness r) = JObj
     [(asc ''columns'', JObj
        [(asc ''batch_id'', JStr (rmc_batch_id (mr_columns r))),
         (asc ''business_date'', JStr (rmc_business_date (mr_columns r))),
         (asc ''completed_at'', JStr (rmc_completed_at (mr_columns r))),
         (asc ''dataset_id'', JStr (rmc_dataset_id (mr_columns r))),
         (asc ''dataset_version'', JStr (rmc_dataset_version (mr_columns r))),
         (asc ''scope_digest'', JStr (rmc_scope_digest (mr_columns r))),
         (asc ''source_cut'', JStr (rmc_source_cut (mr_columns r))),
         (asc ''state'', JStr (rmc_state (mr_columns r)))]),
      (asc ''connection_id'', JStr (mr_connection_id r)),
      (asc ''kind'', JStr (asc ''relation_manifest'')),
      (asc ''relation'', relation_semantics (mr_relation r))]"

definition dataset_body_semantics :: "dataset_definition \<Rightarrow> jval" where
  "dataset_body_semantics d = JObj
     [(asc ''connection'', connection_semantics (ds_connection d)),
      (asc ''dataset_id'', JStr (ds_dataset_id d)),
      (asc ''grain'', JArr (map JStr (ds_grain d))),
      (asc ''locator'', locator_semantics (ds_locator d)),
      (asc ''logical_schema'', schema_semantics (ds_logical_schema d)),
      (asc ''projection'', JArr (map (\<lambda>p. JObj
         [(asc ''column'', JStr (pj_column_name p)), (asc ''field'', JStr (pj_field_name p))])
         (ds_projection d)))]"

definition dataset_semantic_value :: "dataset_definition \<Rightarrow> jval" where
  "dataset_semantic_value d = JObj
     [(asc ''canonical_protocol'', JStr PROTOCOL),
      (asc ''dataset'', dataset_body_semantics d),
      (asc ''semantic_protocol'', JStr SEMANTIC_DIGEST_PROTOCOL)]"

definition dataset_digest_hex :: "dataset_definition \<Rightarrow> exn + string" where
  "dataset_digest_hex d = semantic_digest_hex (dataset_semantic_value d)"

definition scope_semantics :: "scope_definition \<Rightarrow> jval" where
  "scope_semantics s = JObj
     [(asc ''bindings'', JArr (map (\<lambda>b. JObj
        [(asc ''column'', JStr (sb_column b)),
         (asc ''dataset_id'', JStr (sb_dataset_id b)),
         (asc ''operator'', JStr (scope_operator_value (sb_operator b))),
         (asc ''parameter'', JStr (sb_parameter b))]) (sd_bindings s))),
      (asc ''null_partition'', JStr (null_partition_policy_value (sd_null_partition s))),
      (asc ''parameters'', JArr (map (\<lambda>p. named_type_semantics (scp_name p) (scp_field p)) (sd_parameters s)))]"

definition consistency_semantics :: "consistency_definition \<Rightarrow> jval" where
  "consistency_semantics c = JObj
     [(asc ''alignment_fields'', JArr (map JStr (cdf_alignment_fields c))),
      (asc ''datasets'', JArr (map (\<lambda>d. JObj
        [(asc ''dataset_id'', JStr (cds_dataset_id d)),
         (asc ''readiness'', readiness_semantics (cds_readiness d)),
         (asc ''stable_read'', JStr (stable_read_kind_value (cds_stable_read d)))]) (cdf_datasets c))),
      (asc ''late_arrivals'', JStr (late_arrival_policy_value (cdf_late_arrivals c))),
      (asc ''minimum_evidence'', JStr (minimum_evidence_value (cdf_minimum_evidence c)))]"

definition contract_semantic_value :: "int \<Rightarrow> row_check \<Rightarrow> jval" where
  "contract_semantic_value config_version c = JObj
     [(asc ''assurance_policy'', JStr (assurance_policy_value (rc_assurance_policy c))),
      (asc ''canonical_protocol'', JStr PROTOCOL),
      (asc ''config_version'', JInt config_version),
      (asc ''consistency'', consistency_semantics (rc_consistency c)),
      (asc ''direction'', JObj
        [(asc ''reference'', dataset_body_semantics (rc_reference c)),
         (asc ''target'', dataset_body_semantics (rc_target c))]),
      (asc ''invariant'', JStr (asc ''row_equivalence'')),
      (asc ''key'', JArr (map JStr (rc_key c))),
      (asc ''logical_schema'', schema_semantics (rc_comparison_schema c)),
      (asc ''scope'', scope_semantics (rc_scope c)),
      (asc ''semantic_protocol'', JStr SEMANTIC_DIGEST_PROTOCOL)]"

definition contract_digest_hex :: "int \<Rightarrow> row_check \<Rightarrow> exn + string" where
  "contract_digest_hex config_version c = semantic_digest_hex (contract_semantic_value config_version c)"

section \<open>Datasets and row checks\<close>

text \<open>The digest that \<open>DatasetDefinition\<close> stores is \<open>dataset_digest_hex\<close>; computing it may raise.\<close>

definition mk_DatasetDefinition :: "dataset_definition \<Rightarrow> exn + dataset_definition" where
  "mk_DatasetDefinition d =
     ebind (require_logical_text (ds_dataset_id d)) (\<lambda>_.
     ebind (case ds_locator d of
              RelationDataset l \<Rightarrow> contract_require (rl_catalog l = None)
            | SqlDataset a \<Rightarrow> Inr ()) (\<lambda>_.
     ebind (contract_require (map pj_field_name (ds_projection d) =
         map fs_name (cs_fields (ls_schema (ds_logical_schema d))))) (\<lambda>_.
     ebind (require_nonnullable_fields (ds_grain d) (ds_logical_schema d)) (\<lambda>_.
     ebind (dataset_digest_hex d) (\<lambda>_. Inr d)))))"

text \<open>A dict built from pairs keeps the last value of a repeated key.\<close>

definition dict_of :: "('k \<times> 'v) list \<Rightarrow> 'k \<Rightarrow> 'v option" where
  "dict_of pairs = map_of (rev pairs)"

definition require_check_scope_bindings ::
    "scope_definition \<Rightarrow> dataset_definition \<Rightarrow> dataset_definition \<Rightarrow> exn + unit" where
  "require_check_scope_bindings s reference target =
     (let parameters = dict_of (map (\<lambda>p. (scp_name p, scp_field p)) (sd_parameters s));
          datasets = dict_of [(ds_dataset_id reference, reference), (ds_dataset_id target, target)] in
      check_all (\<lambda>b.
        case datasets (sb_dataset_id b) of
          None \<Rightarrow> Inl ContractValidationError
        | Some dataset \<Rightarrow>
            (case parameters (sb_parameter b) of
               None \<Rightarrow> Inl ContractValidationError
             | Some parameter \<Rightarrow>
                 (let logical_names = map pj_field_name
                        (filter (\<lambda>p. pj_column_name p = sb_column b) (ds_projection dataset)) in
                  ebind (contract_require (\<not> length logical_names > 1)) (\<lambda>_.
                  case logical_names of
                    [] \<Rightarrow> Inr ()
                  | name # _ \<Rightarrow>
                      (case dict_of (map (\<lambda>f. (fs_name f, f))
                              (cs_fields (ls_schema (ds_logical_schema dataset)))) name of
                         None \<Rightarrow> Inl KeyError
                       | Some field \<Rightarrow> contract_require (same_logical_type field parameter))))))
        (sd_bindings s))"

fun parameter_subset_loop :: "field_schema list \<Rightarrow> int \<Rightarrow> field_schema list \<Rightarrow> exn + unit" where
  "parameter_subset_loop expected last_position [] = Inr ()"
| "parameter_subset_loop expected last_position (field # rest) =
     (case dict_of (zip (map fs_name expected) [0..<length expected]) (fs_name field) of
        None \<Rightarrow> Inl ContractValidationError
      | Some position \<Rightarrow>
          ebind (contract_require (\<not> int position \<le> last_position)) (\<lambda>_.
          ebind (contract_require (same_logical_type (expected ! position) field)) (\<lambda>_.
          parameter_subset_loop expected (int position) rest)))"

definition require_parameter_subset :: "field_schema list \<Rightarrow> field_schema list \<Rightarrow> exn + unit" where
  "require_parameter_subset expected actual = parameter_subset_loop expected (- 1) actual"

definition require_matching_schema :: "row_check \<Rightarrow> dataset_definition \<Rightarrow> exn + unit" where
  "require_matching_schema c d =
     contract_require (\<not> (ls_logical_schema_digest (ds_logical_schema d) \<noteq>
         ls_logical_schema_digest (rc_comparison_schema c) \<or>
       ls_equality (ds_logical_schema d) \<noteq> ls_equality (rc_comparison_schema c)))"

definition require_locator_parameters :: "field_schema list \<Rightarrow> dataset_definition \<Rightarrow> exn + unit" where
  "require_locator_parameters expected d =
     (case ds_locator d of
        SqlDataset a \<Rightarrow> require_parameter_subset expected (map sqp_field (sa_parameters a))
      | RelationDataset l \<Rightarrow> Inr ())"

definition require_readiness_closure ::
    "field_schema list \<Rightarrow> consistency_dataset \<times> dataset_definition \<Rightarrow> exn + unit" where
  "require_readiness_closure expected = (\<lambda>(item, dataset).
     case cds_readiness item of
       SqlReadiness a \<Rightarrow> require_parameter_subset expected (map sqp_field (sa_parameters a))
     | ManifestReadiness r \<Rightarrow>
         contract_require (mr_connection_id r = cd_connection_id (ds_connection dataset)))"

definition mk_RowCheckDefinition :: "row_check \<Rightarrow> exn + row_check" where
  "mk_RowCheckDefinition c =
     (let reference = rc_reference c; target = rc_target c;
          expected_parameters = map scp_field (sd_parameters (rc_scope c)) in
      ebind (require_logical_text (rc_check_id c)) (\<lambda>_.
      ebind (require_positive_integer (rc_revision c)) (\<lambda>_.
      ebind (contract_require (ds_dataset_id reference \<noteq> ds_dataset_id target)) (\<lambda>_.
      ebind (contract_require (ROLE_SOURCE \<in> set (cd_roles (ds_connection reference)))) (\<lambda>_.
      ebind (contract_require (ROLE_TARGET \<in> set (cd_roles (ds_connection target)))) (\<lambda>_.
      ebind (check_all (require_matching_schema c) [reference, target]) (\<lambda>_.
      ebind (require_nonnullable_fields (rc_key c) (rc_comparison_schema c)) (\<lambda>_.
      ebind (contract_require (\<not> (ds_grain reference \<noteq> rc_key c \<or> ds_grain target \<noteq> rc_key c))) (\<lambda>_.
      ebind (if sd_parameters (rc_scope c) \<noteq> [] then
               contract_require (map sb_dataset_id (sd_bindings (rc_scope c)) =
                 [ds_dataset_id reference, ds_dataset_id target])
             else Inr ()) (\<lambda>_.
      ebind (require_check_scope_bindings (rc_scope c) reference target) (\<lambda>_.
      ebind (check_all (require_locator_parameters expected_parameters) [reference, target]) (\<lambda>_.
      ebind (contract_require (map cds_dataset_id (cdf_datasets (rc_consistency c)) =
          [ds_dataset_id reference, ds_dataset_id target])) (\<lambda>_.
      ebind (check_all (require_readiness_closure expected_parameters)
          (zip (cdf_datasets (rc_consistency c)) [reference, target])) (\<lambda>_.
      ebind (contract_digest_hex 1 c) (\<lambda>digest.
      Inr (c\<lparr>rc_contract_digest := asc digest\<rparr>))))))))))))))))"

end
