(* ===== verification/Comparison_Rows.thy ===== *)
theory Comparison_Rows
  imports Comparison_Model Contract_Model
begin

text \<open>
  The row-level part of \<open>src/forensic_data/comparison.py\<close>: key ranges and how they are split, the nodes of
  one fingerprint level, grouping of the exact rows, their merge by key, the classification of an
  exact leaf, and the retention of difference evidence within its budget. The clock is a parameter:
  \<open>clock w\<close> is the value of \<open>time.monotonic_ns()\<close> in the world \<open>w\<close> and the world after the call. A
  Python loop over two indices is a recursion on what is left of the two lists.
\<close>

type_synonym 'w clock = "'w \<Rightarrow> int \<times> 'w"

definition DEADLINE_CHECK_RECORDS :: nat where
  "DEADLINE_CHECK_RECORDS = 64"

definition require_deadline :: "'w clock \<Rightarrow> int \<Rightarrow> ('w, cause, unit) eff" where
  "require_deadline clock deadline_nanoseconds = (\<lambda>w.
     case clock w of (now, w') \<Rightarrow>
       wrequire (\<not> now \<ge> deadline_nanoseconds) (Raised ComparisonBudgetExceededError) w')"

definition require_deadline_at :: "'w clock \<Rightarrow> int \<Rightarrow> nat \<Rightarrow> ('w, cause, unit) eff" where
  "require_deadline_at clock deadline_nanoseconds index =
     (if index mod DEADLINE_CHECK_RECORDS = 0 then require_deadline clock deadline_nanoseconds
      else wreturn ())"

section \<open>Segments\<close>

definition segment_id :: "int \<Rightarrow> exn + pystr" where
  "segment_id segment_sequence =
     ebind (require_nonnegative_integer segment_sequence) (\<lambda>_.
     Inr (asc (''s'' @ int_str segment_sequence)))"

definition range_request_of :: "pending_segment \<Rightarrow> exn + range_request" where
  "range_request_of segment =
     ebind (segment_id (pe_segment_sequence segment)) (\<lambda>identifier.
     mk_PostgresIntegerRangeRequest
       \<lparr>rq_segment_id = identifier, rq_lower_inclusive = pe_lower_inclusive segment,
        rq_upper_exclusive = pe_upper_exclusive segment\<rparr>)"

definition root_segment :: "key_summary \<Rightarrow> key_summary \<Rightarrow> pending_segment" where
  "root_segment reference target =
     (let minimums = List.map_filter id [ks_minimum_key reference, ks_minimum_key target];
          maximums = List.map_filter id [ks_maximum_key reference, ks_maximum_key target];
          (lower, upper) =
            (if minimums = [] then (INT64_MIN, None)
             else (let maximum = fold max maximums (hd maximums) in
                   (fold min minimums (hd minimums),
                    if maximum = INT64_MAX then None else Some (maximum + 1)))) in
      \<lparr>pe_segment_sequence = 0, pe_parent_segment_sequence = None, pe_depth = 0,
       pe_lower_inclusive = lower, pe_upper_exclusive = upper\<rparr>)"

definition mathematical_upper :: "pending_segment \<Rightarrow> int" where
  "mathematical_upper segment =
     (case pe_upper_exclusive segment of None \<Rightarrow> INT64_MAX + 1 | Some u \<Rightarrow> u)"

definition split_segment :: "pending_segment \<Rightarrow> int \<Rightarrow> (pending_segment \<times> pending_segment) option" where
  "split_segment segment next_sequence =
     (let width = mathematical_upper segment - pe_lower_inclusive segment in
      if width \<le> 1 then None
      else
        (let midpoint = pe_lower_inclusive segment + width div 2;
             child_depth = pe_depth segment + 1 in
         Some
           (\<lparr>pe_segment_sequence = next_sequence,
             pe_parent_segment_sequence = Some (pe_segment_sequence segment),
             pe_depth = child_depth,
             pe_lower_inclusive = pe_lower_inclusive segment,
             pe_upper_exclusive = Some midpoint\<rparr>,
            \<lparr>pe_segment_sequence = next_sequence + 1,
             pe_parent_segment_sequence = Some (pe_segment_sequence segment),
             pe_depth = child_depth,
             pe_lower_inclusive = midpoint,
             pe_upper_exclusive = pe_upper_exclusive segment\<rparr>)))"

definition segment_record_of :: "fingerprint_node \<Rightarrow> segment_state \<Rightarrow> exn + segment_record" where
  "segment_record_of node state =
     (let s = fn_segment node in
      mk_ComparisonSegmentRecord
        \<lparr>sr_segment_sequence = pe_segment_sequence s,
         sr_parent_segment_sequence = pe_parent_segment_sequence s,
         sr_depth = pe_depth s,
         sr_lower_inclusive = pe_lower_inclusive s,
         sr_upper_exclusive = pe_upper_exclusive s,
         sr_state = state,
         sr_reference_fingerprint = rf_fingerprint (fn_reference node),
         sr_target_fingerprint = rf_fingerprint (fn_target node)\<rparr>)"

section \<open>One fingerprint level\<close>

fun fingerprint_nodes_loop ::
    "'w clock \<Rightarrow> int \<Rightarrow> nat \<Rightarrow> (pending_segment \<times> range_fingerprint \<times> range_fingerprint) list \<Rightarrow>
     fingerprint_node list \<Rightarrow> ('w, cause, fingerprint_node list) eff" where
  "fingerprint_nodes_loop clock deadline index [] result =
     wbind (require_deadline clock deadline) (\<lambda>_. wreturn result)"
| "fingerprint_nodes_loop clock deadline index ((segment, reference_range, target_range) # rest) result =
     wbind (require_deadline_at clock deadline index) (\<lambda>_.
     wbind (raised (segment_id (pe_segment_sequence segment))) (\<lambda>expected_id.
     wbind (wrequire (\<not> (rf_segment_id reference_range \<noteq> expected_id \<or>
         rf_segment_id target_range \<noteq> expected_id)) (Raised ComparisonProtocolError)) (\<lambda>_.
     fingerprint_nodes_loop clock deadline (Suc index) rest
       (result @ [\<lparr>fn_segment = segment, fn_reference = reference_range, fn_target = target_range\<rparr>]))))"

definition fingerprint_nodes ::
    "'w clock \<Rightarrow> int \<Rightarrow> pending_segment list \<Rightarrow> range_fingerprint_read \<Rightarrow> range_fingerprint_read \<Rightarrow>
     ('w, cause, fingerprint_node list) eff" where
  "fingerprint_nodes clock deadline pending reference target =
     wbind (wrequire (\<not> (length (rfr_ranges reference) \<noteq> length pending \<or>
         length (rfr_ranges target) \<noteq> length pending)) (Raised ComparisonProtocolError)) (\<lambda>_.
     fingerprint_nodes_loop clock deadline 0
       (zip pending (zip (rfr_ranges reference) (rfr_ranges target))) [])"

definition nodes_agree :: "fingerprint_node \<Rightarrow> bool" where
  "nodes_agree node \<longleftrightarrow> rf_fingerprint (fn_reference node) = rf_fingerprint (fn_target node)"

fun partition_nodes_loop ::
    "'w clock \<Rightarrow> int \<Rightarrow> nat \<Rightarrow> fingerprint_node list \<Rightarrow> fingerprint_node list \<Rightarrow> fingerprint_node list \<Rightarrow>
     ('w, cause, fingerprint_node list \<times> fingerprint_node list) eff" where
  "partition_nodes_loop clock deadline index [] matching mismatching =
     wbind (require_deadline clock deadline) (\<lambda>_. wreturn (matching, mismatching))"
| "partition_nodes_loop clock deadline index (node # nodes) matching mismatching =
     wbind (require_deadline_at clock deadline index) (\<lambda>_.
     if nodes_agree node
     then partition_nodes_loop clock deadline (Suc index) nodes (matching @ [node]) mismatching
     else partition_nodes_loop clock deadline (Suc index) nodes matching (mismatching @ [node]))"

definition partition_fingerprint_nodes ::
    "'w clock \<Rightarrow> int \<Rightarrow> fingerprint_node list \<Rightarrow>
     ('w, cause, fingerprint_node list \<times> fingerprint_node list) eff" where
  "partition_fingerprint_nodes clock deadline nodes = partition_nodes_loop clock deadline 0 nodes [] []"

section \<open>Exact rows\<close>

text \<open>A dict from segment ID to its rows, in insertion order.\<close>

type_synonym row_groups = "(pystr \<times> exact_row list) list"

definition group_rows :: "row_groups \<Rightarrow> pystr \<Rightarrow> exact_row list option" where
  "group_rows groups identifier = map_of groups identifier"

definition append_to_group :: "exact_row \<Rightarrow> row_groups \<Rightarrow> row_groups" where
  "append_to_group row groups =
     map (\<lambda>(k, rows). (k, if k = er_segment_id row then rows @ [row] else rows)) groups"

fun group_rows_loop ::
    "'w clock \<Rightarrow> int \<Rightarrow> nat \<Rightarrow> exact_row list \<Rightarrow> row_groups \<Rightarrow> ('w, cause, row_groups) eff" where
  "group_rows_loop clock deadline index [] groups = wreturn groups"
| "group_rows_loop clock deadline index (row # rows) groups =
     wbind (require_deadline_at clock deadline index) (\<lambda>_.
     wbind (wrequire (group_rows groups (er_segment_id row) \<noteq> None) (Raised ComparisonProtocolError)) (\<lambda>_.
     group_rows_loop clock deadline (Suc index) rows (append_to_group row groups)))"

text \<open>The second loop of \<open>_group_exact_rows\<close> copies each list into a tuple.\<close>

fun freeze_groups_loop ::
    "'w clock \<Rightarrow> int \<Rightarrow> nat \<Rightarrow> row_groups \<Rightarrow> row_groups \<Rightarrow> ('w, cause, row_groups) eff" where
  "freeze_groups_loop clock deadline index [] grouped = wreturn grouped"
| "freeze_groups_loop clock deadline index (entry # entries) grouped =
     wbind (require_deadline_at clock deadline index) (\<lambda>_.
     freeze_groups_loop clock deadline (Suc index) entries (grouped @ [entry]))"

definition group_exact_rows ::
    "'w clock \<Rightarrow> int \<Rightarrow> exact_row list \<Rightarrow> pystr list \<Rightarrow> ('w, cause, row_groups) eff" where
  "group_exact_rows clock deadline rows segment_ids =
     wbind (group_rows_loop clock deadline 0 rows (map (\<lambda>i. (i, [])) (rev (remdups (rev segment_ids))))) (\<lambda>grouped_lists.
     wbind (freeze_groups_loop clock deadline 0 grouped_lists []) (\<lambda>grouped.
     wbind (require_deadline clock deadline) (\<lambda>_. wreturn grouped)))"

definition group_exact_frontier_rows ::
    "'w clock \<Rightarrow> int \<Rightarrow> fingerprint_node list \<Rightarrow> exact_rows_read \<Rightarrow> exact_rows_read \<Rightarrow>
     ('w, cause, row_groups \<times> row_groups) eff" where
  "group_exact_frontier_rows clock deadline nodes reference target =
     wbind (require_deadline clock deadline) (\<lambda>_.
     wbind (raised (traverse (\<lambda>n. segment_id (pe_segment_sequence (fn_segment n))) nodes)) (\<lambda>segment_ids.
     wbind (group_exact_rows clock deadline (err_rows reference) segment_ids) (\<lambda>reference_rows.
     wbind (group_exact_rows clock deadline (err_rows target) segment_ids) (\<lambda>target_rows.
     wbind (require_deadline clock deadline) (\<lambda>_.
     wreturn (reference_rows, target_rows))))))"

definition missing_difference :: "int \<Rightarrow> exact_row \<Rightarrow> exact_difference" where
  "missing_difference segment_sequence row =
     \<lparr>xd_segment_sequence = segment_sequence, xd_kind = MISSING, xd_key_row = row,
      xd_reference_row = Some row, xd_target_row = None\<rparr>"

definition extra_difference :: "int \<Rightarrow> exact_row \<Rightarrow> exact_difference" where
  "extra_difference segment_sequence row =
     \<lparr>xd_segment_sequence = segment_sequence, xd_kind = EXTRA, xd_key_row = row,
      xd_reference_row = None, xd_target_row = Some row\<rparr>"

definition modified_difference :: "int \<Rightarrow> exact_row \<Rightarrow> exact_row \<Rightarrow> exact_difference" where
  "modified_difference segment_sequence reference_row target_row =
     \<lparr>xd_segment_sequence = segment_sequence, xd_kind = MODIFIED, xd_key_row = reference_row,
      xd_reference_row = Some reference_row, xd_target_row = Some target_row\<rparr>"

text \<open>The three loops of \<open>_compare_exact_rows\<close>: both sides left, only the reference, only the target.\<close>

fun compare_rows_loop ::
    "'w clock \<Rightarrow> int \<Rightarrow> int \<Rightarrow> nat \<Rightarrow> exact_counts \<Rightarrow> exact_difference list \<Rightarrow>
     exact_row list \<Rightarrow> exact_row list \<Rightarrow> ('w, cause, exact_counts \<times> exact_difference list) eff" where
  "compare_rows_loop clock deadline seq classified c ds (r # rs) (t # ts) =
     wbind (require_deadline_at clock deadline classified) (\<lambda>_.
     if er_key_value r < er_key_value t then
       compare_rows_loop clock deadline seq (Suc classified) (c\<lparr>xc_missing := xc_missing c + 1\<rparr>)
         (ds @ [missing_difference seq r]) rs (t # ts)
     else if er_key_value r > er_key_value t then
       compare_rows_loop clock deadline seq (Suc classified) (c\<lparr>xc_extra := xc_extra c + 1\<rparr>)
         (ds @ [extra_difference seq t]) (r # rs) ts
     else
       wbind (wrequire (\<not> er_key_envelope r \<noteq> er_key_envelope t) (Raised ComparisonProtocolError)) (\<lambda>_.
       if er_row_envelope r = er_row_envelope t then
         compare_rows_loop clock deadline seq (Suc classified) (c\<lparr>xc_matched := xc_matched c + 1\<rparr>) ds rs ts
       else
         compare_rows_loop clock deadline seq (Suc classified) (c\<lparr>xc_modified := xc_modified c + 1\<rparr>)
           (ds @ [modified_difference seq r t]) rs ts))"
| "compare_rows_loop clock deadline seq classified c ds (r # rs) [] =
     wbind (require_deadline_at clock deadline classified) (\<lambda>_.
     compare_rows_loop clock deadline seq (Suc classified) (c\<lparr>xc_missing := xc_missing c + 1\<rparr>)
       (ds @ [missing_difference seq r]) rs [])"
| "compare_rows_loop clock deadline seq classified c ds [] (t # ts) =
     wbind (require_deadline_at clock deadline classified) (\<lambda>_.
     compare_rows_loop clock deadline seq (Suc classified) (c\<lparr>xc_extra := xc_extra c + 1\<rparr>)
       (ds @ [extra_difference seq t]) [] ts)"
| "compare_rows_loop clock deadline seq classified c ds [] [] =
     wbind (require_deadline clock deadline) (\<lambda>_.
     wbind (raised (mk_ExactCounts (xc_matched c) (xc_missing c) (xc_extra c) (xc_modified c))) (\<lambda>c'.
     wreturn (c', ds)))"

definition zero_counts :: exact_counts where
  "zero_counts = \<lparr>xc_matched = 0, xc_missing = 0, xc_extra = 0, xc_modified = 0\<rparr>"

definition compare_exact_rows ::
    "'w clock \<Rightarrow> int \<Rightarrow> exact_row list \<Rightarrow> exact_row list \<Rightarrow> int \<Rightarrow>
     ('w, cause, exact_counts \<times> exact_difference list) eff" where
  "compare_exact_rows clock deadline reference target segment_sequence =
     compare_rows_loop clock deadline segment_sequence 0 zero_counts [] reference target"

definition classify_exact_leaf ::
    "'w clock \<Rightarrow> int \<Rightarrow> fingerprint_node \<Rightarrow> exact_row list \<Rightarrow> exact_row list \<Rightarrow>
     ('w, cause, exact_counts \<times> segment_record \<times> exact_difference list) eff" where
  "classify_exact_leaf clock deadline node reference_rows target_rows =
     (let reference = rf_fingerprint (fn_reference node); target = rf_fingerprint (fn_target node) in
      wbind (require_deadline clock deadline) (\<lambda>_.
      wbind (wrequire (int (length reference_rows) = fp_count reference) (Raised ComparisonProtocolError)) (\<lambda>_.
      wbind (wrequire (int (length target_rows) = fp_count target) (Raised ComparisonProtocolError)) (\<lambda>_.
      wbind (compare_exact_rows clock deadline reference_rows target_rows
        (pe_segment_sequence (fn_segment node))) (\<lambda>(counts, differences).
      wbind (wrequire (xc_matched counts + xc_missing counts + xc_modified counts = fp_count reference)
        (Raised ComparisonProtocolError)) (\<lambda>_.
      wbind (wrequire (xc_matched counts + xc_extra counts + xc_modified counts = fp_count target)
        (Raised ComparisonProtocolError)) (\<lambda>_.
      let difference_count = xc_missing counts + xc_extra counts + xc_modified counts in
      wbind (wrequire (\<not> (difference_count = 0 \<and> reference \<noteq> target)) (Raised ComparisonProtocolError)) (\<lambda>_.
      let state = (if difference_count = 0 then EXACT_MATCH else EXACT_MISMATCH) in
      wbind (raised (segment_record_of node state)) (\<lambda>record.
      wreturn (counts, record, differences))))))))))"

definition add_exact_counts :: "exact_counts \<Rightarrow> exact_counts \<Rightarrow> exn + exact_counts" where
  "add_exact_counts left right =
     mk_ExactCounts (xc_matched left + xc_matched right) (xc_missing left + xc_missing right)
       (xc_extra left + xc_extra right) (xc_modified left + xc_modified right)"

section \<open>Difference evidence\<close>

definition evidence_actions :: "field_schema list \<Rightarrow> evidence_definition \<Rightarrow> exn + evidence_action list" where
  "evidence_actions schema_fields policy =
     (let overrides = map (\<lambda>i. (efp_field_name i, efp_action i)) (edf_fields policy);
          field_names = set (map fs_name schema_fields) in
      ebind (require (list_all (\<lambda>(name, _). name \<in> field_names) overrides) ComparisonProtocolError) (\<lambda>_.
      Inr (map (\<lambda>f. case dict_of overrides (fs_name f) of
                        None \<Rightarrow> edf_unspecified_fields policy | Some action \<Rightarrow> action) schema_fields)))"

definition field_type_parameters :: "field_schema \<Rightarrow> int option \<times> int option \<times> int option" where
  "field_type_parameters f =
     (case fs_parameters f of
        DecimalParameters precision scale \<Rightarrow> (Some precision, Some scale, None)
      | TimestampParameters precision \<Rightarrow> (None, None, Some precision)
      | NoParameters \<Rightarrow> (None, None, None))"

text \<open>\<open>format(value, "f")\<close> of a finite decimal: its digits in positional notation, without an exponent; a zero is
  first rescaled to a non-positive exponent.\<close>

definition format_decimal_f :: "bool \<Rightarrow> nat list \<Rightarrow> int \<Rightarrow> string" where
  "format_decimal_f sign ds e =
     (let text = map digit_char (if ds = [] then [0] else ds) in
      (if sign then ''-'' else []) @
      (if e > 0 \<and> list_all (\<lambda>d. d = 0) ds then ''0''
       else if e \<ge> 0 then text @ replicate (nat e) CHR ''0''
       else
         (let scale = nat (- e);
              padded = replicate (scale + 1 - length text) CHR ''0'' @ text;
              point = length padded - scale in
          take point padded @ ''.'' @ drop point padded)))"

text \<open>Decoding never yields a special decimal, an infinity or a NaN, whose texts are not modelled.\<close>

fun canonical_decoded_text :: "pyval \<Rightarrow> exn + pystr" where
  "canonical_decoded_text (PBool b) = Inr (asc (if b then ''true'' else ''false''))"
| "canonical_decoded_text (PInt i) = Inr (asc (int_str i))"
| "canonical_decoded_text (PDecimal (DFinite sign ds e)) = Inr (asc (format_decimal_f sign ds e))"
| "canonical_decoded_text (PDecimal DSpecial) = Inl ComparisonProtocolError"
| "canonical_decoded_text (PDate d) = Inr (asc (format_date d))"
| "canonical_decoded_text (PStr s) = Inr s"
| "canonical_decoded_text (PDateTime d) = Inl ComparisonProtocolError"

definition evidence_field_value_of ::
    "field_schema \<Rightarrow> pyval option \<Rightarrow> evidence_action \<Rightarrow> exn + evidence_field_value" where
  "evidence_field_value_of field v action =
     (case field_type_parameters field of (decimal_precision, decimal_scale, timestamp_precision) \<Rightarrow>
      if action = REDACT then
        mk_EvidenceFieldValue
          \<lparr>efv_field_name = fs_name field, efv_logical_type = fs_logical_type field,
           efv_decimal_precision = decimal_precision, efv_decimal_scale = decimal_scale,
           efv_timestamp_precision = timestamp_precision, efv_raw_available = False,
           efv_availability = REDACTED, efv_is_null = None, efv_canonical_text = None,
           efv_canonical_hex = None, efv_unavailable_reason = Some POLICY_REDACTED\<rparr>
      else
        ebind (require (action = STORE) AssertionError) (\<lambda>_.
        ebind (case v of None \<Rightarrow> Inr None | Some x \<Rightarrow> ebind (canonical_decoded_text x) (\<lambda>t. Inr (Some t)))
          (\<lambda>canonical_text.
        mk_EvidenceFieldValue
          \<lparr>efv_field_name = fs_name field, efv_logical_type = fs_logical_type field,
           efv_decimal_precision = decimal_precision, efv_decimal_scale = decimal_scale,
           efv_timestamp_precision = timestamp_precision, efv_raw_available = True,
           efv_availability = STORED, efv_is_null = Some (v = None),
           efv_canonical_text = canonical_text, efv_canonical_hex = None,
           efv_unavailable_reason = None\<rparr>)))"

text \<open>The fields of a row that are kept, each with its value and the policy's action.\<close>

type_synonym field_value = "field_schema \<times> pyval option \<times> evidence_action"

definition evidence_values :: "(field_value \<Rightarrow> bool) \<Rightarrow> field_value list \<Rightarrow> exn + evidence_field_value list" where
  "evidence_values selected triples =
     traverse (\<lambda>(f, v, a). evidence_field_value_of f v a)
       (filter (\<lambda>(f, v, a). selected (f, v, a) \<and> a \<noteq> OMIT) triples)"

definition side_evidence_values ::
    "exact_row option \<Rightarrow> field_schema list \<Rightarrow> evidence_action list \<Rightarrow> pystr list \<Rightarrow>
     exn + evidence_field_value list" where
  "side_evidence_values row schema_fields actions key_names =
     (case row of
        None \<Rightarrow> Inr []
      | Some r \<Rightarrow>
          ebind (require (length (er_values r) = length schema_fields) ComparisonProtocolError) (\<lambda>_.
          evidence_values (\<lambda>(f, v, a). fs_name f \<notin> set key_names)
            (zip schema_fields (zip (er_values r) actions))))"

definition difference_record_of ::
    "int \<Rightarrow> exact_difference \<Rightarrow> row_check \<Rightarrow> evidence_definition \<Rightarrow> exn + difference_record" where
  "difference_record_of sequence difference check policy =
     (let schema_fields = cs_fields (ls_schema (rc_comparison_schema check));
          key_row = xd_key_row difference;
          key_names = rc_key check in
      ebind (require (length (er_values key_row) = length schema_fields) ComparisonProtocolError) (\<lambda>_.
      ebind (evidence_actions schema_fields policy) (\<lambda>actions.
      ebind (evidence_values (\<lambda>(f, v, a). fs_name f \<in> set key_names)
        (zip schema_fields (zip (er_values key_row) actions))) (\<lambda>key_values.
      let all_key_fields_stored = list_all (\<lambda>(f, a). fs_name f \<in> set key_names \<longrightarrow> a = STORE)
            (zip schema_fields actions);
          key_availability = (if all_key_fields_stored then KEY_AVAILABLE else KEYSET_UNAVAILABLE) in
      ebind (if all_key_fields_stored then
               ebind (canonical_difference_key_bytes key_values) (\<lambda>b. Inr (Some (sha256_hexdigest b)))
             else Inr None) (\<lambda>key_digest.
      let omitted_field_names = map (\<lambda>(f, a). fs_name f) (filter (\<lambda>(f, a). a = OMIT) (zip schema_fields actions)) in
      ebind (side_evidence_values (xd_reference_row difference) schema_fields actions key_names) (\<lambda>reference_values.
      ebind (side_evidence_values (xd_target_row difference) schema_fields actions key_names) (\<lambda>target_values.
      mk_DifferenceRecord
        \<lparr>dr_sequence = sequence, dr_segment_sequence = xd_segment_sequence difference,
         dr_kind = xd_kind difference, dr_key_availability = key_availability,
         dr_key_digest = key_digest, dr_omitted_field_names = omitted_field_names,
         dr_key_values = key_values, dr_reference_values = reference_values,
         dr_target_values = target_values\<rparr>)))))))"

record retention =
  rt_anomalies :: "difference_record list"
  rt_found_records :: int
  rt_found_bytes :: int
  rt_retained_bytes :: int
  rt_retention_open :: bool

definition retain_difference ::
    "execution_budgets \<Rightarrow> difference_record \<Rightarrow> int \<Rightarrow> retention \<Rightarrow> retention" where
  "retain_difference budgets record record_bytes t =
     (let found = t\<lparr>rt_found_records := rt_found_records t + 1,
                    rt_found_bytes := rt_found_bytes t + record_bytes\<rparr> in
      if \<not> rt_retention_open t then found
      else if int (length (rt_anomalies t)) \<ge> eb_max_evidence_rows budgets then
        found\<lparr>rt_retention_open := False\<rparr>
      else if rt_retained_bytes t + record_bytes > eb_max_evidence_bytes budgets then
        found\<lparr>rt_retention_open := False\<rparr>
      else
        found\<lparr>rt_anomalies := rt_anomalies t @ [record],
              rt_retained_bytes := rt_retained_bytes t + record_bytes\<rparr>)"

fun retain_loop ::
    "'w clock \<Rightarrow> int \<Rightarrow> row_check \<Rightarrow> evidence_definition \<Rightarrow> execution_budgets \<Rightarrow> nat \<Rightarrow>
     exact_difference list \<Rightarrow> retention \<Rightarrow> ('w, cause, retention) eff" where
  "retain_loop clock deadline check policy budgets index [] t =
     wbind (require_deadline clock deadline) (\<lambda>_. wreturn t)"
| "retain_loop clock deadline check policy budgets index (difference # differences) t =
     wbind (require_deadline_at clock deadline index) (\<lambda>_.
     wbind (raised (difference_record_of (rt_found_records t) difference check policy)) (\<lambda>record.
     wbind (raised (canonical_difference_record_bytes record)) (\<lambda>payload.
     retain_loop clock deadline check policy budgets (Suc index) differences
       (retain_difference budgets record (int (length payload)) t))))"

definition retain_exact_differences ::
    "'w clock \<Rightarrow> progress \<Rightarrow> exact_difference list \<Rightarrow> row_check \<Rightarrow> evidence_definition \<Rightarrow>
     execution_budgets \<Rightarrow> int \<Rightarrow> ('w, cause, progress) eff" where
  "retain_exact_differences clock p differences check policy budgets deadline =
     wbind (retain_loop clock deadline check policy budgets 0 differences
       \<lparr>rt_anomalies = pg_anomalies p, rt_found_records = pg_found_records p,
        rt_found_bytes = pg_found_bytes p, rt_retained_bytes = pg_retained_bytes p,
        rt_retention_open = pg_retention_open p\<rparr>) (\<lambda>t.
     wreturn (p\<lparr>pg_anomalies := rt_anomalies t, pg_found_records := rt_found_records t,
       pg_found_bytes := rt_found_bytes t, pg_retained_bytes := rt_retained_bytes t,
       pg_retention_open := rt_retention_open t\<rparr>))"

section \<open>Ranges and their splits\<close>

definition segment_keys :: "pending_segment \<Rightarrow> int set" where
  "segment_keys s = {k. pe_lower_inclusive s \<le> k \<and> k < mathematical_upper s}"

definition wf_pending :: "pending_segment \<Rightarrow> bool" where
  "wf_pending s \<longleftrightarrow>
     validate_segment_position (pe_segment_sequence s) (pe_parent_segment_sequence s) (pe_depth s)
       (pe_lower_inclusive s) (pe_upper_exclusive s) = Inr ()"

lemma wf_pending_iff:
  "wf_pending s \<longleftrightarrow>
     0 \<le> pe_segment_sequence s \<and> 0 \<le> pe_depth s \<and>
     (case pe_parent_segment_sequence s of None \<Rightarrow> True | Some p \<Rightarrow> 0 \<le> p \<and> p < pe_segment_sequence s) \<and>
     (pe_depth s = 0 \<longleftrightarrow> pe_parent_segment_sequence s = None) \<and>
     INT64_MIN \<le> pe_lower_inclusive s \<and> pe_lower_inclusive s \<le> INT64_MAX \<and>
     (case pe_upper_exclusive s of None \<Rightarrow> True
      | Some u \<Rightarrow> INT64_MIN \<le> u \<and> u \<le> INT64_MAX \<and> pe_lower_inclusive s < u)"
  unfolding wf_pending_def validate_segment_position_def require_nonnegative_integer_def require_int64_def
  by (cases "pe_parent_segment_sequence s"; cases "pe_upper_exclusive s") (auto simp: result_iffs)

lemma wf_pending_width: "wf_pending s \<Longrightarrow> pe_lower_inclusive s < mathematical_upper s \<and> mathematical_upper s \<le> INT64_MAX + 1"
  by (auto simp: wf_pending_iff mathematical_upper_def split: option.splits)

lemma split_segment_None_iff:
  "split_segment s n = None \<longleftrightarrow> mathematical_upper s - pe_lower_inclusive s \<le> 1"
  by (simp add: split_segment_def Let_def)

lemma split_segment_keys:
  assumes "split_segment s n = Some (a, b)"
  shows "segment_keys s = segment_keys a \<union> segment_keys b" "segment_keys a \<inter> segment_keys b = {}"
    and "mathematical_upper a - pe_lower_inclusive a = (mathematical_upper s - pe_lower_inclusive s) div 2"
    and "mathematical_upper b - pe_lower_inclusive b =
      mathematical_upper s - pe_lower_inclusive s - (mathematical_upper s - pe_lower_inclusive s) div 2"
    and "1 < mathematical_upper s - pe_lower_inclusive s"
  using assms
  by (auto simp: split_segment_def Let_def segment_keys_def mathematical_upper_def split: if_splits)

lemma split_segment_fields:
  assumes "split_segment s n = Some (a, b)"
  shows "pe_segment_sequence a = n" "pe_segment_sequence b = n + 1"
    "pe_depth a = pe_depth s + 1" "pe_depth b = pe_depth s + 1"
  using assms by (auto simp: split_segment_def Let_def split: if_splits)

lemma split_segment_wf:
  assumes "split_segment s n = Some (a, b)" "wf_pending s" "pe_segment_sequence s < n"
  shows "wf_pending a" "wf_pending b"
proof -
  let ?w = "mathematical_upper s - pe_lower_inclusive s"
  have w: "1 < ?w" and a: "a = \<lparr>pe_segment_sequence = n,
      pe_parent_segment_sequence = Some (pe_segment_sequence s), pe_depth = pe_depth s + 1,
      pe_lower_inclusive = pe_lower_inclusive s, pe_upper_exclusive = Some (pe_lower_inclusive s + ?w div 2)\<rparr>"
    and b: "b = \<lparr>pe_segment_sequence = n + 1,
      pe_parent_segment_sequence = Some (pe_segment_sequence s), pe_depth = pe_depth s + 1,
      pe_lower_inclusive = pe_lower_inclusive s + ?w div 2, pe_upper_exclusive = pe_upper_exclusive s\<rparr>"
    using assms(1) by (auto simp: split_segment_def Let_def split: if_splits)
  have half: "0 < ?w div 2" "?w div 2 < ?w" using w by auto
  have up: "mathematical_upper s \<le> INT64_MAX + 1" using wf_pending_width [OF assms(2)] by simp
  show "wf_pending a" using assms(2,3) half up unfolding wf_pending_iff a by simp
  show "wf_pending b"
    using assms(2,3) half up unfolding wf_pending_iff b
    by (auto simp: mathematical_upper_def split: option.splits)
qed

text \<open>(C6) Splitting a range: it fails exactly on a range with at most one key; otherwise the two
  children are well-formed segments, hold every key of the range exactly once and nothing else, and
  neither of them holds more than half of the range rounded up, so repeated splitting ends.\<close>

theorem split_segment_partitions:
  assumes "wf_pending s" "pe_segment_sequence s < n"
  shows "case split_segment s n of
           None \<Rightarrow> segment_keys s = {pe_lower_inclusive s}
         | Some (a, b) \<Rightarrow>
             wf_pending a \<and> wf_pending b \<and>
             segment_keys s = segment_keys a \<union> segment_keys b \<and> segment_keys a \<inter> segment_keys b = {} \<and>
             segment_keys a \<noteq> {} \<and> segment_keys b \<noteq> {} \<and>
             2 * card (segment_keys a) \<le> card (segment_keys s) \<and>
             2 * card (segment_keys b) \<le> card (segment_keys s) + 1"
proof (cases "split_segment s n")
  case None
  then have "mathematical_upper s - pe_lower_inclusive s \<le> 1"
    using split_segment_None_iff [of s n] by simp
  with None show ?thesis using wf_pending_width [OF assms(1)] by (auto simp: segment_keys_def)
next
  case (Some p)
  obtain a b where p: "p = (a, b)" by (cases p)
  have keys: "segment_keys q = {pe_lower_inclusive q..<mathematical_upper q}" for q
    by (auto simp: segment_keys_def)
  have "int (card (segment_keys q)) = mathematical_upper q - pe_lower_inclusive q" if "wf_pending q" for q
    using wf_pending_width [OF that] by (simp add: keys)
  note card = this [OF assms(1)] this [OF split_segment_wf(1)] this [OF split_segment_wf(2)]
  note f = split_segment_keys [OF Some [unfolded p]]
  have wf: "wf_pending a" "wf_pending b" using split_segment_wf [OF Some [unfolded p]] assms by auto
  have "2 * int (card (segment_keys a)) \<le> int (card (segment_keys s))"
    "2 * int (card (segment_keys b)) \<le> int (card (segment_keys s)) + 1"
    using card Some p assms f(3,4) by auto
  then have "2 * card (segment_keys a) \<le> card (segment_keys s)"
    "2 * card (segment_keys b) \<le> card (segment_keys s) + 1" by linarith+
  moreover have "segment_keys a \<noteq> {}" "segment_keys b \<noteq> {}"
    using wf_pending_width [OF wf(1)] wf_pending_width [OF wf(2)] by (simp_all add: keys)
  ultimately show ?thesis using Some p f(1,2) wf by simp
qed

theorem split_segment_partitions_witness:
  "\<exists>a b. split_segment \<lparr>pe_segment_sequence = 0, pe_parent_segment_sequence = None, pe_depth = 0,
      pe_lower_inclusive = INT64_MIN, pe_upper_exclusive = None\<rparr> 1 = Some (a, b) \<and>
    wf_pending a \<and> wf_pending b \<and> segment_keys a \<inter> segment_keys b = {}"
proof -
  let ?s = "\<lparr>pe_segment_sequence = 0, pe_parent_segment_sequence = None, pe_depth = 0,
      pe_lower_inclusive = INT64_MIN, pe_upper_exclusive = None\<rparr>"
  have "wf_pending ?s" by (simp add: wf_pending_iff INT64_MIN_def INT64_MAX_def)
  moreover have "split_segment ?s 1 \<noteq> None"
    by (simp add: split_segment_None_iff mathematical_upper_def INT64_MIN_def INT64_MAX_def)
  ultimately show ?thesis
    using split_segment_partitions [of ?s 1] by (auto split: option.splits)
qed


section \<open>The merge by key\<close>

definition key_sorted :: "exact_row list \<Rightarrow> bool" where
  "key_sorted rows \<longleftrightarrow> sorted_wrt (<) (map er_key_value rows)"

definition row_keys :: "exact_row list \<Rightarrow> int set" where
  "row_keys rows = er_key_value ` set rows"

text \<open>The reference definition: which rows are missing, extra, modified or matched, stated on the sets of
  keys without any order of processing.\<close>

definition missing_rows :: "exact_row list \<Rightarrow> exact_row list \<Rightarrow> exact_row list" where
  "missing_rows R T = filter (\<lambda>r. er_key_value r \<notin> row_keys T) R"

definition paired_rows :: "(bytes \<Rightarrow> bytes \<Rightarrow> bool) \<Rightarrow> exact_row list \<Rightarrow> exact_row list \<Rightarrow> exact_row list" where
  "paired_rows rel R T =
     filter (\<lambda>r. \<exists>t \<in> set T. er_key_value t = er_key_value r \<and> rel (er_row_envelope r) (er_row_envelope t)) R"

definition row_difference_counts :: "exact_row list \<Rightarrow> exact_row list \<Rightarrow> exact_counts" where
  "row_difference_counts R T =
     \<lparr>xc_matched = int (length (paired_rows (=) R T)),
      xc_missing = int (length (missing_rows R T)),
      xc_extra = int (length (missing_rows T R)),
      xc_modified = int (length (paired_rows (\<noteq>) R T))\<rparr>"

definition row_differences :: "int \<Rightarrow> exact_row list \<Rightarrow> exact_row list \<Rightarrow> exact_difference set" where
  "row_differences seq R T =
     missing_difference seq ` set (missing_rows R T) \<union>
     extra_difference seq ` set (missing_rows T R) \<union>
     {modified_difference seq r t |r t. r \<in> set R \<and> t \<in> set T \<and>
        er_key_value r = er_key_value t \<and> er_row_envelope r \<noteq> er_row_envelope t}"

lemma key_sorted_Cons: "key_sorted (r # R) \<longleftrightarrow> (\<forall>k \<in> row_keys R. er_key_value r < k) \<and> key_sorted R"
  by (auto simp: key_sorted_def row_keys_def)

lemma row_keys_simps [simp]: "row_keys [] = {}" "row_keys (r # R) = insert (er_key_value r) (row_keys R)"
  by (simp_all add: row_keys_def)

lemma row_keys_I: "t \<in> set T \<Longrightarrow> er_key_value t \<in> row_keys T"
  by (simp add: row_keys_def)

lemma missing_rows_simps [simp]:
  "missing_rows [] T = []" "missing_rows R [] = R"
  by (simp_all add: missing_rows_def)

lemma missing_rows_skip: "er_key_value t \<notin> row_keys R \<Longrightarrow> missing_rows R (t # T) = missing_rows R T"
  by (auto simp: missing_rows_def intro!: filter_cong dest: row_keys_I)

lemma missing_rows_Cons:
  "missing_rows (r # R) T = (if er_key_value r \<in> row_keys T then missing_rows R T else r # missing_rows R T)"
  by (simp add: missing_rows_def)

lemma paired_rows_Cons_unmatched:
  "er_key_value r \<notin> row_keys T \<Longrightarrow> paired_rows rel (r # R) T = paired_rows rel R T"
  by (auto simp: paired_rows_def row_keys_def image_iff)

lemma paired_rows_skip:
  "er_key_value t \<notin> row_keys R \<Longrightarrow> paired_rows rel R (t # T) = paired_rows rel R T"
  by (auto simp: paired_rows_def row_keys_def intro!: filter_cong)

lemma paired_rows_Cons_both:
  "er_key_value r = er_key_value t \<Longrightarrow> er_key_value r \<notin> row_keys R \<Longrightarrow> er_key_value t \<notin> row_keys T \<Longrightarrow>
   paired_rows rel (r # R) (t # T) =
     (if rel (er_row_envelope r) (er_row_envelope t) then r # paired_rows rel R T else paired_rows rel R T)"
  by (auto simp: paired_rows_def row_keys_def image_iff intro!: filter_cong)

lemma paired_rows_Nil [simp]: "paired_rows rel [] T = []" "paired_rows rel R [] = []"
  by (simp_all add: paired_rows_def)

definition diff_keys :: "exact_difference list \<Rightarrow> int list" where
  "diff_keys ds = map (\<lambda>d. er_key_value (xd_key_row d)) ds"

lemma difference_keys [simp]:
  "xd_key_row (missing_difference seq r) = r" "xd_key_row (extra_difference seq t) = t"
  "xd_key_row (modified_difference seq r t) = r"
  by (simp_all add: missing_difference_def extra_difference_def modified_difference_def)

lemma raised_apply [simp]: "raised r w = (map_sum Raised id r, w)"
  by (simp add: raised_def)


lemma row_differences_cases:
  "er_key_value r \<notin> row_keys T \<Longrightarrow> er_key_value r \<notin> row_keys R \<Longrightarrow>
     row_differences seq (r # R) T = insert (missing_difference seq r) (row_differences seq R T)"
  "er_key_value t \<notin> row_keys R \<Longrightarrow> er_key_value t \<notin> row_keys T \<Longrightarrow>
     row_differences seq R (t # T) = insert (extra_difference seq t) (row_differences seq R T)"
  by (auto simp: row_differences_def missing_rows_Cons missing_rows_skip dest: row_keys_I)

lemma row_differences_both:
  "er_key_value r = er_key_value t \<Longrightarrow> er_key_value r \<notin> row_keys R \<Longrightarrow> er_key_value t \<notin> row_keys T \<Longrightarrow>
   row_differences seq (r # R) (t # T) =
     (if er_row_envelope r = er_row_envelope t then row_differences seq R T
      else insert (modified_difference seq r t) (row_differences seq R T))"
  by (auto simp: row_differences_def missing_rows_Cons missing_rows_skip dest: row_keys_I)

lemma row_differences_keys:
  "d \<in> row_differences seq R T \<Longrightarrow> er_key_value (xd_key_row d) \<in> row_keys R \<union> row_keys T"
  by (auto simp: row_differences_def missing_rows_def dest: row_keys_I)

lemma key_sorted_notin:
  "key_sorted (r # R) \<Longrightarrow> er_key_value r \<notin> row_keys R"
  "key_sorted (t # T) \<Longrightarrow> k < er_key_value t \<Longrightarrow> k \<notin> row_keys (t # T)"
  by (auto simp: key_sorted_Cons)

definition add_counts :: "exact_counts \<Rightarrow> exact_counts \<Rightarrow> exact_counts" where
  "add_counts a b =
     \<lparr>xc_matched = xc_matched a + xc_matched b, xc_missing = xc_missing a + xc_missing b,
      xc_extra = xc_extra a + xc_extra b, xc_modified = xc_modified a + xc_modified b\<rparr>"

lemma mk_ExactCounts_iff:
  "mk_ExactCounts a b c d = Inr x \<longleftrightarrow>
     0 \<le> a \<and> 0 \<le> b \<and> 0 \<le> c \<and> 0 \<le> d \<and>
     x = \<lparr>xc_matched = a, xc_missing = b, xc_extra = c, xc_modified = d\<rparr>"
  by (auto simp: mk_ExactCounts_def require_nonnegative_integer_def result_iffs)

lemma map_sum_Inr_iff: "map_sum f id r = Inr x \<longleftrightarrow> r = Inr x"
  and map_sum_Inl_iff: "map_sum f id r = Inl e \<longleftrightarrow> (\<exists>e'. r = Inl e' \<and> e = f e')"
  by (cases r; auto)+

lemmas raised_iffs = map_sum_Inr_iff map_sum_Inl_iff

definition merge_result where
  "merge_result seq R T c ds c' ds' \<longleftrightarrow>
     c' = add_counts c (row_difference_counts R T) \<and>
     (\<exists>new. ds' = ds @ new \<and> set new = row_differences seq R T \<and> sorted_wrt (<) (diff_keys new))"

lemma merge_result_step:
  assumes "merge_result seq R' T' c1 (ds @ [d]) c' ds'"
    and "add_counts c1 (row_difference_counts R' T') = add_counts c (row_difference_counts R T)"
    and "row_differences seq R T = insert d (row_differences seq R' T')"
    and "\<forall>k \<in> row_keys R' \<union> row_keys T'. er_key_value (xd_key_row d) < k"
  shows "merge_result seq R T c ds c' ds'"
proof -
  obtain new where new: "ds' = (ds @ [d]) @ new" "set new = row_differences seq R' T'"
      "sorted_wrt (<) (diff_keys new)" "c' = add_counts c1 (row_difference_counts R' T')"
    using assms(1) by (auto simp: merge_result_def)
  have "er_key_value (xd_key_row d) < er_key_value (xd_key_row e)" if "e \<in> set new" for e
    using that assms(4) row_differences_keys [of e seq R' T'] new(2) by auto
  then have "sorted_wrt (<) (diff_keys (d # new))" using new(3) by (auto simp: diff_keys_def)
  then show ?thesis
    unfolding merge_result_def using new assms(2,3) by (intro conjI exI [of _ "d # new"]) auto
qed

lemma compare_rows_loop_result:
  assumes "compare_rows_loop clock deadline seq n c ds R T w = (Inr (c', ds'), w')"
    and "key_sorted R" "key_sorted T"
  shows "merge_result seq R T c ds c' ds'"
  using assms
proof (induction clock deadline seq n c ds R T arbitrary: w rule: compare_rows_loop.induct)
  case (1 clock deadline seq n c ds r R t T)
  note sorted = "1.prems"(2,3)
  consider "er_key_value r < er_key_value t" | "er_key_value t < er_key_value r" | "er_key_value r = er_key_value t"
    by linarith
  then show ?case
  proof cases
    case 1
    then obtain w1 where "compare_rows_loop clock deadline seq (Suc n) (c\<lparr>xc_missing := xc_missing c + 1\<rparr>)
        (ds @ [missing_difference seq r]) R (t # T) w1 = (Inr (c', ds'), w')"
      using "1.prems"(1) by (auto simp: weff_iffs)
    with 1 sorted have "merge_result seq R (t # T) (c\<lparr>xc_missing := xc_missing c + 1\<rparr>)
        (ds @ [missing_difference seq r]) c' ds'"
      by (intro "1.IH"(1)) (auto simp: key_sorted_Cons)
    moreover have fresh: "er_key_value r \<notin> row_keys (t # T)" "er_key_value r \<notin> row_keys R"
      using 1 sorted key_sorted_notin by blast+
    ultimately show ?thesis
      using 1 sorted
      by (elim merge_result_step)
        (auto simp: add_counts_def row_difference_counts_def missing_rows_Cons missing_rows_skip
          paired_rows_Cons_unmatched row_differences_cases(1) key_sorted_Cons)
  next
    case 2
    then obtain w1 where "compare_rows_loop clock deadline seq (Suc n) (c\<lparr>xc_extra := xc_extra c + 1\<rparr>)
        (ds @ [extra_difference seq t]) (r # R) T w1 = (Inr (c', ds'), w')"
      using "1.prems"(1) by (auto simp: weff_iffs)
    with 2 sorted have "merge_result seq (r # R) T (c\<lparr>xc_extra := xc_extra c + 1\<rparr>)
        (ds @ [extra_difference seq t]) c' ds'"
      by (intro "1.IH"(2)) (auto simp: key_sorted_Cons)
    moreover have fresh: "er_key_value t \<notin> row_keys (r # R)" "er_key_value t \<notin> row_keys T"
      using 2 sorted key_sorted_notin by blast+
    ultimately show ?thesis
      using 2 sorted
      by (elim merge_result_step)
        (auto simp: add_counts_def row_difference_counts_def missing_rows_Cons missing_rows_skip
          paired_rows_skip row_differences_cases(2) key_sorted_Cons)
  next
    case 3
    have fresh: "er_key_value r \<notin> row_keys R" "er_key_value t \<notin> row_keys T"
      using sorted key_sorted_notin by blast+
    show ?thesis
    proof (cases "er_row_envelope r = er_row_envelope t")
      case True
      with 3 obtain w1 where "compare_rows_loop clock deadline seq (Suc n) (c\<lparr>xc_matched := xc_matched c + 1\<rparr>)
          ds R T w1 = (Inr (c', ds'), w')"
        using "1.prems"(1) by (auto simp: weff_iffs split: if_splits)
      with 3 True sorted have "merge_result seq R T (c\<lparr>xc_matched := xc_matched c + 1\<rparr>) ds c' ds'"
        by (intro "1.IH"(3)) (auto simp: key_sorted_Cons)
      with 3 True fresh show ?thesis
        by (auto simp: merge_result_def add_counts_def row_difference_counts_def missing_rows_Cons
            missing_rows_skip paired_rows_Cons_both row_differences_both)
    next
      case False
      with 3 obtain w1 where "compare_rows_loop clock deadline seq (Suc n) (c\<lparr>xc_modified := xc_modified c + 1\<rparr>)
          (ds @ [modified_difference seq r t]) R T w1 = (Inr (c', ds'), w')"
        using "1.prems"(1) by (auto simp: weff_iffs split: if_splits)
      with 3 False sorted have "merge_result seq R T (c\<lparr>xc_modified := xc_modified c + 1\<rparr>)
          (ds @ [modified_difference seq r t]) c' ds'"
        by (intro "1.IH"(4)) (auto simp: key_sorted_Cons)
      with 3 False fresh sorted show ?thesis
        by (elim merge_result_step)
          (auto simp: add_counts_def row_difference_counts_def missing_rows_Cons
            missing_rows_skip paired_rows_Cons_both row_differences_both key_sorted_Cons)
    qed
  qed
next
  case (2 clock deadline seq n c ds r R)
  then obtain w1 where "compare_rows_loop clock deadline seq (Suc n) (c\<lparr>xc_missing := xc_missing c + 1\<rparr>)
      (ds @ [missing_difference seq r]) R [] w1 = (Inr (c', ds'), w')"
    by (auto simp: weff_iffs)
  with 2 have "merge_result seq R [] (c\<lparr>xc_missing := xc_missing c + 1\<rparr>)
      (ds @ [missing_difference seq r]) c' ds'"
    by (auto simp: key_sorted_Cons)
  then show ?case
    using 2(3) key_sorted_notin(1) [OF 2(3)]
    by (elim merge_result_step)
      (auto simp: add_counts_def row_difference_counts_def row_differences_cases(1) key_sorted_Cons)
next
  case (3 clock deadline seq n c ds t T)
  then obtain w1 where "compare_rows_loop clock deadline seq (Suc n) (c\<lparr>xc_extra := xc_extra c + 1\<rparr>)
      (ds @ [extra_difference seq t]) [] T w1 = (Inr (c', ds'), w')"
    by (auto simp: weff_iffs)
  with 3 have "merge_result seq [] T (c\<lparr>xc_extra := xc_extra c + 1\<rparr>)
      (ds @ [extra_difference seq t]) c' ds'"
    by (auto simp: key_sorted_Cons)
  then show ?case
    using 3(4) key_sorted_notin(1) [OF 3(4)]
    by (elim merge_result_step)
      (auto simp: add_counts_def row_difference_counts_def row_differences_cases(2) key_sorted_Cons)
next
  case (4 clock deadline seq n c ds)
  then show ?case
    by (auto simp: weff_iffs raised_iffs mk_ExactCounts_iff merge_result_def add_counts_def
        row_difference_counts_def row_differences_def diff_keys_def)
qed

lemma compare_exact_rows_result:
  assumes "compare_exact_rows clock deadline R T seq w = (Inr (c, ds), w')" "key_sorted R" "key_sorted T"
  shows "c = row_difference_counts R T" "set ds = row_differences seq R T" "sorted_wrt (<) (diff_keys ds)"
  using compare_rows_loop_result [OF assms(1) [unfolded compare_exact_rows_def] assms(2,3)]
  by (auto simp: merge_result_def add_counts_def zero_counts_def row_difference_counts_def)

lemma key_sorted_distinct: "key_sorted R \<Longrightarrow> distinct (map er_key_value R)"
  by (simp add: key_sorted_def strict_sorted_iff)

lemma key_sorted_unique:
  "key_sorted R \<Longrightarrow> r \<in> set R \<Longrightarrow> s \<in> set R \<Longrightarrow> er_key_value r = er_key_value s \<Longrightarrow> r = s"
  by (auto dest!: key_sorted_distinct simp: distinct_map inj_on_def)

lemma paired_iff:
  assumes "key_sorted V" "v \<in> set V" "er_key_value v = er_key_value u"
  shows "(\<exists>t \<in> set V. er_key_value t = er_key_value u \<and> P (er_row_envelope u) (er_row_envelope t)) \<longleftrightarrow>
    P (er_row_envelope u) (er_row_envelope v)"
proof
  assume "\<exists>t \<in> set V. er_key_value t = er_key_value u \<and> P (er_row_envelope u) (er_row_envelope t)"
  then obtain t where "t \<in> set V" "er_key_value t = er_key_value u" "P (er_row_envelope u) (er_row_envelope t)"
    by blast
  with assms show "P (er_row_envelope u) (er_row_envelope v)" by (metis key_sorted_unique)
qed (use assms in blast)

lemma rows_split:
  assumes "key_sorted V"
  shows "length U = length (missing_rows U V) + length (paired_rows (=) U V) + length (paired_rows (\<noteq>) U V)"
proof (induction U)
  case (Cons u U)
  show ?case
  proof (cases "er_key_value u \<in> row_keys V")
    case True
    then obtain v where v: "v \<in> set V" "er_key_value v = er_key_value u" by (auto simp: row_keys_def)
    show ?thesis
      using Cons True paired_iff [OF assms v, of "(=)"] paired_iff [OF assms v, of "(\<noteq>)"]
      by (simp add: missing_rows_Cons paired_rows_def)
  next
    case False
    then show ?thesis using Cons by (simp add: missing_rows_Cons paired_rows_Cons_unmatched)
  qed
qed simp

lemma card_row_keys:
  assumes "key_sorted W"
  shows "card (row_keys (filter P W)) = length (filter P W)"
proof -
  have "distinct (map er_key_value (filter P W))"
    using key_sorted_distinct [OF assms] by (simp add: distinct_map inj_on_def)
  then show ?thesis by (metis distinct_card length_map row_keys_def set_map)
qed

lemma paired_rows_sym:
  assumes "key_sorted U" "key_sorted V"
  shows "length (paired_rows rel U V) = length (paired_rows (\<lambda>x y. rel y x) V U)"
proof -
  have sub: "row_keys (paired_rows rel U V) \<subseteq> row_keys (paired_rows (\<lambda>x y. rel y x) V U)" for rel U V
  proof
    fix k assume "k \<in> row_keys (paired_rows rel U V)"
    then obtain u v where "u \<in> set U" "v \<in> set V" "er_key_value u = k" "er_key_value v = k"
        "rel (er_row_envelope u) (er_row_envelope v)"
      by (auto simp: row_keys_def paired_rows_def)
    then have "v \<in> set (paired_rows (\<lambda>x y. rel y x) V U)" by (auto simp: paired_rows_def)
    with \<open>er_key_value v = k\<close> show "k \<in> row_keys (paired_rows (\<lambda>x y. rel y x) V U)"
      unfolding row_keys_def by blast
  qed
  have "row_keys (paired_rows rel U V) = row_keys (paired_rows (\<lambda>x y. rel y x) V U)"
    using sub [of rel U V] sub [of "\<lambda>x y. rel y x" V U] by (rule equalityI)
  then show ?thesis
    using card_row_keys [OF assms(1), of "\<lambda>r. \<exists>t \<in> set V. er_key_value t = er_key_value r \<and> rel (er_row_envelope r) (er_row_envelope t)"]
      card_row_keys [OF assms(2), of "\<lambda>r. \<exists>t \<in> set U. er_key_value t = er_key_value r \<and> rel (er_row_envelope t) (er_row_envelope r)"]
    by (simp only: paired_rows_def)
qed

text \<open>The counts close on both sides, whatever the two row lists are.\<close>

lemma counts_close:
  assumes "key_sorted R" "key_sorted T"
  shows "int (length R) = xc_matched (row_difference_counts R T) + xc_missing (row_difference_counts R T) +
      xc_modified (row_difference_counts R T)"
    and "int (length T) = xc_matched (row_difference_counts R T) + xc_extra (row_difference_counts R T) +
      xc_modified (row_difference_counts R T)"
proof -
  show "int (length R) = xc_matched (row_difference_counts R T) + xc_missing (row_difference_counts R T) +
      xc_modified (row_difference_counts R T)"
    using rows_split [OF assms(2), of R] by (simp add: row_difference_counts_def)
  have "(\<lambda>x y :: bytes. y = x) = (=)" "(\<lambda>x y :: bytes. y \<noteq> x) = (\<noteq>)" by (auto simp: fun_eq_iff)
  then show "int (length T) = xc_matched (row_difference_counts R T) + xc_extra (row_difference_counts R T) +
      xc_modified (row_difference_counts R T)"
    using rows_split [OF assms(1), of T] paired_rows_sym [OF assms, of "(=)"] paired_rows_sym [OF assms, of "(\<noteq>)"]
    by (simp add: row_difference_counts_def)
qed


definition key_envelopes_agree :: "exact_row list \<Rightarrow> exact_row list \<Rightarrow> bool" where
  "key_envelopes_agree R T \<longleftrightarrow>
     list_all (\<lambda>r. list_all (\<lambda>t. er_key_value r = er_key_value t \<longrightarrow> er_key_envelope r = er_key_envelope t) T) R"

lemma key_envelopes_agree_Cons [simp]:
  "key_envelopes_agree (r # R) T \<longleftrightarrow>
     (\<forall>t \<in> set T. er_key_value r = er_key_value t \<longrightarrow> er_key_envelope r = er_key_envelope t) \<and> key_envelopes_agree R T"
  "key_envelopes_agree R (t # T) \<longleftrightarrow>
     (\<forall>r \<in> set R. er_key_value r = er_key_value t \<longrightarrow> er_key_envelope r = er_key_envelope t) \<and> key_envelopes_agree R T"
  by (auto simp: key_envelopes_agree_def list_all_iff)

lemma require_deadline_ok: "\<forall>w. fst (clock w) < deadline \<Longrightarrow> \<exists>w'. require_deadline clock deadline w = (Inr (), w')"
  unfolding require_deadline_def by (metis (no_types, lifting) case_prod_beta not_le wrequire_apply)

lemma require_deadline_at_ok:
  "\<forall>w. fst (clock w) < deadline \<Longrightarrow> \<exists>w'. require_deadline_at clock deadline n w = (Inr (), w')"
  using require_deadline_ok by (auto simp: require_deadline_at_def)

lemma compare_rows_loop_returns:
  assumes "\<forall>w. fst (clock w) < deadline" "key_envelopes_agree R T"
    and "0 \<le> xc_matched c" "0 \<le> xc_missing c" "0 \<le> xc_extra c" "0 \<le> xc_modified c"
  shows "\<exists>c' ds' w'. compare_rows_loop clock deadline seq n c ds R T w = (Inr (c', ds'), w')"
  using assms
proof (induction clock deadline seq n c ds R T arbitrary: w rule: compare_rows_loop.induct)
  case (1 clock deadline seq n c ds r R t T)
  obtain w1 where w1: "require_deadline_at clock deadline n w = (Inr (), w1)"
    using require_deadline_at_ok [OF "1.prems"(1)] by blast
  have eq: "er_key_value r = er_key_value t \<Longrightarrow> er_key_envelope r = er_key_envelope t"
    using "1.prems"(2) by auto
  show ?case
    using "1.IH" "1.prems" w1 eq
    by (cases "er_row_envelope r = er_row_envelope t"; simp add: wbind_apply)
next
  case (2 clock deadline seq n c ds r R)
  obtain w1 where "require_deadline_at clock deadline n w = (Inr (), w1)"
    using require_deadline_at_ok [OF "2.prems"(1)] by blast
  then show ?case using "2.IH" "2.prems" by (simp add: wbind_apply)
next
  case (3 clock deadline seq n c ds t T)
  obtain w1 where "require_deadline_at clock deadline n w = (Inr (), w1)"
    using require_deadline_at_ok [OF "3.prems"(1)] by blast
  then show ?case using "3.IH" "3.prems" by (simp add: wbind_apply)
next
  case (4 clock deadline seq n c ds)
  obtain w1 where "require_deadline clock deadline w = (Inr (), w1)"
    using require_deadline_ok [OF "4.prems"(1)] by blast
  then show ?case
    using "4.prems" by (auto simp: wbind_apply mk_ExactCounts_def require_nonnegative_integer_def)
qed

text \<open>(C5) The merge of two key-ordered row lists agrees with the reference definition on sets of keys:
  while the deadline has not passed and equal keys have equal key envelopes, it returns; its counts
  are the numbers of matched, missing, extra and modified rows, its differences are exactly the
  differing rows, each once and in key order, and the counts close to both row counts.\<close>

theorem compare_exact_rows_correct:
  assumes "key_sorted R" "key_sorted T" "key_envelopes_agree R T" "\<forall>w. fst (clock w) < deadline"
  shows "\<exists>c ds w'. compare_exact_rows clock deadline R T seq w = (Inr (c, ds), w') \<and>
    c = row_difference_counts R T \<and> set ds = row_differences seq R T \<and> sorted_wrt (<) (diff_keys ds) \<and>
    xc_matched c + xc_missing c + xc_modified c = int (length R) \<and>
    xc_matched c + xc_extra c + xc_modified c = int (length T)"
proof -
  obtain c ds w' where run: "compare_exact_rows clock deadline R T seq w = (Inr (c, ds), w')"
    using compare_rows_loop_returns [OF assms(4,3), of zero_counts seq 0 "[]" w]
    by (auto simp: compare_exact_rows_def zero_counts_def)
  show ?thesis
    using run compare_exact_rows_result [OF run assms(1,2)] counts_close [OF assms(1,2)]
    by (intro exI conjI) auto
qed

definition example_row :: "int \<Rightarrow> string \<Rightarrow> exact_row" where
  "example_row k payload =
     \<lparr>er_segment_id = asc ''s0'', er_key_value = k, er_key_envelope = int_str k,
      er_row_envelope = payload, er_values = [Some (PInt k)]\<rparr>"

theorem compare_exact_rows_correct_witness:
  "\<exists>c ds w'. compare_exact_rows (\<lambda>w. (0, w)) 100
      [example_row 1 ''a'', example_row 2 ''b'', example_row 4 ''d'']
      [example_row 2 ''x'', example_row 3 ''c'', example_row 4 ''d''] 0 () = (Inr (c, ds), w') \<and>
    c = \<lparr>xc_matched = 1, xc_missing = 1, xc_extra = 1, xc_modified = 1\<rparr> \<and>
    missing_difference 0 (example_row 1 ''a'') \<in> set ds"
proof -
  let ?R = "[example_row 1 ''a'', example_row 2 ''b'', example_row 4 ''d'']"
  let ?T = "[example_row 2 ''x'', example_row 3 ''c'', example_row 4 ''d'']"
  have rows: "key_sorted ?R" "key_sorted ?T" "key_envelopes_agree ?R ?T"
    by (simp_all add: key_sorted_def example_row_def key_envelopes_agree_def)
  have c: "row_difference_counts ?R ?T = \<lparr>xc_matched = 1, xc_missing = 1, xc_extra = 1, xc_modified = 1\<rparr>"
    by (simp add: row_difference_counts_def paired_rows_def missing_rows_def example_row_def)
  have "missing_difference 0 (example_row 1 ''a'') \<in> row_differences 0 ?R ?T"
    by (simp add: row_differences_def missing_rows_def example_row_def)
  then show ?thesis
    using compare_exact_rows_correct [OF rows, of "\<lambda>w. (0, w)" 100 0 "()"] c by auto
qed

section \<open>Retention of evidence\<close>

definition record_size :: "difference_record \<Rightarrow> int" where
  "record_size r = (case canonical_difference_record_bytes r of Inr b \<Rightarrow> int (length b) | Inl e \<Rightarrow> 0)"

text \<open>The retained records are numbered from 0, their bytes are counted exactly and fit the evidence
  budgets, they are no more than what was found, and while retention is open nothing was dropped.\<close>

definition retention_ok :: "execution_budgets \<Rightarrow> retention \<Rightarrow> bool" where
  "retention_ok budgets t \<longleftrightarrow>
     map dr_sequence (rt_anomalies t) = map int [0..<length (rt_anomalies t)] \<and>
     rt_retained_bytes t = sum_list (map record_size (rt_anomalies t)) \<and>
     list_all (\<lambda>r. mk_DifferenceRecord r = Inr r \<and> canonical_difference_record_bytes r \<in> range Inr) (rt_anomalies t) \<and>
     int (length (rt_anomalies t)) \<le> eb_max_evidence_rows budgets \<and>
     rt_retained_bytes t \<le> eb_max_evidence_bytes budgets \<and>
     int (length (rt_anomalies t)) \<le> rt_found_records t \<and>
     rt_retained_bytes t \<le> rt_found_bytes t \<and>
     (rt_retention_open t \<longrightarrow>
        rt_found_records t = int (length (rt_anomalies t)) \<and> rt_found_bytes t = rt_retained_bytes t)"

lemma difference_record_of_fields:
  assumes "difference_record_of n d check policy = Inr r"
  shows "mk_DifferenceRecord r = Inr r" "dr_sequence r = n" "dr_segment_sequence r = xd_segment_sequence d"
    "dr_kind r = xd_kind d"
  using assms by (auto simp: difference_record_of_def Let_def result_iffs dest: mk_DifferenceRecord_eq)

lemma record_size_nonneg: "0 \<le> record_size r"
  by (simp add: record_size_def split: sum.split)

lemma retain_difference_ok:
  assumes "retention_ok budgets t" "mk_DifferenceRecord r = Inr r" "dr_sequence r = rt_found_records t"
    and "canonical_difference_record_bytes r = Inr b"
  shows "retention_ok budgets (retain_difference budgets r (int (length b)) t)"
proof -
  have size: "record_size r = int (length b)" using assms(4) by (simp add: record_size_def)
  show ?thesis
    using assms size
    by (auto simp: retention_ok_def retain_difference_def Let_def)
qed

lemma retain_difference_simps [simp]:
  "rt_found_records (retain_difference budgets r n t) = rt_found_records t + 1"
  "rt_found_bytes (retain_difference budgets r n t) = rt_found_bytes t + n"
  by (simp_all add: retain_difference_def Let_def)

lemma retain_difference_anomalies:
  "rt_anomalies (retain_difference budgets r n t) = rt_anomalies t \<or>
   rt_anomalies (retain_difference budgets r n t) = rt_anomalies t @ [r]"
  by (simp add: retain_difference_def Let_def)

lemma retain_loop_ok:
  assumes "retain_loop clock deadline check policy budgets n ds t w = (Inr t', w')" "retention_ok budgets t"
  shows "retention_ok budgets t' \<and> rt_found_records t' = rt_found_records t + int (length ds) \<and>
    (\<exists>new. rt_anomalies t' = rt_anomalies t @ new \<and>
      dr_segment_sequence ` set new \<subseteq> xd_segment_sequence ` set ds)"
  using assms
proof (induction ds arbitrary: n t w)
  case Nil
  then show ?case by (auto simp: weff_iffs)
next
  case (Cons d ds)
  then obtain r b w1 where r: "difference_record_of (rt_found_records t) d check policy = Inr r"
      "canonical_difference_record_bytes r = Inr b"
    and rest: "retain_loop clock deadline check policy budgets (Suc n) ds
        (retain_difference budgets r (int (length b)) t) w1 = (Inr t', w')"
    by (auto simp: weff_iffs raised_iffs)
  note fields = difference_record_of_fields [OF r(1)]
  have "retention_ok budgets (retain_difference budgets r (int (length b)) t)"
    using Cons.prems(2) fields(1,2) r(2) by (rule retain_difference_ok)
  from Cons.IH [OF rest this] fields(3)
    retain_difference_anomalies [of budgets r "int (length b)" t]
  show ?case by (auto simp: image_subset_iff)
qed

definition progress_retention :: "progress \<Rightarrow> retention" where
  "progress_retention p =
     \<lparr>rt_anomalies = pg_anomalies p, rt_found_records = pg_found_records p,
      rt_found_bytes = pg_found_bytes p, rt_retained_bytes = pg_retained_bytes p,
      rt_retention_open = pg_retention_open p\<rparr>"

lemma retain_exact_differences_ok:
  assumes "retain_exact_differences clock p ds check policy budgets deadline w = (Inr p', w')"
    and "retention_ok budgets (progress_retention p)"
  shows "retention_ok budgets (progress_retention p')"
    and "pg_found_records p' = pg_found_records p + int (length ds)"
    and "\<exists>new. pg_anomalies p' = pg_anomalies p @ new \<and>
      dr_segment_sequence ` set new \<subseteq> xd_segment_sequence ` set ds"
    and "p' = p\<lparr>pg_anomalies := pg_anomalies p', pg_found_records := pg_found_records p',
      pg_found_bytes := pg_found_bytes p', pg_retained_bytes := pg_retained_bytes p',
      pg_retention_open := pg_retention_open p'\<rparr>"
proof -
  obtain t where t: "retain_loop clock deadline check policy budgets 0 ds (progress_retention p) w = (Inr t, w')"
    and p': "p' = p\<lparr>pg_anomalies := rt_anomalies t, pg_found_records := rt_found_records t,
       pg_found_bytes := rt_found_bytes t, pg_retained_bytes := rt_retained_bytes t,
       pg_retention_open := rt_retention_open t\<rparr>"
    using assms(1) by (auto simp: retain_exact_differences_def weff_iffs progress_retention_def)
  have pt: "progress_retention p' = t" by (cases t) (simp add: p' progress_retention_def)
  note ok = retain_loop_ok [OF t assms(2)]
  show "retention_ok budgets (progress_retention p')" using ok pt by simp
  show "pg_found_records p' = pg_found_records p + int (length ds)"
    using ok by (simp add: p' progress_retention_def)
  show "\<exists>new. pg_anomalies p' = pg_anomalies p @ new \<and>
      dr_segment_sequence ` set new \<subseteq> xd_segment_sequence ` set ds"
    using ok by (auto simp: p' progress_retention_def)
  show "p' = p\<lparr>pg_anomalies := pg_anomalies p', pg_found_records := pg_found_records p',
      pg_found_bytes := pg_found_bytes p', pg_retained_bytes := pg_retained_bytes p',
      pg_retention_open := pg_retention_open p'\<rparr>"
    by (simp add: p')
qed

section \<open>Levels and groups\<close>

lemma fingerprint_nodes_loop_result:
  assumes "fingerprint_nodes_loop clock deadline n triples acc w = (Inr nodes, w')"
  shows "nodes = acc @ map (\<lambda>(s, r, t). \<lparr>fn_segment = s, fn_reference = r, fn_target = t\<rparr>) triples \<and>
    (\<forall>(s, r, t) \<in> set triples. segment_id (pe_segment_sequence s) = Inr (rf_segment_id r) \<and>
       segment_id (pe_segment_sequence s) = Inr (rf_segment_id t))"
  using assms
proof (induction triples arbitrary: n acc w)
  case Nil
  then show ?case by (auto simp: weff_iffs)
next
  case (Cons x triples)
  obtain s r t where x: "x = (s, r, t)" by (cases x)
  with Cons.prems obtain w1 where ids: "segment_id (pe_segment_sequence s) = Inr (rf_segment_id r)"
      "segment_id (pe_segment_sequence s) = Inr (rf_segment_id t)"
    and rest: "fingerprint_nodes_loop clock deadline (Suc n) triples
        (acc @ [\<lparr>fn_segment = s, fn_reference = r, fn_target = t\<rparr>]) w1 = (Inr nodes, w')"
    by (auto simp: weff_iffs raised_iffs split: if_splits)
  show ?case using Cons.IH [OF rest] ids x by simp
qed

lemma fingerprint_nodes_result:
  assumes "fingerprint_nodes clock deadline pending reference target w = (Inr nodes, w')"
  shows "map fn_segment nodes = pending" "map fn_reference nodes = rfr_ranges reference"
    "map fn_target nodes = rfr_ranges target"
    and "n \<in> set nodes \<Longrightarrow> segment_id (pe_segment_sequence (fn_segment n)) = Inr (rf_segment_id (fn_reference n)) \<and>
      segment_id (pe_segment_sequence (fn_segment n)) = Inr (rf_segment_id (fn_target n))"
proof -
  have len: "length (rfr_ranges reference) = length pending" "length (rfr_ranges target) = length pending"
    using assms by (auto simp: fingerprint_nodes_def weff_iffs split: if_splits)
  have nodes: "nodes = map (\<lambda>(s, r, t). \<lparr>fn_segment = s, fn_reference = r, fn_target = t\<rparr>)
      (zip pending (zip (rfr_ranges reference) (rfr_ranges target)))"
    and ids: "\<forall>(s, r, t) \<in> set (zip pending (zip (rfr_ranges reference) (rfr_ranges target))).
      segment_id (pe_segment_sequence s) = Inr (rf_segment_id r) \<and>
      segment_id (pe_segment_sequence s) = Inr (rf_segment_id t)"
    using assms
    by (auto simp: fingerprint_nodes_def weff_iffs split: if_splits dest!: fingerprint_nodes_loop_result)
  show "map fn_segment nodes = pending" "map fn_reference nodes = rfr_ranges reference"
    "map fn_target nodes = rfr_ranges target"
    using len by (simp_all add: nodes list_eq_iff_nth_eq)
  show "segment_id (pe_segment_sequence (fn_segment n)) = Inr (rf_segment_id (fn_reference n)) \<and>
      segment_id (pe_segment_sequence (fn_segment n)) = Inr (rf_segment_id (fn_target n))"
    if "n \<in> set nodes"
    using that ids by (auto simp: nodes)
qed

lemma partition_fingerprint_nodes_result:
  assumes "partition_fingerprint_nodes clock deadline nodes w = (Inr (matching, mismatching), w')"
  shows "matching = filter nodes_agree nodes" "mismatching = filter (\<lambda>n. \<not> nodes_agree n) nodes"
proof -
  have "m' = m @ filter nodes_agree ns \<and> x' = x @ filter (\<lambda>n. \<not> nodes_agree n) ns"
    if "partition_nodes_loop clock deadline k ns m x v = (Inr (m', x'), v')" for k ns m x v m' x' v'
    using that
    by (induction ns arbitrary: k m x v) (fastforce simp: weff_iffs split: if_splits)+
  from this [OF assms [unfolded partition_fingerprint_nodes_def]]
  show "matching = filter nodes_agree nodes" "mismatching = filter (\<lambda>n. \<not> nodes_agree n) nodes"
    by simp_all
qed

lemma group_rows_append:
  "group_rows (append_to_group row groups) i =
     map_option (\<lambda>rows. if i = er_segment_id row then rows @ [row] else rows) (group_rows groups i)"
  by (induction groups) (auto simp: append_to_group_def group_rows_def)

lemma append_to_group_keys: "map fst (append_to_group r groups) = map fst groups"
  by (auto simp: append_to_group_def)

lemma group_rows_loop_result:
  assumes "group_rows_loop clock deadline n rows groups w = (Inr groups', w')"
  shows "group_rows groups' i = map_option (\<lambda>g. g @ filter (\<lambda>r. er_segment_id r = i) rows) (group_rows groups i)"
    and "map fst groups' = map fst groups"
    and "\<forall>r \<in> set rows. er_segment_id r \<in> fst ` set groups"
  using assms
proof (induction rows arbitrary: n groups w)
  case Nil
  { case 1 then show ?case by (cases "group_rows groups i") (auto simp: weff_iffs) next
    case 2 then show ?case by (auto simp: weff_iffs) next
    case 3 then show ?case by simp }
next
  case (Cons r rows)
  { case 1
    then obtain w1 where "group_rows_loop clock deadline (Suc n) rows (append_to_group r groups) w1 = (Inr groups', w')"
      by (auto simp: weff_iffs split: if_splits)
    from Cons.IH(1) [OF this] show ?case
      by (cases "group_rows groups i") (auto simp: group_rows_append)
  next
    case 2
    then obtain w1 where "group_rows_loop clock deadline (Suc n) rows (append_to_group r groups) w1 = (Inr groups', w')"
      by (auto simp: weff_iffs split: if_splits)
    from Cons.IH(2) [OF this] show ?case unfolding append_to_group_keys .
  next
    case 3
    then obtain w1 where w1: "group_rows_loop clock deadline (Suc n) rows (append_to_group r groups) w1 = (Inr groups', w')"
      and "group_rows groups (er_segment_id r) \<noteq> None"
      by (auto simp: weff_iffs split: if_splits)
    then have "er_segment_id r \<in> fst ` set groups"
      by (auto simp: group_rows_def dest: map_of_SomeD intro: rev_image_eqI)
    moreover have "fst ` set (append_to_group r groups) = fst ` set groups"
      using append_to_group_keys by (metis set_map)
    ultimately show ?case using Cons.IH(3) [OF w1] by simp }
qed

lemma freeze_groups_loop_result:
  "freeze_groups_loop clock deadline n entries acc w = (Inr grouped, w') \<Longrightarrow> grouped = acc @ entries"
  by (induction entries arbitrary: n acc w) (fastforce simp: weff_iffs)+

lemma group_exact_rows_result:
  assumes "group_exact_rows clock deadline rows ids w = (Inr grouped, w')"
  shows "i \<in> set ids \<Longrightarrow> group_rows grouped i = Some (filter (\<lambda>r. er_segment_id r = i) rows)"
    and "\<forall>r \<in> set rows. er_segment_id r \<in> set ids"
proof -
  let ?g = "map (\<lambda>i. (i, [])) (rev (remdups (rev ids)))"
  obtain w1 groups w2 where g: "group_rows_loop clock deadline 0 rows ?g w = (Inr groups, w1)"
    and "freeze_groups_loop clock deadline 0 groups [] w1 = (Inr grouped, w2)"
    using assms by (auto simp: group_exact_rows_def weff_iffs)
  then have "grouped = groups" using freeze_groups_loop_result by fastforce
  moreover have "i \<in> set ids \<Longrightarrow> group_rows ?g i = Some []"
    by (auto simp: group_rows_def map_of_map_restrict restrict_map_def)
  ultimately show "i \<in> set ids \<Longrightarrow> group_rows grouped i = Some (filter (\<lambda>r. er_segment_id r = i) rows)"
    using group_rows_loop_result(1) [OF g, of i] by simp
  show "\<forall>r \<in> set rows. er_segment_id r \<in> set ids"
    using group_rows_loop_result(3) [OF g] by (auto simp: image_image)
qed

end
