(* ===== verification/Acquisition.thy ===== *)
theory Acquisition
  imports Contract_Model
begin

text \<open>
  What a comparison is pinned to before it reads rows: the resolved scope of a run
  (\<open>src/forensic_data/planning.py\<close>) and the readiness records, per-side cuts and the input cut of
  \<open>src/forensic_data/acquisition.py\<close>, with their validators, canonical semantic values and digests.
  Checks of the form \<open>_require_instance\<close> are the types of the fields. A dictionary of scope values is
  an association list with distinct keys.
\<close>

definition reraise :: "'e \<Rightarrow> 'e \<Rightarrow> 'e + 'a \<Rightarrow> 'e + 'a" where
  "reraise caught e r = (case r of Inl x \<Rightarrow> Inl (if x = caught then e else x) | Inr v \<Rightarrow> Inr v)"

section \<open>Resolved scope\<close>

record resolved_scope_parameter =
  rsp_name :: pystr
  rsp_field :: field_schema
  rsp_value :: pyval
  rsp_canonical_payload :: bytes

record resolved_scope =
  rs_parameters :: "resolved_scope_parameter list"
  rs_scope_digest :: pystr

definition is_scope_input :: "pyval \<Rightarrow> bool" where
  "is_scope_input v \<longleftrightarrow> (case v of PBool _ \<Rightarrow> True | PInt _ \<Rightarrow> True | PStr _ \<Rightarrow> True | _ \<Rightarrow> False)"

definition mk_ResolvedScopeParameter :: "resolved_scope_parameter \<Rightarrow> exn + resolved_scope_parameter" where
  "mk_ResolvedScopeParameter p =
     ebind (require (\<not> is_blank (rsp_name p)) ScopeValueError) (\<lambda>_.
     ebind (require (fs_name (rsp_field p) = rsp_name p) ScopeValueError) (\<lambda>_.
     ebind (require (\<not> fs_nullable (rsp_field p)) ScopeValueError) (\<lambda>_.
     ebind (require (is_scope_input (rsp_value p)) ScopeValueError) (\<lambda>_.
     ebind (reraise PayloadValidationError ScopeValueError (encode_payload (rsp_field p) (rsp_value p))) (\<lambda>expected_payload.
     ebind (require (rsp_canonical_payload p = expected_payload) ScopeValueError) (\<lambda>_.
     Inr p))))))"

definition scope_type_semantics :: "field_schema \<Rightarrow> jval" where
  "scope_type_semantics f = JObj
     ([(asc ''kind'', JStr (logical_type_value (fs_logical_type f))),
       (asc ''normalization'', JStr (normalization_value (fs_normalization f)))] @
      (case fs_parameters f of
         DecimalParameters precision scale \<Rightarrow>
           [(asc ''precision'', JInt precision), (asc ''scale'', JInt scale)]
       | TimestampParameters precision \<Rightarrow> [(asc ''precision'', JInt precision)]
       | NoParameters \<Rightarrow> []))"

definition resolved_scope_semantics :: "resolved_scope_parameter list \<Rightarrow> jval" where
  "resolved_scope_semantics ps = JObj
     [(asc ''canonical_protocol'', JStr PROTOCOL),
      (asc ''parameters'', JArr (map (\<lambda>p. JObj
        [(asc ''name'', JStr (rsp_name p)),
         (asc ''payload_hex'', JStr (asc (bytes_hex (rsp_canonical_payload p)))),
         (asc ''type'', scope_type_semantics (rsp_field p))]) ps)),
      (asc ''semantic_protocol'', JStr SEMANTIC_DIGEST_PROTOCOL)]"

definition resolved_scope_digest :: "resolved_scope_parameter list \<Rightarrow> exn + pystr" where
  "resolved_scope_digest ps = ebind (semantic_digest_hex (resolved_scope_semantics ps)) (\<lambda>d. Inr (asc d))"

definition mk_ResolvedScope :: "resolved_scope \<Rightarrow> exn + resolved_scope" where
  "mk_ResolvedScope s =
     ebind (require (card (set (map rsp_name (rs_parameters s))) = length (rs_parameters s)) ScopeValueError) (\<lambda>_.
     ebind (resolved_scope_digest (rs_parameters s)) (\<lambda>digest.
     ebind (require (rs_scope_digest s = digest) ScopeValueError) (\<lambda>_.
     Inr s)))"

fun resolve_parameters :: "(pystr \<times> pyval) list \<Rightarrow> scope_parameter list \<Rightarrow> exn + resolved_scope_parameter list" where
  "resolve_parameters scope_values [] = Inr []"
| "resolve_parameters scope_values (p # ps) =
     ebind (case map_of scope_values (scp_name p) of None \<Rightarrow> Inl KeyError | Some v \<Rightarrow> Inr v) (\<lambda>v.
     ebind (require (is_scope_input v) ScopeValueError) (\<lambda>_.
     ebind (reraise PayloadValidationError ScopeValueError (encode_payload (scp_field p) v)) (\<lambda>payload.
     ebind (mk_ResolvedScopeParameter
       \<lparr>rsp_name = scp_name p, rsp_field = scp_field p, rsp_value = v, rsp_canonical_payload = payload\<rparr>) (\<lambda>r.
     ebind (resolve_parameters scope_values ps) (\<lambda>rs.
     Inr (r # rs))))))"

definition resolve_scope_values :: "scope_definition \<Rightarrow> (pystr \<times> pyval) list \<Rightarrow> exn + resolved_scope" where
  "resolve_scope_values scope scope_values =
     ebind (require (sort (map fst scope_values) = sort (map scp_name (sd_parameters scope))) ScopeValueError) (\<lambda>_.
     ebind (resolve_parameters scope_values (sd_parameters scope)) (\<lambda>parameters.
     ebind (resolved_scope_digest parameters) (\<lambda>digest.
     mk_ResolvedScope \<lparr>rs_parameters = parameters, rs_scope_digest = digest\<rparr>)))"

section \<open>Canonical values\<close>

definition acquisition_require :: "bool \<Rightarrow> exn + unit" where
  "acquisition_require c = require c AcquisitionValidationError"

definition require_nonblank_text :: "pystr \<Rightarrow> exn + unit" where
  "require_nonblank_text s =
     ebind (acquisition_require (\<not> is_blank s)) (\<lambda>_.
     check_all (\<lambda>c. acquisition_require (\<not> (c = 0 \<or> is_surrogate c))) s)"

definition require_optional_nonblank_text :: "pystr option \<Rightarrow> exn + unit" where
  "require_optional_nonblank_text v = (case v of None \<Rightarrow> Inr () | Some s \<Rightarrow> require_nonblank_text s)"

definition acquisition_require_sha256 :: "pystr \<Rightarrow> exn + unit" where
  "acquisition_require_sha256 s = acquisition_require (is_sha256_hex s)"

definition fixed_field :: "string \<Rightarrow> logical_type \<Rightarrow> field_parameters \<Rightarrow> field_schema" where
  "fixed_field name logical_type parameters =
     \<lparr>fs_name = asc name, fs_logical_type = logical_type, fs_nullable = False,
      fs_parameters = parameters, fs_normalization = NORMALIZATION_NONE\<rparr>"

definition BATCH_ID_FIELD :: field_schema where
  "BATCH_ID_FIELD = fixed_field ''batch_id'' STRING NoParameters"

definition BUSINESS_DATE_FIELD :: field_schema where
  "BUSINESS_DATE_FIELD = fixed_field ''business_date'' DATE NoParameters"

definition SOURCE_CUT_FIELD :: field_schema where
  "SOURCE_CUT_FIELD = fixed_field ''source_cut'' STRING NoParameters"

definition DATASET_VERSION_FIELD :: field_schema where
  "DATASET_VERSION_FIELD = fixed_field ''dataset_version'' STRING NoParameters"

definition COMPLETED_AT_FIELD :: field_schema where
  "COMPLETED_AT_FIELD = fixed_field ''completed_at'' TIMESTAMP_INSTANT (TimestampParameters 6)"

definition ALIGNMENT_FIELDS :: "(pystr \<times> field_schema) list" where
  "ALIGNMENT_FIELDS =
     [(fs_name BUSINESS_DATE_FIELD, BUSINESS_DATE_FIELD), (fs_name SOURCE_CUT_FIELD, SOURCE_CUT_FIELD)]"

record canonical_value_definition =
  cv_field :: field_schema
  cv_canonical_payload :: bytes

definition mk_CanonicalValueDefinition :: "canonical_value_definition \<Rightarrow> exn + canonical_value_definition" where
  "mk_CanonicalValueDefinition v =
     ebind (require_nonblank_text (fs_name (cv_field v))) (\<lambda>_.
     ebind (acquisition_require (\<not> fs_nullable (cv_field v))) (\<lambda>_.
     ebind (reraise PayloadValidationError AcquisitionValidationError
       (ebind (decode_payload (cv_field v) (cv_canonical_payload v)) (\<lambda>decoded.
        ebind (encode_payload (cv_field v) decoded) (\<lambda>payload.
        acquisition_require (payload = cv_canonical_payload v))))) (\<lambda>_.
     Inr v)))"

definition canonical_value :: "field_schema \<Rightarrow> pyval \<Rightarrow> exn + canonical_value_definition" where
  "canonical_value field v =
     ebind (reraise PayloadValidationError AcquisitionValidationError (encode_payload field v)) (\<lambda>payload.
     mk_CanonicalValueDefinition \<lparr>cv_field = field, cv_canonical_payload = payload\<rparr>)"

section \<open>Readiness records\<close>

datatype plan_direction = DIRECTION_REFERENCE | DIRECTION_TARGET

fun plan_direction_value :: "plan_direction \<Rightarrow> pystr" where
  "plan_direction_value DIRECTION_REFERENCE = asc ''reference''"
| "plan_direction_value DIRECTION_TARGET = asc ''target''"

datatype acquisition_operation =
    RESOLVE_DATASET_DEPENDENCIES | RESOLVE_READINESS_DEPENDENCIES | VALIDATE_ALIGNMENT_FIELDS
  | VALIDATE_READINESS | ALIGN_INPUT_CUT | VALIDATE_BOUND_INPUT_CUT

fun acquisition_operation_value :: "acquisition_operation \<Rightarrow> pystr" where
  "acquisition_operation_value RESOLVE_DATASET_DEPENDENCIES = asc ''resolve_dataset_dependencies''"
| "acquisition_operation_value RESOLVE_READINESS_DEPENDENCIES = asc ''resolve_readiness_dependencies''"
| "acquisition_operation_value VALIDATE_ALIGNMENT_FIELDS = asc ''validate_alignment_fields''"
| "acquisition_operation_value VALIDATE_READINESS = asc ''validate_readiness''"
| "acquisition_operation_value ALIGN_INPUT_CUT = asc ''align_input_cut''"
| "acquisition_operation_value VALIDATE_BOUND_INPUT_CUT = asc ''validate_bound_input_cut''"

record manifest_row =
  mw_dataset_id :: pystr
  mw_scope_digest :: pystr
  mw_batch_id :: pystr
  mw_state :: pystr
  mw_business_date :: pydate
  mw_source_cut :: "pystr option"
  mw_dataset_version :: "pystr option"
  mw_completed_at :: "pydatetime option"

record complete_readiness =
  cr_dataset_id :: pystr
  cr_scope_digest :: pystr
  cr_batch_id :: pystr
  cr_state :: pystr
  cr_business_date :: pydate
  cr_source_cut :: pystr
  cr_dataset_version :: pystr
  cr_completed_at :: pydatetime

text \<open>A \<open>BuildingReadinessRecord\<close> has the fields of the row it copies.\<close>

datatype manifest_record = BuildingReadinessRecord manifest_row | CompleteReadinessRecord complete_readiness

definition utcoffset :: "pydatetime \<Rightarrow> int option" where
  "utcoffset dt = (case dt_tzinfo dt of TzNone \<Rightarrow> None | TzFixed offset \<Rightarrow> Some offset | TzOther offset \<Rightarrow> offset)"

definition is_utc :: "pydatetime \<Rightarrow> bool" where
  "is_utc dt \<longleftrightarrow> \<not> (dt_tzinfo dt = TzNone \<or> utcoffset dt \<noteq> Some 0)"

definition validate_manifest_identity :: "pystr \<Rightarrow> pystr \<Rightarrow> pystr \<Rightarrow> exn + unit" where
  "validate_manifest_identity dataset_id scope_digest batch_id =
     ebind (require_nonblank_text dataset_id) (\<lambda>_.
     ebind (acquisition_require_sha256 scope_digest) (\<lambda>_.
     require_nonblank_text batch_id))"

definition mk_BuildingReadinessRecord :: "manifest_row \<Rightarrow> exn + manifest_record" where
  "mk_BuildingReadinessRecord r =
     ebind (validate_manifest_identity (mw_dataset_id r) (mw_scope_digest r) (mw_batch_id r)) (\<lambda>_.
     ebind (acquisition_require (mw_state r = asc ''building'')) (\<lambda>_.
     ebind (require_optional_nonblank_text (mw_source_cut r)) (\<lambda>_.
     ebind (require_optional_nonblank_text (mw_dataset_version r)) (\<lambda>_.
     ebind (case mw_completed_at r of None \<Rightarrow> Inr () | Some dt \<Rightarrow> acquisition_require (is_utc dt)) (\<lambda>_.
     Inr (BuildingReadinessRecord r))))))"

definition mk_CompleteReadinessRecord :: "complete_readiness \<Rightarrow> exn + manifest_record" where
  "mk_CompleteReadinessRecord r =
     ebind (validate_manifest_identity (cr_dataset_id r) (cr_scope_digest r) (cr_batch_id r)) (\<lambda>_.
     ebind (acquisition_require (cr_state r = asc ''complete'')) (\<lambda>_.
     ebind (require_nonblank_text (cr_source_cut r)) (\<lambda>_.
     ebind (require_nonblank_text (cr_dataset_version r)) (\<lambda>_.
     ebind (acquisition_require (is_utc (cr_completed_at r))) (\<lambda>_.
     ebind (canonical_value BUSINESS_DATE_FIELD (PDate (cr_business_date r))) (\<lambda>_.
     ebind (canonical_value SOURCE_CUT_FIELD (PStr (cr_source_cut r))) (\<lambda>_.
     ebind (canonical_value BATCH_ID_FIELD (PStr (cr_batch_id r))) (\<lambda>_.
     ebind (canonical_value DATASET_VERSION_FIELD (PStr (cr_dataset_version r))) (\<lambda>_.
     ebind (canonical_value COMPLETED_AT_FIELD (PDateTime (cr_completed_at r))) (\<lambda>_.
     Inr (CompleteReadinessRecord r)))))))))))"

definition copy_relation_manifest_row :: "manifest_row \<Rightarrow> exn + manifest_record" where
  "copy_relation_manifest_row r =
     (if mw_state r = asc ''building'' then mk_BuildingReadinessRecord r
      else
        ebind (acquisition_require (mw_state r = asc ''complete'')) (\<lambda>_.
        case mw_source_cut r of
          None \<Rightarrow> Inl AcquisitionValidationError
        | Some source_cut \<Rightarrow>
        case mw_dataset_version r of
          None \<Rightarrow> Inl AcquisitionValidationError
        | Some dataset_version \<Rightarrow>
        case mw_completed_at r of
          None \<Rightarrow> Inl AcquisitionValidationError
        | Some completed_at \<Rightarrow>
            mk_CompleteReadinessRecord
              \<lparr>cr_dataset_id = mw_dataset_id r, cr_scope_digest = mw_scope_digest r,
               cr_batch_id = mw_batch_id r, cr_state = mw_state r,
               cr_business_date = mw_business_date r, cr_source_cut = source_cut,
               cr_dataset_version = dataset_version, cr_completed_at = completed_at\<rparr>))"

section \<open>Input cuts\<close>

record dataset_input_cut =
  dic_direction :: plan_direction
  dic_dataset_id :: pystr
  dic_scope_digest :: pystr
  dic_batch_id :: canonical_value_definition
  dic_business_date :: canonical_value_definition
  dic_source_cut :: canonical_value_definition
  dic_dataset_version :: canonical_value_definition
  dic_completed_at :: canonical_value_definition
  dic_alignment_values :: "canonical_value_definition list"

definition require_fixed_canonical_value :: "canonical_value_definition \<Rightarrow> field_schema \<Rightarrow> exn + unit" where
  "require_fixed_canonical_value v expected_field = acquisition_require (cv_field v = expected_field)"

definition require_canonical_nonblank_string :: "canonical_value_definition \<Rightarrow> exn + unit" where
  "require_canonical_nonblank_string v =
     ebind (decode_payload (cv_field v) (cv_canonical_payload v)) (\<lambda>decoded.
     case decoded of PStr s \<Rightarrow> require_nonblank_text s | _ \<Rightarrow> Inl AcquisitionValidationError)"

definition validate_alignment_value :: "dataset_input_cut \<Rightarrow> canonical_value_definition \<Rightarrow> exn + unit" where
  "validate_alignment_value c v =
     (case map_of ALIGNMENT_FIELDS (fs_name (cv_field v)) of
        None \<Rightarrow> Inl AcquisitionValidationError
      | Some expected_field \<Rightarrow>
          ebind (acquisition_require (cv_field v = expected_field)) (\<lambda>_.
          let fixed_value =
            (if fs_name (cv_field v) = fs_name BUSINESS_DATE_FIELD then dic_business_date c else dic_source_cut c)
          in acquisition_require (cv_canonical_payload v = cv_canonical_payload fixed_value)))"

definition mk_DatasetInputCutDefinition :: "dataset_input_cut \<Rightarrow> exn + dataset_input_cut" where
  "mk_DatasetInputCutDefinition c =
     ebind (require_nonblank_text (dic_dataset_id c)) (\<lambda>_.
     ebind (acquisition_require_sha256 (dic_scope_digest c)) (\<lambda>_.
     ebind (require_fixed_canonical_value (dic_batch_id c) BATCH_ID_FIELD) (\<lambda>_.
     ebind (require_canonical_nonblank_string (dic_batch_id c)) (\<lambda>_.
     ebind (require_fixed_canonical_value (dic_business_date c) BUSINESS_DATE_FIELD) (\<lambda>_.
     ebind (require_fixed_canonical_value (dic_source_cut c) SOURCE_CUT_FIELD) (\<lambda>_.
     ebind (require_canonical_nonblank_string (dic_source_cut c)) (\<lambda>_.
     ebind (require_fixed_canonical_value (dic_dataset_version c) DATASET_VERSION_FIELD) (\<lambda>_.
     ebind (require_canonical_nonblank_string (dic_dataset_version c)) (\<lambda>_.
     ebind (require_fixed_canonical_value (dic_completed_at c) COMPLETED_AT_FIELD) (\<lambda>_.
     ebind (acquisition_require (dic_alignment_values c \<noteq> [])) (\<lambda>_.
     ebind (check_all (validate_alignment_value c) (dic_alignment_values c)) (\<lambda>_.
     let names = map (\<lambda>v. fs_name (cv_field v)) (dic_alignment_values c) in
     ebind (acquisition_require (card (set names) = length names)) (\<lambda>_.
     Inr c)))))))))))))"

record manifest_evidence =
  me_late_arrivals :: late_arrival_policy
  me_evidence_level :: consistency_level
  me_state :: pystr
  me_cut :: dataset_input_cut

definition mk_RelationManifestEvidence :: "manifest_evidence \<Rightarrow> exn + manifest_evidence" where
  "mk_RelationManifestEvidence e =
     ebind (acquisition_require (me_evidence_level e = VERIFIED)) (\<lambda>_.
     ebind (acquisition_require (me_state e = asc ''complete'')) (\<lambda>_. Inr e))"

record input_cut =
  ic_reference :: dataset_input_cut
  ic_target :: dataset_input_cut
  ic_late_arrivals :: late_arrival_policy
  ic_input_cut_digest :: pystr

definition canonical_value_semantics :: "canonical_value_definition \<Rightarrow> jval" where
  "canonical_value_semantics v = JObj
     [(asc ''name'', JStr (fs_name (cv_field v))),
      (asc ''payload_hex'', JStr (asc (bytes_hex (cv_canonical_payload v)))),
      (asc ''type'', field_type_semantics (cv_field v))]"

definition dataset_input_cut_semantics :: "dataset_input_cut \<Rightarrow> jval" where
  "dataset_input_cut_semantics c = JObj
     [(asc ''alignment_values'', JArr (map canonical_value_semantics (dic_alignment_values c))),
      (asc ''batch_id'', canonical_value_semantics (dic_batch_id c)),
      (asc ''business_date'', canonical_value_semantics (dic_business_date c)),
      (asc ''completed_at'', canonical_value_semantics (dic_completed_at c)),
      (asc ''dataset_id'', JStr (dic_dataset_id c)),
      (asc ''dataset_version'', canonical_value_semantics (dic_dataset_version c)),
      (asc ''direction'', JStr (plan_direction_value (dic_direction c))),
      (asc ''source_cut'', canonical_value_semantics (dic_source_cut c))]"

definition input_cut_semantics :: "dataset_input_cut \<Rightarrow> dataset_input_cut \<Rightarrow> late_arrival_policy \<Rightarrow> jval" where
  "input_cut_semantics reference target late_arrivals = JObj
     [(asc ''canonical_protocol'', JStr PROTOCOL),
      (asc ''datasets'', JArr [dataset_input_cut_semantics reference, dataset_input_cut_semantics target]),
      (asc ''input_cut_version'', JInt 1),
      (asc ''late_arrivals'', JStr (late_arrival_policy_value late_arrivals)),
      (asc ''scope_digest'', JStr (dic_scope_digest reference))]"

definition input_cut_semantic_value :: "input_cut \<Rightarrow> jval" where
  "input_cut_semantic_value c = input_cut_semantics (ic_reference c) (ic_target c) (ic_late_arrivals c)"

definition mk_InputCutDefinition :: "input_cut \<Rightarrow> exn + input_cut" where
  "mk_InputCutDefinition c =
     ebind (acquisition_require (dic_direction (ic_reference c) = DIRECTION_REFERENCE)) (\<lambda>_.
     ebind (acquisition_require (dic_direction (ic_target c) = DIRECTION_TARGET)) (\<lambda>_.
     ebind (acquisition_require (\<not> dic_dataset_id (ic_reference c) = dic_dataset_id (ic_target c))) (\<lambda>_.
     ebind (acquisition_require (dic_scope_digest (ic_reference c) = dic_scope_digest (ic_target c))) (\<lambda>_.
     ebind (acquisition_require (map cv_field (dic_alignment_values (ic_reference c)) =
         map cv_field (dic_alignment_values (ic_target c)))) (\<lambda>_.
     ebind (acquisition_require_sha256 (ic_input_cut_digest c)) (\<lambda>_.
     ebind (semantic_digest_hex (input_cut_semantic_value c)) (\<lambda>expected_digest.
     ebind (acquisition_require (ic_input_cut_digest c = asc expected_digest)) (\<lambda>_.
     Inr c))))))))"

definition build_input_cut_definition :: "manifest_evidence \<Rightarrow> manifest_evidence \<Rightarrow> exn + input_cut" where
  "build_input_cut_definition reference target =
     ebind (acquisition_require (me_late_arrivals reference = me_late_arrivals target)) (\<lambda>_.
     ebind (semantic_digest_hex
       (input_cut_semantics (me_cut reference) (me_cut target) (me_late_arrivals reference))) (\<lambda>digest.
     mk_InputCutDefinition
       \<lparr>ic_reference = me_cut reference, ic_target = me_cut target,
        ic_late_arrivals = me_late_arrivals reference, ic_input_cut_digest = asc digest\<rparr>))"

section \<open>Outcomes\<close>

record early_outcome =
  eo_execution_status :: execution_status
  eo_reason :: result_reason

definition mk_EarlyExecutionOutcome :: "early_outcome \<Rightarrow> exn + early_outcome" where
  "mk_EarlyExecutionOutcome e =
     (if eo_execution_status e = INCOMPLETE then
        ebind (acquisition_require (rr_code (eo_reason e) \<in> {CUT_MISMATCH, NOT_READY})) (\<lambda>_. Inr e)
      else if eo_execution_status e = ERROR then
        ebind (acquisition_require (rr_code (eo_reason e) = UNSUPPORTED_CAPABILITY)) (\<lambda>_. Inr e)
      else Inl AcquisitionValidationError)"

definition outcome ::
  "execution_status \<Rightarrow> reason_code \<Rightarrow> acquisition_operation \<Rightarrow> string \<Rightarrow> (string \<times> pystr) list \<Rightarrow> exn + early_outcome" where
  "outcome status code operation message parameters =
     ebind (mk_ResultReason
       \<lparr>rr_code = code, rr_operation = acquisition_operation_value operation, rr_message = asc message,
        rr_safe_parameters = map (\<lambda>(n, v). \<lparr>sp_name = asc n, sp_value = v\<rparr>) parameters,
        rr_native_error_code = None, rr_query_id = None, rr_redacted_response = None\<rparr>) (\<lambda>reason.
     mk_EarlyExecutionOutcome \<lparr>eo_execution_status = status, eo_reason = reason\<rparr>)"

definition not_ready_outcome :: "string \<Rightarrow> plan_direction \<Rightarrow> pystr \<Rightarrow> exn + early_outcome" where
  "not_ready_outcome message direction dataset_id =
     outcome INCOMPLETE NOT_READY VALIDATE_READINESS message
       [(''direction'', plan_direction_value direction), (''dataset_id'', dataset_id)]"

definition cut_mismatch_outcome :: "acquisition_operation \<Rightarrow> string \<Rightarrow> exn + early_outcome" where
  "cut_mismatch_outcome operation message = outcome INCOMPLETE CUT_MISMATCH operation message []"

definition unsupported_capability_outcome ::
  "acquisition_operation \<Rightarrow> string \<Rightarrow> plan_direction \<Rightarrow> pystr \<Rightarrow> exn + early_outcome" where
  "unsupported_capability_outcome operation message direction dataset_id =
     outcome ERROR UNSUPPORTED_CAPABILITY operation message
       [(''direction'', plan_direction_value direction), (''dataset_id'', dataset_id)]"

definition classify_input_cut_alignment :: "input_cut \<Rightarrow> exn + early_outcome option" where
  "classify_input_cut_alignment c =
     (if map cv_canonical_payload (dic_alignment_values (ic_reference c)) =
         map cv_canonical_payload (dic_alignment_values (ic_target c))
      then Inr None
      else ebind (cut_mismatch_outcome ALIGN_INPUT_CUT ''reference and target readiness cuts do not align'')
        (\<lambda>e. Inr (Some e)))"

definition classify_bound_input_cut :: "input_cut \<Rightarrow> input_cut \<Rightarrow> exn + early_outcome option" where
  "classify_bound_input_cut bound observed =
     (if input_cut_semantic_value bound = input_cut_semantic_value observed then Inr None
      else ebind (cut_mismatch_outcome VALIDATE_BOUND_INPUT_CUT
          ''observed readiness cut differs from the cut already bound to the run'') (\<lambda>e. Inr (Some e)))"

section \<open>Readiness\<close>

definition validate_alignment_fields :: "pystr list \<Rightarrow> exn + unit" where
  "validate_alignment_fields alignment_fields =
     ebind (acquisition_require (alignment_fields \<noteq> [])) (\<lambda>_.
     ebind (check_all (\<lambda>n. acquisition_require (map_of ALIGNMENT_FIELDS n \<noteq> None)) alignment_fields) (\<lambda>_.
     acquisition_require (card (set alignment_fields) = length alignment_fields)))"

fun alignment_values :: "complete_readiness \<Rightarrow> pystr list \<Rightarrow> exn + canonical_value_definition list" where
  "alignment_values r [] = Inr []"
| "alignment_values r (n # ns) =
     ebind (if n = fs_name BUSINESS_DATE_FIELD then
              canonical_value BUSINESS_DATE_FIELD (PDate (cr_business_date r))
            else if n = fs_name SOURCE_CUT_FIELD then canonical_value SOURCE_CUT_FIELD (PStr (cr_source_cut r))
            else Inl AssertionError) (\<lambda>v.
     ebind (alignment_values r ns) (\<lambda>vs. Inr (v # vs)))"

fun copy_rows :: "manifest_row list \<Rightarrow> exn + manifest_record list" where
  "copy_rows [] = Inr []"
| "copy_rows (r # rs) =
     ebind (copy_relation_manifest_row r) (\<lambda>x. ebind (copy_rows rs) (\<lambda>xs. Inr (x # xs)))"

fun record_dataset_id :: "manifest_record \<Rightarrow> pystr" where
  "record_dataset_id (BuildingReadinessRecord r) = mw_dataset_id r"
| "record_dataset_id (CompleteReadinessRecord r) = cr_dataset_id r"

fun record_scope_digest :: "manifest_record \<Rightarrow> pystr" where
  "record_scope_digest (BuildingReadinessRecord r) = mw_scope_digest r"
| "record_scope_digest (CompleteReadinessRecord r) = cr_scope_digest r"

fun record_batch_id :: "manifest_record \<Rightarrow> pystr" where
  "record_batch_id (BuildingReadinessRecord r) = mw_batch_id r"
| "record_batch_id (CompleteReadinessRecord r) = cr_batch_id r"

definition readiness_evidence ::
  "plan_direction \<Rightarrow> pystr list \<Rightarrow> late_arrival_policy \<Rightarrow> complete_readiness \<Rightarrow> exn + manifest_evidence" where
  "readiness_evidence direction alignment_fields late_arrivals r =
     ebind (canonical_value BATCH_ID_FIELD (PStr (cr_batch_id r))) (\<lambda>batch_id.
     ebind (canonical_value BUSINESS_DATE_FIELD (PDate (cr_business_date r))) (\<lambda>business_date.
     ebind (canonical_value SOURCE_CUT_FIELD (PStr (cr_source_cut r))) (\<lambda>source_cut.
     ebind (canonical_value DATASET_VERSION_FIELD (PStr (cr_dataset_version r))) (\<lambda>dataset_version.
     ebind (canonical_value COMPLETED_AT_FIELD (PDateTime (cr_completed_at r))) (\<lambda>completed_at.
     ebind (alignment_values r alignment_fields) (\<lambda>values.
     ebind (mk_DatasetInputCutDefinition
       \<lparr>dic_direction = direction, dic_dataset_id = cr_dataset_id r, dic_scope_digest = cr_scope_digest r,
        dic_batch_id = batch_id, dic_business_date = business_date, dic_source_cut = source_cut,
        dic_dataset_version = dataset_version, dic_completed_at = completed_at,
        dic_alignment_values = values\<rparr>) (\<lambda>cut.
     mk_RelationManifestEvidence
       \<lparr>me_late_arrivals = late_arrivals, me_evidence_level = VERIFIED, me_state = cr_state r,
        me_cut = cut\<rparr>)))))))"

definition validate_relation_manifest_readiness ::
  "plan_direction \<Rightarrow> manifest_row list \<Rightarrow> pystr \<Rightarrow> pystr \<Rightarrow> pystr \<Rightarrow> pystr list \<Rightarrow> late_arrival_policy \<Rightarrow>
   exn + (manifest_evidence + early_outcome)" where
  "validate_relation_manifest_readiness direction rows expected_dataset_id expected_scope_digest
       expected_batch_id alignment_fields late_arrivals =
     ebind (copy_rows rows) (\<lambda>normalized_rows.
     ebind (require_nonblank_text expected_dataset_id) (\<lambda>_.
     ebind (acquisition_require_sha256 expected_scope_digest) (\<lambda>_.
     ebind (require_nonblank_text expected_batch_id) (\<lambda>_.
     ebind (validate_alignment_fields alignment_fields) (\<lambda>_.
     let not_ready = (\<lambda>message.
       ebind (not_ready_outcome message direction expected_dataset_id) (\<lambda>e. Inr (Inr e))) in
     case normalized_rows of
       [row] \<Rightarrow>
         ebind (acquisition_require (record_dataset_id row = expected_dataset_id)) (\<lambda>_.
         ebind (acquisition_require (record_scope_digest row = expected_scope_digest)) (\<lambda>_.
         if record_batch_id row \<noteq> expected_batch_id then
           not_ready ''readiness manifest record does not match the expected batch''
         else
           (case row of
              BuildingReadinessRecord _ \<Rightarrow> not_ready ''readiness manifest record is not complete''
            | CompleteReadinessRecord r \<Rightarrow>
                ebind (readiness_evidence direction alignment_fields late_arrivals r) (\<lambda>e.
                Inr (Inl e)))))
     | _ \<Rightarrow> not_ready ''readiness manifest must return exactly one current record'')))))"

end
