(* ===== verification/Comparison_Context.thy ===== *)
theory Comparison_Context
  imports Comparison_Rows Acquisition
begin

text \<open>
  The protected read contexts and relation inspections that \<open>src/forensic_data/comparison.py\<close> works
  on, as far as it looks at them, and its helpers over them: stable-read levels, member and scan
  counts, the reservations of the two Greenplum connectors
  (\<open>greengage_endpoint.py\<close>, \<open>original_greenplum_endpoint.py\<close>), the budget checks and the usage
  bookkeeping. The five context classes are the constructors of \<open>context_kind\<close>, the five inspection
  classes those of \<open>relation_detail\<close>; the identity of an inspection object (\<open>is\<close>) is a number. What
  belongs to the outside world is a record of \<open>services\<close>: the monotonic clock, the ledger that all
  sessions of the run share, whether a context is still active, and the three reads.
\<close>

section \<open>Contexts and relations\<close>

datatype mssql_runtime_profile = MSSQL_2016 | MSSQL_2022

datatype context_kind =
    PostgresContext
  | MssqlContext mssql_runtime_profile
  | GreengageContext "int list"
  | OriginalGreenplumContext "int list"
  | ClickHouseContext consistency_level

record relation_acquisition =
  ra_relation :: "pystr \<times> pystr"
  ra_relation_scope :: relation_scope
  ra_schema :: canonical_schema
  ra_column_names :: "pystr list"

datatype postgres_relation_kind = REGULAR | PARTITIONED

record mssql_field_binding =
  fb_field_name :: pystr
  fb_column_id :: int
  fb_column_name :: pystr

datatype relation_detail =
    PostgresInspection relation_acquisition "pystr \<times> pystr" "postgres_relation_kind list option"
  | MssqlInspection int int int "pystr \<times> pystr" "mssql_field_binding list"
  | GreengageInspection relation_acquisition "pystr \<times> pystr"
  | OriginalGreenplumInspection relation_acquisition "pystr \<times> pystr"
  | ClickHouseInspection relation_acquisition

record comparison_relation =
  crl_identity :: nat
  crl_detail :: relation_detail

record read_context =
  cx_kind :: context_kind
  cx_context_id :: uuid
  cx_source_budget :: attempt
  cx_source_direction :: source_direction
  cx_protected_relations :: "comparison_relation list"

record scope_predicate =
  spr_field :: field_schema
  spr_column_name :: pystr
  spr_canonical_payload :: bytes

record 'w services =
  sv_clock :: "'w clock"
  sv_ledger :: "'w \<Rightarrow> ledger"
  sv_active :: "read_context \<Rightarrow> 'w \<Rightarrow> bool"
  sv_read_summary :: "read_context \<Rightarrow> comparison_relation \<Rightarrow> nat \<Rightarrow> scope_predicate option \<Rightarrow> int \<Rightarrow> int \<Rightarrow> int \<Rightarrow>
    read_deadline \<Rightarrow> int \<Rightarrow> ('w, cause, key_summary_read) eff"
  sv_read_fingerprints :: "read_context \<Rightarrow> comparison_relation \<Rightarrow> nat \<Rightarrow> scope_predicate option \<Rightarrow>
    range_request list \<Rightarrow> int \<Rightarrow> int \<Rightarrow> int \<Rightarrow> read_deadline \<Rightarrow> int \<Rightarrow> ('w, cause, range_fingerprint_read) eff"
  sv_read_rows :: "read_context \<Rightarrow> comparison_relation \<Rightarrow> nat \<Rightarrow> scope_predicate option \<Rightarrow>
    range_request list \<Rightarrow> int \<Rightarrow> int \<Rightarrow> int \<Rightarrow> int \<Rightarrow> read_deadline \<Rightarrow> int \<Rightarrow> ('w, cause, exact_rows_read) eff"

fun is_mssql_inspection :: "relation_detail \<Rightarrow> bool" where
  "is_mssql_inspection (MssqlInspection _ _ _ _ _) \<longleftrightarrow> True"
| "is_mssql_inspection _ \<longleftrightarrow> False"

text \<open>The engine checks at the head of the three \<open>_read_integer_\<close> functions.\<close>

fun same_engine :: "context_kind \<Rightarrow> relation_detail \<Rightarrow> bool" where
  "same_engine (ClickHouseContext _) (ClickHouseInspection _) \<longleftrightarrow> True"
| "same_engine PostgresContext (PostgresInspection _ _ _) \<longleftrightarrow> True"
| "same_engine (GreengageContext _) (GreengageInspection _ _) \<longleftrightarrow> True"
| "same_engine (OriginalGreenplumContext _) (OriginalGreenplumInspection _ _) \<longleftrightarrow> True"
| "same_engine (MssqlContext _) (MssqlInspection _ _ _ _ _) \<longleftrightarrow> True"
| "same_engine _ _ \<longleftrightarrow> False"

definition read_integer_key_summary ::
  "'w services \<Rightarrow> read_context \<Rightarrow> comparison_relation \<Rightarrow> nat \<Rightarrow> scope_predicate option \<Rightarrow> int \<Rightarrow> int \<Rightarrow> int \<Rightarrow>
   read_deadline \<Rightarrow> int \<Rightarrow> ('w, cause, key_summary_read) eff" where
  "read_integer_key_summary sv context relation key_field_index scope max_encoded_envelope_bytes
       max_record_bytes max_total_bytes deadline full_scans =
     wbind (wrequire (same_engine (cx_kind context) (crl_detail relation)) (Raised ComparisonProtocolError)) (\<lambda>_.
     sv_read_summary sv context relation key_field_index scope max_encoded_envelope_bytes
       max_record_bytes max_total_bytes deadline full_scans)"

definition read_integer_range_fingerprints ::
  "'w services \<Rightarrow> read_context \<Rightarrow> comparison_relation \<Rightarrow> nat \<Rightarrow> scope_predicate option \<Rightarrow> range_request list \<Rightarrow>
   int \<Rightarrow> int \<Rightarrow> int \<Rightarrow> read_deadline \<Rightarrow> int \<Rightarrow> ('w, cause, range_fingerprint_read) eff" where
  "read_integer_range_fingerprints sv context relation key_field_index scope ranges
       max_encoded_envelope_bytes max_record_bytes max_total_bytes deadline full_scans =
     wbind (wrequire (same_engine (cx_kind context) (crl_detail relation)) (Raised ComparisonProtocolError)) (\<lambda>_.
     sv_read_fingerprints sv context relation key_field_index scope ranges max_encoded_envelope_bytes
       max_record_bytes max_total_bytes deadline full_scans)"

definition read_integer_range_rows ::
  "'w services \<Rightarrow> read_context \<Rightarrow> comparison_relation \<Rightarrow> nat \<Rightarrow> scope_predicate option \<Rightarrow> range_request list \<Rightarrow>
   int \<Rightarrow> int \<Rightarrow> int \<Rightarrow> int \<Rightarrow> read_deadline \<Rightarrow> int \<Rightarrow> ('w, cause, exact_rows_read) eff" where
  "read_integer_range_rows sv context relation key_field_index scope ranges max_encoded_envelope_bytes
       max_records max_record_bytes max_total_bytes deadline full_scans =
     wbind (wrequire (same_engine (cx_kind context) (crl_detail relation)) (Raised ComparisonProtocolError)) (\<lambda>_.
     sv_read_rows sv context relation key_field_index scope ranges max_encoded_envelope_bytes
       max_records max_record_bytes max_total_bytes deadline full_scans)"

section \<open>Stable reads\<close>

definition context_stable_read_level :: "'w services \<Rightarrow> read_context \<Rightarrow> 'w \<Rightarrow> exn + consistency_level" where
  "context_stable_read_level sv context w =
     (if \<not> sv_active sv context w then Inr UNKNOWN
      else
        (case cx_kind context of
           ClickHouseContext level \<Rightarrow>
             ebind (require (level = ASSERTED) ComparisonProtocolError) (\<lambda>_. Inr level)
         | _ \<Rightarrow> Inr VERIFIED))"

definition comparison_stable_read_level ::
  "'w services \<Rightarrow> read_context \<Rightarrow> read_context \<Rightarrow> bool \<Rightarrow> 'w \<Rightarrow> exn + consistency_level" where
  "comparison_stable_read_level sv reference_context target_context reads_established w =
     (if \<not> reads_established then Inr UNKNOWN
      else
        ebind (context_stable_read_level sv reference_context w) (\<lambda>reference_level.
        ebind (context_stable_read_level sv target_context w) (\<lambda>target_level.
        let levels = [reference_level, target_level] in
        if UNKNOWN \<in> set levels then Inr UNKNOWN
        else if ASSERTED \<in> set levels then Inr ASSERTED
        else Inr VERIFIED)))"

definition completed_stable_read_level ::
  "'w services \<Rightarrow> read_context \<Rightarrow> read_context \<Rightarrow> 'w \<Rightarrow> exn + consistency_level" where
  "completed_stable_read_level sv reference_context target_context w =
     ebind (comparison_stable_read_level sv reference_context target_context True w) (\<lambda>stable_reads.
     ebind (require (stable_reads \<noteq> UNKNOWN) ComparisonProtocolError) (\<lambda>_.
     Inr stable_reads))"

section \<open>Members, scans and reservations\<close>

fun relation_member_count :: "relation_detail \<Rightarrow> int" where
  "relation_member_count (PostgresInspection _ _ composition) =
     (case composition of None \<Rightarrow> 1 | Some members \<Rightarrow> int (length members))"
| "relation_member_count (MssqlInspection _ _ _ _ bindings) = 3 + int (length bindings)"
| "relation_member_count _ = 1"

definition HAS_DATA_BYTES :: int where
  "HAS_DATA_BYTES = 1"

fun aggregate_presence_bytes :: "relation_detail \<Rightarrow> int" where
  "aggregate_presence_bytes (MssqlInspection _ _ _ _ _) = HAS_DATA_BYTES"
| "aggregate_presence_bytes _ = 0"

fun relation_physical_scan_count :: "relation_detail \<Rightarrow> int" where
  "relation_physical_scan_count (PostgresInspection _ _ composition) =
     (case composition of None \<Rightarrow> 1 | Some members \<Rightarrow> int (length (filter (\<lambda>k. k = REGULAR) members)))"
| "relation_physical_scan_count _ = 1"

fun session_setup_record_bytes :: "context_kind \<Rightarrow> int" where
  "session_setup_record_bytes (OriginalGreenplumContext _) = 256"
| "session_setup_record_bytes _ = 128"

definition topology_bytes :: "int list \<Rightarrow> int" where
  "topology_bytes content_ids =
     (case content_ids of
        [] \<Rightarrow> 0
      | c # cs \<Rightarrow> int (length (int_str c)) + sum_list (map (\<lambda>i. 1 + int (length (int_str i))) cs))"

text \<open>\<open>fingerprint_result_reservation\<close> of the two Greenplum contexts: result bytes, fields per record
  and text values. The coordinator bytes of the plan check are the constants of the two modules.\<close>

definition fingerprint_result_reservation :: "int list \<Rightarrow> int \<Rightarrow> exn + (int \<times> int \<times> int)" where
  "fingerprint_result_reservation content_ids range_count =
     ebind (require (\<not> range_count < 1) ValueError) (\<lambda>_.
     let additional_record_bytes = 2 * topology_bytes content_ids in
     Inr (range_count * additional_record_bytes, 2, 2 * range_count))"

definition original_fingerprint_plan_reservation :: "int \<Rightarrow> int \<Rightarrow> exn + (int \<times> int \<times> int \<times> int)" where
  "original_fingerprint_plan_reservation range_count base_invariant_record_bytes =
     ebind (require (\<not> range_count < 1) ValueError) (\<lambda>_.
     ebind (require (\<not> base_invariant_record_bytes < 1) ValueError) (\<lambda>_.
     Inr (4 * range_count - 2,
          range_count * (50000 + 2) - 1,
          range_count * (8 * 1024 * 1024 + 2 * 256) - base_invariant_record_bytes,
          8 * 1024 * 1024 + 50000 * 512)))"

definition greengage_fingerprint_plan_reservation :: "int \<times> int \<times> int \<times> int" where
  "greengage_fingerprint_plan_reservation =
     (2, 1024 + 1, 256 * 1024 + 128, 16 * (256 * 1024) + 512 * 1024 + 512 + 128)"

fun greenplum_fingerprint_plan_budget :: "context_kind \<Rightarrow> int \<Rightarrow> exn + (int \<times> int \<times> int \<times> int)" where
  "greenplum_fingerprint_plan_budget (OriginalGreenplumContext ids) range_count =
     original_fingerprint_plan_reservation range_count
       (session_setup_record_bytes (OriginalGreenplumContext ids))"
| "greenplum_fingerprint_plan_budget (GreengageContext ids) range_count =
     Inr greengage_fingerprint_plan_reservation"
| "greenplum_fingerprint_plan_budget _ range_count = Inr (0, 0, 0, 0)"

fun greenplum_fingerprint_result_budget :: "context_kind \<Rightarrow> int \<Rightarrow> exn + (int \<times> int \<times> int)" where
  "greenplum_fingerprint_result_budget (GreengageContext ids) range_count =
     fingerprint_result_reservation ids range_count"
| "greenplum_fingerprint_result_budget (OriginalGreenplumContext ids) range_count =
     fingerprint_result_reservation ids range_count"
| "greenplum_fingerprint_result_budget _ range_count = Inr (0, 0, 0)"

fun fingerprint_full_scans :: "context_kind \<Rightarrow> int \<Rightarrow> int \<Rightarrow> int" where
  "fingerprint_full_scans (GreengageContext _) range_count physical_scan_count = physical_scan_count"
| "fingerprint_full_scans (ClickHouseContext _) range_count physical_scan_count = physical_scan_count"
| "fingerprint_full_scans _ range_count physical_scan_count = range_count * physical_scan_count"

definition MAX_MSSQL_INTEGER_RANGES :: nat where
  "MAX_MSSQL_INTEGER_RANGES = 524"

definition require_mssql_range_batch_capacity ::
  "pending_segment list \<Rightarrow> comparison_relation \<Rightarrow> comparison_relation \<Rightarrow> exn + unit" where
  "require_mssql_range_batch_capacity pending reference_relation target_relation =
     (if length pending \<le> MAX_MSSQL_INTEGER_RANGES then Inr ()
      else if \<not> is_mssql_inspection (crl_detail reference_relation) \<and>
              \<not> is_mssql_inspection (crl_detail target_relation) then Inr ()
      else Inl ComparisonBudgetExceededError)"

section \<open>Budgets and usage\<close>

text \<open>The capacity that is left, and a snapshot of the attempt's usage, which reads the clock twice.\<close>

definition source_remaining :: "'w services \<Rightarrow> ('w, cause, capacity_snapshot) eff" where
  "source_remaining sv = (\<lambda>w. raised (remaining (sv_ledger sv w)) w)"

definition source_snapshot :: "'w services \<Rightarrow> attempt \<Rightarrow> ('w, cause, usage_snapshot) eff" where
  "source_snapshot sv source_budget = (\<lambda>w.
     case sv_clock sv w of (now, w1) \<Rightarrow>
     case sv_clock sv w1 of (now', w2) \<Rightarrow>
       raised (attempt_snapshot source_budget now now' (sv_ledger sv w)) w2)"

definition require_budget_capacity ::
  "'w services \<Rightarrow> execution_budgets \<Rightarrow> int \<Rightarrow> int \<Rightarrow> int \<Rightarrow> int \<Rightarrow> ('w, cause, unit) eff" where
  "require_budget_capacity sv budgets additional_queries additional_records additional_result_bytes
       coordinator_bytes =
     wbind (source_remaining sv) (\<lambda>left.
     wbind (wrequire (\<not> additional_queries > cap_queries left) (Raised ComparisonBudgetExceededError)) (\<lambda>_.
     wbind (wrequire (\<not> additional_records > cap_fetched_records left) (Raised ComparisonBudgetExceededError)) (\<lambda>_.
     wbind (wrequire (\<not> additional_result_bytes > cap_result_bytes left) (Raised ComparisonBudgetExceededError)) (\<lambda>_.
     wrequire (\<not> coordinator_bytes > eb_max_coordinator_memory_bytes budgets)
       (Raised ComparisonBudgetExceededError)))))"

definition require_full_scan_capacity :: "'w services \<Rightarrow> int \<Rightarrow> int \<Rightarrow> ('w, cause, unit) eff" where
  "require_full_scan_capacity sv reference_full_scans target_full_scans =
     wbind (source_remaining sv) (\<lambda>left.
     wbind (wrequire (\<not> reference_full_scans > cap_reference_full_scans left) (Raised ComparisonBudgetExceededError)) (\<lambda>_.
     wrequire (\<not> target_full_scans > cap_target_full_scans left) (Raised ComparisonBudgetExceededError)))"

definition consume_source_usage :: "'w services \<Rightarrow> usage \<Rightarrow> attempt \<Rightarrow> int \<Rightarrow> int \<Rightarrow> ('w, cause, usage) eff" where
  "consume_source_usage sv u source_budget nodes coordinator_peak_bytes =
     wbind (source_snapshot sv source_budget) (\<lambda>snapshot.
     wreturn \<lparr>ug_queries = us_queries snapshot, ug_fetched_records = us_fetched_records snapshot,
       ug_result_bytes = us_result_bytes snapshot,
       ug_fingerprint_nodes = ug_fingerprint_nodes u + nodes,
       ug_coordinator_peak_bytes = max (ug_coordinator_peak_bytes u) coordinator_peak_bytes,
       ug_reference_full_scans = us_reference_full_scans snapshot,
       ug_target_full_scans = us_target_full_scans snapshot,
       ug_elapsed_milliseconds = us_elapsed_milliseconds snapshot\<rparr>)"

definition usage_with_coordinator_peak :: "usage \<Rightarrow> int \<Rightarrow> usage" where
  "usage_with_coordinator_peak u coordinator_peak_bytes =
     u\<lparr>ug_coordinator_peak_bytes := max (ug_coordinator_peak_bytes u) coordinator_peak_bytes\<rparr>"

definition result_metrics_of :: "usage \<Rightarrow> exn + result_metrics" where
  "result_metrics_of u = mk_ResultMetrics
     \<lparr>rm_queries = ug_queries u, rm_fetched_records = ug_fetched_records u,
      rm_result_bytes = ug_result_bytes u, rm_fingerprint_nodes = ug_fingerprint_nodes u,
      rm_coordinator_peak_bytes = ug_coordinator_peak_bytes u,
      rm_elapsed_milliseconds = ug_elapsed_milliseconds u\<rparr>"

end
