(* ===== verification/Comparison_Memory.thy ===== *)
theory Comparison_Memory
  imports Comparison_Context
begin

text \<open>
  The coordinator-memory and result-byte reservations of \<open>src/forensic_data/comparison.py\<close>
  (\<open>_fingerprint_record_bytes\<close> to \<open>_exact_frontier_reservation\<close>) and the plan of one fingerprint
  level. \<open>sys.getsizeof\<close> depends on the interpreter build: the sizes it returns are a record of
  parameters, with one number per slotted class; \<open>_POINTER_BYTES\<close> and
  \<open>_DICT_ENTRY_RESERVATION_BYTES\<close> are differences of two of them.
\<close>

datatype slot_class =
    SlotFingerprint | SlotReadMetrics | SlotKeySummaryRead | SlotKeySummary | SlotSegmentRecord
  | SlotPendingSegment | SlotRangeRequest | SlotFingerprintNode | SlotRangeFingerprint
  | SlotRangeFingerprintRead | SlotExactRow | SlotExactRowsRead

record sizes =
  sz_singleton_tuple :: int
  sz_empty_tuple :: int
  sz_empty_list :: int
  sz_empty_dict :: int
  sz_singleton_dict :: int
  sz_empty_text :: int
  sz_empty_bytes :: int
  sz_decimal :: int
  sz_true :: int
  sz_segment_state :: int
  sz_int :: "int \<Rightarrow> int"
  slot_object_bytes :: "slot_class \<Rightarrow> int"

definition POINTER_BYTES :: "sizes \<Rightarrow> int" where
  "POINTER_BYTES z = sz_singleton_tuple z - sz_empty_tuple z"

definition DICT_ENTRY_RESERVATION_BYTES :: "sizes \<Rightarrow> int" where
  "DICT_ENTRY_RESERVATION_BYTES z = sz_singleton_dict z - sz_empty_dict z"

definition DECODE_FIELD_RESERVATION_BYTES :: "sizes \<Rightarrow> int" where
  "DECODE_FIELD_RESERVATION_BYTES z = 6 * POINTER_BYTES z + sz_empty_text z + sz_empty_bytes z + sz_decimal z"

definition SUMMARY_RECORD_BYTES :: int where
  "SUMMARY_RECORD_BYTES = 136"

definition MAX_INT64_KEY_ENVELOPE_BYTES :: int where
  "MAX_INT64_KEY_ENVELOPE_BYTES = 136"

definition MAX_INT64_TEXT_BYTES :: int where
  "MAX_INT64_TEXT_BYTES = 20"

definition EXACT_STATUS_BYTES :: int where
  "EXACT_STATUS_BYTES = 2"

definition MAX_ROW_TYPE_OID_BYTES :: int where
  "MAX_ROW_TYPE_OID_BYTES = 10"

definition DECODE_ENVELOPE_EXPANSION :: int where
  "DECODE_ENVELOPE_EXPANSION = 6"

section \<open>Bytes of records and containers\<close>

text \<open>\<open>len(segment_id.encode("ascii"))\<close>.\<close>

definition ascii_length :: "pystr \<Rightarrow> exn + int" where
  "ascii_length s = ebind (require (list_all (\<lambda>c. c < 128) s) UnicodeEncodeError) (\<lambda>_. Inr (int (length s)))"

fun sum_each :: "('a \<Rightarrow> exn + int) \<Rightarrow> 'a list \<Rightarrow> exn + int" where
  "sum_each f [] = Inr 0"
| "sum_each f (x # xs) = ebind (f x) (\<lambda>n. ebind (sum_each f xs) (\<lambda>m. Inr (n + m)))"

text \<open>\<open>max\<close> of a nonempty generator; on an empty one it raises \<open>ValueError\<close>.\<close>

fun max_each :: "('a \<Rightarrow> exn + int) \<Rightarrow> 'a list \<Rightarrow> exn + int" where
  "max_each f [] = Inl ValueError"
| "max_each f [x] = f x"
| "max_each f (x # y # xs) = ebind (f x) (\<lambda>n. ebind (max_each f (y # xs)) (\<lambda>m. Inr (max n m)))"

definition fingerprint_record_bytes :: "pystr \<Rightarrow> exn + int" where
  "fingerprint_record_bytes identifier =
     ebind (ascii_length identifier) (\<lambda>n. Inr (n + 3 * 19 + 8 * 38 + 2 * 38))"

definition provenance_bytes :: "int \<Rightarrow> exn + int" where
  "provenance_bytes member_count =
     ebind (require_nonnegative_integer member_count) (\<lambda>_. Inr (member_count * MAX_ROW_TYPE_OID_BYTES))"

definition tuple_storage_bytes :: "sizes \<Rightarrow> int \<Rightarrow> exn + int" where
  "tuple_storage_bytes z item_count =
     ebind (require_nonnegative_integer item_count) (\<lambda>_. Inr (sz_empty_tuple z + item_count * POINTER_BYTES z))"

definition list_storage_bytes :: "sizes \<Rightarrow> int \<Rightarrow> exn + int" where
  "list_storage_bytes z item_count =
     ebind (require_nonnegative_integer item_count) (\<lambda>_.
     if item_count = 0 then Inr (sz_empty_list z)
     else Inr (sz_empty_list z + (item_count + item_count div 8 + 6) * POINTER_BYTES z))"

definition dict_storage_bytes :: "sizes \<Rightarrow> int \<Rightarrow> exn + int" where
  "dict_storage_bytes z item_count =
     ebind (require_nonnegative_integer item_count) (\<lambda>_.
     Inr (sz_empty_dict z + item_count * DICT_ENTRY_RESERVATION_BYTES z))"

definition maximum_integer_object_bytes :: "sizes \<Rightarrow> execution_budgets \<Rightarrow> int" where
  "maximum_integer_object_bytes z budgets =
     Max {sz_int z INT64_MIN, sz_int z INT64_MAX, sz_int z (10 ^ 38 - 1),
       sz_int z (eb_max_application_result_bytes budgets),
       sz_int z (eb_max_coordinator_memory_bytes budgets),
       sz_int z (eb_max_fingerprint_nodes budgets)}"

definition fingerprint_value_memory_bytes :: "sizes \<Rightarrow> exn + int" where
  "fingerprint_value_memory_bytes z =
     (let maximum_limb = INT64_MAX * (2 ^ 32 - 1) in
      ebind (tuple_storage_bytes z 8) (\<lambda>tuple_bytes.
      Inr (slot_object_bytes z SlotFingerprint + tuple_bytes + sz_int z INT64_MAX + 8 * sz_int z maximum_limb)))"

definition read_metrics_memory_bytes :: "sizes \<Rightarrow> execution_budgets \<Rightarrow> int" where
  "read_metrics_memory_bytes z budgets =
     slot_object_bytes z SlotReadMetrics + 2 * maximum_integer_object_bytes z budgets"

definition summary_parsed_side_memory_bytes :: "sizes \<Rightarrow> execution_budgets \<Rightarrow> int" where
  "summary_parsed_side_memory_bytes z budgets =
     slot_object_bytes z SlotKeySummaryRead + slot_object_bytes z SlotKeySummary +
     read_metrics_memory_bytes z budgets + 7 * maximum_integer_object_bytes z budgets + sz_true z"

definition raw_rows_memory_bytes ::
  "sizes \<Rightarrow> int \<Rightarrow> int \<Rightarrow> int \<Rightarrow> int \<Rightarrow> int \<Rightarrow> execution_budgets \<Rightarrow> exn + int" where
  "raw_rows_memory_bytes z record_count field_count ascii_value_count integer_value_count result_bytes budgets =
     ebind (check_all require_nonnegative_integer
       [record_count, field_count, ascii_value_count, integer_value_count, result_bytes]) (\<lambda>_.
     ebind (list_storage_bytes z record_count) (\<lambda>row_list.
     ebind (tuple_storage_bytes z record_count) (\<lambda>row_tuple.
     ebind (tuple_storage_bytes z field_count) (\<lambda>field_tuple.
     Inr (row_list + row_tuple + record_count * field_tuple + ascii_value_count * sz_empty_text z +
       integer_value_count * maximum_integer_object_bytes z budgets + result_bytes)))))"

definition summary_phase_memory_bytes ::
  "sizes \<Rightarrow> execution_budgets \<Rightarrow> int \<Rightarrow> int \<Rightarrow> int \<Rightarrow> int \<Rightarrow> int \<Rightarrow> int \<Rightarrow> exn + int" where
  "summary_phase_memory_bytes z budgets reference_member_count target_member_count
       reference_aggregate_presence_bytes target_aggregate_presence_bytes
       reference_result_bytes target_result_bytes =
     (let parsed_side = summary_parsed_side_memory_bytes z budgets in
      ebind (raw_rows_memory_bytes z 1 (reference_member_count + 8 + reference_aggregate_presence_bytes) 7
        reference_member_count reference_result_bytes budgets) (\<lambda>reference_raw.
      ebind (raw_rows_memory_bytes z 1 (target_member_count + 8 + target_aggregate_presence_bytes) 7
        target_member_count target_result_bytes budgets) (\<lambda>target_raw.
      Inr (max (parsed_side + reference_raw) (2 * parsed_side + target_raw)))))"

definition summary_pair_memory_bytes :: "sizes \<Rightarrow> execution_budgets \<Rightarrow> int" where
  "summary_pair_memory_bytes z budgets = 2 * summary_parsed_side_memory_bytes z budgets"

definition topology_memory_bytes :: "sizes \<Rightarrow> int \<Rightarrow> execution_budgets \<Rightarrow> exn + int" where
  "topology_memory_bytes z node_count budgets =
     ebind (require_nonnegative_integer node_count) (\<lambda>_.
     ebind (fingerprint_value_memory_bytes z) (\<lambda>fingerprint_bytes.
     let record_bytes = slot_object_bytes z SlotSegmentRecord + 5 * maximum_integer_object_bytes z budgets +
       2 * fingerprint_bytes in
     ebind (list_storage_bytes z node_count) (\<lambda>node_list.
     ebind (tuple_storage_bytes z node_count) (\<lambda>node_tuple.
     Inr (node_count * record_bytes + 2 * node_list + node_tuple + sz_segment_state z)))))"

definition frontier_structure_memory_bytes ::
  "sizes \<Rightarrow> pending_segment list \<Rightarrow> execution_budgets \<Rightarrow> exn + int" where
  "frontier_structure_memory_bytes z segments budgets =
     (let item_count = int (length segments) in
      ebind (sum_each (\<lambda>s. ebind (segment_id (pe_segment_sequence s)) ascii_length) segments) (\<lambda>segment_identifier_bytes.
      let item_bytes = slot_object_bytes z SlotPendingSegment + slot_object_bytes z SlotRangeRequest +
        slot_object_bytes z SlotFingerprintNode + 5 * maximum_integer_object_bytes z budgets + sz_empty_text z in
      ebind (tuple_storage_bytes z item_count) (\<lambda>item_tuple.
      ebind (list_storage_bytes z item_count) (\<lambda>item_list.
      Inr (item_count * item_bytes + segment_identifier_bytes + 6 * item_tuple + 2 * item_list)))))"

definition fingerprint_parsed_side_memory_bytes ::
  "sizes \<Rightarrow> range_request list \<Rightarrow> execution_budgets \<Rightarrow> exn + int" where
  "fingerprint_parsed_side_memory_bytes z requests budgets =
     (let item_count = int (length requests) in
      ebind (sum_each (\<lambda>r. ascii_length (rq_segment_id r)) requests) (\<lambda>segment_identifier_bytes.
      ebind (fingerprint_value_memory_bytes z) (\<lambda>fingerprint_bytes.
      let parsed_item_bytes = slot_object_bytes z SlotRangeFingerprint + fingerprint_bytes +
        2 * maximum_integer_object_bytes z budgets + sz_empty_text z in
      ebind (list_storage_bytes z item_count) (\<lambda>item_list.
      ebind (tuple_storage_bytes z item_count) (\<lambda>item_tuple.
      Inr (slot_object_bytes z SlotRangeFingerprintRead + read_metrics_memory_bytes z budgets + item_list +
        item_tuple + item_count * parsed_item_bytes + segment_identifier_bytes))))))"

definition retained_memory_bytes ::
  "sizes \<Rightarrow> int \<Rightarrow> pending_segment list \<Rightarrow> execution_budgets \<Rightarrow> exn + int" where
  "retained_memory_bytes z node_count segments budgets =
     ebind (topology_memory_bytes z node_count budgets) (\<lambda>topology.
     ebind (frontier_structure_memory_bytes z segments budgets) (\<lambda>frontier.
     Inr (summary_pair_memory_bytes z budgets + topology + frontier)))"

definition fingerprint_phase_memory_bytes ::
  "sizes \<Rightarrow> usage \<Rightarrow> pending_segment list \<Rightarrow> range_request list \<Rightarrow> execution_budgets \<Rightarrow> int \<Rightarrow> int \<Rightarrow> int \<Rightarrow> int \<Rightarrow>
   int \<Rightarrow> int \<Rightarrow> int \<Rightarrow> int \<Rightarrow> int \<Rightarrow> int \<Rightarrow> exn + int" where
  "fingerprint_phase_memory_bytes z u pending requests budgets reference_member_count target_member_count
       reference_aggregate_presence_bytes target_aggregate_presence_bytes
       reference_additional_fields_per_record target_additional_fields_per_record
       reference_additional_ascii_values target_additional_ascii_values
       reference_result_bytes target_result_bytes =
     (let n = int (length requests) in
      ebind (fingerprint_parsed_side_memory_bytes z requests budgets) (\<lambda>parsed_side.
      ebind (raw_rows_memory_bytes z n
        (reference_member_count + 14 + reference_aggregate_presence_bytes + reference_additional_fields_per_record)
        (14 * n + reference_additional_ascii_values) (reference_member_count * n)
        reference_result_bytes budgets) (\<lambda>reference_raw.
      ebind (raw_rows_memory_bytes z n
        (target_member_count + 14 + target_aggregate_presence_bytes + target_additional_fields_per_record)
        (14 * n + target_additional_ascii_values) (target_member_count * n)
        target_result_bytes budgets) (\<lambda>target_raw.
      ebind (retained_memory_bytes z (ug_fingerprint_nodes u) pending budgets) (\<lambda>retained.
      let query_peak = max (retained + parsed_side + reference_raw) (retained + 2 * parsed_side + target_raw) in
      ebind (retained_memory_bytes z (ug_fingerprint_nodes u + int (length pending)) pending budgets)
        (\<lambda>projected_topology_peak.
      Inr (max query_peak projected_topology_peak)))))))"

section \<open>The plan of a fingerprint level\<close>

record fingerprint_level_plan =
  lp_requests :: "range_request list"
  lp_payload_result_bytes :: int
  lp_payload_record_bytes :: int
  lp_reference_result_bytes :: int
  lp_target_result_bytes :: int
  lp_reference_full_scans :: int
  lp_target_full_scans :: int
  lp_coordinator_peak_bytes :: int

definition plan_fingerprint_level ::
  "sizes \<Rightarrow> pending_segment list \<Rightarrow> usage \<Rightarrow> execution_budgets \<Rightarrow> context_kind \<Rightarrow> context_kind \<Rightarrow>
   int \<Rightarrow> int \<Rightarrow> int \<Rightarrow> int \<Rightarrow> int \<Rightarrow> int \<Rightarrow> exn + fingerprint_level_plan" where
  "plan_fingerprint_level z pending u budgets reference_context target_context
       reference_member_count target_member_count
       reference_aggregate_presence_bytes target_aggregate_presence_bytes
       reference_physical_scan_count target_physical_scan_count =
     ebind (require (\<not> ug_fingerprint_nodes u + int (length pending) > eb_max_fingerprint_nodes budgets)
       ComparisonBudgetExceededError) (\<lambda>_.
     ebind (traverse range_request_of pending) (\<lambda>requests.
     let n = int (length requests) in
     ebind (sum_each (\<lambda>r. fingerprint_record_bytes (rq_segment_id r)) requests) (\<lambda>base_result_bytes.
     ebind (max_each (\<lambda>r. fingerprint_record_bytes (rq_segment_id r)) requests) (\<lambda>base_record_bytes.
     ebind (provenance_bytes reference_member_count) (\<lambda>reference_provenance.
     ebind (provenance_bytes target_member_count) (\<lambda>target_provenance.
     ebind (greenplum_fingerprint_result_budget reference_context n) (\<lambda>(reference_extra, reference_fields, reference_ascii).
     ebind (greenplum_fingerprint_result_budget target_context n) (\<lambda>(target_extra, target_fields, target_ascii).
     let reference_result_bytes = base_result_bytes +
           n * (reference_provenance + reference_aggregate_presence_bytes) + reference_extra;
         target_result_bytes = base_result_bytes +
           n * (target_provenance + target_aggregate_presence_bytes) + target_extra in
     ebind (fingerprint_phase_memory_bytes z u pending requests budgets
       reference_member_count target_member_count
       reference_aggregate_presence_bytes target_aggregate_presence_bytes
       reference_fields target_fields reference_ascii target_ascii
       reference_result_bytes target_result_bytes) (\<lambda>peak.
     Inr \<lparr>lp_requests = requests, lp_payload_result_bytes = base_result_bytes,
       lp_payload_record_bytes = base_record_bytes,
       lp_reference_result_bytes = reference_result_bytes, lp_target_result_bytes = target_result_bytes,
       lp_reference_full_scans = fingerprint_full_scans reference_context n reference_physical_scan_count,
       lp_target_full_scans = fingerprint_full_scans target_context n target_physical_scan_count,
       lp_coordinator_peak_bytes = peak\<rparr>)))))))))"

section \<open>The reservation of an exact frontier\<close>

record exact_side_reservation =
  xr_records :: int
  xr_result_bytes :: int
  xr_raw_records :: int
  xr_raw_result_bytes :: int
  xr_envelope_bytes :: int
  xr_segment_identifier_bytes :: int
  xr_member_count :: int
  xr_full_scans :: int
  xr_raw_ascii_value_count :: int
  xr_raw_integer_value_count :: int

record exact_frontier_reservation =
  fr_reference :: exact_side_reservation
  fr_target :: exact_side_reservation
  fr_setup_result_bytes :: int
  fr_coordinator_peak_bytes :: int

text \<open>The reference and target versions of these two functions differ only in the side they select.\<close>

definition exact_frontier_bytes :: "range_fingerprint list \<Rightarrow> exn + int" where
  "exact_frontier_bytes side =
     sum_each (\<lambda>r.
       ebind (ascii_length (rf_segment_id r)) (\<lambda>n.
       Inr (rf_row_envelope_bytes r + rf_key_envelope_bytes r +
         fp_count (rf_fingerprint r) * (n + EXACT_STATUS_BYTES)))) side"

definition exact_side_reservation_of :: "range_fingerprint list \<Rightarrow> int \<Rightarrow> int \<Rightarrow> exn + exact_side_reservation" where
  "exact_side_reservation_of side member_count physical_scan_count =
     (let records = sum_list (map (\<lambda>r. fp_count (rf_fingerprint r)) side);
          envelope_bytes = sum_list (map (\<lambda>r. rf_row_envelope_bytes r + rf_key_envelope_bytes r) side) in
      ebind (sum_each (\<lambda>r. ebind (ascii_length (rf_segment_id r)) (\<lambda>n. Inr (fp_count (rf_fingerprint r) * n))) side)
        (\<lambda>segment_identifier_bytes.
      ebind (exact_frontier_bytes side) (\<lambda>result_bytes.
      let raw_records = max 1 records in
      ebind (provenance_bytes member_count) (\<lambda>provenance.
      Inr \<lparr>xr_records = records, xr_result_bytes = result_bytes, xr_raw_records = raw_records,
        xr_raw_result_bytes = result_bytes + raw_records * (provenance + HAS_DATA_BYTES),
        xr_envelope_bytes = envelope_bytes, xr_segment_identifier_bytes = segment_identifier_bytes,
        xr_member_count = member_count,
        xr_full_scans = max 1 (int (length side)) * physical_scan_count,
        xr_raw_ascii_value_count = 3 * records,
        xr_raw_integer_value_count = member_count * raw_records\<rparr>))))"

fun mssql_2022_exact_side_reservation ::
  "exact_side_reservation \<Rightarrow> relation_detail \<Rightarrow> exn + exact_side_reservation" where
  "mssql_2022_exact_side_reservation reservation (MssqlInspection database_id schema_id object_id _ bindings) =
     (let provenance = sum_list (map (\<lambda>v. int (length (int_str v)))
        ([database_id, schema_id, object_id] @ map fb_column_id bindings)) in
      Inr (reservation\<lparr>xr_raw_result_bytes :=
        xr_result_bytes reservation + xr_raw_records reservation * (provenance + HAS_DATA_BYTES)\<rparr>))"
| "mssql_2022_exact_side_reservation reservation _ = Inl ComparisonProtocolError"

definition greenplum_exact_side_reservation :: "exact_side_reservation \<Rightarrow> int \<Rightarrow> exact_side_reservation" where
  "greenplum_exact_side_reservation reservation key_envelope_bytes =
     (let maximum_key_value_bytes = xr_records reservation * MAX_INT64_TEXT_BYTES in
      reservation
        \<lparr>xr_raw_result_bytes := xr_raw_result_bytes reservation - key_envelope_bytes + maximum_key_value_bytes,
         xr_raw_ascii_value_count := 2 * xr_records reservation,
         xr_raw_integer_value_count :=
           xr_member_count reservation * xr_raw_records reservation + xr_records reservation\<rparr>)"

definition original_greenplum_exact_side_reservation ::
  "exact_side_reservation \<Rightarrow> int \<Rightarrow> int \<Rightarrow> exact_side_reservation" where
  "original_greenplum_exact_side_reservation reservation key_envelope_bytes empty_witness_null_bytes =
     (let adjusted = greenplum_exact_side_reservation reservation key_envelope_bytes in
      if xr_records adjusted \<noteq> 0 then adjusted
      else adjusted\<lparr>xr_raw_result_bytes := xr_raw_result_bytes adjusted + empty_witness_null_bytes\<rparr>)"

definition exact_parsed_side_memory_bytes ::
  "sizes \<Rightarrow> exact_side_reservation \<Rightarrow> execution_budgets \<Rightarrow> int \<Rightarrow> exn + int" where
  "exact_parsed_side_memory_bytes z reservation budgets schema_field_count =
     ebind (tuple_storage_bytes z schema_field_count) (\<lambda>field_tuple.
     let record_bytes = slot_object_bytes z SlotExactRow + maximum_integer_object_bytes z budgets +
       2 * sz_empty_bytes z + sz_empty_text z + field_tuple +
       schema_field_count * DECODE_FIELD_RESERVATION_BYTES z in
     ebind (list_storage_bytes z (xr_records reservation)) (\<lambda>row_list.
     ebind (tuple_storage_bytes z (xr_records reservation)) (\<lambda>row_tuple.
     Inr (slot_object_bytes z SlotExactRowsRead + read_metrics_memory_bytes z budgets + row_list + row_tuple +
       xr_records reservation * record_bytes + xr_envelope_bytes reservation +
       xr_segment_identifier_bytes reservation))))"

definition exact_raw_side_memory_bytes :: "sizes \<Rightarrow> exact_side_reservation \<Rightarrow> execution_budgets \<Rightarrow> exn + int" where
  "exact_raw_side_memory_bytes z reservation budgets =
     raw_rows_memory_bytes z (xr_raw_records reservation) (xr_member_count reservation + 6)
       (xr_raw_ascii_value_count reservation) (xr_raw_integer_value_count reservation)
       (xr_raw_result_bytes reservation) budgets"

definition exact_decode_scratch_bytes :: "sizes \<Rightarrow> exact_side_reservation \<Rightarrow> int \<Rightarrow> int \<Rightarrow> int" where
  "exact_decode_scratch_bytes z reservation max_encoded_row_bytes schema_field_count =
     (if xr_records reservation = 0 then 0
      else
        (let maximum_single_envelope_bytes =
           min (xr_envelope_bytes reservation) (max_encoded_row_bytes + MAX_INT64_KEY_ENVELOPE_BYTES) in
         DECODE_ENVELOPE_EXPANSION * maximum_single_envelope_bytes +
         schema_field_count * DECODE_FIELD_RESERVATION_BYTES z))"

definition exact_grouping_memory_bytes :: "sizes \<Rightarrow> exact_side_reservation \<Rightarrow> int \<Rightarrow> exn + int" where
  "exact_grouping_memory_bytes z reservation segment_count =
     ebind (dict_storage_bytes z segment_count) (\<lambda>dict_bytes.
     Inr (2 * dict_bytes + segment_count * (sz_empty_list z + sz_empty_tuple z) +
       3 * xr_records reservation * POINTER_BYTES z))"

definition reference_side_reservation ::
  "fingerprint_node list \<Rightarrow> context_kind \<Rightarrow> relation_detail \<Rightarrow> int \<Rightarrow> int \<Rightarrow> exn + exact_side_reservation" where
  "reference_side_reservation nodes kind relation member_count physical_scan_count =
     ebind (exact_side_reservation_of (map fn_reference nodes) member_count physical_scan_count) (\<lambda>reservation.
     case kind of
       ClickHouseContext _ \<Rightarrow> Inr (reservation\<lparr>xr_full_scans := physical_scan_count\<rparr>)
     | MssqlContext profile \<Rightarrow>
         (if profile = MSSQL_2022 then mssql_2022_exact_side_reservation reservation relation else Inr reservation)
     | OriginalGreenplumContext _ \<Rightarrow>
         Inr (original_greenplum_exact_side_reservation reservation
           (sum_list (map (\<lambda>n. rf_key_envelope_bytes (fn_reference n)) nodes)) 5)
     | _ \<Rightarrow> Inr reservation)"

definition target_side_reservation ::
  "fingerprint_node list \<Rightarrow> context_kind \<Rightarrow> int \<Rightarrow> int \<Rightarrow> exn + exact_side_reservation" where
  "target_side_reservation nodes kind member_count physical_scan_count =
     ebind (exact_side_reservation_of (map fn_target nodes) member_count physical_scan_count) (\<lambda>reservation.
     case kind of
       ClickHouseContext _ \<Rightarrow> Inr (reservation\<lparr>xr_full_scans := physical_scan_count\<rparr>)
     | GreengageContext _ \<Rightarrow>
         Inr (greenplum_exact_side_reservation reservation
           (sum_list (map (\<lambda>n. rf_key_envelope_bytes (fn_target n)) nodes)))
     | _ \<Rightarrow> Inr reservation)"

definition exact_frontier_reservation_of ::
  "sizes \<Rightarrow> fingerprint_node list \<Rightarrow> read_context \<Rightarrow> comparison_relation \<Rightarrow> read_context \<Rightarrow> usage \<Rightarrow>
   execution_budgets \<Rightarrow> int \<Rightarrow> int \<Rightarrow> int \<Rightarrow> int \<Rightarrow> int \<Rightarrow> int \<Rightarrow> exn + exact_frontier_reservation" where
  "exact_frontier_reservation_of z nodes reference_context reference_relation target_context u budgets
       max_encoded_row_bytes schema_field_count reference_member_count target_member_count
       reference_physical_scan_count target_physical_scan_count =
     ebind (reference_side_reservation nodes (cx_kind reference_context) (crl_detail reference_relation)
       reference_member_count reference_physical_scan_count) (\<lambda>reference.
     ebind (target_side_reservation nodes (cx_kind target_context) target_member_count
       target_physical_scan_count) (\<lambda>target.
     ebind (exact_parsed_side_memory_bytes z reference budgets schema_field_count) (\<lambda>reference_parsed.
     ebind (exact_parsed_side_memory_bytes z target budgets schema_field_count) (\<lambda>target_parsed.
     ebind (retained_memory_bytes z (ug_fingerprint_nodes u) (map fn_segment nodes) budgets) (\<lambda>retained.
     ebind (exact_raw_side_memory_bytes z reference budgets) (\<lambda>reference_raw.
     ebind (exact_raw_side_memory_bytes z target budgets) (\<lambda>target_raw.
     let reference_query_peak = retained + reference_raw + reference_parsed +
           exact_decode_scratch_bytes z reference max_encoded_row_bytes schema_field_count;
         target_query_peak = retained + reference_parsed + target_raw + target_parsed +
           exact_decode_scratch_bytes z target max_encoded_row_bytes schema_field_count in
     ebind (exact_grouping_memory_bytes z reference (int (length nodes))) (\<lambda>reference_grouping.
     ebind (exact_grouping_memory_bytes z target (int (length nodes))) (\<lambda>target_grouping.
     let grouping_peak = retained + reference_parsed + target_parsed + reference_grouping + target_grouping in
     Inr \<lparr>fr_reference = reference, fr_target = target,
       fr_setup_result_bytes = session_setup_record_bytes (cx_kind reference_context) +
         session_setup_record_bytes (cx_kind target_context),
       fr_coordinator_peak_bytes = max reference_query_peak (max target_query_peak grouping_peak)\<rparr>)))))))))"

definition exact_frontier_fits ::
  "'w services \<Rightarrow> exact_frontier_reservation \<Rightarrow> execution_budgets \<Rightarrow> ('w, cause, bool) eff" where
  "exact_frontier_fits sv reservation budgets =
     (let reserved_result_bytes = xr_raw_result_bytes (fr_reference reservation) +
        xr_raw_result_bytes (fr_target reservation) in
      wbind (source_remaining sv) (\<lambda>left.
      wreturn (cap_queries left \<ge> 4 \<and>
        cap_fetched_records left \<ge>
          xr_raw_records (fr_reference reservation) + xr_raw_records (fr_target reservation) + 2 \<and>
        cap_result_bytes left \<ge> reserved_result_bytes + fr_setup_result_bytes reservation \<and>
        fr_coordinator_peak_bytes reservation \<le> eb_max_coordinator_memory_bytes budgets \<and>
        cap_reference_full_scans left \<ge> xr_full_scans (fr_reference reservation) \<and>
        cap_target_full_scans left \<ge> xr_full_scans (fr_target reservation))))"

definition comparison_max_encoded_row_bytes :: "execution_budgets \<Rightarrow> int \<Rightarrow> exn + int" where
  "comparison_max_encoded_row_bytes budgets member_count =
     (let maximum_segment_id_bytes =
            int (length (asc (''s'' @ int_str (max 0 (eb_max_fingerprint_nodes budgets - 1)))));
          available_exact_bytes = min (eb_max_application_result_bytes budgets) INT64_MAX in
      ebind (provenance_bytes member_count) (\<lambda>provenance.
      let max_encoded_row_bytes = available_exact_bytes - MAX_INT64_KEY_ENVELOPE_BYTES -
        maximum_segment_id_bytes - EXACT_STATUS_BYTES - provenance - HAS_DATA_BYTES in
      ebind (require (\<not> max_encoded_row_bytes < 1) ComparisonBudgetExceededError) (\<lambda>_.
      Inr max_encoded_row_bytes)))"

end
