(* ===== verification/Comparison_Artifacts.thy ===== *)
theory Comparison_Artifacts
  imports Comparison_Memory Comparison_Frontier
begin

text \<open>
  The artifacts a comparison ends in (\<open>src/forensic_data/comparison.py\<close>): completed, structural and
  partial, each a record with its \<open>__post_init__\<close> validator, the functions that build them from the
  progress of the engine, and the classification of the exception that interrupted it.
\<close>

section \<open>Artifacts\<close>

record completed_artifact =
  ca_check_id :: pystr
  ca_contract_digest :: pystr
  ca_scope_digest :: pystr
  ca_input_cut_digest :: pystr
  ca_verdict :: verdict
  ca_consistency :: consistency_status
  ca_guarantee :: guarantee
  ca_comparison_coverage :: comparison_coverage
  ca_totals :: comparison_totals
  ca_evidence_coverage :: evidence_coverage
  ca_metrics :: result_metrics
  ca_reasons :: "result_reason list"
  ca_segments :: "segment_record list"
  ca_anomalies :: "difference_record list"
  ca_reference_key_summary :: key_summary
  ca_target_key_summary :: key_summary
  ca_reference_full_scans :: int
  ca_target_full_scans :: int

record structural_artifact =
  st_check_id :: pystr
  st_contract_digest :: pystr
  st_scope_digest :: pystr
  st_input_cut_digest :: pystr
  st_verdict :: verdict
  st_consistency :: consistency_status
  st_guarantee :: guarantee
  st_comparison_coverage :: comparison_coverage
  st_totals :: comparison_totals
  st_evidence_coverage :: evidence_coverage
  st_metrics :: result_metrics
  st_reasons :: "result_reason list"
  st_reference_key_summary :: key_summary
  st_target_key_summary :: key_summary
  st_reference_full_scans :: int
  st_target_full_scans :: int

record partial_artifact =
  pa_check_id :: pystr
  pa_contract_digest :: pystr
  pa_scope_digest :: pystr
  pa_input_cut_digest :: pystr
  pa_verdict :: verdict
  pa_consistency :: consistency_status
  pa_guarantee :: guarantee
  pa_comparison_coverage :: comparison_coverage
  pa_totals :: comparison_totals
  pa_evidence_coverage :: evidence_coverage
  pa_metrics :: result_metrics
  pa_frontier :: partial_frontier
  pa_anomalies :: "difference_record list"
  pa_reference_full_scans :: int
  pa_target_full_scans :: int

definition require_sha256 :: "pystr \<Rightarrow> exn + unit" where
  "require_sha256 s = require (is_sha256_hex s) ValueError"

definition validate_artifact_identity :: "pystr \<Rightarrow> pystr \<Rightarrow> pystr \<Rightarrow> pystr \<Rightarrow> exn + unit" where
  "validate_artifact_identity check_id contract_digest scope_digest input_cut_digest =
     ebind (require (\<not> is_blank check_id) ValueError) (\<lambda>_.
     ebind (require_sha256 contract_digest) (\<lambda>_.
     ebind (require_sha256 scope_digest) (\<lambda>_.
     require_sha256 input_cut_digest)))"

definition validate_evidence_coverage :: "evidence_coverage \<Rightarrow> difference_record list \<Rightarrow> exn + unit" where
  "validate_evidence_coverage coverage anomalies =
     ebind (require (map dr_sequence anomalies = map int [0..<length anomalies]) ValueError) (\<lambda>_.
     ebind (sum_each (\<lambda>a. ebind (canonical_difference_record_bytes a) (\<lambda>b. Inr (int (length b)))) anomalies)
       (\<lambda>retained_bytes.
     ebind (require (ev_retained_records coverage = int (length anomalies)) ValueError) (\<lambda>_.
     require (ev_retained_bytes coverage = retained_bytes) ValueError)))"

definition by_sequence :: "segment_record list \<Rightarrow> int \<Rightarrow> segment_record option" where
  "by_sequence segments = map_of (rev (map (\<lambda>s. (sr_segment_sequence s, s)) segments))"

definition in_exact_mismatch :: "segment_record list \<Rightarrow> difference_record \<Rightarrow> bool" where
  "in_exact_mismatch segments anomaly \<longleftrightarrow>
     (case by_sequence segments (dr_segment_sequence anomaly) of
        None \<Rightarrow> False
      | Some segment \<Rightarrow> sr_state segment = EXACT_MISMATCH)"

definition mk_CompletedComparisonArtifact :: "completed_artifact \<Rightarrow> exn + completed_artifact" where
  "mk_CompletedComparisonArtifact a =
     ebind (validate_artifact_identity (ca_check_id a) (ca_contract_digest a) (ca_scope_digest a)
       (ca_input_cut_digest a)) (\<lambda>_.
     ebind (require (ca_guarantee a \<in> {EXACT, FINGERPRINT}) ValueError) (\<lambda>_.
     ebind (require (ca_segments a \<noteq> []) ValueError) (\<lambda>_.
     ebind (require (map sr_segment_sequence (ca_segments a) = map int [0..<length (ca_segments a)]) ValueError) (\<lambda>_.
     ebind (validate_evidence_coverage (ca_evidence_coverage a) (ca_anomalies a)) (\<lambda>_.
     ebind (require (list_all (in_exact_mismatch (ca_segments a)) (ca_anomalies a)) ValueError) (\<lambda>_.
     ebind (require_nonnegative_integer (ca_reference_full_scans a)) (\<lambda>_.
     ebind (require_nonnegative_integer (ca_target_full_scans a)) (\<lambda>_.
     ebind (require (rm_fingerprint_nodes (ca_metrics a) = int (length (ca_segments a))) ValueError) (\<lambda>_.
     Inr a)))))))))"

section \<open>Key contract violations\<close>

definition key_summary_safe_parameters :: "key_summary \<Rightarrow> key_summary \<Rightarrow> safe_parameter list" where
  "key_summary_safe_parameters reference target =
     map (\<lambda>(name, v). \<lparr>sp_name = asc name, sp_value = asc (int_str v)\<rparr>)
       [(''reference_row_count'', ks_row_count reference),
        (''reference_null_key_count'', ks_null_key_count reference),
        (''reference_invalid_key_count'', ks_invalid_key_count reference),
        (''reference_valid_key_count'', ks_valid_key_count reference),
        (''reference_distinct_key_count'', ks_distinct_key_count reference),
        (''target_row_count'', ks_row_count target),
        (''target_null_key_count'', ks_null_key_count target),
        (''target_invalid_key_count'', ks_invalid_key_count target),
        (''target_valid_key_count'', ks_valid_key_count target),
        (''target_distinct_key_count'', ks_distinct_key_count target)]"

definition structural_contract_violation_reason :: "key_summary \<Rightarrow> key_summary \<Rightarrow> exn + result_reason option" where
  "structural_contract_violation_reason reference target =
     (if ks_null_key_count reference = 0 \<and> ks_valid_key_count reference = ks_distinct_key_count reference \<and>
         ks_null_key_count target = 0 \<and> ks_valid_key_count target = ks_distinct_key_count target
      then Inr None
      else
        ebind (mk_ResultReason
          \<lparr>rr_code = CONTRACT_VIOLATION, rr_operation = asc ''validate_integer_key_contract'',
           rr_message = asc ''scoped integer-key validation found null or duplicate keys'',
           rr_safe_parameters = key_summary_safe_parameters reference target,
           rr_native_error_code = None, rr_query_id = None, rr_redacted_response = None\<rparr>) (\<lambda>r.
        Inr (Some r)))"

definition unavailable_contract_totals :: comparison_totals where
  "unavailable_contract_totals =
     \<lparr>ct_matched = UnavailableTotal CONTRACT_VIOLATION, ct_missing = UnavailableTotal CONTRACT_VIOLATION,
      ct_extra = UnavailableTotal CONTRACT_VIOLATION, ct_modified = UnavailableTotal CONTRACT_VIOLATION\<rparr>"

definition structural_coverage :: comparison_coverage where
  "structural_coverage =
     \<lparr>cc_total_partitions = 1, cc_covered_partitions = 1, cc_resolved_segments = 1, cc_pruned_segments = 0,
      cc_exact_segments = 1, cc_unresolved_segments = 0, cc_unresolved_reasons = []\<rparr>"

definition empty_evidence_coverage :: evidence_coverage where
  "empty_evidence_coverage =
     \<lparr>ev_found_records = 0, ev_retained_records = 0, ev_found_bytes = 0, ev_retained_bytes = 0\<rparr>"

definition validate_structural_artifact :: "structural_artifact \<Rightarrow> exn + unit" where
  "validate_structural_artifact a =
     ebind (require (cn_stable_reads (st_consistency a) \<in> {ASSERTED, VERIFIED}) ValueError) (\<lambda>_.
     ebind (require (cn_cut_alignment (st_consistency a) = VERIFIED) ValueError) (\<lambda>_.
     ebind (require (length (cn_read_context_ids (st_consistency a)) = 2) ValueError) (\<lambda>_.
     ebind (mk_ComparisonCoverage structural_coverage) (\<lambda>expected_coverage.
     ebind (require (st_comparison_coverage a = expected_coverage) ValueError) (\<lambda>_.
     ebind (require (st_totals a = unavailable_contract_totals) ValueError) (\<lambda>_.
     ebind (require (st_evidence_coverage a = empty_evidence_coverage) ValueError) (\<lambda>_.
     ebind (require (\<not> (rm_queries (st_metrics a) < 2 \<or> rm_fetched_records (st_metrics a) < 2 \<or>
       rm_fingerprint_nodes (st_metrics a) \<noteq> 0)) ValueError) (\<lambda>_.
     ebind (require (ks_invalid_key_count (st_reference_key_summary a) = 0) ValueError) (\<lambda>_.
     ebind (require (ks_invalid_key_count (st_target_key_summary a) = 0) ValueError) (\<lambda>_.
     ebind (structural_contract_violation_reason (st_reference_key_summary a) (st_target_key_summary a))
       (\<lambda>expected_reason.
     case expected_reason of
       None \<Rightarrow> Inl ValueError
     | Some reason \<Rightarrow> require (st_reasons a = [reason]) ValueError)))))))))))"

definition mk_CompletedStructuralComparisonArtifact :: "structural_artifact \<Rightarrow> exn + structural_artifact" where
  "mk_CompletedStructuralComparisonArtifact a =
     ebind (validate_artifact_identity (st_check_id a) (st_contract_digest a) (st_scope_digest a)
       (st_input_cut_digest a)) (\<lambda>_.
     ebind (require (st_verdict a = MISMATCH) ValueError) (\<lambda>_.
     ebind (require (st_guarantee a = STRUCTURAL) ValueError) (\<lambda>_.
     ebind (require (length (st_reasons a) = 1) ValueError) (\<lambda>_.
     ebind (require_nonnegative_integer (st_reference_full_scans a)) (\<lambda>_.
     ebind (require_nonnegative_integer (st_target_full_scans a)) (\<lambda>_.
     ebind (validate_structural_artifact a) (\<lambda>_.
     Inr a)))))))"

section \<open>Partial artifacts\<close>

definition count_state :: "segment_state set \<Rightarrow> segment_record list \<Rightarrow> int" where
  "count_state states topology = int (length (filter (\<lambda>s. sr_state s \<in> states) topology))"

definition has_fingerprint_mismatch :: "segment_record list \<Rightarrow> unresolved_segment list \<Rightarrow> bool" where
  "has_fingerprint_mismatch topology unresolved \<longleftrightarrow>
     list_ex (\<lambda>s. sr_reference_fingerprint s \<noteq> sr_target_fingerprint s) topology \<or>
     list_ex (\<lambda>s. us_reference_fingerprint s \<noteq> None) unresolved"

text \<open>\<open>dict.fromkeys\<close>: the first occurrence of each element.\<close>

fun first_occurrences :: "'a list \<Rightarrow> 'a list" where
  "first_occurrences [] = []"
| "first_occurrences (x # xs) = x # filter (\<lambda>y. y \<noteq> x) (first_occurrences xs)"

definition validate_partial_frontier_coverage :: "partial_artifact \<Rightarrow> exn + unit" where
  "validate_partial_frontier_coverage a =
     (let coverage = pa_comparison_coverage a;
          topology = pf_topology (pa_frontier a);
          unresolved = pf_unresolved (pa_frontier a);
          pruned = count_state {FINGERPRINT_MATCH} topology;
          exact = count_state {EXACT_MATCH, EXACT_MISMATCH} topology;
          structural_empty_frontier =
            (topology = [] \<and> unresolved = [] \<and> cc_resolved_segments coverage = 1 \<and>
             cc_pruned_segments coverage = 0 \<and> cc_exact_segments coverage = 1 \<and>
             list_all is_unavailable (totals_values (pa_totals a))) in
      ebind (require (\<not> (\<not> structural_empty_frontier \<and>
          (cc_pruned_segments coverage \<noteq> pruned \<or> cc_exact_segments coverage \<noteq> exact \<or>
           cc_resolved_segments coverage \<noteq> pruned + exact))) ValueError) (\<lambda>_.
      ebind (require (cc_unresolved_segments coverage = int (length unresolved)) ValueError) (\<lambda>_.
      ebind (require (cc_unresolved_reasons coverage = first_occurrences (map us_reason unresolved)) ValueError) (\<lambda>_.
      let expected_covered = (if unresolved = [] \<and> cc_resolved_segments coverage > 0 then 1 else 0) in
      ebind (require (\<not> (cc_total_partitions coverage \<noteq> 1 \<or>
          cc_covered_partitions coverage \<noteq> expected_covered)) ValueError) (\<lambda>_.
      ebind (require (\<not> (has_fingerprint_mismatch topology unresolved \<and> pa_verdict a \<noteq> MISMATCH)) ValueError) (\<lambda>_.
      check_all (\<lambda>anomaly. require (in_exact_mismatch topology anomaly) ValueError) (pa_anomalies a)))))))"

definition validate_partial_totals :: "partial_artifact \<Rightarrow> exn + unit" where
  "validate_partial_totals a =
     ebind (require (\<not> list_ex (\<lambda>t. is_exact t \<or> is_inferred t) (totals_values (pa_totals a))) ValueError) (\<lambda>_.
     ebind (require (\<not> (list_ex is_lower_bound (totals_values (pa_totals a)) \<and>
         cc_exact_segments (pa_comparison_coverage a) = 0)) ValueError) (\<lambda>_.
     require (\<not> (list_ex (\<lambda>t. is_lower_bound t \<and> total_nonzero t) (totals_differences (pa_totals a)) \<and>
         pa_verdict a \<noteq> MISMATCH)) ValueError))"

definition mk_PartialComparisonArtifact :: "partial_artifact \<Rightarrow> exn + partial_artifact" where
  "mk_PartialComparisonArtifact a =
     ebind (validate_artifact_identity (pa_check_id a) (pa_contract_digest a) (pa_scope_digest a)
       (pa_input_cut_digest a)) (\<lambda>_.
     ebind (require (pa_verdict a \<noteq> MATCH) ValueError) (\<lambda>_.
     ebind (require (length (cn_read_context_ids (pa_consistency a)) = 2) ValueError) (\<lambda>_.
     ebind (require (cn_cut_alignment (pa_consistency a) \<in> {UNKNOWN, VERIFIED}) ValueError) (\<lambda>_.
     ebind (require (\<not> (cn_stable_reads (pa_consistency a) \<in> {ASSERTED, VERIFIED} \<and>
         cn_cut_alignment (pa_consistency a) \<noteq> VERIFIED)) ValueError) (\<lambda>_.
     ebind (require (pa_guarantee a = NOT_ESTABLISHED) ValueError) (\<lambda>_.
     ebind (validate_evidence_coverage (pa_evidence_coverage a) (pa_anomalies a)) (\<lambda>_.
     ebind (validate_partial_frontier_coverage a) (\<lambda>_.
     ebind (validate_partial_totals a) (\<lambda>_.
     ebind (require_nonnegative_integer (pa_reference_full_scans a)) (\<lambda>_.
     ebind (require_nonnegative_integer (pa_target_full_scans a)) (\<lambda>_.
     Inr a)))))))))))"

definition partial_totals :: "exact_counts \<Rightarrow> int \<Rightarrow> reason_code \<Rightarrow> exn + comparison_totals" where
  "partial_totals counts exact_segments reason =
     mk_ComparisonTotals
       (if exact_segments > 0 then
          \<lparr>ct_matched = LowerBoundTotal (asc (int_str (xc_matched counts))),
           ct_missing = LowerBoundTotal (asc (int_str (xc_missing counts))),
           ct_extra = LowerBoundTotal (asc (int_str (xc_extra counts))),
           ct_modified = LowerBoundTotal (asc (int_str (xc_modified counts)))\<rparr>
        else
          \<lparr>ct_matched = UnavailableTotal reason, ct_missing = UnavailableTotal reason,
           ct_extra = UnavailableTotal reason, ct_modified = UnavailableTotal reason\<rparr>)"

section \<open>Interruptions\<close>

text \<open>\<open>_interruption_reason_code\<close>: the tests on the classes of the exception in their order, a
  subclass answering the tests of its base classes. The final \<open>raise AssertionError\<close> is the only
  exception.\<close>

fun connector_reason_code :: "connector_error \<Rightarrow> exn + reason_code" where
  "connector_reason_code ClickHouseCancellationUnconfirmedError = Inr CANCELLATION_UNCONFIRMED"
| "connector_reason_code ClickHouseTransportCleanupError = Inr CANCELLATION_UNCONFIRMED"
| "connector_reason_code ClickHouseProtectedContextCleanupError = Inr CANCELLATION_UNCONFIRMED"
| "connector_reason_code (ClickHouseQueryError completion) =
     (if completion = QUERY_CANCELLED then Inr CANCELLED
      else if completion = UNCONFIRMED then Inr CANCELLATION_UNCONFIRMED
      else Inr QUERY_ERROR)"
| "connector_reason_code (ClickHouseAttemptDeadlineExceededError completion) =
     (if completion = UNCONFIRMED then Inr CANCELLATION_UNCONFIRMED
      else if completion = QUERY_CANCELLED then Inr CANCELLED
      else Inr BUDGET_EXHAUSTED)"
| "connector_reason_code GreengageBudgetExceededError = Inr BUDGET_EXHAUSTED"
| "connector_reason_code OriginalGreenplumBudgetExceededError = Inr BUDGET_EXHAUSTED"
| "connector_reason_code MssqlQueryTimeoutError = Inr BUDGET_EXHAUSTED"
| "connector_reason_code MssqlResultLimitError = Inr BUDGET_EXHAUSTED"
| "connector_reason_code ClickHouseResultLimitError = Inr BUDGET_EXHAUSTED"
| "connector_reason_code MssqlCancellationConfirmedError = Inr CANCELLED"
| "connector_reason_code MssqlCancellationUnconfirmedError = Inr CANCELLATION_UNCONFIRMED"
| "connector_reason_code PostgresContextLostError = Inr SNAPSHOT_LOST"
| "connector_reason_code PostgresAcquisitionRaceError = Inr SNAPSHOT_LOST"
| "connector_reason_code MssqlContextLostError = Inr SNAPSHOT_LOST"
| "connector_reason_code MssqlMetadataError = Inr SNAPSHOT_LOST"
| "connector_reason_code GreenplumContextLostError = Inr SNAPSHOT_LOST"
| "connector_reason_code GreengageAcquisitionRaceError = Inr SNAPSHOT_LOST"
| "connector_reason_code OriginalGreenplumAcquisitionRaceError = Inr SNAPSHOT_LOST"
| "connector_reason_code ClickHouseProtectedContextLostError = Inr SNAPSHOT_LOST"
| "connector_reason_code ClickHouseProtectedContextConfirmationError = Inr SNAPSHOT_LOST"
| "connector_reason_code UnsupportedPostgresProfileError = Inr UNSUPPORTED_CAPABILITY"
| "connector_reason_code UnsupportedMssqlProfileError = Inr UNSUPPORTED_CAPABILITY"
| "connector_reason_code UnsupportedGreenplumProfileError = Inr UNSUPPORTED_CAPABILITY"
| "connector_reason_code GreenplumMetadataError = Inr UNSUPPORTED_CAPABILITY"
| "connector_reason_code UnsupportedClickHouseProfileError = Inr UNSUPPORTED_CAPABILITY"
| "connector_reason_code PostgresContextClosedError = Inr PROTOCOL_VIOLATION"
| "connector_reason_code PostgresQueryContextError = Inr PROTOCOL_VIOLATION"
| "connector_reason_code MssqlContextClosedError = Inr PROTOCOL_VIOLATION"
| "connector_reason_code MssqlDataValidationError = Inr PROTOCOL_VIOLATION"
| "connector_reason_code MssqlLossyTransportError = Inr PROTOCOL_VIOLATION"
| "connector_reason_code MssqlQueryContextError = Inr PROTOCOL_VIOLATION"
| "connector_reason_code GreenplumContextClosedError = Inr PROTOCOL_VIOLATION"
| "connector_reason_code GreenplumDataValidationError = Inr PROTOCOL_VIOLATION"
| "connector_reason_code ClickHouseTransportClosedError = Inr PROTOCOL_VIOLATION"
| "connector_reason_code ClickHouseTransportAttemptMismatchError = Inr PROTOCOL_VIOLATION"
| "connector_reason_code ClickHouseDataValidationError = Inr PROTOCOL_VIOLATION"
| "connector_reason_code ClickHouseProtectedContextClosedError = Inr PROTOCOL_VIOLATION"
| "connector_reason_code PostgresConnectionError = Inr QUERY_ERROR"
| "connector_reason_code PostgresQueryError = Inr QUERY_ERROR"
| "connector_reason_code PostgresCloseError = Inr QUERY_ERROR"
| "connector_reason_code MssqlConnectionError = Inr QUERY_ERROR"
| "connector_reason_code MssqlQueryError = Inr QUERY_ERROR"
| "connector_reason_code MssqlTransportClosedError = Inr QUERY_ERROR"
| "connector_reason_code GreenplumConnectionError = Inr QUERY_ERROR"
| "connector_reason_code GreenplumQueryError = Inr QUERY_ERROR"
| "connector_reason_code ClickHouseConnectionError = Inr QUERY_ERROR"
| "connector_reason_code ClickHouseSourceAccountingError = Inr QUERY_ERROR"
| "connector_reason_code GreenplumCloseError = Inl AssertionError"

fun interruption_reason_code :: "cause \<Rightarrow> exn + reason_code" where
  "interruption_reason_code (ConnectorError e) = connector_reason_code e"
| "interruption_reason_code (ComparisonKeyMappingError _) = Inr LOSSY_TRANSPORT"
| "interruption_reason_code (Raised e) =
     (if e \<in> {ComparisonBudgetExceededError, PostgresReadDeadlineExceededError, PostgresResultLimitError,
               PostgresSourceBudgetExceededError} then Inr BUDGET_EXHAUSTED
      else if e = UnsupportedComparisonError then Inr UNSUPPORTED_CAPABILITY
      else if e \<in> {ComparisonProtocolError, PostgresDataValidationError} then Inr PROTOCOL_VIOLATION
      else if e = PostgresMetadataError then Inr QUERY_ERROR
      else Inl AssertionError)"

text \<open>The exceptions that \<open>execute_integer_key_comparison\<close> catches.\<close>

fun is_interruption :: "cause \<Rightarrow> bool" where
  "is_interruption (Raised e) \<longleftrightarrow>
     e \<in> {ComparisonBudgetExceededError, UnsupportedComparisonError, ComparisonProtocolError,
          PostgresReadDeadlineExceededError, PostgresResultLimitError, PostgresSourceBudgetExceededError,
          PostgresDataValidationError, PostgresMetadataError}"
| "is_interruption _ \<longleftrightarrow> True"

definition without_pending_sequence :: "pending_segment list \<Rightarrow> int \<Rightarrow> pending_segment list" where
  "without_pending_sequence pending n = filter (\<lambda>s. pe_segment_sequence s \<noteq> n) pending"

text \<open>The dictionary of witnesses by sequence, later entries replacing earlier ones, in the order of its
  keys.\<close>

definition progress_with_mismatch_witnesses :: "progress \<Rightarrow> fingerprint_node list \<Rightarrow> progress" where
  "progress_with_mismatch_witnesses p nodes =
     (let entries = map (\<lambda>n. (pe_segment_sequence (fn_segment n), n)) (pg_mismatch_witnesses p @ nodes);
          keys = sorted_list_of_set (fst ` set entries) in
      p\<lparr>pg_mismatch_witnesses := map (\<lambda>k. the (map_of (rev entries) k)) keys\<rparr>)"

definition without_mismatch_witness :: "fingerprint_node list \<Rightarrow> int \<Rightarrow> fingerprint_node list" where
  "without_mismatch_witness witnesses n = filter (\<lambda>x. pe_segment_sequence (fn_segment x) \<noteq> n) witnesses"

definition unresolved_of :: "fingerprint_node list \<Rightarrow> reason_code \<Rightarrow> pending_segment \<Rightarrow> exn + unresolved_segment" where
  "unresolved_of witnesses reason s =
     (let witness = map_of (rev (map (\<lambda>n. (pe_segment_sequence (fn_segment n), n)) witnesses)) (pe_segment_sequence s) in
      mk_UnresolvedComparisonSegment
        \<lparr>us_segment_sequence = pe_segment_sequence s,
         us_parent_segment_sequence = pe_parent_segment_sequence s,
         us_depth = pe_depth s, us_lower_inclusive = pe_lower_inclusive s,
         us_upper_exclusive = pe_upper_exclusive s, us_reason = reason,
         us_reference_fingerprint = map_option (\<lambda>n. rf_fingerprint (fn_reference n)) witness,
         us_target_fingerprint = map_option (\<lambda>n. rf_fingerprint (fn_target n)) witness\<rparr>)"

record comparison_inputs =
  ci_check :: row_check
  ci_scope :: resolved_scope
  ci_input_cut :: input_cut
  ci_reference_context :: read_context
  ci_reference_relation :: comparison_relation
  ci_target_context :: read_context
  ci_target_relation :: comparison_relation
  ci_budgets :: execution_budgets
  ci_evidence_policy :: evidence_definition
  ci_source_budget :: attempt

definition consistency_of :: "comparison_inputs \<Rightarrow> consistency_level \<Rightarrow> exn + consistency_status" where
  "consistency_of ci stable_reads = mk_ConsistencyStatus
     \<lparr>cn_stable_reads = stable_reads, cn_cut_alignment = VERIFIED,
      cn_read_context_ids =
        [cx_context_id (ci_reference_context ci), cx_context_id (ci_target_context ci)]\<rparr>"

definition ordered_topology :: "progress \<Rightarrow> segment_record list" where
  "ordered_topology p = sort_key sr_segment_sequence (pg_topology p)"

definition unresolved_pending :: "progress \<Rightarrow> pending_segment list" where
  "unresolved_pending p = sort_key pe_segment_sequence
     (filter (\<lambda>s. pe_segment_sequence s \<notin> sr_segment_sequence ` set (ordered_topology p)) (pg_pending p))"

definition partial_artifact_of ::
  "'w services \<Rightarrow> comparison_inputs \<Rightarrow> progress \<Rightarrow> reason_code \<Rightarrow> bool \<Rightarrow> unresolved_segment list \<Rightarrow> usage \<Rightarrow> 'w \<Rightarrow>
   exn + partial_artifact" where
  "partial_artifact_of sv ci p reason contract_violation unresolved u w =
     (let topology = ordered_topology p;
          pruned_segments = count_state {FINGERPRINT_MATCH} topology;
          exact_segments = count_state {EXACT_MATCH, EXACT_MISMATCH} topology;
          resolved_segments = pruned_segments + exact_segments;
          counts = pg_exact_counts p;
          has_proven_difference = (xc_missing counts + xc_extra counts + xc_modified counts > 0) in
      ebind (comparison_stable_read_level sv (ci_reference_context ci) (ci_target_context ci)
        (pg_summaries_verified p) w) (\<lambda>stable_reads.
      ebind (consistency_of ci stable_reads) (\<lambda>consistency.
      ebind (mk_ComparisonCoverage
        \<lparr>cc_total_partitions = 1,
         cc_covered_partitions = (if unresolved = [] \<and> resolved_segments > 0 then 1 else 0),
         cc_resolved_segments = resolved_segments, cc_pruned_segments = pruned_segments,
         cc_exact_segments = exact_segments, cc_unresolved_segments = int (length unresolved),
         cc_unresolved_reasons = (if unresolved = [] then [] else [reason])\<rparr>) (\<lambda>coverage.
      ebind (partial_totals counts exact_segments reason) (\<lambda>totals.
      ebind (mk_EvidenceCoverage
        \<lparr>ev_found_records = pg_found_records p, ev_retained_records = int (length (pg_anomalies p)),
         ev_found_bytes = pg_found_bytes p, ev_retained_bytes = pg_retained_bytes p\<rparr>) (\<lambda>evidence.
      ebind (result_metrics_of u) (\<lambda>metrics.
      ebind (mk_PartialComparisonFrontier \<lparr>pf_topology = topology, pf_unresolved = unresolved\<rparr>) (\<lambda>frontier.
      mk_PartialComparisonArtifact
        \<lparr>pa_check_id = rc_check_id (ci_check ci), pa_contract_digest = rc_contract_digest (ci_check ci),
         pa_scope_digest = rs_scope_digest (ci_scope ci),
         pa_input_cut_digest = ic_input_cut_digest (ci_input_cut ci),
         pa_verdict =
           (if has_proven_difference \<or> has_fingerprint_mismatch topology unresolved \<or> contract_violation
            then MISMATCH else INCONCLUSIVE),
         pa_consistency = consistency, pa_guarantee = NOT_ESTABLISHED,
         pa_comparison_coverage = coverage, pa_totals = totals, pa_evidence_coverage = evidence,
         pa_metrics = metrics, pa_frontier = frontier, pa_anomalies = pg_anomalies p,
         pa_reference_full_scans = ug_reference_full_scans u,
         pa_target_full_scans = ug_target_full_scans u\<rparr>))))))))"

definition partial_comparison_artifact ::
  "'w services \<Rightarrow> comparison_inputs \<Rightarrow> progress \<Rightarrow> cause \<Rightarrow> ('w, cause, partial_artifact) eff" where
  "partial_comparison_artifact sv ci p cause =
     wbind (raised (interruption_reason_code cause)) (\<lambda>reason.
     let contract_violation =
       (case cause of
          ComparisonKeyMappingError e \<Rightarrow> km_contract_violation_reason e \<noteq> None
        | _ \<Rightarrow> False) in
     wbind (raised (traverse (unresolved_of (pg_mismatch_witnesses p) reason) (unresolved_pending p))) (\<lambda>unresolved.
     wbind (consume_source_usage sv (pg_usage p) (ci_source_budget ci) 0
       (ug_coordinator_peak_bytes (pg_usage p))) (\<lambda>u.
     (\<lambda>w. raised (partial_artifact_of sv ci p reason contract_violation unresolved u w) w))))"

section \<open>Completed artifacts\<close>

definition completed_structural_artifact ::
  "'w services \<Rightarrow> comparison_inputs \<Rightarrow> key_summary \<Rightarrow> key_summary \<Rightarrow> usage \<Rightarrow> result_reason \<Rightarrow>
   ('w, cause, structural_artifact) eff" where
  "completed_structural_artifact sv ci reference_summary target_summary u reason = (\<lambda>w.
     raised
       (ebind (completed_stable_read_level sv (ci_reference_context ci) (ci_target_context ci) w) (\<lambda>stable_reads.
        ebind (consistency_of ci stable_reads) (\<lambda>consistency.
        ebind (mk_ComparisonCoverage structural_coverage) (\<lambda>coverage.
        ebind (mk_ComparisonTotals unavailable_contract_totals) (\<lambda>totals.
        ebind (mk_EvidenceCoverage empty_evidence_coverage) (\<lambda>evidence.
        ebind (result_metrics_of u) (\<lambda>metrics.
        mk_CompletedStructuralComparisonArtifact
          \<lparr>st_check_id = rc_check_id (ci_check ci), st_contract_digest = rc_contract_digest (ci_check ci),
           st_scope_digest = rs_scope_digest (ci_scope ci),
           st_input_cut_digest = ic_input_cut_digest (ci_input_cut ci),
           st_verdict = MISMATCH, st_consistency = consistency, st_guarantee = STRUCTURAL,
           st_comparison_coverage = coverage, st_totals = totals, st_evidence_coverage = evidence,
           st_metrics = metrics, st_reasons = [reason],
           st_reference_key_summary = reference_summary, st_target_key_summary = target_summary,
           st_reference_full_scans = ug_reference_full_scans u,
           st_target_full_scans = ug_target_full_scans u\<rparr>))))))) w)"

definition comparison_totals_of :: "exact_counts \<Rightarrow> guarantee \<Rightarrow> exn + comparison_totals" where
  "comparison_totals_of counts guarantee =
     (if guarantee = FINGERPRINT then
        mk_ComparisonTotals
          \<lparr>ct_matched = InferredTotal (asc (int_str (xc_matched counts))),
           ct_missing = InferredTotal (asc (int_str (xc_missing counts))),
           ct_extra = InferredTotal (asc (int_str (xc_extra counts))),
           ct_modified = InferredTotal (asc (int_str (xc_modified counts)))\<rparr>
      else if guarantee = EXACT then
        mk_ComparisonTotals
          \<lparr>ct_matched = ExactTotal (asc (int_str (xc_matched counts))),
           ct_missing = ExactTotal (asc (int_str (xc_missing counts))),
           ct_extra = ExactTotal (asc (int_str (xc_extra counts))),
           ct_modified = ExactTotal (asc (int_str (xc_modified counts)))\<rparr>
      else Inl AssertionError)"

definition comparison_reasons :: "exact_counts \<Rightarrow> exn + result_reason list" where
  "comparison_reasons counts =
     (if xc_missing counts + xc_extra counts + xc_modified counts = 0 then Inr []
      else
        ebind (mk_ResultReason
          \<lparr>rr_code = DATA_MISMATCH, rr_operation = asc ''compare_integer_key_rows'',
           rr_message = asc ''exact terminal leaves established row differences'',
           rr_safe_parameters =
             [\<lparr>sp_name = asc ''missing_count'', sp_value = asc (int_str (xc_missing counts))\<rparr>,
              \<lparr>sp_name = asc ''extra_count'', sp_value = asc (int_str (xc_extra counts))\<rparr>,
              \<lparr>sp_name = asc ''modified_count'', sp_value = asc (int_str (xc_modified counts))\<rparr>],
           rr_native_error_code = None, rr_query_id = None, rr_redacted_response = None\<rparr>) (\<lambda>r.
        Inr [r]))"

section \<open>A completed artifact whose cleanup failed\<close>

datatype completed_result = CompletedComparison completed_artifact | CompletedStructural structural_artifact

definition available_total_integer :: "total \<Rightarrow> exn + int" where
  "available_total_integer t =
     ebind (require (is_exact t \<or> is_inferred t \<or> is_lower_bound t) ValueError) (\<lambda>_.
     case ascii_text (total_value t) of
       None \<Rightarrow> Inl ValueError
     | Some s \<Rightarrow>
         ebind (require (length s \<le> int_max_str_digits) ValueError) (\<lambda>_. Inr (parse_int s)))"

fun partial_comparison_artifact_from_completed ::
  "completed_result \<Rightarrow> reason_code \<Rightarrow> exn + partial_artifact" where
  "partial_comparison_artifact_from_completed (CompletedStructural a) reason_code =
     ebind (mk_PartialComparisonFrontier \<lparr>pf_topology = [], pf_unresolved = []\<rparr>) (\<lambda>frontier.
     mk_PartialComparisonArtifact
       \<lparr>pa_check_id = st_check_id a, pa_contract_digest = st_contract_digest a,
        pa_scope_digest = st_scope_digest a, pa_input_cut_digest = st_input_cut_digest a,
        pa_verdict = MISMATCH, pa_consistency = st_consistency a, pa_guarantee = NOT_ESTABLISHED,
        pa_comparison_coverage = st_comparison_coverage a, pa_totals = st_totals a,
        pa_evidence_coverage = st_evidence_coverage a, pa_metrics = st_metrics a,
        pa_frontier = frontier, pa_anomalies = [],
        pa_reference_full_scans = st_reference_full_scans a,
        pa_target_full_scans = st_target_full_scans a\<rparr>)"
| "partial_comparison_artifact_from_completed (CompletedComparison a) reason_code =
     (let exact_reference_rows = sum_list (map (\<lambda>s. fp_count (sr_reference_fingerprint s))
        (filter (\<lambda>s. sr_state s \<in> {EXACT_MATCH, EXACT_MISMATCH}) (ca_segments a))) in
      ebind (available_total_integer (ct_missing (ca_totals a))) (\<lambda>missing.
      ebind (available_total_integer (ct_extra (ca_totals a))) (\<lambda>extra.
      ebind (available_total_integer (ct_modified (ca_totals a))) (\<lambda>modified.
      let exact_matched = exact_reference_rows - missing - modified in
      ebind (require (\<not> exact_matched < 0) ValueError) (\<lambda>_.
      ebind (mk_ExactCounts exact_matched missing extra modified) (\<lambda>exact_counts.
      ebind (partial_totals exact_counts (cc_exact_segments (ca_comparison_coverage a)) reason_code) (\<lambda>totals.
      ebind (mk_PartialComparisonFrontier \<lparr>pf_topology = ca_segments a, pf_unresolved = []\<rparr>) (\<lambda>frontier.
      mk_PartialComparisonArtifact
        \<lparr>pa_check_id = ca_check_id a, pa_contract_digest = ca_contract_digest a,
         pa_scope_digest = ca_scope_digest a, pa_input_cut_digest = ca_input_cut_digest a,
         pa_verdict = (if ca_verdict a = MISMATCH then MISMATCH else INCONCLUSIVE),
         pa_consistency = ca_consistency a, pa_guarantee = NOT_ESTABLISHED,
         pa_comparison_coverage = ca_comparison_coverage a, pa_totals = totals,
         pa_evidence_coverage = ca_evidence_coverage a, pa_metrics = ca_metrics a,
         pa_frontier = frontier, pa_anomalies = ca_anomalies a,
         pa_reference_full_scans = ca_reference_full_scans a,
         pa_target_full_scans = ca_target_full_scans a\<rparr>))))))))"

end
