(* ===== verification/Comparison_Inputs.thy ===== *)
theory Comparison_Inputs
  imports Comparison_Artifacts
begin

text \<open>
  The checks that \<open>_validate_inputs\<close> of \<open>src/forensic_data/comparison.py\<close> makes before the first
  read: which pairs of engines are supported, that the key is one non-null integer field and the
  grain of both datasets, that both contexts are active, distinct and own the inspected relations,
  that each inspection is of the contract's relation, and that the scope and the input cut are those
  of the check.
\<close>

definition unsupported_unless :: "bool \<Rightarrow> exn + unit" where
  "unsupported_unless c = require c UnsupportedComparisonError"

definition protocol_unless :: "bool \<Rightarrow> exn + unit" where
  "protocol_unless c = require c ComparisonProtocolError"

definition expected_columns :: "dataset_definition \<Rightarrow> pystr list" where
  "expected_columns dataset = map pj_column_name (ds_projection dataset)"

definition validate_acquired ::
  "dataset_definition \<Rightarrow> relation_locator \<Rightarrow> relation_acquisition \<Rightarrow> (pystr \<times> pystr) option \<Rightarrow> exn + unit" where
  "validate_acquired dataset locator acquisition inspected =
     (let expected_relation = (rl_schema locator, rl_name locator) in
      ebind (protocol_unless (ra_relation acquisition = expected_relation)) (\<lambda>_.
      ebind (case inspected of None \<Rightarrow> Inr () | Some r \<Rightarrow> protocol_unless (r = expected_relation)) (\<lambda>_.
      ebind (protocol_unless (ra_schema acquisition = ls_schema (ds_logical_schema dataset))) (\<lambda>_.
      protocol_unless (ra_column_names acquisition = expected_columns dataset)))))"

fun validate_relation_detail :: "dataset_definition \<Rightarrow> relation_locator \<Rightarrow> relation_detail \<Rightarrow> exn + unit" where
  "validate_relation_detail dataset locator (ClickHouseInspection acquisition) =
     ebind (protocol_unless (cd_adapter (ds_connection dataset) = CLICKHOUSE)) (\<lambda>_.
     ebind (unsupported_unless (rl_relation_scope locator = PHYSICAL_ONLY)) (\<lambda>_.
     validate_acquired dataset locator acquisition None))"
| "validate_relation_detail dataset locator (MssqlInspection _ _ _ relation bindings) =
     ebind (protocol_unless (cd_adapter (ds_connection dataset) = MSSQL)) (\<lambda>_.
     ebind (unsupported_unless (rl_relation_scope locator = PHYSICAL_ONLY)) (\<lambda>_.
     ebind (protocol_unless (relation = (rl_schema locator, rl_name locator))) (\<lambda>_.
     ebind (protocol_unless (map fb_column_name bindings = expected_columns dataset)) (\<lambda>_.
     protocol_unless (map fb_field_name bindings = map fs_name (cs_fields (ls_schema (ds_logical_schema dataset))))))))"
| "validate_relation_detail dataset locator (OriginalGreenplumInspection acquisition inspected) =
     ebind (protocol_unless (cd_adapter (ds_connection dataset) = GREENPLUM)) (\<lambda>_.
     ebind (unsupported_unless (rl_relation_scope locator = PHYSICAL_ONLY)) (\<lambda>_.
     ebind (protocol_unless (ra_relation_scope acquisition = PHYSICAL_ONLY)) (\<lambda>_.
     validate_acquired dataset locator acquisition (Some inspected))))"
| "validate_relation_detail dataset locator (GreengageInspection acquisition inspected) =
     ebind (protocol_unless (cd_adapter (ds_connection dataset) = GREENGAGE)) (\<lambda>_.
     ebind (unsupported_unless (rl_relation_scope locator = PHYSICAL_ONLY)) (\<lambda>_.
     ebind (protocol_unless (ra_relation_scope acquisition = PHYSICAL_ONLY)) (\<lambda>_.
     validate_acquired dataset locator acquisition (Some inspected))))"
| "validate_relation_detail dataset locator (PostgresInspection acquisition inspected composition) =
     ebind (protocol_unless (cd_adapter (ds_connection dataset) = POSTGRESQL)) (\<lambda>_.
     ebind (protocol_unless (ra_relation_scope acquisition = rl_relation_scope locator)) (\<lambda>_.
     ebind (protocol_unless (\<not> (rl_relation_scope locator = FROZEN_PHYSICAL_UNION \<and> composition = None))) (\<lambda>_.
     ebind (protocol_unless (\<not> (rl_relation_scope locator = PHYSICAL_ONLY \<and> composition \<noteq> None))) (\<lambda>_.
     validate_acquired dataset locator acquisition (Some inspected)))))"

definition validate_dataset_relation :: "dataset_definition \<Rightarrow> comparison_relation \<Rightarrow> exn + unit" where
  "validate_dataset_relation dataset relation =
     (case ds_locator dataset of
        SqlDataset _ \<Rightarrow> Inl UnsupportedComparisonError
      | RelationDataset locator \<Rightarrow>
          ebind (unsupported_unless (rl_relation_scope locator \<in> {PHYSICAL_ONLY, FROZEN_PHYSICAL_UNION})) (\<lambda>_.
          validate_relation_detail dataset locator (crl_detail relation)))"

definition mk_PostgresScopePredicate :: "scope_predicate \<Rightarrow> exn + scope_predicate" where
  "mk_PostgresScopePredicate p =
     ebind (require (\<not> fs_nullable (spr_field p)) PostgresLoweringError) (\<lambda>_.
     ebind (require (spr_column_name p \<noteq> []) PostgresLoweringError) (\<lambda>_.
     ebind (check_all (\<lambda>c. require (\<not> (c = 0 \<or> is_surrogate c)) PostgresLoweringError) (spr_column_name p)) (\<lambda>_.
     ebind (case decode_payload (spr_field p) (spr_canonical_payload p) of
              Inl _ \<Rightarrow> Inl PostgresLoweringError | Inr _ \<Rightarrow> Inr ()) (\<lambda>_.
     Inr p))))"

definition scope_predicate_for_dataset ::
  "row_check \<Rightarrow> resolved_scope \<Rightarrow> dataset_definition \<Rightarrow> exn + scope_predicate option" where
  "scope_predicate_for_dataset check scope dataset =
     (case rs_parameters scope of
        [] \<Rightarrow> ebind (protocol_unless (sd_bindings (rc_scope check) = [])) (\<lambda>_. Inr None)
      | [parameter] \<Rightarrow>
          (case filter (\<lambda>b. sb_dataset_id b = ds_dataset_id dataset) (sd_bindings (rc_scope check)) of
             [binding] \<Rightarrow>
               ebind (unsupported_unless (sb_operator binding = OPERATOR_EQUAL \<and>
                 sb_parameter binding = rsp_name parameter)) (\<lambda>_.
               ebind (unsupported_unless
                 (length (filter (\<lambda>p. pj_column_name p = sb_column binding) (ds_projection dataset)) = 1)) (\<lambda>_.
               ebind (mk_PostgresScopePredicate
                 \<lparr>spr_field = rsp_field parameter, spr_column_name = sb_column binding,
                  spr_canonical_payload = rsp_canonical_payload parameter\<rparr>) (\<lambda>p.
               Inr (Some p))))
           | _ \<Rightarrow> Inl ComparisonProtocolError)
      | _ \<Rightarrow> Inl UnsupportedComparisonError)"

definition validate_input_cut :: "row_check \<Rightarrow> resolved_scope \<Rightarrow> input_cut \<Rightarrow> exn + unit" where
  "validate_input_cut check scope icut =
     ebind (protocol_unless (dic_dataset_id (ic_reference icut) = ds_dataset_id (rc_reference check))) (\<lambda>_.
     ebind (protocol_unless (dic_dataset_id (ic_target icut) = ds_dataset_id (rc_target check))) (\<lambda>_.
     ebind (protocol_unless (\<not> (dic_scope_digest (ic_reference icut) \<noteq> rs_scope_digest scope \<or>
         dic_scope_digest (ic_target icut) \<noteq> rs_scope_digest scope))) (\<lambda>_.
     ebind (protocol_unless (ic_late_arrivals icut = cdf_late_arrivals (rc_consistency check))) (\<lambda>_.
     let expected_fields = cdf_alignment_fields (rc_consistency check);
         field_names = (\<lambda>side. map (\<lambda>v. fs_name (cv_field v)) (dic_alignment_values side)) in
     ebind (protocol_unless (\<not> (field_names (ic_reference icut) \<noteq> expected_fields \<or>
         field_names (ic_target icut) \<noteq> expected_fields))) (\<lambda>_.
     ebind (classify_input_cut_alignment icut) (\<lambda>outcome.
     protocol_unless (outcome = None)))))))"

record validated_inputs =
  vi_key_field_index :: nat
  vi_reference_scope :: "scope_predicate option"
  vi_target_scope :: "scope_predicate option"
  vi_max_encoded_row_bytes :: int
  vi_reference_member_count :: int
  vi_target_member_count :: int
  vi_reference_aggregate_presence_bytes :: int
  vi_target_aggregate_presence_bytes :: int
  vi_reference_physical_scan_count :: int
  vi_target_physical_scan_count :: int

definition validate_adapter_pair :: "adapter \<Rightarrow> adapter \<Rightarrow> exn + unit" where
  "validate_adapter_pair reference target =
     ebind (unsupported_unless (\<not> (CLICKHOUSE \<in> {reference, target} \<and>
       (reference, target) \<notin> {(CLICKHOUSE, POSTGRESQL), (POSTGRESQL, CLICKHOUSE), (MSSQL, CLICKHOUSE),
         (GREENPLUM, CLICKHOUSE)}))) (\<lambda>_.
     unsupported_unless (\<not> (GREENPLUM \<in> {reference, target} \<and>
       (reference, target) \<notin> {(GREENPLUM, POSTGRESQL), (GREENPLUM, GREENGAGE), (GREENPLUM, CLICKHOUSE)})))"

definition validate_key :: "row_check \<Rightarrow> exn + nat" where
  "validate_key check =
     (case rc_key check of
        [key_name] \<Rightarrow>
          (let fs = cs_fields (ls_schema (rc_comparison_schema check)) in
           case filter (\<lambda>i. fs_name (fs ! i) = key_name) [0..<length fs] of
             [key_field_index] \<Rightarrow>
               (let key_field = fs ! key_field_index in
                ebind (unsupported_unless (\<not> (fs_logical_type key_field \<noteq> INT64 \<or> fs_nullable key_field))) (\<lambda>_.
                ebind (unsupported_unless (\<not> (ds_grain (rc_reference check) \<noteq> rc_key check \<or>
                  ds_grain (rc_target check) \<noteq> rc_key check))) (\<lambda>_.
                Inr key_field_index)))
           | _ \<Rightarrow> Inl UnsupportedComparisonError)
      | _ \<Rightarrow> Inl UnsupportedComparisonError)"

definition validate_contexts :: "'w services \<Rightarrow> comparison_inputs \<Rightarrow> 'w \<Rightarrow> exn + unit" where
  "validate_contexts sv ci w =
     (let reference_context = ci_reference_context ci; target_context = ci_target_context ci in
      ebind (protocol_unless (sv_active sv reference_context w)) (\<lambda>_.
      ebind (protocol_unless (sv_active sv target_context w)) (\<lambda>_.
      ebind (context_stable_read_level sv reference_context w) (\<lambda>_.
      ebind (context_stable_read_level sv target_context w) (\<lambda>_.
      ebind (protocol_unless (crl_identity (ci_reference_relation ci) \<in>
          crl_identity ` set (cx_protected_relations reference_context))) (\<lambda>_.
      ebind (protocol_unless (crl_identity (ci_target_relation ci) \<in>
          crl_identity ` set (cx_protected_relations target_context))) (\<lambda>_.
      protocol_unless (\<not> cx_context_id reference_context = cx_context_id target_context))))))))"

definition validate_stable_read :: "dataset_definition \<Rightarrow> consistency_dataset \<Rightarrow> exn + unit" where
  "validate_stable_read dataset consistency =
     ebind (case cds_readiness consistency of
              ManifestReadiness _ \<Rightarrow> Inr () | SqlReadiness _ \<Rightarrow> Inl UnsupportedComparisonError) (\<lambda>_.
     let expected_stable_read =
       (if cd_adapter (ds_connection dataset) = CLICKHOUSE then IMMUTABLE_NAMED_VERSION
        else TRANSACTION_SNAPSHOT) in
     unsupported_unless (cds_stable_read consistency = expected_stable_read))"

text \<open>\<open>zip(..., strict=True)\<close>: the pairs in turn, and \<open>ValueError\<close> when the number of consistency
  datasets is not two.\<close>

definition validate_stable_reads :: "row_check \<Rightarrow> exn + unit" where
  "validate_stable_reads check =
     (case cdf_datasets (rc_consistency check) of
        [] \<Rightarrow> Inl ValueError
      | c # cs \<Rightarrow>
          ebind (validate_stable_read (rc_reference check) c) (\<lambda>_.
          case cs of
            [] \<Rightarrow> Inl ValueError
          | c' # cs' \<Rightarrow>
              ebind (validate_stable_read (rc_target check) c') (\<lambda>_.
              require (cs' = []) ValueError)))"

definition validate_inputs :: "'w services \<Rightarrow> comparison_inputs \<Rightarrow> 'w \<Rightarrow> exn + validated_inputs" where
  "validate_inputs sv ci w =
     (let check = ci_check ci; scope = ci_scope ci; budgets = ci_budgets ci;
          reference_detail = crl_detail (ci_reference_relation ci);
          target_detail = crl_detail (ci_target_relation ci) in
      ebind (validate_adapter_pair (cd_adapter (ds_connection (rc_reference check)))
        (cd_adapter (ds_connection (rc_target check)))) (\<lambda>_.
      ebind (validate_key check) (\<lambda>key_field_index.
      ebind (validate_contexts sv ci w) (\<lambda>_.
      ebind (validate_dataset_relation (rc_reference check) (ci_reference_relation ci)) (\<lambda>_.
      ebind (validate_dataset_relation (rc_target check) (ci_target_relation ci)) (\<lambda>_.
      let reference_scans = relation_physical_scan_count reference_detail;
          target_scans = relation_physical_scan_count target_detail in
      ebind (require (\<not> eb_max_full_scans_per_side budgets < max reference_scans target_scans)
        ComparisonBudgetExceededError) (\<lambda>_.
      ebind (validate_stable_reads check) (\<lambda>_.
      ebind (unsupported_unless (map (\<lambda>p. (rsp_name p, rsp_field p)) (rs_parameters scope) =
        map (\<lambda>p. (scp_name p, scp_field p)) (sd_parameters (rc_scope check)))) (\<lambda>_.
      ebind (scope_predicate_for_dataset check scope (rc_reference check)) (\<lambda>reference_scope.
      ebind (scope_predicate_for_dataset check scope (rc_target check)) (\<lambda>target_scope.
      ebind (validate_input_cut check scope (ci_input_cut ci)) (\<lambda>_.
      let reference_member_count = relation_member_count reference_detail;
          target_member_count = relation_member_count target_detail in
      ebind (comparison_max_encoded_row_bytes budgets (max reference_member_count target_member_count))
        (\<lambda>max_encoded_row_bytes.
      Inr \<lparr>vi_key_field_index = key_field_index, vi_reference_scope = reference_scope,
        vi_target_scope = target_scope, vi_max_encoded_row_bytes = max_encoded_row_bytes,
        vi_reference_member_count = reference_member_count, vi_target_member_count = target_member_count,
        vi_reference_aggregate_presence_bytes = aggregate_presence_bytes reference_detail,
        vi_target_aggregate_presence_bytes = aggregate_presence_bytes target_detail,
        vi_reference_physical_scan_count = reference_scans,
        vi_target_physical_scan_count = target_scans\<rparr>)))))))))))))"

end
