(* ===== verification/Comparison_Engine.thy ===== *)
theory Comparison_Engine
  imports Comparison_Inputs
begin

text \<open>
  \<open>execute_integer_key_comparison\<close> and the generator \<open>_execute_postgres_integer_key_comparison\<close> of
  \<open>src/forensic_data/comparison.py\<close>. The generator runs in the world together with the progress it
  has yielded last: \<open>yield_progress\<close> replaces that progress, and when the generator raises, the caller builds
  the partial artifact from it. One iteration of the \<open>while pending\<close> loop is \<open>comparison_level\<close>; each
  iteration adds its segments to the fingerprint nodes used, which the budget bounds, so the loop
  ends.
\<close>

type_synonym ('w, 'a) gen = "('w \<times> progress, cause, 'a) eff"

definition inner :: "('w, cause, 'a) eff \<Rightarrow> ('w, 'a) gen" where
  "inner m = (\<lambda>(w, p). case m w of (r, w') \<Rightarrow> (r, (w', p)))"

definition yield_progress :: "progress \<Rightarrow> ('w, unit) gen" where
  "yield_progress p = (\<lambda>(w, _). (Inr (), (w, p)))"

section \<open>Reads of one level\<close>

definition read_fingerprint_level ::
  "'w services \<Rightarrow> comparison_inputs \<Rightarrow> validated_inputs \<Rightarrow> usage \<Rightarrow> read_deadline \<Rightarrow> fingerprint_level_plan \<Rightarrow>
   ('w, cause, range_fingerprint_read \<times> range_fingerprint_read \<times> usage) eff" where
  "read_fingerprint_level sv ci vi u read_deadline plan =
     (let deadline = rd_deadline_nanoseconds read_deadline;
          n = int (length (lp_requests plan));
          reference_kind = cx_kind (ci_reference_context ci);
          target_kind = cx_kind (ci_target_context ci) in
      wbind (raised (greenplum_fingerprint_plan_budget reference_kind n))
        (\<lambda>(reference_queries, reference_records, reference_bytes, reference_memory).
      wbind (raised (greenplum_fingerprint_plan_budget target_kind n))
        (\<lambda>(target_queries, target_records, target_bytes, target_memory).
      let plan_coordinator_peak_bytes =
        lp_coordinator_peak_bytes plan + max reference_memory target_memory in
      wbind (require_full_scan_capacity sv (lp_reference_full_scans plan) (lp_target_full_scans plan)) (\<lambda>_.
      wbind (require_budget_capacity sv (ci_budgets ci)
        (4 + reference_queries + target_queries)
        (2 * n + 2 + reference_records + target_records)
        (lp_reference_result_bytes plan + lp_target_result_bytes plan +
         session_setup_record_bytes reference_kind + session_setup_record_bytes target_kind +
         reference_bytes + target_bytes)
        plan_coordinator_peak_bytes) (\<lambda>_.
      wbind (require_deadline (sv_clock sv) deadline) (\<lambda>_.
      wbind (read_integer_range_fingerprints sv (ci_reference_context ci) (ci_reference_relation ci)
        (vi_key_field_index vi) (vi_reference_scope vi) (lp_requests plan) (vi_max_encoded_row_bytes vi)
        (lp_payload_record_bytes plan) (lp_payload_result_bytes plan) read_deadline
        (lp_reference_full_scans plan)) (\<lambda>reference_read.
      wbind (require_deadline (sv_clock sv) deadline) (\<lambda>_.
      wbind (read_integer_range_fingerprints sv (ci_target_context ci) (ci_target_relation ci)
        (vi_key_field_index vi) (vi_target_scope vi) (lp_requests plan) (vi_max_encoded_row_bytes vi)
        (lp_payload_record_bytes plan) (lp_payload_result_bytes plan) read_deadline
        (lp_target_full_scans plan)) (\<lambda>target_read.
      wbind (consume_source_usage sv u (ci_source_budget ci) n plan_coordinator_peak_bytes) (\<lambda>next_usage.
      wreturn (reference_read, target_read, next_usage)))))))))))"

definition read_exact_frontier ::
  "'w services \<Rightarrow> comparison_inputs \<Rightarrow> validated_inputs \<Rightarrow> fingerprint_node list \<Rightarrow> exact_frontier_reservation \<Rightarrow>
   usage \<Rightarrow> read_deadline \<Rightarrow> ('w, cause, exact_rows_read \<times> exact_rows_read \<times> usage) eff" where
  "read_exact_frontier sv ci vi nodes reservation u read_deadline =
     (let deadline = rd_deadline_nanoseconds read_deadline;
          reference = fr_reference reservation; target = fr_target reservation in
      wbind (raised (traverse (\<lambda>n. range_request_of (fn_segment n)) nodes)) (\<lambda>requests.
      let reference_payload_limit = max 1 (xr_result_bytes reference);
          target_payload_limit = max 1 (xr_result_bytes target) in
      wbind (require_full_scan_capacity sv (xr_full_scans reference) (xr_full_scans target)) (\<lambda>_.
      wbind (require_budget_capacity sv (ci_budgets ci) 4 (xr_raw_records reference + xr_raw_records target + 2)
        (xr_raw_result_bytes reference + xr_raw_result_bytes target + fr_setup_result_bytes reservation)
        (fr_coordinator_peak_bytes reservation)) (\<lambda>_.
      wbind (raised (max_each (\<lambda>r. ascii_length (rq_segment_id r)) requests)) (\<lambda>identifier_bytes.
      let maximum_payload_record_bytes = vi_max_encoded_row_bytes vi + MAX_INT64_KEY_ENVELOPE_BYTES +
        identifier_bytes + EXACT_STATUS_BYTES in
      wbind (require_deadline (sv_clock sv) deadline) (\<lambda>_.
      wbind (read_integer_range_rows sv (ci_reference_context ci) (ci_reference_relation ci)
        (vi_key_field_index vi) (vi_reference_scope vi) requests (vi_max_encoded_row_bytes vi)
        (xr_raw_records reference) (min maximum_payload_record_bytes reference_payload_limit)
        reference_payload_limit read_deadline (xr_full_scans reference)) (\<lambda>reference_read.
      wbind (require_deadline (sv_clock sv) deadline) (\<lambda>_.
      wbind (read_integer_range_rows sv (ci_target_context ci) (ci_target_relation ci)
        (vi_key_field_index vi) (vi_target_scope vi) requests (vi_max_encoded_row_bytes vi)
        (xr_raw_records target) (min maximum_payload_record_bytes target_payload_limit)
        target_payload_limit read_deadline (xr_full_scans target)) (\<lambda>target_read.
      wbind (require_deadline (sv_clock sv) deadline) (\<lambda>_.
      wbind (wrequire (rdm_fetched_records (err_metrics reference_read) = xr_records reference) (Raised ComparisonProtocolError)) (\<lambda>_.
      wbind (wrequire (rdm_fetched_records (err_metrics target_read) = xr_records target) (Raised ComparisonProtocolError)) (\<lambda>_.
      wbind (wrequire (rdm_result_bytes (err_metrics reference_read) = xr_result_bytes reference) (Raised ComparisonProtocolError)) (\<lambda>_.
      wbind (wrequire (rdm_result_bytes (err_metrics target_read) = xr_result_bytes target) (Raised ComparisonProtocolError)) (\<lambda>_.
      wbind (consume_source_usage sv u (ci_source_budget ci) 0 (fr_coordinator_peak_bytes reservation)) (\<lambda>next_usage.
      wreturn (reference_read, target_read, next_usage))))))))))))))))"

section \<open>One iteration of the loop\<close>

fun prune_loop :: "'w clock \<Rightarrow> int \<Rightarrow> nat \<Rightarrow> fingerprint_node list \<Rightarrow> progress \<Rightarrow> ('w, progress) gen" where
  "prune_loop clock deadline index [] p = wreturn p"
| "prune_loop clock deadline index (node # nodes) p =
     wbind (inner (require_deadline_at clock deadline index)) (\<lambda>_.
     wbind (raised (segment_record_of node FINGERPRINT_MATCH)) (\<lambda>record.
     let p' = p\<lparr>pg_topology := pg_topology p @ [record],
        pg_pending := without_pending_sequence (pg_pending p) (pe_segment_sequence (fn_segment node)),
        pg_pruned_matched := pg_pruned_matched p + fp_count (rf_fingerprint (fn_reference node)),
        pg_pruned_segments := pg_pruned_segments p + 1\<rparr> in
     wbind (yield_progress p') (\<lambda>_.
     prune_loop clock deadline (Suc index) nodes p')))"

definition rows_of_node :: "row_groups \<Rightarrow> fingerprint_node \<Rightarrow> exn + exact_row list" where
  "rows_of_node groups node =
     ebind (segment_id (pe_segment_sequence (fn_segment node))) (\<lambda>identifier.
     case group_rows groups identifier of None \<Rightarrow> Inl KeyError | Some rows \<Rightarrow> Inr rows)"

definition exact_leaf ::
  "'w services \<Rightarrow> comparison_inputs \<Rightarrow> int \<Rightarrow> row_groups \<Rightarrow> row_groups \<Rightarrow> fingerprint_node \<Rightarrow> progress \<Rightarrow>
   ('w, progress) gen" where
  "exact_leaf sv ci deadline reference_rows target_rows node p =
     wbind (raised (rows_of_node reference_rows node)) (\<lambda>reference_leaf.
     wbind (raised (rows_of_node target_rows node)) (\<lambda>target_leaf.
     wbind (inner (classify_exact_leaf (sv_clock sv) deadline node reference_leaf target_leaf))
       (\<lambda>(counts, exact_record, differences).
     wbind (raised (add_exact_counts (pg_exact_counts p) counts)) (\<lambda>exact_counts.
     let leaf_progress = p\<lparr>pg_exact_counts := exact_counts,
        pg_exact_segments := pg_exact_segments p + 1,
        pg_topology := pg_topology p @ [exact_record],
        pg_pending := without_pending_sequence (pg_pending p) (pe_segment_sequence (fn_segment node)),
        pg_mismatch_witnesses :=
          without_mismatch_witness (pg_mismatch_witnesses p) (pe_segment_sequence (fn_segment node))\<rparr> in
     wbind (inner (retain_exact_differences (sv_clock sv) leaf_progress differences (ci_check ci)
       (ci_evidence_policy ci) (ci_budgets ci) deadline)) (\<lambda>p'.
     wbind (yield_progress p') (\<lambda>_.
     wreturn p'))))))"

fun exact_leaves_loop ::
  "'w services \<Rightarrow> comparison_inputs \<Rightarrow> int \<Rightarrow> row_groups \<Rightarrow> row_groups \<Rightarrow> fingerprint_node list \<Rightarrow> progress \<Rightarrow>
   ('w, progress) gen" where
  "exact_leaves_loop sv ci deadline reference_rows target_rows [] p = wreturn p"
| "exact_leaves_loop sv ci deadline reference_rows target_rows (node # nodes) p =
     wbind (exact_leaf sv ci deadline reference_rows target_rows node p) (\<lambda>p'.
     exact_leaves_loop sv ci deadline reference_rows target_rows nodes p')"

definition exact_level ::
  "'w services \<Rightarrow> comparison_inputs \<Rightarrow> validated_inputs \<Rightarrow> read_deadline \<Rightarrow> fingerprint_node list \<Rightarrow>
   exact_frontier_reservation \<Rightarrow> usage \<Rightarrow> progress \<Rightarrow> ('w, pending_segment list \<times> usage \<times> progress) gen" where
  "exact_level sv ci vi read_deadline mismatching reservation u p =
     (let deadline = rd_deadline_nanoseconds read_deadline;
          u1 = usage_with_coordinator_peak u (fr_coordinator_peak_bytes reservation);
          p1 = p\<lparr>pg_usage := u1\<rparr> in
      wbind (yield_progress p1) (\<lambda>_.
      wbind (inner (read_exact_frontier sv ci vi mismatching reservation u1 read_deadline))
        (\<lambda>(reference_exact, target_exact, u2).
      let p2 = p1\<lparr>pg_usage := u2\<rparr> in
      wbind (yield_progress p2) (\<lambda>_.
      wbind (inner (group_exact_frontier_rows (sv_clock sv) deadline mismatching reference_exact target_exact))
        (\<lambda>(reference_rows, target_rows).
      wbind (exact_leaves_loop sv ci deadline reference_rows target_rows mismatching p2) (\<lambda>p3.
      wreturn (pg_pending p3, u2, p3)))))))"

fun split_nodes_loop ::
  "'w clock \<Rightarrow> int \<Rightarrow> nat \<Rightarrow> int \<Rightarrow> fingerprint_node list \<Rightarrow>
   ('w, cause, (fingerprint_node \<times> pending_segment \<times> pending_segment) list) eff" where
  "split_nodes_loop clock deadline index next_sequence [] = wreturn []"
| "split_nodes_loop clock deadline index next_sequence (node # nodes) =
     wbind (require_deadline_at clock deadline index) (\<lambda>_.
     case split_segment (fn_segment node) next_sequence of
       None \<Rightarrow> wraise (Raised ComparisonBudgetExceededError)
     | Some (a, b) \<Rightarrow>
         wbind (split_nodes_loop clock deadline (Suc index) (next_sequence + 2) nodes) (\<lambda>rest.
         wreturn ((node, a, b) # rest)))"

definition children_of :: "(fingerprint_node \<times> pending_segment \<times> pending_segment) list \<Rightarrow> pending_segment list" where
  "children_of splits = concat (map (\<lambda>(_, a, b). [a, b]) splits)"

fun publish_splits_loop ::
  "pending_segment list \<Rightarrow> (fingerprint_node \<times> pending_segment \<times> pending_segment) list \<Rightarrow> progress \<Rightarrow>
   ('w, progress) gen" where
  "publish_splits_loop processed_children [] p = wreturn p"
| "publish_splits_loop processed_children ((node, a, b) # rest) p =
     wbind (raised (segment_record_of node SPLIT)) (\<lambda>record.
     let processed = processed_children @ [a, b];
         p' = p\<lparr>pg_topology := pg_topology p @ [record],
           pg_pending := processed @ map (\<lambda>(n, _). fn_segment n) rest,
           pg_mismatch_witnesses :=
             without_mismatch_witness (pg_mismatch_witnesses p) (pe_segment_sequence (fn_segment node))\<rparr> in
     wbind (yield_progress p') (\<lambda>_.
     publish_splits_loop processed rest p'))"

definition split_level ::
  "'w services \<Rightarrow> comparison_inputs \<Rightarrow> int \<Rightarrow> fingerprint_node list \<Rightarrow> usage \<Rightarrow> progress \<Rightarrow>
   ('w, pending_segment list \<times> usage \<times> progress) gen" where
  "split_level sv ci deadline mismatching u p =
     wbind (inner (split_nodes_loop (sv_clock sv) deadline 0 (ug_fingerprint_nodes u) mismatching)) (\<lambda>splits.
     let children = children_of splits in
     wbind (wrequire (\<not> list_ex (\<lambda>c. pe_depth c > eb_max_depth (ci_budgets ci)) children)
       (Raised ComparisonBudgetExceededError)) (\<lambda>_.
     wbind (wrequire (\<not> ug_fingerprint_nodes u + int (length children) > eb_max_fingerprint_nodes (ci_budgets ci))
       (Raised ComparisonBudgetExceededError)) (\<lambda>_.
     wbind (publish_splits_loop [] splits p) (\<lambda>p'.
     wreturn (children, u, p')))))"

definition check_root_counts ::
  "pending_segment list \<Rightarrow> fingerprint_node list \<Rightarrow> key_summary \<Rightarrow> key_summary \<Rightarrow> exn + unit" where
  "check_root_counts pending level_nodes reference_summary target_summary =
     (if pe_segment_sequence (hd pending) = 0 then
        ebind (require (fp_count (rf_fingerprint (fn_reference (hd level_nodes))) = ks_row_count reference_summary)
          ComparisonProtocolError) (\<lambda>_.
        require (fp_count (rf_fingerprint (fn_target (hd level_nodes))) = ks_row_count target_summary)
          ComparisonProtocolError)
      else Inr ())"

definition comparison_level ::
  "'w services \<Rightarrow> sizes \<Rightarrow> comparison_inputs \<Rightarrow> validated_inputs \<Rightarrow> read_deadline \<Rightarrow> key_summary \<Rightarrow> key_summary \<Rightarrow>
   pending_segment list \<Rightarrow> usage \<Rightarrow> progress \<Rightarrow> ('w, pending_segment list \<times> usage \<times> progress) gen" where
  "comparison_level sv z ci vi read_deadline reference_summary target_summary pending u p =
     (let deadline = rd_deadline_nanoseconds read_deadline in
      wbind (raised (require_mssql_range_batch_capacity pending (ci_reference_relation ci) (ci_target_relation ci))) (\<lambda>_.
      wbind (raised (plan_fingerprint_level z pending u (ci_budgets ci)
        (cx_kind (ci_reference_context ci)) (cx_kind (ci_target_context ci))
        (vi_reference_member_count vi) (vi_target_member_count vi)
        (vi_reference_aggregate_presence_bytes vi) (vi_target_aggregate_presence_bytes vi)
        (vi_reference_physical_scan_count vi) (vi_target_physical_scan_count vi))) (\<lambda>plan.
      let u1 = usage_with_coordinator_peak u (lp_coordinator_peak_bytes plan); p1 = p\<lparr>pg_usage := u1\<rparr> in
      wbind (yield_progress p1) (\<lambda>_.
      wbind (inner (read_fingerprint_level sv ci vi u1 read_deadline plan))
        (\<lambda>(reference_fingerprints, target_fingerprints, u2).
      let p2 = p1\<lparr>pg_usage := u2\<rparr> in
      wbind (yield_progress p2) (\<lambda>_.
      wbind (inner (fingerprint_nodes (sv_clock sv) deadline pending reference_fingerprints target_fingerprints))
        (\<lambda>level_nodes.
      wbind (raised (check_root_counts pending level_nodes reference_summary target_summary)) (\<lambda>_.
      wbind (inner (partition_fingerprint_nodes (sv_clock sv) deadline level_nodes)) (\<lambda>(matching, mismatching).
      let p3 = (if mismatching = [] then p2 else progress_with_mismatch_witnesses p2 mismatching) in
      wbind (if mismatching = [] then wreturn () else yield_progress p3) (\<lambda>_.
      wbind (inner (require_deadline (sv_clock sv) deadline)) (\<lambda>_.
      wbind (prune_loop (sv_clock sv) deadline 0 matching p3) (\<lambda>p4.
      if mismatching = [] then wreturn ([], u2, p4)
      else
        wbind (raised (exact_frontier_reservation_of z mismatching (ci_reference_context ci)
          (ci_reference_relation ci) (ci_target_context ci) u2 (ci_budgets ci) (vi_max_encoded_row_bytes vi)
          (int (length (cs_fields (ls_schema (rc_comparison_schema (ci_check ci))))))
          (vi_reference_member_count vi) (vi_target_member_count vi)
          (vi_reference_physical_scan_count vi) (vi_target_physical_scan_count vi))) (\<lambda>reservation.
        wbind (inner (exact_frontier_fits sv reservation (ci_budgets ci))) (\<lambda>fits.
        if fits then exact_level sv ci vi read_deadline mismatching reservation u2 p4
        else split_level sv ci deadline mismatching u2 p4))))))))))))))"

section \<open>The loop\<close>

lemma inner_iff: "inner m (w, p) = (r, (w', p')) \<longleftrightarrow> m w = (r, w') \<and> p' = p"
  by (auto simp: inner_def split: prod.splits)

lemma yield_progress_iff: "yield_progress p (w, q) = (r, (w', q')) \<longleftrightarrow> r = Inr () \<and> w' = w \<and> q' = p"
  by (auto simp: yield_progress_def)

lemmas gen_iffs = weff_iffs raised_iffs inner_iff yield_progress_iff

lemma plan_fingerprint_level_nodes:
  assumes "plan_fingerprint_level z pending u b k k' m m' a a' c c' = Inr plan"
  shows "ug_fingerprint_nodes u + int (length pending) \<le> eb_max_fingerprint_nodes b \<and>
    traverse range_request_of pending = Inr (lp_requests plan)"
  using assms by (auto simp: plan_fingerprint_level_def result_iffs Let_def split: prod.splits)

lemma consume_source_usage_nodes:
  "consume_source_usage sv u a n peak w = (Inr u', w') \<Longrightarrow> ug_fingerprint_nodes u' = ug_fingerprint_nodes u + n"
  by (auto simp: consume_source_usage_def weff_iffs)

lemma usage_with_coordinator_peak_nodes [simp]:
  "ug_fingerprint_nodes (usage_with_coordinator_peak u n) = ug_fingerprint_nodes u"
  by (simp add: usage_with_coordinator_peak_def)

lemma read_fingerprint_level_nodes:
  assumes "read_fingerprint_level sv ci vi u d plan w = (Inr (r, t, u'), w')"
  shows "ug_fingerprint_nodes u' = ug_fingerprint_nodes u + int (length (lp_requests plan))"
  using assms by (auto simp: read_fingerprint_level_def Let_def weff_iffs dest: consume_source_usage_nodes split: prod.splits)

lemma read_exact_frontier_nodes:
  assumes "read_exact_frontier sv ci vi nodes res u d w = (Inr (r, t, u'), w')"
  shows "ug_fingerprint_nodes u' = ug_fingerprint_nodes u"
  using assms by (auto simp: read_exact_frontier_def Let_def weff_iffs dest: consume_source_usage_nodes split: prod.splits)

lemma exact_level_nodes:
  assumes "exact_level sv ci vi d nodes res u p s = (Inr (pending', u', p'), s')"
  shows "ug_fingerprint_nodes u' = ug_fingerprint_nodes u"
  using assms by (cases s) (auto simp: exact_level_def Let_def gen_iffs dest: read_exact_frontier_nodes split: prod.splits)

lemma split_level_usage:
  "split_level sv ci d nodes u p s = (Inr (pending', u', p'), s') \<Longrightarrow> u' = u"
  by (auto simp: split_level_def Let_def weff_iffs)

lemma comparison_level_nodes:
  assumes "comparison_level sv z ci vi d rs ts pending u p s = (Inr (pending', u', p'), s')"
  shows "ug_fingerprint_nodes u' = ug_fingerprint_nodes u + int (length pending) \<and>
    ug_fingerprint_nodes u + int (length pending) \<le> eb_max_fingerprint_nodes (ci_budgets ci)"
proof -
  from assms obtain plan where plan: "plan_fingerprint_level z pending u (ci_budgets ci)
        (cx_kind (ci_reference_context ci)) (cx_kind (ci_target_context ci))
        (vi_reference_member_count vi) (vi_target_member_count vi)
        (vi_reference_aggregate_presence_bytes vi) (vi_target_aggregate_presence_bytes vi)
        (vi_reference_physical_scan_count vi) (vi_target_physical_scan_count vi) = Inr plan"
    by (auto simp: comparison_level_def Let_def gen_iffs)
  note plan_nodes = plan_fingerprint_level_nodes [OF plan]
  from assms plan plan_nodes show ?thesis
    by (cases s) (auto simp: comparison_level_def Let_def gen_iffs traverse_length
        dest!: read_fingerprint_level_nodes exact_level_nodes split_level_usage split: if_splits prod.splits)
qed

function comparison_loop ::
  "'w services \<Rightarrow> sizes \<Rightarrow> comparison_inputs \<Rightarrow> validated_inputs \<Rightarrow> read_deadline \<Rightarrow> key_summary \<Rightarrow> key_summary \<Rightarrow>
   pending_segment list \<Rightarrow> usage \<Rightarrow> progress \<Rightarrow> ('w, usage \<times> progress) gen" where
  "comparison_loop sv z ci vi read_deadline reference_summary target_summary pending u p s =
     (if pending = [] then (Inr (u, p), s)
      else
        (case comparison_level sv z ci vi read_deadline reference_summary target_summary pending u p s of
           (Inl e, s') \<Rightarrow> (Inl e, s')
         | (Inr (pending', u', p'), s') \<Rightarrow>
             comparison_loop sv z ci vi read_deadline reference_summary target_summary pending' u' p' s'))"
  by pat_completeness auto

termination comparison_loop
proof (relation "measure (\<lambda>(sv, z, ci, vi, d, rs, ts, pending, u, p, s).
    nat (eb_max_fingerprint_nodes (ci_budgets ci) - ug_fingerprint_nodes u))", goal_cases)
  case 1
  then show ?case by simp
next
  case (2 sv z ci vi d rs ts pending u p s r s' x b c aa ba)
  then have "comparison_level sv z ci vi d rs ts pending u p s = (Inr (b, aa, ba), s')"
    by auto
  from comparison_level_nodes [OF this] \<open>pending \<noteq> []\<close> show ?case
    by (cases pending) auto
qed

declare comparison_loop.simps [simp del]

section \<open>The whole comparison\<close>

record summaries =
  sm_validated :: validated_inputs
  sm_read_deadline :: read_deadline
  sm_reference :: key_summary
  sm_target :: key_summary
  sm_usage :: usage
  sm_progress :: progress

definition read_summaries ::
  "'w services \<Rightarrow> sizes \<Rightarrow> comparison_inputs \<Rightarrow> progress \<Rightarrow> ('w, summaries) gen" where
  "read_summaries sv z ci p =
     wbind (inner (\<lambda>w. raised (attempt_read_deadline
       (eb_statement_timeout_milliseconds (ci_budgets ci)) (sv_ledger sv w)) w)) (\<lambda>read_deadline.
     let deadline = rd_deadline_nanoseconds read_deadline in
     wbind (inner (\<lambda>w. raised (validate_inputs sv ci w) w)) (\<lambda>vi.
     wbind (inner (require_deadline (sv_clock sv) deadline)) (\<lambda>_.
     wbind (raised (provenance_bytes (vi_reference_member_count vi))) (\<lambda>reference_provenance.
     wbind (raised (provenance_bytes (vi_target_member_count vi))) (\<lambda>target_provenance.
     let reference_summary_bytes =
           SUMMARY_RECORD_BYTES + reference_provenance + vi_reference_aggregate_presence_bytes vi;
         target_summary_bytes =
           SUMMARY_RECORD_BYTES + target_provenance + vi_target_aggregate_presence_bytes vi in
     wbind (raised (summary_phase_memory_bytes z (ci_budgets ci)
       (vi_reference_member_count vi) (vi_target_member_count vi)
       (vi_reference_aggregate_presence_bytes vi) (vi_target_aggregate_presence_bytes vi)
       reference_summary_bytes target_summary_bytes)) (\<lambda>summary_coordinator_peak.
     let p1 = p\<lparr>pg_usage := usage_with_coordinator_peak (pg_usage p) summary_coordinator_peak\<rparr> in
     wbind (yield_progress p1) (\<lambda>_.
     wbind (inner (require_full_scan_capacity sv (vi_reference_physical_scan_count vi)
       (vi_target_physical_scan_count vi))) (\<lambda>_.
     wbind (inner (require_budget_capacity sv (ci_budgets ci) 4 4
       (reference_summary_bytes + target_summary_bytes +
        session_setup_record_bytes (cx_kind (ci_reference_context ci)) +
        session_setup_record_bytes (cx_kind (ci_target_context ci)))
       summary_coordinator_peak)) (\<lambda>_.
     wbind (inner (read_integer_key_summary sv (ci_reference_context ci) (ci_reference_relation ci)
       (vi_key_field_index vi) (vi_reference_scope vi) (vi_max_encoded_row_bytes vi)
       SUMMARY_RECORD_BYTES SUMMARY_RECORD_BYTES read_deadline (vi_reference_physical_scan_count vi)))
       (\<lambda>reference_read.
     wbind (inner (require_deadline (sv_clock sv) deadline)) (\<lambda>_.
     wbind (inner (read_integer_key_summary sv (ci_target_context ci) (ci_target_relation ci)
       (vi_key_field_index vi) (vi_target_scope vi) (vi_max_encoded_row_bytes vi)
       SUMMARY_RECORD_BYTES SUMMARY_RECORD_BYTES read_deadline (vi_target_physical_scan_count vi)))
       (\<lambda>target_read.
     wbind (inner (consume_source_usage sv (pg_usage p1) (ci_source_budget ci) 0 summary_coordinator_peak)) (\<lambda>u.
     let p2 = p1\<lparr>pg_pending := [root_segment (ksr_summary reference_read) (ksr_summary target_read)],
       pg_summaries_verified := True, pg_usage := u\<rparr> in
     wbind (yield_progress p2) (\<lambda>_.
     wbind (inner (require_deadline (sv_clock sv) deadline)) (\<lambda>_.
     wreturn \<lparr>sm_validated = vi, sm_read_deadline = read_deadline,
       sm_reference = ksr_summary reference_read, sm_target = ksr_summary target_read,
       sm_usage = u, sm_progress = p2\<rparr>)))))))))))))))"

definition completed_comparison ::
  "'w services \<Rightarrow> comparison_inputs \<Rightarrow> summaries \<Rightarrow> usage \<Rightarrow> progress \<Rightarrow> ('w, completed_artifact) gen" where
  "completed_comparison sv ci sm u p =
     (let ordered = ordered_topology p in
      wbind (wrequire (map sr_segment_sequence ordered = map int [0..<length ordered])
        (Raised ComparisonProtocolError)) (\<lambda>_.
      wbind (raised (mk_ExactCounts (pg_pruned_matched p + xc_matched (pg_exact_counts p))
        (xc_missing (pg_exact_counts p)) (xc_extra (pg_exact_counts p)) (xc_modified (pg_exact_counts p))))
        (\<lambda>totals_values.
      let difference_count = xc_missing totals_values + xc_extra totals_values + xc_modified totals_values;
          verdict = (if difference_count = 0 then MATCH else MISMATCH);
          guarantee = (if pg_pruned_segments p > 0 then FINGERPRINT else EXACT) in
      wbind (raised (comparison_totals_of totals_values guarantee)) (\<lambda>totals.
      wbind (raised (comparison_reasons totals_values)) (\<lambda>reasons.
      wbind (inner (require_deadline (sv_clock sv) (rd_deadline_nanoseconds (sm_read_deadline sm)))) (\<lambda>_.
      wbind (inner (consume_source_usage sv u (ci_source_budget ci) 0 (ug_coordinator_peak_bytes u))) (\<lambda>u'.
      let p' = p\<lparr>pg_usage := u'\<rparr> in
      wbind (yield_progress p') (\<lambda>_.
      wbind (wrequire (pg_found_records p' = difference_count) (Raised ComparisonProtocolError)) (\<lambda>_.
      inner (\<lambda>w. raised
        (ebind (completed_stable_read_level sv (ci_reference_context ci) (ci_target_context ci) w) (\<lambda>stable_reads.
         ebind (consistency_of ci stable_reads) (\<lambda>consistency.
         ebind (mk_ComparisonCoverage
           \<lparr>cc_total_partitions = 1, cc_covered_partitions = 1,
            cc_resolved_segments = pg_pruned_segments p' + pg_exact_segments p',
            cc_pruned_segments = pg_pruned_segments p', cc_exact_segments = pg_exact_segments p',
            cc_unresolved_segments = 0, cc_unresolved_reasons = []\<rparr>) (\<lambda>coverage.
         ebind (mk_EvidenceCoverage
           \<lparr>ev_found_records = pg_found_records p', ev_retained_records = int (length (pg_anomalies p')),
            ev_found_bytes = pg_found_bytes p', ev_retained_bytes = pg_retained_bytes p'\<rparr>) (\<lambda>evidence.
         ebind (result_metrics_of u') (\<lambda>metrics.
         mk_CompletedComparisonArtifact
           \<lparr>ca_check_id = rc_check_id (ci_check ci), ca_contract_digest = rc_contract_digest (ci_check ci),
            ca_scope_digest = rs_scope_digest (ci_scope ci),
            ca_input_cut_digest = ic_input_cut_digest (ci_input_cut ci), ca_verdict = verdict,
            ca_consistency = consistency, ca_guarantee = guarantee, ca_comparison_coverage = coverage,
            ca_totals = totals, ca_evidence_coverage = evidence, ca_metrics = metrics,
            ca_reasons = reasons, ca_segments = ordered, ca_anomalies = pg_anomalies p',
            ca_reference_key_summary = sm_reference sm, ca_target_key_summary = sm_target sm,
            ca_reference_full_scans = ug_reference_full_scans u',
            ca_target_full_scans = ug_target_full_scans u'\<rparr>)))))) w))))))))))"

text \<open>The comparison of the ranges, when the keys keep their contract and can be looked up.\<close>

definition compare_ranges ::
  "'w services \<Rightarrow> sizes \<Rightarrow> comparison_inputs \<Rightarrow> summaries \<Rightarrow> ('w, completed_artifact) gen" where
  "compare_ranges sv z ci sm =
     wbind (comparison_loop sv z ci (sm_validated sm) (sm_read_deadline sm) (sm_reference sm) (sm_target sm)
       [root_segment (sm_reference sm) (sm_target sm)] (sm_usage sm) (sm_progress sm)) (\<lambda>(u, p).
     completed_comparison sv ci sm u p)"

text \<open>What follows the summaries.\<close>

definition conclude_comparison ::
  "'w services \<Rightarrow> sizes \<Rightarrow> comparison_inputs \<Rightarrow> summaries \<Rightarrow> result_reason option \<Rightarrow> ('w, completed_result) gen" where
  "conclude_comparison sv z ci sm violation =
     (if ks_invalid_key_count (sm_reference sm) > 0 \<or> ks_invalid_key_count (sm_target sm) > 0 then
        wbind (raised (result_metrics_of (sm_usage sm))) (\<lambda>metrics.
        wraise (ComparisonKeyMappingError
          \<lparr>km_reference_summary = sm_reference sm, km_target_summary = sm_target sm, km_metrics = metrics,
           km_reference_full_scans = ug_reference_full_scans (sm_usage sm),
           km_target_full_scans = ug_target_full_scans (sm_usage sm),
           km_contract_violation_reason = violation\<rparr>))
      else
        (case violation of
           Some reason \<Rightarrow>
             wbind (inner (consume_source_usage sv (sm_usage sm) (ci_source_budget ci) 0
               (ug_coordinator_peak_bytes (sm_usage sm)))) (\<lambda>u.
             wbind (yield_progress ((sm_progress sm)\<lparr>pg_usage := u\<rparr>)) (\<lambda>_.
             wbind (inner (completed_structural_artifact sv ci (sm_reference sm) (sm_target sm) u reason)) (\<lambda>a.
             wreturn (CompletedStructural a))))
         | None \<Rightarrow>
             wbind (wrequire (rc_assurance_policy (ci_check ci) \<noteq> EXACT_REQUIRED)
               (Raised UnsupportedComparisonError)) (\<lambda>_.
             wbind (wrequire (\<not> (\<not> ks_usable_access_path (sm_reference sm) \<or> \<not> ks_usable_access_path (sm_target sm)))
               (Raised UnsupportedComparisonError)) (\<lambda>_.
             wbind (compare_ranges sv z ci sm) (\<lambda>a.
             wreturn (CompletedComparison a))))))"

definition run_comparison ::
  "'w services \<Rightarrow> sizes \<Rightarrow> comparison_inputs \<Rightarrow> progress \<Rightarrow> ('w, completed_result) gen" where
  "run_comparison sv z ci p =
     wbind (read_summaries sv z ci p) (\<lambda>sm.
     wbind (raised (structural_contract_violation_reason (sm_reference sm) (sm_target sm))) (\<lambda>violation.
     conclude_comparison sv z ci sm violation))"

text \<open>\<open>Interrupted\<close> is the raised \<open>ComparisonInterruptedError\<close>; every other exception escapes as it is.\<close>

datatype failure = Interrupted cause partial_artifact | Escaped cause

definition check_protocol :: "comparison_inputs \<Rightarrow> exn + unit" where
  "check_protocol ci =
     ebind (protocol_unless (cx_source_budget (ci_reference_context ci) = ci_source_budget ci)) (\<lambda>_.
     ebind (protocol_unless (cx_source_budget (ci_target_context ci) = ci_source_budget ci)) (\<lambda>_.
     ebind (protocol_unless (cx_source_direction (ci_reference_context ci) = REFERENCE)) (\<lambda>_.
     protocol_unless (cx_source_direction (ci_target_context ci) = TARGET))))"

definition execute_integer_key_comparison ::
  "'w services \<Rightarrow> sizes \<Rightarrow> comparison_inputs \<Rightarrow> 'w \<Rightarrow> (failure + completed_result) \<times> 'w" where
  "execute_integer_key_comparison sv z ci w =
     (case wbind (raised (check_protocol ci)) (\<lambda>_. source_snapshot sv (ci_source_budget ci)) w of
        (Inl e, w') \<Rightarrow> (Inl (Escaped e), w')
      | (Inr snapshot, w') \<Rightarrow>
          (let p = initial_comparison_progress snapshot in
           case run_comparison sv z ci p (w', p) of
             (Inr result, (w'', _)) \<Rightarrow> (Inr result, w'')
           | (Inl e, (w'', p')) \<Rightarrow>
               (if is_interruption e then
                  (case partial_comparison_artifact sv ci p' e w'' of
                     (Inr a, w3) \<Rightarrow> (Inl (Interrupted e a), w3)
                   | (Inl e', w3) \<Rightarrow> (Inl (Escaped e'), w3))
                else (Inl (Escaped e), w''))))"

end
