(* ===== verification/Comparison_Invariant.thy ===== *)
theory Comparison_Invariant
  imports Comparison_Engine
begin

text \<open>
  The invariant of a running comparison: what holds of every progress that the generator of
  \<open>Comparison_Engine\<close> yields, hence of the progress at any exception. The pending and the resolved
  segments partition the key range of the root, the sequences are \<open>0, 1, 2, ...\<close>, the tallies add up to
  the fingerprints of the resolved segments, and the retained evidence belongs to mismatched ones.
\<close>

section \<open>Partial correctness of generators\<close>

text \<open>\<open>gen_holds I m Q\<close>: run from a progress with \<open>I\<close>, the generator \<open>m\<close> leaves a progress with \<open>I\<close>, also
  when it raises, and a result with \<open>Q\<close>.\<close>

definition gen_holds :: "(progress \<Rightarrow> bool) \<Rightarrow> ('w, 'a) gen \<Rightarrow> ('a \<Rightarrow> bool) \<Rightarrow> bool" where
  "gen_holds I m Q \<longleftrightarrow>
     (\<forall>w q r w' q'. I q \<longrightarrow> m (w, q) = (r, (w', q')) \<longrightarrow> I q' \<and> (\<forall>x. r = Inr x \<longrightarrow> Q x))"

named_theorems gen_rules \<open>rules for \<open>gen_holds\<close>, with the strongest result of each step\<close>

lemma gen_holds_wreturn [gen_rules]: "Q x \<Longrightarrow> gen_holds I (wreturn x) Q"
  and gen_holds_wraise [gen_rules]: "gen_holds I (wraise e) Q"
  and gen_holds_inner: "(\<And>w x w'. f w = (Inr x, w') \<Longrightarrow> Q x) \<Longrightarrow> gen_holds I (inner f) Q"
  by (auto simp: gen_holds_def inner_iff)

lemma gen_holds_wbind:
  assumes "gen_holds I m R" "\<And>x. R x \<Longrightarrow> gen_holds I (k x) Q"
  shows "gen_holds I (wbind m k) Q"
  unfolding gen_holds_def
proof (intro allI impI)
  fix w q r w' q'
  assume "I q" and run: "wbind m k (w, q) = (r, (w', q'))"
  obtain r1 w1 q1 where m: "m (w, q) = (r1, (w1, q1))" by (cases "m (w, q)") auto
  then have q1: "I q1" "\<And>x. r1 = Inr x \<Longrightarrow> R x"
    using assms(1) \<open>I q\<close> unfolding gen_holds_def by blast+
  show "I q' \<and> (\<forall>x. r = Inr x \<longrightarrow> Q x)"
  proof (cases r1)
    case (Inl e)
    then show ?thesis using run m q1 by (auto simp: wbind_def)
  next
    case (Inr x)
    then have "k x (w1, q1) = (r, (w', q'))" using run m by (auto simp: wbind_def)
    then show ?thesis using assms(2) [OF q1(2) [OF Inr]] q1(1) unfolding gen_holds_def by blast
  qed
qed

lemma gen_bind_raised [gen_rules]:
  "(\<And>x. r = Inr x \<Longrightarrow> gen_holds I (k x) Q) \<Longrightarrow> gen_holds I (wbind (raised r) k) Q"
  by (rule gen_holds_wbind [where R = "\<lambda>x. r = Inr x"]) (auto simp: gen_holds_def raised_iffs)

lemma gen_bind_inner [gen_rules]:
  "(\<And>w x w'. f w = (Inr x, w') \<Longrightarrow> gen_holds I (k x) Q) \<Longrightarrow> gen_holds I (wbind (inner f) k) Q"
  by (rule gen_holds_wbind [where R = "\<lambda>x. \<exists>w w'. f w = (Inr x, w')"]) (auto simp: gen_holds_def inner_iff)

lemma gen_bind_wrequire [gen_rules]:
  "(c \<Longrightarrow> gen_holds I (k ()) Q) \<Longrightarrow> gen_holds I (wbind (wrequire c e) k) Q"
  by (rule gen_holds_wbind [where R = "\<lambda>_. c"]) (auto simp: gen_holds_def split: if_splits)

lemma gen_bind_yield [gen_rules]:
  "I p \<Longrightarrow> gen_holds I (k ()) Q \<Longrightarrow> gen_holds I (wbind (yield_progress p) k) Q"
  by (rule gen_holds_wbind [where R = "\<lambda>_. True"]) (auto simp: gen_holds_def yield_progress_iff)

lemma gen_bind_if_yield [gen_rules]:
  "(\<not> c \<Longrightarrow> I p) \<Longrightarrow> gen_holds I (k ()) Q \<Longrightarrow>
   gen_holds I (wbind (if c then wreturn () else yield_progress p) k) Q"
  by (cases c) (auto intro: gen_bind_yield)

lemma gen_holds_mono: "gen_holds I m R \<Longrightarrow> (\<And>x. R x \<Longrightarrow> Q x) \<Longrightarrow> gen_holds I m Q"
  unfolding gen_holds_def by blast

section \<open>Segments and sequences\<close>

definition record_segment :: "segment_record \<Rightarrow> pending_segment" where
  "record_segment r =
     \<lparr>pe_segment_sequence = sr_segment_sequence r, pe_parent_segment_sequence = sr_parent_segment_sequence r,
      pe_depth = sr_depth r, pe_lower_inclusive = sr_lower_inclusive r,
      pe_upper_exclusive = sr_upper_exclusive r\<rparr>"

definition resolved :: "segment_record list \<Rightarrow> segment_record list" where
  "resolved ts = filter (\<lambda>r. sr_state r \<noteq> SPLIT) ts"

text \<open>How many of the segments hold a key.\<close>

definition holders :: "int \<Rightarrow> pending_segment list \<Rightarrow> nat" where
  "holders k ss = length (filter (\<lambda>s. k \<in> segment_keys s) ss)"

definition sequences :: "pending_segment list \<Rightarrow> segment_record list \<Rightarrow> int list" where
  "sequences ps ts = map sr_segment_sequence ts @ map pe_segment_sequence ps"

definition partition_ok :: "pending_segment \<Rightarrow> int \<Rightarrow> pending_segment list \<Rightarrow> segment_record list \<Rightarrow> bool" where
  "partition_ok whole depth ps ts \<longleftrightarrow>
     wf_pending whole \<and> (\<forall>s \<in> set ps. wf_pending s \<and> pe_depth s \<le> depth) \<and>
     (\<forall>r \<in> set ts. mk_ComparisonSegmentRecord r = Inr r \<and> sr_depth r \<le> depth) \<and>
     distinct (sequences ps ts) \<and> set (sequences ps ts) = {0..<int (length ps + length ts)} \<and>
     (\<forall>k. holders k (ps @ map record_segment (resolved ts)) = of_bool (k \<in> segment_keys whole))"

lemma holders_simps [simp]:
  "holders k [] = 0"
  "holders k (s # ss) = of_bool (k \<in> segment_keys s) + holders k ss"
  "holders k (ss @ ss') = holders k ss + holders k ss'"
  by (simp_all add: holders_def)

lemma resolved_simps [simp]:
  "resolved [] = []"
  "resolved (ts @ ts') = resolved ts @ resolved ts'"
  "resolved [r] = (if sr_state r = SPLIT then [] else [r])"
  by (simp_all add: resolved_def)

lemma without_pending_sequence_split:
  assumes "distinct (map pe_segment_sequence (xs @ s # ys))"
  shows "without_pending_sequence (xs @ s # ys) (pe_segment_sequence s) = xs @ ys"
proof -
  have "pe_segment_sequence x \<noteq> pe_segment_sequence s" if "x \<in> set xs \<or> x \<in> set ys" for x
    using assms that by (metis Un_iff distinct.simps(2) distinct_append image_eqI list.simps(9) map_append set_map disjoint_iff list.set_intros(1))
  then have "filter (\<lambda>x. pe_segment_sequence x \<noteq> pe_segment_sequence s) xs = xs"
    "filter (\<lambda>x. pe_segment_sequence x \<noteq> pe_segment_sequence s) ys = ys"
    by (simp_all add: filter_id_conv)
  then show ?thesis by (simp add: without_pending_sequence_def)
qed

lemma record_segment_sequence [simp]: "pe_segment_sequence (record_segment r) = sr_segment_sequence r"
  and record_segment_depth [simp]: "pe_depth (record_segment r) = sr_depth r"
  by (simp_all add: record_segment_def)

text \<open>A pending segment becomes resolved.\<close>

lemma partition_ok_resolve:
  assumes "partition_ok whole depth (xs @ s # ys) ts"
    and "record_segment r = s" "sr_state r \<noteq> SPLIT" "mk_ComparisonSegmentRecord r = Inr r"
  shows "partition_ok whole depth (xs @ ys) (ts @ [r])"
proof -
  have seq: "sr_segment_sequence r = pe_segment_sequence s" "sr_depth r = pe_depth s"
    using assms(2) by auto
  then have "mset (sequences (xs @ ys) (ts @ [r])) = mset (sequences (xs @ s # ys) ts)"
    by (simp add: sequences_def)
  then have "distinct (sequences (xs @ ys) (ts @ [r])) \<and>
      set (sequences (xs @ ys) (ts @ [r])) = set (sequences (xs @ s # ys) ts)"
    using assms(1) mset_eq_imp_distinct_iff mset_eq_setD unfolding partition_ok_def by metis
  moreover have "holders k ((xs @ ys) @ map record_segment (resolved (ts @ [r]))) =
      holders k ((xs @ s # ys) @ map record_segment (resolved ts))" for k
    using assms(2,3) by simp
  ultimately show ?thesis
    using assms(1,4) seq(2) unfolding partition_ok_def by (simp only: ball_simps set_append set_simps length_append list.size) simp
qed

text \<open>A pending segment is replaced by the two halves of its range.\<close>

lemma partition_ok_split:
  assumes ok: "partition_ok whole depth (xs @ s # ys) ts"
    and r: "record_segment r = s" "sr_state r = SPLIT" "mk_ComparisonSegmentRecord r = Inr r"
    and split: "split_segment s n = Some (a, b)" and n: "n = int (length (xs @ s # ys) + length ts)"
    and depth: "pe_depth a \<le> depth" "pe_depth b \<le> depth"
  shows "partition_ok whole depth (xs @ [a, b] @ ys) (ts @ [r])"
proof -
  have s: "wf_pending s" "pe_segment_sequence s < n" "pe_depth s \<le> depth"
    using ok n unfolding partition_ok_def sequences_def by auto
  note fields = split_segment_fields [OF split] and keys = split_segment_keys [OF split]
  have seq: "sr_segment_sequence r = pe_segment_sequence s" "sr_depth r = pe_depth s" using r(1) by auto
  have m: "mset (sequences (xs @ [a, b] @ ys) (ts @ [r])) = mset (sequences (xs @ s # ys) ts @ [n, n + 1])"
    using seq fields by (simp add: sequences_def)
  have base: "distinct (sequences (xs @ s # ys) ts)" "set (sequences (xs @ s # ys) ts) = {0..<n}"
    using ok n unfolding partition_ok_def by auto
  have "distinct (sequences (xs @ s # ys) ts @ [n, n + 1])" using base by auto
  then have "distinct (sequences (xs @ [a, b] @ ys) (ts @ [r]))"
    using m mset_eq_imp_distinct_iff by metis
  moreover have "set (sequences (xs @ [a, b] @ ys) (ts @ [r])) = {0..<n} \<union> {n, n + 1}"
    using m base by (metis mset_eq_setD set_append list.simps(15) empty_set)
  moreover have "{0..<n} \<union> {n, n + 1} = {0..<int (length (xs @ [a, b] @ ys) + length (ts @ [r]))}"
    using n by auto
  moreover have "holders k ((xs @ [a, b] @ ys) @ map record_segment (resolved (ts @ [r]))) =
      holders k ((xs @ s # ys) @ map record_segment (resolved ts))" for k
    using keys(1,2) r(2) by auto
  ultimately show ?thesis
    using ok r(3) seq s(3) split_segment_wf [OF split s(1,2)] depth
    unfolding partition_ok_def by (simp only: ball_simps set_append set_simps) simp
qed

section \<open>Tallies\<close>

definition reference_rows :: "segment_state set \<Rightarrow> segment_record list \<Rightarrow> int" where
  "reference_rows states ts =
     sum_list (map (\<lambda>r. fp_count (sr_reference_fingerprint r)) (filter (\<lambda>r. sr_state r \<in> states) ts))"

definition target_rows :: "segment_state set \<Rightarrow> segment_record list \<Rightarrow> int" where
  "target_rows states ts =
     sum_list (map (\<lambda>r. fp_count (sr_target_fingerprint r)) (filter (\<lambda>r. sr_state r \<in> states) ts))"

definition difference_count :: "exact_counts \<Rightarrow> int" where
  "difference_count c = xc_missing c + xc_extra c + xc_modified c"

definition tally_ok :: "execution_budgets \<Rightarrow> progress \<Rightarrow> bool" where
  "tally_ok b p \<longleftrightarrow>
     (let c = pg_exact_counts p; ts = pg_topology p in
      pg_pruned_segments p = count_state {FINGERPRINT_MATCH} ts \<and>
      pg_exact_segments p = count_state {EXACT_MATCH, EXACT_MISMATCH} ts \<and>
      pg_pruned_matched p = reference_rows {FINGERPRINT_MATCH} ts \<and>
      0 \<le> xc_matched c \<and> 0 \<le> xc_missing c \<and> 0 \<le> xc_extra c \<and> 0 \<le> xc_modified c \<and>
      xc_matched c + xc_missing c + xc_modified c = reference_rows {EXACT_MATCH, EXACT_MISMATCH} ts \<and>
      xc_matched c + xc_extra c + xc_modified c = target_rows {EXACT_MATCH, EXACT_MISMATCH} ts \<and>
      (difference_count c > 0 \<longleftrightarrow> (\<exists>r \<in> set ts. sr_state r = EXACT_MISMATCH)) \<and>
      pg_found_records p = difference_count c \<and>
      retention_ok b (progress_retention p) \<and>
      (\<forall>a \<in> set (pg_anomalies p). \<exists>r \<in> set ts.
         sr_segment_sequence r = dr_segment_sequence a \<and> sr_state r = EXACT_MISMATCH))"

definition usage_ok :: "usage \<Rightarrow> bool" where
  "usage_ok u \<longleftrightarrow> 0 \<le> ug_coordinator_peak_bytes u \<and> 0 \<le> ug_fingerprint_nodes u"

definition progress_ok :: "pending_segment \<Rightarrow> execution_budgets \<Rightarrow> progress \<Rightarrow> bool" where
  "progress_ok whole b p \<longleftrightarrow>
     partition_ok whole (eb_max_depth b) (pg_pending p) (pg_topology p) \<and> tally_ok b p \<and>
     (\<forall>n \<in> set (pg_mismatch_witnesses p). \<not> nodes_agree n) \<and> usage_ok (pg_usage p)"

lemma count_state_append [simp]:
  "count_state states (ts @ [r]) = count_state states ts + of_bool (sr_state r \<in> states)"
  by (simp add: count_state_def)

lemma rows_append [simp]:
  "reference_rows states (ts @ [r]) =
     reference_rows states ts + (if sr_state r \<in> states then fp_count (sr_reference_fingerprint r) else 0)"
  "target_rows states (ts @ [r]) =
     target_rows states ts + (if sr_state r \<in> states then fp_count (sr_target_fingerprint r) else 0)"
  by (simp_all add: reference_rows_def target_rows_def)

lemma segment_record_of_result:
  assumes "segment_record_of node st = Inr r"
  shows "record_segment r = fn_segment node" "sr_state r = st" "mk_ComparisonSegmentRecord r = Inr r"
    "sr_reference_fingerprint r = rf_fingerprint (fn_reference node)"
    "sr_target_fingerprint r = rf_fingerprint (fn_target node)"
  using assms
  by (auto simp: segment_record_of_def Let_def mk_ComparisonSegmentRecord_def result_iffs record_segment_def)

lemma progress_ok_usage:
  assumes "progress_ok whole b p" "usage_ok u"
  shows "progress_ok whole b (p\<lparr>pg_usage := u\<rparr>)"
  using assms by (simp add: progress_ok_def tally_ok_def progress_retention_def)

lemma consume_source_usage_ok:
  "consume_source_usage sv u a n peak w = (Inr u', w') \<Longrightarrow> usage_ok u \<Longrightarrow> 0 \<le> n \<Longrightarrow> usage_ok u'"
  by (auto simp: consume_source_usage_def weff_iffs usage_ok_def)

lemma usage_with_coordinator_peak_ok [simp]: "usage_ok u \<Longrightarrow> usage_ok (usage_with_coordinator_peak u n)"
  by (auto simp: usage_ok_def usage_with_coordinator_peak_def)

lemma read_fingerprint_level_usage:
  assumes "read_fingerprint_level sv ci vi u d plan w = (Inr (r, t, u'), w')" "usage_ok u"
  shows "usage_ok u'"
  using assms by (auto simp: read_fingerprint_level_def Let_def weff_iffs dest: consume_source_usage_ok split: prod.splits)

lemma read_exact_frontier_usage:
  assumes "read_exact_frontier sv ci vi nodes res u d w = (Inr (r, t, u'), w')" "usage_ok u"
  shows "usage_ok u'"
  using assms by (auto simp: read_exact_frontier_def Let_def weff_iffs dest: consume_source_usage_ok split: prod.splits)

section \<open>Steps of the generator\<close>

lemma pending_distinct:
  "partition_ok whole d ps ts \<Longrightarrow> distinct (map pe_segment_sequence ps)"
  by (simp add: partition_ok_def sequences_def)

lemma partition_ok_resolve_pending:
  assumes ok: "partition_ok whole d ps ts" and s: "s \<in> set ps"
    and r: "record_segment r = s" "sr_state r \<noteq> SPLIT" "mk_ComparisonSegmentRecord r = Inr r"
  shows "partition_ok whole d (without_pending_sequence ps (pe_segment_sequence s)) (ts @ [r])"
proof -
  obtain xs ys where ps: "ps = xs @ s # ys" using split_list [OF s] by blast
  show ?thesis
    using partition_ok_resolve [OF ok [unfolded ps] r] pending_distinct [OF ok]
    by (simp add: ps without_pending_sequence_split)
qed

lemma progress_ok_prune:
  assumes ok: "progress_ok whole b p" and s: "fn_segment node \<in> set (pg_pending p)"
    and r: "segment_record_of node FINGERPRINT_MATCH = Inr r"
  shows "progress_ok whole b (p\<lparr>pg_topology := pg_topology p @ [r],
    pg_pending := without_pending_sequence (pg_pending p) (pe_segment_sequence (fn_segment node)),
    pg_pruned_matched := pg_pruned_matched p + fp_count (rf_fingerprint (fn_reference node)),
    pg_pruned_segments := pg_pruned_segments p + 1\<rparr>)"
proof -
  note r' = segment_record_of_result [OF r]
  have "partition_ok whole (eb_max_depth b)
      (without_pending_sequence (pg_pending p) (pe_segment_sequence (fn_segment node))) (pg_topology p @ [r])"
    using ok s r' by (intro partition_ok_resolve_pending) (auto simp: progress_ok_def)
  then show ?thesis
    using ok r' by (auto simp: progress_ok_def tally_ok_def Let_def progress_retention_def)
qed

lemma without_pending_sequence_filter:
  "without_pending_sequence (filter P ps) n = filter (\<lambda>s. P s \<and> pe_segment_sequence s \<noteq> n) ps"
  by (simp add: without_pending_sequence_def conj_commute)

lemma prune_loop_holds:
  assumes "progress_ok whole b p" "fn_segment ` set nodes \<subseteq> set (pg_pending p)"
    "distinct (map (\<lambda>n. pe_segment_sequence (fn_segment n)) nodes)"
  shows "gen_holds (progress_ok whole b) (prune_loop clock d i nodes p)
    (\<lambda>p'. progress_ok whole b p' \<and>
       pg_pending p' = filter (\<lambda>s. pe_segment_sequence s \<notin> (\<lambda>n. pe_segment_sequence (fn_segment n)) ` set nodes) (pg_pending p) \<and>
       length (pg_topology p') = length (pg_topology p) + length nodes \<and> pg_usage p' = pg_usage p \<and>
       pg_mismatch_witnesses p' = pg_mismatch_witnesses p)"
  using assms
proof (induction nodes arbitrary: i p)
  case Nil
  then show ?case unfolding prune_loop.simps by (intro gen_rules) simp
next
  case (Cons node nodes)
  show ?case
    unfolding prune_loop.simps Let_def
  proof (intro gen_rules)
    fix r
    assume r: "segment_record_of node FINGERPRINT_MATCH = Inr r"
    let ?p = "p\<lparr>pg_topology := pg_topology p @ [r],
      pg_pending := without_pending_sequence (pg_pending p) (pe_segment_sequence (fn_segment node)),
      pg_pruned_matched := pg_pruned_matched p + fp_count (rf_fingerprint (fn_reference node)),
      pg_pruned_segments := pg_pruned_segments p + 1\<rparr>"
    show ok: "progress_ok whole b ?p"
      using Cons.prems r by (intro progress_ok_prune) auto
    have "fn_segment ` set nodes \<subseteq> set (pg_pending ?p)"
      using Cons.prems by (auto simp: without_pending_sequence_def image_iff)
    moreover have "distinct (map (\<lambda>n. pe_segment_sequence (fn_segment n)) nodes)"
      using Cons.prems(3) by simp
    ultimately show "gen_holds (progress_ok whole b) (prune_loop clock d (Suc i) nodes ?p)
      (\<lambda>p'. progress_ok whole b p' \<and>
         pg_pending p' = filter (\<lambda>s. pe_segment_sequence s \<notin> (\<lambda>n. pe_segment_sequence (fn_segment n)) ` set (node # nodes)) (pg_pending p) \<and>
         length (pg_topology p') = length (pg_topology p) + length (node # nodes) \<and> pg_usage p' = pg_usage p \<and>
         pg_mismatch_witnesses p' = pg_mismatch_witnesses p)"
      by (rule gen_holds_mono [OF Cons.IH [OF ok]]) (auto simp: without_pending_sequence_def conj_commute)
  qed
qed

lemma compare_rows_loop_counts:
  assumes "compare_rows_loop clock d seq n c ds R T w = (Inr (c', ds'), w')"
    "\<forall>x \<in> set ds. xd_segment_sequence x = seq"
  shows "difference_count c' - int (length ds') = difference_count c - int (length ds) \<and>
    0 \<le> xc_matched c' \<and> 0 \<le> xc_missing c' \<and> 0 \<le> xc_extra c' \<and> 0 \<le> xc_modified c' \<and>
    (\<forall>x \<in> set ds'. xd_segment_sequence x = seq)"
  using assms
proof (induction clock d seq n c ds R T arbitrary: w rule: compare_rows_loop.induct)
  case (1 clock d seq n c ds r rs t ts)
  then show ?case
    by (fastforce simp: weff_iffs difference_count_def missing_difference_def extra_difference_def
        modified_difference_def split: if_splits)
next
  case (2 clock d seq n c ds r rs)
  then show ?case by (fastforce simp: weff_iffs difference_count_def missing_difference_def)
next
  case (3 clock d seq n c ds t ts)
  then show ?case by (fastforce simp: weff_iffs difference_count_def extra_difference_def)
next
  case (4 clock d seq n c ds)
  then show ?case by (auto simp: weff_iffs raised_iffs mk_ExactCounts_iff difference_count_def)
qed

lemma classify_exact_leaf_result:
  assumes "classify_exact_leaf clock d node R T w = (Inr (c, r, ds), w')"
  shows "segment_record_of node (if difference_count c = 0 then EXACT_MATCH else EXACT_MISMATCH) = Inr r"
    and "0 \<le> xc_matched c" "0 \<le> xc_missing c" "0 \<le> xc_extra c" "0 \<le> xc_modified c"
    and "xc_matched c + xc_missing c + xc_modified c = fp_count (rf_fingerprint (fn_reference node))"
    and "xc_matched c + xc_extra c + xc_modified c = fp_count (rf_fingerprint (fn_target node))"
    and "int (length ds) = difference_count c"
    and "\<forall>x \<in> set ds. xd_segment_sequence x = pe_segment_sequence (fn_segment node)"
    and "\<exists>w1 w2. compare_exact_rows clock d R T (pe_segment_sequence (fn_segment node)) w1 = (Inr (c, ds), w2)"
proof -
  obtain w1 w2 where run: "compare_exact_rows clock d R T (pe_segment_sequence (fn_segment node)) w1 = (Inr (c, ds), w2)"
    and r: "segment_record_of node (if difference_count c = 0 then EXACT_MATCH else EXACT_MISMATCH) = Inr r"
    and sums: "xc_matched c + xc_missing c + xc_modified c = fp_count (rf_fingerprint (fn_reference node))"
      "xc_matched c + xc_extra c + xc_modified c = fp_count (rf_fingerprint (fn_target node))"
    using assms
    by (auto simp: classify_exact_leaf_def Let_def weff_iffs raised_iffs difference_count_def split: prod.splits if_splits)
  show "segment_record_of node (if difference_count c = 0 then EXACT_MATCH else EXACT_MISMATCH) = Inr r"
    "xc_matched c + xc_missing c + xc_modified c = fp_count (rf_fingerprint (fn_reference node))"
    "xc_matched c + xc_extra c + xc_modified c = fp_count (rf_fingerprint (fn_target node))"
    using r sums by auto
  show "\<exists>w1 w2. compare_exact_rows clock d R T (pe_segment_sequence (fn_segment node)) w1 = (Inr (c, ds), w2)"
    using run by blast
  from compare_rows_loop_counts [OF run [unfolded compare_exact_rows_def]]
  show "0 \<le> xc_matched c" "0 \<le> xc_missing c" "0 \<le> xc_extra c" "0 \<le> xc_modified c"
    "int (length ds) = difference_count c"
    "\<forall>x \<in> set ds. xd_segment_sequence x = pe_segment_sequence (fn_segment node)"
    by (auto simp: zero_counts_def difference_count_def)
qed

lemma add_exact_counts_result:
  "add_exact_counts a b = Inr c \<Longrightarrow>
     xc_matched c = xc_matched a + xc_matched b \<and> xc_missing c = xc_missing a + xc_missing b \<and>
     xc_extra c = xc_extra a + xc_extra b \<and> xc_modified c = xc_modified a + xc_modified b"
  by (auto simp: add_exact_counts_def mk_ExactCounts_iff)

lemma tally_ok_retention: "tally_ok b p \<Longrightarrow> retention_ok b (progress_retention p)"
  by (simp add: tally_ok_def Let_def)

lemma progress_retention_update [simp]:
  "progress_retention (p\<lparr>pg_exact_counts := c, pg_exact_segments := n, pg_topology := ts, pg_pending := ps,
     pg_mismatch_witnesses := ws\<rparr>) = progress_retention p"
  by (simp add: progress_retention_def)

lemma tally_ok_exact:
  assumes ok: "tally_ok b p" and c: "add_exact_counts (pg_exact_counts p) c = Inr c'"
    and r: "sr_state r = (if difference_count c = 0 then EXACT_MATCH else EXACT_MISMATCH)"
    and nonneg: "0 \<le> xc_matched c" "0 \<le> xc_missing c" "0 \<le> xc_extra c" "0 \<le> xc_modified c"
    and sums: "xc_matched c + xc_missing c + xc_modified c = fp_count (sr_reference_fingerprint r)"
      "xc_matched c + xc_extra c + xc_modified c = fp_count (sr_target_fingerprint r)"
    and ds: "int (length ds) = difference_count c"
      "\<forall>x \<in> set ds. xd_segment_sequence x = sr_segment_sequence r"
    and p1: "p1 = p\<lparr>pg_exact_counts := c', pg_exact_segments := pg_exact_segments p + 1,
      pg_topology := pg_topology p @ [r], pg_pending := ps, pg_mismatch_witnesses := ws\<rparr>"
    and ret: "retain_exact_differences clock p1 ds check policy b d w = (Inr p', w')"
  shows "tally_ok b p'"
proof -
  have "retention_ok b (progress_retention p1)"
    using tally_ok_retention [OF ok] by (simp add: p1)
  note res = retain_exact_differences_ok [OF ret this]
  obtain new where new: "pg_anomalies p' = pg_anomalies p @ new"
      "dr_segment_sequence ` set new \<subseteq> xd_segment_sequence ` set ds"
    using res(3) by (auto simp: p1)
  have fields: "pg_exact_counts p' = c'" "pg_exact_segments p' = pg_exact_segments p + 1"
    "pg_topology p' = pg_topology p @ [r]" "pg_pruned_matched p' = pg_pruned_matched p"
    "pg_pruned_segments p' = pg_pruned_segments p"
    by (subst res(4), simp add: p1)+
  have c': "xc_matched c' = xc_matched (pg_exact_counts p) + xc_matched c"
    "xc_missing c' = xc_missing (pg_exact_counts p) + xc_missing c"
    "xc_extra c' = xc_extra (pg_exact_counts p) + xc_extra c"
    "xc_modified c' = xc_modified (pg_exact_counts p) + xc_modified c"
    using add_exact_counts_result [OF c] by auto
  then have dc: "difference_count c' = difference_count (pg_exact_counts p) + difference_count c"
    by (simp add: difference_count_def)
  have pos: "0 \<le> difference_count c" "0 \<le> difference_count (pg_exact_counts p)"
    using nonneg ok by (auto simp: difference_count_def tally_ok_def Let_def)
  have mis: "sr_state r = EXACT_MISMATCH" "dr_segment_sequence a = sr_segment_sequence r" if "a \<in> set new" for a
  proof -
    obtain x where "x \<in> set ds" "dr_segment_sequence a = xd_segment_sequence x"
      using new(2) \<open>a \<in> set new\<close> by blast
    then have "length ds \<noteq> 0" "xd_segment_sequence x = sr_segment_sequence r" using ds(2) by auto
    then show "sr_state r = EXACT_MISMATCH" "dr_segment_sequence a = sr_segment_sequence r"
      using ds(1) r \<open>dr_segment_sequence a = xd_segment_sequence x\<close> by auto
  qed
  have anomalies: "\<exists>x \<in> set (pg_topology p'). sr_segment_sequence x = dr_segment_sequence a \<and> sr_state x = EXACT_MISMATCH"
    if "a \<in> set (pg_anomalies p')" for a
  proof (cases "a \<in> set new")
    case True
    then show ?thesis using mis [OF True] by (auto simp: fields)
  next
    case False
    then have "a \<in> set (pg_anomalies p)" using that new(1) by auto
    then show ?thesis using ok by (fastforce simp: tally_ok_def Let_def fields)
  qed
  have found: "pg_found_records p' = difference_count c'"
    using res(2) ds(1) dc ok by (simp add: p1 tally_ok_def Let_def)
  have ex: "difference_count c' > 0 \<longleftrightarrow> (\<exists>x \<in> set (pg_topology p'). sr_state x = EXACT_MISMATCH)"
    using ok pos dc r by (auto simp: tally_ok_def Let_def fields)
  note old = ok [unfolded tally_ok_def Let_def]
  show ?thesis
    unfolding tally_ok_def Let_def fields(1,4,5)
  proof (intro conjI)
    show "pg_pruned_segments p = count_state {FINGERPRINT_MATCH} (pg_topology p')"
      "pg_exact_segments p' = count_state {EXACT_MATCH, EXACT_MISMATCH} (pg_topology p')"
      "pg_pruned_matched p = reference_rows {FINGERPRINT_MATCH} (pg_topology p')"
      using old r by (simp_all add: fields)
    show "0 \<le> xc_matched c'" "0 \<le> xc_missing c'" "0 \<le> xc_extra c'" "0 \<le> xc_modified c'"
      using old nonneg by (simp_all add: c')
    show "xc_matched c' + xc_missing c' + xc_modified c' = reference_rows {EXACT_MATCH, EXACT_MISMATCH} (pg_topology p')"
      "xc_matched c' + xc_extra c' + xc_modified c' = target_rows {EXACT_MATCH, EXACT_MISMATCH} (pg_topology p')"
      using old sums r by (simp_all add: c' fields)
  qed (use ex found res(1) anomalies in blast)+
qed

lemma exact_leaf_holds:
  assumes ok: "progress_ok whole b p" and s: "fn_segment node \<in> set (pg_pending p)" and b: "b = ci_budgets ci"
  shows "gen_holds (progress_ok whole b) (exact_leaf sv ci d rr tr node p)
    (\<lambda>p'. progress_ok whole b p' \<and>
       pg_pending p' = without_pending_sequence (pg_pending p) (pe_segment_sequence (fn_segment node)) \<and>
       length (pg_topology p') = length (pg_topology p) + 1 \<and> pg_usage p' = pg_usage p)"
  unfolding exact_leaf_def Let_def
proof (intro gen_rules, simp only: split_paired_all prod.case, intro gen_rules)
  fix R T w c r ds w' c' w1 p' w1'
  assume cl: "classify_exact_leaf (sv_clock sv) d node R T w = (Inr (c, r, ds), w')"
    and c': "add_exact_counts (pg_exact_counts p) c = Inr c'"
    and ret: "retain_exact_differences (sv_clock sv)
        (p\<lparr>pg_exact_counts := c', pg_exact_segments := pg_exact_segments p + 1,
           pg_topology := pg_topology p @ [r],
           pg_pending := without_pending_sequence (pg_pending p) (pe_segment_sequence (fn_segment node)),
           pg_mismatch_witnesses :=
             without_mismatch_witness (pg_mismatch_witnesses p) (pe_segment_sequence (fn_segment node))\<rparr>)
        ds (ci_check ci) (ci_evidence_policy ci) (ci_budgets ci) d w1 = (Inr p', w1')"
  note cl' = classify_exact_leaf_result [OF cl]
  note r = segment_record_of_result [OF cl'(1)]
  have seq: "sr_segment_sequence r = pe_segment_sequence (fn_segment node)"
    using r(1) by (metis record_segment_sequence)
  have tally: "tally_ok b p'"
    by (rule tally_ok_exact [OF _ c' r(2) cl'(2-5) _ _ cl'(8) _ refl ret [folded b]])
      (use ok cl' r seq in \<open>auto simp: progress_ok_def\<close>)
  have "retention_ok b (progress_retention (p\<lparr>pg_exact_counts := c', pg_exact_segments := pg_exact_segments p + 1,
           pg_topology := pg_topology p @ [r],
           pg_pending := without_pending_sequence (pg_pending p) (pe_segment_sequence (fn_segment node)),
           pg_mismatch_witnesses :=
             without_mismatch_witness (pg_mismatch_witnesses p) (pe_segment_sequence (fn_segment node))\<rparr>))"
    using ok tally_ok_retention by (simp add: progress_ok_def)
  note res = retain_exact_differences_ok(4) [OF ret [folded b] this]
  have fields: "pg_pending p' = without_pending_sequence (pg_pending p) (pe_segment_sequence (fn_segment node))"
    "pg_topology p' = pg_topology p @ [r]" "pg_usage p' = pg_usage p"
    "pg_mismatch_witnesses p' = without_mismatch_witness (pg_mismatch_witnesses p) (pe_segment_sequence (fn_segment node))"
    by (subst res, simp)+
  have "partition_ok whole (eb_max_depth b)
      (without_pending_sequence (pg_pending p) (pe_segment_sequence (fn_segment node))) (pg_topology p @ [r])"
    using ok s r by (intro partition_ok_resolve_pending) (auto simp: progress_ok_def split: if_splits)
  then show ok': "progress_ok whole b p'"
    using tally ok by (simp add: progress_ok_def fields without_mismatch_witness_def)
  show "progress_ok whole b p' \<and>
       pg_pending p' = without_pending_sequence (pg_pending p) (pe_segment_sequence (fn_segment node)) \<and>
       length (pg_topology p') = length (pg_topology p) + 1 \<and> pg_usage p' = pg_usage p"
    using ok' by (simp add: fields)
qed

lemma exact_leaves_loop_holds:
  assumes "progress_ok whole b p" "pg_pending p = map fn_segment nodes" "b = ci_budgets ci"
  shows "gen_holds (progress_ok whole b) (exact_leaves_loop sv ci d rr tr nodes p)
    (\<lambda>p'. progress_ok whole b p' \<and> pg_pending p' = [] \<and>
       length (pg_topology p') = length (pg_topology p) + length nodes \<and> pg_usage p' = pg_usage p)"
  using assms
proof (induction nodes arbitrary: p)
  case Nil
  then show ?case unfolding exact_leaves_loop.simps by (intro gen_rules) simp
next
  case (Cons node nodes)
  have "distinct (map pe_segment_sequence ([] @ fn_segment node # map fn_segment nodes))"
    using pending_distinct Cons.prems(1,2) by (fastforce simp: progress_ok_def)
  from without_pending_sequence_split [OF this]
  have pend: "without_pending_sequence (pg_pending p) (pe_segment_sequence (fn_segment node)) = map fn_segment nodes"
    using Cons.prems(2) by simp
  show ?case
    unfolding exact_leaves_loop.simps
  proof (rule gen_holds_wbind [OF exact_leaf_holds [OF Cons.prems(1) _ Cons.prems(3)]])
    show "fn_segment node \<in> set (pg_pending p)" using Cons.prems(2) by simp
  next
    fix p'
    assume p': "progress_ok whole b p' \<and>
       pg_pending p' = without_pending_sequence (pg_pending p) (pe_segment_sequence (fn_segment node)) \<and>
       length (pg_topology p') = length (pg_topology p) + 1 \<and> pg_usage p' = pg_usage p"
    show "gen_holds (progress_ok whole b) (exact_leaves_loop sv ci d rr tr nodes p')
      (\<lambda>q. progress_ok whole b q \<and> pg_pending q = [] \<and>
         length (pg_topology q) = length (pg_topology p) + length (node # nodes) \<and> pg_usage q = pg_usage p)"
      by (rule gen_holds_mono [OF Cons.IH]) (use p' pend Cons.prems(3) in auto)
  qed
qed

fun splits_ok :: "int \<Rightarrow> (fingerprint_node \<times> pending_segment \<times> pending_segment) list \<Rightarrow> bool" where
  "splits_ok n [] \<longleftrightarrow> True"
| "splits_ok n ((node, a, b) # rest) \<longleftrightarrow> split_segment (fn_segment node) n = Some (a, b) \<and> splits_ok (n + 2) rest"

lemma split_nodes_loop_result:
  "split_nodes_loop clock d i n nodes w = (Inr splits, w') \<Longrightarrow> splits_ok n splits \<and> map fst splits = nodes"
  by (induction nodes arbitrary: i n w splits w') (fastforce simp: weff_iffs split: option.splits prod.splits)+

lemma progress_ok_split:
  assumes ok: "progress_ok whole b p" and pend: "pg_pending p = xs @ fn_segment node # ys"
    and r: "segment_record_of node SPLIT = Inr r"
    and split: "split_segment (fn_segment node) n = Some (a, c)"
    and n: "n = int (length (pg_pending p) + length (pg_topology p))"
    and depth: "pe_depth a \<le> eb_max_depth b" "pe_depth c \<le> eb_max_depth b"
  shows "progress_ok whole b (p\<lparr>pg_topology := pg_topology p @ [r], pg_pending := xs @ [a, c] @ ys,
    pg_mismatch_witnesses := without_mismatch_witness (pg_mismatch_witnesses p) k\<rparr>)"
proof -
  note r' = segment_record_of_result [OF r]
  have "partition_ok whole (eb_max_depth b) (xs @ [a, c] @ ys) (pg_topology p @ [r])"
    by (rule partition_ok_split [OF _ r'(1,2,3) split _ depth])
      (use ok pend n in \<open>auto simp: progress_ok_def\<close>)
  moreover have "tally_ok b (p\<lparr>pg_topology := pg_topology p @ [r], pg_pending := xs @ [a, c] @ ys,
    pg_mismatch_witnesses := without_mismatch_witness (pg_mismatch_witnesses p) k\<rparr>)"
    using ok r'(2) by (auto simp: progress_ok_def tally_ok_def Let_def progress_retention_def)
  ultimately show ?thesis
    using ok by (simp add: progress_ok_def without_mismatch_witness_def)
qed

lemma publish_splits_loop_holds:
  assumes "progress_ok whole b p" "pg_pending p = processed @ map (\<lambda>(n, _). fn_segment n) splits"
    and "splits_ok (int (length (pg_pending p) + length (pg_topology p))) splits"
    and "\<forall>c \<in> set (children_of splits). pe_depth c \<le> eb_max_depth b"
  shows "gen_holds (progress_ok whole b) (publish_splits_loop processed splits p :: ('w, progress) gen)
    (\<lambda>p'. progress_ok whole b p' \<and> pg_pending p' = processed @ children_of splits \<and>
       length (pg_topology p') = length (pg_topology p) + length splits \<and> pg_usage p' = pg_usage p)"
  using assms
proof (induction splits arbitrary: p processed)
  case Nil
  then show ?case unfolding publish_splits_loop.simps by (intro gen_rules) (simp add: children_of_def)
next
  case (Cons x splits)
  obtain node a c where x: "x = (node, a, c)" by (cases x)
  show ?case
    unfolding x publish_splits_loop.simps Let_def
  proof (intro gen_rules)
    fix r
    assume r: "segment_record_of node SPLIT = Inr r"
    let ?p = "p\<lparr>pg_topology := pg_topology p @ [r],
      pg_pending := (processed @ [a, c]) @ map (\<lambda>(n, _). fn_segment n) splits,
      pg_mismatch_witnesses := without_mismatch_witness (pg_mismatch_witnesses p) (pe_segment_sequence (fn_segment node))\<rparr>"
    have "progress_ok whole b (p\<lparr>pg_topology := pg_topology p @ [r],
      pg_pending := processed @ [a, c] @ map (\<lambda>(n, _). fn_segment n) splits,
      pg_mismatch_witnesses := without_mismatch_witness (pg_mismatch_witnesses p) (pe_segment_sequence (fn_segment node))\<rparr>)"
      by (rule progress_ok_split [OF Cons.prems(1) _ r _ refl])
        (use Cons.prems x in \<open>auto simp: children_of_def\<close>)
    then show ok: "progress_ok whole b ?p" by simp
    have total: "int (length (pg_pending ?p) + length (pg_topology ?p)) =
        int (length (pg_pending p) + length (pg_topology p)) + 2"
      using Cons.prems(2) x by simp
    show "gen_holds (progress_ok whole b) (publish_splits_loop (processed @ [a, c]) splits ?p :: ('w, progress) gen)
      (\<lambda>p'. progress_ok whole b p' \<and> pg_pending p' = processed @ children_of ((node, a, c) # splits) \<and>
         length (pg_topology p') = length (pg_topology p) + length ((node, a, c) # splits) \<and> pg_usage p' = pg_usage p)"
    proof (rule gen_holds_mono [OF Cons.IH [OF ok]])
      show "splits_ok (int (length (pg_pending ?p) + length (pg_topology ?p))) splits"
        unfolding total using Cons.prems(3) x by simp
      show "\<forall>c \<in> set (children_of splits). pe_depth c \<le> eb_max_depth b"
        using Cons.prems(4) x by (auto simp: children_of_def)
    qed (auto simp: children_of_def)
  qed
qed

text \<open>The state between two iterations: the local variables agree with the progress, and every
  fingerprinted segment is in the topology.\<close>

definition level_ok ::
  "pending_segment \<Rightarrow> execution_budgets \<Rightarrow> pending_segment list \<times> usage \<times> progress \<Rightarrow> bool" where
  "level_ok whole b st \<longleftrightarrow>
     (case st of (pending, u, p) \<Rightarrow>
        progress_ok whole b p \<and> pg_pending p = pending \<and> pg_usage p = u \<and>
        ug_fingerprint_nodes u = int (length (pg_topology p)))"

lemma split_level_holds:
  assumes ok: "progress_ok whole b p" and b: "b = ci_budgets ci" and pend: "pg_pending p = map fn_segment nodes"
    and u: "pg_usage p = u" "ug_fingerprint_nodes u = int (length (pg_topology p) + length nodes)"
  shows "gen_holds (progress_ok whole b) (split_level sv ci d nodes u p) (level_ok whole b)"
  unfolding split_level_def Let_def
proof (intro gen_rules)
  fix w splits w'
  assume run: "split_nodes_loop (sv_clock sv) d 0 (ug_fingerprint_nodes u) nodes w = (Inr splits, w')"
    and depth: "\<not> list_ex (\<lambda>c. eb_max_depth (ci_budgets ci) < pe_depth c) (children_of splits)"
  have splits: "splits_ok (ug_fingerprint_nodes u) splits" "map fst splits = nodes"
    using split_nodes_loop_result [OF run] by auto
  have segs: "map (\<lambda>(n, _). fn_segment n) splits = map fn_segment nodes"
    by (simp add: splits(2) [symmetric] comp_def case_prod_unfold)
  have len: "length splits = length nodes" using splits(2) by (metis length_map)
  show "gen_holds (progress_ok whole b)
    (wbind (publish_splits_loop [] splits p) (\<lambda>p'. wreturn (children_of splits, u, p'))) (level_ok whole b)"
  proof (rule gen_holds_wbind [OF publish_splits_loop_holds [OF ok]])
    show "pg_pending p = [] @ map (\<lambda>(n, _). fn_segment n) splits" using pend segs by simp
    show "splits_ok (int (length (pg_pending p) + length (pg_topology p))) splits"
      using splits(1) u pend by (simp add: add.commute)
    show "\<forall>c \<in> set (children_of splits). pe_depth c \<le> eb_max_depth b"
      using depth b by (auto simp: list_ex_iff)
  next
    fix p'
    assume "progress_ok whole b p' \<and> pg_pending p' = [] @ children_of splits \<and>
       length (pg_topology p') = length (pg_topology p) + length splits \<and> pg_usage p' = pg_usage p"
    then show "gen_holds (progress_ok whole b) (wreturn (children_of splits, u, p')) (level_ok whole b)"
      using u len by (intro gen_rules) (simp add: level_ok_def)
  qed
qed

lemma exact_level_holds:
  assumes ok: "progress_ok whole b p" and b: "b = ci_budgets ci" and pend: "pg_pending p = map fn_segment nodes"
    and u: "pg_usage p = u" "ug_fingerprint_nodes u = int (length (pg_topology p) + length nodes)"
  shows "gen_holds (progress_ok whole b) (exact_level sv ci vi d nodes res u p) (level_ok whole b)"
proof -
  let ?u1 = "usage_with_coordinator_peak u (fr_coordinator_peak_bytes res)"
  let ?p1 = "p\<lparr>pg_usage := ?u1\<rparr>"
  have u1: "usage_ok ?u1" using ok u(1) by (simp add: progress_ok_def)
  then have ok1: "progress_ok whole b ?p1" using ok by (intro progress_ok_usage)
  show ?thesis
    unfolding exact_level_def Let_def
  proof (intro gen_rules ok1, simp only: split_paired_all prod.case, intro gen_rules, goal_cases)
    case (1 w x aa u2 w')
    have "usage_ok u2" using read_exact_frontier_usage [OF 1(1) u1] .
    then show ?case using progress_ok_usage [OF ok1] by simp
  next
    case (2 w r t u2 w' v groups v')
    have "usage_ok u2" using read_exact_frontier_usage [OF 2(1) u1] .
    then have ok2: "progress_ok whole b (?p1\<lparr>pg_usage := u2\<rparr>)" using progress_ok_usage [OF ok1] by simp
    have nodes: "ug_fingerprint_nodes u2 = ug_fingerprint_nodes u"
      using read_exact_frontier_nodes [OF 2(1)] by simp
    obtain rr tr where groups: "groups = (rr, tr)" by (cases groups)
    show ?case
      unfolding groups prod.case
    proof (rule gen_holds_wbind [OF exact_leaves_loop_holds [OF ok2 _ b]])
      show "pg_pending (?p1\<lparr>pg_usage := u2\<rparr>) = map fn_segment nodes" using pend by simp
    next
      fix p3
      assume "progress_ok whole b p3 \<and> pg_pending p3 = [] \<and>
         length (pg_topology p3) = length (pg_topology (?p1\<lparr>pg_usage := u2\<rparr>)) + length nodes \<and>
         pg_usage p3 = pg_usage (?p1\<lparr>pg_usage := u2\<rparr>)"
      then show "gen_holds (progress_ok whole b) (wreturn (pg_pending p3, u2, p3)) (level_ok whole b)"
        using nodes u by (intro gen_rules) (simp add: level_ok_def)
    qed
  qed
qed

lemma filter_unmatched:
  assumes "distinct (map (\<lambda>n. pe_segment_sequence (fn_segment n)) nodes)"
  shows "filter (\<lambda>s. pe_segment_sequence s \<notin> (\<lambda>n. pe_segment_sequence (fn_segment n)) ` set (filter P nodes))
      (map fn_segment nodes) = map fn_segment (filter (\<lambda>n. \<not> P n) nodes)"
proof -
  have "pe_segment_sequence (fn_segment n) \<notin> (\<lambda>n. pe_segment_sequence (fn_segment n)) ` set (filter P nodes) \<longleftrightarrow> \<not> P n"
    if "n \<in> set nodes" for n
    using inj_onD [OF distinct_map [THEN iffD1, OF assms, THEN conjunct2]] that by auto
  then show ?thesis by (simp add: filter_map comp_def cong: filter_cong)
qed

lemma progress_with_mismatch_witnesses_fields [simp]:
  "pg_pending (progress_with_mismatch_witnesses p nodes) = pg_pending p"
  "pg_topology (progress_with_mismatch_witnesses p nodes) = pg_topology p"
  "pg_usage (progress_with_mismatch_witnesses p nodes) = pg_usage p"
  by (simp_all add: progress_with_mismatch_witnesses_def Let_def)

lemma map_of_rev_mem:
  assumes "k \<in> fst ` set entries"
  shows "the (map_of (rev entries) k) \<in> snd ` set entries"
proof -
  have "k \<in> fst ` set (rev entries)" using assms unfolding set_rev .
  then obtain n where n: "map_of (rev entries) k = Some n" by (metis map_of_eq_None_iff not_None_eq)
  from map_of_SomeD [OF n] have "(k, n) \<in> set entries" by simp
  then show ?thesis using n by (metis image_eqI option.sel snd_conv)
qed

lemma pg_mismatch_witnesses_update: "pg_mismatch_witnesses (p\<lparr>pg_mismatch_witnesses := x\<rparr>) = x"
  by simp

lemma progress_with_mismatch_witnesses_mem:
  assumes "n \<in> set (pg_mismatch_witnesses (progress_with_mismatch_witnesses p nodes))"
  shows "n \<in> set (pg_mismatch_witnesses p) \<or> n \<in> set nodes"
proof -
  define entries where "entries = map (\<lambda>n. (pe_segment_sequence (fn_segment n), n)) (pg_mismatch_witnesses p @ nodes)"
  have "pg_mismatch_witnesses (progress_with_mismatch_witnesses p nodes) =
      map (\<lambda>k. the (map_of (rev entries) k)) (sorted_list_of_set (fst ` set entries))"
    unfolding progress_with_mismatch_witnesses_def Let_def entries_def pg_mismatch_witnesses_update ..
  with assms have "n \<in> (\<lambda>k. the (map_of (rev entries) k)) ` (fst ` set entries)"
    by (simp only: set_map set_sorted_list_of_set finite_set finite_imageI)
  then obtain k where k: "k \<in> fst ` set entries" "n = the (map_of (rev entries) k)"
    by (rule imageE)
  have "n \<in> snd ` set entries" unfolding k(2) by (rule map_of_rev_mem [OF k(1)])
  then show ?thesis by (auto simp: entries_def)
qed

lemma tally_ok_witnesses: "tally_ok b (p\<lparr>pg_mismatch_witnesses := x\<rparr>) \<longleftrightarrow> tally_ok b p"
  by (simp add: tally_ok_def progress_retention_def)

lemma progress_ok_witnesses:
  assumes ok: "progress_ok whole b p" and nodes: "\<forall>n \<in> set nodes. \<not> nodes_agree n"
  shows "progress_ok whole b (progress_with_mismatch_witnesses p nodes)"
proof -
  have "tally_ok b (progress_with_mismatch_witnesses p nodes) \<longleftrightarrow> tally_ok b p"
    by (simp only: progress_with_mismatch_witnesses_def Let_def tally_ok_witnesses)
  then show ?thesis
    using ok nodes progress_with_mismatch_witnesses_mem [of _ p nodes]
    unfolding progress_ok_def progress_with_mismatch_witnesses_fields by blast
qed

lemma comparison_level_holds:
  assumes ok: "level_ok whole b (pending, u, p)" and b: "b = ci_budgets ci"
  shows "gen_holds (progress_ok whole b) (comparison_level sv z ci vi d rs ts pending u p) (level_ok whole b)"
proof -
  have p: "progress_ok whole b p" "pg_pending p = pending" "pg_usage p = u"
    "ug_fingerprint_nodes u = int (length (pg_topology p))"
    using ok by (auto simp: level_ok_def)
  have "usage_ok u" using p by (auto simp: progress_ok_def)
  have dist: "distinct (map pe_segment_sequence pending)"
    using p pending_distinct by (auto simp: progress_ok_def)
  show ?thesis
    unfolding comparison_level_def Let_def
  proof (intro gen_rules, goal_cases)
    case (1 _ plan)
    show ?case using p(1) \<open>usage_ok u\<close> by (intro progress_ok_usage usage_with_coordinator_peak_ok)
  next
    case (2 _ plan w x w')
    obtain rf tf u2 where x: "x = (rf, tf, u2)" by (cases x)
    let ?p2 = "p\<lparr>pg_usage := usage_with_coordinator_peak u (lp_coordinator_peak_bytes plan)\<rparr>\<lparr>pg_usage := u2\<rparr>"
    have "usage_ok u2"
      using read_fingerprint_level_usage [OF 2(3) [unfolded x]] \<open>usage_ok u\<close> by simp
    then have ok2: "progress_ok whole b ?p2"
      using p(1) \<open>usage_ok u\<close> by (intro progress_ok_usage usage_with_coordinator_peak_ok)
    have "ug_fingerprint_nodes u2 = ug_fingerprint_nodes u + int (length pending)"
      using read_fingerprint_level_nodes [OF 2(3) [unfolded x]] plan_fingerprint_level_nodes [OF 2(2)]
      by (auto dest: traverse_length)
    then have nodes2: "ug_fingerprint_nodes u2 = int (length (pg_topology ?p2) + length pending)"
      using p(4) by simp
    show ?case
      unfolding x prod.case
    proof (intro gen_rules ok2, simp only: split_paired_all prod.case, intro gen_rules, goal_cases)
      case (1 v level_nodes v' _ y matching mismatching y')
      then show ?case
        unfolding if_not_P [OF 1(4)]
        by (intro progress_ok_witnesses [OF ok2]) (simp add: partition_fingerprint_nodes_result [OF 1(3)])
    next
      case (2 v level_nodes v' _ y matching mismatching y' _ _ _)
      note parts = partition_fingerprint_nodes_result [OF 2(3)]
      note segs = fingerprint_nodes_result(1) [OF 2(1)]
      define p3 where "p3 = (if mismatching = [] then ?p2 else progress_with_mismatch_witnesses ?p2 mismatching)"
      have ok3: "progress_ok whole b p3"
      proof (cases "mismatching = []")
        case True
        show ?thesis unfolding p3_def if_P [OF True] by (rule ok2)
      next
        case False
        have "\<forall>n \<in> set mismatching. \<not> nodes_agree n" by (simp add: parts)
        then show ?thesis unfolding p3_def if_not_P [OF False] by (rule progress_ok_witnesses [OF ok2])
      qed
      have fields: "pg_pending p3 = pending" "length (pg_topology p3) = length (pg_topology ?p2)" "pg_usage p3 = u2"
        using p(2) by (simp_all add: p3_def split: if_split)
      have dist': "distinct (map (\<lambda>n. pe_segment_sequence (fn_segment n)) level_nodes)"
        using dist unfolding segs [symmetric] map_map comp_def .
      have "distinct (map (\<lambda>n. pe_segment_sequence (fn_segment n)) matching)"
        using dist' parts(1) by (simp add: distinct_map_filter)
      moreover have "fn_segment ` set matching \<subseteq> set (pg_pending p3)"
        unfolding fields(1) unfolding segs [symmetric] parts(1) by auto
      ultimately show ?case
        unfolding p3_def [symmetric]
      proof (rule gen_holds_wbind [OF prune_loop_holds [OF ok3, rotated]], goal_cases)
        case (1 p4)
        from 1 have ok4: "progress_ok whole b p4" "pg_usage p4 = u2"
          "length (pg_topology p4) = length (pg_topology ?p2) + length matching"
          "pg_pending p4 = filter (\<lambda>s. pe_segment_sequence s \<notin> (\<lambda>n. pe_segment_sequence (fn_segment n)) ` set matching) pending"
          by (simp_all only: fields)
        have ok4': "pg_pending p4 = map fn_segment mismatching"
          unfolding ok4(4) unfolding segs [symmetric] parts by (rule filter_unmatched [OF dist'])
        have "length pending = length matching + length mismatching"
          unfolding parts segs [symmetric] length_map by (rule sum_length_filter_compl [symmetric])
        then have len: "ug_fingerprint_nodes u2 = int (length (pg_topology p4) + length mismatching)"
          using nodes2 ok4(3) by simp
        show ?case
        proof (cases "mismatching = []")
          case True
          then show ?thesis
            unfolding if_P [OF True] using ok4(1,2) ok4' len True by (intro gen_rules) (simp add: level_ok_def)
        next
          case False
          then show ?thesis
            unfolding if_not_P [OF False]
          proof (intro gen_rules, goal_cases)
            case (1 reservation w fits w')
            show ?case
              using exact_level_holds [OF ok4(1) b ok4' ok4(2) len] split_level_holds [OF ok4(1) b ok4' ok4(2) len]
              by (cases fits) simp_all
          qed
        qed
      qed
    qed
  qed
qed

lemma comparison_loop_run:
  assumes "comparison_loop sv z ci vi d rs ts pending u p s = (r, s')"
    and "level_ok whole (ci_budgets ci) (pending, u, p)" "progress_ok whole (ci_budgets ci) (snd s)"
  shows "progress_ok whole (ci_budgets ci) (snd s') \<and>
    (\<forall>u' p'. r = Inr (u', p') \<longrightarrow> level_ok whole (ci_budgets ci) ([], u', p'))"
  using assms
proof (induction sv z ci vi d rs ts pending u p s rule: comparison_loop.induct)
  case (1 sv z ci vi d rs ts pending u p s)
  show ?case
  proof (cases "pending = []")
    case True
    then show ?thesis
      using "1.prems" comparison_loop.simps [of sv z ci vi d rs ts "[]" u p s] by auto
  next
    case False
    obtain r1 s1 where run: "comparison_level sv z ci vi d rs ts pending u p s = (r1, s1)"
      by (cases "comparison_level sv z ci vi d rs ts pending u p s")
    obtain w q w1 q1 where s: "s = (w, q)" "s1 = (w1, q1)" by (cases s, cases s1)
    have level: "progress_ok whole (ci_budgets ci) q1" "\<And>x. r1 = Inr x \<Longrightarrow> level_ok whole (ci_budgets ci) x"
      using comparison_level_holds [OF "1.prems"(2) refl, of sv z vi d rs ts] "1.prems"(3) run s
      unfolding gen_holds_def by auto
    show ?thesis
    proof (cases r1)
      case (Inl e)
      then have "comparison_loop sv z ci vi d rs ts pending u p s = (Inl e, s1)"
        using False run by (simp add: comparison_loop.simps [of sv z ci vi d rs ts pending u p s])
      then show ?thesis using "1.prems"(1) level(1) s by auto
    next
      case (Inr x)
      obtain pending' u' p' where x: "x = (pending', u', p')" by (cases x)
      have "comparison_loop sv z ci vi d rs ts pending' u' p' s1 = (r, s')"
        using "1.prems"(1) False run Inr x by (simp add: comparison_loop.simps [of sv z ci vi d rs ts pending u p s])
      from "1.IH" [OF False run [symmetric] Inr x [symmetric] refl this] show ?thesis
        using level Inr x s by simp
    qed
  qed
qed

lemma comparison_loop_holds:
  assumes "level_ok whole b (pending, u, p)" "b = ci_budgets ci"
  shows "gen_holds (progress_ok whole b) (comparison_loop sv z ci vi d rs ts pending u p)
    (\<lambda>(u', p'). level_ok whole b ([], u', p'))"
  unfolding gen_holds_def
proof (intro allI impI)
  fix w q r w' q'
  assume q: "progress_ok whole b q" and run: "comparison_loop sv z ci vi d rs ts pending u p (w, q) = (r, w', q')"
  show "progress_ok whole b q' \<and> (\<forall>x. r = Inr x \<longrightarrow> (case x of (u', p') \<Rightarrow> level_ok whole b ([], u', p')))"
    using comparison_loop_run [OF run, of whole] assms q by auto
qed

section \<open>The whole run\<close>

text \<open>A key summary exists only when its constructor accepted it.\<close>

definition valid_receipts :: "'w services \<Rightarrow> bool" where
  "valid_receipts sv \<longleftrightarrow>
     (\<forall>context relation index scope a b c d n w r w'.
        sv_read_summary sv context relation index scope a b c d n w = (Inr r, w') \<longrightarrow>
        mk_PostgresIntegerKeySummary (ksr_summary r) = Inr (ksr_summary r))"

lemma key_summary_bounds:
  assumes "mk_PostgresIntegerKeySummary s = Inr s"
  shows "(ks_minimum_key s = None \<longleftrightarrow> ks_valid_key_count s = 0) \<and> (ks_maximum_key s = None \<longleftrightarrow> ks_valid_key_count s = 0)"
    and "ks_minimum_key s = Some lo \<Longrightarrow> INT64_MIN \<le> lo \<and> lo \<le> INT64_MAX"
    and "ks_maximum_key s = Some hi \<Longrightarrow> INT64_MIN \<le> hi \<and> hi \<le> INT64_MAX"
    and "ks_minimum_key s = Some lo \<Longrightarrow> ks_maximum_key s = Some hi \<Longrightarrow> lo \<le> hi"
    and "0 \<le> ks_row_count s"
  using assms
  by (auto simp: mk_PostgresIntegerKeySummary_def result_iffs require_bounded_integer_def require_some_def
      split: if_splits option.splits)

lemma root_segment_wf:
  assumes "mk_PostgresIntegerKeySummary s = Inr s" "mk_PostgresIntegerKeySummary t = Inr t"
  shows "wf_pending (root_segment s t)"
proof -
  have bounds: "(ks_minimum_key x = None \<longleftrightarrow> ks_maximum_key x = None) \<and>
      (\<forall>lo hi. ks_minimum_key x = Some lo \<longrightarrow> ks_maximum_key x = Some hi \<longrightarrow>
         INT64_MIN \<le> lo \<and> lo \<le> hi \<and> hi \<le> INT64_MAX)"
    if "mk_PostgresIntegerKeySummary x = Inr x" for x
    using key_summary_bounds [OF that] by blast
  show ?thesis
    using bounds [OF assms(1)] bounds [OF assms(2)]
    by (cases "ks_minimum_key s"; cases "ks_minimum_key t"; cases "ks_maximum_key s"; cases "ks_maximum_key t")
      (auto simp: wf_pending_iff root_segment_def Let_def map_filter_simps INT64_MIN_def INT64_MAX_def max_def min_def)
qed

lemma root_segment_fields [simp]:
  "pe_segment_sequence (root_segment s t) = 0" "pe_depth (root_segment s t) = 0"
  by (simp_all add: root_segment_def Let_def split: prod.splits)

definition empty_progress :: "execution_budgets \<Rightarrow> progress \<Rightarrow> bool" where
  "empty_progress b p \<longleftrightarrow> pg_topology p = [] \<and> pg_mismatch_witnesses p = [] \<and> tally_ok b p \<and> usage_ok (pg_usage p) \<and>
     ug_fingerprint_nodes (pg_usage p) = 0"

lemma empty_progress_ok:
  assumes "empty_progress b p" "wf_pending s" "pe_segment_sequence s = 0" "pe_depth s = 0" "0 \<le> eb_max_depth b"
  shows "progress_ok s b (p\<lparr>pg_pending := [s]\<rparr>)"
proof -
  have "partition_ok s (eb_max_depth b) [s] []"
    using assms by (auto simp: partition_ok_def sequences_def)
  then show ?thesis
    using assms(1) by (auto simp: empty_progress_def progress_ok_def tally_ok_def Let_def progress_retention_def)
qed

lemma empty_progress_update:
  "empty_progress b p \<Longrightarrow> usage_ok u \<Longrightarrow> ug_fingerprint_nodes u = 0 \<Longrightarrow> empty_progress b (p\<lparr>pg_usage := u\<rparr>)"
  "empty_progress b p \<Longrightarrow> empty_progress b (p\<lparr>pg_summaries_verified := v\<rparr>)"
  "empty_progress b p \<Longrightarrow> empty_progress b (p\<lparr>pg_pending := ps\<rparr>)"
  by (auto simp: empty_progress_def tally_ok_def Let_def progress_retention_def)

definition initial_segment :: pending_segment where
  "initial_segment = \<lparr>pe_segment_sequence = 0, pe_parent_segment_sequence = None, pe_depth = 0,
     pe_lower_inclusive = INT64_MIN, pe_upper_exclusive = None\<rparr>"

lemma initial_segment_wf: "wf_pending initial_segment"
  by (simp add: wf_pending_iff initial_segment_def INT64_MIN_def INT64_MAX_def)

lemma execution_budgets_bounds:
  assumes "mk_ExecutionBudgets b = Inr b"
  shows "0 \<le> eb_max_depth b" "0 \<le> eb_max_evidence_rows b" "0 \<le> eb_max_evidence_bytes b" "0 \<le> eb_max_fingerprint_nodes b"
  using assms by (auto simp: mk_ExecutionBudgets_def result_iffs)

lemma initial_progress_empty:
  assumes "mk_ExecutionBudgets b = Inr b"
  shows "empty_progress b (initial_comparison_progress s)" "pg_pending (initial_comparison_progress s) = [initial_segment]"
  using execution_budgets_bounds [OF assms]
  by (auto simp: empty_progress_def initial_comparison_progress_def tally_ok_def Let_def progress_retention_def
      retention_ok_def usage_ok_def difference_count_def count_state_def reference_rows_def target_rows_def
      initial_segment_def)

end
