(* ===== verification/Comparison_Run.thy ===== *)
theory Comparison_Run
  imports Comparison_Invariant
begin

text \<open>
  What holds of a whole run of \<open>execute_integer_key_comparison\<close>: the invariant of the progress at every
  exception, the partial artifact that an interruption is reported with, and the artifact of a run that
  completes.
\<close>

section \<open>The invariant of the run\<close>

text \<open>Some range is partitioned: the whole key range before the summaries are read, the root after. The
  summaries are read only from contexts whose stable reads have a known level.\<close>

definition stable_context :: "read_context \<Rightarrow> bool" where
  "stable_context context \<longleftrightarrow> (\<forall>level. cx_kind context = ClickHouseContext level \<longrightarrow> level = ASSERTED)"

definition stable_contexts :: "comparison_inputs \<Rightarrow> bool" where
  "stable_contexts ci \<longleftrightarrow> stable_context (ci_reference_context ci) \<and> stable_context (ci_target_context ci)"

definition running_ok :: "comparison_inputs \<Rightarrow> progress \<Rightarrow> bool" where
  "running_ok ci p \<longleftrightarrow>
     (\<exists>whole. progress_ok whole (ci_budgets ci) p) \<and> (pg_summaries_verified p \<longrightarrow> stable_contexts ci)"

lemma stable_context_level:
  "context_stable_read_level sv c w = Inr level \<Longrightarrow> sv_active sv c w \<Longrightarrow> stable_context c"
  "stable_context c \<Longrightarrow> context_stable_read_level sv c w \<in> range Inr"
  by (auto simp: context_stable_read_level_def stable_context_def result_iffs split: context_kind.splits if_splits)

lemma validate_inputs_stable: "validate_inputs sv ci w = Inr vi \<Longrightarrow> stable_contexts ci"
  by (auto simp: validate_inputs_def validate_contexts_def protocol_unless_def Let_def result_iffs
      stable_contexts_def intro: stable_context_level(1))

lemma running_okI:
  "progress_ok whole b p \<Longrightarrow> b = ci_budgets ci \<Longrightarrow> stable_contexts ci \<or> \<not> pg_summaries_verified p \<Longrightarrow> running_ok ci p"
  by (auto simp: running_ok_def)

lemma level_running:
  "level_ok whole b (ps, u, p) \<Longrightarrow> b = ci_budgets ci \<Longrightarrow> stable_contexts ci \<Longrightarrow> running_ok ci p"
  by (auto simp: running_ok_def level_ok_def)

lemma empty_progress_running:
  assumes "empty_progress b p" "pg_pending p = [s]" "wf_pending s" "pe_segment_sequence s = 0" "pe_depth s = 0" "0 \<le> eb_max_depth b"
  shows "progress_ok s b p"
proof -
  have "p\<lparr>pg_pending := [s]\<rparr> = p" using assms(2) by (cases p) simp
  then show ?thesis using empty_progress_ok [OF assms(1,3-6)] by simp
qed

lemma read_integer_key_summary_valid:
  assumes "valid_receipts sv" "read_integer_key_summary sv c rel i sc m1 m2 m3 d n w = (Inr r, w')"
  shows "mk_PostgresIntegerKeySummary (ksr_summary r) = Inr (ksr_summary r)"
proof -
  from assms(2) obtain w1 where "sv_read_summary sv c rel i sc m1 m2 m3 d n w1 = (Inr r, w')"
    by (auto simp: read_integer_key_summary_def weff_iffs split: if_splits)
  then show ?thesis using assms(1) unfolding valid_receipts_def by (elim allE impE)
qed

lemma root_level_ok:
  assumes p: "empty_progress b p"
    and b: "mk_ExecutionBudgets b = Inr b" and u: "usage_ok u" "ug_fingerprint_nodes u = 0"
    and s: "mk_PostgresIntegerKeySummary s = Inr s" "mk_PostgresIntegerKeySummary t = Inr t"
  shows "level_ok (root_segment s t) b
    ([root_segment s t], u, p\<lparr>pg_pending := [root_segment s t], pg_summaries_verified := True, pg_usage := u\<rparr>)"
proof -
  let ?p = "p\<lparr>pg_pending := [root_segment s t], pg_summaries_verified := True, pg_usage := u\<rparr>"
  have e: "empty_progress b ?p" using p u by (intro empty_progress_update)
  then have "progress_ok (root_segment s t) b ?p"
    by (rule empty_progress_running) (simp_all add: root_segment_wf [OF s] execution_budgets_bounds [OF b])
  moreover have "pg_topology ?p = []" using p by (simp add: empty_progress_def)
  ultimately show ?thesis using u by (simp add: level_ok_def)
qed

lemma read_summaries_holds:
  assumes p: "empty_progress b p" "pg_pending p = [initial_segment]" "\<not> pg_summaries_verified p"
    and b: "mk_ExecutionBudgets b = Inr b" "b = ci_budgets ci" and sv: "valid_receipts sv"
  shows "gen_holds (running_ok ci) (read_summaries sv z ci p)
    (\<lambda>sm. let r = root_segment (sm_reference sm) (sm_target sm) in
       level_ok r b ([r], sm_usage sm, sm_progress sm) \<and> stable_contexts ci \<and>
       mk_PostgresIntegerKeySummary (sm_reference sm) = Inr (sm_reference sm) \<and>
       mk_PostgresIntegerKeySummary (sm_target sm) = Inr (sm_target sm))"
proof -
  have depth: "0 \<le> eb_max_depth b" using execution_budgets_bounds [OF b(1)] by simp
  have u: "usage_ok (usage_with_coordinator_peak (pg_usage p) peak)"
    "ug_fingerprint_nodes (usage_with_coordinator_peak (pg_usage p) peak) = 0" for peak
    using p(1) by (auto simp: empty_progress_def)
  have p1: "empty_progress b (p\<lparr>pg_usage := usage_with_coordinator_peak (pg_usage p) peak\<rparr>)" for peak
    using empty_progress_update(1) [OF p(1)] u by simp
  have start: "running_ok ci (p\<lparr>pg_usage := usage_with_coordinator_peak (pg_usage p) peak\<rparr>)" for peak
    by (rule running_okI [OF empty_progress_running [OF p1] b(2)])
      (use p(2,3) initial_segment_wf depth in \<open>auto simp: initial_segment_def\<close>)
  have after: "level_ok (root_segment (ksr_summary rr) (ksr_summary tr)) b
      ([root_segment (ksr_summary rr) (ksr_summary tr)], u',
       p\<lparr>pg_usage := usage_with_coordinator_peak (pg_usage p) peak,
         pg_pending := [root_segment (ksr_summary rr) (ksr_summary tr)], pg_summaries_verified := True, pg_usage := u'\<rparr>) \<and>
      stable_contexts ci \<and>
      mk_PostgresIntegerKeySummary (ksr_summary rr) = Inr (ksr_summary rr) \<and>
      mk_PostgresIntegerKeySummary (ksr_summary tr) = Inr (ksr_summary tr)"
    if "raised (validate_inputs sv ci w1) w2 = (Inr vi, w3)"
      and "read_integer_key_summary sv c1 rel1 i1 sc1 m1 m2 m3 d n1 w10 = (Inr rr, w11)"
      and "read_integer_key_summary sv c2 rel2 i2 sc2 n2 n3 n4 d' n5 w14 = (Inr tr, w15)"
      and "consume_source_usage sv (pg_usage (p\<lparr>pg_usage := usage_with_coordinator_peak (pg_usage p) peak\<rparr>)) a 0 peak' w16 = (Inr u', w17)"
    for w1 w2 vi w3 c1 rel1 i1 sc1 m1 m2 m3 d n1 w10 rr w11 c2 rel2 i2 sc2 n2 n3 n4 d' n5 w14 tr w15 peak a peak' w16 u' w17
  proof -
    have u': "usage_ok u'" "ug_fingerprint_nodes u' = 0"
      using consume_source_usage_ok [OF that(4)] consume_source_usage_nodes [OF that(4)] u by simp_all
    note valid = read_integer_key_summary_valid [OF sv that(2)] read_integer_key_summary_valid [OF sv that(3)]
    have "stable_contexts ci" using that(1) validate_inputs_stable by (auto simp: raised_iffs)
    then show ?thesis using root_level_ok [OF p1 b(1) u' valid] valid by blast
  qed
  show ?thesis
    unfolding read_summaries_def Let_def
    by (intro gen_rules start)
      (drule (3) after, elim conjE, erule (1) level_running [OF _ b(2)],
       drule (3) after, elim conjE, simp)
qed

lemma running_ok_usage: "running_ok ci p \<Longrightarrow> usage_ok u \<Longrightarrow> running_ok ci (p\<lparr>pg_usage := u\<rparr>)"
  unfolding running_ok_def by (fastforce dest: progress_ok_usage)

lemma running_ok_consume:
  "running_ok ci p \<Longrightarrow> usage_ok u \<Longrightarrow> consume_source_usage sv u a 0 peak w = (Inr u', w') \<Longrightarrow>
   running_ok ci (p\<lparr>pg_usage := u'\<rparr>)"
  by (simp add: running_ok_usage consume_source_usage_ok)

lemma completed_comparison_holds:
  assumes "running_ok ci p" "usage_ok u"
  shows "gen_holds (running_ok ci) (completed_comparison sv ci sm u p) (\<lambda>_. True)"
  unfolding completed_comparison_def Let_def
  by (intro gen_rules gen_holds_inner) (auto dest: running_ok_consume [OF assms])

lemma gen_holds_run:
  assumes "gen_holds I m Q" "I q" "m (w, q) = (r, w', q')"
  shows "I q'" "r = Inr x \<Longrightarrow> Q x"
  using assms unfolding gen_holds_def by blast+

text \<open>The invariant of the loop fixes the range, the invariant of the run does not.\<close>

lemma comparison_loop_running:
  assumes "level_ok whole (ci_budgets ci) (pending, u, p)" "stable_contexts ci" "progress_ok whole (ci_budgets ci) q"
    "comparison_loop sv z ci vi d rs ts pending u p (w, q) = (r, w', q')"
  shows "running_ok ci q'" "r = Inr (u', p') \<Longrightarrow> level_ok whole (ci_budgets ci) ([], u', p')"
  using comparison_loop_run [OF assms(4,1)] assms(2,3) by (auto simp: running_ok_def)

lemma read_summaries_final:
  assumes "read_summaries sv z ci p (w, q) = (Inr sm, w', q')"
  shows "q' = sm_progress sm"
  using assms by (auto simp: read_summaries_def Let_def gen_iffs)

lemma run_comparison_start:
  assumes "p = initial_comparison_progress snapshot" "read_summaries sv z ci p (w, p) = (r, w', q')"
    "mk_ExecutionBudgets (ci_budgets ci) = Inr (ci_budgets ci)" "valid_receipts sv"
  shows "running_ok ci q'"
    "r = Inr sm \<Longrightarrow> level_ok (root_segment (sm_reference sm) (sm_target sm)) (ci_budgets ci)
       ([root_segment (sm_reference sm) (sm_target sm)], sm_usage sm, sm_progress sm) \<and> stable_contexts ci"
proof -
  have e: "empty_progress (ci_budgets ci) p" "pg_pending p = [initial_segment]" "\<not> pg_summaries_verified p"
    using initial_progress_empty [OF assms(3)] assms(1) by (auto simp: initial_comparison_progress_def)
  have "running_ok ci p"
    using execution_budgets_bounds [OF assms(3)] e initial_segment_wf
    by (intro running_okI [OF empty_progress_running [OF e(1,2)]]) (auto simp: initial_segment_def)
  note run = gen_holds_run [OF read_summaries_holds [OF e assms(3) refl assms(4)] this assms(2)]
  show "running_ok ci q'" by (rule run(1))
  show "r = Inr sm \<Longrightarrow> level_ok (root_segment (sm_reference sm) (sm_target sm)) (ci_budgets ci)
       ([root_segment (sm_reference sm) (sm_target sm)], sm_usage sm, sm_progress sm) \<and> stable_contexts ci"
    using run(2) by (simp add: Let_def)
qed

lemma compare_ranges_running:
  assumes "level_ok (root_segment (sm_reference sm) (sm_target sm)) (ci_budgets ci)
      ([root_segment (sm_reference sm) (sm_target sm)], sm_usage sm, sm_progress sm)" "stable_contexts ci"
    and run: "compare_ranges sv z ci sm (w, sm_progress sm) = (r, w', q')"
  shows "running_ok ci q'"
    "r = Inr a \<Longrightarrow> \<exists>u p s. level_ok (root_segment (sm_reference sm) (sm_target sm)) (ci_budgets ci) ([], u, p) \<and>
       completed_comparison sv ci sm u p s = (Inr a, w', q')"
proof -
  let ?root = "root_segment (sm_reference sm) (sm_target sm)"
  obtain r1 w1 q1 where l: "comparison_loop sv z ci (sm_validated sm) (sm_read_deadline sm) (sm_reference sm)
      (sm_target sm) [?root] (sm_usage sm) (sm_progress sm) (w, sm_progress sm) = (r1, w1, q1)"
    by (metis prod_cases3)
  have q: "progress_ok ?root (ci_budgets ci) (sm_progress sm)" using assms(1) by (simp add: level_ok_def)
  note loop = comparison_loop_running [OF assms(1,2) q l]
  have "running_ok ci q' \<and> (r = Inr a \<longrightarrow> (\<exists>u p s. level_ok ?root (ci_budgets ci) ([], u, p) \<and>
       completed_comparison sv ci sm u p s = (Inr a, w', q')))" for a
  proof (cases r1)
    case (Inl e)
    then show ?thesis using run l loop(1) by (auto simp: compare_ranges_def wbind_def)
  next
    case (Inr x)
    obtain u p where x: "x = (u, p)" by (cases x)
    have c: "completed_comparison sv ci sm u p (w1, q1) = (r, w', q')"
      using run l Inr x by (auto simp: compare_ranges_def wbind_def)
    have level: "level_ok ?root (ci_budgets ci) ([], u, p)" using loop(2) Inr x by simp
    then have "running_ok ci p" "usage_ok u"
      using assms(2) by (auto simp: level_ok_def running_ok_def progress_ok_def)
    then have "running_ok ci q'" by (rule gen_holds_run(1) [OF completed_comparison_holds loop(1) c])
    then show ?thesis using level c by blast
  qed
  then show "running_ok ci q'" "r = Inr a \<Longrightarrow> \<exists>u p s. level_ok ?root (ci_budgets ci) ([], u, p) \<and>
       completed_comparison sv ci sm u p s = (Inr a, w', q')" by blast+
qed

lemma gen_final:
  assumes "gen_holds I m Q" "I q"
  shows "I (snd (snd (m (w, q))))"
  using gen_holds_run(1) [OF assms] by (cases "m (w, q)") auto

lemma conclude_comparison_running:
  assumes level: "level_ok (root_segment (sm_reference sm) (sm_target sm)) (ci_budgets ci)
      ([root_segment (sm_reference sm) (sm_target sm)], sm_usage sm, sm_progress sm)" "stable_contexts ci"
  shows "running_ok ci (snd (snd (conclude_comparison sv z ci sm violation (w, sm_progress sm))))"
proof -
  have sm: "running_ok ci (sm_progress sm)" "usage_ok (sm_usage sm)"
    using level by (auto simp: level_ok_def running_ok_def progress_ok_def)
  have ranges: "running_ok ci (snd (snd (wbind (compare_ranges sv z ci sm) (\<lambda>a. wreturn (CompletedComparison a))
      (w, sm_progress sm))))"
    using compare_ranges_running(1) [OF level]
    by (cases "compare_ranges sv z ci sm (w, sm_progress sm)") (auto simp: wbind_def split: sum.splits)
  consider (invalid) "ks_invalid_key_count (sm_reference sm) > 0 \<or> ks_invalid_key_count (sm_target sm) > 0"
    | (violated) reason where "\<not> (ks_invalid_key_count (sm_reference sm) > 0 \<or> ks_invalid_key_count (sm_target sm) > 0)"
        "violation = Some reason"
    | (kept) "\<not> (ks_invalid_key_count (sm_reference sm) > 0 \<or> ks_invalid_key_count (sm_target sm) > 0)" "violation = None"
    by (cases violation) blast+
  then show ?thesis
  proof cases
    case invalid
    show ?thesis
      unfolding conclude_comparison_def if_P [OF invalid] by (rule gen_final [where I = "running_ok ci" and Q = "\<lambda>_. True"]) (intro gen_rules, rule sm(1))
  next
    case violated
    show ?thesis
      unfolding conclude_comparison_def if_not_P [OF violated(1)] violated(2) option.case
      by (rule gen_final [where I = "running_ok ci" and Q = "\<lambda>_. True"])
        (intro gen_rules, auto dest: running_ok_consume [OF sm] intro: sm(1))
  next
    case kept
    show ?thesis
      unfolding conclude_comparison_def if_not_P [OF kept(1)] kept(2) option.case
      using ranges sm(1) by (auto simp: wbind_def wrequire_def)
  qed
qed

lemma run_comparison_running:
  assumes p: "p = initial_comparison_progress snapshot" and run: "run_comparison sv z ci p (w, p) = (r, w', q')"
    and "mk_ExecutionBudgets (ci_budgets ci) = Inr (ci_budgets ci)" "valid_receipts sv"
  shows "running_ok ci q'"
proof -
  obtain r1 w1 q1 where s: "read_summaries sv z ci p (w, p) = (r1, w1, q1)" by (metis prod_cases3)
  note start = run_comparison_start [OF p s assms(3,4)]
  show ?thesis
  proof (cases r1)
    case (Inl e)
    then show ?thesis using run s start(1) by (auto simp: run_comparison_def wbind_def)
  next
    case (Inr sm)
    then have q1: "q1 = sm_progress sm" using read_summaries_final s by simp
    have level: "level_ok (root_segment (sm_reference sm) (sm_target sm)) (ci_budgets ci)
       ([root_segment (sm_reference sm) (sm_target sm)], sm_usage sm, sm_progress sm)" "stable_contexts ci"
      using start(2) Inr by simp_all
    have rest: "wbind (raised (structural_contract_violation_reason (sm_reference sm) (sm_target sm)))
        (conclude_comparison sv z ci sm) (w1, sm_progress sm) = (r, w', q')"
      using run s Inr q1 by (simp add: run_comparison_def wbind_def)
    show ?thesis
    proof (cases "structural_contract_violation_reason (sm_reference sm) (sm_target sm)")
      case (Inl e)
      then show ?thesis using rest start(1) q1 by (auto simp: wbind_def raised_def)
    next
      case (Inr violation)
      then show ?thesis
        using rest conclude_comparison_running [OF level, of sv z violation w1] by (auto simp: wbind_def raised_def)
    qed
  qed
qed

section \<open>Interruptions\<close>

lemma interruption_has_reason:
  assumes "is_interruption e" "e \<noteq> ConnectorError GreenplumCloseError"
  shows "interruption_reason_code e \<in> range Inr"
proof (cases e)
  case (ConnectorError x)
  then show ?thesis using assms by (cases x) auto
next
  case (Raised x)
  then show ?thesis using assms(1) by (cases x) auto
qed auto

lemma reason_only_for_interruptions: "interruption_reason_code e \<in> range Inr \<Longrightarrow> is_interruption e"
  by (cases e) (auto split: if_splits)

lemma map_of_sequence:
  assumes "distinct (map f xs)" "x \<in> set xs"
  shows "map_of (rev (map (\<lambda>x. (f x, x)) xs)) (f x) = Some x"
proof -
  have "distinct (map fst (rev (map (\<lambda>x. (f x, x)) xs)))"
    using assms(1) by (simp add: rev_map [symmetric] comp_def)
  then show ?thesis using assms(2) by (intro map_of_is_SomeI) auto
qed

lemma witness_of:
  "map_of (rev (map (\<lambda>n. (g n, n)) ws)) k = Some n \<Longrightarrow> n \<in> set ws"
  by (drule map_of_SomeD) auto

lemma unresolved_of_ok:
  assumes "wf_pending s" "\<forall>n \<in> set ws. \<not> nodes_agree n"
  shows "\<exists>x. unresolved_of ws reason s = Inr x \<and> us_segment_sequence x = pe_segment_sequence s \<and>
    us_lower_inclusive x = pe_lower_inclusive s \<and> us_upper_exclusive x = pe_upper_exclusive s \<and> us_reason x = reason"
  using assms witness_of [of "\<lambda>n. pe_segment_sequence (fn_segment n)" ws "pe_segment_sequence s"]
  by (cases "map_of (rev (map (\<lambda>n. (pe_segment_sequence (fn_segment n), n)) ws)) (pe_segment_sequence s)")
    (auto simp: unresolved_of_def mk_UnresolvedComparisonSegment_def wf_pending_def require_def nodes_agree_def)

lemma traverse_total:
  assumes "\<forall>x \<in> set xs. \<exists>y. f x = Inr y \<and> R x y"
  shows "\<exists>ys. traverse f xs = Inr ys \<and> list_all2 R xs ys"
  using assms
proof (induction xs)
  case (Cons x xs)
  then obtain y ys where "f x = Inr y" "R x y" "traverse f xs = Inr ys" "list_all2 R xs ys" by auto
  then show ?case by simp
qed simp

lemma require_unique_sequences_ok:
  "distinct ns \<Longrightarrow> seen \<inter> set ns = {} \<Longrightarrow> require_unique_sequences seen ns = Inr (seen \<union> set ns)"
  by (induction ns arbitrary: seen) (auto simp: require_def)

lemma frontier_accepted:
  assumes "distinct (map sr_segment_sequence ts)" "distinct (map us_segment_sequence us)"
    "sorted (map sr_segment_sequence ts)" "sorted (map us_segment_sequence us)"
    "sr_segment_sequence ` set ts \<inter> us_segment_sequence ` set us = {}"
  shows "mk_PartialComparisonFrontier \<lparr>pf_topology = ts, pf_unresolved = us\<rparr> = Inr \<lparr>pf_topology = ts, pf_unresolved = us\<rparr>"
proof -
  have "map sr_segment_sequence ts = sorted_list_of_set (sr_segment_sequence ` set ts)"
    "map us_segment_sequence us = sorted_list_of_set (us_segment_sequence ` set us)"
    using assms(1-4) by (metis list.set_map sorted_list_of_set.idem_if_sorted_distinct)+
  then show ?thesis
    using assms by (simp add: mk_PartialComparisonFrontier_def require_unique_sequences_ok require_def Let_def)
qed

section \<open>The partial artifact\<close>

lemma nonneg_int_text:
  assumes "0 \<le> i"
  shows "is_nonneg_text (asc (int_str i))"
proof -
  have "is_dec (hd (int_str i))" using assms format_nat_dec [OF hd_in_set [OF format_nat_not_Nil]] by (simp add: int_str_def)
  then have "hd (int_str i) \<noteq> CHR ''-''" by (auto simp: is_dec_def)
  then show ?thesis using canonical_int_str [of i] by (simp add: is_nonneg_text_def)
qed

lemma int_str_zero_iff: "asc (int_str i) = asc ''0'' \<longleftrightarrow> i = 0"
  unfolding asc_eq_iff by (metis int_str_0 parse_int_str)

lemma count_state_nonneg [simp]: "0 \<le> count_state states ts"
  by (simp add: count_state_def)

lemma count_state_set: "count_state states ts = 0 \<longleftrightarrow> (\<forall>r \<in> set ts. sr_state r \<notin> states)"
  by (auto simp: count_state_def filter_empty_conv)

lemma count_state_sort [simp]: "count_state states (ordered_topology p) = count_state states (pg_topology p)"
proof -
  have "mset (filter P (sort_key f xs)) = mset (filter P xs)" for P and f :: "segment_record \<Rightarrow> int" and xs by simp
  then show ?thesis unfolding count_state_def ordered_topology_def by (metis size_mset)
qed

lemma partial_totals_ok:
  assumes "0 \<le> xc_matched c" "0 \<le> xc_missing c" "0 \<le> xc_extra c" "0 \<le> xc_modified c"
  shows "\<exists>t. partial_totals c n reason = Inr t \<and> \<not> list_ex (\<lambda>t. is_exact t \<or> is_inferred t) (totals_values t) \<and>
    (list_ex is_lower_bound (totals_values t) \<longrightarrow> 0 < n) \<and>
    (list_ex (\<lambda>t. is_lower_bound t \<and> total_nonzero t) (totals_differences t) \<longrightarrow> 0 < difference_count c)"
proof (cases "0 < n")
  case True
  have nz: "total_nonzero (LowerBoundTotal (asc (int_str i))) \<longleftrightarrow> i \<noteq> 0" for i
    unfolding total_nonzero_def by (simp only: total.case total.sel int_str_zero_iff)
  show ?thesis
    using True assms
    by (auto simp: partial_totals_def mk_ComparisonTotals_def totals_values_def totals_differences_def nonneg_int_text
      require_def is_exact_def is_inferred_def is_lower_bound_def nz difference_count_def)
qed (auto simp: partial_totals_def mk_ComparisonTotals_def totals_values_def totals_differences_def
      is_exact_def is_inferred_def is_lower_bound_def)

lemma first_occurrences_constant:
  "\<forall>y \<in> set xs. y = x \<Longrightarrow> first_occurrences xs = (if xs = [] then [] else [x])"
proof (induction xs)
  case (Cons y ys)
  then show ?case by (cases ys) auto
qed simp

lemma record_size_sum:
  "list_all (\<lambda>r. canonical_difference_record_bytes r \<in> range Inr) rs \<Longrightarrow>
   sum_each (\<lambda>a. ebind (canonical_difference_record_bytes a) (\<lambda>b. Inr (int (length b)))) rs =
     Inr (sum_list (map record_size rs))"
  by (induction rs) (auto simp: record_size_def)

lemma snapshot_nonneg:
  assumes "source_snapshot sv a w = (Inr s, w')"
  shows "0 \<le> us_queries s" "0 \<le> us_fetched_records s" "0 \<le> us_result_bytes s" "0 \<le> us_elapsed_milliseconds s"
    "0 \<le> us_reference_full_scans s" "0 \<le> us_target_full_scans s"
  using assms
  by (auto simp: source_snapshot_def raised_iffs attempt_snapshot_def mk_PostgresSourceUsageSnapshot_def
      validate_nonnegative_integer_def result_iffs
      split: prod.splits)

lemma result_metrics_ok:
  assumes "source_snapshot sv a w = (Inr s, w')" "usage_ok u"
  shows "\<exists>u'. consume_source_usage sv u a 0 (ug_coordinator_peak_bytes u) w = (Inr u', w') \<and>
    ug_fingerprint_nodes u' = ug_fingerprint_nodes u \<and>
    (\<exists>m. result_metrics_of u' = Inr m \<and> rm_fingerprint_nodes m = ug_fingerprint_nodes u) \<and>
    0 \<le> ug_reference_full_scans u' \<and> 0 \<le> ug_target_full_scans u'"
  using assms(2) snapshot_nonneg [OF assms(1)]
  by (auto simp: consume_source_usage_def wbind_def assms(1) result_metrics_of_def mk_ResultMetrics_def require_def usage_ok_def)

lemma ordered_topology_set [simp]: "set (ordered_topology p) = set (pg_topology p)"
  and ordered_topology_mset: "mset (ordered_topology p) = mset (pg_topology p)"
  by (simp_all add: ordered_topology_def)

lemma ordered_topology_sorted: "sorted (map sr_segment_sequence (ordered_topology p))"
  by (simp add: ordered_topology_def)

lemma running_unresolved:
  assumes "partition_ok whole d (pg_pending p) (pg_topology p)"
  shows "mset (unresolved_pending p) = mset (pg_pending p)"
proof -
  have "filter (\<lambda>s. pe_segment_sequence s \<notin> sr_segment_sequence ` set (ordered_topology p)) (pg_pending p) = pg_pending p"
    using assms by (auto simp: partition_ok_def sequences_def filter_id_conv)
  then show ?thesis by (simp add: unresolved_pending_def)
qed

lemma distinct_mset_map: "mset xs = mset ys \<Longrightarrow> distinct (map f ys) \<Longrightarrow> distinct (map f xs)"
  by (metis mset_eq_imp_distinct_iff mset_map)

lemma in_exact_mismatch_retained:
  assumes "distinct (map sr_segment_sequence ts)" "r \<in> set ts" "sr_segment_sequence r = dr_segment_sequence a"
    "sr_state r = EXACT_MISMATCH"
  shows "in_exact_mismatch ts a"
  using map_of_sequence [OF assms(1,2)] assms(3,4) by (simp add: in_exact_mismatch_def by_sequence_def)

text \<open>What every artifact of a run has: the evidence of the progress.\<close>

lemma retained_evidence_ok:
  assumes "tally_ok b p"
  shows "validate_evidence_coverage \<lparr>ev_found_records = pg_found_records p, ev_retained_records = int (length (pg_anomalies p)),
      ev_found_bytes = pg_found_bytes p, ev_retained_bytes = pg_retained_bytes p\<rparr> (pg_anomalies p) = Inr ()"
    and "mk_EvidenceCoverage \<lparr>ev_found_records = pg_found_records p, ev_retained_records = int (length (pg_anomalies p)),
      ev_found_bytes = pg_found_bytes p, ev_retained_bytes = pg_retained_bytes p\<rparr> = Inr
      \<lparr>ev_found_records = pg_found_records p, ev_retained_records = int (length (pg_anomalies p)),
      ev_found_bytes = pg_found_bytes p, ev_retained_bytes = pg_retained_bytes p\<rparr>"
proof -
  have ok: "retention_ok b (progress_retention p)" using assms by (simp add: tally_ok_def Let_def)
  then have "list_all (\<lambda>r. canonical_difference_record_bytes r \<in> range Inr) (pg_anomalies p)"
    by (auto simp: retention_ok_def progress_retention_def list_all_iff)
  note sizes = record_size_sum [OF this]
  have "0 \<le> sum_list (map record_size rs)" for rs by (induction rs) (simp_all add: record_size_nonneg)
  from this [of "pg_anomalies p"] show "mk_EvidenceCoverage \<lparr>ev_found_records = pg_found_records p, ev_retained_records = int (length (pg_anomalies p)),
      ev_found_bytes = pg_found_bytes p, ev_retained_bytes = pg_retained_bytes p\<rparr> = Inr
      \<lparr>ev_found_records = pg_found_records p, ev_retained_records = int (length (pg_anomalies p)),
      ev_found_bytes = pg_found_bytes p, ev_retained_bytes = pg_retained_bytes p\<rparr>"
    using ok unfolding retention_ok_def progress_retention_def
    by (auto simp: mk_EvidenceCoverage_def require_def)
  show "validate_evidence_coverage \<lparr>ev_found_records = pg_found_records p, ev_retained_records = int (length (pg_anomalies p)),
      ev_found_bytes = pg_found_bytes p, ev_retained_bytes = pg_retained_bytes p\<rparr> (pg_anomalies p) = Inr ()"
    using ok sizes by (simp add: validate_evidence_coverage_def retention_ok_def progress_retention_def require_def)
qed

lemma stable_read_level_ok:
  assumes "verified \<longrightarrow> stable_contexts ci"
  shows "\<exists>level. comparison_stable_read_level sv (ci_reference_context ci) (ci_target_context ci) verified w = Inr level"
proof (cases verified)
  case True
  then obtain l l' where "context_stable_read_level sv (ci_reference_context ci) w = Inr l"
      "context_stable_read_level sv (ci_target_context ci) w = Inr l'"
    using assms stable_context_level(2) [of "ci_reference_context ci" sv w]
      stable_context_level(2) [of "ci_target_context ci" sv w] by (auto simp: stable_contexts_def)
  then show ?thesis by (simp add: comparison_stable_read_level_def Let_def)
qed (simp add: comparison_stable_read_level_def)

lemma consistency_ok:
  assumes "cx_context_id (ci_reference_context ci) \<noteq> cx_context_id (ci_target_context ci)"
  shows "consistency_of ci level = Inr \<lparr>cn_stable_reads = level, cn_cut_alignment = VERIFIED,
    cn_read_context_ids = [cx_context_id (ci_reference_context ci), cx_context_id (ci_target_context ci)]\<rparr>"
  using assms by (simp add: consistency_of_def mk_ConsistencyStatus_def require_def)

definition valid_identity :: "comparison_inputs \<Rightarrow> bool" where
  "valid_identity ci \<longleftrightarrow>
     validate_artifact_identity (rc_check_id (ci_check ci)) (rc_contract_digest (ci_check ci))
       (rs_scope_digest (ci_scope ci)) (ic_input_cut_digest (ci_input_cut ci)) = Inr ()"

definition same_range :: "reason_code \<Rightarrow> pending_segment \<Rightarrow> unresolved_segment \<Rightarrow> bool" where
  "same_range reason s x \<longleftrightarrow> us_segment_sequence x = pe_segment_sequence s \<and>
     us_lower_inclusive x = pe_lower_inclusive s \<and> us_upper_exclusive x = pe_upper_exclusive s \<and> us_reason x = reason"

lemma same_range_sequences:
  "list_all2 (same_range reason) ps us \<Longrightarrow> map us_segment_sequence us = map pe_segment_sequence ps \<and>
     (\<forall>y \<in> set (map us_reason us). y = reason)"
  by (induction rule: list_all2_induct) (auto simp: same_range_def)

lemma partial_artifact_of_ok:
  assumes p: "progress_ok whole (ci_budgets ci) p" and stable: "pg_summaries_verified p \<longrightarrow> stable_contexts ci"
    and ids: "cx_context_id (ci_reference_context ci) \<noteq> cx_context_id (ci_target_context ci)" "valid_identity ci"
    and us: "list_all2 (same_range reason) (unresolved_pending p) unresolved"
    and m: "result_metrics_of u = Inr m" "0 \<le> ug_reference_full_scans u" "0 \<le> ug_target_full_scans u"
  shows "\<exists>a. partial_artifact_of sv ci p reason violated unresolved u w = Inr a \<and> mk_PartialComparisonArtifact a = Inr a \<and>
    pa_frontier a = \<lparr>pf_topology = ordered_topology p, pf_unresolved = unresolved\<rparr> \<and> pa_anomalies a = pg_anomalies p"
proof -
  have part: "partition_ok whole (eb_max_depth (ci_budgets ci)) (pg_pending p) (pg_topology p)"
    and tally: "tally_ok (ci_budgets ci) p"
    using p by (simp_all add: progress_ok_def)
  let ?ts = "ordered_topology p" and ?c = "pg_exact_counts p"
  have dist: "distinct (map sr_segment_sequence ?ts)" "distinct (map pe_segment_sequence (pg_pending p))"
    "sr_segment_sequence ` set ?ts \<inter> pe_segment_sequence ` set (pg_pending p) = {}"
    using part distinct_mset_map [OF ordered_topology_mset] by (auto simp: partition_ok_def sequences_def)
  have un: "map us_segment_sequence unresolved = map pe_segment_sequence (unresolved_pending p)"
    "\<forall>y \<in> set (map us_reason unresolved). y = reason"
    using same_range_sequences [OF us] by simp_all
  have frontier: "mk_PartialComparisonFrontier \<lparr>pf_topology = ?ts, pf_unresolved = unresolved\<rparr> =
      Inr \<lparr>pf_topology = ?ts, pf_unresolved = unresolved\<rparr>"
  proof (rule frontier_accepted)
    show "distinct (map us_segment_sequence unresolved)"
      unfolding un(1) by (rule distinct_mset_map [OF running_unresolved [OF part] dist(2)])
    show "sorted (map us_segment_sequence unresolved)" unfolding un(1) by (simp add: unresolved_pending_def)
    have "us_segment_sequence ` set unresolved = pe_segment_sequence ` set (pg_pending p)"
      using arg_cong [OF un(1), of set] mset_eq_setD [OF running_unresolved [OF part]] by simp
    then show "sr_segment_sequence ` set ?ts \<inter> us_segment_sequence ` set unresolved = {}" using dist(3) by simp
  qed (use dist(1) ordered_topology_sorted in simp_all)
  obtain level where level: "comparison_stable_read_level sv (ci_reference_context ci) (ci_target_context ci)
      (pg_summaries_verified p) w = Inr level" using stable_read_level_ok [OF stable, of sv w] by blast
  obtain t where t: "partial_totals ?c (count_state {EXACT_MATCH, EXACT_MISMATCH} (pg_topology p)) reason = Inr t"
      "\<not> list_ex (\<lambda>t. is_exact t \<or> is_inferred t) (totals_values t)"
      "list_ex is_lower_bound (totals_values t) \<longrightarrow> 0 < count_state {EXACT_MATCH, EXACT_MISMATCH} (pg_topology p)"
      "list_ex (\<lambda>t. is_lower_bound t \<and> total_nonzero t) (totals_differences t) \<longrightarrow> 0 < difference_count ?c"
    using partial_totals_ok [of ?c "count_state {EXACT_MATCH, EXACT_MISMATCH} (pg_topology p)" reason] tally
    by (auto simp: tally_ok_def Let_def)
  have anomalies: "in_exact_mismatch ?ts a" if "a \<in> set (pg_anomalies p)" for a
    using tally that in_exact_mismatch_retained [OF dist(1)] by (auto simp: tally_ok_def Let_def)
  note first = first_occurrences_constant [OF un(2)]
  let ?n = "count_state {FINGERPRINT_MATCH} (pg_topology p)" and ?k = "count_state {EXACT_MATCH, EXACT_MISMATCH} (pg_topology p)"
  let ?coverage = "\<lparr>cc_total_partitions = 1, cc_covered_partitions = (if unresolved = [] \<and> ?n + ?k > 0 then 1 else 0),
         cc_resolved_segments = ?n + ?k, cc_pruned_segments = ?n, cc_exact_segments = ?k,
         cc_unresolved_segments = int (length unresolved),
         cc_unresolved_reasons = (if unresolved = [] then [] else [reason])\<rparr>"
  have coverage: "mk_ComparisonCoverage ?coverage = Inr ?coverage"
    using count_state_nonneg [of "{FINGERPRINT_MATCH}" "pg_topology p"]
      count_state_nonneg [of "{EXACT_MATCH, EXACT_MISMATCH}" "pg_topology p"]
    by (auto simp: mk_ComparisonCoverage_def validate_segment_counts_def require_def simp del: count_state_nonneg)
  let ?proven = "xc_missing ?c + xc_extra ?c + xc_modified ?c > 0"
  let ?evidence = "\<lparr>ev_found_records = pg_found_records p, ev_retained_records = int (length (pg_anomalies p)),
      ev_found_bytes = pg_found_bytes p, ev_retained_bytes = pg_retained_bytes p\<rparr>"
  let ?a = "\<lparr>pa_check_id = rc_check_id (ci_check ci), pa_contract_digest = rc_contract_digest (ci_check ci),
         pa_scope_digest = rs_scope_digest (ci_scope ci),
         pa_input_cut_digest = ic_input_cut_digest (ci_input_cut ci),
         pa_verdict =
           (if ?proven \<or> has_fingerprint_mismatch ?ts unresolved \<or> violated then MISMATCH else INCONCLUSIVE),
         pa_consistency = \<lparr>cn_stable_reads = level, cn_cut_alignment = VERIFIED,
            cn_read_context_ids = [cx_context_id (ci_reference_context ci), cx_context_id (ci_target_context ci)]\<rparr>,
         pa_guarantee = NOT_ESTABLISHED,
         pa_comparison_coverage = ?coverage, pa_totals = t, pa_evidence_coverage = ?evidence,
         pa_metrics = m, pa_frontier = \<lparr>pf_topology = ?ts, pf_unresolved = unresolved\<rparr>, pa_anomalies = pg_anomalies p,
         pa_reference_full_scans = ug_reference_full_scans u,
         pa_target_full_scans = ug_target_full_scans u\<rparr>"
  have "validate_partial_frontier_coverage ?a = Inr ()"
    using anomalies by (auto simp: validate_partial_frontier_coverage_def Let_def require_def first check_all_eq_Inr_iff)
  moreover have "validate_partial_totals ?a = Inr ()"
    using t(2-4) by (auto simp: validate_partial_totals_def require_def difference_count_def)
  ultimately have "mk_PartialComparisonArtifact ?a = Inr ?a"
    using ids(2) m(2,3) retained_evidence_ok(1) [OF tally]
    by (simp add: mk_PartialComparisonArtifact_def require_def valid_identity_def require_nonnegative_integer_def)
  moreover have "partial_artifact_of sv ci p reason violated unresolved u w = mk_PartialComparisonArtifact ?a"
    unfolding partial_artifact_of_def Let_def count_state_sort level consistency_ok [OF ids(1)] coverage t(1)
      retained_evidence_ok(2) [OF tally] m(1) frontier ebind_Inr ..
  ultimately show ?thesis by simp
qed

section \<open>Every interruption is reported\<close>

text \<open>The ledger is in order and has not fallen behind the baseline of the attempt.\<close>

definition ledger_serves :: "attempt \<Rightarrow> ledger \<Rightarrow> bool" where
  "ledger_serves a l \<longleftrightarrow>
     (let u = lg_usage l; b = at_baseline a in
      ledger_ok l \<and> us_queries b \<le> su_queries u \<and> us_fetched_records b \<le> su_fetched_records u \<and>
      us_result_bytes b \<le> su_result_bytes u \<and> us_reference_full_scans b \<le> su_reference_full_scans u \<and>
      us_target_full_scans b \<le> su_target_full_scans u)"

lemma ledger_serves_steps: "ledger_step\<^sup>*\<^sup>* l l' \<Longrightarrow> ledger_serves a l \<Longrightarrow> ledger_serves a l'"
  using ledger_ok_steps [of l l'] ledger_steps_frame [of l l'] by (auto simp: ledger_serves_def Let_def usage_le_def)

lemma source_snapshot_total:
  assumes "ledger_serves a (sv_ledger sv w)"
  shows "\<exists>s w'. source_snapshot sv a w = (Inr s, w')"
proof -
  obtain now w1 now' w2 where c: "sv_clock sv w = (now, w1)" "sv_clock sv w1 = (now', w2)"
    by (cases "sv_clock sv w", cases "sv_clock sv (snd (sv_clock sv w))") auto
  have "attempt_snapshot a now now' (sv_ledger sv w) \<in> range Inr"
    using assms
    by (simp add: ledger_serves_def Let_def ledger_ok_def attempt_snapshot_def ledger_snapshot_def
        source_usage_snapshot_def mk_PostgresSourceUsageSnapshot_def validate_nonnegative_integer_def
        elapsed_milliseconds_since_def require_def)
  then show ?thesis using c by (auto simp: source_snapshot_def raised_def)
qed

definition unresolved_range :: "unresolved_segment \<Rightarrow> pending_segment" where
  "unresolved_range s =
     \<lparr>pe_segment_sequence = us_segment_sequence s, pe_parent_segment_sequence = us_parent_segment_sequence s,
      pe_depth = us_depth s, pe_lower_inclusive = us_lower_inclusive s, pe_upper_exclusive = us_upper_exclusive s\<rparr>"

text \<open>The ranges that a frontier accounts for: the resolved ones and the unresolved ones.\<close>

definition frontier_ranges :: "partial_frontier \<Rightarrow> pending_segment list" where
  "frontier_ranges f = map record_segment (resolved (pf_topology f)) @ map unresolved_range (pf_unresolved f)"

lemma holders_mset: "mset xs = mset ys \<Longrightarrow> holders k xs = holders k ys"
  unfolding holders_def by (metis mset_filter size_mset)

lemma holders_unresolved:
  "list_all2 (same_range reason) ps us \<Longrightarrow> holders k (map unresolved_range us) = holders k ps"
  by (induction rule: list_all2_induct)
    (auto simp: same_range_def unresolved_range_def segment_keys_def mathematical_upper_def)

lemma resolved_mset: "mset ts = mset ts' \<Longrightarrow> mset (map record_segment (resolved ts)) = mset (map record_segment (resolved ts'))"
  by (simp add: resolved_def)

lemma frontier_ranges_partition:
  assumes "partition_ok whole d (pg_pending p) (pg_topology p)" "list_all2 (same_range reason) (unresolved_pending p) us"
  shows "holders k (frontier_ranges \<lparr>pf_topology = ordered_topology p, pf_unresolved = us\<rparr>) = of_bool (k \<in> segment_keys whole)"
proof -
  have "holders k (frontier_ranges \<lparr>pf_topology = ordered_topology p, pf_unresolved = us\<rparr>) =
      holders k (map record_segment (resolved (pg_topology p))) + holders k (pg_pending p)"
    using holders_unresolved [OF assms(2), of k] holders_mset [OF running_unresolved [OF assms(1)], of k]
      holders_mset [OF resolved_mset [OF ordered_topology_mset], of k p]
    by (simp add: frontier_ranges_def)
  moreover have "holders k (pg_pending p) + holders k (map record_segment (resolved (pg_topology p))) =
      of_bool (k \<in> segment_keys whole)"
    using assms(1) by (simp only: partition_ok_def holders_simps)
  ultimately show ?thesis by (simp only: add.commute)
qed

lemma unresolved_of_pending:
  assumes "progress_ok whole b p"
  shows "\<exists>us. traverse (unresolved_of (pg_mismatch_witnesses p) reason) (unresolved_pending p) = Inr us \<and>
    list_all2 (same_range reason) (unresolved_pending p) us"
proof (rule traverse_total, rule ballI)
  fix s assume "s \<in> set (unresolved_pending p)"
  moreover have "set (unresolved_pending p) \<subseteq> set (pg_pending p)" by (auto simp: unresolved_pending_def)
  ultimately have "wf_pending s" using assms by (auto simp: progress_ok_def partition_ok_def)
  from unresolved_of_ok [OF this, of "pg_mismatch_witnesses p" reason]
  show "\<exists>y. unresolved_of (pg_mismatch_witnesses p) reason s = Inr y \<and> same_range reason s y"
    using assms by (auto simp: progress_ok_def same_range_def)
qed

lemma partial_comparison_artifact_ok:
  assumes p: "running_ok ci p" and ids: "cx_context_id (ci_reference_context ci) \<noteq> cx_context_id (ci_target_context ci)"
    "valid_identity ci" and ledger: "ledger_serves (ci_source_budget ci) (sv_ledger sv w)"
    and e: "interruption_reason_code e = Inr reason"
  shows "\<exists>a w' whole. partial_comparison_artifact sv ci p e w = (Inr a, w') \<and> mk_PartialComparisonArtifact a = Inr a \<and>
    wf_pending whole \<and> (\<forall>k. holders k (frontier_ranges (pa_frontier a)) = of_bool (k \<in> segment_keys whole)) \<and>
    us_reason ` set (pf_unresolved (pa_frontier a)) \<subseteq> {reason} \<and> pa_anomalies a = pg_anomalies p"
proof -
  obtain whole where whole: "progress_ok whole (ci_budgets ci) p" using p by (auto simp: running_ok_def)
  then have part: "partition_ok whole (eb_max_depth (ci_budgets ci)) (pg_pending p) (pg_topology p)" "usage_ok (pg_usage p)"
    by (simp_all add: progress_ok_def)
  obtain us where us: "traverse (unresolved_of (pg_mismatch_witnesses p) reason) (unresolved_pending p) = Inr us"
      "list_all2 (same_range reason) (unresolved_pending p) us"
    using unresolved_of_pending [OF whole] by blast
  obtain s w' where "source_snapshot sv (ci_source_budget ci) w = (Inr s, w')"
    using source_snapshot_total [OF ledger] by blast
  from result_metrics_ok [OF this part(2)] obtain u m where u:
    "consume_source_usage sv (pg_usage p) (ci_source_budget ci) 0 (ug_coordinator_peak_bytes (pg_usage p)) w = (Inr u, w')"
    "result_metrics_of u = Inr m" "0 \<le> ug_reference_full_scans u" "0 \<le> ug_target_full_scans u" by blast
  have stable: "pg_summaries_verified p \<longrightarrow> stable_contexts ci" using p by (simp add: running_ok_def)
  define violated where "violated = (case e of ComparisonKeyMappingError e \<Rightarrow> km_contract_violation_reason e \<noteq> None | _ \<Rightarrow> False)"
  from partial_artifact_of_ok [OF whole stable ids us(2) u(2-4), of sv violated w'] obtain a where a:
    "partial_artifact_of sv ci p reason violated us u w' = Inr a" "mk_PartialComparisonArtifact a = Inr a"
    "pa_frontier a = \<lparr>pf_topology = ordered_topology p, pf_unresolved = us\<rparr>" "pa_anomalies a = pg_anomalies p" by blast
  have "partial_comparison_artifact sv ci p e w = (Inr a, w')"
    using e us(1) u(1) a(1) by (simp add: partial_comparison_artifact_def wbind_def raised_def violated_def)
  moreover have "wf_pending whole" using part(1) by (simp add: partition_ok_def)
  moreover have "us_reason ` set us \<subseteq> {reason}" using same_range_sequences [OF us(2)] by auto
  ultimately show ?thesis
    using a frontier_ranges_partition [OF part(1) us(2)] by (intro exI [of _ a] exI [of _ w'] exI [of _ whole]) simp
qed

end
