(* ===== verification/Comparison_Snapshot.thy ===== *)
theory Comparison_Snapshot
  imports Comparison_Run
begin

text \<open>
  What a completed comparison says of the two tables. The connectors run SQL on a database that is not
  part of the program; the locale \<open>table_reads\<close> states what their three reads promise of the rows of a
  relation in its read context, and \<open>table_services\<close> are reads with these promises computed from
  lists of rows. On such reads the verdict of the engine is a statement about the two tables.
\<close>

section \<open>Rows of a range\<close>

definition request_rows :: "range_request \<Rightarrow> exact_row list \<Rightarrow> exact_row list" where
  "request_rows q rows =
     filter (\<lambda>r. rq_lower_inclusive q \<le> er_key_value r \<and>
       (case rq_upper_exclusive q of None \<Rightarrow> True | Some u \<Rightarrow> er_key_value r < u)) rows"

definition segment_rows :: "pending_segment \<Rightarrow> exact_row list \<Rightarrow> exact_row list" where
  "segment_rows s rows = filter (\<lambda>r. er_key_value r \<in> segment_keys s) rows"

definition table_ok :: "exact_row list \<Rightarrow> bool" where
  "table_ok rows \<longleftrightarrow> key_sorted rows \<and> (\<forall>r \<in> set rows. INT64_MIN \<le> er_key_value r \<and> er_key_value r \<le> INT64_MAX)"

definition tag_row :: "pystr \<Rightarrow> exact_row \<Rightarrow> exact_row" where
  "tag_row i r = r\<lparr>er_segment_id := i\<rparr>"

text \<open>The fingerprint of rows: the sums of the digests of their envelopes.\<close>

definition rows_fingerprint :: "exact_row list \<Rightarrow> fingerprint" where
  "rows_fingerprint rows = exact_fingerprint (map (\<lambda>r. envelope_sha256 (er_row_envelope r)) rows)"

text \<open>What a key summary without a violation of the key contract says of the rows.\<close>

definition summary_describes :: "key_summary \<Rightarrow> exact_row list \<Rightarrow> bool" where
  "summary_describes s rows \<longleftrightarrow>
     (ks_null_key_count s = 0 \<longrightarrow> ks_invalid_key_count s = 0 \<longrightarrow> ks_valid_key_count s = ks_distinct_key_count s \<longrightarrow>
      table_ok rows \<and> ks_row_count s = int (length rows) \<and>
      (\<forall>r \<in> set rows. \<exists>lo hi. ks_minimum_key s = Some lo \<and> ks_maximum_key s = Some hi \<and>
         lo \<le> er_key_value r \<and> er_key_value r \<le> hi))"

lemma tag_row_simps [simp]:
  "er_key_value (tag_row i r) = er_key_value r" "er_row_envelope (tag_row i r) = er_row_envelope r"
  "er_key_envelope (tag_row i r) = er_key_envelope r" "er_segment_id (tag_row i r) = i"
  by (simp_all add: tag_row_def)

lemma row_difference_counts_tag [simp]:
  "row_difference_counts (map (tag_row i) R) (map (tag_row j) T) = row_difference_counts R T"
proof -
  have keys: "row_keys (map (tag_row i) R) = row_keys R" for i R by (simp add: row_keys_def image_image)
  have "length (missing_rows (map (tag_row i) R) (map (tag_row j) T)) = length (missing_rows R T)" for i j R T
    unfolding missing_rows_def keys by (simp add: filter_map comp_def)
  moreover have "length (paired_rows rel (map (tag_row i) R) (map (tag_row j) T)) = length (paired_rows rel R T)" for rel
    unfolding paired_rows_def by (simp add: filter_map comp_def)
  ultimately show ?thesis by (simp add: row_difference_counts_def)
qed

lemma key_sorted_map_tag: "key_sorted (map (tag_row i) R) \<longleftrightarrow> key_sorted R"
  by (simp add: key_sorted_def comp_def)

lemma key_sorted_filter: "key_sorted R \<Longrightarrow> key_sorted (filter P R)"
  unfolding key_sorted_def by (simp add: sorted_wrt_map sorted_wrt_filter)

lemma request_rows_segment:
  assumes "range_request_of s = Inr q" "table_ok rows"
  shows "request_rows q rows = segment_rows s rows"
proof -
  have "rq_lower_inclusive q = pe_lower_inclusive s" "rq_upper_exclusive q = pe_upper_exclusive s"
    using assms(1) by (auto simp: range_request_of_def mk_PostgresIntegerRangeRequest_def result_iffs)
  then show ?thesis
    using assms(2) unfolding request_rows_def segment_rows_def
    by (intro filter_cong refl) (auto simp: segment_keys_def mathematical_upper_def table_ok_def split: option.splits)
qed

section \<open>The differences of a table are those of its ranges\<close>

lemma row_keys_segment: "er_key_value r \<in> segment_keys s \<Longrightarrow>
    er_key_value r \<in> row_keys (segment_rows s T) \<longleftrightarrow> er_key_value r \<in> row_keys T"
  by (auto simp: row_keys_def segment_rows_def)

lemma missing_rows_segment: "missing_rows (segment_rows s R) (segment_rows s T) = segment_rows s (missing_rows R T)"
  unfolding missing_rows_def
  by (simp add: segment_rows_def filter_filter) (auto intro!: filter_cong simp: row_keys_def)

lemma paired_rows_segment: "paired_rows rel (segment_rows s R) (segment_rows s T) = segment_rows s (paired_rows rel R T)"
  unfolding paired_rows_def
  by (simp add: segment_rows_def filter_filter) (auto intro!: filter_cong)

text \<open>Ranges that hold every key of the rows exactly once split the number of rows.\<close>

lemma length_by_ranges:
  assumes "\<forall>r \<in> set rows. holders (er_key_value r) ss = 1"
  shows "length rows = sum_list (map (\<lambda>s. length (segment_rows s rows)) ss)"
  using assms
proof (induction rows)
  case (Cons r rows)
  have "sum_list (map (\<lambda>s. length (segment_rows s (r # rows))) ss) =
      holders (er_key_value r) ss + sum_list (map (\<lambda>s. length (segment_rows s rows)) ss)"
    by (induction ss) (auto simp: segment_rows_def)
  then show ?case using Cons by simp
qed (simp add: segment_rows_def)

definition plus_counts :: "exact_counts \<Rightarrow> exact_counts \<Rightarrow> exact_counts" where
  "plus_counts a b = \<lparr>xc_matched = xc_matched a + xc_matched b, xc_missing = xc_missing a + xc_missing b,
     xc_extra = xc_extra a + xc_extra b, xc_modified = xc_modified a + xc_modified b\<rparr>"

definition sum_counts :: "exact_counts list \<Rightarrow> exact_counts" where
  "sum_counts cs = foldr plus_counts cs zero_counts"

lemma sum_counts_simps [simp]:
  "xc_matched (sum_counts cs) = sum_list (map xc_matched cs)" "xc_missing (sum_counts cs) = sum_list (map xc_missing cs)"
  "xc_extra (sum_counts cs) = sum_list (map xc_extra cs)" "xc_modified (sum_counts cs) = sum_list (map xc_modified cs)"
  unfolding sum_counts_def by (induction cs) (auto simp: plus_counts_def zero_counts_def)

lemma exact_counts_eqI:
  "xc_matched a = xc_matched b \<Longrightarrow> xc_missing a = xc_missing b \<Longrightarrow> xc_extra a = xc_extra b \<Longrightarrow>
   xc_modified a = xc_modified b \<Longrightarrow> (a :: exact_counts) = b"
  by (cases a, cases b) simp

lemma differences_by_ranges:
  assumes "\<forall>r \<in> set R \<union> set T. holders (er_key_value r) ss = 1"
  shows "row_difference_counts R T =
    sum_counts (map (\<lambda>s. row_difference_counts (segment_rows s R) (segment_rows s T)) ss)"
proof -
  have sub: "set (missing_rows R T) \<subseteq> set R" "set (missing_rows T R) \<subseteq> set T" "set (paired_rows rel R T) \<subseteq> set R" for rel
    by (auto simp: missing_rows_def paired_rows_def)
  have int_sum: "int (sum_list xs) = sum_list (map int xs)" for xs by (induction xs) simp_all
  have len: "int (length rows) = sum_list (map (\<lambda>s. int (length (segment_rows s rows))) ss)"
    if "set rows \<subseteq> set R \<union> set T" for rows
    using length_by_ranges [of rows ss] assms that int_sum [of "map (\<lambda>s. length (segment_rows s rows)) ss"]
    by (auto simp: comp_def subset_iff)
  show ?thesis
    using len [of "missing_rows R T"] len [of "missing_rows T R"] len [of "paired_rows (=) R T"]
      len [of "paired_rows (\<noteq>) R T"] sub
    by (intro exact_counts_eqI)
      (auto simp: row_difference_counts_def missing_rows_segment paired_rows_segment comp_def)
qed

section \<open>The content of a progress\<close>

definition node_content :: "exact_row list \<Rightarrow> exact_row list \<Rightarrow> fingerprint_node \<Rightarrow> bool" where
  "node_content R T n \<longleftrightarrow>
     rf_fingerprint (fn_reference n) = rows_fingerprint (segment_rows (fn_segment n) R) \<and>
     rf_fingerprint (fn_target n) = rows_fingerprint (segment_rows (fn_segment n) T)"

definition record_content :: "exact_row list \<Rightarrow> exact_row list \<Rightarrow> segment_record \<Rightarrow> bool" where
  "record_content R T r \<longleftrightarrow>
     sr_reference_fingerprint r = rows_fingerprint (segment_rows (record_segment r) R) \<and>
     sr_target_fingerprint r = rows_fingerprint (segment_rows (record_segment r) T)"

definition exact_records :: "segment_record list \<Rightarrow> segment_record list" where
  "exact_records ts = filter (\<lambda>r. sr_state r \<in> {EXACT_MATCH, EXACT_MISMATCH}) ts"

definition range_differences :: "exact_row list \<Rightarrow> exact_row list \<Rightarrow> segment_record \<Rightarrow> exact_counts" where
  "range_differences R T r = row_difference_counts (segment_rows (record_segment r) R) (segment_rows (record_segment r) T)"

definition content :: "exact_row list \<Rightarrow> exact_row list \<Rightarrow> progress \<Rightarrow> bool" where
  "content R T p \<longleftrightarrow>
     (\<forall>r \<in> set (pg_topology p). record_content R T r) \<and>
     pg_exact_counts p = sum_counts (map (range_differences R T) (exact_records (pg_topology p)))"

lemma exact_records_append [simp]:
  "exact_records (ts @ [r]) = exact_records ts @ (if sr_state r \<in> {EXACT_MATCH, EXACT_MISMATCH} then [r] else [])"
  by (simp add: exact_records_def)

lemma sum_counts_append: "sum_counts (cs @ [c]) = plus_counts (sum_counts cs) c"
  by (rule exact_counts_eqI) (simp_all add: plus_counts_def)

lemma record_content_of_node:
  "segment_record_of node st = Inr r \<Longrightarrow> node_content R T node \<Longrightarrow> record_content R T r"
  by (simp add: record_content_def node_content_def segment_record_of_result)

text \<open>A record that is not exact adds no differences.\<close>

lemma content_append:
  assumes "content R T p" "segment_record_of node st = Inr r" "node_content R T node" "st \<in> {FINGERPRINT_MATCH, SPLIT}"
    "pg_topology q = pg_topology p @ [r]" "pg_exact_counts q = pg_exact_counts p"
  shows "content R T q"
  using assms record_content_of_node [OF assms(2,3)] segment_record_of_result(2) [OF assms(2)]
  by (auto simp: content_def)

lemma content_fields:
  "content R T p \<Longrightarrow> pg_topology q = pg_topology p \<Longrightarrow> pg_exact_counts q = pg_exact_counts p \<Longrightarrow> content R T q"
  by (simp add: content_def)

lemma prune_loop_content:
  assumes "content R T p" "\<forall>n \<in> set nodes. node_content R T n"
  shows "gen_holds (\<lambda>_. True) (prune_loop clock d i nodes p) (content R T)"
  using assms
proof (induction nodes arbitrary: i p)
  case Nil
  then show ?case unfolding prune_loop.simps by (intro gen_rules)
next
  case (Cons node nodes)
  show ?case
    unfolding prune_loop.simps Let_def
  proof (intro gen_rules TrueI Cons.IH)
    fix r
    assume "segment_record_of node FINGERPRINT_MATCH = Inr r"
    then show "content R T (p\<lparr>pg_topology := pg_topology p @ [r],
        pg_pending := without_pending_sequence (pg_pending p) (pe_segment_sequence (fn_segment node)),
        pg_pruned_matched := pg_pruned_matched p + fp_count (rf_fingerprint (fn_reference node)),
        pg_pruned_segments := pg_pruned_segments p + 1\<rparr>)"
      by (rule content_append [OF Cons.prems(1)]) (use Cons.prems(2) in simp_all)
  qed (use Cons.prems(2) in simp_all)
qed

lemma publish_splits_loop_content:
  assumes "content R T p" "\<forall>(n, a, b) \<in> set splits. node_content R T n"
  shows "gen_holds (\<lambda>_. True) (publish_splits_loop processed splits p :: ('w, progress) gen) (content R T)"
  using assms
proof (induction splits arbitrary: p processed)
  case Nil
  then show ?case unfolding publish_splits_loop.simps by (intro gen_rules)
next
  case (Cons x splits)
  obtain node a c where x: "x = (node, a, c)" by (cases x)
  show ?case
    unfolding x publish_splits_loop.simps Let_def
  proof (intro gen_rules TrueI Cons.IH)
    fix r
    assume "segment_record_of node SPLIT = Inr r"
    then show "content R T (p\<lparr>pg_topology := pg_topology p @ [r],
        pg_pending := (processed @ [a, c]) @ map (\<lambda>(n, _). fn_segment n) splits,
        pg_mismatch_witnesses :=
          without_mismatch_witness (pg_mismatch_witnesses p) (pe_segment_sequence (fn_segment node))\<rparr>)"
      by (rule content_append [OF Cons.prems(1)]) (use Cons.prems(2) x in simp_all)
  qed (use Cons.prems(2) in simp_all)
qed

lemma split_level_content:
  assumes "content R T p" "\<forall>n \<in> set nodes. node_content R T n"
  shows "gen_holds (\<lambda>_. True) (split_level sv ci d nodes u p) (\<lambda>(_, _, p'). content R T p')"
  unfolding split_level_def Let_def
proof (intro gen_rules, rule gen_holds_wbind [where R = "content R T"])
  fix w splits w'
  assume "split_nodes_loop (sv_clock sv) d 0 (ug_fingerprint_nodes u) nodes w = (Inr splits, w')"
  then have "map fst splits = nodes" by (rule split_nodes_loop_result [THEN conjunct2])
  then have "\<forall>(n, a, b) \<in> set splits. node_content R T n" using assms(2) by force
  then show "gen_holds (\<lambda>_. True) (publish_splits_loop [] splits p) (content R T)"
    by (rule publish_splits_loop_content [OF assms(1)])
next
  fix w splits w' p'
  assume "content R T p'"
  then show "gen_holds (\<lambda>_. True) (wreturn (children_of splits, u, p')) (\<lambda>(_, _, p'). content R T p')"
    by (intro gen_rules) simp
qed

text \<open>The groups of exact rows hold the rows of each range.\<close>

definition groups_content :: "exact_row list \<Rightarrow> row_groups \<Rightarrow> fingerprint_node list \<Rightarrow> bool" where
  "groups_content R groups nodes \<longleftrightarrow>
     (\<forall>n \<in> set nodes. \<exists>i. segment_id (pe_segment_sequence (fn_segment n)) = Inr i \<and>
        group_rows groups i = Some (map (tag_row i) (segment_rows (fn_segment n) R)))"

lemma exact_leaf_content:
  assumes p: "content R T p" and n: "node_content R T node" "key_sorted R" "key_sorted T"
    and g: "groups_content R rr [node]" "groups_content T tr [node]"
  shows "gen_holds (\<lambda>_. True) (exact_leaf sv ci d rr tr node p) (content R T)"
  unfolding exact_leaf_def Let_def
proof (intro gen_rules TrueI, simp only: split_paired_all prod.case, intro gen_rules TrueI)
  fix R' T' w c r ds w' c' w1 p' w1'
  assume R': "rows_of_node rr node = Inr R'" and T': "rows_of_node tr node = Inr T'"
    and cl: "classify_exact_leaf (sv_clock sv) d node R' T' w = (Inr (c, r, ds), w')"
    and c': "add_exact_counts (pg_exact_counts p) c = Inr c'"
    and ret: "retain_exact_differences (sv_clock sv)
        (p\<lparr>pg_exact_counts := c', pg_exact_segments := pg_exact_segments p + 1,
           pg_topology := pg_topology p @ [r],
           pg_pending := without_pending_sequence (pg_pending p) (pe_segment_sequence (fn_segment node)),
           pg_mismatch_witnesses :=
             without_mismatch_witness (pg_mismatch_witnesses p) (pe_segment_sequence (fn_segment node))\<rparr>)
        ds (ci_check ci) (ci_evidence_policy ci) (ci_budgets ci) d w1 = (Inr p', w1')"
  note cl' = classify_exact_leaf_result [OF cl]
  note r = segment_record_of_result [OF cl'(1)]
  obtain i where id: "segment_id (pe_segment_sequence (fn_segment node)) = Inr i"
      "group_rows rr i = Some (map (tag_row i) (segment_rows (fn_segment node) R))"
    using g(1) by (auto simp: groups_content_def)
  moreover have "group_rows tr i = Some (map (tag_row i) (segment_rows (fn_segment node) T))"
    using g(2) id(1) by (auto simp: groups_content_def)
  ultimately have i: "R' = map (tag_row i) (segment_rows (fn_segment node) R)"
    "T' = map (tag_row i) (segment_rows (fn_segment node) T)"
    using R' T' by (simp_all add: rows_of_node_def)
  obtain w2 w3 where "compare_exact_rows (sv_clock sv) d R' T' (pe_segment_sequence (fn_segment node)) w2 = (Inr (c, ds), w3)"
    using cl'(10) by blast
  from compare_exact_rows_result(1) [OF this] have c: "c = range_differences R T r"
    using n(2,3) by (simp add: i key_sorted_map_tag key_sorted_filter segment_rows_def range_differences_def r(1))
  have "pg_topology p' = pg_topology p @ [r]" "pg_exact_counts p' = plus_counts (pg_exact_counts p) c"
    using ret c' by (auto simp: retain_exact_differences_def weff_iffs add_exact_counts_def mk_ExactCounts_def result_iffs plus_counts_def)
  then show "content R T p'"
    using p record_content_of_node [OF cl'(1) n(1)] r(2) c
    by (auto simp: content_def sum_counts_append split: if_splits)
qed

lemma exact_leaves_loop_content:
  assumes "content R T p" "\<forall>n \<in> set nodes. node_content R T n" "key_sorted R" "key_sorted T"
    "groups_content R rr nodes" "groups_content T tr nodes"
  shows "gen_holds (\<lambda>_. True) (exact_leaves_loop sv ci d rr tr nodes p) (content R T)"
  using assms
proof (induction nodes arbitrary: p)
  case Nil
  then show ?case unfolding exact_leaves_loop.simps by (intro gen_rules)
next
  case (Cons node nodes)
  show ?case
    unfolding exact_leaves_loop.simps
    by (rule gen_holds_wbind [OF exact_leaf_content Cons.IH]) (use Cons.prems in \<open>auto simp: groups_content_def\<close>)
qed

section \<open>What the reads promise\<close>

text \<open>The rows of a relation, within a scope, in the snapshot of its read context. They do not change during
  the run. A summary has passed its constructor; fingerprints and rows are those of the requested
  ranges, when the rows have unique keys.\<close>

type_synonym tables = "read_context \<Rightarrow> comparison_relation \<Rightarrow> scope_predicate option \<Rightarrow> exact_row list"

definition reference_table :: "tables \<Rightarrow> comparison_inputs \<Rightarrow> validated_inputs \<Rightarrow> exact_row list" where
  "reference_table table ci vi = table (ci_reference_context ci) (ci_reference_relation ci) (vi_reference_scope vi)"

definition target_table :: "tables \<Rightarrow> comparison_inputs \<Rightarrow> validated_inputs \<Rightarrow> exact_row list" where
  "target_table table ci vi = table (ci_target_context ci) (ci_target_relation ci) (vi_target_scope vi)"

definition tables_ok :: "tables \<Rightarrow> comparison_inputs \<Rightarrow> validated_inputs \<Rightarrow> bool" where
  "tables_ok table ci vi \<longleftrightarrow> table_ok (reference_table table ci vi) \<and> table_ok (target_table table ci vi)"

lemma list_all2_member: "list_all2 P xs ys \<Longrightarrow> x \<in> set xs \<Longrightarrow> \<exists>y \<in> set ys. P x y"
  by (induction rule: list_all2_induct) auto

locale table_reads =
  fixes sv :: "'w services"
    and table :: tables
  assumes summary_read: "sv_read_summary sv c rel i sc a b e d n w = (Inr s, w') \<Longrightarrow>
      mk_PostgresIntegerKeySummary (ksr_summary s) = Inr (ksr_summary s) \<and> summary_describes (ksr_summary s) (table c rel sc)"
    and fingerprint_read: "sv_read_fingerprints sv c rel i sc qs a b e d n w = (Inr f, w') \<Longrightarrow> table_ok (table c rel sc) \<Longrightarrow>
      map rf_fingerprint (rfr_ranges f) = map (\<lambda>q. rows_fingerprint (request_rows q (table c rel sc))) qs"
    and row_read: "sv_read_rows sv c rel i sc qs a b e g d n w = (Inr x, w') \<Longrightarrow> table_ok (table c rel sc) \<Longrightarrow>
      distinct (map rq_segment_id qs) \<Longrightarrow> q \<in> set qs \<Longrightarrow>
      filter (\<lambda>r. er_segment_id r = rq_segment_id q) (err_rows x) =
        map (tag_row (rq_segment_id q)) (request_rows q (table c rel sc))"
begin

lemma receipts: "valid_receipts sv"
  unfolding valid_receipts_def by (intro allI impI) (drule summary_read, simp)

lemma fingerprint_level_content:
  assumes ok: "tables_ok table ci vi" and plan: "traverse range_request_of pending = Inr (lp_requests plan)"
    and read: "read_fingerprint_level sv ci vi u d plan w = (Inr (rf, tf, u'), w')"
    and nodes: "fingerprint_nodes clock e pending rf tf v = (Inr nodes, v')"
  shows "\<forall>n \<in> set nodes. node_content (reference_table table ci vi) (target_table table ci vi) n"
proof -
  have tables: "table_ok (reference_table table ci vi)" "table_ok (target_table table ci vi)" using ok by (simp_all add: tables_ok_def)
  have "map rf_fingerprint (rfr_ranges rf) = map (\<lambda>q. rows_fingerprint (request_rows q (reference_table table ci vi))) (lp_requests plan)"
    "map rf_fingerprint (rfr_ranges tf) = map (\<lambda>q. rows_fingerprint (request_rows q (target_table table ci vi))) (lp_requests plan)"
    using read tables
    by (auto simp: read_fingerprint_level_def Let_def weff_iffs read_integer_range_fingerprints_def reference_table_def
        target_table_def split: prod.splits if_splits dest!: fingerprint_read)
  moreover have "list_all2 (\<lambda>s q. range_request_of s = Inr q) pending (lp_requests plan)"
    using plan by (simp add: traverse_eq_Inr_iff)
  then have requests: "map (\<lambda>q. rows_fingerprint (request_rows q rows)) (lp_requests plan) =
      map (\<lambda>s. rows_fingerprint (segment_rows s rows)) pending" if "table_ok rows" for rows
    by (induction rule: list_all2_induct) (auto simp: request_rows_segment [OF _ that])
  note result = fingerprint_nodes_result [OF nodes]
  ultimately have "map (\<lambda>n. rf_fingerprint (fn_reference n)) nodes =
        map (\<lambda>n. rows_fingerprint (segment_rows (fn_segment n) (reference_table table ci vi))) nodes"
      "map (\<lambda>n. rf_fingerprint (fn_target n)) nodes =
        map (\<lambda>n. rows_fingerprint (segment_rows (fn_segment n) (target_table table ci vi))) nodes"
    using requests [OF tables(1)] requests [OF tables(2)]
    unfolding result(1) [symmetric] result(2,3) [symmetric] by (simp_all add: comp_def)
  then show ?thesis by (simp add: node_content_def)
qed

lemma requests_distinct:
  assumes "traverse (\<lambda>n. range_request_of (fn_segment n)) nodes = Inr qs"
    "distinct (map (\<lambda>n. pe_segment_sequence (fn_segment n)) nodes)"
  shows "distinct (map rq_segment_id qs)"
    and "list_all2 (\<lambda>n q. range_request_of (fn_segment n) = Inr q \<and>
      segment_id (pe_segment_sequence (fn_segment n)) = Inr (rq_segment_id q)) nodes qs"
proof -
  have id: "segment_id (pe_segment_sequence s) = Inr (rq_segment_id q)" if "range_request_of s = Inr q" for s q
    using that by (auto simp: range_request_of_def mk_PostgresIntegerRangeRequest_def result_iffs)
  have inj: "m = n" if "segment_id m = Inr i" "segment_id n = Inr i" for m n i
  proof -
    have "int_str m = int_str n" using that by (auto simp: segment_id_def result_iffs)
    then show ?thesis by (metis parse_int_str)
  qed
  have all: "list_all2 (\<lambda>n q. range_request_of (fn_segment n) = Inr q) nodes qs"
    using assms(1) by (simp add: traverse_eq_Inr_iff)
  then show ids: "list_all2 (\<lambda>n q. range_request_of (fn_segment n) = Inr q \<and>
      segment_id (pe_segment_sequence (fn_segment n)) = Inr (rq_segment_id q)) nodes qs"
    by (rule list_all2_mono) (simp add: id)
  have "map (\<lambda>n. segment_id (pe_segment_sequence (fn_segment n))) nodes = map Inr (map rq_segment_id qs)"
    using ids by (induction rule: list_all2_induct) auto
  moreover have "inj_on (\<lambda>n. segment_id (pe_segment_sequence (fn_segment n))) (set nodes)"
  proof (rule inj_onI)
    fix x y
    assume xy: "x \<in> set nodes" "y \<in> set nodes"
      "segment_id (pe_segment_sequence (fn_segment x)) = segment_id (pe_segment_sequence (fn_segment y))"
    obtain i where "segment_id (pe_segment_sequence (fn_segment x)) = Inr i"
      using ids xy(1) by (force simp: list_all2_conv_all_nth in_set_conv_nth)
    then have "pe_segment_sequence (fn_segment x) = pe_segment_sequence (fn_segment y)"
      using inj xy(3) by metis
    then show "x = y" using assms(2) xy(1,2) by (auto simp: distinct_map inj_on_def)
  qed
  then have "distinct (map (\<lambda>n. segment_id (pe_segment_sequence (fn_segment n))) nodes)"
    using assms(2) by (simp add: distinct_map)
  ultimately have "distinct (map (Inr :: pystr \<Rightarrow> exn + pystr) (map rq_segment_id qs))" by simp
  then show "distinct (map rq_segment_id qs)" unfolding distinct_map [of Inr] by blast
qed

lemma exact_frontier_content:
  assumes ok: "tables_ok table ci vi" and dist: "distinct (map (\<lambda>n. pe_segment_sequence (fn_segment n)) nodes)"
    and read: "read_exact_frontier sv ci vi nodes res u d w = (Inr (re, te, u'), w')"
    and groups: "group_exact_frontier_rows clock e nodes re te v = (Inr (rr, tr), v')"
  shows "groups_content (reference_table table ci vi) rr nodes \<and> groups_content (target_table table ci vi) tr nodes"
proof -
  have tables: "table_ok (reference_table table ci vi)" "table_ok (target_table table ci vi)" using ok by (simp_all add: tables_ok_def)
  from read obtain qs where qs: "traverse (\<lambda>n. range_request_of (fn_segment n)) nodes = Inr qs"
    by (auto simp: read_exact_frontier_def Let_def weff_iffs raised_iffs)
  note distinct = requests_distinct [OF qs dist]
  have rows: "\<forall>q \<in> set qs. filter (\<lambda>r. er_segment_id r = rq_segment_id q) (err_rows re) =
        map (tag_row (rq_segment_id q)) (request_rows q (reference_table table ci vi)) \<and>
      filter (\<lambda>r. er_segment_id r = rq_segment_id q) (err_rows te) =
        map (tag_row (rq_segment_id q)) (request_rows q (target_table table ci vi))"
  proof -
    from read qs obtain c1 rel1 i1 sc1 a1 b1 e1 g1 d1 n1 w1 w2 c2 rel2 i2 sc2 a2 b2 e2 g2 d2 n2 w3 w4 where
      "sv_read_rows sv (ci_reference_context ci) (ci_reference_relation ci) i1 (vi_reference_scope vi) qs a1 b1 e1 g1 d1 n1 w1 = (Inr re, w2)"
      "sv_read_rows sv (ci_target_context ci) (ci_target_relation ci) i2 (vi_target_scope vi) qs a2 b2 e2 g2 d2 n2 w3 = (Inr te, w4)"
      by (auto simp: read_exact_frontier_def Let_def weff_iffs raised_iffs read_integer_range_rows_def split: if_splits)
    then show ?thesis
      using row_read tables distinct(1) by (simp add: reference_table_def target_table_def)
  qed
  have content: "groups_content rows g nodes"
    if g: "group_exact_rows clock e (err_rows x) ids w1 = (Inr g, w2)"
      and ids: "traverse (\<lambda>n. segment_id (pe_segment_sequence (fn_segment n))) nodes = Inr ids"
      and x: "\<forall>q \<in> set qs. filter (\<lambda>r. er_segment_id r = rq_segment_id q) (err_rows x) =
        map (tag_row (rq_segment_id q)) (request_rows q rows)" and rows: "table_ok rows"
    for rows g x ids w1 w2
    unfolding groups_content_def
  proof
    fix n assume n: "n \<in> set nodes"
    then obtain q where q: "q \<in> set qs" "range_request_of (fn_segment n) = Inr q"
        "segment_id (pe_segment_sequence (fn_segment n)) = Inr (rq_segment_id q)"
      using list_all2_member [OF distinct(2)] by blast
    have "list_all2 (\<lambda>n i. segment_id (pe_segment_sequence (fn_segment n)) = Inr i) nodes ids"
      using ids by (simp add: traverse_eq_Inr_iff)
    then have "rq_segment_id q \<in> set ids"
      using list_all2_member n q(3) by fastforce
    from group_exact_rows_result(1) [OF g this]
    show "\<exists>i. segment_id (pe_segment_sequence (fn_segment n)) = Inr i \<and>
        group_rows g i = Some (map (tag_row i) (segment_rows (fn_segment n) rows))"
      using q x request_rows_segment [OF q(2) rows] by simp
  qed
  from groups obtain ids w1 w2 w3 w4 where "traverse (\<lambda>n. segment_id (pe_segment_sequence (fn_segment n))) nodes = Inr ids"
    "group_exact_rows clock e (err_rows re) ids w1 = (Inr rr, w2)" "group_exact_rows clock e (err_rows te) ids w3 = (Inr tr, w4)"
    by (auto simp: group_exact_frontier_rows_def weff_iffs raised_iffs)
  then show ?thesis using content rows tables by blast
qed

lemma exact_level_content:
  assumes ok: "tables_ok table ci vi" and p: "content (reference_table table ci vi) (target_table table ci vi) p"
    and n: "\<forall>n \<in> set nodes. node_content (reference_table table ci vi) (target_table table ci vi) n"
    and dist: "distinct (map (\<lambda>n. pe_segment_sequence (fn_segment n)) nodes)"
  shows "gen_holds (\<lambda>_. True) (exact_level sv ci vi d nodes res u p)
    (\<lambda>(_, _, p'). content (reference_table table ci vi) (target_table table ci vi) p')"
  unfolding exact_level_def Let_def
proof (intro gen_rules TrueI, simp only: split_paired_all prod.case, intro gen_rules TrueI, goal_cases)
  case (1 w re te u2 w' v groups v')
  let ?R = "reference_table table ci vi" and ?T = "target_table table ci vi"
  obtain rr tr where groups: "groups = (rr, tr)" by (cases groups)
  have sorted: "key_sorted ?R" "key_sorted ?T" using ok by (simp_all add: tables_ok_def table_ok_def)
  have g: "groups_content ?R rr nodes" "groups_content ?T tr nodes"
    using exact_frontier_content [OF ok dist 1(1) 1(2) [unfolded groups]] by simp_all
  have p2: "content ?R ?T (p\<lparr>pg_usage := usage_with_coordinator_peak u (fr_coordinator_peak_bytes res), pg_usage := u2\<rparr>)"
    by (rule content_fields [OF p]) simp_all
  show ?case
    unfolding groups prod.case
    by (rule gen_holds_wbind [OF exact_leaves_loop_content [OF p2 n sorted g]]) (intro gen_rules, simp)
qed

lemma comparison_level_content:
  assumes ok: "tables_ok table ci vi" and p: "content (reference_table table ci vi) (target_table table ci vi) p"
    and dist: "distinct (map pe_segment_sequence pending)"
  shows "gen_holds (\<lambda>_. True) (comparison_level sv z ci vi d rs ts pending u p)
    (\<lambda>(_, _, p'). content (reference_table table ci vi) (target_table table ci vi) p')"
  unfolding comparison_level_def Let_def
proof (intro gen_rules TrueI, simp only: split_paired_all prod.case, intro gen_rules TrueI, goal_cases)
  case (1 _ plan w rf tf u2 w' v nodes v' _ y parts y')
  let ?R = "reference_table table ci vi" and ?T = "target_table table ci vi"
  obtain matching mismatching where parts: "parts = (matching, mismatching)" by (cases parts)
  note filters = partition_fingerprint_nodes_result [OF 1(6) [unfolded parts]]
  note segs = fingerprint_nodes_result(1) [OF 1(4)]
  have plan: "traverse range_request_of pending = Inr (lp_requests plan)"
    using plan_fingerprint_level_nodes [OF 1(2)] by simp
  have nodes: "\<forall>n \<in> set nodes. node_content ?R ?T n" by (rule fingerprint_level_content [OF ok plan 1(3,4)])
  have "distinct (map (\<lambda>n. pe_segment_sequence (fn_segment n)) nodes)"
    using dist unfolding segs [symmetric] map_map comp_def .
  then have dist': "distinct (map (\<lambda>n. pe_segment_sequence (fn_segment n)) mismatching)"
    unfolding filters by (simp add: distinct_map_filter)
  let ?p2 = "p\<lparr>pg_usage := usage_with_coordinator_peak u (lp_coordinator_peak_bytes plan), pg_usage := u2\<rparr>"
  define p3 where "p3 = (if mismatching = [] then ?p2 else progress_with_mismatch_witnesses ?p2 mismatching)"
  have "pg_topology p3 = pg_topology p" "pg_exact_counts p3 = pg_exact_counts p"
    by (simp_all add: p3_def progress_with_mismatch_witnesses_def Let_def split: if_split)
  then have p3: "content ?R ?T p3" by (rule content_fields [OF p])
  have matching: "\<forall>n \<in> set matching. node_content ?R ?T n" and mismatching: "\<forall>n \<in> set mismatching. node_content ?R ?T n"
    using nodes unfolding filters by simp_all
  show ?case
    unfolding parts prod.case p3_def [symmetric]
  proof (intro gen_rules TrueI, rule gen_holds_wbind [OF prune_loop_content [OF p3 matching]])
    fix p4 assume p4: "content ?R ?T p4"
    show "gen_holds (\<lambda>_. True)
        (if mismatching = [] then wreturn ([], u2, p4)
         else wbind (raised (exact_frontier_reservation_of z mismatching (ci_reference_context ci)
                  (ci_reference_relation ci) (ci_target_context ci) u2 (ci_budgets ci) (vi_max_encoded_row_bytes vi)
                  (int (length (cs_fields (ls_schema (rc_comparison_schema (ci_check ci))))))
                  (vi_reference_member_count vi) (vi_target_member_count vi)
                  (vi_reference_physical_scan_count vi) (vi_target_physical_scan_count vi))) (\<lambda>reservation.
              wbind (inner (exact_frontier_fits sv reservation (ci_budgets ci))) (\<lambda>fits.
              if fits then exact_level sv ci vi d mismatching reservation u2 p4
              else split_level sv ci (rd_deadline_nanoseconds d) mismatching u2 p4)))
        (\<lambda>(_, _, p'). content ?R ?T p')"
    proof (cases "mismatching = []")
      case True
      then show ?thesis unfolding if_P [OF True] using p4 by (intro gen_rules) simp
    next
      case False
      show ?thesis
        unfolding if_not_P [OF False]
      proof (intro gen_rules)
        fix reservation w fits w'
        show "gen_holds (\<lambda>_. True)
            (if fits then exact_level sv ci vi d mismatching reservation u2 p4
             else split_level sv ci (rd_deadline_nanoseconds d) mismatching u2 p4)
            (\<lambda>(_, _, p'). content ?R ?T p')"
          using exact_level_content [OF ok p4 mismatching dist'] split_level_content [OF p4 mismatching]
          by (cases fits) simp_all
      qed
    qed
  qed
qed

end

lemma comparison_loop_content:
  assumes "comparison_loop sv z ci vi d rs ts pending u p s = (r, s')" "table_reads sv table" "tables_ok table ci vi"
    and "level_ok whole (ci_budgets ci) (pending, u, p)" "progress_ok whole (ci_budgets ci) (snd s)"
    and "content (reference_table table ci vi) (target_table table ci vi) p"
  shows "r = Inr (u', p') \<Longrightarrow> content (reference_table table ci vi) (target_table table ci vi) p'"
  using assms
proof (induction sv z ci vi d rs ts pending u p s rule: comparison_loop.induct)
  case (1 sv z ci vi d rs ts pending u p s)
  show ?case
  proof (cases "pending = []")
    case True
    then show ?thesis
      using "1.prems" comparison_loop.simps [of sv z ci vi d rs ts "[]" u p s] by auto
  next
    case False
    obtain r1 s1 where run: "comparison_level sv z ci vi d rs ts pending u p s = (r1, s1)"
      by (cases "comparison_level sv z ci vi d rs ts pending u p s")
    obtain w q w1 q1 where s: "s = (w, q)" "s1 = (w1, q1)" by (cases s, cases s1)
    obtain pending1 u1 p1 where x: "r1 = Inr (pending1, u1, p1)"
      and rest: "comparison_loop sv z ci vi d rs ts pending1 u1 p1 s1 = (r, s')"
      using "1.prems"(1,2) False run
      by (cases r1) (auto simp: comparison_loop.simps [of sv z ci vi d rs ts pending u p s])
    have level: "progress_ok whole (ci_budgets ci) q1" "level_ok whole (ci_budgets ci) (pending1, u1, p1)"
      using comparison_level_holds [OF "1.prems"(5) refl, of sv z vi d rs ts] "1.prems"(6) run s x
      unfolding gen_holds_def by auto
    have "distinct (map pe_segment_sequence pending)"
      using "1.prems"(5) pending_distinct by (auto simp: level_ok_def progress_ok_def)
    note table_reads.comparison_level_content [OF "1.prems"(3,4,7) this, of z d rs ts u]
    from gen_holds_run(2) [OF this TrueI run [unfolded s] x]
    have "content (reference_table table ci vi) (target_table table ci vi) p1" by simp
    then show ?thesis
      using "1.IH" [OF False run [symmetric] x refl refl "1.prems"(1) rest "1.prems"(3,4) level(2)] level(1) s by simp
  qed
qed

text \<open>The root range holds every key of both tables.\<close>

lemma root_segment_covers:
  assumes "mk_PostgresIntegerKeySummary s = Inr s" "mk_PostgresIntegerKeySummary t = Inr t"
    and "x \<in> {s, t}" "ks_minimum_key x = Some lo" "ks_maximum_key x = Some hi" "lo \<le> k" "k \<le> hi"
  shows "k \<in> segment_keys (root_segment s t)"
proof -
  have bounds: "(ks_minimum_key x = None \<longleftrightarrow> ks_maximum_key x = None) \<and>
      (\<forall>hi. ks_maximum_key x = Some hi \<longrightarrow> hi \<le> INT64_MAX)"
    if "mk_PostgresIntegerKeySummary x = Inr x" for x
    using key_summary_bounds [OF that] by blast
  show ?thesis
    using bounds [OF assms(1)] bounds [OF assms(2)] assms(3-7)
    by (cases "ks_minimum_key s"; cases "ks_minimum_key t"; cases "ks_maximum_key s"; cases "ks_maximum_key t")
      (auto simp: segment_keys_def mathematical_upper_def root_segment_def Let_def map_filter_simps max_def min_def)
qed

text \<open>A pruned range whose rows differ: rows with different envelopes have the same fingerprint.\<close>

definition collides :: "exact_row list \<Rightarrow> exact_row list \<Rightarrow> segment_record \<Rightarrow> bool" where
  "collides R T r \<longleftrightarrow>
     sr_state r = FINGERPRINT_MATCH \<and>
     rows_fingerprint (segment_rows (record_segment r) R) = rows_fingerprint (segment_rows (record_segment r) T) \<and>
     0 < difference_count (range_differences R T r)"

lemma row_counts_nonneg:
  "0 \<le> xc_matched (row_difference_counts R T)" "0 \<le> xc_missing (row_difference_counts R T)"
  "0 \<le> xc_extra (row_difference_counts R T)" "0 \<le> xc_modified (row_difference_counts R T)"
  by (simp_all add: row_difference_counts_def)

lemma sum_counts_perm:
  "mset cs = mset cs' \<Longrightarrow> sum_counts cs = sum_counts cs'"
  by (rule exact_counts_eqI) (simp_all add: sum_mset_sum_list [symmetric])

lemma resolved_states: "mset (resolved ts) = mset (filter (\<lambda>r. sr_state r = FINGERPRINT_MATCH) ts) + mset (exact_records ts)"
proof (induction ts)
  case (Cons r ts)
  then show ?case by (cases "sr_state r") (simp_all add: resolved_def exact_records_def)
qed (simp add: resolved_def exact_records_def)

section \<open>The verdict\<close>

text \<open>The differences of the tables are those of the pruned ranges and those that the exact ranges counted.\<close>

lemma final_differences:
  assumes "partition_ok whole d [] ts" "\<forall>r \<in> set R \<union> set T. er_key_value r \<in> segment_keys whole"
  shows "row_difference_counts R T = plus_counts
    (sum_counts (map (range_differences R T) (filter (\<lambda>r. sr_state r = FINGERPRINT_MATCH) ts)))
    (sum_counts (map (range_differences R T) (exact_records ts)))"
proof -
  have holders: "holders k (map record_segment (resolved ts)) = of_bool (k \<in> segment_keys whole)" for k
    using assms(1) by (simp add: partition_ok_def)
  then have "\<forall>r \<in> set R \<union> set T. holders (er_key_value r) (map record_segment (resolved ts)) = 1"
    using assms(2) by simp
  from differences_by_ranges [OF this]
  have "row_difference_counts R T = sum_counts (map (range_differences R T) (resolved ts))"
    by (simp add: range_differences_def comp_def)
  also have "\<dots> = sum_counts (map (range_differences R T)
      (filter (\<lambda>r. sr_state r = FINGERPRINT_MATCH) ts @ exact_records ts))"
    using resolved_states [of ts] by (intro sum_counts_perm) simp
  also have "\<dots> = plus_counts
    (sum_counts (map (range_differences R T) (filter (\<lambda>r. sr_state r = FINGERPRINT_MATCH) ts)))
    (sum_counts (map (range_differences R T) (exact_records ts)))"
    by (intro exact_counts_eqI) (simp_all add: plus_counts_def)
  finally show ?thesis .
qed

lemma fingerprint_count: "fp_count (rows_fingerprint rows) = int (length rows)"
  by (simp add: rows_fingerprint_def exact_fingerprint_def)

text \<open>A pruned range without a collision is matched in full.\<close>

lemma pruned_range_matches:
  assumes "mk_ComparisonSegmentRecord r = Inr r" "sr_state r = FINGERPRINT_MATCH" "record_content R T r"
    "\<not> collides R T r" "key_sorted R" "key_sorted T"
  shows "range_differences R T r =
    \<lparr>xc_matched = fp_count (sr_reference_fingerprint r), xc_missing = 0, xc_extra = 0, xc_modified = 0\<rparr>"
proof -
  let ?R = "segment_rows (record_segment r) R" and ?T = "segment_rows (record_segment r) T"
  have "sr_reference_fingerprint r = sr_target_fingerprint r"
    using assms(1,2) by (auto simp: mk_ComparisonSegmentRecord_def result_iffs)
  then have "rows_fingerprint ?R = rows_fingerprint ?T" using assms(3) unfolding record_content_def by metis
  then have "\<not> 0 < difference_count (range_differences R T r)"
    using assms(2,4) by (simp add: collides_def)
  then have zero: "xc_missing (row_difference_counts ?R ?T) = 0" "xc_extra (row_difference_counts ?R ?T) = 0"
      "xc_modified (row_difference_counts ?R ?T) = 0"
    using row_counts_nonneg [of ?R ?T] by (simp_all add: difference_count_def range_differences_def)
  have "key_sorted ?R" "key_sorted ?T" using assms(5,6) by (simp_all add: segment_rows_def key_sorted_filter)
  from counts_close(1) [OF this] have "xc_matched (row_difference_counts ?R ?T) = fp_count (sr_reference_fingerprint r)"
    using zero assms(3) by (simp add: record_content_def fingerprint_count)
  then show ?thesis using zero by (intro exact_counts_eqI) (simp_all add: range_differences_def)
qed

lemma sum_differences_nonneg: "0 \<le> difference_count (sum_counts (map (range_differences R T) rs))"
proof (induction rs)
  case (Cons r rs)
  then show ?case
    using row_counts_nonneg [of "segment_rows (record_segment r) R" "segment_rows (record_segment r) T"]
    by (simp add: difference_count_def range_differences_def)
qed (simp add: difference_count_def)

lemma final_counts:
  assumes p: "level_ok whole b ([], u, p)" "content R T p" "table_ok R" "table_ok T"
    and keys: "\<forall>r \<in> set R \<union> set T. er_key_value r \<in> segment_keys whole"
  shows "difference_count (pg_exact_counts p) \<le> difference_count (row_difference_counts R T)"
    and "\<forall>r \<in> set (pg_topology p). \<not> collides R T r \<Longrightarrow>
      row_difference_counts R T = (pg_exact_counts p)\<lparr>xc_matched := pg_pruned_matched p + xc_matched (pg_exact_counts p)\<rparr>"
proof -
  let ?pruned = "filter (\<lambda>r. sr_state r = FINGERPRINT_MATCH) (pg_topology p)"
  have part: "partition_ok whole (eb_max_depth b) [] (pg_topology p)" and tally: "tally_ok b p"
    using p(1) by (auto simp: level_ok_def progress_ok_def)
  have total: "row_difference_counts R T = plus_counts (sum_counts (map (range_differences R T) ?pruned)) (pg_exact_counts p)"
    using final_differences [OF part keys] p(2) by (simp add: content_def)
  show "difference_count (pg_exact_counts p) \<le> difference_count (row_difference_counts R T)"
    using sum_differences_nonneg [of R T ?pruned] unfolding total by (simp add: difference_count_def plus_counts_def)
  assume "\<forall>r \<in> set (pg_topology p). \<not> collides R T r"
  then have matches: "map (range_differences R T) ?pruned =
      map (\<lambda>r. \<lparr>xc_matched = fp_count (sr_reference_fingerprint r), xc_missing = 0, xc_extra = 0, xc_modified = 0\<rparr>) ?pruned"
    using part p(2-4) by (intro map_cong refl pruned_range_matches) (auto simp: partition_ok_def content_def table_ok_def)
  have "sum_counts (map (range_differences R T) ?pruned) =
      \<lparr>xc_matched = pg_pruned_matched p, xc_missing = 0, xc_extra = 0, xc_modified = 0\<rparr>"
    unfolding matches using tally
    by (intro exact_counts_eqI) (simp_all add: comp_def tally_ok_def Let_def reference_rows_def)
  then show "row_difference_counts R T = (pg_exact_counts p)\<lparr>xc_matched := pg_pruned_matched p + xc_matched (pg_exact_counts p)\<rparr>"
    unfolding total by (intro exact_counts_eqI) (simp_all add: plus_counts_def)
qed

lemma mk_CompletedComparisonArtifact_eq: "mk_CompletedComparisonArtifact x = Inr a \<Longrightarrow> a = x"
  by (simp add: mk_CompletedComparisonArtifact_def result_iffs)

definition final_totals :: "progress \<Rightarrow> exact_counts" where
  "final_totals p = (pg_exact_counts p)\<lparr>xc_matched := pg_pruned_matched p + xc_matched (pg_exact_counts p)\<rparr>"

definition completed_facts :: "progress \<Rightarrow> completed_artifact \<Rightarrow> bool" where
  "completed_facts p a \<longleftrightarrow>
     ca_segments a = ordered_topology p \<and> ca_anomalies a = pg_anomalies p \<and>
     ca_verdict a = (if difference_count (pg_exact_counts p) = 0 then MATCH else MISMATCH) \<and>
     ca_guarantee a = (if pg_pruned_segments p > 0 then FINGERPRINT else EXACT) \<and>
     comparison_totals_of (final_totals p) (ca_guarantee a) = Inr (ca_totals a) \<and>
     mk_CompletedComparisonArtifact a = Inr a"

lemma completed_comparison_facts:
  "gen_holds (\<lambda>_. True) (completed_comparison sv ci sm u p) (completed_facts p)"
  unfolding completed_comparison_def Let_def
proof (intro gen_rules TrueI gen_holds_inner, goal_cases)
  case (1 c totals reasons w _ w' v u' v' x a x')
  have c: "c = final_totals p"
    using 1(2) by (cases "pg_exact_counts p") (simp add: final_totals_def mk_ExactCounts_iff)
  from 1(8) obtain consistency coverage evidence metrics where
    a: "mk_CompletedComparisonArtifact
         \<lparr>ca_check_id = rc_check_id (ci_check ci), ca_contract_digest = rc_contract_digest (ci_check ci),
          ca_scope_digest = rs_scope_digest (ci_scope ci), ca_input_cut_digest = ic_input_cut_digest (ci_input_cut ci),
          ca_verdict = if xc_missing c + xc_extra c + xc_modified c = 0 then MATCH else MISMATCH,
          ca_consistency = consistency,
          ca_guarantee = if 0 < pg_pruned_segments p then FINGERPRINT else EXACT,
          ca_comparison_coverage = coverage, ca_totals = totals, ca_evidence_coverage = evidence, ca_metrics = metrics,
          ca_reasons = reasons, ca_segments = ordered_topology p, ca_anomalies = pg_anomalies (p\<lparr>pg_usage := u'\<rparr>),
          ca_reference_key_summary = sm_reference sm, ca_target_key_summary = sm_target sm,
          ca_reference_full_scans = ug_reference_full_scans u', ca_target_full_scans = ug_target_full_scans u'\<rparr> = Inr a"
    unfolding raised_apply prod.inject raised_iffs ebind_eq_Inr_iff by (elim exE conjE) (rule that)
  note eq = mk_CompletedComparisonArtifact_eq [OF a]
  have "mk_CompletedComparisonArtifact a = Inr a" using a unfolding eq [symmetric] .
  then show ?case
    using 1(3) unfolding completed_facts_def
    by (simp only: eq completed_artifact.simps c) (simp add: final_totals_def difference_count_def)
qed

definition summary_ok :: "key_summary \<Rightarrow> exact_row list \<Rightarrow> bool" where
  "summary_ok s rows \<longleftrightarrow> mk_PostgresIntegerKeySummary s = Inr s \<and> summary_describes s rows"

lemma read_summaries_tables:
  assumes "table_reads sv table"
  shows "gen_holds (\<lambda>_. True) (read_summaries sv z ci p)
    (\<lambda>sm. (\<exists>w. validate_inputs sv ci w = Inr (sm_validated sm)) \<and>
       summary_ok (sm_reference sm) (reference_table table ci (sm_validated sm)) \<and>
       summary_ok (sm_target sm) (target_table table ci (sm_validated sm)) \<and>
       pg_topology (sm_progress sm) = pg_topology p \<and> pg_exact_counts (sm_progress sm) = pg_exact_counts p)"
proof -
  have summary: "summary_ok (ksr_summary s) (table c rel sc)"
    if "read_integer_key_summary sv c rel i sc a b e d n v = (Inr s, v')" for c rel i sc a b e d n v s v'
    using that table_reads.summary_read [OF assms]
    by (auto simp: read_integer_key_summary_def weff_iffs summary_ok_def split: if_splits)
  show ?thesis
    unfolding read_summaries_def Let_def
    by (intro gen_rules TrueI)
      (simp add: raised_iffs reference_table_def target_table_def, blast intro: summary)
qed

lemma no_violation:
  assumes "structural_contract_violation_reason s t = Inr None" "x \<in> {s, t}"
  shows "ks_null_key_count x = 0 \<and> ks_valid_key_count x = ks_distinct_key_count x"
  using assms by (auto simp: structural_contract_violation_reason_def result_iffs split: if_splits)

lemma conclude_completed:
  assumes "wbind (raised (structural_contract_violation_reason (sm_reference sm) (sm_target sm)))
      (conclude_comparison sv z ci sm) s = (Inr (CompletedComparison a), s')"
    and "mk_PostgresIntegerKeySummary (sm_reference sm) = Inr (sm_reference sm)"
      "mk_PostgresIntegerKeySummary (sm_target sm) = Inr (sm_target sm)"
  shows "compare_ranges sv z ci sm s = (Inr a, s')"
    and "x \<in> {sm_reference sm, sm_target sm} \<Longrightarrow>
      ks_null_key_count x = 0 \<and> ks_invalid_key_count x = 0 \<and> ks_valid_key_count x = ks_distinct_key_count x"
proof -
  obtain v w q where s: "s = (w, q)" and v: "structural_contract_violation_reason (sm_reference sm) (sm_target sm) = Inr v"
    and run: "conclude_comparison sv z ci sm v (w, q) = (Inr (CompletedComparison a), s')"
    using assms(1) by (cases s) (auto simp: weff_iffs raised_iffs)
  have nonneg: "0 \<le> ks_invalid_key_count x" if "mk_PostgresIntegerKeySummary x = Inr x" for x
    using that by (auto simp: mk_PostgresIntegerKeySummary_def result_iffs require_bounded_integer_def)
  have valid: "\<not> (ks_invalid_key_count (sm_reference sm) > 0 \<or> ks_invalid_key_count (sm_target sm) > 0)"
    using run unfolding conclude_comparison_def by (auto simp: weff_iffs split: if_splits)
  have none: "v = None"
    using run unfolding conclude_comparison_def if_not_P [OF valid] by (auto simp: weff_iffs split: option.splits)
  show "compare_ranges sv z ci sm s = (Inr a, s')"
    using run unfolding conclude_comparison_def if_not_P [OF valid] none s by (auto simp: weff_iffs split: if_splits)
  show "ks_null_key_count x = 0 \<and> ks_invalid_key_count x = 0 \<and> ks_valid_key_count x = ks_distinct_key_count x"
    if "x \<in> {sm_reference sm, sm_target sm}"
    using no_violation [OF v [unfolded none] that] valid nonneg assms(2,3) that by fastforce
qed

lemma run_comparison_completed:
  assumes p: "p = initial_comparison_progress snapshot"
    and run: "run_comparison sv z ci p (w, p) = (Inr (CompletedComparison a), w', q')"
    and b: "mk_ExecutionBudgets (ci_budgets ci) = Inr (ci_budgets ci)" and sv: "table_reads sv table"
  shows "\<exists>vi whole u p'. (\<exists>w. validate_inputs sv ci w = Inr vi) \<and> tables_ok table ci vi \<and>
    (\<forall>r \<in> set (reference_table table ci vi) \<union> set (target_table table ci vi). er_key_value r \<in> segment_keys whole) \<and>
    level_ok whole (ci_budgets ci) ([], u, p') \<and>
    content (reference_table table ci vi) (target_table table ci vi) p' \<and> completed_facts p' a"
proof -
  obtain sm s1 where s1: "read_summaries sv z ci p (w, p) = (Inr sm, s1)"
    and rest1: "wbind (raised (structural_contract_violation_reason (sm_reference sm) (sm_target sm)))
      (conclude_comparison sv z ci sm) s1 = (Inr (CompletedComparison a), w', q')"
    using run unfolding run_comparison_def wbind_eq_Inr_iff [of "read_summaries sv z ci p"] by blast
  obtain w1 q1 where "s1 = (w1, q1)" by (cases s1)
  with s1 rest1 have s: "read_summaries sv z ci p (w, p) = (Inr sm, w1, q1)"
    and rest: "wbind (raised (structural_contract_violation_reason (sm_reference sm) (sm_target sm)))
      (conclude_comparison sv z ci sm) (w1, q1) = (Inr (CompletedComparison a), w', q')" by simp_all
  then have q1: "q1 = sm_progress sm" by (intro read_summaries_final)
  let ?s = "sm_reference sm" and ?t = "sm_target sm" and ?vi = "sm_validated sm"
  let ?root = "root_segment ?s ?t"
  let ?R = "reference_table table ci ?vi" and ?T = "target_table table ci ?vi"
  have start: "level_ok ?root (ci_budgets ci) ([?root], sm_usage sm, sm_progress sm)" "stable_contexts ci"
    using run_comparison_start(2) [OF p s b table_reads.receipts [OF sv] refl] by simp_all
  from gen_holds_run(2) [OF read_summaries_tables [OF sv] TrueI s refl]
  have vi: "\<exists>w. validate_inputs sv ci w = Inr ?vi" and sums: "summary_ok ?s ?R" "summary_ok ?t ?T"
    and fields: "pg_topology (sm_progress sm) = pg_topology p" "pg_exact_counts (sm_progress sm) = pg_exact_counts p"
    by simp_all
  note valid = sums [unfolded summary_ok_def, THEN conjunct1]
  note concl = conclude_completed [OF rest valid]
  have tables: "table_ok ?R" "table_ok ?T"
    and bounds: "\<forall>r \<in> set ?R. \<exists>lo hi. ks_minimum_key ?s = Some lo \<and> ks_maximum_key ?s = Some hi \<and> lo \<le> er_key_value r \<and> er_key_value r \<le> hi"
      "\<forall>r \<in> set ?T. \<exists>lo hi. ks_minimum_key ?t = Some lo \<and> ks_maximum_key ?t = Some hi \<and> lo \<le> er_key_value r \<and> er_key_value r \<le> hi"
    using sums concl(2) by (simp_all add: summary_ok_def summary_describes_def)
  have keys: "\<forall>r \<in> set ?R \<union> set ?T. er_key_value r \<in> segment_keys ?root"
  proof
    fix r assume "r \<in> set ?R \<union> set ?T"
    then consider "r \<in> set ?R" | "r \<in> set ?T" by (elim UnE)
    then show "er_key_value r \<in> segment_keys ?root"
    proof cases
      case 1
      with bounds(1) obtain lo hi where "ks_minimum_key ?s = Some lo" "ks_maximum_key ?s = Some hi"
        "lo \<le> er_key_value r" "er_key_value r \<le> hi" by meson
      then show ?thesis by (rule root_segment_covers [OF valid, rotated]) simp
    next
      case 2
      with bounds(2) obtain lo hi where "ks_minimum_key ?t = Some lo" "ks_maximum_key ?t = Some hi"
        "lo \<le> er_key_value r" "er_key_value r \<le> hi" by meson
      then show ?thesis by (rule root_segment_covers [OF valid, rotated]) simp
    qed
  qed
  obtain x s2 where x: "comparison_loop sv z ci ?vi (sm_read_deadline sm) ?s ?t [?root] (sm_usage sm) (sm_progress sm)
      (w1, q1) = (Inr x, s2)" "(case x of (u, p) \<Rightarrow> completed_comparison sv ci sm u p) s2 = (Inr a, w', q')"
    using concl(1) unfolding compare_ranges_def wbind_eq_Inr_iff by blast
  obtain u p' where "x = (u, p')" by (cases x)
  with x have loop: "comparison_loop sv z ci ?vi (sm_read_deadline sm) ?s ?t [?root] (sm_usage sm) (sm_progress sm)
      (w1, q1) = (Inr (u, p'), s2)" and c: "completed_comparison sv ci sm u p' s2 = (Inr a, w', q')" by simp_all
  obtain w2 q2 where s2: "s2 = (w2, q2)" by (cases s2)
  have q: "progress_ok ?root (ci_budgets ci) q1" using start(1) q1 by (simp add: level_ok_def)
  have level: "level_ok ?root (ci_budgets ci) ([], u, p')"
    using comparison_loop_running(2) [OF start q loop [unfolded s2] refl] .
  have "pg_topology (sm_progress sm) = []" "pg_exact_counts (sm_progress sm) = zero_counts"
    unfolding fields p by (simp_all add: initial_comparison_progress_def zero_counts_def)
  then have "content ?R ?T (sm_progress sm)" by (simp add: content_def exact_records_def sum_counts_def)
  from comparison_loop_content [OF loop sv _ start(1) _ this refl] q tables
  have "content ?R ?T p'" by (simp add: tables_ok_def)
  moreover have "completed_facts p' a" by (rule gen_holds_run(2) [OF completed_comparison_facts TrueI c [unfolded s2] refl])
  moreover have "tables_ok table ci ?vi" using tables by (simp add: tables_ok_def)
  ultimately show ?thesis using vi keys level by (intro exI [of _ ?vi] exI [of _ ?root] exI [of _ u] exI [of _ p'] conjI)
qed

text \<open>The content of a table: which row stands under which key.\<close>

definition row_contents :: "exact_row list \<Rightarrow> (int \<times> bytes) set" where
  "row_contents rows = (\<lambda>r. (er_key_value r, er_row_envelope r)) ` set rows"

lemma no_difference_zero:
  "difference_count (row_difference_counts R T) = 0 \<longleftrightarrow>
     missing_rows R T = [] \<and> missing_rows T R = [] \<and> paired_rows (\<noteq>) R T = []"
proof -
  have "int a + int b + int c = 0 \<longleftrightarrow> a = 0 \<and> b = 0 \<and> c = 0" for a b c by auto
  then show ?thesis
    unfolding difference_count_def row_difference_counts_def exact_counts.simps length_0_conv [symmetric] .
qed

definition same_envelopes :: "exact_row list \<Rightarrow> exact_row list \<Rightarrow> bool" where
  "same_envelopes R T \<longleftrightarrow>
     (\<forall>r \<in> set R. \<forall>t \<in> set T. er_key_value r = er_key_value t \<longrightarrow> er_row_envelope r = er_row_envelope t)"

lemma no_missing_rows: "missing_rows U V = [] \<longleftrightarrow> row_keys U \<subseteq> row_keys V"
  by (auto simp: missing_rows_def filter_empty_conv row_keys_def)

lemma no_modified_rows: "paired_rows (\<noteq>) R T = [] \<longleftrightarrow> same_envelopes R T"
  by (auto simp: paired_rows_def filter_empty_conv same_envelopes_def)

lemma same_envelopes_sym: "same_envelopes R T \<Longrightarrow> same_envelopes T R"
  by (auto simp: same_envelopes_def)

lemma row_contents_mono:
  assumes "row_keys U \<subseteq> row_keys V" "same_envelopes U V"
  shows "row_contents U \<subseteq> row_contents V"
proof (clarsimp simp: row_contents_def)
  fix u assume u: "u \<in> set U"
  then have "er_key_value u \<in> row_keys V" using assms(1) by (auto simp: row_keys_def)
  then obtain v where "v \<in> set V" "er_key_value v = er_key_value u" by (auto simp: row_keys_def)
  then show "(er_key_value u, er_row_envelope u) \<in> (\<lambda>r. (er_key_value r, er_row_envelope r)) ` set V"
    using assms(2) u by (intro image_eqI [of _ _ v]) (simp_all add: same_envelopes_def)
qed

lemma row_keys_contents: "row_keys rows = fst ` row_contents rows"
  by (simp add: row_keys_def row_contents_def image_image)

lemma same_contents_envelopes:
  assumes "key_sorted T" "row_contents R \<subseteq> row_contents T"
  shows "same_envelopes R T"
  unfolding same_envelopes_def
proof (intro ballI impI)
  fix r t assume r: "r \<in> set R" and t: "t \<in> set T" "er_key_value r = er_key_value t"
  have "(er_key_value r, er_row_envelope r) \<in> row_contents T" using assms(2) r by (auto simp: row_contents_def)
  then obtain t' where t': "t' \<in> set T" "er_key_value t' = er_key_value r" "er_row_envelope t' = er_row_envelope r"
    by (auto simp: row_contents_def)
  then have "t' = t" using key_sorted_unique [OF assms(1) t'(1) t(1)] t(2) by simp
  then show "er_row_envelope r = er_row_envelope t" using t'(3) by simp
qed

lemma no_differences_iff:
  assumes "key_sorted R" "key_sorted T"
  shows "difference_count (row_difference_counts R T) = 0 \<longleftrightarrow> row_contents R = row_contents T"
  unfolding no_difference_zero no_missing_rows no_modified_rows
  using row_contents_mono [of R T] row_contents_mono [of T R] same_envelopes_sym [of R T]
    same_contents_envelopes [OF assms(2), of R] row_keys_contents [of R] row_keys_contents [of T]
  by (intro iffI) (simp_all add: subset_antisym)

lemma collides_only_pruned:
  assumes "tally_ok b p" "r \<in> set (pg_topology p)" "collides R T r"
  shows "pg_pruned_segments p > 0"
proof -
  have "count_state {FINGERPRINT_MATCH} (pg_topology p) \<noteq> 0"
    using assms(2,3) by (auto simp: count_state_set collides_def)
  then show ?thesis
    using assms(1) count_state_nonneg [of "{FINGERPRINT_MATCH}" "pg_topology p"]
    by (simp add: tally_ok_def Let_def del: count_state_nonneg)
qed

lemma execute_completed:
  assumes "execute_integer_key_comparison sv z ci w = (Inr result, w')"
  shows "\<exists>snapshot w1 q'. run_comparison sv z ci (initial_comparison_progress snapshot)
    (w1, initial_comparison_progress snapshot) = (Inr result, w', q')"
  using assms
  by (auto simp: execute_integer_key_comparison_def Let_def split: prod.splits sum.splits if_splits)

text \<open>(C2) The verdict of a completed comparison is a statement about the two tables, whatever ranges were
  pruned, split or fetched. \<open>MISMATCH\<close> is never wrong: the tables differ. \<open>MATCH\<close> is wrong only when a
  pruned range holds different rows with one fingerprint, which the guarantee \<open>EXACT\<close> excludes; and
  without such a collision the reported totals are those of the row-by-row comparison.\<close>

theorem completed_verdict_about_tables:
  assumes "table_reads sv table" "mk_ExecutionBudgets (ci_budgets ci) = Inr (ci_budgets ci)"
    and "execute_integer_key_comparison sv z ci w = (Inr (CompletedComparison a), w')"
  shows "\<exists>vi w0. validate_inputs sv ci w0 = Inr vi \<and>
    (let R = reference_table table ci vi; T = target_table table ci vi in
      (ca_verdict a = MISMATCH \<longrightarrow> row_contents R \<noteq> row_contents T) \<and>
      (ca_verdict a = MATCH \<longrightarrow> row_contents R = row_contents T \<or> (\<exists>r \<in> set (ca_segments a). collides R T r)) \<and>
      (ca_guarantee a = EXACT \<longrightarrow> (\<forall>r \<in> set (ca_segments a). \<not> collides R T r)) \<and>
      ((\<forall>r \<in> set (ca_segments a). \<not> collides R T r) \<longrightarrow>
         comparison_totals_of (row_difference_counts R T) (ca_guarantee a) = Inr (ca_totals a)))"
proof -
  obtain vi whole u p w0 where vi: "validate_inputs sv ci w0 = Inr vi" and ok: "tables_ok table ci vi"
    and keys: "\<forall>r \<in> set (reference_table table ci vi) \<union> set (target_table table ci vi). er_key_value r \<in> segment_keys whole"
    and level: "level_ok whole (ci_budgets ci) ([], u, p)"
    and content: "content (reference_table table ci vi) (target_table table ci vi) p" and a: "completed_facts p a"
    using execute_completed [OF assms(3)] run_comparison_completed [OF refl _ assms(2,1)] by blast
  let ?R = "reference_table table ci vi" and ?T = "target_table table ci vi"
  have tables: "table_ok ?R" "table_ok ?T" using ok by (simp_all add: tables_ok_def)
  then have sorted: "key_sorted ?R" "key_sorted ?T" by (simp_all add: table_ok_def)
  note final = final_counts [OF level content tables keys]
  note same = no_differences_iff [OF sorted]
  have segments: "set (ca_segments a) = set (pg_topology p)" using a by (simp add: completed_facts_def)
  have tally: "tally_ok (ci_budgets ci) p" using level by (simp add: level_ok_def progress_ok_def)
  have nonneg: "0 \<le> difference_count (pg_exact_counts p)" using tally by (auto simp: tally_ok_def Let_def difference_count_def)
  have verdict: "ca_verdict a = (if difference_count (pg_exact_counts p) = 0 then MATCH else MISMATCH)"
    using a by (simp add: completed_facts_def)
  have mismatch: "ca_verdict a = MISMATCH \<longrightarrow> row_contents ?R \<noteq> row_contents ?T"
    using verdict final(1) nonneg same by (auto split: if_splits)
  have match: "ca_verdict a = MATCH \<longrightarrow> row_contents ?R = row_contents ?T \<or> (\<exists>r \<in> set (ca_segments a). collides ?R ?T r)"
    using verdict final(2) same unfolding segments by (auto simp: difference_count_def split: if_splits)
  have exact: "ca_guarantee a = EXACT \<longrightarrow> (\<forall>r \<in> set (ca_segments a). \<not> collides ?R ?T r)"
    using a collides_only_pruned [OF tally] unfolding segments by (auto simp: completed_facts_def)
  have "(\<forall>r \<in> set (ca_segments a). \<not> collides ?R ?T r) \<longrightarrow>
      comparison_totals_of (row_difference_counts ?R ?T) (ca_guarantee a) = Inr (ca_totals a)"
    using a final(2) unfolding segments by (auto simp: completed_facts_def final_totals_def)
  then show ?thesis using vi mismatch match exact by (auto simp: Let_def)
qed

end
