(* ===== verification/Comparison_Ledger.thy ===== *)
theory Comparison_Ledger
  imports Comparison_Snapshot
begin

text \<open>
  The engine and the ledger of \<open>Source_Budget\<close> together. The engine itself never touches the ledger: it
  reads the clock and calls the three reads of the connectors, so a relation on worlds that these keep is kept by a
  whole comparison (\<open>execute_keeps\<close>). With the ledger's own steps as that relation, a snapshot of the usage
  never fails at the end of a run, so that every interruption but \<open>GreenplumCloseError\<close> leaves an accepted partial
  artifact. The last section shows that every artifact accounts for what the ledger was charged since the attempt began.
\<close>

definition on_world :: "('w \<Rightarrow> 'w \<Rightarrow> bool) \<Rightarrow> 'w \<times> progress \<Rightarrow> 'w \<times> progress \<Rightarrow> bool" where
  "on_world R s s' \<longleftrightarrow> R (fst s) (fst s')"


lemma on_world_reflp: "reflp R \<Longrightarrow> reflp (on_world R)" and on_world_transp: "transp R \<Longrightarrow> transp (on_world R)"
  by (auto simp: on_world_def reflp_def transp_def)

lemma keeps_inner [keeps_intros]: "keeps R m \<Longrightarrow> keeps (on_world R) (inner m)"
  by (auto simp: keeps_def on_world_def inner_def split: prod.splits) (metis snd_conv)

lemma keeps_yield [keeps_intros]: "reflp R \<Longrightarrow> keeps (on_world R) (yield_progress p)"
  by (auto simp: keeps_def on_world_def yield_progress_def reflp_def)

lemma keeps_raised [keeps_intros]: "reflp R \<Longrightarrow> keeps R (raised r)"
  by (auto simp: keeps_def reflp_def)

lemma keeps_world [keeps_intros]: "reflp R \<Longrightarrow> keeps R (\<lambda>w. raised (f w) w)"
  by (auto simp: keeps_def reflp_def)

text \<open>The loops over nodes and rows only look at the clock.\<close>

locale kept_relation =
  fixes R :: "'w \<Rightarrow> 'w \<Rightarrow> bool"
  assumes rel_reflp: "reflp R" and rel_transp: "transp R"
begin

definition deadline_free :: "'w clock \<Rightarrow> bool" where
  "deadline_free clock \<longleftrightarrow> (\<forall>d. keeps R (require_deadline clock d))"

lemma deadline: "deadline_free clock \<Longrightarrow> keeps R (require_deadline clock d)"
  by (simp add: deadline_free_def)

lemma deadline_at: "deadline_free clock \<Longrightarrow> keeps R (require_deadline_at clock d i)"
  unfolding require_deadline_at_def by (intro keeps_intros rel_reflp rel_transp deadline)

lemmas loop_base = keeps_intros rel_reflp rel_transp deadline deadline_at

lemma fingerprint_nodes_loop_keeps: "deadline_free clock \<Longrightarrow> keeps R (fingerprint_nodes_loop clock d i xs acc)"
proof (induction clock d i xs acc rule: fingerprint_nodes_loop.induct)
qed (unfold fingerprint_nodes_loop.simps, (intro loop_base; simp)+)

lemma partition_nodes_loop_keeps: "deadline_free clock \<Longrightarrow> keeps R (partition_nodes_loop clock d i xs a b)"
proof (induction clock d i xs a b rule: partition_nodes_loop.induct)
qed (unfold partition_nodes_loop.simps, (intro loop_base; simp)+)

lemma group_rows_loop_keeps: "deadline_free clock \<Longrightarrow> keeps R (group_rows_loop clock d i xs g)"
proof (induction clock d i xs g rule: group_rows_loop.induct)
qed (unfold group_rows_loop.simps, (intro loop_base; simp)+)

lemma freeze_groups_loop_keeps: "deadline_free clock \<Longrightarrow> keeps R (freeze_groups_loop clock d i xs g)"
proof (induction clock d i xs g rule: freeze_groups_loop.induct)
qed (unfold freeze_groups_loop.simps, (intro loop_base; simp)+)

lemma compare_rows_loop_keeps: "deadline_free clock \<Longrightarrow> keeps R (compare_rows_loop clock d q n c ds rs ts)"
proof (induction clock d q n c ds rs ts rule: compare_rows_loop.induct)
qed (unfold compare_rows_loop.simps, (intro loop_base; simp)+)

lemma retain_loop_keeps: "deadline_free clock \<Longrightarrow> keeps R (retain_loop clock d check policy b i ds t)"
proof (induction clock d check policy b i ds t rule: retain_loop.induct)
qed (unfold retain_loop.simps, (intro loop_base; simp)+)

lemma split_nodes_loop_keeps: "deadline_free clock \<Longrightarrow> keeps R (split_nodes_loop clock d i q nodes)"
proof (induction nodes arbitrary: i q)
qed (unfold split_nodes_loop.simps, (intro loop_base; simp)+)

lemma read_parts_keep:
  assumes "deadline_free clock"
  shows "keeps R (fingerprint_nodes clock d pending a b)"
    "keeps R (partition_fingerprint_nodes clock d nodes)"
    "keeps R (group_exact_rows clock d rows ids)"
    "keeps R (compare_exact_rows clock d rs ts n)"
    "keeps R (retain_exact_differences clock p ds check policy budgets d)"
  unfolding fingerprint_nodes_def partition_fingerprint_nodes_def group_exact_rows_def compare_exact_rows_def
    retain_exact_differences_def Let_def
  by (intro loop_base fingerprint_nodes_loop_keeps partition_nodes_loop_keeps group_rows_loop_keeps
      freeze_groups_loop_keeps compare_rows_loop_keeps retain_loop_keeps assms)+

lemma row_parts_keep:
  assumes "deadline_free clock"
  shows "keeps R (group_exact_frontier_rows clock d nodes reference target)"
    "keeps R (classify_exact_leaf clock d node rs ts)"
  unfolding group_exact_frontier_rows_def classify_exact_leaf_def Let_def
  by (intro loop_base read_parts_keep assms)+

end

definition services_keep :: "('w \<Rightarrow> 'w \<Rightarrow> bool) \<Rightarrow> 'w services \<Rightarrow> bool" where
  "services_keep R sv \<longleftrightarrow>
     (\<forall>w. R w (snd (sv_clock sv w))) \<and>
     (\<forall>c rel i sc a b e d n. keeps R (sv_read_summary sv c rel i sc a b e d n)) \<and>
     (\<forall>c rel i sc qs a b e d n. keeps R (sv_read_fingerprints sv c rel i sc qs a b e d n)) \<and>
     (\<forall>c rel i sc qs a b e g d n. keeps R (sv_read_rows sv c rel i sc qs a b e g d n))"

locale kept_services = kept_relation R for R :: "'w \<Rightarrow> 'w \<Rightarrow> bool" +
  fixes sv :: "'w services"
  assumes services: "services_keep R sv"
begin

lemma clock_keeps: "sv_clock sv w = (now, w') \<Longrightarrow> R w w'"
  using services by (metis services_keep_def snd_conv)

lemma clock_free: "deadline_free (sv_clock sv)"
  by (auto simp: deadline_free_def keeps_def require_deadline_def split: prod.splits dest: clock_keeps)

lemma on_world_refl: "reflp (on_world R)" and on_world_trans: "transp (on_world R)"
  by (simp_all add: on_world_reflp on_world_transp rel_reflp rel_transp)

lemma source_snapshot_keeps: "keeps R (source_snapshot sv a)"
proof -
  have "R w (snd (source_snapshot sv a w))" for w
    using rel_transp unfolding source_snapshot_def transp_def
    by (auto split: prod.splits dest!: clock_keeps)
  then show ?thesis by (simp add: keeps_def)
qed

lemmas base = keeps_intros rel_reflp rel_transp on_world_refl on_world_trans deadline [OF clock_free] deadline_at [OF clock_free]
  source_snapshot_keeps read_parts_keep [OF clock_free] row_parts_keep [OF clock_free]
  split_nodes_loop_keeps [OF clock_free]

lemma budget_keeps:
  "keeps R (source_remaining sv)"
  "keeps R (require_budget_capacity sv b q r y c)"
  "keeps R (require_full_scan_capacity sv m n)"
  "keeps R (consume_source_usage sv u a k peak)"
  "keeps R (exact_frontier_fits sv res b)"
  unfolding source_remaining_def require_budget_capacity_def require_full_scan_capacity_def consume_source_usage_def
    exact_frontier_fits_def Let_def
  by (intro base)+

lemma reads_keep:
  "keeps R (read_integer_key_summary sv c rel i sc x y m d n)"
  "keeps R (read_integer_range_fingerprints sv c rel i sc qs x y m d n)"
  "keeps R (read_integer_range_rows sv c rel i sc qs x y m k d n)"
  using services unfolding read_integer_key_summary_def read_integer_range_fingerprints_def read_integer_range_rows_def
    services_keep_def
  by (intro base; simp)+

lemma level_reads_keep:
  "keeps R (read_fingerprint_level sv ci vi u d plan)"
  "keeps R (read_exact_frontier sv ci vi nodes res u d)"
  unfolding read_fingerprint_level_def read_exact_frontier_def Let_def
  by (intro base budget_keeps reads_keep)+

lemma prune_loop_keeps: "keeps (on_world R) (prune_loop (sv_clock sv) d i nodes p)"
  by (induction nodes arbitrary: i p) (unfold prune_loop.simps Let_def, (intro base; simp)+)

lemma exact_leaf_keeps: "keeps (on_world R) (exact_leaf sv ci d g h node p)"
  unfolding exact_leaf_def Let_def by (intro base)

lemma exact_leaves_loop_keeps: "keeps (on_world R) (exact_leaves_loop sv ci d g h nodes p)"
  by (induction nodes arbitrary: p) (unfold exact_leaves_loop.simps, (intro base exact_leaf_keeps; simp)+)

lemma publish_splits_loop_keeps: "keeps (on_world R) (publish_splits_loop cs splits p)"
  by (induction splits arbitrary: cs p)
    (unfold publish_splits_loop.simps split_paired_all Let_def, (intro base; simp)+)

lemma levels_keep:
  "keeps (on_world R) (exact_level sv ci vi d nodes res u p)"
  "keeps (on_world R) (split_level sv ci dl nodes u p)"
  unfolding exact_level_def split_level_def Let_def
  by (intro base level_reads_keep exact_leaves_loop_keeps publish_splits_loop_keeps)+

lemma comparison_level_keeps: "keeps (on_world R) (comparison_level sv z ci vi d rs ts pending u p)"
  unfolding comparison_level_def Let_def
  by (intro base level_reads_keep levels_keep prune_loop_keeps budget_keeps)

end

lemma comparison_loop_keeps_world:
  assumes "kept_services R sv"
  shows "on_world R s (snd (comparison_loop sv z ci vi d rs ts pending u p s))"
  using assms
proof (induction sv z ci vi d rs ts pending u p s rule: comparison_loop.induct)
  case (1 sv z ci vi d rs ts pending u p s)
  note level = kept_services.comparison_level_keeps [OF "1.prems"]
  note trans = kept_services.on_world_trans [OF "1.prems"] and refl = kept_services.on_world_refl [OF "1.prems"]
  show ?case
  proof (cases "pending = [] \<or> (\<exists>e s'. comparison_level sv z ci vi d rs ts pending u p s = (Inl e, s'))")
    case True
    then show ?thesis
      by (auto simp: comparison_loop.simps [of sv z ci vi d rs ts pending] intro: reflpD [OF refl] dest: keepsD [OF level])
  next
    case False
    then obtain pending' u' p' s' where step: "comparison_level sv z ci vi d rs ts pending u p s = (Inr (pending', u', p'), s')"
      by (metis prod.collapse sum.exhaust)
    have "on_world R s s'" by (rule keepsD [OF level step])
    moreover have "on_world R s' (snd (comparison_loop sv z ci vi d rs ts pending' u' p' s'))"
      by (rule "1.IH") (use False step "1.prems" in simp_all)
    ultimately show ?thesis
      using False step trans by (simp add: comparison_loop.simps [of sv z ci vi d rs ts pending]) (metis transpD)
  qed
qed

context kept_services
begin

lemma whole_keeps:
  "keeps (on_world R) (read_summaries sv z ci p)"
  "keeps (on_world R) (completed_comparison sv ci sm u p)"
  "keeps R (completed_structural_artifact sv ci rs ts u reason)"
  unfolding read_summaries_def completed_comparison_def completed_structural_artifact_def Let_def
  by (intro base budget_keeps reads_keep)+

lemma comparison_loop_keeps: "keeps (on_world R) (comparison_loop sv z ci vi d rs ts pending u p)"
  using comparison_loop_keeps_world [OF kept_services_axioms] by (simp add: keeps_def)

lemma conclude_keeps:
  "keeps (on_world R) (compare_ranges sv z ci sm)"
  "keeps (on_world R) (conclude_comparison sv z ci sm v)"
  "keeps (on_world R) (run_comparison sv z ci p)"
  unfolding compare_ranges_def conclude_comparison_def run_comparison_def
  by (intro base budget_keeps whole_keeps comparison_loop_keeps)+

lemma partial_keeps: "keeps R (partial_comparison_artifact sv ci p e)"
  unfolding partial_comparison_artifact_def Let_def by (intro base budget_keeps)

lemma execute_keeps: "R w (snd (execute_integer_key_comparison sv z ci w))"
proof -
  have begins: "keeps R (wbind (raised (check_protocol ci)) (\<lambda>_. source_snapshot sv (ci_source_budget ci)))"
    by (intro base)
  obtain r v where first: "wbind (raised (check_protocol ci)) (\<lambda>_. source_snapshot sv (ci_source_budget ci)) w = (r, v)"
    by fastforce
  have start: "R w v" by (rule keepsD [OF begins first])
  show ?thesis
  proof (cases r)
    case (Inl e)
    then show ?thesis using first start by (simp add: execute_integer_key_comparison_def)
  next
    case (Inr snapshot)
    let ?p = "initial_comparison_progress snapshot"
    obtain r' v' p' where run: "run_comparison sv z ci ?p (v, ?p) = (r', (v', p'))" by (metis prod.collapse)
    have "R v v'" using keepsD [OF conclude_keeps(3) run] by (simp add: on_world_def)
    then have run_keeps: "R w v'" by (rule transpD [OF rel_transp start])
    show ?thesis
    proof (cases r')
      case (Inr result)
      then show ?thesis using first run run_keeps \<open>r = Inr snapshot\<close> by (simp add: execute_integer_key_comparison_def)
    next
      case (Inl e)
      obtain r3 v3 where partial: "partial_comparison_artifact sv ci p' e v' = (r3, v3)" by fastforce
      have "R w v3" by (rule transpD [OF rel_transp run_keeps keepsD [OF partial_keeps partial]])
      then show ?thesis
        using first run run_keeps partial \<open>r = Inr snapshot\<close> Inl
        by (cases r3) (simp_all add: execute_integer_key_comparison_def)
    qed
  qed
qed

end

section \<open>The ledger of a run\<close>

definition charges :: "'w services \<Rightarrow> 'w \<Rightarrow> 'w \<Rightarrow> bool" where
  "charges sv w w' \<longleftrightarrow> ledger_step\<^sup>*\<^sup>* (sv_ledger sv w) (sv_ledger sv w')"

lemma kept_charges: "services_keep (charges sv) sv \<Longrightarrow> kept_services (charges sv) sv"
  by unfold_locales (auto simp: charges_def reflp_def transp_def)

lemma execution_charges:
  assumes "services_keep (charges sv) sv" "execute_integer_key_comparison sv z ci w = (r, w')"
  shows "charges sv w w'"
  using kept_services.execute_keeps [OF kept_charges [OF assms(1)], of w z ci] assms(2) by simp

lemma close_error_has_no_reason_code:
  "is_interruption (ConnectorError GreenplumCloseError) \<and>
   interruption_reason_code (ConnectorError GreenplumCloseError) = Inl AssertionError"
  by code_simp

lemma reason_code_failure: "interruption_reason_code e = Inl x \<Longrightarrow> x = AssertionError"
proof (cases e)
  case (ConnectorError c)
  then show "interruption_reason_code e = Inl x \<Longrightarrow> x = AssertionError" by (cases c) (auto split: if_splits)
qed (auto split: if_splits)

lemma partial_without_reason:
  "interruption_reason_code e = Inl x \<Longrightarrow> partial_comparison_artifact sv ci p e w = (Inl (Raised AssertionError), w)"
  by (auto simp: partial_comparison_artifact_def wbind_def raised_def dest: reason_code_failure)

lemma check_protocol_failure: "check_protocol ci = Inl e \<Longrightarrow> e = ComparisonProtocolError"
  by (auto simp: check_protocol_def protocol_unless_def result_iffs)

text \<open>What an interruption leaves: an artifact that its own validation accepts, whose resolved and unresolved ranges hold every
  key of one non-empty range exactly once, and whose unresolved ranges carry the reason of the interruption.\<close>

definition reported :: "cause \<Rightarrow> partial_artifact \<Rightarrow> bool" where
  "reported e a \<longleftrightarrow>
     mk_PartialComparisonArtifact a = Inr a \<and>
     (\<exists>lower upper. lower < upper \<and>
        (\<forall>k. holders k (frontier_ranges (pa_frontier a)) = of_bool (lower \<le> k \<and> k < upper))) \<and>
     (\<forall>s \<in> set (pf_unresolved (pa_frontier a)). interruption_reason_code e = Inr (us_reason s))"

text \<open>How the caller learns of an exception \<open>e\<close> of the generator: an interruption becomes a report, every other
  exception reaches the caller as it is. The exception is \<open>GreenplumCloseError\<close>, which is caught as an interruption and
  for which the choice of a reason raises \<open>AssertionError\<close>.\<close>

definition answers_exception :: "cause \<Rightarrow> failure \<Rightarrow> bool" where
  "answers_exception e f \<longleftrightarrow>
     (if e = ConnectorError GreenplumCloseError then f = Escaped (Raised AssertionError)
      else if is_interruption e then (\<exists>a. f = Interrupted e a \<and> reported e a)
      else f = Escaped e)"

text \<open>What a call returns or raises, by what its checks and its generator did.\<close>

definition properly_reported ::
  "'w services \<Rightarrow> sizes \<Rightarrow> comparison_inputs \<Rightarrow> 'w \<Rightarrow> failure + completed_result \<Rightarrow> bool" where
  "properly_reported sv z ci w result \<longleftrightarrow>
     (case check_protocol ci of
        Inl x \<Rightarrow> result = Inl (Escaped (Raised x))
      | Inr _ \<Rightarrow>
          (\<exists>snapshot v. source_snapshot sv (ci_source_budget ci) w = (Inr snapshot, v) \<and>
             (let p = initial_comparison_progress snapshot in
              case fst (run_comparison sv z ci p (v, p)) of
                Inr completed \<Rightarrow> result = Inr completed
              | Inl e \<Rightarrow> (\<exists>f. result = Inl f \<and> answers_exception e f))))"

lemma execution_reported:
  assumes keep: "services_keep (charges sv) sv" and receipts: "valid_receipts sv"
    and budgets: "mk_ExecutionBudgets (ci_budgets ci) = Inr (ci_budgets ci)"
    and ids: "cx_context_id (ci_reference_context ci) \<noteq> cx_context_id (ci_target_context ci)" "valid_identity ci"
    and ledger: "ledger_serves (ci_source_budget ci) (sv_ledger sv w)"
  shows "properly_reported sv z ci w (fst (execute_integer_key_comparison sv z ci w))"
proof (cases "check_protocol ci")
  case (Inl x)
  then show ?thesis by (simp add: properly_reported_def execute_integer_key_comparison_def wbind_def raised_def)
next
  case (Inr u)
  note kept = kept_charges [OF keep]
  obtain snapshot v where snapshot: "source_snapshot sv (ci_source_budget ci) w = (Inr snapshot, v)"
    using source_snapshot_total [OF ledger] by blast
  let ?p = "initial_comparison_progress snapshot"
  obtain r v' p' where ran: "run_comparison sv z ci ?p (v, ?p) = (r, (v', p'))" by (metis prod.collapse)
  have "charges sv w v" by (rule keepsD [OF kept_services.source_snapshot_keeps [OF kept] snapshot])
  moreover have "charges sv v v'"
    using keepsD [OF kept_services.conclude_keeps(3) [OF kept] ran] by (simp add: on_world_def)
  ultimately have "ledger_step\<^sup>*\<^sup>* (sv_ledger sv w) (sv_ledger sv v')" by (auto simp: charges_def)
  note serves = ledger_serves_steps [OF this ledger]
  have running: "running_ok ci p'" by (rule run_comparison_running [OF refl ran budgets receipts])
  have first: "wbind (raised (check_protocol ci)) (\<lambda>_. source_snapshot sv (ci_source_budget ci)) w = (Inr snapshot, v)"
    using Inr snapshot by (simp add: wbind_def raised_def)
  have "\<exists>f. fst (execute_integer_key_comparison sv z ci w) = Inl f \<and> answers_exception e f" if e: "r = Inl e" for e
  proof -
    consider "\<not> is_interruption e" | "e = ConnectorError GreenplumCloseError" |
      reason where "is_interruption e" "e \<noteq> ConnectorError GreenplumCloseError" "interruption_reason_code e = Inr reason"
      using interruption_has_reason by blast
    then show ?thesis
    proof cases
      case 1
      then have "e \<noteq> ConnectorError GreenplumCloseError" by auto
      then show ?thesis using 1 first ran e by (simp add: execute_integer_key_comparison_def answers_exception_def)
    next
      case 2
      note raised = partial_without_reason [OF close_error_has_no_reason_code [THEN conjunct2], of sv ci p' v']
      show ?thesis
        using 2 first ran e raised close_error_has_no_reason_code
        by (simp add: execute_integer_key_comparison_def answers_exception_def del: is_interruption.simps)
    next
      case 3
      from partial_comparison_artifact_ok [OF running ids serves 3(3)] obtain a v3 whole where a:
        "partial_comparison_artifact sv ci p' e v' = (Inr a, v3)" "mk_PartialComparisonArtifact a = Inr a"
        "wf_pending whole" "\<forall>k. holders k (frontier_ranges (pa_frontier a)) = of_bool (k \<in> segment_keys whole)"
        "us_reason ` set (pf_unresolved (pa_frontier a)) \<subseteq> {reason}"
        by blast
      have "reported e a"
        unfolding reported_def
      proof (intro conjI exI ballI)
        show "pe_lower_inclusive whole < mathematical_upper whole"
          using a(3) by (auto simp: wf_pending_iff mathematical_upper_def split: option.splits)
        show "\<forall>k. holders k (frontier_ranges (pa_frontier a)) =
            of_bool (pe_lower_inclusive whole \<le> k \<and> k < mathematical_upper whole)"
          using a(4) by (simp add: segment_keys_def)
      qed (use a(2,5) 3(3) in auto)
      then show ?thesis
        using 3(1,2) first ran e a(1) by (simp add: execute_integer_key_comparison_def answers_exception_def)
    qed
  qed
  moreover have "fst (execute_integer_key_comparison sv z ci w) = Inr result" if "r = Inr result" for result
    using first ran that by (simp add: execute_integer_key_comparison_def)
  ultimately show ?thesis
    using Inr snapshot ran by (cases r) (simp_all add: properly_reported_def Let_def)
qed

text \<open>(C4) Every call answers for what its generator did. A completed comparison is returned; an interruption (an exhausted
  budget or deadline, a lost snapshot, a failed query, a protocol violation) yields a partial artifact that its own validation
  accepts, whose resolved and unresolved ranges hold every key of one non-empty range exactly once, and whose unresolved ranges
  name the reason of this interruption: building it never fails. An exception that is no interruption escapes as it is, and
  so do the checks before the first read. The one interruption without a report is \<open>GreenplumCloseError\<close>, which
  turns into an \<open>AssertionError\<close>.\<close>

theorem failed_comparison_reported:
  assumes keep: "services_keep (charges sv) sv" and receipts: "valid_receipts sv"
    and budgets: "mk_ExecutionBudgets (ci_budgets ci) = Inr (ci_budgets ci)"
    and ids: "cx_context_id (ci_reference_context ci) \<noteq> cx_context_id (ci_target_context ci)" "valid_identity ci"
    and ledger: "ledger_serves (ci_source_budget ci) (sv_ledger sv w)"
  shows "properly_reported sv z ci w (fst (execute_integer_key_comparison sv z ci w))"
  by (rule execution_reported [OF assms])

section \<open>What a report accounts for\<close>

text \<open>The usage of the attempt on the ledger as metrics and full scans report it.\<close>

definition accounts_for :: "attempt \<Rightarrow> ledger \<Rightarrow> result_metrics \<Rightarrow> int \<Rightarrow> int \<Rightarrow> bool" where
  "accounts_for a l m reference_full_scans target_full_scans \<longleftrightarrow>
     (let u = lg_usage l; b = at_baseline a in
      rm_queries m = su_queries u - us_queries b \<and> rm_fetched_records m = su_fetched_records u - us_fetched_records b \<and>
      rm_result_bytes m = su_result_bytes u - us_result_bytes b \<and>
      reference_full_scans = su_reference_full_scans u - us_reference_full_scans b \<and>
      target_full_scans = su_target_full_scans u - us_target_full_scans b)"

definition usage_accounts_for :: "attempt \<Rightarrow> ledger \<Rightarrow> usage \<Rightarrow> bool" where
  "usage_accounts_for a l u \<longleftrightarrow>
     (\<forall>m. result_metrics_of u = Inr m \<longrightarrow> accounts_for a l m (ug_reference_full_scans u) (ug_target_full_scans u))"

definition clock_charges_nothing :: "'w services \<Rightarrow> bool" where
  "clock_charges_nothing sv \<longleftrightarrow> (\<forall>w. sv_ledger sv (snd (sv_clock sv w)) = sv_ledger sv w)"

lemma clock_same_ledger:
  "clock_charges_nothing sv \<Longrightarrow> sv_clock sv w = (now, w') \<Longrightarrow> sv_ledger sv w' = sv_ledger sv w"
  by (metis clock_charges_nothing_def snd_conv)

lemma consume_source_usage_accounts:
  assumes "clock_charges_nothing sv" "consume_source_usage sv u a n peak w = (Inr u', w')"
  shows "sv_ledger sv w' = sv_ledger sv w \<and> usage_accounts_for a (sv_ledger sv w') u'"
proof -
  obtain now w1 now' s where steps: "sv_clock sv w = (now, w1)" "sv_clock sv w1 = (now', w')"
    "attempt_snapshot a now now' (sv_ledger sv w) = Inr s" and u': "ug_queries u' = us_queries s"
    "ug_fetched_records u' = us_fetched_records s" "ug_result_bytes u' = us_result_bytes s"
    "ug_reference_full_scans u' = us_reference_full_scans s" "ug_target_full_scans u' = us_target_full_scans s"
    using assms(2) by (auto simp: consume_source_usage_def weff_iffs source_snapshot_def raised_iffs split: prod.splits)
  have same: "sv_ledger sv w' = sv_ledger sv w" using clock_same_ledger [OF assms(1)] steps(1,2) by metis
  have "us_queries s = su_queries (lg_usage (sv_ledger sv w)) - us_queries (at_baseline a) \<and>
      us_fetched_records s = su_fetched_records (lg_usage (sv_ledger sv w)) - us_fetched_records (at_baseline a) \<and>
      us_result_bytes s = su_result_bytes (lg_usage (sv_ledger sv w)) - us_result_bytes (at_baseline a) \<and>
      us_reference_full_scans s = su_reference_full_scans (lg_usage (sv_ledger sv w)) - us_reference_full_scans (at_baseline a) \<and>
      us_target_full_scans s = su_target_full_scans (lg_usage (sv_ledger sv w)) - us_target_full_scans (at_baseline a)"
    using steps(3)
    by (auto simp: attempt_snapshot_def ledger_snapshot_def source_usage_snapshot_def mk_PostgresSourceUsageSnapshot_def
        result_iffs)
  then show ?thesis
    using same u'
    by (auto simp: usage_accounts_for_def accounts_for_def Let_def result_metrics_of_def mk_ResultMetrics_def result_iffs)
qed

lemma deadline_same_ledger:
  "clock_charges_nothing sv \<Longrightarrow> require_deadline (sv_clock sv) d w = (r, w') \<Longrightarrow> sv_ledger sv w' = sv_ledger sv w"
  by (auto simp: require_deadline_def split: prod.splits if_splits dest: clock_same_ledger)

lemma completed_comparison_accounts:
  assumes "clock_charges_nothing sv" "completed_comparison sv ci sm u p (w, q) = (Inr a, (w', q'))"
  shows "accounts_for (ci_source_budget ci) (sv_ledger sv w') (ca_metrics a) (ca_reference_full_scans a) (ca_target_full_scans a)"
proof -
  obtain w1 u' m x where u': "consume_source_usage sv u (ci_source_budget ci) 0 (ug_coordinator_peak_bytes u) w1 = (Inr u', w')"
    and made: "result_metrics_of u' = Inr m" "mk_CompletedComparisonArtifact x = Inr a"
      "ca_metrics x = m" "ca_reference_full_scans x = ug_reference_full_scans u'" "ca_target_full_scans x = ug_target_full_scans u'"
    using assms(2) by (auto simp: completed_comparison_def Let_def gen_iffs result_iffs wrequire_def split: if_splits)
  have "a = x" using mk_CompletedComparisonArtifact_eq [OF made(2)] .
  then show ?thesis using consume_source_usage_accounts [OF assms(1) u'] made by (auto simp: usage_accounts_for_def)
qed

lemma structural_accounts:
  assumes "completed_structural_artifact sv ci rs ts u reason w = (Inr a, w')" "usage_accounts_for b l u"
  shows "accounts_for b l (st_metrics a) (st_reference_full_scans a) (st_target_full_scans a) \<and> w' = w"
  using assms
  by (auto simp: completed_structural_artifact_def raised_iffs result_iffs mk_CompletedStructuralComparisonArtifact_def
      usage_accounts_for_def)

lemma partial_accounts:
  assumes "clock_charges_nothing sv" "partial_comparison_artifact sv ci p e w = (Inr a, w')"
  shows "accounts_for (ci_source_budget ci) (sv_ledger sv w') (pa_metrics a) (pa_reference_full_scans a) (pa_target_full_scans a)"
proof -
  obtain w1 reason violated us u' where u':
    "consume_source_usage sv (pg_usage p) (ci_source_budget ci) 0 (ug_coordinator_peak_bytes (pg_usage p)) w1 = (Inr u', w')"
    and made: "partial_artifact_of sv ci p reason violated us u' w' = Inr a"
    using assms(2) by (auto simp: partial_comparison_artifact_def Let_def weff_iffs raised_iffs)
  obtain m where "result_metrics_of u' = Inr m" "pa_metrics a = m" "pa_reference_full_scans a = ug_reference_full_scans u'"
    "pa_target_full_scans a = ug_target_full_scans u'"
    using made by (auto simp: partial_artifact_of_def Let_def result_iffs mk_PartialComparisonArtifact_def)
  then show ?thesis using consume_source_usage_accounts [OF assms(1) u'] by (auto simp: usage_accounts_for_def)
qed

lemma conclusion_accounts:
  assumes clock: "clock_charges_nothing sv" and run: "conclude_comparison sv z ci sm violation (w, q) = (Inr result, (w', q'))"
  shows "case result of
      CompletedComparison a \<Rightarrow>
        accounts_for (ci_source_budget ci) (sv_ledger sv w') (ca_metrics a) (ca_reference_full_scans a) (ca_target_full_scans a)
    | CompletedStructural a \<Rightarrow>
        accounts_for (ci_source_budget ci) (sv_ledger sv w') (st_metrics a) (st_reference_full_scans a) (st_target_full_scans a)"
proof (cases violation)
  case None
  then obtain a w1 q1 u p where a: "result = CompletedComparison a" "completed_comparison sv ci sm u p (w1, q1) = (Inr a, (w', q'))"
    using run by (auto simp: conclude_comparison_def compare_ranges_def weff_iffs raised_iffs split: if_splits)
  show ?thesis using completed_comparison_accounts [OF clock a(2)] a(1) by simp
next
  case (Some reason)
  then obtain a w1 u where a: "result = CompletedStructural a"
    "consume_source_usage sv (sm_usage sm) (ci_source_budget ci) 0 (ug_coordinator_peak_bytes (sm_usage sm)) w = (Inr u, w1)"
    "completed_structural_artifact sv ci (sm_reference sm) (sm_target sm) u reason w1 = (Inr a, w')"
    using run by (auto simp: conclude_comparison_def gen_iffs split: if_splits)
  show ?thesis
    using structural_accounts [OF a(3)] consume_source_usage_accounts [OF clock a(2)] a(1) by auto
qed

text \<open>(C11) Every report accounts for the whole attempt: the queries, records, result bytes and full scans in the metrics of a
  completed, a structural or a partial artifact are exactly what the ledger was charged since the attempt began, up to the end of
  the call, so that no read is left out and none is counted twice, however the comparison ends.\<close>

theorem reports_account_for_usage:
  assumes "clock_charges_nothing sv" "execute_integer_key_comparison sv z ci w = (r, w')"
  shows "let accounts = accounts_for (ci_source_budget ci) (sv_ledger sv w') in
    case r of
      Inr (CompletedComparison a) \<Rightarrow> accounts (ca_metrics a) (ca_reference_full_scans a) (ca_target_full_scans a)
    | Inr (CompletedStructural a) \<Rightarrow> accounts (st_metrics a) (st_reference_full_scans a) (st_target_full_scans a)
    | Inl (Interrupted e a) \<Rightarrow> accounts (pa_metrics a) (pa_reference_full_scans a) (pa_target_full_scans a)
    | Inl (Escaped e) \<Rightarrow> True"
proof (cases r)
  case (Inl f)
  then show ?thesis
    using assms(2) partial_accounts [OF assms(1)]
    by (auto simp: execute_integer_key_comparison_def Let_def split: failure.splits prod.splits sum.splits if_splits)
next
  case (Inr result)
  then obtain p v q' where "run_comparison sv z ci p (v, p) = (Inr result, (w', q'))"
    using assms(2) by (auto simp: execute_integer_key_comparison_def Let_def split: prod.splits sum.splits if_splits)
  then obtain sm violation w1 q1 where "conclude_comparison sv z ci sm violation (w1, q1) = (Inr result, (w', q'))"
    by (auto simp: run_comparison_def weff_iffs raised_iffs)
  from conclusion_accounts [OF assms(1) this] Inr show ?thesis by (simp add: Let_def split: completed_result.splits)
qed

end
