(* ===== verification/Source_World.thy ===== *)
theory Source_World
  imports Comparison_Ledger
begin

text \<open>
  The world of a run as the connectors see it: the ledger that all sessions share, and what lies outside the
  program (the clock and the servers). \<open>on_ledger\<close> runs one operation of \<open>PostgresSourceBudgetLedger\<close>
  (\<open>src/forensic_data/postgres.py\<close>), which reads the clock under the lock of the ledger. Every
  computation built from these operations keeps \<open>world_charges\<close>: the ledger changes by its own steps only.
\<close>

record 's source_world =
  sw_ledger :: ledger
  sw_outside :: 's

definition world_clock :: "'s clock \<Rightarrow> 's source_world clock" where
  "world_clock clock w = (case clock (sw_outside w) of (now, s) \<Rightarrow> (now, w\<lparr>sw_outside := s\<rparr>))"

definition on_ledger ::
  "'s clock \<Rightarrow> (int \<Rightarrow> ledger \<Rightarrow> (exn + 'a) \<times> ledger) \<Rightarrow> ('s source_world, cause, 'a) eff" where
  "on_ledger clock f w =
     (case world_clock clock w of (now, w1) \<Rightarrow>
      case f now (sw_ledger w1) of (r, l) \<Rightarrow> (map_sum Raised id r, w1\<lparr>sw_ledger := l\<rparr>))"

definition on_outside :: "('s \<Rightarrow> 'a \<times> 's) \<Rightarrow> ('s source_world, cause, 'a) eff" where
  "on_outside f w = (case f (sw_outside w) of (r, s) \<Rightarrow> (Inr r, w\<lparr>sw_outside := s\<rparr>))"

definition world_charges :: "'s source_world \<Rightarrow> 's source_world \<Rightarrow> bool" where
  "world_charges w w' \<longleftrightarrow> ledger_step\<^sup>*\<^sup>* (sw_ledger w) (sw_ledger w')"

lemma world_charges_rel: "reflp world_charges" "transp world_charges"
  by (auto simp: world_charges_def reflp_def transp_def)

interpretation world: kept_relation world_charges
  by unfold_locales (rule world_charges_rel)+

lemma world_clock_charges: "world_charges w (snd (world_clock clock w))"
  by (simp add: world_charges_def world_clock_def split: prod.splits)

lemma on_ledger_charges:
  assumes "\<And>now l. ledger_step l (snd (f now l))"
  shows "keeps world_charges (on_ledger clock f)"
proof -
  have "world_charges w (snd (on_ledger clock f w))" for w
    using assms [where l = "sw_ledger w"]
    by (auto simp: on_ledger_def world_clock_def world_charges_def split: prod.splits) (metis r_into_rtranclp snd_conv)
  then show ?thesis by (simp add: keeps_def)
qed

lemma dispatch_charges: "keeps world_charges (on_ledger clock (dispatch_query d n))"
  and records_charge: "keeps world_charges (on_ledger clock (consume_records bs))"
  and observed_charges: "keeps world_charges (on_ledger clock (consume_observed_result_bytes b))"
  by (rule on_ledger_charges; use surjective_pairing in \<open>blast intro: ledger_step.intros\<close>)+

lemma on_outside_charges: "keeps world_charges (on_outside f)"
  by (auto simp: keeps_def on_outside_def world_charges_def split: prod.splits)

lemma world_deadline: "world.deadline_free (world_clock clock)"
  by (auto simp: world.deadline_free_def keeps_def require_deadline_def world_clock_def world_charges_def split: prod.splits)

lemmas world_base = keeps_intros world_charges_rel dispatch_charges records_charge observed_charges on_outside_charges
  world.deadline [OF world_deadline] world.deadline_at [OF world_deadline]

end
