(* ===== verification/Postgres_Rows.thy ===== *)
theory Postgres_Rows
  imports Source_World
begin

text \<open>
  What \<open>src/forensic_data/postgres.py\<close> makes of the rows a PostgreSQL server returns: their size in bytes,
  the provenance columns that prove which relations were read, and the receipts parsed from the payload
  columns. Nothing is assumed of the server: a row is any list of values, and every check of the code is
  a branch here. The texts of the statements are composed by \<open>psycopg\<close>; a query is its other four parts.
\<close>

section \<open>Values and rows\<close>

text \<open>A value by its exact type. \<open>DbOther\<close> stands for every type that the program does not accept.\<close>

datatype db_value =
    DbNull
  | DbText pystr
  | DbBytes bytes
  | DbMemoryview bytes
  | DbBool bool
  | DbInt int
  | DbDatetime pydatetime
  | DbDate pydate
  | DbOther

type_synonym db_row = "db_value list"

record query_relation =
  qr_context_id :: uuid
  qr_relation_row_type_oid :: int
  qr_contributes_rows :: bool

record 'q postgres_query =
  pq_statement :: 'q
  pq_context :: envelope_context
  pq_relations :: "query_relation list"
  pq_max_encoded_envelope_bytes :: int

definition UINT32_MAX_INT :: int where
  "UINT32_MAX_INT = int UINT32_MAX"

definition utcoffset_text :: "int \<Rightarrow> string" where
  "utcoffset_text offset =
     (let total = nat \<bar>offset\<bar>; seconds = total div 1000000; micros = total mod 1000000 in
      (if offset < 0 then ''-'' else ''+'') @ format_nat 10 2 (seconds div 3600) @ '':'' @
      format_nat 10 2 (seconds div 60 mod 60) @
      (if seconds mod 60 = 0 \<and> micros = 0 then [] else '':'' @ format_nat 10 2 (seconds mod 60)) @
      (if micros = 0 then [] else ''.'' @ format_nat 10 6 micros))"

definition isoformat_microseconds :: "pydatetime \<Rightarrow> string" where
  "isoformat_microseconds d =
     (let t = dt_time d in
      format_timestamp (dt_date d) t (format_nat 10 6 (t_micro t)) 6 @
      (case utcoffset d of None \<Rightarrow> [] | Some offset \<Rightarrow> utcoffset_text offset))"

fun db_value_bytes :: "db_value \<Rightarrow> exn + int" where
  "db_value_bytes DbNull = Inr 0"
| "db_value_bytes (DbText s) =
     (case utf8_encode s of
        Inl e \<Rightarrow> Inl PostgresDataValidationError
      | Inr b \<Rightarrow> Inr (int (length b)))"
| "db_value_bytes (DbBytes b) = Inr (int (length b))"
| "db_value_bytes (DbMemoryview b) = Inr (int (length b))"
| "db_value_bytes (DbBool b) = Inr 1"
| "db_value_bytes (DbInt i) = Inr (int (length (int_str i)))"
| "db_value_bytes (DbDatetime d) = Inr (int (length (isoformat_microseconds d)))"
| "db_value_bytes (DbDate d) = Inr (int (length (format_date d)))"
| "db_value_bytes DbOther = Inl PostgresDataValidationError"

definition database_row_bytes :: "db_row \<Rightarrow> exn + int" where
  "database_row_bytes row = sum_each db_value_bytes row"

section \<open>Checked values\<close>

fun require_db_integer :: "db_value \<Rightarrow> exn + int" where
  "require_db_integer (DbInt i) = Inr i"
| "require_db_integer v = Inl PostgresDataValidationError"

definition require_bounded_db_integer :: "db_value \<Rightarrow> int \<Rightarrow> int \<Rightarrow> exn + int" where
  "require_bounded_db_integer v lo hi =
     ebind (require_db_integer v) (\<lambda>i. require_bounded_integer i lo hi)"

fun require_db_boolean :: "db_value \<Rightarrow> exn + bool" where
  "require_db_boolean (DbBool b) = Inr b"
| "require_db_boolean v = Inl PostgresDataValidationError"

fun require_db_text :: "db_value \<Rightarrow> exn + pystr" where
  "require_db_text (DbText s) = ebind (require (s \<noteq> []) PostgresDataValidationError) (\<lambda>_. Inr s)"
| "require_db_text v = Inl PostgresDataValidationError"

definition is_ascii_digit :: "codepoint \<Rightarrow> bool" where
  "is_ascii_digit c \<longleftrightarrow> 48 \<le> c \<and> c \<le> 57"

definition decimal_value :: "pystr \<Rightarrow> int" where
  "decimal_value digits = int (value_of 10 (map (\<lambda>c. c - 48) digits))"

fun parse_unsigned_decimal :: "db_value \<Rightarrow> nat \<Rightarrow> exn + int" where
  "parse_unsigned_decimal (DbText s) maximum_digits =
     ebind (require (s \<noteq> [] \<and> list_all is_ascii_digit s) PostgresDataValidationError) (\<lambda>_.
     ebind (require (\<not> (length s > 1 \<and> hd s = 48)) PostgresDataValidationError) (\<lambda>_.
     ebind (require (\<not> length s > maximum_digits) PostgresDataValidationError) (\<lambda>_.
     Inr (decimal_value s))))"
| "parse_unsigned_decimal v maximum_digits = Inl PostgresDataValidationError"

fun parse_optional_int64 :: "db_value \<Rightarrow> exn + int option" where
  "parse_optional_int64 DbNull = Inr None"
| "parse_optional_int64 (DbText s) =
     ebind (require (s \<noteq> [] \<and> list_all (\<lambda>c. c < 128) s) PostgresDataValidationError) (\<lambda>_.
     let negative = (hd s = 45); digits = (if negative then tl s else s) in
     ebind (require (\<not> (\<not> (digits \<noteq> [] \<and> list_all is_ascii_digit digits) \<or>
         length digits > 1 \<and> hd digits = 48 \<or> s = [45, 48])) PostgresDataValidationError) (\<lambda>_.
     ebind (require (length digits \<le> int_max_str_digits) ValueError) (\<lambda>_.
     let parsed = (if negative then - decimal_value digits else decimal_value digits) in
     ebind (require (INT64_MIN \<le> parsed \<and> parsed \<le> INT64_MAX) PostgresDataValidationError) (\<lambda>_.
     Inr (Some parsed)))))"
| "parse_optional_int64 v = Inl PostgresDataValidationError"

definition ascii_envelope :: "db_value \<Rightarrow> exn + bytes" where
  "ascii_envelope v =
     ebind (require_db_text v) (\<lambda>s.
     ebind (require (list_all (\<lambda>c. c < 128) s) PostgresDataValidationError) (\<lambda>_.
     Inr (map char_of s)))"

section \<open>Provenance\<close>

definition check_row_type :: "db_value \<times> query_relation \<Rightarrow> exn + unit" where
  "check_row_type vr =
     (case vr of (v, relation) \<Rightarrow>
      if v = DbNull then Inr ()
      else
        ebind (require_bounded_db_integer v 1 UINT32_MAX_INT) (\<lambda>observed.
        require (observed = qr_relation_row_type_oid relation) PostgresMetadataError))"

definition compiled_query_payload :: "db_row \<Rightarrow> 'q postgres_query \<Rightarrow> nat \<Rightarrow> exn + db_row" where
  "compiled_query_payload row query expected_payload_fields =
     (let provenance_fields = length (pq_relations query) in
      ebind (require (length row = provenance_fields + expected_payload_fields) PostgresDataValidationError) (\<lambda>_.
      ebind (check_all check_row_type (zip (take provenance_fields row) (pq_relations query))) (\<lambda>_.
      Inr (drop provenance_fields row))))"

text \<open>The members that a row proves, and the check that all rows together prove every member.\<close>

definition row_members :: "'q postgres_query \<Rightarrow> db_row \<Rightarrow> exn + nat set" where
  "row_members query row =
     (let provenance_fields = length (pq_relations query) in
      ebind (require (\<not> length row < provenance_fields) PostgresDataValidationError) (\<lambda>_.
      ebind (check_all check_row_type (zip (take provenance_fields row) (pq_relations query))) (\<lambda>_.
      Inr (set (filter (\<lambda>i. row ! i \<noteq> DbNull) [0..<provenance_fields])))))"

definition require_compiled_query_provenance :: "db_row list \<Rightarrow> 'q postgres_query \<Rightarrow> exn + unit" where
  "require_compiled_query_provenance rows query =
     ebind (traverse (row_members query) rows) (\<lambda>members.
     require (\<Union> (set members) = set [0..<length (pq_relations query)]) PostgresMetadataError)"

definition query_provenance_bytes :: "'q postgres_query \<Rightarrow> int" where
  "query_provenance_bytes query = int (length (pq_relations query)) * 10"

definition query_physical_scan_count :: "'q postgres_query \<Rightarrow> int" where
  "query_physical_scan_count query = int (length (filter qr_contributes_rows (pq_relations query)))"

definition require_compiled_full_scan_reservation :: "int \<Rightarrow> int \<Rightarrow> exn + unit" where
  "require_compiled_full_scan_reservation reserved_full_scans expected_full_scans =
     ebind (validate_nonnegative_integer reserved_full_scans) (\<lambda>_.
     require (reserved_full_scans = expected_full_scans) ValueError)"

section \<open>Key summaries and fingerprints\<close>

definition integer_key_summary_from_database :: "db_row \<Rightarrow> 'q postgres_query \<Rightarrow> exn + key_summary" where
  "integer_key_summary_from_database row query =
     ebind (compiled_query_payload row query 8) (\<lambda>payload.
     ebind (traverse (\<lambda>v. parse_unsigned_decimal v 19) (take 5 payload)) (\<lambda>counts.
     ebind (parse_optional_int64 (payload ! 5)) (\<lambda>minimum.
     ebind (parse_optional_int64 (payload ! 6)) (\<lambda>maximum.
     ebind (require_db_boolean (payload ! 7)) (\<lambda>usable.
     mk_PostgresIntegerKeySummary
       \<lparr>ks_row_count = counts ! 0, ks_null_key_count = counts ! 1, ks_invalid_key_count = counts ! 2,
        ks_valid_key_count = counts ! 3, ks_distinct_key_count = counts ! 4, ks_minimum_key = minimum,
        ks_maximum_key = maximum, ks_usable_access_path = usable\<rparr>)))))"

definition parse_aggregates :: "db_row \<Rightarrow> exn + int list" where
  "parse_aggregates payload =
     traverse (\<lambda>(index, v). parse_unsigned_decimal v (if index \<in> {0, 9, 10} then 19 else 38))
       (zip [0..<length payload] payload)"

text \<open>The checks that \<open>read_fingerprint\<close> and \<open>_range_fingerprints_from_database\<close> make of the aggregates: the
  count, eight limb sums, the invalid and the oversized rows.\<close>

definition fingerprint_from_aggregates :: "int list \<Rightarrow> exn + fingerprint" where
  "fingerprint_from_aggregates values =
     (let row_count = values ! 0; invalid_count = values ! 9; oversized_count = values ! 10 in
      ebind (require (\<not> (row_count > INT64_MAX \<or> invalid_count > INT64_MAX \<or> oversized_count > INT64_MAX))
        PostgresDataValidationError) (\<lambda>_.
      ebind (require (\<not> invalid_count > 0) PostgresDataValidationError) (\<lambda>_.
      ebind (require (\<not> oversized_count > 0) PostgresResultLimitError) (\<lambda>_.
      reraise FingerprintOverflowError PostgresDataValidationError
        (mk_Fingerprint row_count (take 8 (drop 1 values)))))))"

definition range_fingerprint_from_database ::
  "'q postgres_query \<Rightarrow> range_request \<Rightarrow> db_row \<Rightarrow> exn + range_fingerprint" where
  "range_fingerprint_from_database query range_request row =
     ebind (compiled_query_payload row query 14) (\<lambda>payload.
     ebind (require_db_text (payload ! 0)) (\<lambda>identifier.
     ebind (require (identifier = rq_segment_id range_request) PostgresDataValidationError) (\<lambda>_.
     ebind (parse_aggregates (drop 1 payload)) (\<lambda>values.
     ebind (fingerprint_from_aggregates values) (\<lambda>fingerprint.
     mk_PostgresRangeFingerprint
       \<lparr>rf_segment_id = identifier, rf_fingerprint = fingerprint,
        rf_row_envelope_bytes = values ! 11, rf_key_envelope_bytes = values ! 12\<rparr>)))))"

text \<open>\<open>_require_postgres_read_deadline\<close> returns the milliseconds that are left.\<close>

definition require_postgres_read_deadline :: "'w clock \<Rightarrow> read_deadline \<Rightarrow> ('w, cause, int) eff" where
  "require_postgres_read_deadline clock deadline = (\<lambda>w.
     case clock w of (now, w') \<Rightarrow>
       (let remaining_milliseconds = (rd_deadline_nanoseconds deadline - now) div 1000000 in
        if remaining_milliseconds < 1 then (Inl (Raised PostgresReadDeadlineExceededError), w')
        else (Inr remaining_milliseconds, w')))"

definition require_read_deadline_at :: "'w clock \<Rightarrow> read_deadline \<Rightarrow> nat \<Rightarrow> ('w, cause, unit) eff" where
  "require_read_deadline_at clock deadline index =
     (if index mod DEADLINE_CHECK_RECORDS = 0
      then wbind (require_postgres_read_deadline clock deadline) (\<lambda>_. wreturn ()) else wreturn ())"

fun range_fingerprints_loop ::
  "'w clock \<Rightarrow> read_deadline \<Rightarrow> 'q postgres_query \<Rightarrow> nat \<Rightarrow> (range_request \<times> db_row) list \<Rightarrow> range_fingerprint list \<Rightarrow>
   ('w, cause, range_fingerprint list) eff" where
  "range_fingerprints_loop clock deadline query index [] parsed =
     wbind (require_postgres_read_deadline clock deadline) (\<lambda>_. wreturn parsed)"
| "range_fingerprints_loop clock deadline query index ((range_request, row) # rest) parsed =
     wbind (require_read_deadline_at clock deadline index) (\<lambda>_.
     wbind (raised (range_fingerprint_from_database query range_request row)) (\<lambda>f.
     range_fingerprints_loop clock deadline query (Suc index) rest (parsed @ [f])))"

definition range_fingerprints_from_database ::
  "'w clock \<Rightarrow> db_row list \<Rightarrow> range_request list \<Rightarrow> 'q postgres_query \<Rightarrow> read_deadline \<Rightarrow>
   ('w, cause, range_fingerprint list) eff" where
  "range_fingerprints_from_database clock rows ranges query deadline =
     wbind (wrequire (length rows = length ranges) (Raised PostgresDataValidationError)) (\<lambda>_.
     range_fingerprints_loop clock deadline query 0 (zip ranges rows) [])"

section \<open>Exact rows\<close>

text \<open>What the loop carries from row to row: the ordinal of the last segment and its last key.\<close>

record row_cursor =
  cu_ordinal :: int
  cu_last_key :: "int option"

definition ordinal_of :: "range_request list \<Rightarrow> pystr \<Rightarrow> nat option" where
  "ordinal_of ranges identifier = dict_of (zip (map rq_segment_id ranges) [0..<length ranges]) identifier"

definition in_range :: "range_request \<Rightarrow> int \<Rightarrow> bool" where
  "in_range q k \<longleftrightarrow>
     \<not> (k < rq_lower_inclusive q \<or> (case rq_upper_exclusive q of None \<Rightarrow> False | Some u \<Rightarrow> k \<ge> u))"

text \<open>The decoded key of both envelopes: \<open>type(value) is int\<close> excludes booleans.\<close>

definition agreed_key :: "pyval list \<Rightarrow> pyval option list \<Rightarrow> nat \<Rightarrow> exn + int" where
  "agreed_key key_values row_values key_field_index =
     (case (key_values, row_values ! key_field_index) of
        (PInt key_value # _, Some (PInt row_key_value)) \<Rightarrow>
          ebind (require (key_value = row_key_value) PostgresDataValidationError) (\<lambda>_. Inr key_value)
      | _ \<Rightarrow> Inl PostgresDataValidationError)"

definition decoded_envelopes ::
  "envelope_context \<Rightarrow> envelope_context \<Rightarrow> bytes \<Rightarrow> bytes \<Rightarrow> exn + (pyval list \<times> pyval option list)" where
  "decoded_envelopes key_context row_context key_envelope row_envelope =
     (case ebind (decode_key_with_context key_context key_envelope) (\<lambda>key_values.
           ebind (decode_row_with_context row_context row_envelope) (\<lambda>row_values.
           Inr (key_values, row_values))) of
        Inl e \<Rightarrow> Inl PostgresDataValidationError
      | Inr values \<Rightarrow> Inr values)"

text \<open>One iteration: \<open>None\<close> for a row whose data marker is false.\<close>

definition exact_row_from_database ::
  "range_request list \<Rightarrow> nat \<Rightarrow> envelope_context \<Rightarrow> 'q postgres_query \<Rightarrow> row_cursor \<Rightarrow> db_row \<Rightarrow>
   exn + (exact_row \<times> row_cursor) option" where
  "exact_row_from_database ranges key_field_index key_context query cursor row =
     ebind (compiled_query_payload row query 6) (\<lambda>payload.
     ebind (require_db_boolean (payload ! 0)) (\<lambda>has_data.
     if \<not> has_data then Inr None
     else
       ebind (require_db_text (payload ! 1)) (\<lambda>identifier.
       case ordinal_of ranges identifier of
         None \<Rightarrow> Inl PostgresDataValidationError
       | Some place \<Rightarrow>
           ebind (require (\<not> int place < cu_ordinal cursor) PostgresDataValidationError) (\<lambda>_.
           ebind (require_db_boolean (payload ! 4)) (\<lambda>invalid_row.
           ebind (require_db_boolean (payload ! 5)) (\<lambda>oversized_row.
           ebind (require (\<not> (invalid_row \<and> oversized_row)) PostgresDataValidationError) (\<lambda>_.
           ebind (require (\<not> invalid_row) PostgresDataValidationError) (\<lambda>_.
           ebind (require (\<not> oversized_row) PostgresResultLimitError) (\<lambda>_.
           ebind (ascii_envelope (payload ! 2)) (\<lambda>key_envelope.
           ebind (ascii_envelope (payload ! 3)) (\<lambda>row_envelope.
           ebind (require (\<not> int (length row_envelope) > pq_max_encoded_envelope_bytes query)
             PostgresResultLimitError) (\<lambda>_.
           ebind (decoded_envelopes key_context (pq_context query) key_envelope row_envelope)
             (\<lambda>(key_values, row_values).
           ebind (agreed_key key_values row_values key_field_index) (\<lambda>key_value.
           ebind (require (in_range (ranges ! place) key_value) PostgresDataValidationError) (\<lambda>_.
           ebind (require (\<not> (int place = cu_ordinal cursor \<and>
               (case cu_last_key cursor of None \<Rightarrow> False | Some k \<Rightarrow> key_value \<le> k)))
             PostgresDataValidationError) (\<lambda>_.
           ebind (mk_PostgresIntegerExactRow
             \<lparr>er_segment_id = identifier, er_key_value = key_value, er_key_envelope = key_envelope,
              er_row_envelope = row_envelope, er_values = row_values\<rparr>) (\<lambda>r.
           Inr (Some (r, \<lparr>cu_ordinal = int place, cu_last_key = Some key_value\<rparr>)))))))))))))))))))"

fun exact_rows_loop ::
  "'w clock \<Rightarrow> read_deadline \<Rightarrow> range_request list \<Rightarrow> nat \<Rightarrow> envelope_context \<Rightarrow> 'q postgres_query \<Rightarrow> nat \<Rightarrow>
   db_row list \<Rightarrow> row_cursor \<Rightarrow> exact_row list \<Rightarrow> ('w, cause, exact_row list) eff" where
  "exact_rows_loop clock deadline ranges key_field_index key_context query index [] cursor parsed =
     wbind (require_postgres_read_deadline clock deadline) (\<lambda>_. wreturn parsed)"
| "exact_rows_loop clock deadline ranges key_field_index key_context query index (row # rows) cursor parsed =
     wbind (require_read_deadline_at clock deadline index) (\<lambda>_.
     wbind (raised (exact_row_from_database ranges key_field_index key_context query cursor row)) (\<lambda>result.
     case result of
       None \<Rightarrow> exact_rows_loop clock deadline ranges key_field_index key_context query (Suc index) rows cursor parsed
     | Some (r, cursor') \<Rightarrow>
         exact_rows_loop clock deadline ranges key_field_index key_context query (Suc index) rows cursor' (parsed @ [r])))"

definition integer_exact_rows_from_database ::
  "'w clock \<Rightarrow> db_row list \<Rightarrow> range_request list \<Rightarrow> nat \<Rightarrow> 'q postgres_query \<Rightarrow> read_deadline \<Rightarrow>
   ('w, cause, exact_row list) eff" where
  "integer_exact_rows_from_database clock rows ranges key_field_index query deadline =
     (let schema = ec_schema (pq_context query) in
      wbind (wrequire (key_field_index < length (cs_fields schema)) (Raised PostgresDataValidationError)) (\<lambda>_.
      wbind (raised (mk_CanonicalSchema
        \<lparr>cs_protocol = cs_protocol schema, cs_fields = [cs_fields schema ! key_field_index]\<rparr>)) (\<lambda>key_schema.
      wbind (raised (prepare_envelope_context key_schema)) (\<lambda>key_context.
      exact_rows_loop clock deadline ranges key_field_index key_context query 0 rows
        \<lparr>cu_ordinal = -1, cu_last_key = None\<rparr> []))))"

section \<open>Canonical rows\<close>

record canonical_row =
  cr_envelope :: bytes
  cr_sha256 :: bytes

fun digest_bytes :: "db_value \<Rightarrow> exn + bytes" where
  "digest_bytes (DbMemoryview b) = ebind (require (length b = 32) PostgresDataValidationError) (\<lambda>_. Inr b)"
| "digest_bytes (DbBytes b) = ebind (require (length b = 32) PostgresDataValidationError) (\<lambda>_. Inr b)"
| "digest_bytes v = Inl PostgresDataValidationError"

definition canonical_row_from_database :: "db_row \<Rightarrow> 'q postgres_query \<Rightarrow> exn + canonical_row option" where
  "canonical_row_from_database row query =
     ebind (compiled_query_payload row query 5) (\<lambda>payload.
     ebind (require_db_boolean (payload ! 0)) (\<lambda>has_data.
     if \<not> has_data then Inr None
     else
       ebind (require_db_boolean (payload ! 3)) (\<lambda>invalid_row.
       ebind (require_db_boolean (payload ! 4)) (\<lambda>oversized_row.
       ebind (require (\<not> (invalid_row \<and> oversized_row)) PostgresDataValidationError) (\<lambda>_.
       if invalid_row \<or> oversized_row then
         ebind (require (\<not> (payload ! 1 \<noteq> DbNull \<or> payload ! 2 \<noteq> DbNull)) PostgresDataValidationError) (\<lambda>_.
         Inl (if invalid_row then PostgresDataValidationError else PostgresResultLimitError))
       else
         ebind (ascii_envelope (payload ! 1)) (\<lambda>envelope.
         ebind (require (\<not> int (length envelope) > pq_max_encoded_envelope_bytes query)
           PostgresDataValidationError) (\<lambda>_.
         ebind (digest_bytes (payload ! 2)) (\<lambda>digest.
         ebind (case decode_row_with_context (pq_context query) envelope of
                  Inl e \<Rightarrow> Inl PostgresDataValidationError | Inr values \<Rightarrow> Inr ()) (\<lambda>_.
         ebind (require (digest = envelope_sha256 envelope) PostgresDataValidationError) (\<lambda>_.
         Inr (Some \<lparr>cr_envelope = envelope, cr_sha256 = digest\<rparr>)))))))))))"

section \<open>Metrics\<close>

fun row_bytes_loop :: "'w clock \<Rightarrow> read_deadline \<Rightarrow> nat \<Rightarrow> db_row list \<Rightarrow> int \<Rightarrow> ('w, cause, int) eff" where
  "row_bytes_loop clock deadline index [] result_bytes =
     wbind (require_postgres_read_deadline clock deadline) (\<lambda>_. wreturn result_bytes)"
| "row_bytes_loop clock deadline index (row # rows) result_bytes =
     wbind (require_read_deadline_at clock deadline index) (\<lambda>_.
     wbind (raised (database_row_bytes row)) (\<lambda>n.
     row_bytes_loop clock deadline (Suc index) rows (result_bytes + n)))"

definition read_metrics_before_deadline :: "'w clock \<Rightarrow> db_row list \<Rightarrow> read_deadline \<Rightarrow> ('w, cause, read_metrics) eff" where
  "read_metrics_before_deadline clock rows deadline =
     wbind (row_bytes_loop clock deadline 0 rows 0) (\<lambda>result_bytes.
     raised (mk_PostgresReadMetrics (int (length rows)) result_bytes))"

fun exact_metrics_loop ::
  "'w clock \<Rightarrow> read_deadline \<Rightarrow> 'q postgres_query \<Rightarrow> nat \<Rightarrow> db_row list \<Rightarrow> int \<Rightarrow> int \<Rightarrow> ('w, cause, int \<times> int) eff" where
  "exact_metrics_loop clock deadline query index [] fetched_records result_bytes =
     wbind (require_postgres_read_deadline clock deadline) (\<lambda>_. wreturn (fetched_records, result_bytes))"
| "exact_metrics_loop clock deadline query index (row # rows) fetched_records result_bytes =
     wbind (require_read_deadline_at clock deadline index) (\<lambda>_.
     wbind (raised (compiled_query_payload row query 6)) (\<lambda>payload.
     wbind (raised (require_db_boolean (payload ! 0))) (\<lambda>has_data.
     if has_data then
       wbind (raised (database_row_bytes (DbNull # drop 1 payload))) (\<lambda>n.
       exact_metrics_loop clock deadline query (Suc index) rows (fetched_records + 1) (result_bytes + n))
     else exact_metrics_loop clock deadline query (Suc index) rows fetched_records result_bytes)))"

definition exact_read_metrics ::
  "'w clock \<Rightarrow> db_row list \<Rightarrow> 'q postgres_query \<Rightarrow> read_deadline \<Rightarrow> ('w, cause, read_metrics) eff" where
  "exact_read_metrics clock rows query deadline =
     wbind (exact_metrics_loop clock deadline query 0 rows 0 0) (\<lambda>(fetched_records, result_bytes).
     raised (mk_PostgresReadMetrics fetched_records result_bytes))"

section \<open>What the receipts guarantee\<close>

text \<open>An accepted row: it belongs to a requested range, lies in it, and both envelopes decode to its key.\<close>

definition row_accepted ::
  "range_request list \<Rightarrow> nat \<Rightarrow> envelope_context \<Rightarrow> 'q postgres_query \<Rightarrow> exact_row \<Rightarrow> bool" where
  "row_accepted ranges key_field_index key_context query r \<longleftrightarrow>
     (\<exists>place. ordinal_of ranges (er_segment_id r) = Some place \<and> place < length ranges \<and>
        rq_segment_id (ranges ! place) = er_segment_id r \<and> in_range (ranges ! place) (er_key_value r)) \<and>
     int (length (er_row_envelope r)) \<le> pq_max_encoded_envelope_bytes query \<and>
     (\<exists>rest. decode_key_with_context key_context (er_key_envelope r) = Inr (PInt (er_key_value r) # rest)) \<and>
     decode_row_with_context (pq_context query) (er_row_envelope r) = Inr (er_values r) \<and>
     er_values r ! key_field_index = Some (PInt (er_key_value r))"

text \<open>The order of the requested segments, and of the keys within one.\<close>

definition row_before :: "range_request list \<Rightarrow> exact_row \<Rightarrow> exact_row \<Rightarrow> bool" where
  "row_before ranges r s \<longleftrightarrow>
     (\<exists>i j. ordinal_of ranges (er_segment_id r) = Some i \<and> ordinal_of ranges (er_segment_id s) = Some j \<and>
        (i < j \<or> i = j \<and> er_key_value r < er_key_value s))"

definition behind :: "range_request list \<Rightarrow> row_cursor \<Rightarrow> exact_row \<Rightarrow> bool" where
  "behind ranges c r \<longleftrightarrow>
     (\<exists>i. ordinal_of ranges (er_segment_id r) = Some i \<and>
        (int i < cu_ordinal c \<or> int i = cu_ordinal c \<and> (\<exists>k. cu_last_key c = Some k \<and> er_key_value r \<le> k)))"

lemma ordinal_of_Some:
  assumes "ordinal_of ranges identifier = Some i"
  shows "i < length ranges \<and> rq_segment_id (ranges ! i) = identifier"
proof -
  have "(identifier, i) \<in> set (zip (map rq_segment_id ranges) [0..<length ranges])"
    using map_of_SomeD assms unfolding ordinal_of_def dict_of_def by fastforce
  then show ?thesis by (auto simp: in_set_zip)
qed

lemma agreed_key_Inr:
  "agreed_key ks vs i = Inr k \<Longrightarrow> (\<exists>rest. ks = PInt k # rest) \<and> vs ! i = Some (PInt k)"
  by (auto simp: agreed_key_def result_iffs split: list.splits pyval.splits option.splits)

lemma decoded_envelopes_Inr:
  "decoded_envelopes kc rc ke re = Inr (ks, vs) \<Longrightarrow>
   decode_key_with_context kc ke = Inr ks \<and> decode_row_with_context rc re = Inr vs"
  by (auto simp: decoded_envelopes_def result_iffs split: sum.splits)

lemma exact_row_accepted:
  assumes "exact_row_from_database ranges i kc query c row = Inr (Some (r, c'))"
  shows "row_accepted ranges i kc query r" "behind ranges c' r"
    "behind ranges c s \<Longrightarrow> row_before ranges s r \<and> behind ranges c' s"
proof -
  obtain place ks where place: "ordinal_of ranges (er_segment_id r) = Some place"
    and order: "\<not> int place < cu_ordinal c" "\<not> (int place = cu_ordinal c \<and>
      (case cu_last_key c of None \<Rightarrow> False | Some k \<Rightarrow> er_key_value r \<le> k))"
    and len: "\<not> int (length (er_row_envelope r)) > pq_max_encoded_envelope_bytes query"
    and dec: "decoded_envelopes kc (pq_context query) (er_key_envelope r) (er_row_envelope r) = Inr (ks, er_values r)"
    and key: "agreed_key ks (er_values r) i = Inr (er_key_value r)"
    and range: "in_range (ranges ! place) (er_key_value r)"
    and c': "c' = \<lparr>cu_ordinal = int place, cu_last_key = Some (er_key_value r)\<rparr>"
    using assms unfolding exact_row_from_database_def
    by (auto simp: result_iffs mk_PostgresIntegerExactRow_def split: if_splits option.splits prod.splits)
  show "row_accepted ranges i kc query r"
    using place ordinal_of_Some [OF place] range len decoded_envelopes_Inr [OF dec] agreed_key_Inr [OF key]
    by (auto simp: row_accepted_def)
  show "behind ranges c' r" using place c' by (simp add: behind_def)
  assume "behind ranges c s"
  then obtain j where j: "ordinal_of ranges (er_segment_id s) = Some j"
    "int j < cu_ordinal c \<or> int j = cu_ordinal c \<and> (\<exists>k. cu_last_key c = Some k \<and> er_key_value s \<le> k)"
    by (auto simp: behind_def)
  then have "int j < int place \<or> int j = int place \<and> er_key_value s < er_key_value r"
    using order by auto
  then show "row_before ranges s r \<and> behind ranges c' s"
    using j(1) place c' by (auto simp: row_before_def behind_def)
qed

lemma exact_rows_loop_accepted:
  assumes "exact_rows_loop clock d ranges i kc query n rows c parsed w = (Inr result, w')"
    and "\<forall>r \<in> set parsed. row_accepted ranges i kc query r \<and> behind ranges c r" "sorted_wrt (row_before ranges) parsed"
  shows "(\<forall>r \<in> set result. row_accepted ranges i kc query r) \<and> sorted_wrt (row_before ranges) result"
  using assms
proof (induction rows arbitrary: n c parsed w)
  case Nil
  then show ?case by (auto simp: weff_iffs)
next
  case (Cons row rows)
  from Cons.prems(1) obtain x w1 where x: "exact_row_from_database ranges i kc query c row = Inr x"
    and rest: "(case x of
       None \<Rightarrow> exact_rows_loop clock d ranges i kc query (Suc n) rows c parsed
     | Some (r, c') \<Rightarrow> exact_rows_loop clock d ranges i kc query (Suc n) rows c' (parsed @ [r])) w1 = (Inr result, w')"
    by (auto simp: weff_iffs raised_iffs)
  show ?case
  proof (cases x)
    case None
    then show ?thesis using Cons.IH [of "Suc n" c parsed w1] rest Cons.prems(2,3) by simp
  next
    case (Some y)
    obtain r c' where y: "y = (r, c')" by (cases y)
    note accepted = exact_row_accepted [OF x [unfolded Some y]]
    have "exact_rows_loop clock d ranges i kc query (Suc n) rows c' (parsed @ [r]) w1 = (Inr result, w')"
      using rest Some y by simp
    from Cons.IH [OF this] show ?thesis
      using accepted Cons.prems(2,3) by (auto simp: sorted_wrt_append)
  qed
qed

text \<open>(C22) A server cannot make the connector accept exact rows that were not asked for, whatever it returns:
  every accepted row carries the identifier of a requested range and a key inside that range, fits the limit of
  the query, and its two envelopes decode to that key; the rows come in the order of the ranges, with
  strictly increasing keys within each.\<close>

theorem exact_rows_are_as_requested:
  assumes "integer_exact_rows_from_database clock rows ranges key_field_index query deadline w = (Inr result, w')"
  shows "\<exists>key_context. (\<forall>r \<in> set result. row_accepted ranges key_field_index key_context query r) \<and>
    prepare_envelope_context \<lparr>cs_protocol = cs_protocol (ec_schema (pq_context query)),
      cs_fields = [cs_fields (ec_schema (pq_context query)) ! key_field_index]\<rparr> = Inr key_context \<and>
    sorted_wrt (row_before ranges) result"
proof -
  obtain ks kc w1 where schema: "mk_CanonicalSchema \<lparr>cs_protocol = cs_protocol (ec_schema (pq_context query)),
      cs_fields = [cs_fields (ec_schema (pq_context query)) ! key_field_index]\<rparr> = Inr ks"
    and kc: "prepare_envelope_context ks = Inr kc"
    and loop: "exact_rows_loop clock deadline ranges key_field_index kc query 0 rows
      \<lparr>cu_ordinal = -1, cu_last_key = None\<rparr> [] w1 = (Inr result, w')"
    using assms by (auto simp: integer_exact_rows_from_database_def Let_def weff_iffs raised_iffs split: if_splits)
  have "ks = \<lparr>cs_protocol = cs_protocol (ec_schema (pq_context query)),
      cs_fields = [cs_fields (ec_schema (pq_context query)) ! key_field_index]\<rparr>"
    using schema by (auto simp: mk_CanonicalSchema_def result_iffs)
  then show ?thesis using kc exact_rows_loop_accepted [OF loop] by auto
qed

section \<open>What the receipts accept\<close>

definition in_time :: "'w clock \<Rightarrow> read_deadline \<Rightarrow> bool" where
  "in_time clock deadline \<longleftrightarrow> (\<forall>w. 1000000 \<le> rd_deadline_nanoseconds deadline - fst (clock w))"

lemma deadline_in_time:
  assumes "in_time clock d"
  obtains n w' where "require_postgres_read_deadline clock d w = (Inr n, w')"
proof -
  obtain now w' where c: "clock w = (now, w')" by fastforce
  then have "1000000 \<le> rd_deadline_nanoseconds d - now"
    using assms by (metis in_time_def fst_conv)
  then have "\<not> (rd_deadline_nanoseconds d - now) div 1000000 < 1" by simp
  then show ?thesis using c that by (simp add: require_postgres_read_deadline_def Let_def)
qed

lemma deadline_at_in_time:
  assumes "in_time clock d"
  obtains w' where "require_read_deadline_at clock d i w = (Inr (), w')"
proof -
  obtain m v where "require_postgres_read_deadline clock d w = (Inr m, v)" using assms by (rule deadline_in_time)
  then have "\<exists>w'. require_read_deadline_at clock d i w = (Inr (), w')"
    by (simp add: require_read_deadline_at_def wbind_apply)
  then show ?thesis using that by blast
qed

text \<open>The columns in which the statement returns a row, behind the provenance columns.\<close>

definition exact_row_values :: "db_row \<Rightarrow> exact_row \<Rightarrow> db_row" where
  "exact_row_values provenance r =
     provenance @ [DbBool True, DbText (er_segment_id r), DbText (asc (er_key_envelope r)),
       DbText (asc (er_row_envelope r)), DbBool False, DbBool False]"

definition provenance_ok :: "db_row \<Rightarrow> 'q postgres_query \<Rightarrow> bool" where
  "provenance_ok provenance query \<longleftrightarrow>
     length provenance = length (pq_relations query) \<and>
     check_all check_row_type (zip provenance (pq_relations query)) = Inr ()"

definition ahead :: "range_request list \<Rightarrow> row_cursor \<Rightarrow> exact_row \<Rightarrow> bool" where
  "ahead ranges c r \<longleftrightarrow>
     (\<exists>j. ordinal_of ranges (er_segment_id r) = Some j \<and>
        (cu_ordinal c < int j \<or> cu_ordinal c = int j \<and> (\<forall>k. cu_last_key c = Some k \<longrightarrow> k < er_key_value r)))"

lemma decoded_envelope_text:
  assumes "decode_row_with_context c b = Inr vs \<or> decode_key_with_context c b = Inr ks"
  shows "ascii_envelope (DbText (asc b)) = Inr b"
proof -
  have "is_ascii b" "b \<noteq> []"
    using assms by (auto simp: decode_row_with_context_def decode_key_with_context_def parse_envelope_def result_iffs
        ENVELOPE_HEADER_LENGTH_def)
  then show ?thesis by (auto simp: ascii_envelope_def result_iffs asc_def is_ascii_def list_all_iff comp_def)
qed

lemma exact_row_complete:
  assumes "provenance_ok provenance query" "row_accepted ranges i kc query r" "ahead ranges c r"
    and "mk_PostgresIntegerExactRow r = Inr r"
  shows "\<exists>c'. exact_row_from_database ranges i kc query c (exact_row_values provenance r) = Inr (Some (r, c')) \<and>
    (\<forall>s. row_before ranges r s \<longrightarrow> ahead ranges c' s)"
proof -
  obtain place where place: "ordinal_of ranges (er_segment_id r) = Some place" "in_range (ranges ! place) (er_key_value r)"
    and len: "int (length (er_row_envelope r)) \<le> pq_max_encoded_envelope_bytes query"
    using assms(2) by (auto simp: row_accepted_def)
  obtain rest where key: "decode_key_with_context kc (er_key_envelope r) = Inr (PInt (er_key_value r) # rest)"
    and row: "decode_row_with_context (pq_context query) (er_row_envelope r) = Inr (er_values r)"
    and field: "er_values r ! i = Some (PInt (er_key_value r))"
    using assms(2) by (auto simp: row_accepted_def)
  have order: "\<not> int place < cu_ordinal c" "\<not> (int place = cu_ordinal c \<and>
      (case cu_last_key c of None \<Rightarrow> False | Some k \<Rightarrow> er_key_value r \<le> k))"
    using assms(3) place(1) by (auto simp: ahead_def split: option.splits)
  let ?c = "\<lparr>cu_ordinal = int place, cu_last_key = Some (er_key_value r)\<rparr>"
  have ident: "er_segment_id r \<noteq> []" using assms(4) by (auto simp: mk_PostgresIntegerExactRow_def result_iffs)
  have payload: "compiled_query_payload (exact_row_values provenance r) query 6 =
      Inr [DbBool True, DbText (er_segment_id r), DbText (asc (er_key_envelope r)),
        DbText (asc (er_row_envelope r)), DbBool False, DbBool False]"
    using assms(1) by (auto simp: compiled_query_payload_def exact_row_values_def provenance_ok_def result_iffs Let_def)
  have decoded: "decoded_envelopes kc (pq_context query) (er_key_envelope r) (er_row_envelope r) =
      Inr (PInt (er_key_value r) # rest, er_values r)"
    by (simp add: decoded_envelopes_def key row)
  have agreed: "agreed_key (PInt (er_key_value r) # rest) (er_values r) i = Inr (er_key_value r)"
    by (simp add: agreed_key_def field)
  have texts: "ascii_envelope (DbText (asc (er_key_envelope r))) = Inr (er_key_envelope r)"
      "ascii_envelope (DbText (asc (er_row_envelope r))) = Inr (er_row_envelope r)"
    using key row by (blast intro: decoded_envelope_text)+
  have same: "\<lparr>er_segment_id = er_segment_id r, er_key_value = er_key_value r, er_key_envelope = er_key_envelope r,
      er_row_envelope = er_row_envelope r, er_values = er_values r\<rparr> = r" by simp
  have "exact_row_from_database ranges i kc query c (exact_row_values provenance r) = Inr (Some (r, ?c))"
    using ident place len order assms(4)
    by (simp add: exact_row_from_database_def payload texts decoded agreed same)
  moreover have "ahead ranges ?c s" if "row_before ranges r s" for s
    using that place(1) by (auto simp: row_before_def ahead_def)
  ultimately show ?thesis by blast
qed

lemma exact_rows_loop_complete:
  assumes "provenance_ok provenance query" "in_time clock d"
    and "\<forall>r \<in> set rs. row_accepted ranges i kc query r \<and> mk_PostgresIntegerExactRow r = Inr r"
    and "sorted_wrt (row_before ranges) rs" "\<forall>r \<in> set rs. ahead ranges c r"
  shows "\<exists>w'. exact_rows_loop clock d ranges i kc query n (map (exact_row_values provenance) rs) c parsed w = (Inr (parsed @ rs), w')"
  using assms(3-)
proof (induction rs arbitrary: n c parsed w)
  case Nil
  obtain m w' where "require_postgres_read_deadline clock d w = (Inr m, w')" using assms(2) by (rule deadline_in_time)
  then show ?case by (simp add: wbind_apply)
next
  case (Cons r rs)
  obtain w1 where w1: "require_read_deadline_at clock d n w = (Inr (), w1)" using assms(2) by (rule deadline_at_in_time)
  obtain c' where c': "exact_row_from_database ranges i kc query c (exact_row_values provenance r) = Inr (Some (r, c'))"
    "\<And>s. row_before ranges r s \<Longrightarrow> ahead ranges c' s"
    using exact_row_complete [OF assms(1)] Cons.prems by (meson list.set_intros(1))
  have "\<forall>s \<in> set rs. ahead ranges c' s" using c'(2) Cons.prems(2) by simp
  with Cons.IH [of c' "Suc n" "parsed @ [r]" w1] Cons.prems show ?case
    using w1 c'(1) by (simp add: wbind_apply raised_def)
qed

text \<open>(C31) Nothing that was asked for is lost: when the server returns rows of the requested ranges in order, and the
  deadline is not reached, the connector accepts exactly these rows, unchanged. Together with the property
  above this determines what the connector accepts.\<close>

theorem requested_rows_are_accepted:
  assumes "provenance_ok provenance query" "in_time clock deadline"
    and "\<forall>r \<in> set rs. row_accepted ranges key_field_index key_context query r \<and> mk_PostgresIntegerExactRow r = Inr r"
    and "sorted_wrt (row_before ranges) rs"
    and "key_field_index < length (cs_fields (ec_schema (pq_context query)))"
    and "mk_CanonicalSchema \<lparr>cs_protocol = cs_protocol (ec_schema (pq_context query)),
      cs_fields = [cs_fields (ec_schema (pq_context query)) ! key_field_index]\<rparr> = Inr key_schema"
    and "prepare_envelope_context key_schema = Inr key_context"
  shows "\<exists>w'. integer_exact_rows_from_database clock (map (exact_row_values provenance) rs) ranges key_field_index query
    deadline w = (Inr rs, w')"
proof -
  have "\<forall>r \<in> set rs. ahead ranges \<lparr>cu_ordinal = -1, cu_last_key = None\<rparr> r"
    using assms(3) by (auto simp: row_accepted_def ahead_def)
  from exact_rows_loop_complete [OF assms(1-4) this, of 0 "[]" w] show ?thesis
    using assms(5-7) by (simp add: integer_exact_rows_from_database_def Let_def wbind_apply raised_def)
qed

section \<open>A row of the example schema\<close>

definition example_key_schema :: canonical_schema where
  "example_key_schema = \<lparr>cs_protocol = PROTOCOL, cs_fields = [cs_fields Canonical_Envelope.example_schema ! 0]\<rparr>"

definition example_query :: "envelope_context \<Rightarrow> unit postgres_query" where
  "example_query c = \<lparr>pq_statement = (), pq_context = c,
     pq_relations = [\<lparr>qr_context_id = 1, qr_relation_row_type_oid = 16385, qr_contributes_rows = True\<rparr>],
     pq_max_encoded_envelope_bytes = 10000\<rparr>"

definition example_range :: range_request where
  "example_range = \<lparr>rq_segment_id = asc ''s0'', rq_lower_inclusive = 0, rq_upper_exclusive = Some 10\<rparr>"

definition example_exact_row :: "bytes \<Rightarrow> bytes \<Rightarrow> exact_row" where
  "example_exact_row key_envelope row_envelope =
     \<lparr>er_segment_id = asc ''s0'', er_key_value = 7, er_key_envelope = key_envelope, er_row_envelope = row_envelope,
      er_values = [Some (PInt 7), None]\<rparr>"

definition example_read_deadline :: read_deadline where
  "example_read_deadline = \<lparr>rd_statement_timeout_milliseconds = 1000, rd_deadline_nanoseconds = 60000000000\<rparr>"

lemma example_key_schema_facts:
  "wf_schema example_key_schema" "mk_CanonicalSchema example_key_schema = Inr example_key_schema"
  by (simp add: example_key_schema_def Canonical_Envelope.example_schema_def wf_schema_def wf_field_def
      wf_parameters_def is_scalar_def UINT32_MAX_def) code_simp

lemma example_row_accepted:
  obtains c kc ke re where "ec_schema c = Canonical_Envelope.example_schema"
    "prepare_envelope_context example_key_schema = Inr kc"
    "row_accepted [example_range] 0 kc (example_query c) (example_exact_row ke re)"
proof -
  obtain c where c: "prepare_envelope_context Canonical_Envelope.example_schema = Inr c" "wf_context c"
    "ec_schema c = Canonical_Envelope.example_schema"
    by (rule prepare_envelope_context_ok [OF example_schema_wf])
  obtain kc where kc: "prepare_envelope_context example_key_schema = Inr kc" "wf_context kc" "ec_schema kc = example_key_schema"
    by (rule prepare_envelope_context_ok [OF example_key_schema_facts(1)])
  let ?fields = "cs_fields Canonical_Envelope.example_schema"
  let ?re = "ec_row_header c @ frames_text ?fields [Some ''7'', None]"
  let ?ke = "ec_key_header kc @ frames_text (cs_fields example_key_schema) [Some ''7'']"
  have row: "decode_row_with_context c ?re = Inr [Some (PInt 7), None]"
  proof -
    have "length [Some ''7'', None] = length ?fields" "list_all frame_fits [Some ''7'', None]"
      "list_all2 (\<lambda>x w. decode_row_field x = Inr w) (zip ?fields [Some ''7'', None]) [Some (PInt 7), None]"
      by code_simp+
    then show ?thesis unfolding decode_row_iff [OF c(2)] c(3) by blast
  qed
  have key: "decode_key_with_context kc ?ke = Inr [PInt 7]"
  proof -
    have "length [Some ''7''] = length (cs_fields example_key_schema)" "list_all frame_fits [Some ''7'']"
      "list_all2 (\<lambda>x w. decode_key_field x = Inr w) (zip (cs_fields example_key_schema) [Some ''7'']) [PInt 7]"
      by code_simp+
    then show ?thesis unfolding decode_key_iff [OF kc(2)] kc(3) by blast
  qed
  have "length (frames_text ?fields [Some ''7'', None]) = 40" by code_simp
  then have len: "int (length ?re) \<le> 10000" using wf_context_header_shape(1) [OF c(2)] by (simp add: header_shape_def)
  have "row_accepted [example_range] 0 kc (example_query c) (example_exact_row ?ke ?re)"
    using row key len
    by (simp add: row_accepted_def example_exact_row_def example_query_def example_range_def ordinal_of_def dict_of_def in_range_def)
  then show ?thesis using c kc that by blast
qed

lemma example_row_conditions:
  assumes "ec_schema c = Canonical_Envelope.example_schema"
  shows "provenance_ok [DbInt 16385] (example_query c)" "in_time (\<lambda>s. (0, s)) example_read_deadline"
    "mk_PostgresIntegerExactRow (example_exact_row ke re) = Inr (example_exact_row ke re)"
    "0 < length (cs_fields (ec_schema (pq_context (example_query c))))"
    "\<lparr>cs_protocol = cs_protocol (ec_schema (pq_context (example_query c))),
       cs_fields = [cs_fields (ec_schema (pq_context (example_query c))) ! 0]\<rparr> = example_key_schema"
  using assms
  by (simp_all add: provenance_ok_def example_query_def check_row_type_def require_bounded_db_integer_def
      require_bounded_integer_def UINT32_MAX_INT_def UINT32_MAX_def result_iffs in_time_def example_read_deadline_def
      mk_PostgresIntegerExactRow_def example_exact_row_def INT64_MIN_def INT64_MAX_def example_key_schema_def)
    (simp_all add: Canonical_Envelope.example_schema_def)

lemma example_rows_read:
  obtains c kc ke re w' where "row_accepted [example_range] 0 kc (example_query c) (example_exact_row ke re)"
    "integer_exact_rows_from_database (\<lambda>s. (0, s)) [exact_row_values [DbInt 16385] (example_exact_row ke re)]
      [example_range] 0 (example_query c) example_read_deadline () = (Inr [example_exact_row ke re], w')"
proof -
  obtain c kc ke re where r: "ec_schema c = Canonical_Envelope.example_schema"
    "prepare_envelope_context example_key_schema = Inr kc"
    "row_accepted [example_range] 0 kc (example_query c) (example_exact_row ke re)" by (rule example_row_accepted)
  note conditions = example_row_conditions [OF r(1)]
  have "\<forall>x \<in> set [example_exact_row ke re]. ahead [example_range] \<lparr>cu_ordinal = -1, cu_last_key = None\<rparr> x"
    using r(3) by (auto simp: row_accepted_def ahead_def)
  with exact_rows_loop_complete [OF conditions(1,2), of "[example_exact_row ke re]" "[example_range]" 0 kc _ 0 "[]" "()"]
  show ?thesis
    using r(2,3) conditions(3-5) example_key_schema_facts(2) that
    by (auto simp: integer_exact_rows_from_database_def Let_def wbind_apply raised_def)
qed

theorem exact_rows_are_as_requested_witness:
  "\<exists>c ke re w' kc. integer_exact_rows_from_database (\<lambda>s. (0, s)) [exact_row_values [DbInt 16385] (example_exact_row ke re)]
      [example_range] 0 (example_query c) example_read_deadline () = (Inr [example_exact_row ke re], w') \<and>
    row_accepted [example_range] 0 kc (example_query c) (example_exact_row ke re)"
proof -
  obtain c ke re w' where run: "integer_exact_rows_from_database (\<lambda>s. (0, s))
      [exact_row_values [DbInt 16385] (example_exact_row ke re)]
      [example_range] 0 (example_query c) example_read_deadline () = (Inr [example_exact_row ke re], w')"
    by (rule example_rows_read)
  from exact_rows_are_as_requested [OF run] run show ?thesis by auto
qed

theorem requested_rows_are_accepted_witness:
  "\<exists>c ke re w'. integer_exact_rows_from_database (\<lambda>s. (0, s)) (map (exact_row_values [DbInt 16385]) [example_exact_row ke re])
      [example_range] 0 (example_query c) example_read_deadline () = (Inr [example_exact_row ke re], w')"
proof -
  obtain c kc ke re where r: "ec_schema c = Canonical_Envelope.example_schema"
    "prepare_envelope_context example_key_schema = Inr kc"
    "row_accepted [example_range] 0 kc (example_query c) (example_exact_row ke re)" by (rule example_row_accepted)
  note conditions = example_row_conditions [OF r(1)]
  have all: "\<forall>x \<in> set [example_exact_row ke re]. row_accepted [example_range] 0 kc (example_query c) x \<and>
      mk_PostgresIntegerExactRow x = Inr x" "sorted_wrt (row_before [example_range]) [example_exact_row ke re]"
    using r(3) conditions(3) by simp_all
  have schema: "mk_CanonicalSchema \<lparr>cs_protocol = cs_protocol (ec_schema (pq_context (example_query c))),
      cs_fields = [cs_fields (ec_schema (pq_context (example_query c))) ! 0]\<rparr> = Inr example_key_schema"
    unfolding conditions(5) by (rule example_key_schema_facts(2))
  from requested_rows_are_accepted [OF conditions(1,2) all conditions(4) schema r(2), of "()"] show ?thesis by blast
qed

end
