(* ===== verification/Postgres_Reads.thy ===== *)
theory Postgres_Reads
  imports Postgres_Rows
begin

text \<open>
  The read context of \<open>src/forensic_data/postgres.py\<close>: the session commands and the bounded queries it
  sends, what it charges to the ledger of the run for them, and the reads of the comparison. The server and
  the driver are a record of operations on an outside state (\<open>psycopg\<close> is not part of the repository):
  they may answer anything, at any time. A context is active, lost after a database error, or closed.
\<close>

section \<open>The server\<close>

datatype context_state = CONTEXT_ACTIVE | CONTEXT_LOST | CONTEXT_CLOSED

record column_description =
  col_name :: pystr
  col_type_code :: int

text \<open>\<open>None\<close> as an error stands for \<open>psycopg.Error\<close>, \<open>None\<close> as a description for a statement without a result;
  \<open>srv_command\<close> sends the session command with a statement timeout and says whether there is an answer to fetch.\<close>

record ('s, 'q) server =
  srv_clock :: "'s clock"
  srv_command :: "uuid \<Rightarrow> int \<Rightarrow> 's \<Rightarrow> (unit option + bool) \<times> 's"
  srv_fetchall :: "uuid \<Rightarrow> 's \<Rightarrow> (unit option + db_row list) \<times> 's"
  srv_execute :: "uuid \<Rightarrow> 'q postgres_query \<Rightarrow> 's \<Rightarrow> (unit option + column_description list option) \<times> 's"
  srv_fetchmany :: "uuid \<Rightarrow> nat \<Rightarrow> 's \<Rightarrow> (unit option + db_row list) \<times> 's"

record 's outside =
  out_server :: 's
  out_states :: "uuid \<Rightarrow> context_state"

type_synonym 's pg_world = "'s outside source_world"

text \<open>Inside a query an exception is \<open>psycopg.Error\<close> (\<open>None\<close>) or one of the program's own.\<close>

type_synonym ('s, 'a) attempt_eff = "('s pg_world, cause option, 'a) eff"

definition own :: "('w, cause, 'a) eff \<Rightarrow> ('w, cause option, 'a) eff" where
  "own m w = (case m w of (Inl e, w') \<Rightarrow> (Inl (Some e), w') | (Inr x, w') \<Rightarrow> (Inr x, w'))"

definition ask :: "('s \<Rightarrow> (unit option + 'a) \<times> 's) \<Rightarrow> ('s, 'a) attempt_eff" where
  "ask f w =
     (case f (out_server (sw_outside w)) of (r, s) \<Rightarrow>
       (map_sum (\<lambda>_. None) id r, w\<lparr>sw_outside := (sw_outside w)\<lparr>out_server := s\<rparr>\<rparr>))"

definition outside_clock :: "('s, 'q) server \<Rightarrow> 's outside clock" where
  "outside_clock srv x = (case srv_clock srv (out_server x) of (now, s) \<Rightarrow> (now, x\<lparr>out_server := s\<rparr>))"

definition set_state :: "uuid \<Rightarrow> context_state \<Rightarrow> 's pg_world \<Rightarrow> 's pg_world" where
  "set_state i state w = w\<lparr>sw_outside := (sw_outside w)\<lparr>out_states := (out_states (sw_outside w))(i := state)\<rparr>\<rparr>"

definition context_state_of :: "uuid \<Rightarrow> 's pg_world \<Rightarrow> context_state" where
  "context_state_of i w = out_states (sw_outside w) i"

text \<open>The connection of one read context: its identifier, the direction of its source, and the statement
  timeout it was opened with.\<close>

record connection =
  cnx_context_id :: uuid
  cnx_direction :: source_direction
  cnx_statement_timeout :: int

section \<open>Commands and bounded fetches\<close>

definition ledger_op ::
  "('s, 'q) server \<Rightarrow> (int \<Rightarrow> ledger \<Rightarrow> (exn + 'a) \<times> ledger) \<Rightarrow> ('s, 'a) attempt_eff" where
  "ledger_op srv f = own (on_ledger (outside_clock srv) f)"

definition require_fetch_deadline :: "('s, 'q) server \<Rightarrow> ('s, unit) attempt_eff" where
  "require_fetch_deadline srv = ledger_op srv (\<lambda>now l. (require_result_fetch_deadline now l, l))"

definition read_deadline_check :: "('s, 'q) server \<Rightarrow> read_deadline \<Rightarrow> ('s pg_world, cause, int) eff" where
  "read_deadline_check srv deadline = require_postgres_read_deadline (world_clock (outside_clock srv)) deadline"

definition execute_source_command :: "('s, 'q) server \<Rightarrow> connection \<Rightarrow> int \<Rightarrow> ('s, unit) attempt_eff" where
  "execute_source_command srv cn timeout_milliseconds =
     wbind (ledger_op srv (dispatch_query (cnx_direction cn) 0)) (\<lambda>_.
     wbind (ask (srv_command srv (cnx_context_id cn) timeout_milliseconds)) (\<lambda>has_description.
     if \<not> has_description then wreturn ()
     else
       wbind (require_fetch_deadline srv) (\<lambda>_.
       wbind (ask (srv_fetchall srv (cnx_context_id cn))) (\<lambda>rows.
       wbind (own (raised (traverse database_row_bytes rows))) (\<lambda>row_bytes.
       ledger_op srv (consume_records row_bytes))))))"

definition session_timeout :: "('s, 'q) server \<Rightarrow> connection \<Rightarrow> ('s pg_world, cause, int) eff" where
  "session_timeout srv cn =
     wbind (\<lambda>w. raised (remaining (sw_ledger w)) w) (\<lambda>capacity.
     (\<lambda>w. case world_clock (outside_clock srv) w of (now, w') \<Rightarrow>
       (let remaining_nanoseconds = cap_deadline_nanoseconds capacity - now in
        if remaining_nanoseconds \<le> 0 then (Inl (Raised PostgresReadDeadlineExceededError), w')
        else (Inr (min (cnx_statement_timeout cn) (max 1 (remaining_nanoseconds div 1000000))), w'))))"

definition restore_session_invariants :: "('s, 'q) server \<Rightarrow> connection \<Rightarrow> ('s, unit) attempt_eff" where
  "restore_session_invariants srv cn =
     wbind (own (session_timeout srv cn)) (\<lambda>timeout. execute_source_command srv cn timeout)"

definition deadline_statement_timeout_milliseconds ::
  "('s, 'q) server \<Rightarrow> int \<Rightarrow> read_deadline \<Rightarrow> ('s pg_world, cause, int) eff" where
  "deadline_statement_timeout_milliseconds srv context_timeout deadline =
     wbind (raised (validate_positive_integer context_timeout)) (\<lambda>_.
     wbind (read_deadline_check srv deadline) (\<lambda>remaining_milliseconds.
     wreturn (min context_timeout (min (rd_statement_timeout_milliseconds deadline) remaining_milliseconds))))"

definition restore_session_invariants_before_deadline ::
  "('s, 'q) server \<Rightarrow> connection \<Rightarrow> read_deadline \<Rightarrow> ('s, unit) attempt_eff" where
  "restore_session_invariants_before_deadline srv cn deadline =
     wbind (own (deadline_statement_timeout_milliseconds srv (cnx_statement_timeout cn) deadline)) (\<lambda>timeout.
     execute_source_command srv cn timeout)"

definition CURSOR_FETCH_RECORDS :: nat where
  "CURSOR_FETCH_RECORDS = 64"

text \<open>The checks on one batch: record count, record size, total size; the new total.\<close>

definition check_batch :: "int \<Rightarrow> int \<Rightarrow> int \<Rightarrow> nat \<Rightarrow> int \<Rightarrow> int list \<Rightarrow> exn + int" where
  "check_batch max_records max_record_bytes max_total_bytes record_count total_bytes batch_bytes =
     (let observed_records = int record_count + int (length batch_bytes);
          observed_bytes = total_bytes + sum_list batch_bytes in
      ebind (require (\<not> observed_records > max_records) PostgresResultLimitError) (\<lambda>_.
      ebind (require (\<not> list_ex (\<lambda>v. v > max_record_bytes) batch_bytes) PostgresResultLimitError) (\<lambda>_.
      ebind (require (\<not> observed_bytes > max_total_bytes) PostgresResultLimitError) (\<lambda>_.
      Inr observed_bytes))))"

text \<open>One turn of the \<open>while True\<close> loop of \<open>_fetch_bounded_rows\<close> and of its version before a deadline
  (\<open>Some\<close>): the batch and the total with it, and whether the loop goes on.\<close>

definition fetch_batch ::
  "('s, 'q) server \<Rightarrow> uuid \<Rightarrow> read_deadline option \<Rightarrow> int \<Rightarrow> int \<Rightarrow> int \<Rightarrow> nat \<Rightarrow> int \<Rightarrow>
   ('s, (db_row list \<times> int \<times> bool)) attempt_eff" where
  "fetch_batch srv i deadline max_records max_record_bytes max_total_bytes record_count total_bytes =
     (let deadline_check = (case deadline of None \<Rightarrow> wreturn ()
            | Some d \<Rightarrow> own (wbind (read_deadline_check srv d) (\<lambda>_. wreturn ())));
          fetch_records = min CURSOR_FETCH_RECORDS (nat (max_records + 1 - int record_count)) in
      wbind deadline_check (\<lambda>_.
      wbind (require_fetch_deadline srv) (\<lambda>_.
      wbind (ask (srv_fetchmany srv i fetch_records)) (\<lambda>batch.
      if batch = [] then wreturn ([], total_bytes, False)
      else
        wbind (own (raised (traverse database_row_bytes batch))) (\<lambda>batch_bytes.
        wbind (ledger_op srv (consume_records batch_bytes)) (\<lambda>_.
        wbind deadline_check (\<lambda>_.
        wbind (own (raised (check_batch max_records max_record_bytes max_total_bytes record_count total_bytes
          batch_bytes))) (\<lambda>observed_bytes.
        wreturn (batch, observed_bytes, \<not> length batch < fetch_records)))))))))"

lemma own_iffs:
  "own m w = (Inr x, w') \<longleftrightarrow> m w = (Inr x, w')"
  "own m w = (Inl e, w') \<longleftrightarrow> (\<exists>c. e = Some c \<and> m w = (Inl c, w'))"
  by (auto simp: own_def split: prod.splits sum.splits)

lemma snd_own [simp]: "snd (own m w) = snd (m w)"
  by (simp add: own_def split: prod.splits sum.splits)

lemma keeps_own: "keeps R m \<Longrightarrow> keeps R (own m)"
  by (simp add: keeps_def)

lemma check_batch_bounds:
  assumes "check_batch m r t n tb bs = Inr tb1"
  shows "int n + int (length bs) \<le> m" "\<forall>b \<in> set bs. b \<le> r" "tb1 = tb + sum_list bs" "tb1 \<le> t"
  using assms by (auto simp: check_batch_def result_iffs Let_def list_ex_iff not_less)

lemma fetch_batch_bounds:
  assumes "fetch_batch srv i d m r t n tb w = (Inr (batch, tb1, again), w')"
  shows "(batch = [] \<and> tb1 = tb \<and> \<not> again) \<or>
    (batch \<noteq> [] \<and> (\<exists>bs. traverse database_row_bytes batch = Inr bs \<and> check_batch m r t n tb bs = Inr tb1))"
  using assms
  by (auto simp: fetch_batch_def Let_def weff_iffs own_iffs raised_iffs split: if_splits)

lemma traverse_length_eq: "traverse f xs = Inr ys \<Longrightarrow> length ys = length xs"
  by (simp add: traverse_eq_Inr_iff list_all2_lengthD)

lemma fetch_batch_progress:
  assumes "fetch_batch srv i d m r t n tb w = (Inr (batch, tb1, True), w')"
  shows "0 < length batch \<and> int n + int (length batch) \<le> m"
  using fetch_batch_bounds [OF assms] check_batch_bounds(1) traverse_length_eq by (metis length_greater_0_conv)

function fetch_rows_loop ::
  "('s, 'q) server \<Rightarrow> uuid \<Rightarrow> read_deadline option \<Rightarrow> int \<Rightarrow> int \<Rightarrow> int \<Rightarrow> db_row list \<Rightarrow> int \<Rightarrow> ('s, db_row list) attempt_eff" where
  "fetch_rows_loop srv i deadline max_records max_record_bytes max_total_bytes records total_bytes w =
     (case fetch_batch srv i deadline max_records max_record_bytes max_total_bytes (length records) total_bytes w of
        (Inl e, w') \<Rightarrow> (Inl e, w')
      | (Inr (batch, total_bytes', again), w') \<Rightarrow>
          if again then fetch_rows_loop srv i deadline max_records max_record_bytes max_total_bytes
            (records @ batch) total_bytes' w'
          else (Inr (records @ batch), w'))"
  by pat_completeness auto

termination fetch_rows_loop
proof (relation "measure (\<lambda>(srv, i, d, m, r, t, records, tb, w). nat (m + 1 - int (length records)))", goal_cases)
  case 1
  then show ?case by simp
next
  case (2 srv i d m r t records tb w x y xa batch yb tb1 more)
  then have "fetch_batch srv i d m r t (length records) tb w = (Inr (batch, tb1, True), y)" by auto
  from fetch_batch_progress [OF this] show ?case by simp
qed

declare fetch_rows_loop.simps [simp del]

definition fetch_bounded_rows ::
  "('s, 'q) server \<Rightarrow> uuid \<Rightarrow> read_deadline option \<Rightarrow> int \<Rightarrow> int \<Rightarrow> int \<Rightarrow> ('s, db_row list) attempt_eff" where
  "fetch_bounded_rows srv i deadline max_records max_record_bytes max_total_bytes =
     fetch_rows_loop srv i deadline max_records max_record_bytes max_total_bytes [] 0"

section \<open>Queries\<close>

definition validate_result_limits :: "int \<Rightarrow> int \<Rightarrow> int \<Rightarrow> exn + unit" where
  "validate_result_limits max_records max_record_bytes max_total_bytes =
     ebind (validate_positive_integer max_records) (\<lambda>_.
     ebind (validate_positive_integer max_record_bytes) (\<lambda>_.
     ebind (validate_positive_integer max_total_bytes) (\<lambda>_.
     require (\<not> max_record_bytes > max_total_bytes) ValueError)))"

definition require_active :: "connection \<Rightarrow> ('s pg_world, cause, unit) eff" where
  "require_active cn = (\<lambda>w.
     case context_state_of (cnx_context_id cn) w of
       CONTEXT_CLOSED \<Rightarrow> (Inl (ConnectorError PostgresContextClosedError), w)
     | CONTEXT_LOST \<Rightarrow> (Inl (ConnectorError PostgresContextLostError), w)
     | CONTEXT_ACTIVE \<Rightarrow> (Inr (), w))"

text \<open>\<open>except psycopg.Error\<close>: the context is lost and \<open>PostgresQueryError\<close> is raised.\<close>

definition losing_context :: "connection \<Rightarrow> ('s, 'a) attempt_eff \<Rightarrow> ('s pg_world, cause, 'a) eff" where
  "losing_context cn m w =
     (case m w of
        (Inl None, w') \<Rightarrow> (Inl (ConnectorError PostgresQueryError), set_state (cnx_context_id cn) CONTEXT_LOST w')
      | (Inl (Some e), w') \<Rightarrow> (Inl e, w')
      | (Inr x, w') \<Rightarrow> (Inr x, w'))"

definition require_compiled_origin_types :: "column_description list option \<Rightarrow> query_relation list \<Rightarrow> exn + unit" where
  "require_compiled_origin_types description relations =
     (case description of
        None \<Rightarrow> Inl PostgresDataValidationError
      | Some columns \<Rightarrow>
          ebind (require (\<not> length columns < length relations) PostgresDataValidationError) (\<lambda>_.
          check_all (\<lambda>(index, column).
              ebind (require (col_name column = asc (if index = 0 then ''origin_type'' else ''origin_type_'' @ int_str (int index)))
                PostgresDataValidationError) (\<lambda>_.
              ebind (require_bounded_integer (col_type_code column) 1 UINT32_MAX_INT) (\<lambda>observed.
              require (observed = 20) PostgresDataValidationError)))
            (zip [0..<length relations] columns)))"

definition compiled_attempt ::
  "('s, 'q) server \<Rightarrow> connection \<Rightarrow> 'q postgres_query \<Rightarrow> int \<Rightarrow> int \<Rightarrow> int \<Rightarrow> read_deadline option \<Rightarrow> int \<Rightarrow>
   ('s, db_row list) attempt_eff" where
  "compiled_attempt srv cn query max_records max_record_bytes max_total_bytes deadline full_scans =
     wbind (case deadline of None \<Rightarrow> restore_session_invariants srv cn
            | Some d \<Rightarrow> restore_session_invariants_before_deadline srv cn d) (\<lambda>_.
     wbind (ledger_op srv (dispatch_query (cnx_direction cn) full_scans)) (\<lambda>_.
     wbind (ask (srv_execute srv (cnx_context_id cn) query)) (\<lambda>description.
     wbind (own (raised (require_compiled_origin_types description (pq_relations query)))) (\<lambda>_.
     fetch_bounded_rows srv (cnx_context_id cn) deadline max_records max_record_bytes max_total_bytes))))"

definition execute_compiled_query ::
  "('s, 'q) server \<Rightarrow> connection \<Rightarrow> 'q postgres_query \<Rightarrow> int \<Rightarrow> int \<Rightarrow> int \<Rightarrow> int \<Rightarrow> ('s pg_world, cause, db_row list) eff" where
  "execute_compiled_query srv cn query max_records max_record_bytes max_total_bytes full_scans =
     wbind (raised (validate_result_limits max_records max_record_bytes max_total_bytes)) (\<lambda>_.
     wbind (require_active cn) (\<lambda>_.
     wbind (losing_context cn (compiled_attempt srv cn query max_records max_record_bytes max_total_bytes None full_scans))
       (\<lambda>records.
     wbind (raised (require_compiled_query_provenance records query)) (\<lambda>_.
     wreturn records))))"

definition execute_compiled_query_before_deadline ::
  "('s, 'q) server \<Rightarrow> connection \<Rightarrow> 'q postgres_query \<Rightarrow> int \<Rightarrow> int \<Rightarrow> int \<Rightarrow> read_deadline \<Rightarrow> int \<Rightarrow>
   ('s pg_world, cause, db_row list) eff" where
  "execute_compiled_query_before_deadline srv cn query max_records max_record_bytes max_total_bytes deadline full_scans =
     wbind (raised (validate_result_limits max_records max_record_bytes max_total_bytes)) (\<lambda>_.
     wbind (read_deadline_check srv deadline) (\<lambda>_.
     wbind (require_active cn) (\<lambda>_.
     wbind (losing_context cn (compiled_attempt srv cn query max_records max_record_bytes max_total_bytes (Some deadline)
       full_scans)) (\<lambda>records.
     wbind (raised (require_compiled_query_provenance records query)) (\<lambda>_.
     wreturn records)))))"

definition require_query_context :: "connection \<Rightarrow> 'q postgres_query \<Rightarrow> ('w, cause, unit) eff" where
  "require_query_context cn query =
     wrequire (list_all (\<lambda>r. qr_context_id r = cnx_context_id cn) (pq_relations query))
       (ConnectorError PostgresQueryContextError)"

section \<open>The reads of a context\<close>

definition context_key_summary ::
  "('s, 'q) server \<Rightarrow> connection \<Rightarrow> 'q postgres_query \<Rightarrow> int \<Rightarrow> int \<Rightarrow> read_deadline \<Rightarrow> int \<Rightarrow>
   ('s pg_world, cause, key_summary_read) eff" where
  "context_key_summary srv cn query max_record_bytes max_total_bytes deadline full_scans =
     wbind (require_query_context cn query) (\<lambda>_.
     wbind (read_deadline_check srv deadline) (\<lambda>_.
     let expected_full_scans = query_physical_scan_count query; provenance = query_provenance_bytes query in
     wbind (raised (require_compiled_full_scan_reservation full_scans expected_full_scans)) (\<lambda>_.
     wbind (execute_compiled_query_before_deadline srv cn query 1 (max_record_bytes + provenance)
       (max_total_bytes + provenance) deadline expected_full_scans) (\<lambda>rows.
     wbind (wrequire (length rows = 1) (Raised PostgresDataValidationError)) (\<lambda>_.
     wbind (raised (integer_key_summary_from_database (hd rows) query)) (\<lambda>summary.
     wbind (read_metrics_before_deadline (world_clock (outside_clock srv)) rows deadline) (\<lambda>metrics.
     wreturn \<lparr>ksr_summary = summary, ksr_metrics = metrics\<rparr>)))))))"

definition context_range_fingerprints ::
  "('s, 'q) server \<Rightarrow> connection \<Rightarrow> 'q postgres_query \<Rightarrow> range_request list \<Rightarrow> int \<Rightarrow> int \<Rightarrow> read_deadline \<Rightarrow> int \<Rightarrow>
   ('s pg_world, cause, range_fingerprint_read) eff" where
  "context_range_fingerprints srv cn query ranges max_record_bytes max_total_bytes deadline full_scans =
     wbind (require_query_context cn query) (\<lambda>_.
     wbind (read_deadline_check srv deadline) (\<lambda>_.
     let expected_full_scans = int (length ranges) * query_physical_scan_count query;
         provenance = query_provenance_bytes query in
     wbind (raised (require_compiled_full_scan_reservation full_scans expected_full_scans)) (\<lambda>_.
     wbind (execute_compiled_query_before_deadline srv cn query (int (length ranges)) (max_record_bytes + provenance)
       (max_total_bytes + int (length ranges) * provenance) deadline expected_full_scans) (\<lambda>rows.
     wbind (range_fingerprints_from_database (world_clock (outside_clock srv)) rows ranges query deadline) (\<lambda>parsed.
     wbind (read_metrics_before_deadline (world_clock (outside_clock srv)) rows deadline) (\<lambda>metrics.
     wreturn \<lparr>rfr_ranges = parsed, rfr_metrics = metrics\<rparr>))))))"

definition context_range_rows ::
  "('s, 'q) server \<Rightarrow> connection \<Rightarrow> 'q postgres_query \<Rightarrow> range_request list \<Rightarrow> nat \<Rightarrow> int \<Rightarrow> int \<Rightarrow> int \<Rightarrow>
   read_deadline \<Rightarrow> int \<Rightarrow> ('s pg_world, cause, exact_rows_read) eff" where
  "context_range_rows srv cn query ranges key_field_index max_records max_record_bytes max_total_bytes deadline full_scans =
     wbind (require_query_context cn query) (\<lambda>_.
     wbind (read_deadline_check srv deadline) (\<lambda>_.
     let expected_full_scans = int (length ranges) * query_physical_scan_count query;
         raw_record_overhead = query_provenance_bytes query + 1 in
     wbind (raised (require_compiled_full_scan_reservation full_scans expected_full_scans)) (\<lambda>_.
     wbind (execute_compiled_query_before_deadline srv cn query max_records (max_record_bytes + raw_record_overhead)
       (max_total_bytes + max_records * raw_record_overhead) deadline expected_full_scans) (\<lambda>rows.
     wbind (integer_exact_rows_from_database (world_clock (outside_clock srv)) rows ranges key_field_index query deadline)
       (\<lambda>parsed.
     wbind (exact_read_metrics (world_clock (outside_clock srv)) rows query deadline) (\<lambda>metrics.
     wreturn \<lparr>err_rows = parsed, err_metrics = metrics\<rparr>))))))"

definition CANONICAL_STATUS_BYTES :: int where
  "CANONICAL_STATUS_BYTES = 2"

fun canonical_rows_loop ::
  "'q postgres_query \<Rightarrow> int \<Rightarrow> int \<Rightarrow> db_row list \<Rightarrow> canonical_row list \<Rightarrow> int \<Rightarrow> exn + canonical_row list" where
  "canonical_rows_loop query max_records max_total_bytes [] parsed logical_total_bytes = Inr parsed"
| "canonical_rows_loop query max_records max_total_bytes (row # rows) parsed logical_total_bytes =
     ebind (canonical_row_from_database row query) (\<lambda>result.
     case result of
       None \<Rightarrow> canonical_rows_loop query max_records max_total_bytes rows parsed logical_total_bytes
     | Some r \<Rightarrow>
         ebind (require (\<not> int (length parsed) \<ge> max_records) PostgresResultLimitError) (\<lambda>_.
         let observed = logical_total_bytes + (int (length (cr_envelope r)) + 32 + CANONICAL_STATUS_BYTES) in
         ebind (require (\<not> observed > max_total_bytes) PostgresResultLimitError) (\<lambda>_.
         canonical_rows_loop query max_records max_total_bytes rows (parsed @ [r]) observed)))"

definition context_canonical_rows ::
  "('s, 'q) server \<Rightarrow> connection \<Rightarrow> 'q postgres_query \<Rightarrow> int \<Rightarrow> int \<Rightarrow> int \<Rightarrow> ('s pg_world, cause, canonical_row list) eff" where
  "context_canonical_rows srv cn query max_records max_record_bytes max_total_bytes =
     wbind (require_query_context cn query) (\<lambda>_.
     wbind (raised (validate_result_limits max_records max_record_bytes max_total_bytes)) (\<lambda>_.
     wbind (wrequire (\<not> max_record_bytes < pq_max_encoded_envelope_bytes query + 32 + CANONICAL_STATUS_BYTES)
       (Raised ValueError)) (\<lambda>_.
     let raw_record_overhead = 10 + 1; raw_max_records = max_records + int (length (pq_relations query)) in
     wbind (execute_compiled_query srv cn query raw_max_records (max_record_bytes + raw_record_overhead)
       (max_total_bytes + raw_max_records * raw_record_overhead) (query_physical_scan_count query)) (\<lambda>rows.
     raised (canonical_rows_loop query max_records max_total_bytes rows [] 0)))))"

definition context_fingerprint ::
  "('s, 'q) server \<Rightarrow> connection \<Rightarrow> 'q postgres_query \<Rightarrow> int \<Rightarrow> int \<Rightarrow> ('s pg_world, cause, fingerprint) eff" where
  "context_fingerprint srv cn query max_record_bytes max_total_bytes =
     wbind (require_query_context cn query) (\<lambda>_.
     let provenance = query_provenance_bytes query in
     wbind (execute_compiled_query srv cn query 1 (max_record_bytes + provenance) (max_total_bytes + provenance)
       (query_physical_scan_count query)) (\<lambda>rows.
     wbind (wrequire (length rows = 1) (Raised PostgresDataValidationError)) (\<lambda>_.
     raised
       (ebind (compiled_query_payload (hd rows) query 11) (\<lambda>payload.
        ebind (parse_aggregates payload) fingerprint_from_aggregates)))))"

section \<open>The services of the comparison\<close>

text \<open>A protected context looks up the relation in the set it acquired, has the query of the read composed, and
  reads through its connection. The composition of the statements, and which connection and relations belong
  to a context and an inspection, are parameters.\<close>

record 'q protected_reads =
  pr_connection :: "read_context \<Rightarrow> connection"
  pr_summary_query :: "comparison_relation \<Rightarrow> nat \<Rightarrow> scope_predicate option \<Rightarrow> int \<Rightarrow> exn + 'q postgres_query"
  pr_fingerprint_query :: "comparison_relation \<Rightarrow> nat \<Rightarrow> scope_predicate option \<Rightarrow> range_request list \<Rightarrow> int \<Rightarrow>
    exn + 'q postgres_query"
  pr_rows_query :: "comparison_relation \<Rightarrow> nat \<Rightarrow> scope_predicate option \<Rightarrow> range_request list \<Rightarrow> int \<Rightarrow>
    exn + 'q postgres_query"

definition require_protected_relation :: "read_context \<Rightarrow> comparison_relation \<Rightarrow> ('w, cause, unit) eff" where
  "require_protected_relation context relation =
     wrequire (crl_identity relation \<in> crl_identity ` set (cx_protected_relations context))
       (ConnectorError PostgresQueryContextError)"

definition postgres_services :: "('s, 'q) server \<Rightarrow> 'q protected_reads \<Rightarrow> 's pg_world services" where
  "postgres_services srv pr =
     \<lparr>sv_clock = world_clock (outside_clock srv), sv_ledger = sw_ledger,
      sv_active = (\<lambda>context w. context_state_of (cnx_context_id (pr_connection pr context)) w = CONTEXT_ACTIVE),
      sv_read_summary = (\<lambda>context relation key_field_index scope env_limit record_limit total_limit deadline full_scans.
        wbind (require_protected_relation context relation) (\<lambda>_.
        wbind (raised (pr_summary_query pr relation key_field_index scope env_limit)) (\<lambda>query.
        context_key_summary srv (pr_connection pr context) query record_limit total_limit deadline full_scans))),
      sv_read_fingerprints = (\<lambda>context relation key_field_index scope ranges env_limit record_limit total_limit deadline
          full_scans.
        wbind (require_protected_relation context relation) (\<lambda>_.
        wbind (raised (pr_fingerprint_query pr relation key_field_index scope ranges env_limit)) (\<lambda>query.
        context_range_fingerprints srv (pr_connection pr context) query ranges record_limit total_limit deadline full_scans))),
      sv_read_rows = (\<lambda>context relation key_field_index scope ranges env_limit max_records record_limit total_limit deadline
          full_scans.
        wbind (require_protected_relation context relation) (\<lambda>_.
        wbind (raised (pr_rows_query pr relation key_field_index scope ranges env_limit)) (\<lambda>query.
        context_range_rows srv (pr_connection pr context) query ranges key_field_index max_records record_limit total_limit
          deadline full_scans)))\<rparr>"

section \<open>What the reads keep\<close>

text \<open>A relation on worlds that a charge to the ledger and an answer of the server keep, and one that the loss of a
  context keeps, too.\<close>

locale server_relation = kept_relation R for R :: "'s pg_world \<Rightarrow> 's pg_world \<Rightarrow> bool" +
  assumes ledger_moves: "ledger_step\<^sup>*\<^sup>* (sw_ledger w) l \<Longrightarrow> R w (w\<lparr>sw_ledger := l\<rparr>)"
    and server_moves: "R w (w\<lparr>sw_outside := (sw_outside w)\<lparr>out_server := s\<rparr>\<rparr>)"
begin

lemma clock_keeps: "R w (snd (world_clock (outside_clock srv) w))"
  using server_moves by (simp add: world_clock_def outside_clock_def split: prod.splits)

lemma ask_keeps: "keeps R (ask g)"
  using server_moves by (simp add: keeps_def ask_def split: prod.splits)

lemma on_ledger_keeps:
  assumes "\<And>now l. ledger_step l (snd (f now l))"
  shows "keeps R (on_ledger (outside_clock srv) f)"
proof -
  have "R w (snd (on_ledger (outside_clock srv) f w))" for w
  proof -
    obtain now w1 where w1: "world_clock (outside_clock srv) w = (now, w1)" by (meson surj_pair)
    obtain r l where l: "f now (sw_ledger w1) = (r, l)" by (meson surj_pair)
    have "R w w1" using clock_keeps [of w srv] w1 by simp
    moreover have "R w1 (w1\<lparr>sw_ledger := l\<rparr>)"
      using assms [of "sw_ledger w1" now] l by (intro ledger_moves) simp
    ultimately show ?thesis using rel_transp w1 l by (auto simp: on_ledger_def dest: transpD)
  qed
  then show ?thesis by (simp add: keeps_def)
qed

lemma charge_keeps:
  "keeps R (ledger_op srv (dispatch_query d n))" "keeps R (ledger_op srv (consume_records bs))"
  unfolding ledger_op_def
  by (rule keeps_own, rule on_ledger_keeps; use surjective_pairing in \<open>blast intro: ledger_step.intros\<close>)+

lemma fetch_deadline_keeps: "keeps R (require_fetch_deadline srv)"
proof -
  have "R w (snd (on_ledger (outside_clock srv) (\<lambda>now l. (require_result_fetch_deadline now l, l)) w))" for w
    using clock_keeps [of w srv] by (auto simp: on_ledger_def split: prod.splits)
  then show ?thesis by (simp add: keeps_def require_fetch_deadline_def ledger_op_def)
qed

lemma read_deadline_check_keeps: "keeps R (read_deadline_check srv d)"
proof -
  have "R w (snd (read_deadline_check srv d w))" for w
    using clock_keeps [of w srv]
    by (auto simp: read_deadline_check_def require_postgres_read_deadline_def Let_def split: prod.splits)
  then show ?thesis by (simp add: keeps_def)
qed

lemma read_deadline_at_keeps: "keeps R (require_read_deadline_at (world_clock (outside_clock srv)) d i)"
  using read_deadline_check_keeps unfolding require_read_deadline_at_def read_deadline_check_def
  by (intro keeps_intros rel_reflp rel_transp)

lemmas pg_base = keeps_intros rel_reflp rel_transp keeps_own charge_keeps ask_keeps fetch_deadline_keeps
  read_deadline_check_keeps read_deadline_check_keeps [unfolded read_deadline_check_def] read_deadline_at_keeps

text \<open>The parsers of the rows only read the clock.\<close>

lemma range_fingerprints_loop_keeps: "keeps R (range_fingerprints_loop (world_clock (outside_clock srv)) d q i rs parsed)"
proof (induction rs arbitrary: i parsed)
  case (Cons r rs)
  then show ?case by (cases r) (simp, intro pg_base Cons)
qed (simp, intro pg_base)

lemma exact_rows_loop_keeps: "keeps R (exact_rows_loop (world_clock (outside_clock srv)) d rs k kc q i rows c parsed)"
proof (induction rows arbitrary: i c parsed)
  case (Cons r rows)
  show ?case by (simp, intro pg_base Cons)
qed (simp, intro pg_base)

lemma row_bytes_loop_keeps: "keeps R (row_bytes_loop (world_clock (outside_clock srv)) d i rows n)"
proof (induction rows arbitrary: i n)
  case (Cons r rows)
  show ?case by (simp, intro pg_base Cons)
qed (simp, intro pg_base)

lemma exact_metrics_loop_keeps: "keeps R (exact_metrics_loop (world_clock (outside_clock srv)) d q i rows n b)"
proof (induction rows arbitrary: i n b)
  case (Cons r rows)
  show ?case by (simp, intro pg_base Cons)
qed (simp, intro pg_base)

lemma parsers_keep:
  "keeps R (range_fingerprints_from_database (world_clock (outside_clock srv)) rows rs q d)"
  "keeps R (integer_exact_rows_from_database (world_clock (outside_clock srv)) rows rs k q d)"
  "keeps R (read_metrics_before_deadline (world_clock (outside_clock srv)) rows d)"
  "keeps R (exact_read_metrics (world_clock (outside_clock srv)) rows q d)"
  unfolding range_fingerprints_from_database_def integer_exact_rows_from_database_def read_metrics_before_deadline_def
    exact_read_metrics_def Let_def
  by (intro pg_base range_fingerprints_loop_keeps exact_rows_loop_keeps row_bytes_loop_keeps exact_metrics_loop_keeps)+

lemma command_keeps: "keeps R (execute_source_command srv cn t)"
  unfolding execute_source_command_def by (intro pg_base)

lemma fetch_batch_keeps: "keeps R (fetch_batch srv i d m r t n tb)"
  unfolding fetch_batch_def Let_def by (intro pg_base)

lemma fetch_rows_loop_keeps: "R w (snd (fetch_rows_loop srv i d m r t records tb w))"
proof (induction srv i d m r t records tb w rule: fetch_rows_loop.induct)
  case (1 srv i d m r t records tb w)
  obtain x w' where b: "fetch_batch srv i d m r t (length records) tb w = (x, w')" by (meson surj_pair)
  then have here: "R w w'" using fetch_batch_keeps by (metis keepsD)
  show ?case
  proof (cases x)
    case (Inr y)
    obtain batch tb' again where y: "y = (batch, tb', again)" by (cases y) auto
    show ?thesis
    proof (cases again)
      case True
      with 1 b Inr y have "R w' (snd (fetch_rows_loop srv i d m r t (records @ batch) tb' w'))" by simp
      then show ?thesis
        using True b Inr y here rel_transp by (subst fetch_rows_loop.simps) (auto dest: transpD)
    qed (subst fetch_rows_loop.simps, use b Inr y here in simp)
  qed (subst fetch_rows_loop.simps, use b here in simp)
qed

lemma fetch_keeps: "keeps R (fetch_bounded_rows srv i d m r t)"
  unfolding fetch_bounded_rows_def keeps_def by (intro allI fetch_rows_loop_keeps)

lemma session_timeout_keeps: "keeps R (session_timeout srv cn)"
  unfolding session_timeout_def
proof (intro keeps_wbind keeps_world rel_reflp rel_transp)
  fix capacity :: capacity_snapshot
  show "keeps R (\<lambda>w. case world_clock (outside_clock srv) w of (now, w') \<Rightarrow>
       (let remaining_nanoseconds = cap_deadline_nanoseconds capacity - now in
        if remaining_nanoseconds \<le> 0 then (Inl (Raised PostgresReadDeadlineExceededError), w')
        else (Inr (min (cnx_statement_timeout cn) (max 1 (remaining_nanoseconds div 1000000))), w')))"
    using clock_keeps [where srv = srv] unfolding keeps_def
    by (auto simp: Let_def split: prod.split) (metis snd_conv)+
qed

lemma restore_keeps: "keeps R (restore_session_invariants srv cn)"
  "keeps R (restore_session_invariants_before_deadline srv cn d)"
  unfolding restore_session_invariants_def restore_session_invariants_before_deadline_def
    deadline_statement_timeout_milliseconds_def
  by (intro pg_base command_keeps session_timeout_keeps)+

lemma attempt_keeps: "keeps R (compiled_attempt srv cn q m r t d n)"
  unfolding compiled_attempt_def by (intro pg_base restore_keeps fetch_keeps)

lemma require_active_keeps: "keeps R (require_active cn)"
  using rel_reflp by (simp add: keeps_def require_active_def reflp_def split: context_state.splits)

end

locale connector_relation = server_relation +
  assumes context_lost: "R w (set_state i CONTEXT_LOST w)"
begin

lemma losing_context_keeps: "keeps R m \<Longrightarrow> keeps R (losing_context cn m)"
  using rel_transp context_lost unfolding keeps_def losing_context_def
  by (auto split: prod.splits sum.splits option.splits) (metis snd_conv transpD)+

lemma execute_keeps:
  "keeps R (execute_compiled_query srv cn q m r t n)"
  "keeps R (execute_compiled_query_before_deadline srv cn q m r t d n)"
  unfolding execute_compiled_query_def execute_compiled_query_before_deadline_def
  by (intro pg_base require_active_keeps losing_context_keeps attempt_keeps)+

lemma context_keeps:
  "keeps R (context_key_summary srv cn q r t d n)"
  "keeps R (context_range_fingerprints srv cn q rs r t d n)"
  "keeps R (context_range_rows srv cn q rs k m r t d n)"
  "keeps R (context_canonical_rows srv cn q m r t)"
  "keeps R (context_fingerprint srv cn q r t)"
  unfolding context_key_summary_def context_range_fingerprints_def context_range_rows_def context_canonical_rows_def
    context_fingerprint_def require_query_context_def Let_def
  by (intro pg_base execute_keeps parsers_keep)+

lemma postgres_services_keep: "services_keep R (postgres_services srv pr)"
  unfolding services_keep_def postgres_services_def require_protected_relation_def
  by (simp add: clock_keeps) (intro conjI allI pg_base context_keeps)

end

section \<open>The relations\<close>

definition same_states :: "'s pg_world \<Rightarrow> 's pg_world \<Rightarrow> bool" where
  "same_states w w' \<longleftrightarrow> out_states (sw_outside w') = out_states (sw_outside w)"

definition never_revived :: "'s pg_world \<Rightarrow> 's pg_world \<Rightarrow> bool" where
  "never_revived w w' \<longleftrightarrow>
     (\<forall>i. context_state_of i w' = CONTEXT_ACTIVE \<longrightarrow> context_state_of i w = CONTEXT_ACTIVE)"

interpretation states: server_relation same_states
  by unfold_locales (auto simp: same_states_def reflp_def transp_def)

interpretation revival: connector_relation never_revived
  by unfold_locales
    (auto simp: never_revived_def reflp_def transp_def context_state_of_def set_state_def)

interpretation charging: connector_relation world_charges
  by unfold_locales (auto simp: world_charges_def reflp_def transp_def set_state_def)

section \<open>What a query may raise\<close>

text \<open>Within a query: \<open>psycopg.Error\<close>, or one of the exceptions that are no connector errors.\<close>

definition plain :: "cause option \<Rightarrow> bool" where
  "plain e \<longleftrightarrow> e = None \<or> (\<exists>x. e = Some (Raised x))"

lemma plain_raises:
  "raises plain (own (raised r))" "raises plain (ask g)" "raises plain (own (on_ledger clock f))"
  "raises plain (own (require_postgres_read_deadline clock d))" "raises plain (own (session_timeout srv cn))"
  by (auto simp: raises_def plain_def own_iffs raised_iffs ask_def on_ledger_def require_postgres_read_deadline_def
      session_timeout_def weff_iffs Let_def split: prod.split_asm sum.split_asm if_split_asm)

lemma own_wbind: "own (wbind m k) = wbind (own m) (\<lambda>x. own (k x))"
  by (auto simp: fun_eq_iff own_def wbind_def split: prod.splits sum.splits)

lemma own_wreturn: "own (wreturn x) = wreturn x"
  by (simp add: fun_eq_iff own_def)

lemmas raises_intros = raises_wreturn raises_wbind raises_if raises_case_option plain_raises

lemma fetch_batch_raises: "raises plain (fetch_batch srv i d m r t n tb)"
  unfolding fetch_batch_def require_fetch_deadline_def ledger_op_def read_deadline_check_def Let_def own_wbind own_wreturn
  by (intro raises_intros)

lemma fetch_rows_loop_raises: "fetch_rows_loop srv i d m r t records tb w = (Inl e, w') \<Longrightarrow> plain e"
proof (induction srv i d m r t records tb w rule: fetch_rows_loop.induct)
  case (1 srv i d m r t records tb w)
  then show ?case
    by (subst (asm) (2) fetch_rows_loop.simps)
      (auto split: sum.splits prod.splits if_splits dest: raisesD [OF fetch_batch_raises])
qed

lemma attempt_raises: "raises plain (compiled_attempt srv cn q m r t d n)"
proof -
  have "raises plain (fetch_bounded_rows srv i d m r t)" for i
    using fetch_rows_loop_raises by (auto simp: raises_def fetch_bounded_rows_def)
  then show ?thesis
    unfolding compiled_attempt_def restore_session_invariants_def restore_session_invariants_before_deadline_def
      deadline_statement_timeout_milliseconds_def execute_source_command_def require_fetch_deadline_def ledger_op_def
      read_deadline_check_def own_wbind own_wreturn
    by (intro raises_intros)
qed

section \<open>The states of a context\<close>

definition lost_when :: "bool \<Rightarrow> uuid \<Rightarrow> (uuid \<Rightarrow> context_state) \<Rightarrow> uuid \<Rightarrow> context_state" where
  "lost_when c i states = (if c then states(i := CONTEXT_LOST) else states)"

lemma losing_context_states:
  assumes "raises plain m" "keeps same_states m" "losing_context cn m w = (r, w')"
  shows "out_states (sw_outside w') =
    lost_when (r = Inl (ConnectorError PostgresQueryError)) (cnx_context_id cn) (out_states (sw_outside w))"
proof (cases "m w")
  case (Pair x w1)
  then have "out_states (sw_outside w1) = out_states (sw_outside w)" using assms(2) by (auto simp: same_states_def dest: keepsD)
  then show ?thesis
    using assms(1,3) Pair
    by (cases x) (auto simp: losing_context_def lost_when_def set_state_def plain_def split: option.splits dest: raisesD)
qed

end
