(* ===== verification/Comparison_Bounds.thy ===== *)
theory Comparison_Bounds
  imports Comparison_Ledger
begin

text \<open>
  The bounds of a comparison: the loop over the levels ends after at most as many levels as the budget has
  fingerprint nodes, and a completed artifact stays within the budgets of its run.
\<close>

text \<open>The levels of the loop, counted.\<close>

fun loop_levels ::
  "nat \<Rightarrow> 'w services \<Rightarrow> sizes \<Rightarrow> comparison_inputs \<Rightarrow> validated_inputs \<Rightarrow> read_deadline \<Rightarrow> key_summary \<Rightarrow> key_summary \<Rightarrow>
   pending_segment list \<Rightarrow> usage \<Rightarrow> progress \<Rightarrow> 'w \<times> progress \<Rightarrow> ((cause + usage \<times> progress) \<times> 'w \<times> progress) option" where
  "loop_levels fuel sv z ci vi d rs ts [] u p s = Some (Inr (u, p), s)"
| "loop_levels 0 sv z ci vi d rs ts (x # xs) u p s = None"
| "loop_levels (Suc fuel) sv z ci vi d rs ts (x # xs) u p s =
     (case comparison_level sv z ci vi d rs ts (x # xs) u p s of
        (Inl e, s') \<Rightarrow> Some (Inl e, s')
      | (Inr (pending', u', p'), s') \<Rightarrow> loop_levels fuel sv z ci vi d rs ts pending' u' p' s')"

lemma loop_levels_enough:
  assumes "nat (eb_max_fingerprint_nodes (ci_budgets ci) - ug_fingerprint_nodes u) < fuel"
  shows "loop_levels fuel sv z ci vi d rs ts pending u p s = Some (comparison_loop sv z ci vi d rs ts pending u p s)"
  using assms
proof (induction fuel arbitrary: pending u p s)
  case (Suc fuel)
  show ?case
  proof (cases pending)
    case Nil
    then show ?thesis by (simp add: comparison_loop.simps)
  next
    case (Cons x xs)
    obtain r s' where level: "comparison_level sv z ci vi d rs ts (x # xs) u p s = (r, s')" by (meson surj_pair)
    show ?thesis
    proof (cases r)
      case (Inl e)
      then show ?thesis using level Cons by (simp add: comparison_loop.simps)
    next
      case (Inr y)
      obtain pending' u' p' where y: "y = (pending', u', p')" by (cases y)
      have "nat (eb_max_fingerprint_nodes (ci_budgets ci) - ug_fingerprint_nodes u') < fuel"
        using comparison_level_nodes [OF level [unfolded Inr y]] Suc.prems by (simp del: of_nat_Suc) linarith
      from Suc.IH [OF this] show ?thesis
        using level Cons Inr y by (simp add: comparison_loop.simps [of sv z ci vi d rs ts "x # xs"])
    qed
  qed
qed simp

text \<open>(C13) The loop \<open>while pending\<close> ends: as many levels as the budget has fingerprint nodes left, and one to notice
  that nothing is pending, bring every loop to its result. Each level that returns has used at least one
  node, however the segments are split and whatever the reads answer.\<close>

theorem comparison_loop_ends:
  "loop_levels (Suc (nat (eb_max_fingerprint_nodes (ci_budgets ci) - ug_fingerprint_nodes u)))
     sv z ci vi d rs ts pending u p s = Some (comparison_loop sv z ci vi d rs ts pending u p s)"
  by (rule loop_levels_enough) simp

lemma comparison_loop_nodes:
  assumes "comparison_loop sv z ci vi d rs ts pending u p s = (Inr (u', p'), s')"
    and "ug_fingerprint_nodes u \<le> eb_max_fingerprint_nodes (ci_budgets ci)"
  shows "ug_fingerprint_nodes u' \<le> eb_max_fingerprint_nodes (ci_budgets ci)"
  using assms
proof (induction sv z ci vi d rs ts pending u p s rule: comparison_loop.induct)
  case (1 sv z ci vi d rs ts pending u p s)
  show ?case
  proof (cases "pending = []")
    case True
    then show ?thesis using "1.prems" by (simp add: comparison_loop.simps)
  next
    case False
    obtain r s1 where level: "comparison_level sv z ci vi d rs ts pending u p s = (r, s1)" by (meson surj_pair)
    then obtain q1 u1 p1 where r: "r = Inr (q1, u1, p1)"
      using "1.prems"(1) False by (cases r) (auto simp: comparison_loop.simps [of sv z ci vi d rs ts pending])
    have "ug_fingerprint_nodes u1 \<le> eb_max_fingerprint_nodes (ci_budgets ci)"
      using comparison_level_nodes [OF level [unfolded r]] by simp
    moreover have "comparison_loop sv z ci vi d rs ts q1 u1 p1 s1 = (Inr (u', p'), s')"
      using "1.prems"(1) False level r by (simp add: comparison_loop.simps [of sv z ci vi d rs ts pending])
    ultimately show ?thesis using "1.IH" [OF False level [symmetric] r refl refl] by simp
  qed
qed

lemma conclude_compares:
  assumes "wbind (raised v) (conclude_comparison sv z ci sm) s = (Inr (CompletedComparison a), s')"
  shows "compare_ranges sv z ci sm s = (Inr a, s')"
proof -
  obtain violation where v: "conclude_comparison sv z ci sm violation s = (Inr (CompletedComparison a), s')"
    using assms by (auto simp: wbind_eq_Inr_iff raised_iffs)
  show ?thesis
  proof (cases violation)
    case None
    then show ?thesis using v by (auto simp: conclude_comparison_def weff_iffs raised_iffs split: if_splits)
  next
    case (Some reason)
    then show ?thesis using v by (auto simp: conclude_comparison_def weff_iffs raised_iffs split: if_splits)
  qed
qed

lemma read_summaries_nodes:
  "read_summaries sv z ci p s = (Inr sm, s') \<Longrightarrow> ug_fingerprint_nodes (sm_usage sm) = ug_fingerprint_nodes (pg_usage p)"
  by (cases s) (auto simp: read_summaries_def Let_def gen_iffs dest!: consume_source_usage_nodes)

lemma run_comparison_level:
  assumes p: "p = initial_comparison_progress snapshot"
    and run: "run_comparison sv z ci p (w, p) = (Inr (CompletedComparison a), w', q')"
    and b: "mk_ExecutionBudgets (ci_budgets ci) = Inr (ci_budgets ci)" and sv: "valid_receipts sv"
  shows "\<exists>whole u p'. level_ok whole (ci_budgets ci) ([], u, p') \<and> completed_facts p' a \<and>
    ug_fingerprint_nodes u \<le> eb_max_fingerprint_nodes (ci_budgets ci)"
proof -
  obtain sm s1 where s1: "read_summaries sv z ci p (w, p) = (Inr sm, s1)"
    and rest1: "wbind (raised (structural_contract_violation_reason (sm_reference sm) (sm_target sm)))
      (conclude_comparison sv z ci sm) s1 = (Inr (CompletedComparison a), w', q')"
    using run unfolding run_comparison_def wbind_eq_Inr_iff [of "read_summaries sv z ci p"] by blast
  obtain w1 q1 where s1_pair: "s1 = (w1, q1)" by (cases s1)
  note s = s1 [unfolded s1_pair]
  have q1: "q1 = sm_progress sm" by (rule read_summaries_final [OF s])
  let ?root = "root_segment (sm_reference sm) (sm_target sm)"
  have start: "level_ok ?root (ci_budgets ci) ([?root], sm_usage sm, sm_progress sm)" "stable_contexts ci"
    using run_comparison_start(2) [OF p s b sv refl] by simp_all
  obtain x s2 where x: "comparison_loop sv z ci (sm_validated sm) (sm_read_deadline sm) (sm_reference sm) (sm_target sm)
      [?root] (sm_usage sm) (sm_progress sm) (w1, q1) = (Inr x, s2)"
      "(case x of (u, p) \<Rightarrow> completed_comparison sv ci sm u p) s2 = (Inr a, w', q')"
    using conclude_compares [OF rest1] unfolding s1_pair compare_ranges_def wbind_eq_Inr_iff by blast
  obtain u p' where "x = (u, p')" by (cases x)
  with x have loop: "comparison_loop sv z ci (sm_validated sm) (sm_read_deadline sm) (sm_reference sm) (sm_target sm)
      [?root] (sm_usage sm) (sm_progress sm) (w1, q1) = (Inr (u, p'), s2)"
    and c: "completed_comparison sv ci sm u p' s2 = (Inr a, w', q')" by simp_all
  obtain w2 q2 where s2: "s2 = (w2, q2)" by (cases s2)
  have q: "progress_ok ?root (ci_budgets ci) q1" using start(1) q1 by (simp add: level_ok_def)
  have level: "level_ok ?root (ci_budgets ci) ([], u, p')"
    by (rule comparison_loop_running(2) [OF start q loop [unfolded s2] refl])
  have "ug_fingerprint_nodes (sm_usage sm) = 0"
    using read_summaries_nodes [OF s] by (simp add: p initial_comparison_progress_def)
  then have "ug_fingerprint_nodes u \<le> eb_max_fingerprint_nodes (ci_budgets ci)"
    using comparison_loop_nodes [OF loop] execution_budgets_bounds(4) [OF b] by simp
  moreover have "completed_facts p' a" by (rule gen_holds_run(2) [OF completed_comparison_facts TrueI c [unfolded s2] refl])
  ultimately show ?thesis using level by blast
qed

text \<open>(C9) A completed comparison stays within its budgets and accounts for every key once: its segments are numbered
  consecutively, there are at most as many as the budget of fingerprint nodes and none lies deeper than the
  budget of depths, the ranges of its leaves partition the compared range of keys, and the retained evidence
  fits the budgets of rows and bytes.\<close>

theorem completed_comparison_bounded:
  assumes "valid_receipts sv" "mk_ExecutionBudgets (ci_budgets ci) = Inr (ci_budgets ci)"
    and "execute_integer_key_comparison sv z ci w = (Inr (CompletedComparison a), w')"
  shows "map sr_segment_sequence (ca_segments a) = map int [0..<length (ca_segments a)] \<and>
    int (length (ca_segments a)) \<le> eb_max_fingerprint_nodes (ci_budgets ci) \<and>
    (\<forall>r \<in> set (ca_segments a). sr_depth r \<le> eb_max_depth (ci_budgets ci)) \<and>
    (\<exists>whole. \<forall>k. holders k (map record_segment (resolved (ca_segments a))) = of_bool (k \<in> segment_keys whole)) \<and>
    int (length (ca_anomalies a)) \<le> eb_max_evidence_rows (ci_budgets ci) \<and>
    sum_list (map record_size (ca_anomalies a)) \<le> eb_max_evidence_bytes (ci_budgets ci)"
proof -
  obtain whole u p where level: "level_ok whole (ci_budgets ci) ([], u, p)" and a: "completed_facts p a"
    and u: "ug_fingerprint_nodes u \<le> eb_max_fingerprint_nodes (ci_budgets ci)"
    using execute_completed [OF assms(3)] run_comparison_level [OF refl _ assms(2,1)] by blast
  have part: "partition_ok whole (eb_max_depth (ci_budgets ci)) [] (pg_topology p)" and tally: "tally_ok (ci_budgets ci) p"
    and nodes: "ug_fingerprint_nodes u = int (length (pg_topology p))"
    using level by (auto simp: level_ok_def progress_ok_def)
  have segments: "ca_segments a = ordered_topology p" and anomalies: "ca_anomalies a = pg_anomalies p"
    and made: "mk_CompletedComparisonArtifact a = Inr a"
    using a by (simp_all add: completed_facts_def)
  have m: "mset (ca_segments a) = mset (pg_topology p)" by (simp add: segments ordered_topology_def)
  have "map sr_segment_sequence (ca_segments a) = map int [0..<length (ca_segments a)]"
    using made by (auto simp: mk_CompletedComparisonArtifact_def result_iffs)
  moreover have "int (length (ca_segments a)) \<le> eb_max_fingerprint_nodes (ci_budgets ci)"
    using u nodes mset_eq_length [OF m] by simp
  moreover have "\<forall>r \<in> set (ca_segments a). sr_depth r \<le> eb_max_depth (ci_budgets ci)"
    using part mset_eq_setD [OF m] by (auto simp: partition_ok_def)
  moreover have "holders k (map record_segment (resolved (ca_segments a))) = of_bool (k \<in> segment_keys whole)" for k
    using part holders_mset [OF resolved_mset [OF m], of k] by (simp add: partition_ok_def)
  moreover have "int (length (ca_anomalies a)) \<le> eb_max_evidence_rows (ci_budgets ci)"
      "sum_list (map record_size (ca_anomalies a)) \<le> eb_max_evidence_bytes (ci_budgets ci)"
    using tally by (auto simp: anomalies tally_ok_def Let_def retention_ok_def progress_retention_def)
  ultimately show ?thesis by blast
qed

end
