(* ===== verification/Comparison_Tables.thy ===== *)
theory Comparison_Tables
  imports Source_World Comparison_Bounds
begin

text \<open>
  A reference provider of the three reads: it answers from tables of canonical rows and charges the ledger as
  the connectors do, one query per read and every returned record. The contracts \<open>table_reads\<close> and
  \<open>kept_services\<close> of the engine are interpreted on it, and a concrete comparison is run on it.
\<close>

section \<open>Reads answered from a table\<close>

definition table_read :: "'s clock \<Rightarrow> read_context \<Rightarrow> int \<Rightarrow> int list \<Rightarrow> ('s source_world, cause, read_metrics) eff" where
  "table_read clock context full_scans record_bytes =
     wbind (on_ledger clock (dispatch_query (cx_source_direction context) full_scans)) (\<lambda>_.
     wbind (on_ledger clock (consume_records record_bytes)) (\<lambda>_.
     wreturn \<lparr>rdm_fetched_records = int (length record_bytes), rdm_result_bytes = sum_list record_bytes\<rparr>))"

definition table_summary :: "exact_row list \<Rightarrow> key_summary" where
  "table_summary rows =
     (let n = int (length rows); keys = map er_key_value rows in
      \<lparr>ks_row_count = n, ks_null_key_count = 0, ks_invalid_key_count = 0, ks_valid_key_count = n,
       ks_distinct_key_count = n,
       ks_minimum_key = (if rows = [] then None else Some (hd keys)),
       ks_maximum_key = (if rows = [] then None else Some (last keys)), ks_usable_access_path = True\<rparr>)"

definition row_bytes :: "exact_row \<Rightarrow> int" where
  "row_bytes r = int (length (er_row_envelope r)) + int (length (er_key_envelope r)) +
     int (length (er_segment_id r)) + EXACT_STATUS_BYTES"

definition table_range :: "exact_row list \<Rightarrow> range_request \<Rightarrow> range_fingerprint" where
  "table_range rows q =
     (let rs = request_rows q rows in
      \<lparr>rf_segment_id = rq_segment_id q, rf_fingerprint = rows_fingerprint rs,
       rf_row_envelope_bytes = sum_list (map (\<lambda>r. int (length (er_row_envelope r))) rs),
       rf_key_envelope_bytes = sum_list (map (\<lambda>r. int (length (er_key_envelope r))) rs)\<rparr>)"

definition table_rows :: "exact_row list \<Rightarrow> range_request list \<Rightarrow> exact_row list" where
  "table_rows rows qs = concat (map (\<lambda>q. map (tag_row (rq_segment_id q)) (request_rows q rows)) qs)"

definition table_services :: "'s clock \<Rightarrow> tables \<Rightarrow> 's source_world services" where
  "table_services clock table =
     \<lparr>sv_clock = world_clock clock, sv_ledger = sw_ledger, sv_active = (\<lambda>c w. True),
      sv_read_summary = (\<lambda>c rel i scope env_limit record_limit total_limit d scans.
        wbind (wrequire (table_ok (table c rel scope)) (Raised PostgresDataValidationError)) (\<lambda>_.
        wbind (raised (mk_PostgresIntegerKeySummary (table_summary (table c rel scope)))) (\<lambda>s.
        wbind (table_read clock c scans [record_limit]) (\<lambda>m.
        wreturn \<lparr>ksr_summary = s, ksr_metrics = m\<rparr>)))),
      sv_read_fingerprints = (\<lambda>c rel i scope qs env_limit record_limit total_limit d scans.
        wbind (table_read clock c scans (map (\<lambda>q. record_limit) qs)) (\<lambda>m.
        wreturn \<lparr>rfr_ranges = map (table_range (table c rel scope)) qs, rfr_metrics = m\<rparr>)),
      sv_read_rows = (\<lambda>c rel i scope qs env_limit max_records record_limit total_limit d scans.
        let rows = table_rows (table c rel scope) qs in
        wbind (table_read clock c scans (map row_bytes rows)) (\<lambda>m.
        wreturn \<lparr>err_rows = rows, err_metrics = m\<rparr>))\<rparr>"

section \<open>The contracts of the engine\<close>

lemma table_read_charges: "keeps world_charges (table_read clock c n bs)"
  unfolding table_read_def by (intro world_base)

lemma table_services_kept: "services_keep world_charges (table_services clock table)"
  unfolding services_keep_def table_services_def services.simps Let_def
  by (intro conjI allI world_clock_charges world_base table_read_charges)

interpretation tables: kept_services world_charges "table_services clock table" for clock table
  by unfold_locales (rule table_services_kept)

lemma key_sorted_bounds:
  assumes "key_sorted rows" "r \<in> set rows"
  shows "er_key_value (hd rows) \<le> er_key_value r \<and> er_key_value r \<le> er_key_value (last rows)"
proof -
  have "sorted (map er_key_value rows)"
    using assms(1) by (simp add: key_sorted_def strict_sorted_imp_sorted)
  note mono = sorted_nth_mono [OF this]
  have s: "er_key_value (rows ! i) \<le> er_key_value (rows ! j)" if "i \<le> j" "j < length rows" for i j
    using mono [of i j] that by simp
  obtain i where i: "i < length rows" "r = rows ! i" using assms(2) by (auto simp: in_set_conv_nth)
  then have "rows \<noteq> []" by auto
  then show ?thesis using s [of 0 i] s [of i "length rows - 1"] i by (auto simp: hd_conv_nth last_conv_nth)
qed

lemma table_summary_describes:
  assumes "table_ok rows"
  shows "summary_describes (table_summary rows) rows"
  using assms key_sorted_bounds [of rows] unfolding summary_describes_def table_summary_def table_ok_def
  by (auto simp: Let_def hd_map last_map)

lemma filter_concat_map_distinct:
  assumes "distinct (map f qs)" "q \<in> set qs" "\<And>p x. p \<in> set qs \<Longrightarrow> x \<in> set (g p) \<Longrightarrow> h x = f p"
  shows "filter (\<lambda>x. h x = f q) (concat (map g qs)) = g q"
  using assms
proof (induction qs)
  case (Cons p qs)
  show ?case
  proof (cases "q = p")
    case True
    then have "filter (\<lambda>x. h x = f q) (g p) = g q" using Cons.prems(3) [of p] by (auto simp: filter_id_conv)
    moreover have "filter (\<lambda>x. h x = f q) (concat (map g qs)) = []"
    proof -
      have "h x \<noteq> f q" if "p' \<in> set qs" "x \<in> set (g p')" for x p'
      proof -
        have "f p' \<noteq> f p" using Cons.prems(1) that(1) by (metis distinct.simps(2) image_eqI list.set_map list.simps(9))
        then show ?thesis using Cons.prems(3) [of p' x] that True by simp
      qed
      then show ?thesis unfolding filter_empty_conv by auto
    qed
    ultimately show ?thesis by simp
  next
    case False
    then have "q \<in> set qs" using Cons.prems(2) by simp
    moreover have "f q \<noteq> f p" using Cons.prems(1) \<open>q \<in> set qs\<close> by (auto simp: image_iff)
    then have "filter (\<lambda>x. h x = f q) (g p) = []" using Cons.prems(3) [of p] by (auto simp: filter_empty_conv)
    ultimately show ?thesis using Cons by simp
  qed
qed simp

lemma table_summary_law:
  assumes "sv_read_summary (table_services clock table) c rel i sc a b e d n w = (Inr s, w')"
  shows "mk_PostgresIntegerKeySummary (ksr_summary s) = Inr (ksr_summary s) \<and> summary_describes (ksr_summary s) (table c rel sc)"
proof -
  from assms have s: "table_ok (table c rel sc)" "mk_PostgresIntegerKeySummary (table_summary (table c rel sc)) = Inr (ksr_summary s)"
    by (auto simp: table_services_def weff_iffs raised_iffs split: if_splits)
  then have "ksr_summary s = table_summary (table c rel sc)"
    by (auto simp: mk_PostgresIntegerKeySummary_def result_iffs)
  then show ?thesis using s table_summary_describes by simp
qed

lemma table_fingerprint_law:
  assumes "sv_read_fingerprints (table_services clock table) c rel i sc qs a b e d n w = (Inr f, w')"
  shows "map rf_fingerprint (rfr_ranges f) = map (\<lambda>q. rows_fingerprint (request_rows q (table c rel sc))) qs"
  using assms by (auto simp: table_services_def weff_iffs table_range_def Let_def)

lemma table_rows_law:
  assumes "sv_read_rows (table_services clock table) c rel i sc qs a b e g d n w = (Inr x, w')"
    and "distinct (map rq_segment_id qs)" "q \<in> set qs"
  shows "filter (\<lambda>r. er_segment_id r = rq_segment_id q) (err_rows x) =
    map (tag_row (rq_segment_id q)) (request_rows q (table c rel sc))"
proof -
  have "err_rows x = table_rows (table c rel sc) qs"
    using assms(1) by (auto simp: table_services_def weff_iffs Let_def)
  then show ?thesis
    unfolding table_rows_def using assms(2,3)
    by (simp only:) (rule filter_concat_map_distinct, auto simp: tag_row_def)
qed

lemma table_reads_on_tables: "table_reads (table_services clock table) table"
  by (rule table_reads.intro) (rule table_summary_law table_fingerprint_law table_rows_law; assumption)+

interpretation tables: table_reads "table_services clock table" table for clock table
  by (rule table_reads_on_tables)

section \<open>A run\<close>

definition example_field :: "string \<Rightarrow> logical_type \<Rightarrow> field_schema" where
  "example_field name t =
     \<lparr>fs_name = asc name, fs_logical_type = t, fs_nullable = False, fs_parameters = NoParameters,
      fs_normalization = NORMALIZATION_NONE\<rparr>"

definition example_digest :: pystr where
  "example_digest = asc (replicate 64 CHR ''0'')"

definition example_logical_schema :: logical_schema_definition where
  "example_logical_schema =
     \<lparr>ls_schema_id = asc ''ledger'',
      ls_schema = \<lparr>cs_protocol = PROTOCOL, cs_fields = [example_field ''id'' INT64, example_field ''state'' STRING]\<rparr>,
      ls_equality = [EQUALITY_EXACT, EQUALITY_EXACT], ls_logical_schema_digest = example_digest\<rparr>"

definition example_dataset :: "string \<Rightarrow> dataset_definition" where
  "example_dataset name =
     \<lparr>ds_dataset_id = asc name,
      ds_connection = \<lparr>cd_connection_id = asc name, cd_adapter = POSTGRESQL, cd_driver = asc ''psycopg'',
        cd_profile = asc ''modern'', cd_roles = [ROLE_SOURCE], cd_secret_ref = asc ''env:DSN''\<rparr>,
      ds_locator = RelationDataset \<lparr>rl_catalog = None, rl_schema = asc ''public'', rl_name = asc name,
        rl_relation_scope = PHYSICAL_ONLY\<rparr>,
      ds_logical_schema = example_logical_schema,
      ds_projection = [\<lparr>pj_field_name = asc ''id'', pj_column_name = asc ''id''\<rparr>,
        \<lparr>pj_field_name = asc ''state'', pj_column_name = asc ''state''\<rparr>],
      ds_grain = [asc ''id'']\<rparr>"

definition example_readiness :: manifest_readiness where
  "example_readiness =
     \<lparr>mr_connection_id = asc ''meta'',
      mr_relation = \<lparr>rl_catalog = None, rl_schema = asc ''public'', rl_name = asc ''manifest'',
        rl_relation_scope = PHYSICAL_ONLY\<rparr>,
      mr_columns = \<lparr>rmc_dataset_id = asc ''dataset_id'', rmc_scope_digest = asc ''scope_digest'',
        rmc_batch_id = asc ''batch_id'', rmc_state = asc ''state'', rmc_business_date = asc ''business_date'',
        rmc_source_cut = asc ''source_cut'', rmc_dataset_version = asc ''dataset_version'',
        rmc_completed_at = asc ''completed_at''\<rparr>\<rparr>"

definition example_stable_read :: "string \<Rightarrow> consistency_dataset" where
  "example_stable_read name =
     \<lparr>cds_dataset_id = asc name, cds_readiness = ManifestReadiness example_readiness,
      cds_stable_read = TRANSACTION_SNAPSHOT\<rparr>"

definition example_check :: row_check where
  "example_check =
     \<lparr>rc_check_id = asc ''ledger_rows'', rc_revision = 1, rc_reference = example_dataset ''left'',
      rc_target = example_dataset ''right'', rc_comparison_schema = example_logical_schema, rc_key = [asc ''id''],
      rc_scope = \<lparr>sd_parameters = [], sd_bindings = [], sd_null_partition = NULL_PARTITION_REJECT\<rparr>,
      rc_consistency = \<lparr>cdf_minimum_evidence = MINIMUM_VERIFIED, cdf_alignment_fields = [asc ''source_cut''],
        cdf_late_arrivals = NEXT_BATCH, cdf_datasets = [example_stable_read ''left'', example_stable_read ''right'']\<rparr>,
      rc_assurance_policy = FINGERPRINT_ALLOWED, rc_contract_digest = example_digest\<rparr>"

definition example_cut :: "plan_direction \<Rightarrow> string \<Rightarrow> dataset_input_cut" where
  "example_cut direction name =
     (let v = (\<lambda>f. \<lparr>cv_field = f, cv_canonical_payload = ''2026''\<rparr>) in
      \<lparr>dic_direction = direction, dic_dataset_id = asc name, dic_scope_digest = example_digest,
       dic_batch_id = v BATCH_ID_FIELD, dic_business_date = v BUSINESS_DATE_FIELD,
       dic_source_cut = v SOURCE_CUT_FIELD, dic_dataset_version = v DATASET_VERSION_FIELD,
       dic_completed_at = v COMPLETED_AT_FIELD, dic_alignment_values = [v SOURCE_CUT_FIELD]\<rparr>)"

definition example_relation :: "nat \<Rightarrow> string \<Rightarrow> comparison_relation" where
  "example_relation i name =
     \<lparr>crl_identity = i,
      crl_detail = PostgresInspection
        \<lparr>ra_relation = (asc ''public'', asc name), ra_relation_scope = PHYSICAL_ONLY,
         ra_schema = ls_schema example_logical_schema, ra_column_names = [asc ''id'', asc ''state'']\<rparr>
        (asc ''public'', asc name) None\<rparr>"

definition example_run_budgets :: execution_budgets where
  "example_run_budgets = example_budgets\<lparr>eb_max_queries := 100, eb_max_application_result_bytes := 100000,
     eb_max_full_scans_per_side := 20, eb_max_evidence_bytes := 2000\<rparr>"

definition example_attempt :: attempt where
  "example_attempt =
     \<lparr>at_attempt_id = 1,
      at_baseline = \<lparr>us_queries = 0, us_fetched_records = 0, us_result_bytes = 0, us_reference_full_scans = 0,
        us_target_full_scans = 0, us_elapsed_milliseconds = 0\<rparr>,
      at_started = 0\<rparr>"

definition example_context :: "uuid \<Rightarrow> source_direction \<Rightarrow> comparison_relation \<Rightarrow> read_context" where
  "example_context i direction rel =
     \<lparr>cx_kind = PostgresContext, cx_context_id = i, cx_source_budget = example_attempt,
      cx_source_direction = direction, cx_protected_relations = [rel]\<rparr>"

definition example_comparison :: comparison_inputs where
  "example_comparison =
     \<lparr>ci_check = example_check, ci_scope = \<lparr>rs_parameters = [], rs_scope_digest = example_digest\<rparr>,
      ci_input_cut = \<lparr>ic_reference = example_cut DIRECTION_REFERENCE ''left'',
        ic_target = example_cut DIRECTION_TARGET ''right'', ic_late_arrivals = NEXT_BATCH,
        ic_input_cut_digest = example_digest\<rparr>,
      ci_reference_context = example_context 1 REFERENCE (example_relation 1 ''left''),
      ci_reference_relation = example_relation 1 ''left'',
      ci_target_context = example_context 2 TARGET (example_relation 2 ''right''),
      ci_target_relation = example_relation 2 ''right'',
      ci_budgets = example_run_budgets,
      ci_evidence_policy = \<lparr>edf_sql_capture = CAPTURE_DISABLED, edf_ddl_capture = CAPTURE_DISABLED,
        edf_fields = [], edf_unspecified_fields = REDACT\<rparr>,
      ci_source_budget = example_attempt\<rparr>"

definition example_sizes :: sizes where
  "example_sizes =
     \<lparr>sz_singleton_tuple = 48, sz_empty_tuple = 40, sz_empty_list = 56, sz_empty_dict = 64, sz_singleton_dict = 184,
      sz_empty_text = 41, sz_empty_bytes = 33, sz_decimal = 104, sz_true = 28, sz_segment_state = 48,
      sz_int = (\<lambda>i. 36), slot_object_bytes = (\<lambda>c. 100)\<rparr>"

definition example_table_row :: exact_row where
  "example_table_row =
     \<lparr>er_segment_id = [], er_key_value = 5, er_key_envelope = ''k5'', er_row_envelope = ''r5'',
      er_values = [Some (PInt 5), Some (PStr (asc ''open''))]\<rparr>"

definition example_tables :: "exact_row list \<Rightarrow> exact_row list \<Rightarrow> tables" where
  "example_tables reference target c rel scope = (if cx_source_direction c = REFERENCE then reference else target)"

definition example_world :: "int \<Rightarrow> unit source_world" where
  "example_world queries =
     \<lparr>sw_ledger = new_ledger (example_run_budgets\<lparr>eb_max_queries := queries\<rparr>) 0, sw_outside = ()\<rparr>"

definition example_services :: "exact_row list \<Rightarrow> exact_row list \<Rightarrow> unit source_world services" where
  "example_services reference target = table_services (\<lambda>s. (1000000, s)) (example_tables reference target)"

text \<open>Equations for the evaluation of a run: the loop by cases on the pending ranges.\<close>

definition loop_next ::
  "'w services \<Rightarrow> sizes \<Rightarrow> comparison_inputs \<Rightarrow> validated_inputs \<Rightarrow> read_deadline \<Rightarrow> key_summary \<Rightarrow> key_summary \<Rightarrow>
   (cause + pending_segment list \<times> usage \<times> progress) \<times> 'w \<times> progress \<Rightarrow> (cause + usage \<times> progress) \<times> 'w \<times> progress" where
  "loop_next sv z ci vi d rs ts x =
     (case x of (Inl e, s') \<Rightarrow> (Inl e, s')
      | (Inr (pending', u', p'), s') \<Rightarrow> comparison_loop sv z ci vi d rs ts pending' u' p' s')"

lemma loop_next_code [code]:
  "loop_next sv z ci vi d rs ts (Inl e, s') = (Inl e, s')"
  "loop_next sv z ci vi d rs ts (Inr (pending', u', p'), s') = comparison_loop sv z ci vi d rs ts pending' u' p' s'"
  by (simp_all add: loop_next_def)

lemma comparison_loop_code [code]:
  "comparison_loop sv z ci vi d rs ts [] u p s = (Inr (u, p), s)"
  "comparison_loop sv z ci vi d rs ts (x # xs) u p s =
     loop_next sv z ci vi d rs ts (comparison_level sv z ci vi d rs ts (x # xs) u p s)"
  by (simp_all add: comparison_loop.simps loop_next_def split: prod.splits sum.splits)

definition record_length :: "difference_record \<Rightarrow> exn + int" where
  "record_length a = ebind (canonical_difference_record_bytes a) (\<lambda>b. Inr (int (length b)))"

lemma validate_evidence_coverage_code [code]:
  "validate_evidence_coverage coverage anomalies =
     ebind (require (map dr_sequence anomalies = map int [0..<length anomalies]) ValueError) (\<lambda>_.
     ebind (sum_each record_length anomalies) (\<lambda>retained_bytes.
     ebind (require (ev_retained_records coverage = int (length anomalies)) ValueError) (\<lambda>_.
     require (ev_retained_bytes coverage = retained_bytes) ValueError)))"
  by (simp add: validate_evidence_coverage_def record_length_def [abs_def])

definition completes_with :: "verdict \<Rightarrow> (failure + completed_result) \<times> 'w \<Rightarrow> bool" where
  "completes_with v x \<longleftrightarrow> (case fst x of Inr (CompletedComparison a) \<Rightarrow> ca_verdict a = v | _ \<Rightarrow> False)"

definition interrupted_with :: "cause \<Rightarrow> (failure + completed_result) \<times> 'w \<Rightarrow> bool" where
  "interrupted_with e x \<longleftrightarrow> (case fst x of Inl (Interrupted e' a) \<Rightarrow> e' = e | _ \<Rightarrow> False)"

lemma example_match:
  "completes_with MATCH (execute_integer_key_comparison (example_services [] []) example_sizes example_comparison (example_world 100))"
  by code_simp

lemma example_interruption:
  "interrupted_with (Raised ComparisonBudgetExceededError)
     (execute_integer_key_comparison (example_services [] []) example_sizes example_comparison (example_world 5))"
  by code_simp

section \<open>The properties on the run\<close>

lemma example_inputs_accepted: "mk_ExecutionBudgets (ci_budgets example_comparison) = Inr (ci_budgets example_comparison)"
  by code_simp

lemma example_reads: "table_reads (example_services reference target) (example_tables reference target)"
  unfolding example_services_def by (rule table_reads_on_tables)

lemma example_kept: "services_keep (charges (example_services reference target)) (example_services reference target)"
proof -
  have "charges (example_services reference target) = world_charges"
    by (intro ext) (simp add: charges_def world_charges_def example_services_def table_services_def)
  then show ?thesis using table_services_kept by (simp add: example_services_def)
qed

lemma example_ledger: "ledger_serves (ci_source_budget example_comparison) (sv_ledger (example_services r t) (example_world n))"
  if "0 \<le> n"
  using that
  by (simp add: ledger_serves_def example_comparison_def example_attempt_def example_services_def table_services_def
      example_world_def new_ledger_def ledger_ok_def example_run_budgets_def example_budgets_def Let_def)

lemma completes_withD: "completes_with v x \<Longrightarrow> \<exists>a w'. x = (Inr (CompletedComparison a), w') \<and> ca_verdict a = v"
  by (cases x) (auto simp: completes_with_def split: sum.splits completed_result.splits)

lemma interrupted_withD: "interrupted_with e x \<Longrightarrow> \<exists>a w'. x = (Inl (Interrupted e a), w')"
  by (cases x) (auto simp: interrupted_with_def split: sum.splits failure.splits)

lemma example_completed:
  obtains a w' where "execute_integer_key_comparison (example_services [] []) example_sizes example_comparison (example_world 100) =
      (Inr (CompletedComparison a), w')" "ca_verdict a = MATCH"
  using completes_withD [OF example_match] by blast

lemma example_interrupted:
  obtains e a w' where "execute_integer_key_comparison (example_services [] []) example_sizes example_comparison (example_world 5) =
      (Inl (Interrupted e a), w')"
  using interrupted_withD [OF example_interruption] by blast

theorem completed_verdict_about_tables_witness:
  "\<exists>a w' vi w0. execute_integer_key_comparison (example_services [] []) example_sizes example_comparison (example_world 100) =
      (Inr (CompletedComparison a), w') \<and> ca_verdict a = MATCH \<and>
    validate_inputs (example_services [] []) example_comparison w0 = Inr vi \<and>
    (row_contents (reference_table (example_tables [] []) example_comparison vi) =
       row_contents (target_table (example_tables [] []) example_comparison vi) \<or>
     (\<exists>r \<in> set (ca_segments a). collides (reference_table (example_tables [] []) example_comparison vi)
       (target_table (example_tables [] []) example_comparison vi) r))"
proof -
  obtain a w' where run: "execute_integer_key_comparison (example_services [] []) example_sizes example_comparison
    (example_world 100) = (Inr (CompletedComparison a), w')" "ca_verdict a = MATCH" by (rule example_completed)
  from completed_verdict_about_tables [OF example_reads example_inputs_accepted run(1)] run show ?thesis
    unfolding Let_def by blast
qed

lemma example_clock: "clock_charges_nothing (example_services reference target)"
  by (simp add: clock_charges_nothing_def example_services_def table_services_def world_clock_def)

theorem reports_account_for_usage_witness:
  "\<exists>a w'. execute_integer_key_comparison (example_services [] []) example_sizes example_comparison (example_world 100) =
      (Inr (CompletedComparison a), w') \<and>
    rm_queries (ca_metrics a) = su_queries (lg_usage (sv_ledger (example_services [] []) w'))"
proof -
  obtain a w' where run: "execute_integer_key_comparison (example_services [] []) example_sizes example_comparison
    (example_world 100) = (Inr (CompletedComparison a), w')" by (rule example_completed)
  from reports_account_for_usage [OF example_clock run] run show ?thesis
    by (auto simp: Let_def accounts_for_def example_comparison_def example_attempt_def)
qed

lemma properly_reported_interruption:
  assumes "properly_reported sv z ci w (Inl (Interrupted e a))"
  shows "is_interruption e \<and> reported e a"
proof (cases "check_protocol ci")
  case (Inl x)
  then show ?thesis using assms by (simp add: properly_reported_def)
next
  case (Inr u)
  then obtain p v where "case fst (run_comparison sv z ci p (v, p)) of
      Inr completed \<Rightarrow> False | Inl e' \<Rightarrow> answers_exception e' (Interrupted e a)"
    using assms by (simp add: properly_reported_def Let_def cong: sum.case_cong) blast
  then obtain e' where "answers_exception e' (Interrupted e a)"
    by (cases "fst (run_comparison sv z ci p (v, p))") auto
  then show ?thesis by (simp add: answers_exception_def split: if_splits)
qed

theorem failed_comparison_reported_witness:
  "\<exists>e a w'. execute_integer_key_comparison (example_services [] []) example_sizes example_comparison (example_world 5) =
      (Inl (Interrupted e a), w') \<and> is_interruption e \<and> reported e a"
proof -
  obtain e a w' where run: "execute_integer_key_comparison (example_services [] []) example_sizes example_comparison
    (example_world 5) = (Inl (Interrupted e a), w')" by (rule example_interrupted)
  have ids: "cx_context_id (ci_reference_context example_comparison) \<noteq> cx_context_id (ci_target_context example_comparison)"
    "valid_identity example_comparison" by code_simp+
  have "ledger_serves (ci_source_budget example_comparison) (sv_ledger (example_services [] []) (example_world 5))"
    by (rule example_ledger) simp
  from failed_comparison_reported [OF example_kept table_reads.receipts [OF example_reads] example_inputs_accepted ids this,
      of example_sizes] have "properly_reported (example_services [] []) example_sizes example_comparison (example_world 5)
      (Inl (Interrupted e a))" by (simp only: run fst_conv)
  from properly_reported_interruption [OF this] run show ?thesis by blast
qed

theorem completed_comparison_bounded_witness:
  "\<exists>a w'. execute_integer_key_comparison (example_services [] []) example_sizes example_comparison (example_world 100) =
      (Inr (CompletedComparison a), w') \<and> int (length (ca_segments a)) \<le> eb_max_fingerprint_nodes (ci_budgets example_comparison)"
proof -
  obtain a w' where run: "execute_integer_key_comparison (example_services [] []) example_sizes example_comparison
    (example_world 100) = (Inr (CompletedComparison a), w')" by (rule example_completed)
  from completed_comparison_bounded [OF table_reads.receipts [OF example_reads] example_inputs_accepted run] run
  show ?thesis by blast
qed

end
