(* ===== verification/Postgres_Comparison.thy ===== *)
theory Postgres_Comparison
  imports Postgres_Reads Comparison_Tables
begin

text \<open>
  What the reads of \<open>src/forensic_data/postgres.py\<close> guarantee against any server: the size of an accepted answer and
  its price on the ledger, the states a context goes through, and the comparison that runs on these reads.
\<close>

section \<open>The price of a query\<close>

definition scans_on :: "source_direction \<Rightarrow> source_usage \<Rightarrow> int" where
  "scans_on d u = (if d = REFERENCE then su_reference_full_scans u else su_target_full_scans u)"

text \<open>Queries, scans on the side of the connection, records and bytes charged between two worlds.\<close>

definition spent :: "source_direction \<Rightarrow> int \<Rightarrow> int \<Rightarrow> int \<Rightarrow> int \<Rightarrow> 's source_world \<Rightarrow> 's source_world \<Rightarrow> bool" where
  "spent d queries scans records result_bytes w w' \<longleftrightarrow>
     (let u = lg_usage (sw_ledger w); u' = lg_usage (sw_ledger w') in
      su_queries u' = su_queries u + queries \<and> scans_on d u' = scans_on d u + scans \<and>
      su_fetched_records u' = su_fetched_records u + records \<and> su_result_bytes u' = su_result_bytes u + result_bytes)"

lemma spent_trans:
  "spent d q n k b w w1 \<Longrightarrow> spent d q' n' k' b' w1 w2 \<Longrightarrow> spent d (q + q') (n + n') (k + k') (b + b') w w2"
  by (simp add: spent_def Let_def)

lemma spent_same: "sw_ledger w' = sw_ledger w \<Longrightarrow> spent d 0 0 0 0 w w'"
  by (simp add: spent_def)

lemma clock_ledger: "world_clock clock w = (now, w') \<Longrightarrow> sw_ledger w' = sw_ledger w"
  by (auto simp: world_clock_def split: prod.splits)

lemma ask_ledger: "ask f w = (r, w') \<Longrightarrow> sw_ledger w' = sw_ledger w"
  by (auto simp: ask_def split: prod.splits)

lemma ledger_opE:
  assumes "ledger_op srv f w = (Inr x, w')"
  obtains now where "f now (sw_ledger w) = (Inr x, sw_ledger w')"
  using assms by (auto simp: ledger_op_def own_iffs on_ledger_def split: prod.splits sum.splits dest!: clock_ledger)
    (metis id_apply map_sum.simps sum.exhaust sum.sel(2) sum.disc)

lemma dispatch_spends:
  assumes "ledger_op srv (dispatch_query d n) w = (Inr x, w')"
  shows "spent d 1 n 0 0 w w'"
proof -
  from assms obtain now where "dispatch_query d n now (sw_ledger w) = (Inr x, sw_ledger w')" by (rule ledger_opE)
  then show ?thesis
    using source_direction.exhaust [of d]
    by (cases rule: dispatch_query_cases) (auto simp: spent_def scans_on_def Let_def)
qed

lemma records_spend:
  assumes "ledger_op srv (consume_records bs) w = (Inr x, w')"
  shows "spent d 0 0 (int (length bs)) (sum_list bs) w w' \<and> (\<forall>b \<in> set bs. 0 \<le> b)"
proof -
  from assms obtain now where "consume_records bs now (sw_ledger w) = (Inr x, sw_ledger w')" by (rule ledger_opE)
  then show ?thesis
    by (cases rule: consume_records_cases) (auto simp: spent_def scans_on_def Let_def)
qed

lemma fetch_deadline_ledger:
  assumes "require_fetch_deadline srv w = (Inr x, w')"
  shows "sw_ledger w' = sw_ledger w"
  using assms unfolding require_fetch_deadline_def by (auto elim: ledger_opE)

lemma read_deadline_ledger: "read_deadline_check srv d w = (r, w') \<Longrightarrow> sw_ledger w' = sw_ledger w"
  by (auto simp: read_deadline_check_def require_postgres_read_deadline_def Let_def
      split: prod.split_asm if_split_asm dest!: clock_ledger)

lemma fetch_batch_spends:
  assumes "fetch_batch srv i deadline m r t n tb w = (Inr (batch, tb1, again), w')"
  shows "\<exists>bs. traverse database_row_bytes batch = Inr bs \<and> spent d 0 0 (int (length bs)) (sum_list bs) w w' \<and>
    (\<forall>b \<in> set bs. b \<le> r) \<and> tb1 = tb + sum_list bs \<and> (bs \<noteq> [] \<longrightarrow> int n + int (length bs) \<le> m \<and> tb1 \<le> t)"
proof -
  have check: "(case deadline of None \<Rightarrow> wreturn () | Some d \<Rightarrow> own (wbind (read_deadline_check srv d) (\<lambda>_. wreturn ()))) v =
      (Inr y, v') \<Longrightarrow> sw_ledger v' = sw_ledger v" for v v' y
    by (cases deadline) (auto simp: own_iffs weff_iffs dest: read_deadline_ledger)
  show ?thesis
  proof (cases "batch = []")
    case True
    then have "tb1 = tb" using fetch_batch_bounds [OF assms] by simp
    moreover have "sw_ledger w' = sw_ledger w"
      using assms True
      by (auto simp: fetch_batch_def Let_def weff_iffs split: if_split_asm
          dest!: check fetch_deadline_ledger ask_ledger)
    ultimately show ?thesis using True by (auto intro: spent_same)
  next
    case False
    then obtain bs w1 w2 w3 x y where parts: "traverse database_row_bytes batch = Inr bs"
      "sw_ledger w1 = sw_ledger w" "ledger_op srv (consume_records bs) w1 = (Inr x, w2)"
      "sw_ledger w' = sw_ledger w2" "check_batch m r t n tb bs = Inr tb1"
      using assms
      by (auto simp: fetch_batch_def Let_def weff_iffs own_iffs raised_iffs split: if_split_asm
          dest!: check fetch_deadline_ledger ask_ledger) metis
    have "spent d 0 0 (int (length bs)) (sum_list bs) w1 w2" using records_spend [OF parts(3)] by blast
    then have "spent d 0 0 (int (length bs)) (sum_list bs) w w'" using parts(2,4) by (simp add: spent_def)
    then show ?thesis using parts check_batch_bounds [OF parts(5)] by auto
  qed
qed


lemma traverse_append_Inr:
  "traverse f xs = Inr as \<Longrightarrow> traverse f ys = Inr bs \<Longrightarrow> traverse f (xs @ ys) = Inr (as @ bs)"
  by (simp add: traverse_eq_Inr_iff list_all2_appendI)

text \<open>The answer: the sizes of the records fetched, within the limits of the query.\<close>

definition answer_within :: "int \<Rightarrow> int \<Rightarrow> int \<Rightarrow> db_row list \<Rightarrow> int list \<Rightarrow> bool" where
  "answer_within max_records max_record_bytes max_total_bytes rows sizes \<longleftrightarrow>
     traverse database_row_bytes rows = Inr sizes \<and> int (length rows) \<le> max_records \<and>
     (\<forall>b \<in> set sizes. b \<le> max_record_bytes) \<and> sum_list sizes \<le> max_total_bytes"

lemma fetch_rows_loop_spends:
  assumes "fetch_rows_loop srv i deadline m r t records tb w = (Inr rows, w')"
    and "answer_within m r t records sizes" "tb = sum_list sizes"
  shows "\<exists>sizes'. answer_within m r t rows sizes' \<and>
    spent d 0 0 (int (length rows) - int (length records)) (sum_list sizes' - tb) w w'"
  using assms
proof (induction srv i deadline m r t records tb w arbitrary: sizes rule: fetch_rows_loop.induct)
  case (1 srv i deadline m r t records tb w)
  from "1.prems"(1) obtain batch tb1 again w1 where b:
    "fetch_batch srv i deadline m r t (length records) tb w = (Inr (batch, tb1, again), w1)"
    by (subst (asm) fetch_rows_loop.simps) (auto split: prod.split_asm sum.split_asm)
  from fetch_batch_spends [OF b] obtain bs where bs: "traverse database_row_bytes batch = Inr bs"
    "spent d 0 0 (int (length bs)) (sum_list bs) w w1" "\<forall>b \<in> set bs. b \<le> r" "tb1 = tb + sum_list bs"
    "bs \<noteq> [] \<longrightarrow> int (length records) + int (length bs) \<le> m \<and> tb1 \<le> t" by blast
  note len = traverse_length_eq [OF bs(1)]
  have within: "answer_within m r t (records @ batch) (sizes @ bs)"
    using "1.prems"(2,3) bs len
    by (cases "bs = []") (auto simp: answer_within_def traverse_append_Inr)
  show ?case
  proof (cases again)
    case True
    then have rest: "fetch_rows_loop srv i deadline m r t (records @ batch) tb1 w1 = (Inr rows, w')"
      using "1.prems"(1) b by (subst (asm) fetch_rows_loop.simps) simp
    from "1.IH" [OF b [symmetric] refl refl refl True rest within] "1.prems"(3) bs(4)
    obtain sizes' where s: "answer_within m r t rows sizes'"
      "spent d 0 0 (int (length rows) - int (length (records @ batch))) (sum_list sizes' - tb1) w1 w'" by auto
    from spent_trans [OF bs(2) s(2)] s(1) len bs(4) show ?thesis by (intro exI [of _ sizes']) simp
  next
    case False
    then have "rows = records @ batch" "w' = w1"
      using "1.prems"(1) b by (subst (asm) fetch_rows_loop.simps, simp)+
    then show ?thesis using within bs(2,4) len "1.prems"(3) by (intro exI [of _ "sizes @ bs"]) simp
  qed
qed

lemma fetch_spends:
  assumes "fetch_bounded_rows srv i deadline m r t w = (Inr rows, w')" "0 \<le> m" "0 \<le> t"
  shows "\<exists>sizes. answer_within m r t rows sizes \<and> spent d 0 0 (int (length rows)) (sum_list sizes) w w'"
  using fetch_rows_loop_spends [of srv i deadline m r t "[]" 0 w rows w' "[]" d] assms
  by (simp add: fetch_bounded_rows_def answer_within_def)

text \<open>A session command costs one query and whatever its answer contains.\<close>

lemma command_spends:
  assumes "execute_source_command srv cn timeout w = (Inr x, w')"
  shows "\<exists>k b. 0 \<le> k \<and> 0 \<le> b \<and> spent (cnx_direction cn) 1 0 k b w w'"
proof -
  obtain w1 w2 answered where steps: "ledger_op srv (dispatch_query (cnx_direction cn) 0) w = (Inr (), w1)"
    "ask (srv_command srv (cnx_context_id cn) timeout) w1 = (Inr answered, w2)"
    and rest: "(if \<not> answered then wreturn () else
         wbind (require_fetch_deadline srv) (\<lambda>_.
         wbind (ask (srv_fetchall srv (cnx_context_id cn))) (\<lambda>rows.
         wbind (own (raised (traverse database_row_bytes rows))) (\<lambda>row_bytes.
         ledger_op srv (consume_records row_bytes))))) w2 = (Inr x, w')"
    using assms by (auto simp: execute_source_command_def weff_iffs)
  have sent: "spent (cnx_direction cn) 1 0 0 0 w w2"
    using spent_trans [OF dispatch_spends [OF steps(1)] spent_same [OF ask_ledger [OF steps(2)]]] by simp
  show ?thesis
  proof (cases answered)
    case False
    then show ?thesis using rest sent by auto
  next
    case True
    with rest obtain w3 bs where "sw_ledger w3 = sw_ledger w2" "ledger_op srv (consume_records bs) w3 = (Inr x, w')"
      by (auto simp: weff_iffs own_iffs raised_iffs dest!: fetch_deadline_ledger ask_ledger)
    then have "spent (cnx_direction cn) 0 0 (int (length bs)) (sum_list bs) w2 w'" "\<forall>b \<in> set bs. 0 \<le> b"
      using records_spend [of srv bs w3] by (auto simp: spent_def)
    with spent_trans [OF sent this(1)] show ?thesis
      by (intro exI [of _ "int (length bs)"] exI [of _ "sum_list bs"]) (simp add: sum_list_nonneg)
  qed
qed

lemma session_timeout_ledger: "session_timeout srv cn w = (r, w') \<Longrightarrow> sw_ledger w' = sw_ledger w"
  by (auto simp: session_timeout_def wbind_apply raised_def Let_def
      split: prod.split_asm sum.split_asm if_split_asm dest!: clock_ledger)

lemma restore_spends:
  assumes "(case deadline of None \<Rightarrow> restore_session_invariants srv cn
    | Some d \<Rightarrow> restore_session_invariants_before_deadline srv cn d) w = (Inr x, w')"
  shows "\<exists>k b. 0 \<le> k \<and> 0 \<le> b \<and> spent (cnx_direction cn) 1 0 k b w w'"
proof -
  obtain w1 timeout where "sw_ledger w1 = sw_ledger w" "execute_source_command srv cn timeout w1 = (Inr x, w')"
    using assms
    by (auto simp: restore_session_invariants_def restore_session_invariants_before_deadline_def
        deadline_statement_timeout_milliseconds_def weff_iffs own_iffs raised_iffs
        split: option.split_asm dest!: session_timeout_ledger read_deadline_ledger)
  then show ?thesis using command_spends [of srv cn timeout w1 x w'] by (simp add: spent_def)
qed

lemma attempt_spends:
  assumes "compiled_attempt srv cn q m r t deadline n w = (Inr rows, w')" "0 \<le> m" "0 \<le> t"
  shows "\<exists>sizes k b. answer_within m r t rows sizes \<and> 0 \<le> k \<and> 0 \<le> b \<and>
    spent (cnx_direction cn) 2 n (int (length rows) + k) (sum_list sizes + b) w w'"
proof -
  obtain w1 w2 w3 description where steps:
    "(case deadline of None \<Rightarrow> restore_session_invariants srv cn
      | Some d \<Rightarrow> restore_session_invariants_before_deadline srv cn d) w = (Inr (), w1)"
    "ledger_op srv (dispatch_query (cnx_direction cn) n) w1 = (Inr (), w2)"
    "ask (srv_execute srv (cnx_context_id cn) q) w2 = (Inr description, w3)"
    "fetch_bounded_rows srv (cnx_context_id cn) deadline m r t w3 = (Inr rows, w')"
    using assms(1) by (auto simp: compiled_attempt_def weff_iffs own_iffs raised_iffs)
  obtain k b where kb: "0 \<le> k" "0 \<le> b" "spent (cnx_direction cn) 1 0 k b w w1" using restore_spends [OF steps(1)] by blast
  obtain sizes where sizes: "answer_within m r t rows sizes"
    "spent (cnx_direction cn) 0 0 (int (length rows)) (sum_list sizes) w3 w'"
    using fetch_spends [OF steps(4) assms(2,3)] by blast
  from spent_trans [OF spent_trans [OF spent_trans [OF kb(3) dispatch_spends [OF steps(2)]]
      spent_same [OF ask_ledger [OF steps(3)]]] sizes(2)]
  have "spent (cnx_direction cn) 2 n (int (length rows) + k) (sum_list sizes + b) w w'" by (simp add: ac_simps)
  then show ?thesis using kb(1,2) sizes(1) by blast
qed

lemma limits_positive: "validate_result_limits m r t = Inr () \<Longrightarrow> 0 < m \<and> 0 < r \<and> 0 < t"
  by (auto simp: validate_result_limits_def validate_positive_integer_def result_iffs split: if_split_asm)

lemma losing_context_Inr: "losing_context cn m w = (Inr x, w') \<longleftrightarrow> m w = (Inr x, w')"
  by (auto simp: losing_context_def split: prod.splits sum.splits option.splits)

lemma require_active_Inr: "require_active cn w = (Inr x, w') \<longleftrightarrow> context_state_of (cnx_context_id cn) w = CONTEXT_ACTIVE \<and> w' = w"
  by (auto simp: require_active_def split: context_state.splits)

text \<open>(C24) What a query may bring into the program is bounded and paid for, whatever the server answers: an
  accepted answer has at most the requested number of records, each and all of them within their byte limits and with the
  provenance of every relation read; the ledger has been charged for the query and the command before it, for the
  full scans on the side of the connection, and for at least the records and bytes that were accepted.\<close>

theorem query_answer_bounded:
  assumes "execute_compiled_query_before_deadline srv cn query max_records max_record_bytes max_total_bytes deadline
    full_scans w = (Inr rows, w')"
  shows "\<exists>sizes k b. answer_within max_records max_record_bytes max_total_bytes rows sizes \<and> 0 \<le> k \<and> 0 \<le> b \<and>
    spent (cnx_direction cn) 2 full_scans (int (length rows) + k) (sum_list sizes + b) w w' \<and>
    require_compiled_query_provenance rows query = Inr ()"
proof -
  obtain w1 where steps: "validate_result_limits max_records max_record_bytes max_total_bytes = Inr ()"
    "sw_ledger w1 = sw_ledger w"
    "compiled_attempt srv cn query max_records max_record_bytes max_total_bytes (Some deadline) full_scans w1 = (Inr rows, w')"
    "require_compiled_query_provenance rows query = Inr ()"
    using assms
    by (auto simp: execute_compiled_query_before_deadline_def weff_iffs raised_iffs losing_context_Inr require_active_Inr
        dest!: read_deadline_ledger)
  from attempt_spends [OF steps(3)] limits_positive [OF steps(1)] show ?thesis
    using steps(2,4) by (auto simp: spent_def)
qed

section \<open>The life of a context\<close>

lemma read_deadline_states: "read_deadline_check srv d w = (r, w') \<Longrightarrow> out_states (sw_outside w') = out_states (sw_outside w)"
  using states.read_deadline_check_keeps [of srv d] by (auto simp: same_states_def dest: keepsD)

lemma read_deadline_error: "read_deadline_check srv d w = (Inl e, w') \<Longrightarrow> \<exists>x. e = Raised x"
  by (auto simp: read_deadline_check_def require_postgres_read_deadline_def Let_def split: prod.split_asm if_split_asm)

lemma raised_no_connector_error [simp]: "map_sum Raised id r \<noteq> Inl (ConnectorError e)"
  by (cases r) simp_all

text \<open>(C29) The states of a context: a query loses its context exactly when it fails with \<open>PostgresQueryError\<close>, no other
  context changes, and a context that is not active answers with an exception and charges nothing.\<close>

theorem query_moves_context:
  "case execute_compiled_query_before_deadline srv cn query m r t deadline n w of (result, w') \<Rightarrow>
     out_states (sw_outside w') =
       lost_when (result = Inl (ConnectorError PostgresQueryError)) (cnx_context_id cn) (out_states (sw_outside w)) \<and>
     (context_state_of (cnx_context_id cn) w = CONTEXT_ACTIVE \<or> isl result \<and> sw_ledger w' = sw_ledger w)"
proof -
  obtain result w' where run: "execute_compiled_query_before_deadline srv cn query m r t deadline n w = (result, w')"
    by (meson surj_pair)
  show ?thesis
  proof (cases "validate_result_limits m r t")
    case (Inl e)
    then show ?thesis
      by (auto simp: execute_compiled_query_before_deadline_def wbind_apply raised_def lost_when_def)
  next
    case (Inr u)
    obtain r1 w1 where check: "read_deadline_check srv deadline w = (r1, w1)" by (meson surj_pair)
    note same = read_deadline_states [OF check] read_deadline_ledger [OF check]
    let ?i = "cnx_context_id cn"
    let ?attempt = "losing_context cn (compiled_attempt srv cn query m r t (Some deadline) n)"
    show ?thesis
    proof (cases "isl r1 \<or> context_state_of ?i w \<noteq> CONTEXT_ACTIVE")
      case True
      have "\<exists>e. r1 = Inl e \<Longrightarrow> \<exists>x. r1 = Inl (Raised x)" using read_deadline_error [of srv deadline w _ w1] check by blast
      then show ?thesis
        using True Inr check same
        by (auto simp: execute_compiled_query_before_deadline_def wbind_apply raised_def lost_when_def isl_def
            require_active_def context_state_of_def split: context_state.splits sum.splits)
    next
      case False
      then obtain ms where ms: "r1 = Inr ms" by (cases r1) auto
      obtain r2 w2 where attempt: "?attempt w1 = (r2, w2)" by (meson surj_pair)
      have "out_states (sw_outside w2) =
          lost_when (r2 = Inl (ConnectorError PostgresQueryError)) ?i (out_states (sw_outside w))"
        using losing_context_states [OF attempt_raises states.attempt_keeps attempt] same(1) by simp
      then show ?thesis
        using False Inr check same attempt ms
        by (cases r2) (auto simp: execute_compiled_query_before_deadline_def wbind_apply raised_def lost_when_def
            require_active_def context_state_of_def split: sum.splits)
    qed
  qed
qed

section \<open>The comparison on these reads\<close>

lemma key_summary_unchanged: "mk_PostgresIntegerKeySummary s = Inr y \<Longrightarrow> mk_PostgresIntegerKeySummary y = Inr y"
proof -
  assume "mk_PostgresIntegerKeySummary s = Inr y"
  moreover from this have "y = s" by (auto simp: mk_PostgresIntegerKeySummary_def result_iffs split: if_split_asm)
  ultimately show ?thesis by simp
qed

lemma postgres_receipts: "valid_receipts (postgres_services srv pr)"
  unfolding valid_receipts_def
  by (auto simp: postgres_services_def context_key_summary_def Let_def weff_iffs raised_iffs
      integer_key_summary_from_database_def result_iffs dest: key_summary_unchanged)

lemma postgres_charges: "charges (postgres_services srv pr) = world_charges"
  by (intro ext) (simp add: charges_def world_charges_def postgres_services_def)

lemma postgres_kept: "services_keep (charges (postgres_services srv pr)) (postgres_services srv pr)"
  unfolding postgres_charges by (rule charging.postgres_services_keep)

lemma postgres_revival: "kept_services never_revived (postgres_services srv pr)"
  by (intro kept_services.intro kept_services_axioms.intro revival.postgres_services_keep revival.kept_relation_axioms)

text \<open>(C20) A comparison on PostgreSQL is safe against its servers: whatever they answer and whenever they fail, the
  ledger of the run stays within its budgets, a context that was lost or closed is never active again, and
  the caller learns what happened: the completed comparison, a report with an accepted partial artifact for every interruption
  (apart from \<open>GreenplumCloseError\<close>), or the exception that is no interruption.\<close>

theorem postgres_comparison_safe:
  assumes budgets: "mk_ExecutionBudgets (ci_budgets ci) = Inr (ci_budgets ci)"
    and ids: "cx_context_id (ci_reference_context ci) \<noteq> cx_context_id (ci_target_context ci)" "valid_identity ci"
    and ledger: "ledger_serves (ci_source_budget ci) (sw_ledger w)"
    and run: "execute_integer_key_comparison (postgres_services srv pr) z ci w = (r, w')"
  shows "ledger_ok (sw_ledger w') \<and> never_revived w w' \<and> properly_reported (postgres_services srv pr) z ci w r"
proof (intro conjI)
  have on_world [simp]: "sv_ledger (postgres_services srv pr) v = sw_ledger v" for v by (simp add: postgres_services_def)
  have "world_charges w w'" using execution_charges [OF postgres_kept run] by (simp add: postgres_charges)
  then show "ledger_ok (sw_ledger w')"
    using ledger ledger_ok_steps by (auto simp: world_charges_def ledger_serves_def Let_def)
  show "never_revived w w'"
    using kept_services.execute_keeps [OF postgres_revival, of w srv pr z ci] run by simp
  show "properly_reported (postgres_services srv pr) z ci w r"
    using execution_reported [OF postgres_kept postgres_receipts budgets ids, of srv pr w z] ledger run by simp
qed

section \<open>Two servers\<close>

text \<open>One that executes commands and fails every query, and one that answers a query with one row.\<close>

definition failing_server :: "(unit, unit) server" where
  "failing_server =
     \<lparr>srv_clock = (\<lambda>s. (1000000, s)), srv_command = (\<lambda>i t s. (Inr False, s)), srv_fetchall = (\<lambda>i s. (Inr [], s)), srv_execute = (\<lambda>i q s. (Inl None, s)),
      srv_fetchmany = (\<lambda>i n s. (Inr [], s))\<rparr>"

definition one_row_server :: "(nat, unit) server" where
  "one_row_server =
     \<lparr>srv_clock = (\<lambda>s. (1000000, s)), srv_command = (\<lambda>i t s. (Inr True, s)), srv_fetchall = (\<lambda>i s. (Inr [[DbBool True]], s)),
      srv_execute = (\<lambda>i q s. (Inr (Some [\<lparr>col_name = asc ''origin_type'', col_type_code = 20\<rparr>]), s)),
      srv_fetchmany = (\<lambda>i n s. if s = 0 then (Inr [[DbInt 16385, DbBool True]], Suc s) else (Inr [], s))\<rparr>"

definition example_connection :: "read_context \<Rightarrow> connection" where
  "example_connection c =
     \<lparr>cnx_context_id = cx_context_id c, cnx_direction = cx_source_direction c, cnx_statement_timeout = 1000\<rparr>"

definition example_reads :: "envelope_context \<Rightarrow> unit protected_reads" where
  "example_reads c =
     \<lparr>pr_connection = example_connection, pr_summary_query = (\<lambda>rel i scope n. Inr (example_query c)),
      pr_fingerprint_query = (\<lambda>rel i scope qs n. Inr (example_query c)),
      pr_rows_query = (\<lambda>rel i scope qs n. Inr (example_query c))\<rparr>"

definition example_pg_world :: "'s \<Rightarrow> 's pg_world" where
  "example_pg_world s =
     \<lparr>sw_ledger = new_ledger example_run_budgets 0,
      sw_outside = \<lparr>out_server = s, out_states = (\<lambda>i. CONTEXT_ACTIVE)\<rparr>\<rparr>"

lemma example_failure:
  "interrupted_with (ConnectorError PostgresQueryError)
     (execute_integer_key_comparison (postgres_services failing_server (example_reads c)) example_sizes example_comparison
       (example_pg_world ()))"
  by code_simp

definition query_answers :: "db_row list \<Rightarrow> (cause + db_row list) \<times> 's pg_world \<Rightarrow> bool" where
  "query_answers rows x \<longleftrightarrow> (case fst x of Inr rows' \<Rightarrow> rows' = rows | Inl e \<Rightarrow> False)"

lemma example_answer:
  "query_answers [[DbInt 16385, DbBool True]]
     (execute_compiled_query_before_deadline one_row_server (example_connection (ci_reference_context example_comparison))
       (example_query c) 1 1000 2000 example_read_deadline 1 (example_pg_world 0))"
  by code_simp

theorem query_answer_bounded_witness:
  "\<exists>c w' sizes. execute_compiled_query_before_deadline one_row_server
      (example_connection (ci_reference_context example_comparison)) (example_query c) 1 1000 2000 example_read_deadline 1
      (example_pg_world 0) = (Inr [[DbInt 16385, DbBool True]], w') \<and>
    answer_within 1 1000 2000 [[DbInt 16385, DbBool True]] sizes"
proof -
  fix c
  obtain w' where run: "execute_compiled_query_before_deadline one_row_server
      (example_connection (ci_reference_context example_comparison)) (example_query c) 1 1000 2000 example_read_deadline 1
      (example_pg_world 0) = (Inr [[DbInt 16385, DbBool True]], w')"
    using example_answer [of c] by (auto simp: query_answers_def split: sum.splits) (metis prod.collapse)
  from query_answer_bounded [OF run] run show ?thesis by blast
qed

theorem postgres_comparison_safe_witness:
  "\<exists>c a w'. execute_integer_key_comparison (postgres_services failing_server (example_reads c)) example_sizes
      example_comparison (example_pg_world ()) = (Inl (Interrupted (ConnectorError PostgresQueryError) a), w') \<and>
    reported (ConnectorError PostgresQueryError) a"
proof -
  fix c
  obtain a w' where run: "execute_integer_key_comparison (postgres_services failing_server (example_reads c)) example_sizes
      example_comparison (example_pg_world ()) = (Inl (Interrupted (ConnectorError PostgresQueryError) a), w')"
    using example_failure [of c] by (auto simp: interrupted_with_def split: sum.splits failure.splits) (metis prod.collapse)
  have ids: "cx_context_id (ci_reference_context example_comparison) \<noteq> cx_context_id (ci_target_context example_comparison)"
    "valid_identity example_comparison" by code_simp+
  have "ledger_serves (ci_source_budget example_comparison) (sw_ledger (example_pg_world ()))"
    by (simp add: ledger_serves_def example_comparison_def example_attempt_def example_pg_world_def new_ledger_def
        ledger_ok_def example_run_budgets_def example_budgets_def Let_def)
  from postgres_comparison_safe [OF example_inputs_accepted ids this run]
  have "properly_reported (postgres_services failing_server (example_reads c)) example_sizes example_comparison
      (example_pg_world ()) (Inl (Interrupted (ConnectorError PostgresQueryError) a))" by blast
  from properly_reported_interruption [OF this] run show ?thesis by blast
qed

end
