(* ===== verification/Run_Request.thy ===== *)
theory Run_Request
  imports Acquisition
begin

text \<open>
  The request of a run and the artifacts it captures, \<open>src/forensic_data/acquisition.py\<close>: the batches a run
  expects, its execution and evidence policies, the digest that identifies it, the selection of captured SQL
  artifacts, and the classification of a check whose sources cannot be protected. A \<open>UUID\<close> is its number;
  the version-4 check of its bits is not modelled.
\<close>

section \<open>Identifiers\<close>

text \<open>\<open>str(uuid)\<close>: 32 hexadecimal digits in groups of 8, 4, 4, 4 and 12.\<close>

definition uuid_text :: "uuid \<Rightarrow> pystr" where
  "uuid_text i =
     (let h = format_nat 16 32 i in
      asc (take 8 h @ ''-'' @ take 4 (drop 8 h) @ ''-'' @ take 4 (drop 12 h) @ ''-'' @ take 4 (drop 16 h) @ ''-'' @ drop 20 h))"

section \<open>The request\<close>

record expected_batch =
  xb_direction :: plan_direction
  xb_dataset_id :: pystr
  xb_batch_id :: pystr

definition mk_ExpectedBatchDefinition :: "expected_batch \<Rightarrow> exn + expected_batch" where
  "mk_ExpectedBatchDefinition b =
     ebind (require_nonblank_text (xb_dataset_id b)) (\<lambda>_.
     ebind (require_nonblank_text (xb_batch_id b)) (\<lambda>_. Inr b))"

record run_request =
  rq_request_id :: uuid
  rq_contract_version_id :: uuid
  rq_origin :: pystr
  rq_scope :: resolved_scope
  rq_expected_batches :: "expected_batch list"
  rq_execution_policy :: execution_budgets
  rq_evidence_policy :: evidence_definition
  rq_request_identity_digest :: pystr

fun capture_policy_value :: "capture_policy \<Rightarrow> pystr" where
  "capture_policy_value CAPTURE_ENABLED = asc ''enabled''"
| "capture_policy_value CAPTURE_DISABLED = asc ''disabled''"

fun evidence_action_value :: "evidence_action \<Rightarrow> pystr" where
  "evidence_action_value STORE = asc ''store''"
| "evidence_action_value REDACT = asc ''redact''"
| "evidence_action_value OMIT = asc ''omit''"

definition execution_policy_semantics :: "execution_budgets \<Rightarrow> jval" where
  "execution_policy_semantics p = JObj
     [(asc ''max_application_result_bytes'', JInt (eb_max_application_result_bytes p)),
      (asc ''max_attempts'', JInt (eb_max_attempts p)),
      (asc ''max_checks_concurrency'', JInt (eb_max_checks_concurrency p)),
      (asc ''max_coordinator_memory_bytes'', JInt (eb_max_coordinator_memory_bytes p)),
      (asc ''max_depth'', JInt (eb_max_depth p)),
      (asc ''max_evidence_bytes'', JInt (eb_max_evidence_bytes p)),
      (asc ''max_evidence_rows'', JInt (eb_max_evidence_rows p)),
      (asc ''max_fetched_records'', JInt (eb_max_fetched_records p)),
      (asc ''max_fingerprint_nodes'', JInt (eb_max_fingerprint_nodes p)),
      (asc ''max_full_scans_per_side'', JInt (eb_max_full_scans_per_side p)),
      (asc ''max_queries'', JInt (eb_max_queries p)),
      (asc ''max_source_concurrency'', JInt (eb_max_source_concurrency p)),
      (asc ''run_timeout_milliseconds'', JInt (eb_run_timeout_milliseconds p)),
      (asc ''statement_timeout_milliseconds'', JInt (eb_statement_timeout_milliseconds p)),
      (asc ''version'', JInt (eb_version p))]"

definition evidence_policy_semantics :: "evidence_definition \<Rightarrow> jval" where
  "evidence_policy_semantics p = JObj
     [(asc ''ddl_capture'', JStr (capture_policy_value (edf_ddl_capture p))),
      (asc ''field_rules'', JArr (map (\<lambda>f. JObj
         [(asc ''action'', JStr (evidence_action_value (efp_action f))),
          (asc ''field_name'', JStr (efp_field_name f))]) (edf_fields p))),
      (asc ''sql_capture'', JStr (capture_policy_value (edf_sql_capture p))),
      (asc ''unspecified_fields'', JStr (evidence_action_value (edf_unspecified_fields p)))]"

definition run_request_semantics ::
  "uuid \<Rightarrow> pystr \<Rightarrow> resolved_scope \<Rightarrow> expected_batch list \<Rightarrow> execution_budgets \<Rightarrow> evidence_definition \<Rightarrow> jval" where
  "run_request_semantics contract_version_id origin scope expected_batches execution_policy evidence_policy = JObj
     [(asc ''contract_version_id'', JStr (uuid_text contract_version_id)),
      (asc ''evidence_policy'', evidence_policy_semantics evidence_policy),
      (asc ''execution_policy'', execution_policy_semantics execution_policy),
      (asc ''expected_batches'', JArr (map (\<lambda>b. JObj
         [(asc ''batch_id'', JStr (xb_batch_id b)),
          (asc ''dataset_id'', JStr (xb_dataset_id b)),
          (asc ''direction'', JStr (plan_direction_value (xb_direction b)))]) expected_batches)),
      (asc ''origin'', JStr origin),
      (asc ''request_version'', JInt 1),
      (asc ''scope'', resolved_scope_semantics (rs_parameters scope))]"

definition run_request_semantic_value :: "run_request \<Rightarrow> jval" where
  "run_request_semantic_value r =
     run_request_semantics (rq_contract_version_id r) (rq_origin r) (rq_scope r) (rq_expected_batches r)
       (rq_execution_policy r) (rq_evidence_policy r)"

definition mk_RunRequestDefinition :: "run_request \<Rightarrow> exn + run_request" where
  "mk_RunRequestDefinition r =
     ebind (require_nonblank_text (rq_origin r)) (\<lambda>_.
     ebind (acquisition_require (length (rq_expected_batches r) = 2)) (\<lambda>_.
     ebind (acquisition_require (map xb_direction (rq_expected_batches r) = [DIRECTION_REFERENCE, DIRECTION_TARGET])) (\<lambda>_.
     ebind (acquisition_require
       (\<not> xb_dataset_id (rq_expected_batches r ! 0) = xb_dataset_id (rq_expected_batches r ! 1))) (\<lambda>_.
     ebind (acquisition_require_sha256 (rq_request_identity_digest r)) (\<lambda>_.
     ebind (semantic_digest_hex (run_request_semantic_value r)) (\<lambda>expected_digest.
     ebind (acquisition_require (rq_request_identity_digest r = asc expected_digest)) (\<lambda>_.
     Inr r)))))))"

definition build_run_request_definition ::
  "uuid \<Rightarrow> uuid \<Rightarrow> pystr \<Rightarrow> row_check \<Rightarrow> resolved_scope \<Rightarrow> pystr \<Rightarrow> pystr \<Rightarrow> execution_budgets \<Rightarrow> evidence_definition \<Rightarrow>
   exn + run_request" where
  "build_run_request_definition request_id contract_version_id origin check scope reference_batch target_batch
     execution_policy evidence_policy =
     ebind (require_nonblank_text origin) (\<lambda>_.
     ebind (acquisition_require (map (\<lambda>p. (rsp_name p, rsp_field p)) (rs_parameters scope) =
       map (\<lambda>p. (scp_name p, scp_field p)) (sd_parameters (rc_scope check)))) (\<lambda>_.
     ebind (mk_ExpectedBatchDefinition
       \<lparr>xb_direction = DIRECTION_REFERENCE, xb_dataset_id = ds_dataset_id (rc_reference check), xb_batch_id = reference_batch\<rparr>) (\<lambda>reference.
     ebind (mk_ExpectedBatchDefinition
       \<lparr>xb_direction = DIRECTION_TARGET, xb_dataset_id = ds_dataset_id (rc_target check), xb_batch_id = target_batch\<rparr>) (\<lambda>target.
     ebind (semantic_digest_hex (run_request_semantics contract_version_id origin scope [reference, target]
       execution_policy evidence_policy)) (\<lambda>digest.
     mk_RunRequestDefinition
       \<lparr>rq_request_id = request_id, rq_contract_version_id = contract_version_id, rq_origin = origin, rq_scope = scope,
        rq_expected_batches = [reference, target], rq_execution_policy = execution_policy,
        rq_evidence_policy = evidence_policy, rq_request_identity_digest = asc digest\<rparr>)))))"

section \<open>Captured artifacts\<close>

datatype artifact_purpose = PURPOSE_PROJECTION | PURPOSE_READINESS

record capture_selection =
  cps_direction :: plan_direction
  cps_purpose :: artifact_purpose
  cps_dataset_id :: pystr
  cps_code_artifact_id :: uuid

definition capture_use :: "capture_selection \<Rightarrow> plan_direction \<times> artifact_purpose \<times> pystr" where
  "capture_use c = (cps_direction c, cps_purpose c, cps_dataset_id c)"

definition mk_ArtifactCaptureSelection :: "capture_selection \<Rightarrow> exn + capture_selection" where
  "mk_ArtifactCaptureSelection c = ebind (require_nonblank_text (cps_dataset_id c)) (\<lambda>_. Inr c)"

record artifact_selection =
  asl_check_id :: pystr
  asl_revision :: int
  asl_contract_digest :: pystr
  asl_captures :: "capture_selection list"

definition mk_ArtifactSelection :: "artifact_selection \<Rightarrow> exn + artifact_selection" where
  "mk_ArtifactSelection a =
     ebind (require_nonblank_text (asl_check_id a)) (\<lambda>_.
     ebind (acquisition_require (\<not> asl_revision a < 1)) (\<lambda>_.
     ebind (acquisition_require_sha256 (asl_contract_digest a)) (\<lambda>_.
     ebind (acquisition_require (card (set (map capture_use (asl_captures a))) = length (asl_captures a))) (\<lambda>_.
     ebind (acquisition_require (card (set (map cps_code_artifact_id (asl_captures a))) = length (asl_captures a))) (\<lambda>_.
     Inr a)))))"

text \<open>The SQL artifacts of a check: projections first, then readiness, reference before target. \<open>zip(..., strict=True)\<close>
  raises after the last pair.\<close>

definition expected_artifact_uses :: "row_check \<Rightarrow> exn + (plan_direction \<times> artifact_purpose \<times> pystr) list" where
  "expected_artifact_uses check =
     (let datasets = cdf_datasets (rc_consistency check) in
      ebind (require (length datasets = 2) ValueError) (\<lambda>_.
      Inr ([(direction, PURPOSE_PROJECTION, ds_dataset_id d).
              (direction, d) \<leftarrow> [(DIRECTION_REFERENCE, rc_reference check), (DIRECTION_TARGET, rc_target check)],
              (case ds_locator d of SqlDataset _ \<Rightarrow> True | RelationDataset _ \<Rightarrow> False)] @
           [(direction, PURPOSE_READINESS, cds_dataset_id d).
              (direction, d) \<leftarrow> zip [DIRECTION_REFERENCE, DIRECTION_TARGET] datasets,
              (case cds_readiness d of SqlReadiness _ \<Rightarrow> True | ManifestReadiness _ \<Rightarrow> False)])))"

definition validate_artifact_selection :: "row_check \<Rightarrow> artifact_selection \<Rightarrow> exn + unit" where
  "validate_artifact_selection check selection =
     ebind (acquisition_require (\<not> (asl_check_id selection \<noteq> rc_check_id check \<or> asl_revision selection \<noteq> rc_revision check \<or>
       asl_contract_digest selection \<noteq> rc_contract_digest check))) (\<lambda>_.
     ebind (expected_artifact_uses check) (\<lambda>expected.
     acquisition_require (map capture_use (asl_captures selection) = expected)))"

definition artifact_selection_for_check :: "row_check \<Rightarrow> capture_selection list \<Rightarrow> exn + artifact_selection" where
  "artifact_selection_for_check check captures =
     ebind (mk_ArtifactSelection
       \<lparr>asl_check_id = rc_check_id check, asl_revision = rc_revision check,
        asl_contract_digest = rc_contract_digest check, asl_captures = captures\<rparr>) (\<lambda>selection.
     ebind (validate_artifact_selection check selection) (\<lambda>_. Inr selection))"

section \<open>Sources that cannot be protected\<close>

definition classify_dataset_acquisition :: "plan_direction \<Rightarrow> dataset_definition \<Rightarrow> exn + early_outcome option" where
  "classify_dataset_acquisition direction dataset =
     (case ds_locator dataset of
        RelationDataset l \<Rightarrow>
          ebind (acquisition_require (rl_relation_scope l \<in> {PHYSICAL_ONLY, FROZEN_PHYSICAL_UNION})) (\<lambda>_. Inr None)
      | SqlDataset _ \<Rightarrow>
          ebind (unsupported_capability_outcome RESOLVE_DATASET_DEPENDENCIES
            ''opaque SQL dataset dependencies cannot be protected before the read snapshot'' direction
            (ds_dataset_id dataset)) (\<lambda>e. Inr (Some e)))"

definition classify_readiness_acquisition ::
  "plan_direction \<Rightarrow> pystr \<Rightarrow> readiness_definition \<Rightarrow> exn + early_outcome option" where
  "classify_readiness_acquisition direction dataset_id readiness =
     ebind (require_nonblank_text dataset_id) (\<lambda>_.
     case readiness of
       ManifestReadiness r \<Rightarrow>
         ebind (acquisition_require (rl_relation_scope (mr_relation r) = PHYSICAL_ONLY)) (\<lambda>_. Inr None)
     | SqlReadiness _ \<Rightarrow>
         ebind (unsupported_capability_outcome RESOLVE_READINESS_DEPENDENCIES
           ''opaque SQL readiness dependencies cannot be protected before the read snapshot'' direction dataset_id)
           (\<lambda>e. Inr (Some e)))"

text \<open>The first outcome of a list of steps.\<close>

fun first_outcome :: "('a \<Rightarrow> exn + early_outcome option) \<Rightarrow> 'a list \<Rightarrow> exn + early_outcome option" where
  "first_outcome f [] = Inr None"
| "first_outcome f (x # xs) =
     ebind (f x) (\<lambda>e. case e of None \<Rightarrow> first_outcome f xs | Some v \<Rightarrow> Inr (Some v))"

definition manifest_datasets :: "row_check \<Rightarrow> (plan_direction \<times> pystr) list" where
  "manifest_datasets check =
     [(direction, cds_dataset_id d). (direction, d) \<leftarrow> zip [DIRECTION_REFERENCE, DIRECTION_TARGET] (cdf_datasets (rc_consistency check)),
        (case cds_readiness d of ManifestReadiness _ \<Rightarrow> True | SqlReadiness _ \<Rightarrow> False)]"

definition classify_readiness_of ::
  "plan_direction \<times> dataset_definition \<times> consistency_dataset \<Rightarrow> exn + early_outcome option" where
  "classify_readiness_of = (\<lambda>(direction, dataset, c).
     ebind (acquisition_require (\<not> cds_dataset_id c \<noteq> ds_dataset_id dataset)) (\<lambda>_.
     ebind (case cds_readiness c of
              ManifestReadiness r \<Rightarrow> acquisition_require (\<not> mr_connection_id r \<noteq> cd_connection_id (ds_connection dataset))
            | SqlReadiness _ \<Rightarrow> Inr ()) (\<lambda>_.
     classify_readiness_acquisition direction (cds_dataset_id c) (cds_readiness c))))"

definition classify_check_acquisition :: "row_check \<Rightarrow> exn + early_outcome option" where
  "classify_check_acquisition check =
     (let datasets = [(DIRECTION_REFERENCE, rc_reference check), (DIRECTION_TARGET, rc_target check)];
          consistency = rc_consistency check in
      ebind (first_outcome (\<lambda>(direction, dataset). classify_dataset_acquisition direction dataset) datasets) (\<lambda>e.
      case e of
        Some v \<Rightarrow> Inr (Some v)
      | None \<Rightarrow>
          ebind (require (length (cdf_datasets consistency) = 2) ValueError) (\<lambda>_.
          let unsupported_alignment_fields = filter (\<lambda>n. map_of ALIGNMENT_FIELDS n = None) (cdf_alignment_fields consistency) in
          if manifest_datasets check \<noteq> [] \<and> unsupported_alignment_fields \<noteq> [] then
            ebind (unsupported_capability_outcome VALIDATE_ALIGNMENT_FIELDS
              ''relation manifest runtime supports only business_date and source_cut alignment fields''
              (fst (hd (manifest_datasets check))) (snd (hd (manifest_datasets check)))) (\<lambda>e. Inr (Some e))
          else
            first_outcome classify_readiness_of
              (map (\<lambda>((direction, dataset), c). (direction, dataset, c)) (zip datasets (cdf_datasets consistency))))))"

section \<open>What a built request is\<close>

lemma build_run_request_valid:
  assumes "build_run_request_definition i v origin check scope b1 b2 x e = Inr r"
  shows "mk_RunRequestDefinition r = Inr r \<and> rq_request_id r = i \<and> rq_execution_policy r = x \<and>
    map xb_dataset_id (rq_expected_batches r) = [ds_dataset_id (rc_reference check), ds_dataset_id (rc_target check)]"
  using assms by (auto simp: build_run_request_definition_def mk_RunRequestDefinition_def mk_ExpectedBatchDefinition_def result_iffs)

end
