(* ===== verification/Lifecycle_Store.thy ===== *)
theory Lifecycle_Store
  imports Run_Request Effects
begin

text \<open>
  The metadata database of \<open>src/forensic_data/persistence/lifecycle.py\<close>: the tables of runs, attempts, lease
  renewals and read contexts, the transactions against them, and the records the callers get back. A table is
  the list of its rows; a \<open>jsonb\<close> column holds the canonical text of its value, a digest its hexadecimal text,
  a time its distance to an epoch. A column that a \<open>CHECK\<close> of the schema limits to the values of an
  enumeration has that enumeration for its type, so the branches for other texts do not occur. A write that
  would break a key of the schema raises, and so does one that its other constraints refuse, which are the
  predicate \<open>tx_accepts\<close> of a transaction.
\<close>

section \<open>Rows\<close>

type_synonym instant = int

datatype attempt_status = ATTEMPT_RUNNING | ATTEMPT_COMPLETED | ATTEMPT_INCOMPLETE | ATTEMPT_ERROR | ATTEMPT_ABANDONED

datatype read_context_status = READ_CONTEXT_ACTIVE | READ_CONTEXT_CLOSED | READ_CONTEXT_LOST

record run_row =
  rnr_run_id :: uuid
  rnr_creation_operation_id :: uuid
  rnr_request_id :: uuid
  rnr_request_identity_digest :: pystr
  rnr_request_payload :: pystr
  rnr_contract_version_id :: uuid
  rnr_origin :: pystr
  rnr_scope_digest :: pystr
  rnr_bound_input_cut_digest :: "pystr option"
  rnr_bound_input_cut_payload :: "pystr option"
  rnr_cut_binding_operation_id :: "uuid option"
  rnr_cut_bound_at :: "instant option"
  rnr_selected_terminal_attempt_id :: "uuid option"
  rnr_terminal_operation_id :: "uuid option"
  rnr_terminal_at :: "instant option"
  rnr_created_at :: instant

record attempt_row =
  atr_attempt_id :: uuid
  atr_run_id :: uuid
  atr_ordinal :: int
  atr_start_operation_id :: uuid
  atr_status :: attempt_status
  atr_execution_budgets :: pystr
  atr_owner_token :: uuid
  atr_lease_revision :: int
  atr_lease_operation_id :: "uuid option"
  atr_initial_lease_expires_at :: instant
  atr_lease_expires_at :: instant
  atr_input_cut_digest :: "pystr option"
  atr_cut_operation_id :: "uuid option"
  atr_cut_observed_at :: "instant option"
  atr_end_operation_id :: "uuid option"
  atr_terminal_reason_code :: "reason_code option"
  atr_terminal_reason :: "pystr option"
  atr_started_at :: instant
  atr_ended_at :: "instant option"

record renewal_row =
  rwr_lease_operation_id :: uuid
  rwr_run_id :: uuid
  rwr_attempt_id :: uuid
  rwr_owner_token :: uuid
  rwr_expected_lease_revision :: int
  rwr_requested_lease_expires_at :: instant
  rwr_resulting_lease_revision :: int

record context_row =
  cxr_read_context_id :: uuid
  cxr_run_id :: uuid
  cxr_attempt_id :: uuid
  cxr_dataset_version_id :: uuid
  cxr_direction :: plan_direction
  cxr_acquisition_operation_id :: uuid
  cxr_scope_digest :: pystr
  cxr_engine :: pystr
  cxr_driver_version :: pystr
  cxr_server_version :: pystr
  cxr_server_version_number :: int
  cxr_strategy :: pystr
  cxr_snapshot_locator :: "pystr option"
  cxr_backend_process_id :: "int option"
  cxr_allowed_concurrency :: int
  cxr_limitations :: pystr
  cxr_acquisition_evidence :: pystr
  cxr_started_at :: instant
  cxr_state :: read_context_status
  cxr_end_operation_id :: "uuid option"
  cxr_ended_at :: "instant option"

record observation_row =
  obr_observation_id :: uuid
  obr_observation_operation_id :: uuid
  obr_run_id :: uuid
  obr_attempt_id :: uuid
  obr_read_context_id :: uuid
  obr_dataset_version_id :: uuid
  obr_direction :: plan_direction
  obr_scope_digest :: pystr
  obr_input_cut_digest :: pystr
  obr_readiness_evidence :: pystr
  obr_physical_schema_digest :: pystr
  obr_physical_binding_digest :: pystr
  obr_physical_binding :: pystr
  obr_projection_code_artifact_id :: "uuid option"
  obr_readiness_provider_kind :: pystr
  obr_readiness_code_artifact_id :: "uuid option"
  obr_observed_at :: instant

record contract_row =
  ctr_contract_version_id :: uuid
  ctr_reference_dataset_version_id :: uuid
  ctr_target_dataset_version_id :: uuid

record store =
  sto_runs :: "run_row list"
  sto_attempts :: "attempt_row list"
  sto_renewals :: "renewal_row list"
  sto_contexts :: "context_row list"
  sto_observations :: "observation_row list"
  sto_contracts :: "contract_row list"

definition empty_store :: store where
  "empty_store = \<lparr>sto_runs = [], sto_attempts = [], sto_renewals = [], sto_contexts = [], sto_observations = [],
     sto_contracts = []\<rparr>"

text \<open>The primary keys, the \<open>UNIQUE\<close> constraints and the unique index of the schema; a \<open>NULL\<close> is no key.\<close>

definition present_keys :: "('r \<Rightarrow> 'k option) \<Rightarrow> 'r list \<Rightarrow> 'k list" where
  "present_keys key rows = concat (map (\<lambda>r. case key r of None \<Rightarrow> [] | Some k \<Rightarrow> [k]) rows)"

definition unique_runs :: "run_row list \<Rightarrow> bool" where
  "unique_runs rs \<longleftrightarrow> distinct (map rnr_run_id rs) \<and> distinct (map rnr_creation_operation_id rs) \<and>
     distinct (map rnr_request_id rs) \<and> distinct (present_keys rnr_cut_binding_operation_id rs) \<and>
     distinct (present_keys rnr_terminal_operation_id rs)"

definition unique_attempts :: "attempt_row list \<Rightarrow> bool" where
  "unique_attempts as \<longleftrightarrow> distinct (map atr_attempt_id as) \<and> distinct (map atr_start_operation_id as) \<and>
     distinct (map (\<lambda>a. (atr_run_id a, atr_ordinal a)) as) \<and> distinct (present_keys atr_lease_operation_id as) \<and>
     distinct (present_keys atr_cut_operation_id as) \<and> distinct (present_keys atr_end_operation_id as) \<and>
     distinct (map atr_run_id (filter (\<lambda>a. atr_status a = ATTEMPT_RUNNING) as))"

definition unique_renewals :: "renewal_row list \<Rightarrow> bool" where
  "unique_renewals ls \<longleftrightarrow> distinct (map rwr_lease_operation_id ls) \<and>
     distinct (map (\<lambda>l. (rwr_attempt_id l, rwr_expected_lease_revision l)) ls)"

definition unique_contexts :: "context_row list \<Rightarrow> bool" where
  "unique_contexts cs \<longleftrightarrow> distinct (map cxr_read_context_id cs) \<and> distinct (map cxr_acquisition_operation_id cs) \<and>
     distinct (map (\<lambda>c. (cxr_attempt_id c, cxr_dataset_version_id c)) cs) \<and>
     distinct (present_keys cxr_end_operation_id cs)"

definition unique_observations :: "observation_row list \<Rightarrow> bool" where
  "unique_observations bs \<longleftrightarrow> distinct (map obr_observation_id bs) \<and> distinct (map obr_observation_operation_id bs) \<and>
     distinct (map (\<lambda>b. (obr_attempt_id b, obr_dataset_version_id b)) bs)"

definition unique_keys :: "store \<Rightarrow> bool" where
  "unique_keys st \<longleftrightarrow> unique_runs (sto_runs st) \<and> unique_attempts (sto_attempts st) \<and>
     unique_renewals (sto_renewals st) \<and> unique_contexts (sto_contexts st) \<and> unique_observations (sto_observations st)"

section \<open>Transactions\<close>

text \<open>The exceptions of the module. \<open>StatementRefused\<close> is a \<open>psycopg.Error\<close> that rolled the transaction back,
  \<open>LifecycleValueError\<close> an exception of a constructor or of the semantic JSON codec.\<close>

datatype lifecycle_error =
    RunRequestConflictError
  | LifecycleOperationConflictError
  | RunLifecycleStateError
  | ActiveRunAttemptError
  | RunAttemptLimitError
  | RunInvocationContinuationError
  | AttemptFenceError
  | InputCutMismatchError
  | StoredLifecycleIntegrityError
  | LifecycleTransactionError
  | LifecycleCommitUnknownError
  | LifecycleValueError exn
  | StatementRefused

record transaction =
  tx_store :: store
  tx_now :: "nat \<Rightarrow> instant"
  tx_reads :: nat
  tx_accepts :: "store \<Rightarrow> store \<Rightarrow> bool"

type_synonym 'a tx = "(transaction, lifecycle_error, 'a) eff"

text \<open>\<open>clock_timestamp()\<close>: the successive readings of the clock of the server; reading 0 is the start of the
  transaction, \<open>CURRENT_TIMESTAMP\<close>.\<close>

definition database_now :: "instant tx" where
  "database_now = (\<lambda>t. (Inr (tx_now t (tx_reads t)), t\<lparr>tx_reads := Suc (tx_reads t)\<rparr>))"

definition transaction_start :: "instant tx" where
  "transaction_start = (\<lambda>t. (Inr (tx_now t 0), t))"

definition from_store :: "(store \<Rightarrow> 'a) \<Rightarrow> 'a tx" where
  "from_store f = (\<lambda>t. (Inr (f (tx_store t)), t))"

definition write_store :: "(store \<Rightarrow> store) \<Rightarrow> unit tx" where
  "write_store f = (\<lambda>t.
     if unique_keys (f (tx_store t)) \<and> tx_accepts t (tx_store t) (f (tx_store t))
     then (Inr (), t\<lparr>tx_store := f (tx_store t)\<rparr>) else (Inl StatementRefused, t))"

definition codec :: "exn + 'a \<Rightarrow> 'a tx" where
  "codec r = wlift (case r of Inl e \<Rightarrow> Inl (LifecycleValueError e) | Inr x \<Rightarrow> Inr x)"

text \<open>A transaction from \<open>BEGIN\<close> to \<open>COMMIT\<close>, or to the exception that rolls it back.\<close>

definition transact :: "(store \<Rightarrow> store \<Rightarrow> bool) \<Rightarrow> (nat \<Rightarrow> instant) \<Rightarrow> 'a tx \<Rightarrow> store \<Rightarrow> (lifecycle_error + 'a) \<times> store" where
  "transact accepts now m st =
     (case m \<lparr>tx_store = st, tx_now = now, tx_reads = 1, tx_accepts = accepts\<rparr> of
        (Inl e, _) \<Rightarrow> (Inl e, st)
      | (Inr x, t) \<Rightarrow> (Inr x, tx_store t))"

section \<open>Statements\<close>

definition select_run_by_creation_operation :: "uuid \<Rightarrow> run_row option tx" where
  "select_run_by_creation_operation i = from_store (\<lambda>st. find (\<lambda>r. rnr_creation_operation_id r = i) (sto_runs st))"

definition select_run_by_request :: "uuid \<Rightarrow> run_row option tx" where
  "select_run_by_request i = from_store (\<lambda>st. find (\<lambda>r. rnr_request_id r = i) (sto_runs st))"

definition select_run_by_id :: "uuid \<Rightarrow> run_row option tx" where
  "select_run_by_id i = from_store (\<lambda>st. find (\<lambda>r. rnr_run_id r = i) (sto_runs st))"

definition select_attempt_by_start_operation :: "uuid \<Rightarrow> attempt_row option tx" where
  "select_attempt_by_start_operation i = from_store (\<lambda>st. find (\<lambda>a. atr_start_operation_id a = i) (sto_attempts st))"

definition select_attempt_by_cut_operation :: "uuid \<Rightarrow> attempt_row option tx" where
  "select_attempt_by_cut_operation i = from_store (\<lambda>st. find (\<lambda>a. atr_cut_operation_id a = Some i) (sto_attempts st))"

definition select_attempt_by_end_operation :: "uuid \<Rightarrow> attempt_row option tx" where
  "select_attempt_by_end_operation i = from_store (\<lambda>st. find (\<lambda>a. atr_end_operation_id a = Some i) (sto_attempts st))"

definition select_attempt_by_id :: "uuid \<Rightarrow> attempt_row option tx" where
  "select_attempt_by_id i = from_store (\<lambda>st. find (\<lambda>a. atr_attempt_id a = i) (sto_attempts st))"

definition select_attempts_of_run :: "uuid \<Rightarrow> attempt_row list tx" where
  "select_attempts_of_run i = from_store (\<lambda>st. sort_key atr_ordinal (filter (\<lambda>a. atr_run_id a = i) (sto_attempts st)))"

definition select_lease_renewal_receipt :: "uuid \<Rightarrow> renewal_row option tx" where
  "select_lease_renewal_receipt i = from_store (\<lambda>st. find (\<lambda>r. rwr_lease_operation_id r = i) (sto_renewals st))"

definition select_context_by_acquisition_operation :: "uuid \<Rightarrow> context_row option tx" where
  "select_context_by_acquisition_operation i =
     from_store (\<lambda>st. find (\<lambda>c. cxr_acquisition_operation_id c = i) (sto_contexts st))"

definition select_context_by_end_operation :: "uuid \<Rightarrow> context_row option tx" where
  "select_context_by_end_operation i = from_store (\<lambda>st. find (\<lambda>c. cxr_end_operation_id c = Some i) (sto_contexts st))"

definition select_context_by_id :: "uuid \<Rightarrow> context_row option tx" where
  "select_context_by_id i = from_store (\<lambda>st. find (\<lambda>c. cxr_read_context_id c = i) (sto_contexts st))"

text \<open>\<open>UPDATE\<close> of the rows that satisfy a condition; the number of rows it changed.\<close>

definition rows_updated :: "('r \<Rightarrow> bool) \<Rightarrow> ('r \<Rightarrow> 'r) \<Rightarrow> 'r list \<Rightarrow> 'r list" where
  "rows_updated p f rows = map (\<lambda>r. if p r then f r else r) rows"

definition update_attempts :: "(attempt_row \<Rightarrow> bool) \<Rightarrow> (attempt_row \<Rightarrow> attempt_row) \<Rightarrow> nat tx" where
  "update_attempts p f =
     wbind (from_store (\<lambda>st. length (filter p (sto_attempts st)))) (\<lambda>rowcount.
     wbind (write_store (\<lambda>st. st\<lparr>sto_attempts := rows_updated p f (sto_attempts st)\<rparr>)) (\<lambda>_.
     wreturn rowcount))"

definition update_runs :: "(run_row \<Rightarrow> bool) \<Rightarrow> (run_row \<Rightarrow> run_row) \<Rightarrow> nat tx" where
  "update_runs p f =
     wbind (from_store (\<lambda>st. length (filter p (sto_runs st)))) (\<lambda>rowcount.
     wbind (write_store (\<lambda>st. st\<lparr>sto_runs := rows_updated p f (sto_runs st)\<rparr>)) (\<lambda>_.
     wreturn rowcount))"

definition update_contexts :: "(context_row \<Rightarrow> bool) \<Rightarrow> (context_row \<Rightarrow> context_row) \<Rightarrow> nat tx" where
  "update_contexts p f =
     wbind (from_store (\<lambda>st. length (filter p (sto_contexts st)))) (\<lambda>rowcount.
     wbind (write_store (\<lambda>st. st\<lparr>sto_contexts := rows_updated p f (sto_contexts st)\<rparr>)) (\<lambda>_.
     wreturn rowcount))"

definition insert_run :: "run_row \<Rightarrow> unit tx" where
  "insert_run r = write_store (\<lambda>st. st\<lparr>sto_runs := sto_runs st @ [r]\<rparr>)"

definition insert_attempt :: "attempt_row \<Rightarrow> unit tx" where
  "insert_attempt a = write_store (\<lambda>st. st\<lparr>sto_attempts := sto_attempts st @ [a]\<rparr>)"

definition insert_renewal :: "renewal_row \<Rightarrow> unit tx" where
  "insert_renewal r = write_store (\<lambda>st. st\<lparr>sto_renewals := sto_renewals st @ [r]\<rparr>)"

definition insert_context :: "context_row \<Rightarrow> unit tx" where
  "insert_context c = write_store (\<lambda>st. st\<lparr>sto_contexts := sto_contexts st @ [c]\<rparr>)"

definition insert_observation :: "observation_row \<Rightarrow> unit tx" where
  "insert_observation b = write_store (\<lambda>st. st\<lparr>sto_observations := sto_observations st @ [b]\<rparr>)"

section \<open>Records\<close>

record claimed_run =
  clr_run_id :: uuid
  clr_creation_operation_id :: uuid
  clr_request :: run_request
  clr_created_at :: instant
  clr_bound_input_cut_digest :: "pystr option"
  clr_cut_binding_operation_id :: "uuid option"
  clr_selected_terminal_attempt_id :: "uuid option"
  clr_terminal_operation_id :: "uuid option"

definition require_optional_sha256 :: "pystr option \<Rightarrow> exn + unit" where
  "require_optional_sha256 d = (case d of None \<Rightarrow> Inr () | Some digest \<Rightarrow> require (is_sha256_hex digest) ValueError)"

definition mk_ClaimedRun :: "claimed_run \<Rightarrow> exn + claimed_run" where
  "mk_ClaimedRun r = ebind (require_optional_sha256 (clr_bound_input_cut_digest r)) (\<lambda>_. Inr r)"

record run_attempt =
  rar_attempt_id :: uuid
  rar_run :: claimed_run
  rar_ordinal :: int
  rar_start_operation_id :: uuid
  rar_status :: attempt_status
  rar_execution_budgets :: execution_budgets
  rar_owner_token :: uuid
  rar_lease_revision :: int
  rar_lease_operation_id :: "uuid option"
  rar_initial_lease_expires_at :: instant
  rar_lease_expires_at :: instant
  rar_started_at :: instant
  rar_input_cut_digest :: "pystr option"
  rar_end_operation_id :: "uuid option"

definition mk_RunAttemptRecord :: "run_attempt \<Rightarrow> exn + run_attempt" where
  "mk_RunAttemptRecord a =
     ebind (require (rar_ordinal a > 0) ValueError) (\<lambda>_.
     ebind (require (rar_lease_revision a \<ge> 0) ValueError) (\<lambda>_.
     ebind (require (\<not> (rar_lease_revision a = 0) \<noteq> (rar_lease_operation_id a = None)) ValueError) (\<lambda>_.
     ebind (require (\<not> rar_lease_expires_at a < rar_initial_lease_expires_at a) ValueError) (\<lambda>_.
     ebind (require_optional_sha256 (rar_input_cut_digest a)) (\<lambda>_.
     Inr a)))))"

record attempt_outcome =
  aor_run_id :: uuid
  aor_attempt_id :: uuid
  aor_status :: attempt_status
  aor_operation_id :: uuid
  aor_reason :: result_reason
  aor_ended_at :: instant

definition mk_AttemptOutcomeRecord :: "attempt_outcome \<Rightarrow> exn + attempt_outcome" where
  "mk_AttemptOutcomeRecord r =
     ebind (require (aor_status r \<in> {ATTEMPT_INCOMPLETE, ATTEMPT_ERROR, ATTEMPT_ABANDONED}) ValueError) (\<lambda>_. Inr r)"

record persisted_context =
  prc_read_context_id :: uuid
  prc_attempt_id :: uuid
  prc_acquisition_operation_id :: uuid
  prc_dataset_version_id :: uuid
  prc_direction :: plan_direction
  prc_state :: read_context_status
  prc_started_at :: instant
  prc_end_operation_id :: "uuid option"
  prc_ended_at :: "instant option"

end
