(* ===== verification/Run_Lifecycle.thy ===== *)
theory Run_Lifecycle
  imports Lifecycle_Store
begin

text \<open>
  Claiming a run, starting an attempt and renewing its lease, \<open>src/forensic_data/persistence/lifecycle.py\<close>: for
  each operation the transaction that performs it, which returns the stored receipt when the operation was
  already performed, and the lookup that reconciles it after a lost connection. The advisory locks, the
  validation of the schema version and the row locks make transactions on a run take turns; a transaction is
  one step here.
\<close>

section \<open>Claiming a run\<close>

record run_expectation =
  rex_candidate_run_id :: uuid
  rex_creation_operation_id :: uuid
  rex_request :: run_request
  rex_request_payload_json :: pystr
  rex_request_identity_digest :: pystr
  rex_scope_digest :: pystr

definition run_expectation_of :: "uuid \<Rightarrow> uuid \<Rightarrow> run_request \<Rightarrow> exn + run_expectation" where
  "run_expectation_of run_id creation_operation_id request =
     ebind (canonical_semantic_json (run_request_semantic_value request)) (\<lambda>request_payload_json.
     Inr \<lparr>rex_candidate_run_id = run_id, rex_creation_operation_id = creation_operation_id, rex_request = request,
       rex_request_payload_json = request_payload_json,
       rex_request_identity_digest = rq_request_identity_digest request,
       rex_scope_digest = rs_scope_digest (rq_scope request)\<rparr>)"

definition expectation_for_claimed_run :: "claimed_run \<Rightarrow> exn + run_expectation" where
  "expectation_for_claimed_run run =
     run_expectation_of (clr_run_id run) (clr_creation_operation_id run) (clr_request run)"

definition claimed_run_from_row :: "run_row \<Rightarrow> run_expectation \<Rightarrow> claimed_run tx" where
  "claimed_run_from_row row expected =
     (let request = rex_request expected;
          immutable_matches =
            (rnr_request_identity_digest row = rex_request_identity_digest expected \<and>
             rnr_request_payload row = rex_request_payload_json expected \<and>
             rnr_contract_version_id row = rq_contract_version_id request \<and>
             rnr_origin row = rq_origin request \<and>
             rnr_scope_digest row = rex_scope_digest expected) in
      wbind (wrequire (\<not> (rnr_request_id row \<noteq> rq_request_id request \<or> \<not> immutable_matches))
        (if rnr_request_id row = rq_request_id request then RunRequestConflictError
         else LifecycleOperationConflictError)) (\<lambda>_.
      codec (mk_ClaimedRun
        \<lparr>clr_run_id = rnr_run_id row, clr_creation_operation_id = rnr_creation_operation_id row,
         clr_request = request, clr_created_at = rnr_created_at row,
         clr_bound_input_cut_digest = rnr_bound_input_cut_digest row,
         clr_cut_binding_operation_id = rnr_cut_binding_operation_id row,
         clr_selected_terminal_attempt_id = rnr_selected_terminal_attempt_id row,
         clr_terminal_operation_id = rnr_terminal_operation_id row\<rparr>)))"

definition claim_run_once :: "run_expectation \<Rightarrow> claimed_run tx" where
  "claim_run_once expected =
     wbind (select_run_by_creation_operation (rex_creation_operation_id expected)) (\<lambda>operation_row.
     case operation_row of
       Some row \<Rightarrow> claimed_run_from_row row expected
     | None \<Rightarrow>
         wbind (select_run_by_request (rq_request_id (rex_request expected))) (\<lambda>request_row.
         case request_row of
           Some row \<Rightarrow> claimed_run_from_row row expected
         | None \<Rightarrow>
             wbind (select_run_by_id (rex_candidate_run_id expected)) (\<lambda>run_row.
             wbind (wrequire (\<not> run_row \<noteq> None) LifecycleOperationConflictError) (\<lambda>_.
             wbind transaction_start (\<lambda>created_at.
             wbind (insert_run
               \<lparr>rnr_run_id = rex_candidate_run_id expected,
                rnr_creation_operation_id = rex_creation_operation_id expected,
                rnr_request_id = rq_request_id (rex_request expected),
                rnr_request_identity_digest = rex_request_identity_digest expected,
                rnr_request_payload = rex_request_payload_json expected,
                rnr_contract_version_id = rq_contract_version_id (rex_request expected),
                rnr_origin = rq_origin (rex_request expected), rnr_scope_digest = rex_scope_digest expected,
                rnr_bound_input_cut_digest = None, rnr_bound_input_cut_payload = None,
                rnr_cut_binding_operation_id = None, rnr_cut_bound_at = None,
                rnr_selected_terminal_attempt_id = None, rnr_terminal_operation_id = None,
                rnr_terminal_at = None, rnr_created_at = created_at\<rparr>) (\<lambda>_.
             wbind (select_run_by_request (rq_request_id (rex_request expected))) (\<lambda>inserted.
             case inserted of
               None \<Rightarrow> wraise StoredLifecycleIntegrityError
             | Some row \<Rightarrow> claimed_run_from_row row expected)))))))"

definition lookup_claimed_run :: "run_expectation \<Rightarrow> claimed_run option tx" where
  "lookup_claimed_run expected =
     wbind (select_run_by_creation_operation (rex_creation_operation_id expected)) (\<lambda>operation_row.
     case operation_row of
       Some row \<Rightarrow> wbind (claimed_run_from_row row expected) (\<lambda>r. wreturn (Some r))
     | None \<Rightarrow>
         wbind (select_run_by_request (rq_request_id (rex_request expected))) (\<lambda>request_row.
         case request_row of
           Some row \<Rightarrow> wbind (claimed_run_from_row row expected) (\<lambda>r. wreturn (Some r))
         | None \<Rightarrow>
             wbind (select_run_by_id (rex_candidate_run_id expected)) (\<lambda>run_row.
             wbind (wrequire (\<not> run_row \<noteq> None) LifecycleOperationConflictError) (\<lambda>_.
             wreturn None))))"

section \<open>Starting an attempt\<close>

record attempt_expectation =
  aex_candidate_attempt_id :: uuid
  aex_start_operation_id :: uuid
  aex_run :: claimed_run
  aex_execution_budgets :: execution_budgets
  aex_execution_budgets_json :: pystr
  aex_owner_token :: uuid
  aex_lease_expires_at :: instant

definition execution_budgets_json :: "execution_budgets \<Rightarrow> exn + pystr" where
  "execution_budgets_json b = canonical_semantic_json (execution_policy_semantics b)"

definition attempt_expectation_of ::
  "claimed_run \<Rightarrow> uuid \<Rightarrow> uuid \<Rightarrow> uuid \<Rightarrow> instant \<Rightarrow> execution_budgets \<Rightarrow> exn + attempt_expectation" where
  "attempt_expectation_of run attempt_id start_operation_id owner_token lease_expires_at execution_budgets =
     ebind (require (\<not> execution_budgets \<noteq> rq_execution_policy (clr_request run)) ValueError) (\<lambda>_.
     ebind (execution_budgets_json execution_budgets) (\<lambda>json.
     Inr \<lparr>aex_candidate_attempt_id = attempt_id, aex_start_operation_id = start_operation_id, aex_run = run,
       aex_execution_budgets = execution_budgets, aex_execution_budgets_json = json,
       aex_owner_token = owner_token, aex_lease_expires_at = lease_expires_at\<rparr>))"

definition started_attempt_from_row :: "attempt_row \<Rightarrow> attempt_expectation \<Rightarrow> claimed_run \<Rightarrow> run_attempt tx" where
  "started_attempt_from_row row expected current_run =
     wbind (wrequire
       (atr_attempt_id row = aex_candidate_attempt_id expected \<and>
        atr_run_id row = clr_run_id (aex_run expected) \<and>
        atr_start_operation_id row = aex_start_operation_id expected \<and>
        atr_execution_budgets row = aex_execution_budgets_json expected \<and>
        atr_owner_token row = aex_owner_token expected \<and>
        atr_initial_lease_expires_at row = aex_lease_expires_at expected)
       LifecycleOperationConflictError) (\<lambda>_.
     codec (mk_RunAttemptRecord
       \<lparr>rar_attempt_id = aex_candidate_attempt_id expected, rar_run = current_run, rar_ordinal = atr_ordinal row,
        rar_start_operation_id = aex_start_operation_id expected, rar_status = atr_status row,
        rar_execution_budgets = aex_execution_budgets expected, rar_owner_token = aex_owner_token expected,
        rar_lease_revision = atr_lease_revision row, rar_lease_operation_id = atr_lease_operation_id row,
        rar_initial_lease_expires_at = aex_lease_expires_at expected,
        rar_lease_expires_at = atr_lease_expires_at row, rar_started_at = atr_started_at row,
        rar_input_cut_digest = atr_input_cut_digest row, rar_end_operation_id = atr_end_operation_id row\<rparr>))"

text \<open>\<open>_commit_fenced_result\<close>: the lease that admitted the mutation must not have expired.\<close>

definition commit_fenced_result :: "'a \<Rightarrow> instant \<Rightarrow> 'a tx" where
  "commit_fenced_result result pre_mutation_lease_expires_at =
     wbind database_now (\<lambda>now.
     wbind (wrequire (\<not> pre_mutation_lease_expires_at \<le> now) AttemptFenceError) (\<lambda>_.
     wreturn result))"

text \<open>The current state of a run that the caller has claimed, read again in the transaction.\<close>

definition current_claimed_run :: "claimed_run \<Rightarrow> lifecycle_error \<Rightarrow> claimed_run tx" where
  "current_claimed_run run missing =
     wbind (select_run_by_id (clr_run_id run)) (\<lambda>run_row.
     case run_row of
       None \<Rightarrow> wraise missing
     | Some row \<Rightarrow> wbind (codec (expectation_for_claimed_run run)) (claimed_run_from_row row))"

definition require_admissible :: "attempt_row list \<Rightarrow> attempt_expectation \<Rightarrow> unit tx" where
  "require_admissible attempt_rows expected =
     wbind (wrequire (\<not> list_ex (\<lambda>a. atr_status a = ATTEMPT_RUNNING) attempt_rows) ActiveRunAttemptError) (\<lambda>_.
     wbind (wrequire (\<not> list_ex (\<lambda>a. atr_owner_token a \<noteq> aex_owner_token expected) attempt_rows)
       RunInvocationContinuationError) (\<lambda>_.
     wrequire (\<not> int (length attempt_rows) \<ge>
       eb_max_attempts (rq_execution_policy (clr_request (aex_run expected)))) RunAttemptLimitError))"

definition start_attempt_once :: "attempt_expectation \<Rightarrow> run_attempt tx" where
  "start_attempt_once expected =
     wbind (current_claimed_run (aex_run expected) RunLifecycleStateError) (\<lambda>current_run.
     wbind (select_attempt_by_start_operation (aex_start_operation_id expected)) (\<lambda>operation_row.
     case operation_row of
       Some row \<Rightarrow> started_attempt_from_row row expected current_run
     | None \<Rightarrow>
         wbind (select_attempt_by_id (aex_candidate_attempt_id expected)) (\<lambda>candidate_row.
         wbind (wrequire (\<not> candidate_row \<noteq> None) LifecycleOperationConflictError) (\<lambda>_.
         wbind (wrequire (\<not> clr_selected_terminal_attempt_id current_run \<noteq> None) RunLifecycleStateError) (\<lambda>_.
         wbind (select_attempts_of_run (clr_run_id (aex_run expected))) (\<lambda>attempt_rows.
         wbind (require_admissible attempt_rows expected) (\<lambda>_.
         wbind database_now (\<lambda>now.
         wbind (wrequire (\<not> aex_lease_expires_at expected \<le> now) AttemptFenceError) (\<lambda>_.
         wbind transaction_start (\<lambda>started_at.
         wbind database_now (\<lambda>admission.
         wbind (wrequire (aex_lease_expires_at expected > admission) AttemptFenceError) (\<lambda>_.
         wbind (insert_attempt
           \<lparr>atr_attempt_id = aex_candidate_attempt_id expected, atr_run_id = clr_run_id (aex_run expected),
            atr_ordinal = int (length attempt_rows) + 1, atr_start_operation_id = aex_start_operation_id expected,
            atr_status = ATTEMPT_RUNNING, atr_execution_budgets = aex_execution_budgets_json expected,
            atr_owner_token = aex_owner_token expected, atr_lease_revision = 0, atr_lease_operation_id = None,
            atr_initial_lease_expires_at = aex_lease_expires_at expected,
            atr_lease_expires_at = aex_lease_expires_at expected, atr_input_cut_digest = None,
            atr_cut_operation_id = None, atr_cut_observed_at = None, atr_end_operation_id = None,
            atr_terminal_reason_code = None, atr_terminal_reason = None, atr_started_at = started_at,
            atr_ended_at = None\<rparr>) (\<lambda>_.
         wbind (select_attempt_by_start_operation (aex_start_operation_id expected)) (\<lambda>inserted.
         case inserted of
           None \<Rightarrow> wraise StoredLifecycleIntegrityError
         | Some row \<Rightarrow>
             wbind (started_attempt_from_row row expected current_run) (\<lambda>attempt.
             commit_fenced_result attempt (aex_lease_expires_at expected))))))))))))))))"

definition lookup_started_attempt :: "attempt_expectation \<Rightarrow> run_attempt option tx" where
  "lookup_started_attempt expected =
     wbind (select_attempt_by_start_operation (aex_start_operation_id expected)) (\<lambda>operation_row.
     case operation_row of
       Some row \<Rightarrow>
         wbind (current_claimed_run (aex_run expected) StoredLifecycleIntegrityError) (\<lambda>current_run.
         wbind (started_attempt_from_row row expected current_run) (\<lambda>attempt. wreturn (Some attempt)))
     | None \<Rightarrow>
         wbind (select_attempt_by_id (aex_candidate_attempt_id expected)) (\<lambda>candidate.
         wbind (wrequire (\<not> candidate \<noteq> None) LifecycleOperationConflictError) (\<lambda>_.
         wreturn None)))"

section \<open>Renewing the lease of an attempt\<close>

record renewal_expectation =
  lex_attempt :: run_attempt
  lex_operation_id :: uuid
  lex_lease_expires_at :: instant

definition renewal_expectation_of :: "run_attempt \<Rightarrow> uuid \<Rightarrow> instant \<Rightarrow> exn + renewal_expectation" where
  "renewal_expectation_of attempt operation_id lease_expires_at =
     ebind (require (\<not> lease_expires_at \<le> rar_lease_expires_at attempt) ValueError) (\<lambda>_.
     Inr \<lparr>lex_attempt = attempt, lex_operation_id = operation_id, lex_lease_expires_at = lease_expires_at\<rparr>)"

definition locked_attempt_of_run :: "run_attempt \<Rightarrow> lifecycle_error \<Rightarrow> attempt_row tx" where
  "locked_attempt_of_run attempt missing =
     wbind (select_attempt_by_id (rar_attempt_id attempt)) (\<lambda>row.
     case row of
       None \<Rightarrow> wraise missing
     | Some r \<Rightarrow>
         wbind (wrequire (\<not> atr_run_id r \<noteq> clr_run_id (rar_run attempt)) missing) (\<lambda>_. wreturn r))"

definition require_attempt_fence_row :: "attempt_row \<Rightarrow> run_attempt \<Rightarrow> unit tx" where
  "require_attempt_fence_row row expected =
     wbind (wrequire (\<not> atr_owner_token row \<noteq> rar_owner_token expected) AttemptFenceError) (\<lambda>_.
     wbind (wrequire (\<not> atr_lease_revision row \<noteq> rar_lease_revision expected) AttemptFenceError) (\<lambda>_.
     wbind (wrequire (\<not> atr_status row \<noteq> ATTEMPT_RUNNING) AttemptFenceError) (\<lambda>_.
     wbind database_now (\<lambda>now.
     wrequire (\<not> atr_lease_expires_at row \<le> now) AttemptFenceError))))"

text \<open>The condition of the compare-and-set updates of an attempt, at one reading of the clock.\<close>

definition fence_holds :: "run_attempt \<Rightarrow> instant \<Rightarrow> attempt_row \<Rightarrow> bool" where
  "fence_holds expected now a \<longleftrightarrow>
     atr_run_id a = clr_run_id (rar_run expected) \<and> atr_attempt_id a = rar_attempt_id expected \<and>
     atr_owner_token a = rar_owner_token expected \<and> atr_lease_revision a = rar_lease_revision expected \<and>
     atr_status a = ATTEMPT_RUNNING \<and> atr_lease_expires_at a > now"

definition renewed_attempt_from_receipt :: "renewal_row \<Rightarrow> renewal_expectation \<Rightarrow> run_attempt tx" where
  "renewed_attempt_from_receipt receipt expected =
     (let attempt = lex_attempt expected; requested_revision = rar_lease_revision attempt + 1 in
      wbind (wrequire (\<not> receipt \<noteq>
        \<lparr>rwr_lease_operation_id = lex_operation_id expected, rwr_run_id = clr_run_id (rar_run attempt),
         rwr_attempt_id = rar_attempt_id attempt, rwr_owner_token = rar_owner_token attempt,
         rwr_expected_lease_revision = rar_lease_revision attempt,
         rwr_requested_lease_expires_at = lex_lease_expires_at expected,
         rwr_resulting_lease_revision = requested_revision\<rparr>) LifecycleOperationConflictError) (\<lambda>_.
      wbind (select_attempt_by_id (rar_attempt_id attempt)) (\<lambda>attempt_row.
      case attempt_row of
        None \<Rightarrow> wraise StoredLifecycleIntegrityError
      | Some row \<Rightarrow>
          wbind (codec (execution_budgets_json (rar_execution_budgets attempt))) (\<lambda>budgets_json.
          wbind (wrequire
            (atr_run_id row = clr_run_id (rar_run attempt) \<and>
             atr_start_operation_id row = rar_start_operation_id attempt \<and>
             atr_execution_budgets row = budgets_json \<and>
             atr_owner_token row = rar_owner_token attempt \<and>
             atr_initial_lease_expires_at row = rar_initial_lease_expires_at attempt)
            StoredLifecycleIntegrityError) (\<lambda>_.
          wbind (current_claimed_run (rar_run attempt) StoredLifecycleIntegrityError) (\<lambda>current_run.
          wbind (wrequire (\<not> atr_lease_revision row < requested_revision) StoredLifecycleIntegrityError) (\<lambda>_.
          wbind (wrequire (\<not> atr_lease_expires_at row < lex_lease_expires_at expected)
            StoredLifecycleIntegrityError) (\<lambda>_.
          wbind (wrequire (\<not> (atr_lease_revision row = requested_revision \<and>
              (atr_lease_operation_id row \<noteq> Some (lex_operation_id expected) \<or>
               atr_lease_expires_at row \<noteq> lex_lease_expires_at expected))) StoredLifecycleIntegrityError) (\<lambda>_.
          codec (mk_RunAttemptRecord
            \<lparr>rar_attempt_id = rar_attempt_id attempt, rar_run = current_run, rar_ordinal = atr_ordinal row,
             rar_start_operation_id = atr_start_operation_id row, rar_status = atr_status row,
             rar_execution_budgets = rar_execution_budgets attempt, rar_owner_token = rar_owner_token attempt,
             rar_lease_revision = atr_lease_revision row, rar_lease_operation_id = atr_lease_operation_id row,
             rar_initial_lease_expires_at = atr_initial_lease_expires_at row,
             rar_lease_expires_at = atr_lease_expires_at row, rar_started_at = atr_started_at row,
             rar_input_cut_digest = atr_input_cut_digest row,
             rar_end_operation_id = atr_end_operation_id row\<rparr>))))))))))"

definition renew_attempt_once :: "renewal_expectation \<Rightarrow> run_attempt tx" where
  "renew_attempt_once expected =
     (let attempt = lex_attempt expected in
      wbind (current_claimed_run (rar_run attempt) AttemptFenceError) (\<lambda>_.
      wbind (locked_attempt_of_run attempt AttemptFenceError) (\<lambda>row.
      wbind (select_lease_renewal_receipt (lex_operation_id expected)) (\<lambda>receipt.
      case receipt of
        Some r \<Rightarrow> renewed_attempt_from_receipt r expected
      | None \<Rightarrow>
          wbind (require_attempt_fence_row row attempt) (\<lambda>_.
          wbind (wrequire (\<not> lex_lease_expires_at expected \<le> atr_lease_expires_at row) AttemptFenceError) (\<lambda>_.
          wbind database_now (\<lambda>now.
          wbind (update_attempts (fence_holds attempt now)
            (\<lambda>a. a\<lparr>atr_lease_revision := atr_lease_revision a + 1,
               atr_lease_operation_id := Some (lex_operation_id expected),
               atr_lease_expires_at := lex_lease_expires_at expected\<rparr>)) (\<lambda>rowcount.
          wbind (wrequire (\<not> rowcount \<noteq> 1) AttemptFenceError) (\<lambda>_.
          wbind (insert_renewal
            \<lparr>rwr_lease_operation_id = lex_operation_id expected, rwr_run_id = clr_run_id (rar_run attempt),
             rwr_attempt_id = rar_attempt_id attempt, rwr_owner_token = rar_owner_token attempt,
             rwr_expected_lease_revision = rar_lease_revision attempt,
             rwr_requested_lease_expires_at = lex_lease_expires_at expected,
             rwr_resulting_lease_revision = rar_lease_revision attempt + 1\<rparr>) (\<lambda>_.
          wbind (select_lease_renewal_receipt (lex_operation_id expected)) (\<lambda>inserted.
          case inserted of
            None \<Rightarrow> wraise StoredLifecycleIntegrityError
          | Some r \<Rightarrow>
              wbind (renewed_attempt_from_receipt r expected) (\<lambda>result.
              commit_fenced_result result (atr_lease_expires_at row)))))))))))))"

definition lookup_renewed_attempt :: "renewal_expectation \<Rightarrow> run_attempt option tx" where
  "lookup_renewed_attempt expected =
     wbind (select_lease_renewal_receipt (lex_operation_id expected)) (\<lambda>receipt.
     case receipt of
       None \<Rightarrow> wreturn None
     | Some r \<Rightarrow> wbind (renewed_attempt_from_receipt r expected) (\<lambda>attempt. wreturn (Some attempt)))"

end
