(* ===== verification/Attempt_Outcomes.thy ===== *)
theory Attempt_Outcomes
  imports Run_Lifecycle Evidence
begin

text \<open>
  Read contexts of an attempt and the ways an attempt ends without a result,
  \<open>src/forensic_data/persistence/lifecycle.py\<close>: persisting an acquired context, closing or losing it, the
  retryable and the terminal outcome of an attempt, and the abandonment of an attempt whose lease expired.
  What a live protected context says of itself (its evidence, its identity, whether it is still active) is a
  record here; the closure evidence of ClickHouse contexts is not modelled, so none is ever stored.
\<close>

section \<open>Persisting a read context\<close>

record context_definition =
  cxd_read_context_id :: uuid
  cxd_acquisition_operation_id :: uuid
  cxd_dataset_version_id :: uuid
  cxd_dataset_id :: pystr
  cxd_direction :: plan_direction
  cxd_engine :: pystr
  cxd_driver_version :: pystr
  cxd_server_version :: pystr
  cxd_server_version_number :: int
  cxd_strategy :: pystr
  cxd_snapshot_locator :: "pystr option"
  cxd_backend_process_id :: "int option"
  cxd_allowed_concurrency :: int
  cxd_limitations_json :: pystr
  cxd_acquisition_evidence_json :: pystr
  cxd_started_at :: instant
  cxd_active :: bool

record context_expectation =
  cex_attempt :: run_attempt
  cex_definition :: context_definition

text \<open>The row of a context that has just been acquired.\<close>

definition acquired_context_row :: "context_expectation \<Rightarrow> context_row" where
  "acquired_context_row expected =
     (let d = cex_definition expected; attempt = cex_attempt expected in
      \<lparr>cxr_read_context_id = cxd_read_context_id d, cxr_run_id = clr_run_id (rar_run attempt),
       cxr_attempt_id = rar_attempt_id attempt, cxr_dataset_version_id = cxd_dataset_version_id d,
       cxr_direction = cxd_direction d, cxr_acquisition_operation_id = cxd_acquisition_operation_id d,
       cxr_scope_digest = rs_scope_digest (rq_scope (clr_request (rar_run attempt))),
       cxr_engine = cxd_engine d, cxr_driver_version = cxd_driver_version d,
       cxr_server_version = cxd_server_version d, cxr_server_version_number = cxd_server_version_number d,
       cxr_strategy = cxd_strategy d, cxr_snapshot_locator = cxd_snapshot_locator d,
       cxr_backend_process_id = cxd_backend_process_id d, cxr_allowed_concurrency = cxd_allowed_concurrency d,
       cxr_limitations = cxd_limitations_json d, cxr_acquisition_evidence = cxd_acquisition_evidence_json d,
       cxr_started_at = cxd_started_at d, cxr_state = READ_CONTEXT_ACTIVE, cxr_end_operation_id = None,
       cxr_ended_at = None\<rparr>)"

definition CLICKHOUSE_ENGINE :: pystr where
  "CLICKHOUSE_ENGINE = asc ''clickhouse''"

text \<open>\<open>_validate_stored_clickhouse_closure\<close> on a row without closure evidence.\<close>

definition validate_stored_clickhouse_closure :: "context_row \<Rightarrow> unit tx" where
  "validate_stored_clickhouse_closure row =
     wrequire (\<not> (cxr_engine row = CLICKHOUSE_ENGINE \<and> cxr_state row = READ_CONTEXT_CLOSED))
       StoredLifecycleIntegrityError"

definition persisted_context_of :: "context_row \<Rightarrow> persisted_context" where
  "persisted_context_of row =
     \<lparr>prc_read_context_id = cxr_read_context_id row, prc_attempt_id = cxr_attempt_id row,
      prc_acquisition_operation_id = cxr_acquisition_operation_id row,
      prc_dataset_version_id = cxr_dataset_version_id row, prc_direction = cxr_direction row,
      prc_state = cxr_state row, prc_started_at = cxr_started_at row,
      prc_end_operation_id = cxr_end_operation_id row, prc_ended_at = cxr_ended_at row\<rparr>"

definition persisted_context_from_row :: "context_row \<Rightarrow> context_expectation \<Rightarrow> persisted_context tx" where
  "persisted_context_from_row row expected =
     wbind (validate_stored_clickhouse_closure row) (\<lambda>_.
     wbind (wrequire
       (row\<lparr>cxr_state := READ_CONTEXT_ACTIVE, cxr_end_operation_id := None, cxr_ended_at := None\<rparr> =
        acquired_context_row expected) LifecycleOperationConflictError) (\<lambda>_.
     wreturn (persisted_context_of row)))"

definition expected_batch_of :: "run_request \<Rightarrow> plan_direction \<Rightarrow> expected_batch tx" where
  "expected_batch_of request direction =
     (let expected = rq_expected_batches request ! (if direction = DIRECTION_REFERENCE then 0 else 1) in
      wbind (wrequire (\<not> xb_direction expected \<noteq> direction) (LifecycleValueError ValueError)) (\<lambda>_.
      wreturn expected))"

definition require_dataset_closure :: "claimed_run \<Rightarrow> uuid \<Rightarrow> pystr \<Rightarrow> plan_direction \<Rightarrow> unit tx" where
  "require_dataset_closure run dataset_version_id dataset_id direction =
     wbind (from_store (\<lambda>st. find (\<lambda>c. ctr_contract_version_id c = rq_contract_version_id (clr_request run))
       (sto_contracts st))) (\<lambda>contract.
     case contract of
       None \<Rightarrow> wraise StoredLifecycleIntegrityError
     | Some c \<Rightarrow>
         wbind (wrequire (\<not>
           (if direction = DIRECTION_REFERENCE then ctr_reference_dataset_version_id c
            else ctr_target_dataset_version_id c) \<noteq> dataset_version_id) RunLifecycleStateError) (\<lambda>_.
         wbind (expected_batch_of (clr_request run) direction) (\<lambda>batch.
         wrequire (\<not> dataset_id \<noteq> xb_dataset_id batch) RunLifecycleStateError)))"

definition persist_context_once :: "context_expectation \<Rightarrow> persisted_context tx" where
  "persist_context_once expected =
     (let attempt = cex_attempt expected; d = cex_definition expected in
      wbind (current_claimed_run (rar_run attempt) AttemptFenceError) (\<lambda>_.
      wbind (locked_attempt_of_run attempt AttemptFenceError) (\<lambda>attempt_row.
      wbind (select_context_by_acquisition_operation (cxd_acquisition_operation_id d)) (\<lambda>operation_row.
      case operation_row of
        Some row \<Rightarrow> persisted_context_from_row row expected
      | None \<Rightarrow>
          wbind (select_context_by_id (cxd_read_context_id d)) (\<lambda>context_row.
          wbind (wrequire (\<not> context_row \<noteq> None) LifecycleOperationConflictError) (\<lambda>_.
          wbind (wrequire (cxd_active d) RunLifecycleStateError) (\<lambda>_.
          wbind (require_attempt_fence_row attempt_row attempt) (\<lambda>_.
          wbind (require_dataset_closure (rar_run attempt) (cxd_dataset_version_id d) (cxd_dataset_id d)
            (cxd_direction d)) (\<lambda>_.
          wbind database_now (\<lambda>now.
          wbind (from_store (\<lambda>st. list_ex (fence_holds attempt now) (sto_attempts st))) (\<lambda>fenced.
          wbind (wrequire fenced AttemptFenceError) (\<lambda>_.
          wbind (insert_context (acquired_context_row expected)) (\<lambda>_.
          wbind (select_context_by_acquisition_operation (cxd_acquisition_operation_id d)) (\<lambda>inserted.
          case inserted of
            None \<Rightarrow> wraise StoredLifecycleIntegrityError
          | Some row \<Rightarrow>
              wbind (persisted_context_from_row row expected) (\<lambda>result.
              commit_fenced_result result (atr_lease_expires_at attempt_row))))))))))))))))"

definition lookup_persisted_context :: "context_expectation \<Rightarrow> persisted_context option tx" where
  "lookup_persisted_context expected =
     wbind (select_context_by_acquisition_operation (cxd_acquisition_operation_id (cex_definition expected)))
       (\<lambda>operation_row.
     case operation_row of
       Some row \<Rightarrow> wbind (persisted_context_from_row row expected) (\<lambda>c. wreturn (Some c))
     | None \<Rightarrow>
         wbind (select_context_by_id (cxd_read_context_id (cex_definition expected))) (\<lambda>candidate.
         wbind (wrequire (\<not> candidate \<noteq> None) LifecycleOperationConflictError) (\<lambda>_.
         wreturn None)))"

section \<open>Closing or losing a read context\<close>

record context_end =
  cxe_attempt :: run_attempt
  cxe_read_context_id :: uuid
  cxe_end_operation_id :: uuid
  cxe_ended_at :: instant
  cxe_target_state :: read_context_status

definition require_generic_context_end_supported :: "context_row \<Rightarrow> read_context_status \<Rightarrow> unit tx" where
  "require_generic_context_end_supported row target_state =
     wrequire (\<not> (target_state = READ_CONTEXT_CLOSED \<and> cxr_engine row = CLICKHOUSE_ENGINE)) RunLifecycleStateError"

definition require_finished_context :: "context_row \<Rightarrow> context_end \<Rightarrow> persisted_context tx" where
  "require_finished_context row expected =
     wbind (validate_stored_clickhouse_closure row) (\<lambda>_.
     wbind (wrequire
       (cxr_read_context_id row = cxe_read_context_id expected \<and>
        cxr_run_id row = clr_run_id (rar_run (cxe_attempt expected)) \<and>
        cxr_attempt_id row = rar_attempt_id (cxe_attempt expected) \<and>
        cxr_state row = cxe_target_state expected \<and>
        cxr_end_operation_id row = Some (cxe_end_operation_id expected) \<and>
        cxr_ended_at row = Some (cxe_ended_at expected)) LifecycleOperationConflictError) (\<lambda>_.
     wreturn (persisted_context_of row)))"

definition begin_context_end_transaction :: "context_end \<Rightarrow> (context_row option \<times> attempt_row) tx" where
  "begin_context_end_transaction expected =
     wbind (current_claimed_run (rar_run (cxe_attempt expected)) AttemptFenceError) (\<lambda>_.
     wbind (locked_attempt_of_run (cxe_attempt expected) AttemptFenceError) (\<lambda>attempt_row.
     wbind (select_context_by_end_operation (cxe_end_operation_id expected)) (\<lambda>operation_row.
     wreturn (operation_row, attempt_row))))"

definition prepare_new_context_end :: "context_end \<Rightarrow> attempt_row \<Rightarrow> context_row tx" where
  "prepare_new_context_end expected attempt_row =
     wbind (require_attempt_fence_row attempt_row (cxe_attempt expected)) (\<lambda>_.
     wbind (select_context_by_id (cxe_read_context_id expected)) (\<lambda>context_row.
     case context_row of
       None \<Rightarrow> wraise RunLifecycleStateError
     | Some row \<Rightarrow>
         wbind (wrequire (\<not> (cxr_run_id row \<noteq> clr_run_id (rar_run (cxe_attempt expected)) \<or>
             cxr_attempt_id row \<noteq> rar_attempt_id (cxe_attempt expected))) RunLifecycleStateError) (\<lambda>_.
         wbind (wrequire (\<not> cxr_state row \<noteq> READ_CONTEXT_ACTIVE) RunLifecycleStateError) (\<lambda>_.
         wreturn row))))"

definition finish_context_once :: "context_end \<Rightarrow> persisted_context tx" where
  "finish_context_once expected =
     wbind (begin_context_end_transaction expected) (\<lambda>(operation_row, attempt_row).
     case operation_row of
       Some row \<Rightarrow>
         wbind (require_generic_context_end_supported row (cxe_target_state expected)) (\<lambda>_.
         require_finished_context row expected)
     | None \<Rightarrow>
         wbind (prepare_new_context_end expected attempt_row) (\<lambda>context_row.
         wbind (require_generic_context_end_supported context_row (cxe_target_state expected)) (\<lambda>_.
         wbind database_now (\<lambda>now.
         wbind (from_store (\<lambda>st. list_ex (fence_holds (cxe_attempt expected) now) (sto_attempts st))) (\<lambda>fenced.
         wbind (update_contexts
           (\<lambda>c. cxr_read_context_id c = cxe_read_context_id expected \<and> cxr_state c = READ_CONTEXT_ACTIVE \<and> fenced)
           (\<lambda>c. c\<lparr>cxr_state := cxe_target_state expected, cxr_end_operation_id := Some (cxe_end_operation_id expected),
              cxr_ended_at := Some (cxe_ended_at expected)\<rparr>)) (\<lambda>rowcount.
         wbind (wrequire (\<not> rowcount \<noteq> 1) AttemptFenceError) (\<lambda>_.
         wbind (select_context_by_end_operation (cxe_end_operation_id expected)) (\<lambda>updated.
         case updated of
           None \<Rightarrow> wraise StoredLifecycleIntegrityError
         | Some row \<Rightarrow>
             wbind (require_finished_context row expected) (\<lambda>result.
             commit_fenced_result result (atr_lease_expires_at attempt_row))))))))))"

definition lookup_finished_context :: "context_end \<Rightarrow> persisted_context option tx" where
  "lookup_finished_context expected =
     wbind (select_context_by_end_operation (cxe_end_operation_id expected)) (\<lambda>operation_row.
     case operation_row of
       None \<Rightarrow> wreturn None
     | Some row \<Rightarrow>
         wbind (require_generic_context_end_supported row (cxe_target_state expected)) (\<lambda>_.
         wbind (require_finished_context row expected) (\<lambda>c. wreturn (Some c))))"

section \<open>Outcomes\<close>

record outcome_expectation =
  oex_attempt :: run_attempt
  oex_operation_id :: uuid
  oex_status :: attempt_status
  oex_reason :: result_reason
  oex_reason_json :: pystr
  oex_ended_at :: instant

definition reason_semantics :: "result_reason \<Rightarrow> jval" where
  "reason_semantics r = JObj
     [(asc ''message'', JStr (rr_message r)),
      (asc ''native_error_code'', optional_json JStr (rr_native_error_code r)),
      (asc ''operation'', JStr (rr_operation r)),
      (asc ''query_id'', optional_json JStr (rr_query_id r)),
      (asc ''reason_version'', JInt 1),
      (asc ''redacted_response'', optional_json JStr (rr_redacted_response r)),
      (asc ''safe_parameters'', JArr (map (\<lambda>p. JObj
         [(asc ''name'', JStr (sp_name p)), (asc ''value'', JStr (sp_value p))]) (rr_safe_parameters r)))]"

definition incomplete_reason_codes :: "reason_code list" where
  "incomplete_reason_codes =
     [NOT_READY, CUT_MISMATCH, SNAPSHOT_LOST, BUDGET_EXHAUSTED, CANCELLED, CANCELLATION_UNCONFIRMED, OVERSIZED_RECORD]"

definition error_reason_codes :: "reason_code list" where
  "error_reason_codes =
     [INVALID_CONTRACT, UNSUPPORTED_CAPABILITY, LOSSY_TRANSPORT, QUERY_ERROR, PERSISTENCE_ERROR, COMMIT_UNKNOWN_REASON,
      PROTOCOL_VIOLATION]"

definition validate_incomplete_reason :: "result_reason \<Rightarrow> exn + unit" where
  "validate_incomplete_reason reason = require (rr_code reason \<in> set incomplete_reason_codes) ValueError"

definition validate_error_reason :: "result_reason \<Rightarrow> exn + unit" where
  "validate_error_reason reason = require (rr_code reason \<in> set error_reason_codes) ValueError"

definition outcome_expectation_of ::
  "attempt_status \<Rightarrow> run_attempt \<Rightarrow> uuid \<Rightarrow> result_reason \<Rightarrow> instant \<Rightarrow> exn + outcome_expectation" where
  "outcome_expectation_of status attempt operation_id reason ended_at =
     ebind (canonical_semantic_json (reason_semantics reason)) (\<lambda>reason_json.
     Inr \<lparr>oex_attempt = attempt, oex_operation_id = operation_id, oex_status = status, oex_reason = reason,
       oex_reason_json = reason_json, oex_ended_at = ended_at\<rparr>)"

definition incomplete_outcome_expectation ::
  "run_attempt \<Rightarrow> uuid \<Rightarrow> result_reason \<Rightarrow> instant \<Rightarrow> exn + outcome_expectation" where
  "incomplete_outcome_expectation attempt operation_id reason ended_at =
     ebind (validate_incomplete_reason reason) (\<lambda>_.
     outcome_expectation_of ATTEMPT_INCOMPLETE attempt operation_id reason ended_at)"

definition error_outcome_expectation ::
  "run_attempt \<Rightarrow> uuid \<Rightarrow> result_reason \<Rightarrow> instant \<Rightarrow> exn + outcome_expectation" where
  "error_outcome_expectation attempt operation_id reason ended_at =
     ebind (validate_error_reason reason) (\<lambda>_.
     outcome_expectation_of ATTEMPT_ERROR attempt operation_id reason ended_at)"

definition abandoned_outcome_expectation ::
  "run_attempt \<Rightarrow> uuid \<Rightarrow> result_reason \<Rightarrow> instant \<Rightarrow> exn + outcome_expectation" where
  "abandoned_outcome_expectation attempt operation_id reason abandoned_at =
     ebind (require (\<not> rr_code reason \<noteq> SNAPSHOT_LOST) ValueError) (\<lambda>_.
     outcome_expectation_of ATTEMPT_ABANDONED attempt operation_id reason abandoned_at)"

definition outcome_receipt_from_database :: "outcome_expectation \<Rightarrow> attempt_outcome tx" where
  "outcome_receipt_from_database expected =
     wbind (select_attempt_by_end_operation (oex_operation_id expected)) (\<lambda>operation_row.
     case operation_row of
       None \<Rightarrow> wraise StoredLifecycleIntegrityError
     | Some row \<Rightarrow>
         wbind (wrequire
           (atr_attempt_id row = rar_attempt_id (oex_attempt expected) \<and>
            atr_run_id row = clr_run_id (rar_run (oex_attempt expected)) \<and>
            atr_status row = oex_status expected \<and>
            atr_end_operation_id row = Some (oex_operation_id expected) \<and>
            atr_terminal_reason_code row = Some (rr_code (oex_reason expected)) \<and>
            atr_terminal_reason row = Some (oex_reason_json expected) \<and>
            atr_ended_at row = Some (oex_ended_at expected)) LifecycleOperationConflictError) (\<lambda>_.
         codec (mk_AttemptOutcomeRecord
           \<lparr>aor_run_id = clr_run_id (rar_run (oex_attempt expected)),
            aor_attempt_id = rar_attempt_id (oex_attempt expected), aor_status = oex_status expected,
            aor_operation_id = oex_operation_id expected, aor_reason = oex_reason expected,
            aor_ended_at = oex_ended_at expected\<rparr>)))"

definition retryable_outcome_from_database :: "outcome_expectation \<Rightarrow> attempt_outcome tx" where
  "retryable_outcome_from_database expected =
     wbind (outcome_receipt_from_database expected) (\<lambda>result.
     wbind (select_run_by_id (clr_run_id (rar_run (oex_attempt expected)))) (\<lambda>run_row.
     case run_row of
       None \<Rightarrow> wraise StoredLifecycleIntegrityError
     | Some row \<Rightarrow>
         wbind (wrequire (\<not> rnr_terminal_operation_id row = Some (oex_operation_id expected))
           LifecycleOperationConflictError) (\<lambda>_.
         wreturn result)))"

definition terminal_outcome_from_database :: "outcome_expectation \<Rightarrow> attempt_outcome tx" where
  "terminal_outcome_from_database expected =
     wbind (outcome_receipt_from_database expected) (\<lambda>result.
     wbind (select_run_by_id (clr_run_id (rar_run (oex_attempt expected)))) (\<lambda>run_row.
     case run_row of
       None \<Rightarrow> wraise StoredLifecycleIntegrityError
     | Some row \<Rightarrow>
         wbind (wrequire (\<not>
           (rnr_selected_terminal_attempt_id row \<noteq> Some (rar_attempt_id (oex_attempt expected)) \<or>
            rnr_terminal_operation_id row \<noteq> Some (oex_operation_id expected) \<or>
            rnr_terminal_at row \<noteq> Some (oex_ended_at expected))) LifecycleOperationConflictError) (\<lambda>_.
         wreturn result)))"

definition require_stored_attempt_closure :: "uuid \<Rightarrow> uuid \<Rightarrow> unit tx" where
  "require_stored_attempt_closure run_id attempt_id =
     wbind (from_store (\<lambda>st. length (filter (\<lambda>c. cxr_run_id c = run_id \<and> cxr_attempt_id c = attempt_id \<and>
       cxr_state c = READ_CONTEXT_ACTIVE) (sto_contexts st)))) (\<lambda>active_count.
     wbind (wrequire (\<not> active_count \<noteq> 0) RunLifecycleStateError) (\<lambda>_.
     wbind (from_store (\<lambda>st. find (\<lambda>a. atr_run_id a = run_id \<and> atr_attempt_id a = attempt_id) (sto_attempts st))) (\<lambda>row.
     case row of
       None \<Rightarrow> wraise StoredLifecycleIntegrityError
     | Some a \<Rightarrow>
         wbind (from_store (\<lambda>st. length (filter (\<lambda>b. obr_run_id b = run_id \<and> obr_attempt_id b = attempt_id)
           (sto_observations st)))) (\<lambda>observation_count.
         case atr_input_cut_digest a of
           None \<Rightarrow> wrequire (\<not> observation_count \<noteq> 0) StoredLifecycleIntegrityError
         | Some cut_digest \<Rightarrow>
             wbind (wrequire (\<not> observation_count \<noteq> 2) StoredLifecycleIntegrityError) (\<lambda>_.
             wbind (select_run_by_id run_id) (\<lambda>run_row.
             wrequire (\<not> (case run_row of None \<Rightarrow> True
               | Some r \<Rightarrow> rnr_bound_input_cut_digest r \<noteq> Some cut_digest)) StoredLifecycleIntegrityError))))))"

definition require_attempt_closure_for_end :: "run_attempt \<Rightarrow> unit tx" where
  "require_attempt_closure_for_end attempt =
     require_stored_attempt_closure (clr_run_id (rar_run attempt)) (rar_attempt_id attempt)"

text \<open>The update that ends an attempt.\<close>

definition ended_attempt :: "outcome_expectation \<Rightarrow> attempt_row \<Rightarrow> attempt_row" where
  "ended_attempt expected a =
     a\<lparr>atr_status := oex_status expected, atr_end_operation_id := Some (oex_operation_id expected),
       atr_terminal_reason_code := Some (rr_code (oex_reason expected)),
       atr_terminal_reason := Some (oex_reason_json expected), atr_ended_at := Some (oex_ended_at expected)\<rparr>"

definition persist_retryable_outcome_once :: "outcome_expectation \<Rightarrow> attempt_outcome tx" where
  "persist_retryable_outcome_once expected =
     (let attempt = oex_attempt expected in
      wbind (current_claimed_run (rar_run attempt) RunLifecycleStateError) (\<lambda>run.
      wbind (locked_attempt_of_run attempt AttemptFenceError) (\<lambda>attempt_row.
      wbind (select_attempt_by_end_operation (oex_operation_id expected)) (\<lambda>operation_row.
      if operation_row \<noteq> None then retryable_outcome_from_database expected
      else
        wbind (require_attempt_fence_row attempt_row attempt) (\<lambda>_.
        wbind (wrequire (\<not> clr_selected_terminal_attempt_id run \<noteq> None) RunLifecycleStateError) (\<lambda>_.
        wbind (require_attempt_closure_for_end attempt) (\<lambda>_.
        wbind database_now (\<lambda>now.
        wbind (update_attempts (fence_holds attempt now) (ended_attempt expected)) (\<lambda>rowcount.
        wbind (wrequire (\<not> rowcount \<noteq> 1) AttemptFenceError) (\<lambda>_.
        wbind (retryable_outcome_from_database expected) (\<lambda>result.
        commit_fenced_result result (atr_lease_expires_at attempt_row))))))))))))"

definition publish_terminal_outcome_once :: "outcome_expectation \<Rightarrow> attempt_outcome tx" where
  "publish_terminal_outcome_once expected =
     (let attempt = oex_attempt expected in
      wbind (current_claimed_run (rar_run attempt) RunLifecycleStateError) (\<lambda>run.
      wbind (locked_attempt_of_run attempt AttemptFenceError) (\<lambda>attempt_row.
      wbind (select_attempt_by_end_operation (oex_operation_id expected)) (\<lambda>operation_row.
      if operation_row \<noteq> None then terminal_outcome_from_database expected
      else
        wbind (require_attempt_fence_row attempt_row attempt) (\<lambda>_.
        wbind (wrequire (\<not> clr_selected_terminal_attempt_id run \<noteq> None) RunLifecycleStateError) (\<lambda>_.
        wbind (require_attempt_closure_for_end attempt) (\<lambda>_.
        wbind database_now (\<lambda>now.
        wbind (update_attempts (fence_holds attempt now) (ended_attempt expected)) (\<lambda>rowcount.
        wbind (wrequire (\<not> rowcount \<noteq> 1) AttemptFenceError) (\<lambda>_.
        wbind (update_runs
          (\<lambda>r. rnr_run_id r = clr_run_id (rar_run attempt) \<and> rnr_selected_terminal_attempt_id r = None)
          (\<lambda>r. r\<lparr>rnr_selected_terminal_attempt_id := Some (rar_attempt_id attempt),
             rnr_terminal_operation_id := Some (oex_operation_id expected),
             rnr_terminal_at := Some (oex_ended_at expected)\<rparr>)) (\<lambda>published.
        wbind (wrequire (\<not> published \<noteq> 1) RunLifecycleStateError) (\<lambda>_.
        wbind (terminal_outcome_from_database expected) (\<lambda>result.
        commit_fenced_result result (atr_lease_expires_at attempt_row))))))))))))))"

definition lookup_retryable_attempt_outcome :: "outcome_expectation \<Rightarrow> attempt_outcome option tx" where
  "lookup_retryable_attempt_outcome expected =
     wbind (select_attempt_by_end_operation (oex_operation_id expected)) (\<lambda>row.
     if row = None then wreturn None
     else wbind (retryable_outcome_from_database expected) (\<lambda>r. wreturn (Some r)))"

definition lookup_terminal_attempt_outcome :: "outcome_expectation \<Rightarrow> attempt_outcome option tx" where
  "lookup_terminal_attempt_outcome expected =
     wbind (select_attempt_by_end_operation (oex_operation_id expected)) (\<lambda>row.
     if row = None then wreturn None
     else wbind (terminal_outcome_from_database expected) (\<lambda>r. wreturn (Some r)))"

section \<open>Abandoning an expired attempt\<close>

text \<open>\<open>uuid5\<close> of the standard library names the operation that loses one context; the derivation is the
  argument \<open>derived\<close>.\<close>

definition abandon_context :: "(uuid \<Rightarrow> uuid \<Rightarrow> uuid) \<Rightarrow> outcome_expectation \<Rightarrow> context_row \<Rightarrow> unit tx" where
  "abandon_context derived expected row =
     wbind (update_contexts
       (\<lambda>c. cxr_read_context_id c = cxr_read_context_id row \<and> cxr_state c = READ_CONTEXT_ACTIVE)
       (\<lambda>c. c\<lparr>cxr_state := READ_CONTEXT_LOST,
          cxr_end_operation_id := Some (derived (oex_operation_id expected) (cxr_read_context_id row)),
          cxr_ended_at := Some (oex_ended_at expected)\<rparr>)) (\<lambda>rowcount.
     wrequire (\<not> rowcount \<noteq> 1) RunLifecycleStateError)"

definition abandon_attempt_once :: "(uuid \<Rightarrow> uuid \<Rightarrow> uuid) \<Rightarrow> outcome_expectation \<Rightarrow> attempt_outcome tx" where
  "abandon_attempt_once derived expected =
     (let attempt = oex_attempt expected; run_id = clr_run_id (rar_run attempt) in
      wbind (current_claimed_run (rar_run attempt) RunLifecycleStateError) (\<lambda>_.
      wbind (locked_attempt_of_run attempt RunLifecycleStateError) (\<lambda>attempt_row.
      wbind (select_attempt_by_end_operation (oex_operation_id expected)) (\<lambda>operation_row.
      if operation_row \<noteq> None then retryable_outcome_from_database expected
      else
        wbind (wrequire (\<not> atr_status attempt_row \<noteq> ATTEMPT_RUNNING) RunLifecycleStateError) (\<lambda>_.
        wbind database_now (\<lambda>now.
        wbind (wrequire (\<not> atr_lease_expires_at attempt_row > now) AttemptFenceError) (\<lambda>_.
        wbind (from_store (\<lambda>st. sort_key cxr_read_context_id (filter (\<lambda>c. cxr_run_id c = run_id \<and>
          cxr_attempt_id c = rar_attempt_id attempt \<and> cxr_state c = READ_CONTEXT_ACTIVE) (sto_contexts st)))) (\<lambda>active.
        wbind (wfold (\<lambda>_. abandon_context derived expected) () active) (\<lambda>_.
        wbind database_now (\<lambda>later.
        wbind (update_attempts
          (\<lambda>a. atr_run_id a = run_id \<and> atr_attempt_id a = rar_attempt_id attempt \<and>
             atr_status a = ATTEMPT_RUNNING \<and> atr_lease_expires_at a \<le> later)
          (ended_attempt (expected\<lparr>oex_status := ATTEMPT_ABANDONED\<rparr>))) (\<lambda>rowcount.
        wbind (wrequire (\<not> rowcount \<noteq> 1) AttemptFenceError) (\<lambda>_.
        retryable_outcome_from_database expected))))))))))))"

end
