(* ===== verification/Lifecycle_Effects.thy ===== *)
theory Lifecycle_Effects
  imports Attempt_Outcomes
begin

text \<open>
  Statements and transactions that succeed: for every statement of \<open>Lifecycle_Store\<close> the result and the transaction
  after it (\<open>tx_iffs\<close>), and the computations of the lifecycle that only read (\<open>same_store\<close>).
\<close>

section \<open>Statements that succeed\<close>

named_theorems tx_iffs \<open>the result and the transaction after a statement that succeeds\<close>

lemma database_now_iff [tx_iffs]:
  "database_now t = (Inr n, t') \<longleftrightarrow> n = tx_now t (tx_reads t) \<and> t' = t\<lparr>tx_reads := Suc (tx_reads t)\<rparr>"
  by (auto simp: database_now_def)

lemma transaction_start_iff [tx_iffs]: "transaction_start t = (Inr n, t') \<longleftrightarrow> n = tx_now t 0 \<and> t' = t"
  by (auto simp: transaction_start_def)

lemma from_store_iff [tx_iffs]: "from_store f t = (Inr x, t') \<longleftrightarrow> x = f (tx_store t) \<and> t' = t"
  by (auto simp: from_store_def)

lemma write_store_iff [tx_iffs]:
  "write_store f t = (Inr u, t') \<longleftrightarrow>
     unique_keys (f (tx_store t)) \<and> tx_accepts t (tx_store t) (f (tx_store t)) \<and> t' = t\<lparr>tx_store := f (tx_store t)\<rparr>"
  by (auto simp: write_store_def)

lemma codec_iff [tx_iffs]: "codec r t = (Inr x, t') \<longleftrightarrow> r = Inr x \<and> t' = t"
  by (cases r) (auto simp: codec_def)

lemma wrequire_iff [tx_iffs]: "wrequire c e t = (Inr u, t') \<longleftrightarrow> c \<and> t' = t"
  by (auto split: if_splits)

lemma wreturn_iff [tx_iffs]: "wreturn x t = (Inr y, t') \<longleftrightarrow> y = x \<and> t' = t"
  and wraise_iff [tx_iffs]: "wraise e t = (Inr y, t') \<longleftrightarrow> False"
  by auto

lemmas select_defs =
  select_run_by_creation_operation_def select_run_by_request_def select_run_by_id_def
  select_attempt_by_start_operation_def select_attempt_by_cut_operation_def select_attempt_by_end_operation_def
  select_attempt_by_id_def select_attempts_of_run_def select_lease_renewal_receipt_def
  select_context_by_acquisition_operation_def select_context_by_end_operation_def select_context_by_id_def

lemmas write_defs = insert_run_def insert_attempt_def insert_renewal_def insert_context_def insert_observation_def

lemma update_attempts_iff [tx_iffs]:
  "update_attempts p f t = (Inr n, t') \<longleftrightarrow>
     (let st' = (tx_store t)\<lparr>sto_attempts := rows_updated p f (sto_attempts (tx_store t))\<rparr> in
      n = length (filter p (sto_attempts (tx_store t))) \<and> unique_keys st' \<and> tx_accepts t (tx_store t) st' \<and>
      t' = t\<lparr>tx_store := st'\<rparr>)"
  and update_runs_iff [tx_iffs]:
  "update_runs q g t = (Inr n, t') \<longleftrightarrow>
     (let st' = (tx_store t)\<lparr>sto_runs := rows_updated q g (sto_runs (tx_store t))\<rparr> in
      n = length (filter q (sto_runs (tx_store t))) \<and> unique_keys st' \<and> tx_accepts t (tx_store t) st' \<and>
      t' = t\<lparr>tx_store := st'\<rparr>)"
  and update_contexts_iff [tx_iffs]:
  "update_contexts c h t = (Inr n, t') \<longleftrightarrow>
     (let st' = (tx_store t)\<lparr>sto_contexts := rows_updated c h (sto_contexts (tx_store t))\<rparr> in
      n = length (filter c (sto_contexts (tx_store t))) \<and> unique_keys st' \<and> tx_accepts t (tx_store t) st' \<and>
      t' = t\<lparr>tx_store := st'\<rparr>)"
  by (auto simp: update_attempts_def update_runs_def update_contexts_def wbind_eq_Inr_iff tx_iffs Let_def)

section \<open>Reading\<close>

text \<open>Computations that leave the store of a transaction alone.\<close>

definition same_store :: "transaction \<Rightarrow> transaction \<Rightarrow> bool" where
  "same_store t t' \<longleftrightarrow> tx_store t' = tx_store t \<and> tx_now t' = tx_now t \<and> tx_accepts t' = tx_accepts t \<and>
     tx_reads t \<le> tx_reads t'"

lemma same_store_order: "reflp same_store" "transp same_store"
  by (auto simp: same_store_def reflp_def transp_def)

lemma reading_statements [keeps_intros]:
  "keeps same_store database_now" "keeps same_store transaction_start" "keeps same_store (from_store f)"
  "keeps same_store (codec r)"
  by (simp_all add: keeps_def same_store_def database_now_def transaction_start_def from_store_def codec_def)

lemma reading_selects [keeps_intros]:
  "keeps same_store (select_run_by_creation_operation i)" "keeps same_store (select_run_by_request i)"
  "keeps same_store (select_run_by_id i)" "keeps same_store (select_attempt_by_start_operation i)"
  "keeps same_store (select_attempt_by_end_operation i)" "keeps same_store (select_attempt_by_id i)"
  "keeps same_store (select_attempts_of_run i)" "keeps same_store (select_lease_renewal_receipt i)"
  "keeps same_store (select_context_by_acquisition_operation i)" "keeps same_store (select_context_by_end_operation i)"
  "keeps same_store (select_context_by_id i)"
  by (simp_all add: select_defs reading_statements)

lemma reading_rows [keeps_intros]:
  "keeps same_store (claimed_run_from_row row expected)"
  "keeps same_store (started_attempt_from_row arow aexpected run)"
  "keeps same_store (commit_fenced_result x i)"
  "keeps same_store (require_admissible rows aexpected)"
  "keeps same_store (require_attempt_fence_row arow attempt)"
  "keeps same_store (validate_stored_clickhouse_closure crow)"
  by (auto simp: claimed_run_from_row_def started_attempt_from_row_def commit_fenced_result_def require_admissible_def
      require_attempt_fence_row_def validate_stored_clickhouse_closure_def Let_def intro!: keeps_intros same_store_order)

lemma reading_rows_again [keeps_intros]:
  "keeps same_store (current_claimed_run run e)"
  "keeps same_store (locked_attempt_of_run attempt e)"
  "keeps same_store (persisted_context_from_row crow cexpected)"
  "keeps same_store (require_finished_context crow ending)"
  "keeps same_store (require_generic_context_end_supported crow state)"
  "keeps same_store (outcome_receipt_from_database oexpected)"
  "keeps same_store (expected_batch_of request direction)"
  by (auto simp: current_claimed_run_def locked_attempt_of_run_def persisted_context_from_row_def require_finished_context_def
      require_generic_context_end_supported_def outcome_receipt_from_database_def expected_batch_of_def Let_def
      intro!: keeps_intros same_store_order)

lemma reading_receipts [keeps_intros]:
  "keeps same_store (renewed_attempt_from_receipt receipt lexpected)"
  "keeps same_store (retryable_outcome_from_database oexpected)"
  "keeps same_store (terminal_outcome_from_database oexpected)"
  "keeps same_store (require_stored_attempt_closure i j)"
  "keeps same_store (require_dataset_closure run i d direction)"
  "keeps same_store (begin_context_end_transaction ending)"
  "keeps same_store (prepare_new_context_end ending arow)"
  by (auto simp: renewed_attempt_from_receipt_def retryable_outcome_from_database_def terminal_outcome_from_database_def
      require_stored_attempt_closure_def require_dataset_closure_def begin_context_end_transaction_def
      prepare_new_context_end_def Let_def intro!: keeps_intros same_store_order)

end
