(* ===== verification/Lifecycle_Machine.thy ===== *)
theory Lifecycle_Machine
  imports Lifecycle_Effects
begin

text \<open>
  The run lifecycle as an abstract machine, and the refinement: every operation of the persistence layer that
  commits made no change or one change of the machine.
\<close>

section \<open>The machine\<close>

definition fresh_run :: "run_row \<Rightarrow> bool" where
  "fresh_run r \<longleftrightarrow> rnr_bound_input_cut_digest r = None \<and> rnr_bound_input_cut_payload r = None \<and>
     rnr_cut_binding_operation_id r = None \<and> rnr_cut_bound_at r = None \<and>
     rnr_selected_terminal_attempt_id r = None \<and> rnr_terminal_operation_id r = None \<and> rnr_terminal_at r = None"

definition fresh_attempt :: "attempt_row \<Rightarrow> bool" where
  "fresh_attempt a \<longleftrightarrow> atr_status a = ATTEMPT_RUNNING \<and> atr_lease_revision a = 0 \<and> atr_lease_operation_id a = None \<and>
     atr_lease_expires_at a = atr_initial_lease_expires_at a \<and> atr_input_cut_digest a = None \<and>
     atr_cut_operation_id a = None \<and> atr_cut_observed_at a = None \<and> atr_end_operation_id a = None \<and>
     atr_terminal_reason_code a = None \<and> atr_terminal_reason a = None \<and> atr_ended_at a = None"

definition attempts_of :: "uuid \<Rightarrow> store \<Rightarrow> attempt_row list" where
  "attempts_of i st = filter (\<lambda>a. atr_run_id a = i) (sto_attempts st)"

definition active_context :: "attempt_row \<Rightarrow> context_row \<Rightarrow> bool" where
  "active_context a c \<longleftrightarrow> cxr_run_id c = atr_run_id a \<and> cxr_attempt_id c = atr_attempt_id a \<and> cxr_state c = READ_CONTEXT_ACTIVE"

definition running :: "attempt_row \<Rightarrow> store \<Rightarrow> bool" where
  "running a st \<longleftrightarrow> a \<in> set (sto_attempts st) \<and> atr_status a = ATTEMPT_RUNNING"

definition open_run :: "attempt_row \<Rightarrow> store \<Rightarrow> bool" where
  "open_run a st \<longleftrightarrow> (\<exists>r \<in> set (sto_runs st). rnr_run_id r = atr_run_id a \<and> rnr_selected_terminal_attempt_id r = None)"

text \<open>The request whose canonical text a run stores.\<close>

definition requested_by :: "run_row \<Rightarrow> run_request \<Rightarrow> bool" where
  "requested_by r q \<longleftrightarrow> canonical_semantic_json (run_request_semantic_value q) = Inr (rnr_request_payload r)"

definition admissible :: "attempt_row \<Rightarrow> run_request \<Rightarrow> store \<Rightarrow> bool" where
  "admissible a q st \<longleftrightarrow>
     (\<forall>b \<in> set (attempts_of (atr_run_id a) st). atr_status b \<noteq> ATTEMPT_RUNNING \<and> atr_owner_token b = atr_owner_token a) \<and>
     int (length (attempts_of (atr_run_id a) st)) < eb_max_attempts (rq_execution_policy q) \<and>
     atr_ordinal a = int (length (attempts_of (atr_run_id a) st)) + 1"

definition renewed :: "uuid \<Rightarrow> instant \<Rightarrow> attempt_row \<Rightarrow> attempt_row" where
  "renewed i e a = a\<lparr>atr_lease_revision := atr_lease_revision a + 1, atr_lease_operation_id := Some i,
     atr_lease_expires_at := e\<rparr>"

definition renewal_of :: "uuid \<Rightarrow> instant \<Rightarrow> attempt_row \<Rightarrow> renewal_row" where
  "renewal_of i e a = \<lparr>rwr_lease_operation_id = i, rwr_run_id = atr_run_id a, rwr_attempt_id = atr_attempt_id a,
     rwr_owner_token = atr_owner_token a, rwr_expected_lease_revision = atr_lease_revision a,
     rwr_requested_lease_expires_at = e, rwr_resulting_lease_revision = atr_lease_revision a + 1\<rparr>"

definition ended :: "attempt_status \<Rightarrow> uuid \<Rightarrow> reason_code \<Rightarrow> pystr \<Rightarrow> instant \<Rightarrow> attempt_row \<Rightarrow> attempt_row" where
  "ended s i code reason time a = a\<lparr>atr_status := s, atr_end_operation_id := Some i, atr_terminal_reason_code := Some code,
     atr_terminal_reason := Some reason, atr_ended_at := Some time\<rparr>"

definition on_attempt :: "attempt_row \<Rightarrow> (attempt_row \<Rightarrow> attempt_row) \<Rightarrow> store \<Rightarrow> store" where
  "on_attempt a f st = st\<lparr>sto_attempts := rows_updated (\<lambda>x. atr_attempt_id x = atr_attempt_id a) f (sto_attempts st)\<rparr>"

definition on_run :: "uuid \<Rightarrow> (run_row \<Rightarrow> run_row) \<Rightarrow> store \<Rightarrow> store" where
  "on_run i f st = st\<lparr>sto_runs := rows_updated (\<lambda>x. rnr_run_id x = i) f (sto_runs st)\<rparr>"

definition on_context :: "context_row \<Rightarrow> (context_row \<Rightarrow> context_row) \<Rightarrow> store \<Rightarrow> store" where
  "on_context c f st = st\<lparr>sto_contexts := rows_updated (\<lambda>x. cxr_read_context_id x = cxr_read_context_id c) f (sto_contexts st)\<rparr>"

inductive lifecycle_change :: "store \<Rightarrow> store \<Rightarrow> bool" where
  claimed: "fresh_run r \<Longrightarrow> lifecycle_change st (st\<lparr>sto_runs := sto_runs st @ [r]\<rparr>)"
| started: "fresh_attempt a \<Longrightarrow> r \<in> set (sto_runs st) \<Longrightarrow> rnr_run_id r = atr_run_id a \<Longrightarrow>
    rnr_selected_terminal_attempt_id r = None \<Longrightarrow> requested_by r q \<Longrightarrow> admissible a q st \<Longrightarrow>
    lifecycle_change st (st\<lparr>sto_attempts := sto_attempts st @ [a]\<rparr>)"
| renewing: "running a st \<Longrightarrow> atr_lease_expires_at a < e \<Longrightarrow>
    i \<notin> rwr_lease_operation_id ` set (sto_renewals st) \<Longrightarrow>
    lifecycle_change st ((on_attempt a (renewed i e) st)\<lparr>sto_renewals := sto_renewals st @ [renewal_of i e a]\<rparr>)"
| acquired: "running a st \<Longrightarrow> active_context a c \<Longrightarrow> cxr_end_operation_id c = None \<Longrightarrow> cxr_ended_at c = None \<Longrightarrow>
    lifecycle_change st (st\<lparr>sto_contexts := sto_contexts st @ [c]\<rparr>)"
| finished: "running a st \<Longrightarrow> c \<in> set (sto_contexts st) \<Longrightarrow> active_context a c \<Longrightarrow> s \<noteq> READ_CONTEXT_ACTIVE \<Longrightarrow>
    \<not> (s = READ_CONTEXT_CLOSED \<and> cxr_engine c = CLICKHOUSE_ENGINE) \<Longrightarrow>
    lifecycle_change st (on_context c (\<lambda>c. c\<lparr>cxr_state := s, cxr_end_operation_id := Some i, cxr_ended_at := Some time\<rparr>) st)"
| failed: "running a st \<Longrightarrow> open_run a st \<Longrightarrow> \<forall>c \<in> set (sto_contexts st). \<not> active_context a c \<Longrightarrow>
    s \<in> {ATTEMPT_INCOMPLETE, ATTEMPT_ERROR} \<Longrightarrow>
    lifecycle_change st (on_attempt a (ended s i code reason time) st)"
| published: "running a st \<Longrightarrow> open_run a st \<Longrightarrow> \<forall>c \<in> set (sto_contexts st). \<not> active_context a c \<Longrightarrow>
    s \<in> {ATTEMPT_INCOMPLETE, ATTEMPT_ERROR} \<Longrightarrow>
    lifecycle_change st (on_run (atr_run_id a) (\<lambda>r. r\<lparr>rnr_selected_terminal_attempt_id := Some (atr_attempt_id a),
        rnr_terminal_operation_id := Some i, rnr_terminal_at := Some time\<rparr>)
      (on_attempt a (ended s i code reason time) st))"
| abandoned: "running a st \<Longrightarrow>
    lifecycle_change st (on_attempt a (ended ATTEMPT_ABANDONED i code reason time)
      (st\<lparr>sto_contexts := rows_updated (active_context a)
         (\<lambda>c. c\<lparr>cxr_state := READ_CONTEXT_LOST, cxr_end_operation_id := Some (derived (cxr_read_context_id c)),
            cxr_ended_at := Some time\<rparr>) (sto_contexts st)\<rparr>))"

section \<open>The transactions refine the machine\<close>

lemma rows_updated_unique:
  assumes "distinct (map key rows)" "r \<in> set rows" "p r" "\<And>x. p x \<Longrightarrow> key x = key r"
  shows "rows_updated p f rows = rows_updated (\<lambda>x. key x = key r) f rows"
proof -
  have "x = r" if "x \<in> set rows" "key x = key r" for x
    using assms(1,2) that by (simp add: distinct_map inj_on_def)
  then have "p x \<longleftrightarrow> key x = key r" if "x \<in> set rows" for x
    using assms(3,4) that by blast
  then show ?thesis by (simp add: rows_updated_def)
qed

lemma filter_one: "length (filter p rows) = 1 \<Longrightarrow> \<exists>r \<in> set rows. p r"
  by (cases "filter p rows") (auto simp: filter_eq_Cons_iff)

lemma filter_any: "length (filter p rows) = Suc 0 \<Longrightarrow> \<exists>r \<in> set rows. p r"
  using filter_one by fastforce

lemma find_mem: "find p xs = Some x \<Longrightarrow> x \<in> set xs \<and> p x"
  by (auto simp: find_Some_iff)

lemma same_store_reads:
  "keeps same_store m \<Longrightarrow> m t = (r, t') \<Longrightarrow> tx_store t' = tx_store t \<and> tx_now t' = tx_now t \<and> tx_accepts t' = tx_accepts t \<and>
    tx_reads t \<le> tx_reads t'"
  by (auto simp: same_store_def dest: keepsD)

lemma claim_effect:
  assumes "claim_run_once x t = (Inr r, t')"
  shows "tx_store t' = tx_store t \<or>
    (lifecycle_change (tx_store t) (tx_store t') \<and> unique_keys (tx_store t'))"
proof -
  note reading = same_store_reads [OF reading_rows(1)]
  show ?thesis using assms
    unfolding claim_run_once_def select_defs write_defs wbind_eq_Inr_iff
    by (auto simp: tx_iffs wbind_eq_Inr_iff fresh_run_def simp del: wrequire_apply dest!: reading split: option.splits intro!: lifecycle_change.claimed)
qed

lemma claimed_run_from_row_Inr:
  "claimed_run_from_row row x t = (Inr c, t') \<longleftrightarrow> t' = t \<and>
     rnr_request_id row = rq_request_id (rex_request x) \<and>
     rnr_request_identity_digest row = rex_request_identity_digest x \<and> rnr_request_payload row = rex_request_payload_json x \<and>
     rnr_contract_version_id row = rq_contract_version_id (rex_request x) \<and> rnr_origin row = rq_origin (rex_request x) \<and>
     rnr_scope_digest row = rex_scope_digest x \<and> require_optional_sha256 (rnr_bound_input_cut_digest row) = Inr () \<and>
     c = \<lparr>clr_run_id = rnr_run_id row, clr_creation_operation_id = rnr_creation_operation_id row,
       clr_request = rex_request x, clr_created_at = rnr_created_at row,
       clr_bound_input_cut_digest = rnr_bound_input_cut_digest row,
       clr_cut_binding_operation_id = rnr_cut_binding_operation_id row,
       clr_selected_terminal_attempt_id = rnr_selected_terminal_attempt_id row,
       clr_terminal_operation_id = rnr_terminal_operation_id row\<rparr>"
  by (cases "require_optional_sha256 (rnr_bound_input_cut_digest row)")
    (auto simp: claimed_run_from_row_def Let_def wbind_eq_Inr_iff tx_iffs mk_ClaimedRun_def simp del: wrequire_apply)

lemma run_expectation_of_Inr:
  "run_expectation_of i c q = Inr x \<longleftrightarrow> (\<exists>json. canonical_semantic_json (run_request_semantic_value q) = Inr json \<and>
     x = \<lparr>rex_candidate_run_id = i, rex_creation_operation_id = c, rex_request = q, rex_request_payload_json = json,
       rex_request_identity_digest = rq_request_identity_digest q, rex_scope_digest = rs_scope_digest (rq_scope q)\<rparr>)"
  by (auto simp: run_expectation_of_def ebind_def split: sum.splits)

lemma current_claimed_run_Inr:
  assumes "current_claimed_run run e t = (Inr c, t')"
  obtains row where "t' = t" "row \<in> set (sto_runs (tx_store t))" "rnr_run_id row = clr_run_id run"
    "requested_by row (clr_request run)" "clr_selected_terminal_attempt_id c = rnr_selected_terminal_attempt_id row"
    "find (\<lambda>r. rnr_run_id r = clr_run_id run) (sto_runs (tx_store t)) = Some row"
  using assms
  by (auto simp: current_claimed_run_def select_defs wbind_eq_Inr_iff tx_iffs claimed_run_from_row_Inr
      expectation_for_claimed_run_def run_expectation_of_Inr requested_by_def split: option.splits dest: find_mem)

lemma locked_attempt_of_run_Inr:
  assumes "locked_attempt_of_run attempt e t = (Inr row, t')"
  shows "t' = t \<and> row \<in> set (sto_attempts (tx_store t)) \<and> atr_attempt_id row = rar_attempt_id attempt \<and>
    atr_run_id row = clr_run_id (rar_run attempt)"
  using assms by (auto simp: locked_attempt_of_run_def select_defs wbind_eq_Inr_iff tx_iffs simp del: wrequire_apply
      split: option.splits dest: find_mem)

text \<open>The operations on an attempt begin by reading its run and the attempt itself.\<close>

lemma locked_operation:
  assumes "wbind (current_claimed_run (rar_run attempt) e) (\<lambda>c. wbind (locked_attempt_of_run attempt e') (k c)) t = (Inr r, t')"
  obtains c row stored where "k c row t = (Inr r, t')" "row \<in> set (sto_attempts (tx_store t))"
    "atr_attempt_id row = rar_attempt_id attempt" "atr_run_id row = clr_run_id (rar_run attempt)"
    "stored \<in> set (sto_runs (tx_store t))" "rnr_run_id stored = clr_run_id (rar_run attempt)"
    "clr_selected_terminal_attempt_id c = rnr_selected_terminal_attempt_id stored"
proof -
  obtain c t1 where c: "current_claimed_run (rar_run attempt) e t = (Inr c, t1)"
    and rest: "wbind (locked_attempt_of_run attempt e') (k c) t1 = (Inr r, t')"
    using assms by (auto simp: wbind_eq_Inr_iff)
  obtain stored where stored: "t1 = t" "stored \<in> set (sto_runs (tx_store t))" "rnr_run_id stored = clr_run_id (rar_run attempt)"
    "clr_selected_terminal_attempt_id c = rnr_selected_terminal_attempt_id stored"
    using current_claimed_run_Inr [OF c] by metis
  obtain row t2 where row: "locked_attempt_of_run attempt e' t = (Inr row, t2)" "k c row t2 = (Inr r, t')"
    using rest stored(1) by (auto simp: wbind_eq_Inr_iff)
  show thesis using that row stored locked_attempt_of_run_Inr [OF row(1)] by metis
qed

lemma require_admissible_Inr:
  "require_admissible rows x t = (Inr u, t') \<longleftrightarrow> t' = t \<and>
     (\<forall>b \<in> set rows. atr_status b \<noteq> ATTEMPT_RUNNING \<and> atr_owner_token b = aex_owner_token x) \<and>
     int (length rows) < eb_max_attempts (rq_execution_policy (clr_request (aex_run x)))"
  by (auto simp: require_admissible_def wbind_eq_Inr_iff tx_iffs list_ex_iff simp del: wrequire_apply)

lemma start_effect:
  assumes "start_attempt_once x t = (Inr r, t')"
  shows "tx_store t' = tx_store t \<or> (lifecycle_change (tx_store t) (tx_store t') \<and> unique_keys (tx_store t'))"
proof -
  note reads = same_store_reads [OF reading_rows(2)] same_store_reads [OF reading_rows(3)]
  obtain c t1 where c: "current_claimed_run (aex_run x) RunLifecycleStateError t = (Inr c, t1)"
    using assms by (auto simp: start_attempt_once_def wbind_eq_Inr_iff)
  obtain row where row: "t1 = t" "row \<in> set (sto_runs (tx_store t))" "rnr_run_id row = clr_run_id (aex_run x)"
    "requested_by row (clr_request (aex_run x))" "clr_selected_terminal_attempt_id c = rnr_selected_terminal_attempt_id row"
    using current_claimed_run_Inr [OF c] by metis
  show ?thesis using assms c row
    unfolding start_attempt_once_def select_defs write_defs wbind_eq_Inr_iff
    by (auto simp: tx_iffs wbind_eq_Inr_iff require_admissible_Inr fresh_attempt_def admissible_def attempts_of_def
        simp del: wrequire_apply dest!: reads split: option.splits intro!: lifecycle_change.started)
qed

lemma distinct_rows_updated:
  assumes "\<And>r. key (f r) = key r"
  shows "distinct (map key (rows_updated p f rows)) \<longleftrightarrow> distinct (map key rows)"
proof -
  have "map key (rows_updated p f rows) = map key rows" by (simp add: rows_updated_def assms)
  then show ?thesis by simp
qed

text \<open>The fence of an operation: when it changed the store, the attempt was the caller's, at the caller's lease
  revision and running with its lease unexpired, and the lease was unexpired still at a later reading of the
  clock, the last one before \<open>COMMIT\<close>.\<close>

definition fenced_by :: "run_attempt \<Rightarrow> (nat \<Rightarrow> instant) \<Rightarrow> store \<Rightarrow> bool" where
  "fenced_by attempt now st \<longleftrightarrow> (\<exists>row \<in> set (sto_attempts st). \<exists>i k. i < k \<and> fence_holds attempt (now i) row \<and>
     now k < atr_lease_expires_at row)"

lemma commit_fenced_result_Inr:
  "commit_fenced_result x expiry t = (Inr y, t') \<longleftrightarrow>
     y = x \<and> tx_now t (tx_reads t) < expiry \<and> t' = t\<lparr>tx_reads := Suc (tx_reads t)\<rparr>"
  by (auto simp: commit_fenced_result_def wbind_eq_Inr_iff tx_iffs simp del: wrequire_apply)

text \<open>A compare-and-set under the fence that changed one row changed the row that was locked.\<close>

lemma fenced_update:
  assumes "length (filter (fence_holds attempt now) as) = 1" "row \<in> set as"
    and "atr_attempt_id row = rar_attempt_id attempt"
    and "unique_attempts (rows_updated (fence_holds attempt now) f as)" "\<And>r. atr_attempt_id (f r) = atr_attempt_id r"
  shows "fence_holds attempt now row \<and>
    rows_updated (fence_holds attempt now) f as = rows_updated (\<lambda>x. atr_attempt_id x = atr_attempt_id row) f as"
proof -
  have ids: "distinct (map atr_attempt_id as)"
    using assms(4,5) by (simp add: unique_attempts_def distinct_rows_updated)
  obtain r where r: "r \<in> set as" "fence_holds attempt now r" using filter_one [OF assms(1)] by blast
  then have "r = row"
    using ids assms(2,3) inj_onD [of atr_attempt_id "set as" r row] by (auto simp: distinct_map fence_holds_def)
  then have fence: "fence_holds attempt now row" using r by simp
  show ?thesis
    using fence rows_updated_unique [of _ _ row "fence_holds attempt now", OF ids assms(2)] assms(3) by (auto simp: fence_holds_def)
qed

lemma renew_effect:
  assumes "renew_attempt_once x t = (Inr r, t')"
  shows "tx_store t' = tx_store t \<or> (lifecycle_change (tx_store t) (tx_store t') \<and> unique_keys (tx_store t') \<and>
    fenced_by (lex_attempt x) (tx_now t) (tx_store t))"
  using assms unfolding renew_attempt_once_def Let_def
proof (rule locked_operation, goal_cases)
  case (1 c row stored)
  let ?attempt = "lex_attempt x" and ?st = "tx_store t"
  note reads = same_store_reads [OF reading_receipts(1)]
    same_store_reads [OF reading_rows(5)]
  show ?case
  proof (cases "find (\<lambda>l. rwr_lease_operation_id l = lex_operation_id x) (sto_renewals ?st)")
    case (Some receipt)
    then show ?thesis using 1(1) by (auto simp: wbind_eq_Inr_iff select_defs tx_iffs dest!: reads)
  next
    case None
    let ?f = "renewed (lex_operation_id x) (lex_lease_expires_at x)"
    obtain i k where later: "atr_lease_expires_at row < lex_lease_expires_at x" "tx_now t k < atr_lease_expires_at row" "Suc i \<le> k"
      and one: "length (filter (fence_holds ?attempt (tx_now t i)) (sto_attempts ?st)) = 1"
      and unique: "unique_keys (tx_store t')"
      and st': "tx_store t' = ?st\<lparr>sto_attempts := rows_updated (fence_holds ?attempt (tx_now t i)) ?f (sto_attempts ?st),
        sto_renewals := sto_renewals ?st @ [\<lparr>rwr_lease_operation_id = lex_operation_id x,
          rwr_run_id = clr_run_id (rar_run ?attempt), rwr_attempt_id = rar_attempt_id ?attempt,
          rwr_owner_token = rar_owner_token ?attempt, rwr_expected_lease_revision = rar_lease_revision ?attempt,
          rwr_requested_lease_expires_at = lex_lease_expires_at x,
          rwr_resulting_lease_revision = rar_lease_revision ?attempt + 1\<rparr>]\<rparr>"
      using 1(1) None
      by (auto simp: Let_def wbind_eq_Inr_iff select_defs write_defs tx_iffs renewed_def [abs_def]
          commit_fenced_result_Inr simp del: wrequire_apply
          dest!: reads split: option.splits)
    have "unique_attempts (rows_updated (fence_holds ?attempt (tx_now t i)) ?f (sto_attempts ?st))"
      using unique st' by (simp add: unique_keys_def)
    then have fence: "fence_holds ?attempt (tx_now t i) row"
      and rows: "rows_updated (fence_holds ?attempt (tx_now t i)) ?f (sto_attempts ?st) =
        rows_updated (\<lambda>x. atr_attempt_id x = atr_attempt_id row) ?f (sto_attempts ?st)"
      using fenced_update [OF one 1(2,3)] by (auto simp: renewed_def)
    have "tx_store t' = (on_attempt row ?f ?st)\<lparr>sto_renewals := sto_renewals ?st @
        [renewal_of (lex_operation_id x) (lex_lease_expires_at x) row]\<rparr>"
      using st' rows fence by (simp add: on_attempt_def renewal_of_def fence_holds_def)
    moreover have "running row ?st" using 1(2) fence by (simp add: running_def fence_holds_def)
    moreover have "lex_operation_id x \<notin> rwr_lease_operation_id ` set (sto_renewals ?st)"
      using None by (auto simp: find_None_iff)
    moreover have "fenced_by ?attempt (tx_now t) ?st" using fence later(2,3) 1(2) by (auto simp: fenced_by_def Suc_le_eq)
    ultimately show ?thesis using later(1) unique lifecycle_change.renewing by simp
  qed
qed

lemma fence_on_locked:
  assumes "list_ex (fence_holds attempt now) as" "row \<in> set as" "atr_attempt_id row = rar_attempt_id attempt"
    and "distinct (map atr_attempt_id as)"
  shows "fence_holds attempt now row"
proof -
  obtain r where r: "r \<in> set as" "fence_holds attempt now r" using assms(1) by (auto simp: list_ex_iff)
  then have "r = row"
    using assms inj_onD [of atr_attempt_id "set as" r row] by (auto simp: distinct_map fence_holds_def)
  then show ?thesis using r by simp
qed

lemma persist_context_effect:
  assumes "persist_context_once x t = (Inr r, t')"
  shows "tx_store t' = tx_store t \<or> (lifecycle_change (tx_store t) (tx_store t') \<and> unique_keys (tx_store t') \<and>
    fenced_by (cex_attempt x) (tx_now t) (tx_store t))"
  using assms unfolding persist_context_once_def Let_def
proof (rule locked_operation, goal_cases)
  case (1 c row stored)
  let ?attempt = "cex_attempt x" and ?st = "tx_store t" and ?c = "acquired_context_row x"
  note reads = same_store_reads [OF reading_rows_again(3)] same_store_reads [OF reading_receipts(5)]
  show ?case
  proof (cases "find (\<lambda>c. cxr_acquisition_operation_id c = cxd_acquisition_operation_id (cex_definition x)) (sto_contexts ?st)")
    case (Some stored)
    then show ?thesis using 1(1) by (auto simp: wbind_eq_Inr_iff select_defs tx_iffs dest!: reads)
  next
    case None
    obtain i k where status: "atr_status row = ATTEMPT_RUNNING" and unique: "unique_keys (tx_store t')"
      and st': "tx_store t' = ?st\<lparr>sto_contexts := sto_contexts ?st @ [?c]\<rparr>"
      and later: "list_ex (fence_holds ?attempt (tx_now t i)) (sto_attempts ?st)" "Suc i \<le> k"
        "tx_now t k < atr_lease_expires_at row"
      using 1(1) None
      by (auto simp: wbind_eq_Inr_iff select_defs write_defs tx_iffs require_attempt_fence_row_def commit_fenced_result_Inr
          simp del: wrequire_apply dest!: reads split: option.splits)
    have "distinct (map atr_attempt_id (sto_attempts ?st))" using unique st' by (simp add: unique_keys_def unique_attempts_def)
    then have "fenced_by ?attempt (tx_now t) ?st"
      using fence_on_locked [OF later(1) 1(2,3)] later(2,3) 1(2) by (auto simp: fenced_by_def Suc_le_eq)
    moreover have "running row ?st" using 1(2) status by (simp add: running_def)
    moreover have "active_context row ?c" "cxr_end_operation_id ?c = None" "cxr_ended_at ?c = None"
      using 1(3,4) by (simp_all add: active_context_def acquired_context_row_def Let_def)
    ultimately show ?thesis using st' unique lifecycle_change.acquired by simp
  qed
qed

lemma wbind_assoc: "wbind (wbind m k) l = wbind m (\<lambda>x. wbind (k x) l)"
  by (auto simp: wbind_def fun_eq_iff split: prod.splits sum.splits)

lemma on_context_unique:
  assumes "distinct (map cxr_read_context_id cs)" "c \<in> set cs" "p c" "\<And>x. p x \<Longrightarrow> cxr_read_context_id x = cxr_read_context_id c"
  shows "rows_updated p f cs = rows_updated (\<lambda>x. cxr_read_context_id x = cxr_read_context_id c) f cs"
  using rows_updated_unique [of cxr_read_context_id cs c p f] assms by blast

lemma finish_context_effect:
  assumes "finish_context_once x t = (Inr r, t')" and target: "cxe_target_state x \<noteq> READ_CONTEXT_ACTIVE"
  shows "tx_store t' = tx_store t \<or> (lifecycle_change (tx_store t) (tx_store t') \<and> unique_keys (tx_store t') \<and>
    fenced_by (cxe_attempt x) (tx_now t) (tx_store t))"
  using assms(1) unfolding finish_context_once_def begin_context_end_transaction_def wbind_assoc
proof (rule locked_operation, goal_cases)
  case (1 c row stored)
  let ?st = "tx_store t"
  note reads = same_store_reads [OF reading_rows_again(4)] same_store_reads [OF reading_rows_again(5)]
  have supported: "require_generic_context_end_supported c s t1 = (Inr u, t2) \<longleftrightarrow>
      \<not> (s = READ_CONTEXT_CLOSED \<and> cxr_engine c = CLICKHOUSE_ENGINE) \<and> t2 = t1" for c s t1 u t2
    by (auto simp: require_generic_context_end_supported_def)
  show ?case
  proof (cases "find (\<lambda>c. cxr_end_operation_id c = Some (cxe_end_operation_id x)) (sto_contexts ?st)")
    case (Some ended)
    then show ?thesis using 1(1) by (auto simp: wbind_eq_Inr_iff select_defs tx_iffs dest!: reads)
  next
    case None
    let ?f = "\<lambda>c. c\<lparr>cxr_state := cxe_target_state x, cxr_end_operation_id := Some (cxe_end_operation_id x),
        cxr_ended_at := Some (cxe_ended_at x)\<rparr>"
    let ?fenced = "\<lambda>now. list_ex (fence_holds (cxe_attempt x) now) (sto_attempts ?st)"
    let ?q = "\<lambda>now c. cxr_read_context_id c = cxe_read_context_id x \<and> cxr_state c = READ_CONTEXT_ACTIVE \<and> ?fenced now"
    obtain crow i k where crow: "find (\<lambda>c. cxr_read_context_id c = cxe_read_context_id x) (sto_contexts ?st) = Some crow"
        "cxr_run_id crow = clr_run_id (rar_run (cxe_attempt x))" "cxr_attempt_id crow = rar_attempt_id (cxe_attempt x)"
        "cxr_state crow = READ_CONTEXT_ACTIVE"
        "\<not> (cxe_target_state x = READ_CONTEXT_CLOSED \<and> cxr_engine crow = CLICKHOUSE_ENGINE)"
      and later: "Suc i \<le> k" "tx_now t k < atr_lease_expires_at row"
      and one: "length (filter (?q (tx_now t i)) (sto_contexts ?st)) = Suc 0"
      and status: "atr_status row = ATTEMPT_RUNNING" and unique: "unique_keys (tx_store t')"
      and st': "tx_store t' = ?st\<lparr>sto_contexts := rows_updated (?q (tx_now t i)) ?f (sto_contexts ?st)\<rparr>"
      using 1(1) None
      by (auto simp: Let_def wbind_eq_Inr_iff select_defs tx_iffs prepare_new_context_end_def require_attempt_fence_row_def
          commit_fenced_result_Inr supported
          simp del: wrequire_apply dest!: reads split: option.splits)
    have fenced: "?fenced (tx_now t i)" using filter_any [OF one] by blast
    have mem: "crow \<in> set (sto_contexts ?st)" "cxr_read_context_id crow = cxe_read_context_id x"
      using find_mem [OF crow(1)] by blast+
    have "distinct (map cxr_read_context_id (sto_contexts ?st))"
      using unique st' by (simp add: unique_keys_def unique_contexts_def distinct_rows_updated)
    then have "tx_store t' = on_context crow ?f ?st"
      using on_context_unique [of _ crow "?q (tx_now t i)"] mem crow(4) st' fenced by (simp add: on_context_def)
    moreover have "running row ?st" using 1(2) status by (simp add: running_def)
    moreover have "distinct (map atr_attempt_id (sto_attempts ?st))" using unique st' by (simp add: unique_keys_def unique_attempts_def)
    then have "fenced_by (cxe_attempt x) (tx_now t) ?st"
      using fence_on_locked [OF fenced 1(2,3)] later 1(2) by (auto simp: fenced_by_def Suc_le_eq)
    moreover have "active_context row crow" using crow 1(3,4) by (simp add: active_context_def)
    ultimately show ?thesis using lifecycle_change.finished [OF _ mem(1) _ target crow(5)] unique by metis
  qed
qed

lemma require_stored_attempt_closure_Inr:
  assumes "require_stored_attempt_closure i j t = (Inr u, t')"
  shows "t' = t \<and> (\<forall>c \<in> set (sto_contexts (tx_store t)).
    \<not> (cxr_run_id c = i \<and> cxr_attempt_id c = j \<and> cxr_state c = READ_CONTEXT_ACTIVE))"
  using assms
  by (auto simp: require_stored_attempt_closure_def wbind_eq_Inr_iff tx_iffs select_defs filter_empty_conv
      simp del: wrequire_apply split: option.splits)

lemma ended_attempt_eq:
  "ended_attempt x = ended (oex_status x) (oex_operation_id x) (rr_code (oex_reason x)) (oex_reason_json x) (oex_ended_at x)"
  by (simp add: ended_attempt_def [abs_def] ended_def [abs_def])

lemma retryable_effect:
  assumes "persist_retryable_outcome_once x t = (Inr r, t')" and status: "oex_status x \<in> {ATTEMPT_INCOMPLETE, ATTEMPT_ERROR}"
  shows "tx_store t' = tx_store t \<or> (lifecycle_change (tx_store t) (tx_store t') \<and> unique_keys (tx_store t') \<and>
    fenced_by (oex_attempt x) (tx_now t) (tx_store t))"
  using assms(1) unfolding persist_retryable_outcome_once_def Let_def
proof (rule locked_operation, goal_cases)
  case (1 c row stored)
  let ?st = "tx_store t" and ?attempt = "oex_attempt x"
  note reads = same_store_reads [OF reading_receipts(2)]
    require_stored_attempt_closure_Inr
  show ?case
  proof (cases "find (\<lambda>a. atr_end_operation_id a = Some (oex_operation_id x)) (sto_attempts ?st)")
    case (Some ended)
    then show ?thesis using 1(1) by (auto simp: wbind_eq_Inr_iff select_defs tx_iffs dest!: reads)
  next
    case None
    obtain i k where later: "Suc i \<le> k" "tx_now t k < atr_lease_expires_at row"
      and one: "length (filter (fence_holds ?attempt (tx_now t i)) (sto_attempts ?st)) = 1"
      and closed: "\<forall>c \<in> set (sto_contexts ?st). \<not> active_context row c"
      and selected: "clr_selected_terminal_attempt_id c = None" and unique: "unique_keys (tx_store t')"
      and st': "tx_store t' = ?st\<lparr>sto_attempts := rows_updated (fence_holds ?attempt (tx_now t i)) (ended_attempt x) (sto_attempts ?st)\<rparr>"
      using 1(1,3,4) None
      by (auto simp: Let_def wbind_eq_Inr_iff select_defs tx_iffs require_attempt_fence_row_def active_context_def
          require_attempt_closure_for_end_def commit_fenced_result_Inr simp del: wrequire_apply dest!: reads)
    have "unique_attempts (rows_updated (fence_holds ?attempt (tx_now t i)) (ended_attempt x) (sto_attempts ?st))"
      using unique st' by (simp add: unique_keys_def)
    then have fence: "fence_holds ?attempt (tx_now t i) row"
      and rows: "rows_updated (fence_holds ?attempt (tx_now t i)) (ended_attempt x) (sto_attempts ?st) =
        rows_updated (\<lambda>x. atr_attempt_id x = atr_attempt_id row) (ended_attempt x) (sto_attempts ?st)"
      using fenced_update [OF one 1(2,3)] by (auto simp: ended_attempt_def)
    have "fenced_by ?attempt (tx_now t) ?st" using fence later 1(2) by (auto simp: fenced_by_def Suc_le_eq)
    moreover have "running row ?st" "open_run row ?st" using 1 fence selected by (auto simp: running_def open_run_def fence_holds_def)
    ultimately show ?thesis
      using lifecycle_change.failed [OF _ _ closed status] st' rows unique by (simp add: on_attempt_def ended_attempt_eq)
  qed
qed

lemma publish_effect:
  assumes "publish_terminal_outcome_once x t = (Inr r, t')" and status: "oex_status x \<in> {ATTEMPT_INCOMPLETE, ATTEMPT_ERROR}"
  shows "tx_store t' = tx_store t \<or> (lifecycle_change (tx_store t) (tx_store t') \<and> unique_keys (tx_store t') \<and>
    fenced_by (oex_attempt x) (tx_now t) (tx_store t))"
  using assms(1) unfolding publish_terminal_outcome_once_def Let_def
proof (rule locked_operation, goal_cases)
  case (1 c row stored)
  let ?st = "tx_store t" and ?attempt = "oex_attempt x"
  note reads = same_store_reads [OF reading_receipts(3)]
    require_stored_attempt_closure_Inr
  show ?case
  proof (cases "find (\<lambda>a. atr_end_operation_id a = Some (oex_operation_id x)) (sto_attempts ?st)")
    case (Some ended)
    then show ?thesis using 1(1) by (auto simp: wbind_eq_Inr_iff select_defs tx_iffs dest!: reads)
  next
    case None
    let ?p = "\<lambda>r. rnr_run_id r = clr_run_id (rar_run ?attempt) \<and> rnr_selected_terminal_attempt_id r = None"
    let ?g = "\<lambda>r. r\<lparr>rnr_selected_terminal_attempt_id := Some (rar_attempt_id ?attempt),
        rnr_terminal_operation_id := Some (oex_operation_id x), rnr_terminal_at := Some (oex_ended_at x)\<rparr>"
    obtain i k where later: "Suc i \<le> k" "tx_now t k < atr_lease_expires_at row"
      and one: "length (filter (fence_holds ?attempt (tx_now t i)) (sto_attempts ?st)) = 1"
      and closed: "\<forall>c \<in> set (sto_contexts ?st). \<not> active_context row c"
      and selected: "clr_selected_terminal_attempt_id c = None" and unique: "unique_keys (tx_store t')"
      and st': "tx_store t' = ?st\<lparr>sto_attempts := rows_updated (fence_holds ?attempt (tx_now t i)) (ended_attempt x) (sto_attempts ?st),
        sto_runs := rows_updated ?p ?g (sto_runs ?st)\<rparr>"
      using 1(1,3,4) None
      by (auto simp: Let_def wbind_eq_Inr_iff select_defs tx_iffs require_attempt_fence_row_def active_context_def
          require_attempt_closure_for_end_def commit_fenced_result_Inr simp del: wrequire_apply dest!: reads)
    have "unique_attempts (rows_updated (fence_holds ?attempt (tx_now t i)) (ended_attempt x) (sto_attempts ?st))"
      using unique st' by (simp add: unique_keys_def)
    then have fence: "fence_holds ?attempt (tx_now t i) row"
      and rows: "rows_updated (fence_holds ?attempt (tx_now t i)) (ended_attempt x) (sto_attempts ?st) =
        rows_updated (\<lambda>x. atr_attempt_id x = atr_attempt_id row) (ended_attempt x) (sto_attempts ?st)"
      using fenced_update [OF one 1(2,3)] by (auto simp: ended_attempt_def)
    have "distinct (map rnr_run_id (sto_runs ?st))"
      using unique st' by (simp add: unique_keys_def unique_runs_def distinct_rows_updated)
    then have runs: "rows_updated ?p ?g (sto_runs ?st) = rows_updated (\<lambda>r. rnr_run_id r = atr_run_id row) ?g (sto_runs ?st)"
      using rows_updated_unique [of rnr_run_id "sto_runs ?st" stored ?p ?g] 1(4-7) selected by simp
    have "fenced_by ?attempt (tx_now t) ?st" using fence later 1(2) by (auto simp: fenced_by_def Suc_le_eq)
    moreover have "running row ?st" "open_run row ?st" using 1 fence selected by (auto simp: running_def open_run_def fence_holds_def)
    ultimately show ?thesis
      using lifecycle_change.published [OF _ _ closed status] st' rows runs unique 1(3)
      by (simp add: on_attempt_def on_run_def ended_attempt_eq)
  qed
qed

lemma abandon_contexts:
  assumes "wfold (\<lambda>_. abandon_context derived x) () cs t = (Inr u, t')"
  shows "tx_now t' = tx_now t \<and> tx_store t' = (tx_store t)\<lparr>sto_contexts :=
      rows_updated (\<lambda>c. cxr_read_context_id c \<in> cxr_read_context_id ` set cs \<and> cxr_state c = READ_CONTEXT_ACTIVE)
        (\<lambda>c. c\<lparr>cxr_state := READ_CONTEXT_LOST,
           cxr_end_operation_id := Some (derived (oex_operation_id x) (cxr_read_context_id c)),
           cxr_ended_at := Some (oex_ended_at x)\<rparr>) (sto_contexts (tx_store t))\<rparr>"
  using assms
proof (induction cs arbitrary: t)
  case Nil
  then show ?case by (simp add: rows_updated_def)
next
  case (Cons c cs)
  obtain t1 where first: "abandon_context derived x c t = (Inr (), t1)"
    and rest: "wfold (\<lambda>_. abandon_context derived x) () cs t1 = (Inr u, t')"
    using Cons.prems by (auto simp: wbind_eq_Inr_iff)
  have t1: "tx_now t1 = tx_now t"
    "tx_store t1 = (tx_store t)\<lparr>sto_contexts :=
      rows_updated (\<lambda>k. cxr_read_context_id k = cxr_read_context_id c \<and> cxr_state k = READ_CONTEXT_ACTIVE)
        (\<lambda>k. k\<lparr>cxr_state := READ_CONTEXT_LOST,
           cxr_end_operation_id := Some (derived (oex_operation_id x) (cxr_read_context_id c)),
           cxr_ended_at := Some (oex_ended_at x)\<rparr>) (sto_contexts (tx_store t))\<rparr>"
    using first by (auto simp: abandon_context_def wbind_eq_Inr_iff tx_iffs Let_def simp del: wrequire_apply)
  show ?case
    using Cons.IH [OF rest] unfolding t1
    by (auto simp: rows_updated_def intro!: arg_cong [where f = "\<lambda>cs. sto_contexts_update (\<lambda>_. cs) (tx_store t)"])
qed

lemma abandon_effect:
  assumes "abandon_attempt_once derived x t = (Inr r, t')" and status: "oex_status x = ATTEMPT_ABANDONED"
  shows "tx_store t' = tx_store t \<or> (lifecycle_change (tx_store t) (tx_store t') \<and> unique_keys (tx_store t'))"
  using assms(1) unfolding abandon_attempt_once_def Let_def
proof (rule locked_operation, goal_cases)
  case (1 c row stored)
  let ?st = "tx_store t" and ?attempt = "oex_attempt x"
  note reads = same_store_reads [OF reading_receipts(2)]
  show ?case
  proof (cases "find (\<lambda>a. atr_end_operation_id a = Some (oex_operation_id x)) (sto_attempts ?st)")
    case (Some ended)
    then show ?thesis using 1(1) by (auto simp: wbind_eq_Inr_iff select_defs tx_iffs dest!: reads)
  next
    case None
    let ?lost = "\<lambda>c. c\<lparr>cxr_state := READ_CONTEXT_LOST,
        cxr_end_operation_id := Some (derived (oex_operation_id x) (cxr_read_context_id c)), cxr_ended_at := Some (oex_ended_at x)\<rparr>"
    let ?active = "filter (\<lambda>c. cxr_run_id c = clr_run_id (rar_run ?attempt) \<and> cxr_attempt_id c = rar_attempt_id ?attempt \<and>
        cxr_state c = READ_CONTEXT_ACTIVE) (sto_contexts ?st)"
    let ?c = "\<lambda>c. cxr_read_context_id c \<in> cxr_read_context_id ` set ?active \<and> cxr_state c = READ_CONTEXT_ACTIVE"
    let ?a = "\<lambda>now a. atr_run_id a = clr_run_id (rar_run ?attempt) \<and> atr_attempt_id a = rar_attempt_id ?attempt \<and>
        atr_status a = ATTEMPT_RUNNING \<and> atr_lease_expires_at a \<le> now"
    obtain now where running: "atr_status row = ATTEMPT_RUNNING"
      and one: "length (filter (?a now) (sto_attempts ?st)) = 1" and unique: "unique_keys (tx_store t')"
      and st': "tx_store t' = ?st\<lparr>sto_contexts := rows_updated ?c ?lost (sto_contexts ?st),
        sto_attempts := rows_updated (?a now) (ended_attempt (x\<lparr>oex_status := ATTEMPT_ABANDONED\<rparr>)) (sto_attempts ?st)\<rparr>"
      using 1(1) None
      by (auto simp: Let_def wbind_eq_Inr_iff select_defs tx_iffs simp del: wrequire_apply
          dest!: reads abandon_contexts)
    have ids: "distinct (map cxr_read_context_id (sto_contexts ?st))" "distinct (map atr_attempt_id (sto_attempts ?st))"
      using unique st' by (simp_all add: unique_keys_def unique_contexts_def unique_attempts_def distinct_rows_updated ended_attempt_def)
    obtain a where a: "a \<in> set (sto_attempts ?st)" "?a now a" using filter_one [OF one] by blast
    then have "a = row" using ids(2) 1(2,3) inj_onD [of atr_attempt_id "set (sto_attempts ?st)" a row]
      by (auto simp: distinct_map)
    then have attempts: "rows_updated (?a now) f (sto_attempts ?st) =
        rows_updated (\<lambda>x. atr_attempt_id x = atr_attempt_id row) f (sto_attempts ?st)" for f
      using rows_updated_unique [of atr_attempt_id "sto_attempts ?st" row "?a now"] ids(2) a 1(2,3) by simp
    have "?c k \<longleftrightarrow> active_context row k" if "k \<in> set (sto_contexts ?st)" for k
      using that ids(1) 1(3,4) by (auto simp: active_context_def distinct_map dest: inj_onD)
    then have contexts: "rows_updated ?c ?lost (sto_contexts ?st) = rows_updated (active_context row) ?lost (sto_contexts ?st)"
      by (simp add: rows_updated_def)
    have "running row ?st" using 1 running by (auto simp: running_def)
    from lifecycle_change.abandoned [OF this, of "oex_operation_id x" "rr_code (oex_reason x)" "oex_reason_json x"
        "oex_ended_at x" "derived (oex_operation_id x)"]
    show ?thesis
      unfolding st' attempts contexts ended_attempt_eq using unique st' attempts contexts
      by (simp add: on_attempt_def ended_attempt_eq)
  qed
qed

section \<open>The operations\<close>

text \<open>The calls of the persistence layer, with the arguments of the caller: each checks them, builds what it expects
  to find and runs one transaction.\<close>

datatype operation =
    Claim_Run uuid uuid run_request
  | Start_Attempt claimed_run uuid uuid uuid instant execution_budgets
  | Renew_Attempt run_attempt uuid instant
  | Persist_Context run_attempt context_definition
  | Close_Context run_attempt uuid uuid instant
  | Lose_Context run_attempt uuid uuid instant
  | Retry_Incomplete run_attempt uuid result_reason instant
  | Retry_Error run_attempt uuid result_reason instant
  | Publish_Incomplete run_attempt uuid result_reason instant
  | Publish_Error run_attempt uuid result_reason instant
  | Abandon_Attempt run_attempt uuid result_reason instant

definition ending :: "read_context_status \<Rightarrow> run_attempt \<Rightarrow> uuid \<Rightarrow> uuid \<Rightarrow> instant \<Rightarrow> context_end" where
  "ending state attempt context_id end_operation_id ended_at =
     \<lparr>cxe_attempt = attempt, cxe_read_context_id = context_id, cxe_end_operation_id = end_operation_id,
      cxe_ended_at = ended_at, cxe_target_state = state\<rparr>"

definition ignoring :: "'a tx \<Rightarrow> unit tx" where
  "ignoring m = wbind m (\<lambda>_. wreturn ())"

primrec operation_transaction :: "(uuid \<Rightarrow> uuid \<Rightarrow> uuid) \<Rightarrow> operation \<Rightarrow> unit tx" where
  "operation_transaction derived (Claim_Run i c q) =
     wbind (codec (run_expectation_of i c q)) (\<lambda>x. ignoring (claim_run_once x))"
| "operation_transaction derived (Start_Attempt run i s owner expiry budgets) =
     wbind (codec (attempt_expectation_of run i s owner expiry budgets)) (\<lambda>x. ignoring (start_attempt_once x))"
| "operation_transaction derived (Renew_Attempt a i expiry) =
     wbind (codec (renewal_expectation_of a i expiry)) (\<lambda>x. ignoring (renew_attempt_once x))"
| "operation_transaction derived (Persist_Context a d) =
     ignoring (persist_context_once \<lparr>cex_attempt = a, cex_definition = d\<rparr>)"
| "operation_transaction derived (Close_Context a c i time) =
     ignoring (finish_context_once (ending READ_CONTEXT_CLOSED a c i time))"
| "operation_transaction derived (Lose_Context a c i time) =
     ignoring (finish_context_once (ending READ_CONTEXT_LOST a c i time))"
| "operation_transaction derived (Retry_Incomplete a i reason time) =
     wbind (codec (incomplete_outcome_expectation a i reason time)) (\<lambda>x. ignoring (persist_retryable_outcome_once x))"
| "operation_transaction derived (Retry_Error a i reason time) =
     wbind (codec (error_outcome_expectation a i reason time)) (\<lambda>x. ignoring (persist_retryable_outcome_once x))"
| "operation_transaction derived (Publish_Incomplete a i reason time) =
     wbind (codec (incomplete_outcome_expectation a i reason time)) (\<lambda>x. ignoring (publish_terminal_outcome_once x))"
| "operation_transaction derived (Publish_Error a i reason time) =
     wbind (codec (error_outcome_expectation a i reason time)) (\<lambda>x. ignoring (publish_terminal_outcome_once x))"
| "operation_transaction derived (Abandon_Attempt a i reason time) =
     wbind (codec (abandoned_outcome_expectation a i reason time)) (\<lambda>x. ignoring (abandon_attempt_once derived x))"

definition perform ::
  "(uuid \<Rightarrow> uuid \<Rightarrow> uuid) \<Rightarrow> (store \<Rightarrow> store \<Rightarrow> bool) \<Rightarrow> (nat \<Rightarrow> instant) \<Rightarrow> operation \<Rightarrow> store \<Rightarrow>
   (lifecycle_error + unit) \<times> store" where
  "perform derived accepts now op st = transact accepts now (operation_transaction derived op) st"

lemma outcome_status:
  "incomplete_outcome_expectation a i reason time = Inr x \<Longrightarrow> oex_status x = ATTEMPT_INCOMPLETE"
  "error_outcome_expectation a i reason time = Inr x \<Longrightarrow> oex_status x = ATTEMPT_ERROR"
  "abandoned_outcome_expectation a i reason time = Inr x \<Longrightarrow> oex_status x = ATTEMPT_ABANDONED"
  by (auto simp: incomplete_outcome_expectation_def error_outcome_expectation_def abandoned_outcome_expectation_def
      outcome_expectation_of_def ebind_def split: sum.splits)

lemma operation_effect:
  assumes "operation_transaction derived op t = (Inr u, t')"
  shows "tx_store t' = tx_store t \<or> (lifecycle_change (tx_store t) (tx_store t') \<and> unique_keys (tx_store t'))"
  using assms
  by (cases op)
    (auto simp: wbind_eq_Inr_iff tx_iffs ignoring_def ending_def dest: outcome_status claim_effect start_effect renew_effect
      persist_context_effect dest!: finish_context_effect retryable_effect publish_effect abandon_effect)

text \<open>The attempt on whose behalf an operation acts, when it acts for the holder of a lease.\<close>

fun holder :: "operation \<Rightarrow> run_attempt option" where
  "holder (Renew_Attempt a _ _) = Some a"
| "holder (Persist_Context a _) = Some a"
| "holder (Close_Context a _ _ _) = Some a"
| "holder (Lose_Context a _ _ _) = Some a"
| "holder (Retry_Incomplete a _ _ _) = Some a"
| "holder (Retry_Error a _ _ _) = Some a"
| "holder (Publish_Incomplete a _ _ _) = Some a"
| "holder (Publish_Error a _ _ _) = Some a"
| "holder op = None"

lemma expectation_attempts:
  "renewal_expectation_of a i expiry = Inr lx \<Longrightarrow> lex_attempt lx = a"
  "incomplete_outcome_expectation a i reason time = Inr x \<Longrightarrow> oex_attempt x = a"
  "error_outcome_expectation a i reason time = Inr x \<Longrightarrow> oex_attempt x = a"
  by (auto simp: renewal_expectation_of_def incomplete_outcome_expectation_def error_outcome_expectation_def
      outcome_expectation_of_def ebind_def split: sum.splits)

lemma operation_fenced:
  assumes "operation_transaction derived op t = (Inr u, t')" "holder op = Some a" "tx_store t' \<noteq> tx_store t"
  shows "fenced_by a (tx_now t) (tx_store t)"
  using assms
  by (cases op)
    (auto simp: wbind_eq_Inr_iff tx_iffs ignoring_def ending_def dest: outcome_status expectation_attempts
      dest!: renew_effect persist_context_effect finish_context_effect retryable_effect publish_effect)

lemma transact_cases:
  assumes "transact accepts now m st = (r, st')"
  shows "(\<exists>e. r = Inl e \<and> st' = st) \<or>
    (\<exists>x t'. r = Inr x \<and> m \<lparr>tx_store = st, tx_now = now, tx_reads = 1, tx_accepts = accepts\<rparr> = (Inr x, t') \<and> st' = tx_store t')"
  using assms by (auto simp: transact_def split: prod.splits sum.splits)

lemma perform_effect:
  assumes "perform derived accepts now op st = (r, st')"
  shows "st' = st \<or> (lifecycle_change st st' \<and> unique_keys st')"
  using transact_cases [OF assms [unfolded perform_def]] operation_effect by fastforce

lemma perform_fenced:
  assumes "perform derived accepts now op st = (r, st')" "holder op = Some a" "st' \<noteq> st"
  shows "fenced_by a now st"
  using transact_cases [OF assms(1) [unfolded perform_def]] operation_fenced [OF _ assms(2)] assms(3) by fastforce

text \<open>(C18) Every operation, whoever calls it, at whatever times and whatever the constraints of the schema say, either
  raises and leaves the metadata database as it was, or returns having made no change or exactly one change of the
  lifecycle machine, after which the keys of the schema hold.\<close>

theorem operations_refine_machine:
  "case perform derived accepts now op st of
     (Inl e, st') \<Rightarrow> st' = st
   | (Inr _, st') \<Rightarrow> st' = st \<or> (lifecycle_change st st' \<and> unique_keys st')"
proof (cases "perform derived accepts now op st")
  case (Pair r st')
  then show ?thesis
    using perform_effect [OF Pair] transact_cases [OF Pair [unfolded perform_def]] by (auto split: sum.splits)
qed

end
