(* ===== verification/Lifecycle_Invariant.thy ===== *)
theory Lifecycle_Invariant
  imports Lifecycle_Machine
begin

text \<open>
  The invariant of the run lifecycle: the attempts of a run are numbered from 1, belong to one invocation, are no
  more than the request allows and at most one of them runs; a terminal run is backed by an ended attempt; an
  ended attempt has no open read context; the lease of an attempt is the sum of its renewals. It holds in every
  store that the operations reach, whatever the clock, the interleaving and the other constraints do.
\<close>

section \<open>The request a run stores\<close>

lemma json_norm_member:
  assumes "json_norm (JObj ps) = json_norm (JObj qs)" "distinct (map fst qs)" "(k, v) \<in> set ps" "(k, w) \<in> set qs"
  shows "json_norm v = json_norm w"
proof -
  let ?norm = "map (\<lambda>(k, v). (k, json_norm v))"
  have "set (sort_key fst (?norm ps)) = set (sort_key fst (?norm qs))" using assms(1) by simp
  then have "set (?norm ps) = set (?norm qs)" by (simp only: set_sort)
  moreover have "(k, json_norm v) \<in> set (?norm ps)" using assms(3) by (auto intro: rev_image_eqI)
  ultimately have "(k, json_norm v) \<in> set (?norm qs)" by simp
  then obtain u where u: "(k, u) \<in> set qs" "json_norm u = json_norm v" by auto
  show ?thesis using eq_key_imp_eq_value [OF assms(2) u(1) assms(4)] u(2) by simp
qed

lemma asc_inj [simp]: "asc s = asc t \<longleftrightarrow> s = t"
proof -
  have "inj (of_char :: char \<Rightarrow> nat)" by (simp add: inj_on_def)
  then show ?thesis by (simp add: asc_def inj_map_eq_map)
qed

lemma scope_type_distinct: "json_distinct (scope_type_semantics f)"
  by (cases "fs_logical_type f"; cases "fs_parameters f") (simp_all add: scope_type_semantics_def)

lemma request_json_distinct: "json_distinct (run_request_semantic_value q)"
  by (simp add: run_request_semantic_value_def run_request_semantics_def evidence_policy_semantics_def
      execution_policy_semantics_def resolved_scope_semantics_def list_all_iff scope_type_distinct)

lemma canonical_json_printed:
  "canonical_semantic_json v = Inr s \<Longrightarrow> s = json_dumps v \<and> json_printable v"
  by (auto simp: canonical_semantic_json_def json_dumps_text_def result_iffs)

lemma requested_by_attempts:
  assumes "requested_by r p" "requested_by r q"
  shows "eb_max_attempts (rq_execution_policy p) = eb_max_attempts (rq_execution_policy q)"
proof -
  let ?v = "\<lambda>q. run_request_semantics (rq_contract_version_id q) (rq_origin q) (rq_scope q) (rq_expected_batches q)
       (rq_execution_policy q) (rq_evidence_policy q)"
  have wf: "json_wf (run_request_semantic_value p)" "json_wf (run_request_semantic_value q)"
    and "json_dumps (run_request_semantic_value p) = json_dumps (run_request_semantic_value q)"
    using assms canonical_json_printed request_json_distinct
    by (auto simp: requested_by_def json_wf_iff)
  then have "json_norm (run_request_semantic_value p) = json_norm (run_request_semantic_value q)"
    by (rule json_dumps_inj)
  then have policy: "json_norm (execution_policy_semantics (rq_execution_policy p)) =
      json_norm (execution_policy_semantics (rq_execution_policy q))"
    unfolding run_request_semantic_value_def run_request_semantics_def
    by (rule json_norm_member [where k = "asc ''execution_policy''"]) simp_all
  have "json_norm (JInt (eb_max_attempts (rq_execution_policy p))) = json_norm (JInt (eb_max_attempts (rq_execution_policy q)))"
    using policy unfolding execution_policy_semantics_def
    by (rule json_norm_member [where k = "asc ''max_attempts''"]) simp_all
  then show ?thesis by simp
qed

section \<open>The invariant\<close>

definition attempts_ok :: "store \<Rightarrow> bool" where
  "attempts_ok st \<longleftrightarrow>
     (\<forall>i. map atr_ordinal (attempts_of i st) = map int [1..<Suc (length (attempts_of i st))]) \<and>
     (\<forall>a \<in> set (sto_attempts st). \<forall>b \<in> set (sto_attempts st). atr_run_id a = atr_run_id b \<longrightarrow> atr_owner_token a = atr_owner_token b) \<and>
     (\<forall>a \<in> set (sto_attempts st). \<exists>r \<in> set (sto_runs st). rnr_run_id r = atr_run_id a) \<and>
     (\<forall>r \<in> set (sto_runs st). \<forall>q. requested_by r q \<longrightarrow>
        int (length (attempts_of (rnr_run_id r) st)) \<le> max 0 (eb_max_attempts (rq_execution_policy q)))"

definition terminal_ok :: "store \<Rightarrow> bool" where
  "terminal_ok st \<longleftrightarrow> (\<forall>r \<in> set (sto_runs st).
     case rnr_selected_terminal_attempt_id r of
       None \<Rightarrow> rnr_terminal_operation_id r = None \<and> rnr_terminal_at r = None
     | Some i \<Rightarrow>
         (\<exists>a \<in> set (sto_attempts st). atr_attempt_id a = i \<and> atr_run_id a = rnr_run_id r \<and>
            atr_status a \<in> {ATTEMPT_INCOMPLETE, ATTEMPT_ERROR} \<and> atr_end_operation_id a = rnr_terminal_operation_id r \<and>
            atr_ended_at a = rnr_terminal_at r) \<and>
         (\<forall>a \<in> set (attempts_of (rnr_run_id r) st). atr_status a \<noteq> ATTEMPT_RUNNING))"

definition endings_ok :: "store \<Rightarrow> bool" where
  "endings_ok st \<longleftrightarrow>
     (\<forall>a \<in> set (sto_attempts st). (atr_status a = ATTEMPT_RUNNING) = (atr_end_operation_id a = None) \<and>
        (atr_status a = ATTEMPT_RUNNING) = (atr_ended_at a = None)) \<and>
     (\<forall>c \<in> set (sto_contexts st). (cxr_state c = READ_CONTEXT_ACTIVE) = (cxr_end_operation_id c = None) \<and>
        (\<exists>a \<in> set (sto_attempts st). atr_attempt_id a = cxr_attempt_id c \<and> atr_run_id a = cxr_run_id c \<and>
           (cxr_state c = READ_CONTEXT_ACTIVE \<longrightarrow> atr_status a = ATTEMPT_RUNNING)))"

definition renewals_of :: "attempt_row \<Rightarrow> store \<Rightarrow> renewal_row list" where
  "renewals_of a st = filter (\<lambda>l. rwr_attempt_id l = atr_attempt_id a) (sto_renewals st)"

definition leases_ok :: "store \<Rightarrow> bool" where
  "leases_ok st \<longleftrightarrow>
     (\<forall>a \<in> set (sto_attempts st).
        atr_lease_revision a = int (length (renewals_of a st)) \<and>
        map rwr_resulting_lease_revision (renewals_of a st) = map int [1..<Suc (length (renewals_of a st))] \<and>
        atr_initial_lease_expires_at a \<le> atr_lease_expires_at a \<and>
        (if renewals_of a st = [] then atr_lease_operation_id a = None \<and> atr_lease_expires_at a = atr_initial_lease_expires_at a
         else atr_lease_operation_id a = Some (rwr_lease_operation_id (last (renewals_of a st))) \<and>
           atr_lease_expires_at a = rwr_requested_lease_expires_at (last (renewals_of a st)))) \<and>
     (\<forall>l \<in> set (sto_renewals st). \<exists>a \<in> set (sto_attempts st). atr_attempt_id a = rwr_attempt_id l)"

definition lifecycle_ok :: "store \<Rightarrow> bool" where
  "lifecycle_ok st \<longleftrightarrow> unique_keys st \<and> attempts_ok st \<and> terminal_ok st \<and> endings_ok st \<and> leases_ok st"

section \<open>Updates of rows\<close>

lemma set_rows_updated: "set (rows_updated p f rows) = (\<lambda>r. if p r then f r else r) ` set rows"
  by (simp add: rows_updated_def)

lemma rows_updated_back: "x \<in> set (rows_updated p f rows) \<Longrightarrow> \<exists>y \<in> set rows. x = (if p y then f y else y)"
  by (auto simp: set_rows_updated)

lemma rows_updated_forth: "y \<in> set rows \<Longrightarrow> (if p y then f y else y) \<in> set (rows_updated p f rows)"
  by (auto simp: set_rows_updated)

lemma map_rows_updated: "(\<And>r. key (f r) = key r) \<Longrightarrow> map key (rows_updated p f rows) = map key rows"
  by (simp add: rows_updated_def)

lemma filter_rows_updated:
  "(\<And>r. q (f r) = q r) \<Longrightarrow> filter q (rows_updated p f rows) = rows_updated p f (filter q rows)"
  by (induction rows) (simp_all add: rows_updated_def)

lemma length_rows_updated [simp]: "length (rows_updated p f rows) = length rows"
  by (simp add: rows_updated_def)

lemma on_attempt_fields [simp]:
  "sto_runs (on_attempt a f st) = sto_runs st" "sto_renewals (on_attempt a f st) = sto_renewals st"
  "sto_contexts (on_attempt a f st) = sto_contexts st" "sto_observations (on_attempt a f st) = sto_observations st"
  "sto_attempts (on_attempt a f st) = rows_updated (\<lambda>x. atr_attempt_id x = atr_attempt_id a) f (sto_attempts st)"
  by (simp_all add: on_attempt_def)

lemma on_run_fields [simp]:
  "sto_runs (on_run i f st) = rows_updated (\<lambda>x. rnr_run_id x = i) f (sto_runs st)"
  "sto_renewals (on_run i f st) = sto_renewals st" "sto_contexts (on_run i f st) = sto_contexts st"
  "sto_attempts (on_run i f st) = sto_attempts st"
  by (simp_all add: on_run_def)

lemma on_context_fields [simp]:
  "sto_runs (on_context c f st) = sto_runs st" "sto_renewals (on_context c f st) = sto_renewals st"
  "sto_attempts (on_context c f st) = sto_attempts st"
  "sto_contexts (on_context c f st) = rows_updated (\<lambda>x. cxr_read_context_id x = cxr_read_context_id c) f (sto_contexts st)"
  by (simp_all add: on_context_def)

text \<open>Updates that keep what identifies an attempt.\<close>

definition keeps_identity :: "(attempt_row \<Rightarrow> attempt_row) \<Rightarrow> bool" where
  "keeps_identity f \<longleftrightarrow> (\<forall>a. atr_attempt_id (f a) = atr_attempt_id a \<and> atr_run_id (f a) = atr_run_id a \<and>
     atr_ordinal (f a) = atr_ordinal a \<and> atr_owner_token (f a) = atr_owner_token a \<and>
     atr_initial_lease_expires_at (f a) = atr_initial_lease_expires_at a)"

lemma renewed_ended_identity [simp]: "keeps_identity (renewed i e)" "keeps_identity (ended s j code reason time)"
  by (simp_all add: keeps_identity_def renewed_def ended_def)

lemma attempts_of_on_attempt:
  "keeps_identity f \<Longrightarrow> sto_attempts st' = rows_updated p f (sto_attempts st) \<Longrightarrow>
   attempts_of i st' = rows_updated p f (attempts_of i st)"
  by (simp add: attempts_of_def filter_rows_updated keeps_identity_def)

lemma attempts_okD:
  assumes "attempts_ok st"
  shows "map atr_ordinal (attempts_of i st) = map int [1..<Suc (length (attempts_of i st))]"
    and "a \<in> set (sto_attempts st) \<Longrightarrow> b \<in> set (sto_attempts st) \<Longrightarrow> atr_run_id a = atr_run_id b \<Longrightarrow>
      atr_owner_token a = atr_owner_token b"
    and "a \<in> set (sto_attempts st) \<Longrightarrow> \<exists>r \<in> set (sto_runs st). rnr_run_id r = atr_run_id a"
    and "r \<in> set (sto_runs st) \<Longrightarrow> requested_by r q \<Longrightarrow>
      int (length (attempts_of (rnr_run_id r) st)) \<le> max 0 (eb_max_attempts (rq_execution_policy q))"
  using assms unfolding attempts_ok_def by blast+

lemma attempts_ok_updated:
  assumes "attempts_ok st" "keeps_identity f" "sto_attempts st' = rows_updated p f (sto_attempts st)"
    and "\<And>r'. r' \<in> set (sto_runs st') \<Longrightarrow> \<exists>r \<in> set (sto_runs st). rnr_run_id r' = rnr_run_id r \<and>
      rnr_request_payload r' = rnr_request_payload r"
    and "\<And>r. r \<in> set (sto_runs st) \<Longrightarrow> \<exists>r' \<in> set (sto_runs st'). rnr_run_id r' = rnr_run_id r"
  shows "attempts_ok st'"
proof -
  note ok = attempts_okD [OF assms(1)]
  note rows = attempts_of_on_attempt [OF assms(2,3)]
  have mem: "\<exists>b \<in> set (sto_attempts st). atr_run_id a = atr_run_id b \<and> atr_owner_token a = atr_owner_token b"
    if a: "a \<in> set (sto_attempts st')" for a
  proof -
    obtain b where b: "b \<in> set (sto_attempts st)" "a = (if p b then f b else b)"
      using a assms(3) by (auto simp: set_rows_updated)
    then show ?thesis using assms(2) by (intro bexI [of _ b]) (simp_all add: keeps_identity_def)
  qed
  have "map atr_ordinal (attempts_of i st') = map int [1..<Suc (length (attempts_of i st'))]" for i
    using ok(1) [of i] assms(2) by (simp add: rows map_rows_updated keeps_identity_def del: upt_Suc)
  moreover have "atr_owner_token a = atr_owner_token b"
    if ab: "a \<in> set (sto_attempts st')" "b \<in> set (sto_attempts st')" "atr_run_id a = atr_run_id b" for a b
  proof -
    obtain c d where c: "c \<in> set (sto_attempts st)" "atr_run_id a = atr_run_id c" "atr_owner_token a = atr_owner_token c"
      and d: "d \<in> set (sto_attempts st)" "atr_run_id b = atr_run_id d" "atr_owner_token b = atr_owner_token d"
      using mem [OF ab(1)] mem [OF ab(2)] by blast
    show ?thesis using ok(2) [OF c(1) d(1)] c d ab(3) by simp
  qed
  moreover have "\<exists>r \<in> set (sto_runs st'). rnr_run_id r = atr_run_id a" if a: "a \<in> set (sto_attempts st')" for a
  proof -
    obtain b r where "b \<in> set (sto_attempts st)" "atr_run_id a = atr_run_id b" "r \<in> set (sto_runs st)" "rnr_run_id r = atr_run_id b"
      using mem [OF a] ok(3) by blast
    then show ?thesis using assms(5) [of r] by auto
  qed
  moreover have "int (length (attempts_of (rnr_run_id r) st')) \<le> max 0 (eb_max_attempts (rq_execution_policy q))"
    if r: "r \<in> set (sto_runs st')" "requested_by r q" for r q
  proof -
    obtain o' where "o' \<in> set (sto_runs st)" "rnr_run_id r = rnr_run_id o'" "requested_by o' q"
      using assms(4) [OF r(1)] r(2) by (auto simp: requested_by_def)
    then show ?thesis using ok(4) by (simp add: rows)
  qed
  ultimately show ?thesis unfolding attempts_ok_def by blast
qed

section \<open>Every change keeps it\<close>

lemma unique_fields:
  "unique_keys st \<Longrightarrow> distinct (map rnr_run_id (sto_runs st)) \<and> distinct (map atr_attempt_id (sto_attempts st)) \<and>
    distinct (map cxr_read_context_id (sto_contexts st)) \<and>
    distinct (map atr_run_id (filter (\<lambda>a. atr_status a = ATTEMPT_RUNNING) (sto_attempts st)))"
  by (simp add: unique_keys_def unique_runs_def unique_attempts_def unique_contexts_def)

lemma same_key: "distinct (map key xs) \<Longrightarrow> x \<in> set xs \<Longrightarrow> y \<in> set xs \<Longrightarrow> key x = key y \<Longrightarrow> x = y"
  by (simp add: distinct_map inj_on_def)

lemma attempts_ok_claimed:
  assumes ok: "attempts_ok st" and unique: "distinct (map rnr_run_id (sto_runs st @ [r]))"
  shows "attempts_ok (st\<lparr>sto_runs := sto_runs st @ [r]\<rparr>)"
proof -
  have same: "attempts_of i (st\<lparr>sto_runs := sto_runs st @ [r]\<rparr>) = attempts_of i st" for i by (simp add: attempts_of_def)
  have "attempts_of (rnr_run_id r) st = []"
  proof (rule ccontr)
    assume "attempts_of (rnr_run_id r) st \<noteq> []"
    then obtain a where "a \<in> set (sto_attempts st)" "atr_run_id a = rnr_run_id r"
      by (auto simp: attempts_of_def filter_empty_conv)
    then obtain s where "s \<in> set (sto_runs st)" "rnr_run_id s = rnr_run_id r" using attempts_okD(3) [OF ok] by metis
    then have "rnr_run_id r \<in> rnr_run_id ` set (sto_runs st)" by (metis image_eqI)
    then show False using unique by simp
  qed
  then have "int (length (attempts_of (rnr_run_id s) st)) \<le> max 0 (eb_max_attempts (rq_execution_policy q))"
    if "s \<in> set (sto_runs st @ [r])" "requested_by s q" for s q
    using attempts_okD(4) [OF ok, of s q] that by auto
  moreover have "\<exists>s \<in> set (sto_runs st @ [r]). rnr_run_id s = atr_run_id a" if "a \<in> set (sto_attempts st)" for a
    using attempts_okD(3) [OF ok that] by auto
  moreover have "sto_runs (st\<lparr>sto_runs := sto_runs st @ [r]\<rparr>) = sto_runs st @ [r]"
    "sto_attempts (st\<lparr>sto_runs := sto_runs st @ [r]\<rparr>) = sto_attempts st" by simp_all
  ultimately show ?thesis
    unfolding attempts_ok_def same using attempts_okD(1,2) [OF ok] by metis
qed

lemma attempts_of_append:
  "attempts_of i (st\<lparr>sto_attempts := sto_attempts st @ [a]\<rparr>) = attempts_of i st @ (if atr_run_id a = i then [a] else [])"
  by (simp add: attempts_of_def)

lemma attempts_ok_started:
  assumes ok: "attempts_ok st" and unique: "distinct (map rnr_run_id (sto_runs st))"
    and r: "r \<in> set (sto_runs st)" "rnr_run_id r = atr_run_id a" "requested_by r q" and a: "admissible a q st"
  shows "attempts_ok (st\<lparr>sto_attempts := sto_attempts st @ [a]\<rparr>)"
proof -
  let ?st' = "st\<lparr>sto_attempts := sto_attempts st @ [a]\<rparr>"
  note okD = attempts_okD [OF ok]
  have "map atr_ordinal (attempts_of i ?st') = map int [1..<Suc (length (attempts_of i ?st'))]" for i
  proof (cases "atr_run_id a = i")
    case True
    then show ?thesis using okD(1) [of i] a by (simp add: attempts_of_append admissible_def)
  next
    case False
    then show ?thesis using okD(1) [of i] by (simp add: attempts_of_append)
  qed
  moreover have "atr_owner_token x = atr_owner_token y"
    if xy: "x \<in> set (sto_attempts ?st')" "y \<in> set (sto_attempts ?st')" "atr_run_id x = atr_run_id y" for x y
  proof -
    have owner: "atr_owner_token z = atr_owner_token a" if "z \<in> set (sto_attempts st)" "atr_run_id z = atr_run_id a" for z
      using that a by (auto simp: admissible_def attempts_of_def)
    show ?thesis using xy okD(2) [of x y] owner [of x] owner [of y] by auto
  qed
  moreover have "\<exists>r \<in> set (sto_runs ?st'). rnr_run_id r = atr_run_id x" if "x \<in> set (sto_attempts ?st')" for x
    using that okD(3) r by auto
  moreover have "int (length (attempts_of (rnr_run_id s) ?st')) \<le> max 0 (eb_max_attempts (rq_execution_policy p))"
    if s: "s \<in> set (sto_runs ?st')" "requested_by s p" for s p
  proof (cases "rnr_run_id s = atr_run_id a")
    case True
    then have "s = r" using same_key [OF unique, of s r] s(1) r by simp
    then have "eb_max_attempts (rq_execution_policy p) = eb_max_attempts (rq_execution_policy q)"
      using requested_by_attempts s(2) r(3) by blast
    then show ?thesis using a True by (simp add: attempts_of_append admissible_def)
  next
    case False
    then show ?thesis using okD(4) s by (simp add: attempts_of_append)
  qed
  ultimately show ?thesis unfolding attempts_ok_def by blast
qed

lemma attempts_ok_change:
  assumes "lifecycle_change st st'" "unique_keys st'" "unique_keys st" "attempts_ok st"
  shows "attempts_ok st'"
  using assms
proof (cases rule: lifecycle_change.cases)
  case (claimed r)
  then show ?thesis using attempts_ok_claimed [OF assms(4)] unique_fields [OF assms(2)] by simp
next
  case (started a r q)
  then show ?thesis using attempts_ok_started [OF assms(4)] unique_fields [OF assms(3)] by simp
next
  case (renewing a e i)
  then show ?thesis by (intro attempts_ok_updated [OF assms(4), of "renewed i e"]) auto
next
  case (acquired a c)
  then show ?thesis by (intro attempts_ok_updated [OF assms(4), of "\<lambda>a. a" _ "\<lambda>_. False"])
      (auto simp: keeps_identity_def rows_updated_def)
next
  case (finished a c s time i)
  then show ?thesis by (intro attempts_ok_updated [OF assms(4), of "\<lambda>a. a" _ "\<lambda>_. False"])
      (auto simp: keeps_identity_def rows_updated_def on_context_def)
next
  case (failed a s i code reason time)
  then show ?thesis by (intro attempts_ok_updated [OF assms(4), of "ended s i code reason time"]) auto
next
  case (published a s time i code reason)
  let ?p = "\<lambda>x. rnr_run_id x = atr_run_id a"
  let ?g = "\<lambda>r. r\<lparr>rnr_selected_terminal_attempt_id := Some (atr_attempt_id a), rnr_terminal_operation_id := Some i,
      rnr_terminal_at := Some time\<rparr>"
  show ?thesis
  proof (rule attempts_ok_updated [OF assms(4), of "ended s i code reason time"])
    show "\<exists>r \<in> set (sto_runs st). rnr_run_id r' = rnr_run_id r \<and> rnr_request_payload r' = rnr_request_payload r"
      if "r' \<in> set (sto_runs st')" for r'
    proof -
      have "r' \<in> set (rows_updated ?p ?g (sto_runs st))" using that published(1) by simp
      then obtain r where "r \<in> set (sto_runs st)" "r' = (if ?p r then ?g r else r)"
        using rows_updated_back [of r' ?p ?g "sto_runs st"] by blast
      then show ?thesis by (intro bexI [of _ r]) simp_all
    qed
    show "\<exists>r' \<in> set (sto_runs st'). rnr_run_id r' = rnr_run_id r" if r: "r \<in> set (sto_runs st)" for r
      using rows_updated_forth [OF r, of ?p ?g] published(1) by (intro bexI [of _ "if ?p r then ?g r else r"]) simp_all
  qed (use published in auto)
next
  case (abandoned a i code reason time derived)
  then show ?thesis
    by (intro attempts_ok_updated [OF assms(4), of "ended ATTEMPT_ABANDONED i code reason time"]) (auto simp: on_attempt_def)
qed

text \<open>How the rows of a store change: the rows of the changed attempt, run or context, and the others.\<close>

lemma on_attempt_members:
  assumes "x \<in> set (sto_attempts (on_attempt a f st))" "distinct (map atr_attempt_id (sto_attempts st))" "a \<in> set (sto_attempts st)"
  shows "x = f a \<or> (x \<in> set (sto_attempts st) \<and> x \<noteq> a \<and> atr_attempt_id x \<noteq> atr_attempt_id a)"
proof -
  obtain y where y: "y \<in> set (sto_attempts st)" "x = (if atr_attempt_id y = atr_attempt_id a then f y else y)"
    using rows_updated_back [of x "\<lambda>x. atr_attempt_id x = atr_attempt_id a" f] assms(1) by auto
  then show ?thesis using same_key [OF assms(2) y(1) assms(3)] by auto
qed

lemma on_attempt_mem:
  "y \<in> set (sto_attempts st) \<Longrightarrow> atr_attempt_id y \<noteq> atr_attempt_id a \<Longrightarrow> y \<in> set (sto_attempts (on_attempt a f st))"
  "a \<in> set (sto_attempts st) \<Longrightarrow> f a \<in> set (sto_attempts (on_attempt a f st))"
  by (force simp: set_rows_updated)+

lemma running_alone:
  assumes "unique_keys st" "running a st" "b \<in> set (sto_attempts st)" "atr_run_id b = atr_run_id a" "atr_status b = ATTEMPT_RUNNING"
  shows "b = a"
  using unique_fields [OF assms(1)] same_key [of atr_run_id "filter (\<lambda>a. atr_status a = ATTEMPT_RUNNING) (sto_attempts st)" b a] assms
  by (simp add: running_def)

lemma terminal_okD:
  assumes "terminal_ok st" "r \<in> set (sto_runs st)"
  shows "rnr_selected_terminal_attempt_id r = None \<Longrightarrow> rnr_terminal_operation_id r = None \<and> rnr_terminal_at r = None"
    and "rnr_selected_terminal_attempt_id r = Some i \<Longrightarrow> \<exists>a \<in> set (sto_attempts st). atr_attempt_id a = i \<and>
      atr_run_id a = rnr_run_id r \<and> atr_status a \<in> {ATTEMPT_INCOMPLETE, ATTEMPT_ERROR} \<and>
      atr_end_operation_id a = rnr_terminal_operation_id r \<and> atr_ended_at a = rnr_terminal_at r"
    and "rnr_selected_terminal_attempt_id r = Some i \<Longrightarrow> a \<in> set (sto_attempts st) \<Longrightarrow> atr_run_id a = rnr_run_id r \<Longrightarrow>
      atr_status a \<noteq> ATTEMPT_RUNNING"
  using assms unfolding terminal_ok_def attempts_of_def by (force split: option.splits)+

lemma terminal_okI:
  assumes "\<And>r. r \<in> set (sto_runs st) \<Longrightarrow> rnr_selected_terminal_attempt_id r = None \<Longrightarrow>
      rnr_terminal_operation_id r = None \<and> rnr_terminal_at r = None"
    and "\<And>r i. r \<in> set (sto_runs st) \<Longrightarrow> rnr_selected_terminal_attempt_id r = Some i \<Longrightarrow>
      (\<exists>a \<in> set (sto_attempts st). atr_attempt_id a = i \<and>
        atr_run_id a = rnr_run_id r \<and> atr_status a \<in> {ATTEMPT_INCOMPLETE, ATTEMPT_ERROR} \<and>
        atr_end_operation_id a = rnr_terminal_operation_id r \<and> atr_ended_at a = rnr_terminal_at r) \<and>
      (\<forall>a \<in> set (sto_attempts st). atr_run_id a = rnr_run_id r \<longrightarrow> atr_status a \<noteq> ATTEMPT_RUNNING)"
  shows "terminal_ok st"
  using assms unfolding terminal_ok_def attempts_of_def by (auto split: option.splits)

text \<open>A change of a running attempt leaves the attempts that back terminal runs alone.\<close>

lemma terminal_ok_on_attempt:
  assumes ok: "terminal_ok st" and unique: "unique_keys st" and a: "running a st" and f: "keeps_identity f"
    and runs: "sto_runs st' = sto_runs st" and attempts: "sto_attempts st' = sto_attempts (on_attempt a f st)"
  shows "terminal_ok st'"
proof (rule terminal_okI)
  fix r assume "r \<in> set (sto_runs st')" "rnr_selected_terminal_attempt_id r = None"
  then show "rnr_terminal_operation_id r = None \<and> rnr_terminal_at r = None" using terminal_okD(1) [OF ok] runs by simp
next
  fix r i assume r: "r \<in> set (sto_runs st')" "rnr_selected_terminal_attempt_id r = Some i"
  then have mem: "r \<in> set (sto_runs st)" using runs by simp
  note ids = unique_fields [OF unique]
  have ain: "a \<in> set (sto_attempts st)" "atr_status a = ATTEMPT_RUNNING" using a by (simp_all add: running_def)
  have other: "atr_run_id a \<noteq> rnr_run_id r" using terminal_okD(3) [OF ok mem r(2) ain(1)] ain(2) by blast
  obtain b where b: "b \<in> set (sto_attempts st)" "atr_attempt_id b = i" "atr_run_id b = rnr_run_id r"
    "atr_status b \<in> {ATTEMPT_INCOMPLETE, ATTEMPT_ERROR}" "atr_end_operation_id b = rnr_terminal_operation_id r"
    "atr_ended_at b = rnr_terminal_at r"
    using terminal_okD(2) [OF ok mem r(2)] by blast
  have "atr_attempt_id b \<noteq> atr_attempt_id a"
    using same_key [of atr_attempt_id "sto_attempts st" b a] ids b ain other by auto
  then have "b \<in> set (sto_attempts st')" using on_attempt_mem(1) [OF b(1)] attempts by simp
  moreover have "atr_status x \<noteq> ATTEMPT_RUNNING" if x: "x \<in> set (sto_attempts st')" "atr_run_id x = rnr_run_id r" for x
    using on_attempt_members [of x a f st] ids ain x other f attempts terminal_okD(3) [OF ok mem r(2), of x]
    by (auto simp: keeps_identity_def)
  ultimately show "(\<exists>a \<in> set (sto_attempts st'). atr_attempt_id a = i \<and>
        atr_run_id a = rnr_run_id r \<and> atr_status a \<in> {ATTEMPT_INCOMPLETE, ATTEMPT_ERROR} \<and>
        atr_end_operation_id a = rnr_terminal_operation_id r \<and> atr_ended_at a = rnr_terminal_at r) \<and>
      (\<forall>a \<in> set (sto_attempts st'). atr_run_id a = rnr_run_id r \<longrightarrow> atr_status a \<noteq> ATTEMPT_RUNNING)"
    using b by blast
qed

lemma terminal_ok_cong:
  assumes "sto_runs st' = sto_runs st" "sto_attempts st' = sto_attempts st"
  shows "terminal_ok st' = terminal_ok st"
  unfolding terminal_ok_def attempts_of_def assms ..

lemma terminal_ok_claimed:
  assumes "terminal_ok st" "fresh_run r"
  shows "terminal_ok (st\<lparr>sto_runs := sto_runs st @ [r]\<rparr>)"
  using assms by (auto simp: terminal_ok_def fresh_run_def attempts_of_def split: option.splits)

lemma terminal_ok_started:
  assumes ok: "terminal_ok st" and unique: "unique_keys st" and r: "r \<in> set (sto_runs st)" "rnr_run_id r = atr_run_id a"
    "rnr_selected_terminal_attempt_id r = None"
  shows "terminal_ok (st\<lparr>sto_attempts := sto_attempts st @ [a]\<rparr>)"
proof (rule terminal_okI)
  fix s i assume s: "s \<in> set (sto_runs (st\<lparr>sto_attempts := sto_attempts st @ [a]\<rparr>))" "rnr_selected_terminal_attempt_id s = Some i"
  then have mem: "s \<in> set (sto_runs st)" by simp
  have "atr_run_id a \<noteq> rnr_run_id s"
    using same_key [of rnr_run_id "sto_runs st" s r] unique_fields [OF unique] mem r s(2) by auto
  then show "(\<exists>x \<in> set (sto_attempts (st\<lparr>sto_attempts := sto_attempts st @ [a]\<rparr>)). atr_attempt_id x = i \<and>
        atr_run_id x = rnr_run_id s \<and> atr_status x \<in> {ATTEMPT_INCOMPLETE, ATTEMPT_ERROR} \<and>
        atr_end_operation_id x = rnr_terminal_operation_id s \<and> atr_ended_at x = rnr_terminal_at s) \<and>
      (\<forall>x \<in> set (sto_attempts (st\<lparr>sto_attempts := sto_attempts st @ [a]\<rparr>)). atr_run_id x = rnr_run_id s \<longrightarrow>
        atr_status x \<noteq> ATTEMPT_RUNNING)"
    using terminal_okD(2,3) [OF ok mem s(2)] by auto
qed (use terminal_okD(1) [OF ok] in simp)

lemma terminal_ok_published:
  assumes ok: "terminal_ok st" and unique: "unique_keys st" and a: "running a st"
    and s: "s \<in> {ATTEMPT_INCOMPLETE, ATTEMPT_ERROR}"
    and st': "st' = on_run (atr_run_id a) (\<lambda>r. r\<lparr>rnr_selected_terminal_attempt_id := Some (atr_attempt_id a),
        rnr_terminal_operation_id := Some i, rnr_terminal_at := Some time\<rparr>)
      (on_attempt a (ended s i code reason time) st)"
  shows "terminal_ok st'"
proof -
  let ?f = "ended s i code reason time" and ?mid = "on_attempt a (ended s i code reason time) st"
  let ?p = "\<lambda>x. rnr_run_id x = atr_run_id a"
  let ?g = "\<lambda>r. r\<lparr>rnr_selected_terminal_attempt_id := Some (atr_attempt_id a),
        rnr_terminal_operation_id := Some i, rnr_terminal_at := Some time\<rparr>"
  have mid: "terminal_ok ?mid" by (rule terminal_ok_on_attempt [OF ok unique a]) simp_all
  have ain: "a \<in> set (sto_attempts st)" using a by (simp add: running_def)
  have ended: "?f a \<in> set (sto_attempts ?mid)" using on_attempt_mem(2) [OF ain] .
  have idle: "atr_status x \<noteq> ATTEMPT_RUNNING" if x: "x \<in> set (sto_attempts ?mid)" "atr_run_id x = atr_run_id a" for x
    using on_attempt_members [OF x(1) _ ain] unique_fields [OF unique] running_alone [OF unique a, of x] x(2) s
    by (auto simp: ended_def)
  show ?thesis
  proof (rule terminal_okI)
    fix r assume r: "r \<in> set (sto_runs st')" "rnr_selected_terminal_attempt_id r = None"
    then obtain y where "y \<in> set (sto_runs st)" "r = (if ?p y then ?g y else y)"
      using rows_updated_back [of r ?p ?g "sto_runs st"] st' by auto
    then show "rnr_terminal_operation_id r = None \<and> rnr_terminal_at r = None"
      using r(2) terminal_okD(1) [OF ok] by (auto split: if_splits)
  next
    fix r j assume r: "r \<in> set (sto_runs st')" "rnr_selected_terminal_attempt_id r = Some j"
    then obtain y where y: "y \<in> set (sto_runs st)" "r = (if ?p y then ?g y else y)"
      using rows_updated_back [of r ?p ?g "sto_runs st"] st' by auto
    show "(\<exists>x \<in> set (sto_attempts st'). atr_attempt_id x = j \<and>
        atr_run_id x = rnr_run_id r \<and> atr_status x \<in> {ATTEMPT_INCOMPLETE, ATTEMPT_ERROR} \<and>
        atr_end_operation_id x = rnr_terminal_operation_id r \<and> atr_ended_at x = rnr_terminal_at r) \<and>
      (\<forall>x \<in> set (sto_attempts st'). atr_run_id x = rnr_run_id r \<longrightarrow> atr_status x \<noteq> ATTEMPT_RUNNING)"
    proof (cases "?p y")
      case True
      then have r': "j = atr_attempt_id a" "rnr_run_id r = atr_run_id a" "rnr_terminal_operation_id r = Some i"
        "rnr_terminal_at r = Some time" using y r(2) by auto
      have same: "sto_attempts st' = sto_attempts ?mid" using st' by simp
      have "atr_attempt_id (?f a) = j \<and> atr_run_id (?f a) = rnr_run_id r \<and> atr_status (?f a) \<in> {ATTEMPT_INCOMPLETE, ATTEMPT_ERROR} \<and>
          atr_end_operation_id (?f a) = rnr_terminal_operation_id r \<and> atr_ended_at (?f a) = rnr_terminal_at r"
        using s r' by (simp add: ended_def)
      moreover have "?f a \<in> set (sto_attempts st')" using ended same by simp
      moreover have "\<forall>x \<in> set (sto_attempts st'). atr_run_id x = rnr_run_id r \<longrightarrow> atr_status x \<noteq> ATTEMPT_RUNNING"
        using idle same r'(2) by simp
      ultimately show ?thesis by blast
    next
      case False
      then have "y \<in> set (sto_runs ?mid)" "r = y" using y by simp_all
      then show ?thesis using terminal_okD(2,3) [OF mid, of y j] r(2) st' by simp
    qed
  qed
qed

lemma terminal_ok_change:
  assumes "lifecycle_change st st'" "unique_keys st" "terminal_ok st"
  shows "terminal_ok st'"
  using assms(1)
proof (cases rule: lifecycle_change.cases)
  case (claimed r)
  then show ?thesis using terminal_ok_claimed [OF assms(3)] by simp
next
  case (started a r q)
  then show ?thesis using terminal_ok_started [OF assms(3,2)] by blast
next
  case (renewing a e i)
  then show ?thesis by (intro terminal_ok_on_attempt [OF assms(3,2), of a "renewed i e"]) simp_all
next
  case (acquired a c)
  then show ?thesis using assms(3) terminal_ok_cong [of st' st] by simp
next
  case (finished a c s time i)
  then show ?thesis using assms(3) terminal_ok_cong [of st' st] by simp
next
  case (failed a s i code reason time)
  then show ?thesis by (intro terminal_ok_on_attempt [OF assms(3,2), of a "ended s i code reason time"]) simp_all
next
  case (published a s time i code reason)
  then show ?thesis using terminal_ok_published [OF assms(3,2)] by blast
next
  case (abandoned a i code reason time derived)
  then show ?thesis
    by (intro terminal_ok_on_attempt [OF assms(3,2), of a "ended ATTEMPT_ABANDONED i code reason time"]) simp_all
qed

definition ending_consistent :: "attempt_row \<Rightarrow> bool" where
  "ending_consistent a \<longleftrightarrow> (atr_status a = ATTEMPT_RUNNING) = (atr_end_operation_id a = None) \<and>
     (atr_status a = ATTEMPT_RUNNING) = (atr_ended_at a = None)"

definition context_backed :: "context_row \<Rightarrow> store \<Rightarrow> bool" where
  "context_backed c st \<longleftrightarrow> (\<exists>a \<in> set (sto_attempts st). atr_attempt_id a = cxr_attempt_id c \<and> atr_run_id a = cxr_run_id c \<and>
     (cxr_state c = READ_CONTEXT_ACTIVE \<longrightarrow> atr_status a = ATTEMPT_RUNNING))"

lemma endings_ok_iff:
  "endings_ok st \<longleftrightarrow> (\<forall>a \<in> set (sto_attempts st). ending_consistent a) \<and>
     (\<forall>c \<in> set (sto_contexts st). (cxr_state c = READ_CONTEXT_ACTIVE) = (cxr_end_operation_id c = None) \<and> context_backed c st)"
  by (simp add: endings_ok_def ending_consistent_def context_backed_def)

lemma endings_ok_on_attempt:
  assumes ok: "endings_ok st" and unique: "unique_keys st" and a: "a \<in> set (sto_attempts st)" and f: "keeps_identity f"
    and consistent: "ending_consistent (f a)"
    and attempts: "sto_attempts st' = sto_attempts (on_attempt a f st)"
    and contexts: "\<And>c'. c' \<in> set (sto_contexts st') \<Longrightarrow> (cxr_state c' = READ_CONTEXT_ACTIVE) = (cxr_end_operation_id c' = None) \<and>
      (\<exists>c \<in> set (sto_contexts st). cxr_attempt_id c' = cxr_attempt_id c \<and> cxr_run_id c' = cxr_run_id c \<and>
        (cxr_state c' = READ_CONTEXT_ACTIVE \<longrightarrow> cxr_state c = READ_CONTEXT_ACTIVE \<and>
          (atr_status (f a) = ATTEMPT_RUNNING \<or> \<not> active_context a c)))"
  shows "endings_ok st'"
proof -
  have "ending_consistent x" if "x \<in> set (sto_attempts st')" for x
    using on_attempt_members [of x a f st] that attempts a unique_fields [OF unique] consistent ok
    by (auto simp: endings_ok_iff)
  moreover have "context_backed c' st'" if c': "c' \<in> set (sto_contexts st')" for c'
  proof -
    obtain c where c: "c \<in> set (sto_contexts st)" "cxr_attempt_id c' = cxr_attempt_id c" "cxr_run_id c' = cxr_run_id c"
      "cxr_state c' = READ_CONTEXT_ACTIVE \<Longrightarrow> cxr_state c = READ_CONTEXT_ACTIVE \<and>
        (atr_status (f a) = ATTEMPT_RUNNING \<or> \<not> active_context a c)"
      using contexts [OF c'] by blast
    obtain x where x: "x \<in> set (sto_attempts st)" "atr_attempt_id x = cxr_attempt_id c" "atr_run_id x = cxr_run_id c"
      "cxr_state c = READ_CONTEXT_ACTIVE \<Longrightarrow> atr_status x = ATTEMPT_RUNNING"
      using ok c(1) by (auto simp: endings_ok_iff context_backed_def)
    show ?thesis
    proof (cases "atr_attempt_id x = atr_attempt_id a")
      case True
      then have "x = a" using same_key [of atr_attempt_id "sto_attempts st" x a] unique_fields [OF unique] x(1) a by simp
      moreover have "f a \<in> set (sto_attempts st')" using on_attempt_mem(2) [OF a] attempts by simp
      ultimately show ?thesis using c x f
        by (auto simp: context_backed_def keeps_identity_def active_context_def intro!: bexI [of _ "f a"])
    next
      case False
      then have "x \<in> set (sto_attempts st')" using on_attempt_mem(1) [OF x(1)] attempts by simp
      then show ?thesis using c x by (auto simp: context_backed_def)
    qed
  qed
  ultimately show ?thesis using contexts by (simp add: endings_ok_iff)
qed

lemma endings_okD:
  "endings_ok st \<Longrightarrow> a \<in> set (sto_attempts st) \<Longrightarrow> ending_consistent a"
  "endings_ok st \<Longrightarrow> c \<in> set (sto_contexts st) \<Longrightarrow> (cxr_state c = READ_CONTEXT_ACTIVE) = (cxr_end_operation_id c = None)"
  "endings_ok st \<Longrightarrow> c \<in> set (sto_contexts st) \<Longrightarrow> context_backed c st"
  by (auto simp: endings_ok_iff)

lemma context_backed_mono: "context_backed c st \<Longrightarrow> set (sto_attempts st) \<subseteq> set (sto_attempts st') \<Longrightarrow> context_backed c st'"
  by (auto simp: context_backed_def)

lemma endings_ok_cong:
  assumes "sto_attempts st' = sto_attempts st" "sto_contexts st' = sto_contexts st"
  shows "endings_ok st' = endings_ok st"
  unfolding endings_ok_def assms ..

lemma endings_ok_change:
  assumes "lifecycle_change st st'" "unique_keys st" "endings_ok st"
  shows "endings_ok st'"
  using assms(1)
proof (cases rule: lifecycle_change.cases)
  case (claimed r)
  then show ?thesis using assms(3) endings_ok_cong [of st' st] by simp
next
  case (started a r q)
  then have "ending_consistent a" by (simp add: fresh_attempt_def ending_consistent_def)
  then show ?thesis using assms(3) started(1) context_backed_mono [of _ st st'] by (auto simp: endings_ok_iff)
next
  case (renewing a e i)
  then have a: "a \<in> set (sto_attempts st)" by (simp add: running_def)
  show ?thesis
  proof (rule endings_ok_on_attempt [OF assms(3,2) a])
    show "ending_consistent (renewed i e a)"
      using endings_okD(1) [OF assms(3) a] by (auto simp: ending_consistent_def renewed_def)
    show "sto_attempts st' = sto_attempts (on_attempt a (renewed i e) st)" using renewing by simp
  qed (use renewing endings_okD(2) [OF assms(3)] in \<open>auto simp: running_def renewed_def keeps_identity_def\<close>)
next
  case (acquired a c)
  then have "context_backed c st" by (auto simp: context_backed_def running_def active_context_def)
  then show ?thesis using assms(3) acquired context_backed_mono [of _ st st']
    by (auto simp: endings_ok_iff active_context_def)
next
  case (finished a c s time i)
  have "(cxr_state x = READ_CONTEXT_ACTIVE) = (cxr_end_operation_id x = None) \<and> context_backed x st'"
    if x: "x \<in> set (sto_contexts st')" for x
  proof -
    obtain y where y: "y \<in> set (sto_contexts st)" "x = y \<or>
        x = y\<lparr>cxr_state := s, cxr_end_operation_id := Some i, cxr_ended_at := Some time\<rparr>"
      using x finished(1) by (auto simp: set_rows_updated)
    then show ?thesis using endings_okD(2,3) [OF assms(3) y(1)] finished(1,5) by (auto simp: context_backed_def)
  qed
  then show ?thesis using assms(3) finished(1) by (simp add: endings_ok_iff)
next
  case (failed a s i code reason time)
  then have a: "a \<in> set (sto_attempts st)" by (simp add: running_def)
  show ?thesis
  proof (rule endings_ok_on_attempt [OF assms(3,2) a])
    show "ending_consistent (ended s i code reason time a)" using failed by (auto simp: ending_consistent_def ended_def)
    show "sto_attempts st' = sto_attempts (on_attempt a (ended s i code reason time) st)" using failed by simp
  qed (use failed endings_okD(2) [OF assms(3)] in \<open>auto simp: ended_def keeps_identity_def\<close>)
next
  case (published a s time i code reason)
  then have a: "a \<in> set (sto_attempts st)" by (simp add: running_def)
  show ?thesis
  proof (rule endings_ok_on_attempt [OF assms(3,2) a])
    show "ending_consistent (ended s i code reason time a)" using published by (auto simp: ending_consistent_def ended_def)
    show "sto_attempts st' = sto_attempts (on_attempt a (ended s i code reason time) st)" using published by simp
  qed (use published endings_okD(2) [OF assms(3)] in \<open>auto simp: ended_def keeps_identity_def\<close>)
next
  case (abandoned a i code reason time derived)
  then have a: "a \<in> set (sto_attempts st)" by (simp add: running_def)
  show ?thesis
  proof (rule endings_ok_on_attempt [OF assms(3,2) a])
    show "ending_consistent (ended ATTEMPT_ABANDONED i code reason time a)" by (simp add: ending_consistent_def ended_def)
    show "sto_attempts st' = sto_attempts (on_attempt a (ended ATTEMPT_ABANDONED i code reason time) st)"
      using abandoned by simp
  qed (use abandoned endings_okD(2) [OF assms(3)] in \<open>auto simp: ended_def keeps_identity_def set_rows_updated\<close>)
qed

lemma renewals_of_key: "atr_attempt_id a = atr_attempt_id b \<Longrightarrow> renewals_of a st = renewals_of b st"
  by (simp add: renewals_of_def)

definition lease_ok :: "attempt_row \<Rightarrow> renewal_row list \<Rightarrow> bool" where
  "lease_ok a ls \<longleftrightarrow>
     atr_lease_revision a = int (length ls) \<and> map rwr_resulting_lease_revision ls = map int [1..<Suc (length ls)] \<and>
     atr_initial_lease_expires_at a \<le> atr_lease_expires_at a \<and>
     (if ls = [] then atr_lease_operation_id a = None \<and> atr_lease_expires_at a = atr_initial_lease_expires_at a
      else atr_lease_operation_id a = Some (rwr_lease_operation_id (last ls)) \<and>
        atr_lease_expires_at a = rwr_requested_lease_expires_at (last ls))"

lemma leases_ok_iff:
  "leases_ok st \<longleftrightarrow> (\<forall>a \<in> set (sto_attempts st). lease_ok a (renewals_of a st)) \<and>
     (\<forall>l \<in> set (sto_renewals st). \<exists>a \<in> set (sto_attempts st). atr_attempt_id a = rwr_attempt_id l)"
  by (simp add: leases_ok_def lease_ok_def)

lemma leases_ok_ended:
  assumes ok: "leases_ok st" and unique: "unique_keys st" and a: "a \<in> set (sto_attempts st)"
    and attempts: "sto_attempts st' = sto_attempts (on_attempt a (ended s i code reason time) st)"
    and renewals: "sto_renewals st' = sto_renewals st"
  shows "leases_ok st'"
proof -
  let ?f = "ended s i code reason time"
  have same: "renewals_of x st' = renewals_of x st" for x using renewals by (simp add: renewals_of_def)
  have f: "renewals_of (?f x) st = renewals_of x st" "lease_ok (?f x) ls = lease_ok x ls" "atr_attempt_id (?f x) = atr_attempt_id x"
    for x ls by (simp_all add: renewals_of_def lease_ok_def ended_def)
  have "lease_ok x (renewals_of x st')" if "x \<in> set (sto_attempts st')" for x
    using on_attempt_members [of x a ?f st] that attempts a unique_fields [OF unique] ok f by (auto simp: leases_ok_iff same)
  moreover have "\<exists>x \<in> set (sto_attempts st'). atr_attempt_id x = rwr_attempt_id l" if l: "l \<in> set (sto_renewals st')" for l
  proof -
    obtain y where y: "y \<in> set (sto_attempts st)" "atr_attempt_id y = rwr_attempt_id l"
      using ok l renewals by (auto simp: leases_ok_iff)
    then show ?thesis
      using on_attempt_mem(1) [OF y(1), of a ?f] on_attempt_mem(2) [OF a, of ?f] f(3) [of a] attempts
      by (cases "atr_attempt_id y = atr_attempt_id a") (auto intro: bexI [of _ "?f a"])
  qed
  ultimately show ?thesis by (simp add: leases_ok_iff)
qed

lemma leases_ok_renewed:
  assumes ok: "leases_ok st" and unique: "unique_keys st" and a: "a \<in> set (sto_attempts st)"
    and later: "atr_lease_expires_at a < e"
  shows "leases_ok ((on_attempt a (renewed i e) st)\<lparr>sto_renewals := sto_renewals st @ [renewal_of i e a]\<rparr>)"
    (is "leases_ok ?st'")
proof -
  have own: "renewals_of (renewed i e a) ?st' = renewals_of a st @ [renewal_of i e a]"
    by (simp add: renewals_of_def renewed_def renewal_of_def)
  have other: "renewals_of x ?st' = renewals_of x st" if "atr_attempt_id x \<noteq> atr_attempt_id a" for x
    using that by (simp add: renewals_of_def renewal_of_def)
  have "lease_ok a (renewals_of a st)" using ok a by (simp add: leases_ok_iff)
  then have "lease_ok (renewed i e a) (renewals_of a st @ [renewal_of i e a])"
    using later by (auto simp: lease_ok_def renewed_def renewal_of_def)
  then have "lease_ok x (renewals_of x ?st')" if "x \<in> set (sto_attempts ?st')" for x
    using on_attempt_members [of x a "renewed i e" st] that a unique_fields [OF unique] ok own other by (auto simp: leases_ok_iff)
  moreover have "\<exists>x \<in> set (sto_attempts ?st'). atr_attempt_id x = rwr_attempt_id l" if l: "l \<in> set (sto_renewals ?st')" for l
  proof -
    obtain y where y: "y \<in> set (sto_attempts st)" "atr_attempt_id y = rwr_attempt_id l"
      using ok l a by (auto simp: leases_ok_iff renewal_of_def)
    have "atr_attempt_id (renewed i e a) = atr_attempt_id a" by (simp add: renewed_def)
    then show ?thesis
      using on_attempt_mem(1) [OF y(1), of a "renewed i e"] on_attempt_mem(2) [OF a, of "renewed i e"] y(2)
      by (cases "atr_attempt_id y = atr_attempt_id a") (auto intro: bexI [of _ "renewed i e a"])
  qed
  ultimately show ?thesis by (simp add: leases_ok_iff)
qed

lemma leases_ok_started:
  assumes ok: "leases_ok st" and unique: "unique_keys (st\<lparr>sto_attempts := sto_attempts st @ [a]\<rparr>)" and a: "fresh_attempt a"
  shows "leases_ok (st\<lparr>sto_attempts := sto_attempts st @ [a]\<rparr>)"
proof -
  have "atr_attempt_id a \<notin> atr_attempt_id ` set (sto_attempts st)" using unique_fields [OF unique] by simp
  then have "rwr_attempt_id l \<noteq> atr_attempt_id a" if "l \<in> set (sto_renewals st)" for l
    using ok that by (auto simp: leases_ok_iff) (metis image_eqI)
  then have "renewals_of a st = []" by (simp add: renewals_of_def filter_empty_conv)
  then have "lease_ok a (renewals_of a st)" using a by (simp add: lease_ok_def fresh_attempt_def)
  moreover have "renewals_of x (st\<lparr>sto_attempts := sto_attempts st @ [a]\<rparr>) = renewals_of x st" for x
    by (simp add: renewals_of_def)
  ultimately show ?thesis using ok by (auto simp: leases_ok_iff)
qed

lemma leases_ok_cong:
  assumes "sto_attempts st' = sto_attempts st" "sto_renewals st' = sto_renewals st"
  shows "leases_ok st' = leases_ok st"
  unfolding leases_ok_def renewals_of_def assms ..

lemma leases_ok_change:
  assumes "lifecycle_change st st'" "unique_keys st'" "unique_keys st" "leases_ok st"
  shows "leases_ok st'"
  using assms(1)
proof (cases rule: lifecycle_change.cases)
  case (started a r q)
  then show ?thesis using leases_ok_started [OF assms(4)] assms(2) by simp
next
  case (renewing a e i)
  then show ?thesis using leases_ok_renewed [OF assms(4,3)] by (simp add: running_def)
next
  case (failed a s i code reason time)
  then show ?thesis using leases_ok_ended [OF assms(4,3), of a] by (simp add: running_def)
next
  case (published a s time i code reason)
  then show ?thesis using leases_ok_ended [OF assms(4,3), of a] by (simp add: running_def)
next
  case (abandoned a i code reason time derived)
  then show ?thesis using leases_ok_ended [OF assms(4,3), of a] by (simp add: running_def)
qed (use assms(4) leases_ok_cong [of st' st] in simp_all)

section \<open>Histories\<close>

text \<open>A history of the metadata database: operations of any callers one after another, each at its own readings of
  the clock and under its own verdicts of the other constraints.\<close>

type_synonym event = "(store \<Rightarrow> store \<Rightarrow> bool) \<times> (nat \<Rightarrow> instant) \<times> operation"

primrec after :: "(uuid \<Rightarrow> uuid \<Rightarrow> uuid) \<Rightarrow> event list \<Rightarrow> store \<Rightarrow> store" where
  "after derived [] st = st"
| "after derived (e # es) st = after derived es (snd (perform derived (fst e) (fst (snd e)) (snd (snd e)) st))"

definition registered :: "contract_row list \<Rightarrow> store" where
  "registered contracts = empty_store\<lparr>sto_contracts := contracts\<rparr>"

lemma perform_ok: "lifecycle_ok st \<Longrightarrow> lifecycle_ok (snd (perform derived accepts now op st))"
proof -
  assume ok: "lifecycle_ok st"
  obtain r st' where p: "perform derived accepts now op st = (r, st')" by fastforce
  have change: "lifecycle_ok st'" if "lifecycle_change st st'" "unique_keys st'"
    using that ok attempts_ok_change terminal_ok_change endings_ok_change leases_ok_change
    unfolding lifecycle_ok_def by blast
  show ?thesis using perform_effect [OF p] change ok p by auto
qed

lemma after_ok: "lifecycle_ok st \<Longrightarrow> lifecycle_ok (after derived es st)"
  by (induction es arbitrary: st) (simp_all add: perform_ok)

lemma registered_ok: "lifecycle_ok (registered contracts)"
  by (simp add: lifecycle_ok_def registered_def empty_store_def unique_keys_def unique_runs_def unique_attempts_def
      unique_renewals_def unique_contexts_def unique_observations_def present_keys_def attempts_ok_def attempts_of_def
      terminal_ok_def endings_ok_def leases_ok_def)

text \<open>(C14) Whatever operations have run, in any order and at any times, the metadata database is in order: the keys
  are unique, so at most one attempt of a run is running; the attempts of a run are numbered 1, 2, 3 without gap,
  carry the token of one invocation and are no more than the \<open>max_attempts\<close> of the stored request; a run with a
  selected terminal attempt has no running attempt and agrees with that attempt on the operation and the time of
  its end; only a running attempt has active read contexts; and the lease of an attempt is what its recorded
  renewals make it.\<close>

theorem every_history_in_order: "lifecycle_ok (after derived events (registered contracts))"
  by (rule after_ok [OF registered_ok])

text \<open>(C16) An operation that a caller performs as the holder of a lease (renewing it, recording or ending a read
  context, ending the attempt or publishing it) changes the database only while the stored attempt is running under
  the caller's owner token and lease revision, its lease unexpired when the change was made and unexpired still at a
  later reading of the clock before the commit. A holder whose lease was renewed by another, whose attempt was
  abandoned or whose lease ran out changes nothing.\<close>

theorem stale_holder_changes_nothing:
  assumes "holder op = Some attempt"
    and "\<not> (\<exists>row \<in> set (sto_attempts st). \<exists>i k. i < k \<and>
      atr_run_id row = clr_run_id (rar_run attempt) \<and> atr_attempt_id row = rar_attempt_id attempt \<and>
      atr_owner_token row = rar_owner_token attempt \<and> atr_lease_revision row = rar_lease_revision attempt \<and>
      atr_status row = ATTEMPT_RUNNING \<and> now i < atr_lease_expires_at row \<and> now k < atr_lease_expires_at row)"
  shows "snd (perform derived accepts now op st) = st"
proof (rule ccontr)
  assume changed: "snd (perform derived accepts now op st) \<noteq> st"
  obtain r st' where p: "perform derived accepts now op st = (r, st')" by fastforce
  have "fenced_by attempt now st" using perform_fenced [OF p assms(1)] changed p by simp
  then show False using assms(2) by (auto simp: fenced_by_def fence_holds_def)
qed

end
