(* ===== verification/Lifecycle_History.thy ===== *)
theory Lifecycle_History
  imports Lifecycle_Invariant
begin

text \<open>
  What later operations keep of a store: rows are never removed, what identifies them never changes, leases only
  grow, and what has ended stays as it is. The relation \<open>store_kept\<close> collects it; every change of the lifecycle
  keeps it, so every history does.
\<close>

section \<open>Rows that are kept\<close>

definition run_kept :: "run_row \<Rightarrow> run_row \<Rightarrow> bool" where
  "run_kept r r' \<longleftrightarrow>
     (rnr_selected_terminal_attempt_id r \<noteq> None \<longrightarrow> r' = r) \<and>
     r'\<lparr>rnr_selected_terminal_attempt_id := None, rnr_terminal_operation_id := None, rnr_terminal_at := None\<rparr> =
     r\<lparr>rnr_selected_terminal_attempt_id := None, rnr_terminal_operation_id := None, rnr_terminal_at := None\<rparr>"

definition attempt_kept :: "attempt_row \<Rightarrow> attempt_row \<Rightarrow> bool" where
  "attempt_kept a a' \<longleftrightarrow>
     (atr_status a \<noteq> ATTEMPT_RUNNING \<longrightarrow> a' = a) \<and>
     atr_attempt_id a' = atr_attempt_id a \<and> atr_run_id a' = atr_run_id a \<and> atr_ordinal a' = atr_ordinal a \<and>
     atr_start_operation_id a' = atr_start_operation_id a \<and> atr_execution_budgets a' = atr_execution_budgets a \<and>
     atr_owner_token a' = atr_owner_token a \<and> atr_started_at a' = atr_started_at a \<and>
     atr_initial_lease_expires_at a' = atr_initial_lease_expires_at a \<and> atr_input_cut_digest a' = atr_input_cut_digest a \<and>
     atr_lease_revision a \<le> atr_lease_revision a' \<and> atr_lease_expires_at a \<le> atr_lease_expires_at a' \<and>
     (atr_lease_revision a' = atr_lease_revision a \<longrightarrow> atr_lease_operation_id a' = atr_lease_operation_id a \<and>
        atr_lease_expires_at a' = atr_lease_expires_at a)"

definition context_kept :: "context_row \<Rightarrow> context_row \<Rightarrow> bool" where
  "context_kept c c' \<longleftrightarrow>
     (cxr_state c \<noteq> READ_CONTEXT_ACTIVE \<longrightarrow> c' = c) \<and>
     (c' = c \<or> \<not> (cxr_state c' = READ_CONTEXT_CLOSED \<and> cxr_engine c' = CLICKHOUSE_ENGINE)) \<and>
     c'\<lparr>cxr_state := READ_CONTEXT_ACTIVE, cxr_end_operation_id := None, cxr_ended_at := None\<rparr> =
     c\<lparr>cxr_state := READ_CONTEXT_ACTIVE, cxr_end_operation_id := None, cxr_ended_at := None\<rparr>"

text \<open>Rows in place, each kept, and new rows after them.\<close>

definition rows_kept :: "('r \<Rightarrow> 'r \<Rightarrow> bool) \<Rightarrow> 'r list \<Rightarrow> 'r list \<Rightarrow> bool" where
  "rows_kept K rows rows' \<longleftrightarrow> (\<exists>old new. rows' = old @ new \<and> list_all2 K rows old)"

definition store_kept :: "store \<Rightarrow> store \<Rightarrow> bool" where
  "store_kept st st' \<longleftrightarrow>
     rows_kept run_kept (sto_runs st) (sto_runs st') \<and> rows_kept attempt_kept (sto_attempts st) (sto_attempts st') \<and>
     rows_kept (=) (sto_renewals st) (sto_renewals st') \<and> rows_kept context_kept (sto_contexts st) (sto_contexts st')"

lemma rows_kept_refl: "reflp K \<Longrightarrow> rows_kept K rows rows"
  unfolding rows_kept_def by (intro exI [of _ rows] exI [of _ "[]"]) (simp add: list.rel_refl reflpD)

lemma rows_kept_append: "reflp K \<Longrightarrow> rows_kept K rows (rows @ new)"
  unfolding rows_kept_def by (intro exI [of _ rows] exI [of _ new]) (simp add: list.rel_refl reflpD)

lemma rows_kept_updated:
  "(\<And>r. r \<in> set rows \<Longrightarrow> K r (if p r then f r else r)) \<Longrightarrow> rows_kept K rows (rows_updated p f rows)"
  unfolding rows_kept_def rows_updated_def
  by (intro exI [of _ "map (\<lambda>r. if p r then f r else r) rows"] exI [of _ "[]"]) (simp add: list_all2_map2 list.rel_refl_strong)

lemma rows_kept_trans:
  assumes "transp K" "rows_kept K xs ys" "rows_kept K ys zs"
  shows "rows_kept K xs zs"
proof -
  obtain old new where ys: "ys = old @ new" "list_all2 K xs old" using assms(2) by (auto simp: rows_kept_def)
  obtain old' new' where zs: "zs = old' @ new'" "list_all2 K ys old'" using assms(3) by (auto simp: rows_kept_def)
  obtain u v where uv: "old' = u @ v" "list_all2 K old u"
    using zs(2) ys(1) by (auto simp: list_all2_append1)
  have "list_all2 K xs u"
    by (rule list_all2_trans [OF _ ys(2) uv(2)]) (rule transpD [OF assms(1)])
  then show ?thesis using zs(1) uv(1) unfolding rows_kept_def by (intro exI [of _ u] exI [of _ "v @ new'"]) simp
qed

lemma rows_kept_mem:
  assumes "rows_kept K rows rows'" "r \<in> set rows"
  shows "\<exists>r' \<in> set rows'. K r r'"
  using assms by (force simp: rows_kept_def list_all2_conv_all_nth in_set_conv_nth nth_append)

text \<open>A row found by a key that is never changed is found again.\<close>

lemma find_kept:
  assumes "rows_kept K rows rows'" "\<And>r r'. K r r' \<Longrightarrow> key r' = key r" "find (\<lambda>r. key r = i) rows = Some r"
  shows "\<exists>r'. find (\<lambda>r. key r = i) rows' = Some r' \<and> K r r'"
proof -
  obtain old new where rows': "rows' = old @ new" and kept: "list_all2 K rows old"
    using assms(1) by (auto simp: rows_kept_def)
  have "\<exists>r'. find (\<lambda>r. key r = i) old = Some r' \<and> K r r'"
    using kept assms(3) by (induction rows old rule: list_all2_induct) (auto split: if_splits dest: assms(2))
  moreover have "find P (xs @ ys) = (case find P xs of None \<Rightarrow> find P ys | Some x \<Rightarrow> Some x)" for P and xs ys :: "'a list"
    by (induction xs) auto
  ultimately show ?thesis using rows' by auto
qed

lemma kept_orders:
  "reflp run_kept" "transp run_kept" "reflp attempt_kept" "transp attempt_kept" "reflp context_kept" "transp context_kept"
proof -
  show "reflp run_kept" "reflp attempt_kept" "reflp context_kept"
    by (simp_all add: reflp_def run_kept_def attempt_kept_def context_kept_def)
  show "transp run_kept" "transp context_kept" by (auto simp: transp_def run_kept_def context_kept_def)
  show "transp attempt_kept"
  proof (rule transpI)
    fix a b c assume ab: "attempt_kept a b" and bc: "attempt_kept b c"
    show "attempt_kept a c"
    proof (cases "atr_status a = ATTEMPT_RUNNING")
      case False
      then show ?thesis using ab bc by (auto simp: attempt_kept_def)
    next
      case True
      then show ?thesis using ab bc unfolding attempt_kept_def by (auto; fastforce)
    qed
  qed
qed

lemma store_kept_refl: "store_kept st st"
  unfolding store_kept_def by (intro conjI rows_kept_refl kept_orders) (simp add: reflp_def)

lemma store_kept_trans:
  assumes "store_kept st1 st2" "store_kept st2 st3"
  shows "store_kept st1 st3"
proof -
  have eq: "transp ((=) :: renewal_row \<Rightarrow> renewal_row \<Rightarrow> bool)" by (simp add: transp_def)
  note k = assms [unfolded store_kept_def]
  show ?thesis
    unfolding store_kept_def
    using rows_kept_trans [OF kept_orders(2), of "sto_runs st1" "sto_runs st2" "sto_runs st3"]
      rows_kept_trans [OF kept_orders(4), of "sto_attempts st1" "sto_attempts st2" "sto_attempts st3"]
      rows_kept_trans [OF kept_orders(6), of "sto_contexts st1" "sto_contexts st2" "sto_contexts st3"]
      rows_kept_trans [OF eq, of "sto_renewals st1" "sto_renewals st2" "sto_renewals st3"] k
    by simp
qed

section \<open>Every change keeps the store\<close>

lemma attempts_kept_by:
  assumes "unique_keys st" "a \<in> set (sto_attempts st)" "attempt_kept a (f a)"
  shows "rows_kept attempt_kept (sto_attempts st) (sto_attempts (on_attempt a f st))"
proof -
  have "attempt_kept x (if atr_attempt_id x = atr_attempt_id a then f x else x)" if "x \<in> set (sto_attempts st)" for x
    using same_key [of atr_attempt_id "sto_attempts st" x a] unique_fields [OF assms(1)] assms(2,3) that kept_orders(3)
    by (auto dest: reflpD)
  then show ?thesis by (simp add: rows_kept_updated)
qed

lemma kept_by_ending: "atr_status a = ATTEMPT_RUNNING \<Longrightarrow> attempt_kept a (ended s i code reason time a)"
  by (simp add: attempt_kept_def ended_def)

lemma kept_by_renewal: "atr_status a = ATTEMPT_RUNNING \<Longrightarrow> atr_lease_expires_at a < e \<Longrightarrow> attempt_kept a (renewed i e a)"
  by (simp add: attempt_kept_def renewed_def)

lemma store_keptI:
  assumes "sto_runs st' = sto_runs st \<or> rows_kept run_kept (sto_runs st) (sto_runs st')"
    and "sto_attempts st' = sto_attempts st \<or> rows_kept attempt_kept (sto_attempts st) (sto_attempts st')"
    and "sto_renewals st' = sto_renewals st @ ls"
    and "sto_contexts st' = sto_contexts st \<or> rows_kept context_kept (sto_contexts st) (sto_contexts st')"
  shows "store_kept st st'"
proof -
  have "rows_kept (=) (sto_renewals st) (sto_renewals st')"
    using rows_kept_append [of "(=)" "sto_renewals st" ls] assms(3) by (simp add: reflp_def)
  moreover have "rows_kept run_kept (sto_runs st) (sto_runs st')"
    using assms(1) rows_kept_refl [OF kept_orders(1), of "sto_runs st"] by auto
  moreover have "rows_kept attempt_kept (sto_attempts st) (sto_attempts st')"
    using assms(2) rows_kept_refl [OF kept_orders(3), of "sto_attempts st"] by auto
  moreover have "rows_kept context_kept (sto_contexts st) (sto_contexts st')"
    using assms(4) rows_kept_refl [OF kept_orders(5), of "sto_contexts st"] by auto
  ultimately show ?thesis by (simp add: store_kept_def)
qed

lemma finished_context_kept:
  assumes "cxr_state c = READ_CONTEXT_ACTIVE" "\<not> (s = READ_CONTEXT_CLOSED \<and> cxr_engine c = CLICKHOUSE_ENGINE)"
  shows "context_kept c (c\<lparr>cxr_state := s, cxr_end_operation_id := i, cxr_ended_at := time\<rparr>)"
  using assms by (simp add: context_kept_def)

lemma selected_run_kept:
  "rnr_selected_terminal_attempt_id r = None \<Longrightarrow> run_kept r (r\<lparr>rnr_selected_terminal_attempt_id := i,
     rnr_terminal_operation_id := j, rnr_terminal_at := time\<rparr>)"
  by (simp add: run_kept_def)

lemma store_kept_change:
  assumes "lifecycle_change st st'" "unique_keys st"
  shows "store_kept st st'"
  using assms(1)
proof (cases rule: lifecycle_change.cases)
  case (claimed r)
  then show ?thesis using rows_kept_append [OF kept_orders(1)] by (intro store_keptI [where ls = "[]"]) simp_all
next
  case (started a r q)
  then show ?thesis using rows_kept_append [OF kept_orders(3)] by (intro store_keptI [where ls = "[]"]) simp_all
next
  case (renewing a e i)
  then have "rows_kept attempt_kept (sto_attempts st) (sto_attempts (on_attempt a (renewed i e) st))"
    by (intro attempts_kept_by [OF assms(2)] kept_by_renewal) (simp_all add: running_def)
  then show ?thesis using renewing by (intro store_keptI [where ls = "[renewal_of i e a]"]) simp_all
next
  case (acquired a c)
  then show ?thesis using rows_kept_append [OF kept_orders(5)] by (intro store_keptI [where ls = "[]"]) simp_all
next
  case (finished a c s time i)
  let ?f = "\<lambda>c. c\<lparr>cxr_state := s, cxr_end_operation_id := Some i, cxr_ended_at := Some time\<rparr>"
  have "context_kept x (if cxr_read_context_id x = cxr_read_context_id c then ?f x else x)" if "x \<in> set (sto_contexts st)" for x
  proof (cases "cxr_read_context_id x = cxr_read_context_id c")
    case True
    then have "x = c" using same_key [of cxr_read_context_id "sto_contexts st" x c] unique_fields [OF assms(2)] finished(3) that by simp
    then show ?thesis using finished_context_kept finished(4,6) by (simp add: active_context_def)
  next
    case False
    then show ?thesis using kept_orders(5) by (auto dest: reflpD)
  qed
  then have "rows_kept context_kept (sto_contexts st) (sto_contexts st')"
    unfolding finished(1) on_context_fields by (rule rows_kept_updated)
  then show ?thesis using finished(1) by (intro store_keptI [where ls = "[]"]) simp_all
next
  case (failed a s i code reason time)
  then have "rows_kept attempt_kept (sto_attempts st) (sto_attempts st')"
    using attempts_kept_by [OF assms(2), of a] kept_by_ending by (simp add: running_def)
  then show ?thesis using failed(1) by (intro store_keptI [where ls = "[]"]) simp_all
next
  case (published a s time i code reason)
  let ?g = "\<lambda>r. r\<lparr>rnr_selected_terminal_attempt_id := Some (atr_attempt_id a), rnr_terminal_operation_id := Some i,
      rnr_terminal_at := Some time\<rparr>"
  obtain r where r: "r \<in> set (sto_runs st)" "rnr_run_id r = atr_run_id a" "rnr_selected_terminal_attempt_id r = None"
    using published(3) by (auto simp: open_run_def)
  have "run_kept x (if rnr_run_id x = atr_run_id a then ?g x else x)" if "x \<in> set (sto_runs st)" for x
  proof (cases "rnr_run_id x = atr_run_id a")
    case True
    then have "x = r" using same_key [of rnr_run_id "sto_runs st" x r] unique_fields [OF assms(2)] r that by simp
    then show ?thesis using selected_run_kept r by simp
  next
    case False
    then show ?thesis using kept_orders(1) by (auto dest: reflpD)
  qed
  then have "rows_kept run_kept (sto_runs st) (sto_runs st')"
    unfolding published(1) on_run_fields on_attempt_fields by (rule rows_kept_updated)
  moreover have "rows_kept attempt_kept (sto_attempts st) (sto_attempts st')"
    using attempts_kept_by [OF assms(2), of a] kept_by_ending published by (simp add: running_def)
  ultimately show ?thesis using published(1) by (intro store_keptI [where ls = "[]"]) simp_all
next
  case (abandoned a i code reason time derived)
  have "context_kept c (if active_context a c
      then c\<lparr>cxr_state := READ_CONTEXT_LOST, cxr_end_operation_id := Some (derived (cxr_read_context_id c)),
        cxr_ended_at := Some time\<rparr> else c)" for c
    using finished_context_kept [of c READ_CONTEXT_LOST] kept_orders(5) by (auto simp: active_context_def dest: reflpD)
  then have "rows_kept context_kept (sto_contexts st) (sto_contexts st')"
    unfolding abandoned(1) on_attempt_fields by (simp add: rows_kept_updated)
  moreover have "rows_kept attempt_kept (sto_attempts st) (sto_attempts st')"
    using attempts_kept_by [of st a] assms(2) kept_by_ending abandoned by (simp add: running_def)
  ultimately show ?thesis using abandoned(1) by (intro store_keptI [where ls = "[]"]) simp_all
qed

lemma perform_kept: "lifecycle_ok st \<Longrightarrow> store_kept st (snd (perform derived accepts now op st))"
  using perform_effect [of derived accepts now op st] store_kept_change store_kept_refl
  by (metis lifecycle_ok_def prod.collapse)

lemma after_kept: "lifecycle_ok st \<Longrightarrow> store_kept st (after derived es st)"
proof (induction es arbitrary: st)
  case Nil
  then show ?case by (simp add: store_kept_refl)
next
  case (Cons e es)
  show ?case
    using store_kept_trans [OF perform_kept [OF Cons.prems] Cons.IH [OF perform_ok [OF Cons.prems]]] by simp
qed

text \<open>(C27) What has ended is final: in every history, the rows of ended attempts, of runs with a selected terminal
  attempt, of read contexts that are closed or lost and of lease renewals are still there unchanged after any
  further operations.\<close>

theorem ended_rows_are_final:
  fixes derived contracts before later
  defines "st \<equiv> after derived before (registered contracts)"
  defines "st' \<equiv> after derived later st"
  shows "{a \<in> set (sto_attempts st). atr_status a \<noteq> ATTEMPT_RUNNING} \<subseteq> set (sto_attempts st') \<and>
    {r \<in> set (sto_runs st). rnr_selected_terminal_attempt_id r \<noteq> None} \<subseteq> set (sto_runs st') \<and>
    {c \<in> set (sto_contexts st). cxr_state c \<noteq> READ_CONTEXT_ACTIVE} \<subseteq> set (sto_contexts st') \<and>
    set (sto_renewals st) \<subseteq> set (sto_renewals st')"
proof -
  have "store_kept st st'" unfolding st'_def st_def by (intro after_kept after_ok registered_ok)
  note kept = this [unfolded store_kept_def]
  have "a \<in> set (sto_attempts st')" if "a \<in> set (sto_attempts st)" "atr_status a \<noteq> ATTEMPT_RUNNING" for a
    using kept rows_kept_mem [of attempt_kept _ _ a] that by (auto simp: attempt_kept_def)
  moreover have "r \<in> set (sto_runs st')" if "r \<in> set (sto_runs st)" "rnr_selected_terminal_attempt_id r \<noteq> None" for r
    using kept rows_kept_mem [of run_kept _ _ r] that by (auto simp: run_kept_def)
  moreover have "c \<in> set (sto_contexts st')" if "c \<in> set (sto_contexts st)" "cxr_state c \<noteq> READ_CONTEXT_ACTIVE" for c
    using kept rows_kept_mem [of context_kept _ _ c] that by (auto simp: context_kept_def)
  moreover have "l \<in> set (sto_renewals st')" if "l \<in> set (sto_renewals st)" for l
    using kept rows_kept_mem [of "(=)" _ _ l] that by auto
  ultimately show ?thesis by blast
qed

end
