(* ===== verification/Lifecycle_Lookups.thy ===== *)
theory Lifecycle_Lookups
  imports Lifecycle_History
begin

text \<open>
  The lookups of the lifecycle: computations that depend on the rows of the store only, and what they find there.
\<close>

section \<open>What others keep\<close>

text \<open>An attempt that has ended is not selected as the terminal attempt of a run later on.\<close>

definition selections_kept :: "store \<Rightarrow> store \<Rightarrow> bool" where
  "selections_kept st st' \<longleftrightarrow>
     (\<forall>a \<in> set (sto_attempts st). atr_status a \<noteq> ATTEMPT_RUNNING \<longrightarrow>
        (\<forall>r \<in> set (sto_runs st'). rnr_selected_terminal_attempt_id r = Some (atr_attempt_id a) \<longrightarrow> r \<in> set (sto_runs st)))"

lemma selections_keptD:
  "selections_kept st st' \<Longrightarrow> a \<in> set (sto_attempts st) \<Longrightarrow> atr_status a \<noteq> ATTEMPT_RUNNING \<Longrightarrow> r \<in> set (sto_runs st') \<Longrightarrow>
   rnr_selected_terminal_attempt_id r = Some (atr_attempt_id a) \<Longrightarrow> r \<in> set (sto_runs st)"
  by (simp add: selections_kept_def)

lemma ended_attempt_kept:
  assumes "store_kept st st'" "a \<in> set (sto_attempts st)" "atr_status a \<noteq> ATTEMPT_RUNNING"
  shows "a \<in> set (sto_attempts st')"
  using assms rows_kept_mem [of attempt_kept "sto_attempts st" "sto_attempts st'" a]
  by (auto simp: store_kept_def attempt_kept_def)

lemma selections_kept_trans:
  assumes "selections_kept st1 st2" "selections_kept st2 st3" "store_kept st1 st2"
  shows "selections_kept st1 st3"
  unfolding selections_kept_def
  using selections_keptD [OF assms(1)] selections_keptD [OF assms(2)] ended_attempt_kept [OF assms(3)] by blast

lemma selections_kept_same: "sto_runs st' = sto_runs st \<Longrightarrow> selections_kept st st'"
  by (simp add: selections_kept_def)

lemma selections_kept_change:
  assumes "lifecycle_change st st'" "unique_keys st"
  shows "selections_kept st st'"
  using assms(1)
proof (cases rule: lifecycle_change.cases)
  case (claimed r)
  then show ?thesis by (auto simp: selections_kept_def fresh_run_def)
next
  case (published a s time i code reason)
  have "b = a" if "b \<in> set (sto_attempts st)" "atr_attempt_id b = atr_attempt_id a" for b
    using same_key [of atr_attempt_id "sto_attempts st" b a] unique_fields [OF assms(2)] published(2) that by (simp add: running_def)
  then show ?thesis
    using published(1,2) by (auto simp: selections_kept_def running_def set_rows_updated split: if_splits)
qed (simp_all add: selections_kept_same)

definition kept_by_others :: "store \<Rightarrow> store \<Rightarrow> bool" where
  "kept_by_others st st' \<longleftrightarrow> lifecycle_ok st \<and> lifecycle_ok st' \<and> store_kept st st' \<and> selections_kept st st'"

lemma perform_kept_by_others: "lifecycle_ok st \<Longrightarrow> kept_by_others st (snd (perform derived accepts now op st))"
  using perform_effect [of derived accepts now op st] selections_kept_change selections_kept_same [OF refl]
    perform_ok [of st derived accepts now op] perform_kept [of st derived accepts now op]
  unfolding kept_by_others_def by (metis lifecycle_ok_def prod.collapse)

lemma after_kept_by_others: "lifecycle_ok st \<Longrightarrow> kept_by_others st (after derived es st)"
proof (induction es arbitrary: st)
  case Nil
  then show ?case by (simp add: kept_by_others_def store_kept_refl selections_kept_same)
next
  case (Cons e es)
  let ?mid = "snd (perform derived (fst e) (fst (snd e)) (snd (snd e)) st)"
  have mid: "kept_by_others st ?mid" using perform_kept_by_others [OF Cons.prems] .
  then have "kept_by_others ?mid (after derived es ?mid)" using Cons.IH by (simp add: kept_by_others_def)
  then show ?case
    using mid store_kept_trans [of st ?mid] selections_kept_trans [of st ?mid] by (simp add: kept_by_others_def)
qed

section \<open>Lookups\<close>

text \<open>A lookup neither writes nor reads the clock: what it finds depends on the store only.\<close>

definition stateless :: "'a tx \<Rightarrow> bool" where
  "stateless m \<longleftrightarrow> (\<exists>f. \<forall>t. m t = (f (tx_store t), t))"

named_theorems stateless_intros \<open>computations of a transaction that depend on its store only\<close>

lemma stateless_basic [stateless_intros]:
  "stateless (wreturn x)" "stateless (wraise e)" "stateless (wrequire c e)" "stateless (codec r)" "stateless (from_store g)"
  by (auto simp: stateless_def codec_def from_store_def wrequire_def wreturn_def wraise_def)

lemma stateless_wbind [stateless_intros]:
  assumes "stateless m" "\<And>x. stateless (k x)"
  shows "stateless (wbind m k)"
proof -
  obtain f where f: "\<And>t. m t = (f (tx_store t), t)" using assms(1) by (auto simp: stateless_def)
  obtain g where g: "\<And>x t. k x t = (g x (tx_store t), t)" using assms(2) unfolding stateless_def by metis
  have "wbind m k t = ((case f (tx_store t) of Inl e \<Rightarrow> Inl e | Inr x \<Rightarrow> g x (tx_store t)), t)" for t
    by (simp add: wbind_apply f g split: sum.splits)
  then show ?thesis unfolding stateless_def
    by (intro exI [of _ "\<lambda>s. case f s of Inl e \<Rightarrow> Inl e | Inr x \<Rightarrow> g x s"]) simp
qed

lemma stateless_cases [stateless_intros]:
  "(c \<Longrightarrow> stateless m) \<Longrightarrow> (\<not> c \<Longrightarrow> stateless n) \<Longrightarrow> stateless (if c then m else n)"
  "stateless m \<Longrightarrow> (\<And>x. v = Some x \<Longrightarrow> stateless (f x)) \<Longrightarrow> stateless (case v of None \<Rightarrow> m | Some x \<Rightarrow> f x)"
  by (simp, cases v) simp_all

lemma stateless_selects [stateless_intros]:
  "stateless (select_run_by_creation_operation i)" "stateless (select_run_by_request i)" "stateless (select_run_by_id i)"
  "stateless (select_attempt_by_start_operation i)" "stateless (select_attempt_by_end_operation i)"
  "stateless (select_attempt_by_id i)" "stateless (select_lease_renewal_receipt i)"
  "stateless (select_context_by_acquisition_operation i)" "stateless (select_context_by_end_operation i)"
  "stateless (select_context_by_id i)"
  by (simp_all add: select_defs stateless_basic)

lemma stateless_rows [stateless_intros]:
  "stateless (claimed_run_from_row row x)" "stateless (started_attempt_from_row arow ax run)"
  "stateless (validate_stored_clickhouse_closure crow)" "stateless (require_generic_context_end_supported crow state)"
  by (auto simp: claimed_run_from_row_def started_attempt_from_row_def validate_stored_clickhouse_closure_def
      require_generic_context_end_supported_def Let_def intro!: stateless_intros)

lemma stateless_reads [stateless_intros]:
  "stateless (current_claimed_run run e)" "stateless (persisted_context_from_row crow cx)"
  "stateless (require_finished_context crow cend)" "stateless (outcome_receipt_from_database ox)"
  by (auto simp: current_claimed_run_def persisted_context_from_row_def require_finished_context_def
      outcome_receipt_from_database_def Let_def intro!: stateless_intros)

lemma stateless_receipts [stateless_intros]:
  "stateless (renewed_attempt_from_receipt r lx)" "stateless (retryable_outcome_from_database ox)"
  "stateless (terminal_outcome_from_database ox)"
  by (auto simp: renewed_attempt_from_receipt_def retryable_outcome_from_database_def terminal_outcome_from_database_def
      Let_def intro!: stateless_intros)

lemma stateless_lookups:
  "stateless (lookup_claimed_run rx)" "stateless (lookup_started_attempt ax)" "stateless (lookup_renewed_attempt lx)"
  "stateless (lookup_persisted_context cx)" "stateless (lookup_finished_context cend)"
  "stateless (lookup_retryable_attempt_outcome ox)" "stateless (lookup_terminal_attempt_outcome ox)"
  by (auto simp: lookup_claimed_run_def lookup_started_attempt_def lookup_renewed_attempt_def lookup_persisted_context_def
      lookup_finished_context_def lookup_retryable_attempt_outcome_def lookup_terminal_attempt_outcome_def
      intro!: stateless_intros)

text \<open>What a stateless computation finds in a store.\<close>

definition finds :: "'a tx \<Rightarrow> store \<Rightarrow> 'a \<Rightarrow> bool" where
  "finds m st x \<longleftrightarrow> (\<exists>t. tx_store t = st \<and> m t = (Inr x, t))"

lemma finds_everywhere:
  assumes "stateless m" "finds m st x" "tx_store t = st"
  shows "m t = (Inr x, t)"
  using assms by (auto simp: stateless_def finds_def)

lemma findsI: "stateless m \<Longrightarrow> m t = (Inr x, t') \<Longrightarrow> finds m (tx_store t) x"
  by (auto simp: stateless_def finds_def)

lemma transact_finds:
  assumes "stateless m"
  shows "fst (transact accepts now m st) = Inr x \<longleftrightarrow> finds m st x"
proof
  let ?t = "\<lparr>tx_store = st, tx_now = now, tx_reads = 1, tx_accepts = accepts\<rparr>"
  show "finds m st x" if "fst (transact accepts now m st) = Inr x"
    using that findsI [OF assms, of ?t x] by (auto simp: transact_def split: prod.splits sum.splits)
  show "fst (transact accepts now m st) = Inr x" if "finds m st x"
    using finds_everywhere [OF assms that, of ?t] by (simp add: transact_def)
qed

lemma finds_wbind:
  assumes "stateless m" "\<And>x. stateless (k x)"
  shows "finds (wbind m k) st y \<longleftrightarrow> (\<exists>x. finds m st x \<and> finds (k x) st y)"
proof
  assume "finds (wbind m k) st y"
  then obtain t x t' where t: "tx_store t = st" "m t = (Inr x, t')" "k x t' = (Inr y, t)"
    by (auto simp: finds_def wbind_eq_Inr_iff)
  have "t' = t" using assms(1) t(2) by (auto simp: stateless_def)
  then show "\<exists>x. finds m st x \<and> finds (k x) st y" using t unfolding finds_def by blast
next
  assume "\<exists>x. finds m st x \<and> finds (k x) st y"
  then obtain x t where x: "finds m st x" "tx_store t = st" "k x t = (Inr y, t)" by (auto simp: finds_def)
  then have "m t = (Inr x, t)" using finds_everywhere [OF assms(1)] by blast
  then show "finds (wbind m k) st y" using x(2,3) by (auto simp: finds_def wbind_apply)
qed

lemma finds_basic [simp]:
  "finds (wreturn x) st y \<longleftrightarrow> y = x" "\<not> finds (wraise e) st y" "finds (wrequire c e) st u \<longleftrightarrow> c"
  "finds (codec r) st y \<longleftrightarrow> r = Inr y" "finds (from_store g) st y \<longleftrightarrow> y = g st"
proof -
  obtain t :: transaction where t: "tx_store t = st" by (metis transaction.select_convs(1))
  show "finds (wreturn x) st y \<longleftrightarrow> y = x" "\<not> finds (wraise e) st y" "finds (wrequire c e) st u \<longleftrightarrow> c"
    "finds (codec r) st y \<longleftrightarrow> r = Inr y" "finds (from_store g) st y \<longleftrightarrow> y = g st"
    using t by (auto simp: finds_def codec_iff from_store_iff)
qed

lemma finds_selects [simp]:
  "finds (select_run_by_creation_operation i) st r \<longleftrightarrow> r = find (\<lambda>r. rnr_creation_operation_id r = i) (sto_runs st)"
  "finds (select_run_by_request i) st r \<longleftrightarrow> r = find (\<lambda>r. rnr_request_id r = i) (sto_runs st)"
  "finds (select_run_by_id i) st r \<longleftrightarrow> r = find (\<lambda>r. rnr_run_id r = i) (sto_runs st)"
  "finds (select_attempt_by_start_operation i) st a \<longleftrightarrow> a = find (\<lambda>a. atr_start_operation_id a = i) (sto_attempts st)"
  "finds (select_attempt_by_end_operation i) st a \<longleftrightarrow> a = find (\<lambda>a. atr_end_operation_id a = Some i) (sto_attempts st)"
  "finds (select_attempt_by_id i) st a \<longleftrightarrow> a = find (\<lambda>a. atr_attempt_id a = i) (sto_attempts st)"
  "finds (select_lease_renewal_receipt i) st l \<longleftrightarrow> l = find (\<lambda>l. rwr_lease_operation_id l = i) (sto_renewals st)"
  "finds (select_context_by_acquisition_operation i) st c \<longleftrightarrow> c = find (\<lambda>c. cxr_acquisition_operation_id c = i) (sto_contexts st)"
  "finds (select_context_by_end_operation i) st c \<longleftrightarrow> c = find (\<lambda>c. cxr_end_operation_id c = Some i) (sto_contexts st)"
  "finds (select_context_by_id i) st c \<longleftrightarrow> c = find (\<lambda>c. cxr_read_context_id c = i) (sto_contexts st)"
  by (simp_all add: select_defs)

section \<open>What the lookups find\<close>

lemma finds_claimed_row:
  "finds (claimed_run_from_row row x) st c \<longleftrightarrow>
     rnr_request_id row = rq_request_id (rex_request x) \<and>
     rnr_request_identity_digest row = rex_request_identity_digest x \<and> rnr_request_payload row = rex_request_payload_json x \<and>
     rnr_contract_version_id row = rq_contract_version_id (rex_request x) \<and> rnr_origin row = rq_origin (rex_request x) \<and>
     rnr_scope_digest row = rex_scope_digest x \<and> require_optional_sha256 (rnr_bound_input_cut_digest row) = Inr () \<and>
     c = \<lparr>clr_run_id = rnr_run_id row, clr_creation_operation_id = rnr_creation_operation_id row,
       clr_request = rex_request x, clr_created_at = rnr_created_at row,
       clr_bound_input_cut_digest = rnr_bound_input_cut_digest row,
       clr_cut_binding_operation_id = rnr_cut_binding_operation_id row,
       clr_selected_terminal_attempt_id = rnr_selected_terminal_attempt_id row,
       clr_terminal_operation_id = rnr_terminal_operation_id row\<rparr>"
proof -
  obtain t :: transaction where t: "tx_store t = st" by (metis transaction.select_convs(1))
  have "finds (claimed_run_from_row row x) st c \<longleftrightarrow> claimed_run_from_row row x t = (Inr c, t)"
    using finds_everywhere [OF stateless_rows(1) _ t] t unfolding finds_def by blast
  then show ?thesis unfolding claimed_run_from_row_Inr by simp
qed

text \<open>A run that could be read back can still be read back from a kept row.\<close>

lemma claimed_row_kept:
  assumes "finds (claimed_run_from_row row x) st c" "run_kept row row'"
  shows "\<exists>c'. finds (claimed_run_from_row row' x) st' c'"
proof -
  have "(rnr_run_id row', rnr_request_id row', rnr_request_identity_digest row', rnr_request_payload row', rnr_contract_version_id row',
      rnr_origin row', rnr_scope_digest row', rnr_bound_input_cut_digest row') =
    (rnr_run_id row, rnr_request_id row, rnr_request_identity_digest row, rnr_request_payload row, rnr_contract_version_id row,
      rnr_origin row, rnr_scope_digest row, rnr_bound_input_cut_digest row)"
    using assms(2) by (cases row; cases row') (auto simp: run_kept_def)
  then show ?thesis using assms(1) by (simp add: finds_claimed_row)
qed

lemma finds_current_run:
  "finds (current_claimed_run run e) st c \<longleftrightarrow>
     (\<exists>row x. find (\<lambda>r. rnr_run_id r = clr_run_id run) (sto_runs st) = Some row \<and> expectation_for_claimed_run run = Inr x \<and>
        finds (claimed_run_from_row row x) st c)"
  by (auto simp: current_claimed_run_def finds_wbind stateless_intros split: option.splits)

lemma run_key_kept: "run_kept r r' \<Longrightarrow> rnr_run_id r' = rnr_run_id r \<and> rnr_creation_operation_id r' = rnr_creation_operation_id r"
  by (cases r; cases r') (auto simp: run_kept_def)

lemma current_run_kept:
  assumes "finds (current_claimed_run run e) st c" "store_kept st st'"
  shows "\<exists>c'. finds (current_claimed_run run e') st' c'"
proof -
  obtain row x where row: "find (\<lambda>r. rnr_run_id r = clr_run_id run) (sto_runs st) = Some row"
    "expectation_for_claimed_run run = Inr x" "finds (claimed_run_from_row row x) st c"
    using assms(1) finds_current_run by blast
  have "rows_kept run_kept (sto_runs st) (sto_runs st')" using assms(2) by (simp add: store_kept_def)
  from find_kept [OF this _ row(1)] obtain row' where
    row': "find (\<lambda>r. rnr_run_id r = clr_run_id run) (sto_runs st') = Some row'" "run_kept row row'"
    using run_key_kept by blast
  show ?thesis using claimed_row_kept [OF row(3) row'(2)] row(2) row'(1) unfolding finds_current_run by blast
qed

end
