(* ===== verification/Reconciliation.thy ===== *)
theory Reconciliation
  imports Lifecycle_Lookups
begin

text \<open>
  Calls of the persistence layer over a connection that may break, \<open>_run_with_reconciliation\<close> and \<open>_try_reconcile\<close> of
  \<open>src/forensic_data/persistence/lifecycle.py\<close>. When the answer of a write is lost, its transaction may or may not
  have been committed; the caller then looks for the receipt of the operation before it writes again. Between two
  visits of the caller the operations of others run. The advisory locks on the identities of an operation, which both the write and the
  lookup take, let the lookup see what became of a write that was under way.
\<close>

section \<open>Visits\<close>

text \<open>What the connection of one visit does: it is never made, it is lost before the transaction commits or during the
  commit that the server did perform (an ambiguous \<open>OperationalError\<close>), it fails with another
  \<open>OperationalError\<close> or another \<open>psycopg.Error\<close> that rolls the transaction back, or it holds.\<close>

datatype link = Unreachable | Lost_Before_Commit | Lost_After_Commit | Transient_Failure | Definite_Failure | Holds

record visit =
  vis_others :: "event list"
  vis_link :: link
  vis_accepts :: "store \<Rightarrow> store \<Rightarrow> bool"
  vis_now :: "nat \<Rightarrow> instant"

text \<open>The metadata database as one caller sees it: the store, the visits still to come and the number of its own
  commits that changed the store.\<close>

record network =
  nw_store :: store
  nw_visits :: "nat \<Rightarrow> visit"
  nw_turn :: nat
  nw_commits :: nat

definition visited :: "(uuid \<Rightarrow> uuid \<Rightarrow> uuid) \<Rightarrow> network \<Rightarrow> visit \<times> network" where
  "visited derived nw =
     (let v = nw_visits nw (nw_turn nw) in
      (v, nw\<lparr>nw_store := after derived (vis_others v) (nw_store nw), nw_turn := Suc (nw_turn nw)\<rparr>))"

definition commit_write :: "network \<Rightarrow> store \<Rightarrow> network" where
  "commit_write nw st = nw\<lparr>nw_store := st, nw_commits := nw_commits nw + (if st = nw_store nw then 0 else 1)\<rparr>"

text \<open>One connection and one call of \<open>write\<close>.\<close>

datatype 'a write_result =
    Written 'a
  | Write_Raised lifecycle_error
  | Write_Failed
  | Write_Retryable
  | Write_Ambiguous

definition try_write :: "(uuid \<Rightarrow> uuid \<Rightarrow> uuid) \<Rightarrow> 'a tx \<Rightarrow> network \<Rightarrow> 'a write_result \<times> network" where
  "try_write derived write nw0 =
     (let (v, nw) = visited derived nw0 in
      case vis_link v of
        Unreachable \<Rightarrow> (Write_Retryable, nw)
      | Lost_Before_Commit \<Rightarrow> (Write_Ambiguous, nw)
      | Transient_Failure \<Rightarrow> (Write_Retryable, nw)
      | Definite_Failure \<Rightarrow> (Write_Failed, nw)
      | Lost_After_Commit \<Rightarrow>
          (case transact (vis_accepts v) (vis_now v) write (nw_store nw) of
             (Inl StatementRefused, _) \<Rightarrow> (Write_Failed, nw)
           | (Inl e, _) \<Rightarrow> (Write_Raised e, nw)
           | (Inr _, st) \<Rightarrow> (Write_Ambiguous, commit_write nw st))
      | Holds \<Rightarrow>
          (case transact (vis_accepts v) (vis_now v) write (nw_store nw) of
             (Inl StatementRefused, _) \<Rightarrow> (Write_Failed, nw)
           | (Inl e, _) \<Rightarrow> (Write_Raised e, nw)
           | (Inr x, st) \<Rightarrow> (Written x, commit_write nw st)))"

text \<open>\<open>_try_reconcile\<close>: the receipt, its absence, or no answer. The transaction of the lookup is never committed.\<close>

datatype 'a reconciled = Receipt 'a | Receipt_Absent | Reconciliation_Unavailable | Lookup_Raised lifecycle_error

definition try_reconcile :: "(uuid \<Rightarrow> uuid \<Rightarrow> uuid) \<Rightarrow> 'a option tx \<Rightarrow> network \<Rightarrow> 'a reconciled \<times> network" where
  "try_reconcile derived reconcile nw0 =
     (let (v, nw) = visited derived nw0 in
      if vis_link v \<noteq> Holds then (Reconciliation_Unavailable, nw)
      else
        (case fst (transact (vis_accepts v) (vis_now v) reconcile (nw_store nw)) of
           Inl StatementRefused \<Rightarrow> (Reconciliation_Unavailable, nw)
         | Inl e \<Rightarrow> (Lookup_Raised e, nw)
         | Inr None \<Rightarrow> (Receipt_Absent, nw)
         | Inr (Some x) \<Rightarrow> (Receipt x, nw)))"

text \<open>The loop over the attempts that are left; \<open>failed\<close> says that \<open>last_error\<close> is set.\<close>

fun reconciliation_loop ::
  "(uuid \<Rightarrow> uuid \<Rightarrow> uuid) \<Rightarrow> 'a tx \<Rightarrow> 'a option tx \<Rightarrow> nat \<Rightarrow> bool \<Rightarrow> bool \<Rightarrow> network \<Rightarrow> (lifecycle_error + 'a) \<times> network"
where
  "reconciliation_loop derived write reconcile 0 failed unresolved nw =
     (Inl (if \<not> failed then LifecycleValueError AssertionError
           else if \<not> unresolved then LifecycleTransactionError else LifecycleCommitUnknownError), nw)"
| "reconciliation_loop derived write reconcile (Suc n) failed unresolved nw =
     (let (before, nw) = (if unresolved then try_reconcile derived reconcile nw else (Receipt_Absent, nw)) in
      case before of
        Receipt x \<Rightarrow> (Inr x, nw)
      | Lookup_Raised e \<Rightarrow> (Inl e, nw)
      | Reconciliation_Unavailable \<Rightarrow>
          if \<not> failed then (Inl (LifecycleValueError AssertionError), nw)
          else reconciliation_loop derived write reconcile n True True nw
      | Receipt_Absent \<Rightarrow>
          (let (written, nw) = try_write derived write nw in
           case written of
             Written x \<Rightarrow> (Inr x, nw)
           | Write_Raised e \<Rightarrow> (Inl e, nw)
           | Write_Failed \<Rightarrow> (Inl LifecycleTransactionError, nw)
           | Write_Retryable \<Rightarrow> reconciliation_loop derived write reconcile n True False nw
           | Write_Ambiguous \<Rightarrow>
               (let (found, nw) = try_reconcile derived reconcile nw in
                case found of
                  Receipt x \<Rightarrow> (Inr x, nw)
                | Lookup_Raised e \<Rightarrow> (Inl e, nw)
                | Receipt_Absent \<Rightarrow> reconciliation_loop derived write reconcile n True False nw
                | Reconciliation_Unavailable \<Rightarrow> reconciliation_loop derived write reconcile n True True nw)))"

definition run_with_reconciliation ::
  "(uuid \<Rightarrow> uuid \<Rightarrow> uuid) \<Rightarrow> nat \<Rightarrow> 'a tx \<Rightarrow> 'a option tx \<Rightarrow> network \<Rightarrow> (lifecycle_error + 'a) \<times> network" where
  "run_with_reconciliation derived max_attempts write reconcile nw =
     reconciliation_loop derived write reconcile max_attempts False False nw"

section \<open>Operations with receipts\<close>

text \<open>How a call may end: with the receipt that the database holds, after at most one commit of its own; not knowing, after
  at most one; or with another exception, having changed nothing.\<close>

definition settled :: "'a option tx \<Rightarrow> nat \<Rightarrow> (lifecycle_error + 'a) \<times> network \<Rightarrow> bool" where
  "settled reconcile commits result \<longleftrightarrow>
     (case result of
        (Inr x, nw) \<Rightarrow> nw_commits nw \<le> Suc commits \<and>
          finds reconcile (nw_store nw) (Some x)
      | (Inl e, nw) \<Rightarrow> (if e = LifecycleCommitUnknownError then nw_commits nw \<le> Suc commits else nw_commits nw = commits))"

text \<open>The contract between a write and its lookup: \<open>recorded\<close> describes the stores that hold the receipt of the
  operation; a write that changes the store puts it there, nothing that others do takes it away, and as long as it is there the
  lookup finds it. What a write returns is what the lookup would find.\<close>

locale receipts =
  fixes act :: "'a tx" and reconcile :: "'a option tx" and recorded :: "store \<Rightarrow> bool"
  assumes ordered: "lifecycle_ok st \<Longrightarrow> transact accepts now act st = (Inr x, st') \<Longrightarrow> lifecycle_ok st'"
    and recorded_by_write: "lifecycle_ok st \<Longrightarrow> transact accepts now act st = (Inr x, st') \<Longrightarrow> st' \<noteq> st \<Longrightarrow> recorded st'"
    and written_receipt: "lifecycle_ok st \<Longrightarrow> transact accepts now act st = (Inr x, st') \<Longrightarrow> finds reconcile st' (Some x)"
    and recorded_kept: "kept_by_others st st' \<Longrightarrow> recorded st \<Longrightarrow> recorded st'"
    and recorded_receipt: "recorded st \<Longrightarrow> \<exists>x. finds reconcile st (Some x)"
    and looks_up: "stateless reconcile"
    and returns: "fst (transact accepts now act st) \<noteq> Inl LifecycleCommitUnknownError"
      "fst (transact accepts now reconcile st) \<noteq> Inl LifecycleCommitUnknownError"
begin

lemma visit_keeps:
  assumes "visited derived nw = (v, nw')" "lifecycle_ok (nw_store nw)"
  shows "lifecycle_ok (nw_store nw') \<and> kept_by_others (nw_store nw) (nw_store nw') \<and> nw_commits nw' = nw_commits nw"
  using assms after_ok after_kept_by_others by (auto simp: visited_def Let_def)

text \<open>A lookup changes nothing of its own; while the receipt is recorded it finds it or gives no answer.\<close>

lemma lookup_result:
  assumes "try_reconcile derived reconcile nw = (r, nw')" "lifecycle_ok (nw_store nw)"
  shows "lifecycle_ok (nw_store nw')" "nw_commits nw' = nw_commits nw"
    and "recorded (nw_store nw) \<Longrightarrow> recorded (nw_store nw')"
    and "recorded (nw_store nw) \<Longrightarrow> (\<exists>x. r = Receipt x) \<or> r = Reconciliation_Unavailable"
    and "r = Receipt x \<Longrightarrow> finds reconcile (nw_store nw') (Some x)"
    and "r \<noteq> Lookup_Raised LifecycleCommitUnknownError"
proof -
  obtain v where v: "visited derived nw = (v, nw')"
    using assms(1) by (auto simp: try_reconcile_def split: prod.splits if_splits sum.splits option.splits lifecycle_error.splits)
  note keep = visit_keeps [OF v assms(2)]
  show "lifecycle_ok (nw_store nw')" "nw_commits nw' = nw_commits nw" using keep by simp_all
  show kept: "recorded (nw_store nw')" if "recorded (nw_store nw)" using recorded_kept keep that by blast
  show "(\<exists>x. r = Receipt x) \<or> r = Reconciliation_Unavailable" if there: "recorded (nw_store nw)"
  proof -
    obtain x where "finds reconcile (nw_store nw') (Some x)" using recorded_receipt [OF kept [OF there]] by blast
    then have "fst (transact (vis_accepts v) (vis_now v) reconcile (nw_store nw')) = Inr (Some x)"
      using transact_finds [OF looks_up] by blast
    then show ?thesis using assms(1) by (auto simp: try_reconcile_def v split: if_splits)
  qed
  show "finds reconcile (nw_store nw') (Some x)" if "r = Receipt x"
    using assms(1) that transact_finds [OF looks_up, of "vis_accepts v" "vis_now v" "nw_store nw'"]
    by (auto simp: try_reconcile_def v split: if_splits sum.splits option.splits lifecycle_error.splits)
  show "r \<noteq> Lookup_Raised LifecycleCommitUnknownError"
    using assms(1) returns(2) [of "vis_accepts v" "vis_now v" "nw_store nw'"]
    by (auto simp: try_reconcile_def v split: if_splits sum.splits option.splits lifecycle_error.splits)
qed

text \<open>A write commits at most once, and then the receipt is recorded.\<close>

lemma write_result:
  assumes "try_write derived act nw = (r, nw')" "lifecycle_ok (nw_store nw)"
  shows "lifecycle_ok (nw_store nw')"
    and "nw_commits nw' = nw_commits nw \<or> (nw_commits nw' = Suc (nw_commits nw) \<and> recorded (nw_store nw') \<and>
      ((\<exists>x. r = Written x) \<or> r = Write_Ambiguous))"
    and "r = Written x \<Longrightarrow> finds reconcile (nw_store nw') (Some x)"
    and "r \<noteq> Write_Raised LifecycleCommitUnknownError"
proof -
  obtain v nw1 where v: "visited derived nw = (v, nw1)" by fastforce
  note keep = visit_keeps [OF v assms(2)]
  obtain y st where t: "transact (vis_accepts v) (vis_now v) act (nw_store nw1) = (y, st)" by fastforce
  have same: "y = Inl e \<Longrightarrow> st = nw_store nw1" for e using transact_cases [OF t] by auto
  have cases: "nw' = nw1 \<and> \<not> (\<exists>x. r = Written x) \<or>
      (\<exists>x. y = Inr x \<and> nw' = commit_write nw1 st \<and> (r = Written x \<or> r = Write_Ambiguous))"
    using assms(1) by (auto simp: try_write_def v t split: link.splits sum.splits lifecycle_error.splits)
  show "lifecycle_ok (nw_store nw')"
    using cases keep t ordered by (auto simp: commit_write_def)
  show "nw_commits nw' = nw_commits nw \<or> (nw_commits nw' = Suc (nw_commits nw) \<and> recorded (nw_store nw') \<and>
      ((\<exists>x. r = Written x) \<or> r = Write_Ambiguous))"
    using cases keep t recorded_by_write by (auto simp: commit_write_def split: if_splits)
  show "finds reconcile (nw_store nw') (Some x)" if "r = Written x"
    using cases keep t written_receipt that by (auto simp: commit_write_def)
  show "r \<noteq> Write_Raised LifecycleCommitUnknownError"
    using assms(1) returns(1) [of "vis_accepts v" "vis_now v" "nw_store nw1"] t by (auto simp: try_write_def v split: link.splits sum.splits lifecycle_error.splits)
qed

text \<open>The caller never writes again while a commit of its own is possible: it has committed nothing, or the receipt is recorded and
  it is still unresolved.\<close>

lemma loop_settled:
  assumes "lifecycle_ok (nw_store nw)"
    and "nw_commits nw = commits \<or> (nw_commits nw = Suc commits \<and> recorded (nw_store nw) \<and> unresolved \<and> failed)"
  shows "settled reconcile commits (reconciliation_loop derived act reconcile n failed unresolved nw)"
  using assms
proof (induction n arbitrary: failed unresolved nw)
  case 0
  then show ?case by (auto simp: settled_def)
next
  case (Suc n)
  let ?loop = "reconciliation_loop derived act reconcile"
  have unsettled: "settled reconcile commits (Inl e, nw1)" if "nw_commits nw1 = commits" for e nw1
    using that by (simp add: settled_def)
  have writing: "settled reconcile commits
      (let (written, nw) = try_write derived act nw1 in
       case written of
         Written x \<Rightarrow> (Inr x, nw)
       | Write_Raised e \<Rightarrow> (Inl e, nw)
       | Write_Failed \<Rightarrow> (Inl LifecycleTransactionError, nw)
       | Write_Retryable \<Rightarrow> ?loop n True False nw
       | Write_Ambiguous \<Rightarrow>
           (let (found, nw) = try_reconcile derived reconcile nw in
            case found of
              Receipt x \<Rightarrow> (Inr x, nw)
            | Lookup_Raised e \<Rightarrow> (Inl e, nw)
            | Receipt_Absent \<Rightarrow> ?loop n True False nw
            | Reconciliation_Unavailable \<Rightarrow> ?loop n True True nw))"
    if ok1: "lifecycle_ok (nw_store nw1)" and none: "nw_commits nw1 = commits" for nw1
  proof -
    obtain written nw2 where w: "try_write derived act nw1 = (written, nw2)" by fastforce
    note w2 = write_result [OF w ok1]
    obtain found nw3 where l: "try_reconcile derived reconcile nw2 = (found, nw3)" by fastforce
    note l3 = lookup_result [OF l w2(1)]
    show ?thesis
    proof (cases written)
      case (Written x)
      then show ?thesis using w w2(2) w2(3) [OF Written] none by (auto simp: settled_def)
    next
      case Write_Ambiguous
      have state: "nw_commits nw3 = commits \<or> (nw_commits nw3 = Suc commits \<and> recorded (nw_store nw3))"
        "nw_commits nw3 = commits \<or> recorded (nw_store nw2)"
        using w2(2) l3(2,3) none by auto
      show ?thesis
      proof (cases found)
        case (Receipt x)
        then show ?thesis using w l Write_Ambiguous state l3(5) [OF Receipt] by (auto simp: settled_def)
      next
        case Receipt_Absent
        then have "nw_commits nw3 = commits" using state(2) l3(4) by auto
        then show ?thesis using w l Write_Ambiguous Receipt_Absent Suc.IH [OF l3(1)] by simp
      next
        case Reconciliation_Unavailable
        then show ?thesis using w l Write_Ambiguous Suc.IH [OF l3(1)] state(1) by simp
      next
        case (Lookup_Raised e)
        then have "nw_commits nw3 = commits" using state(2) l3(4) by auto
        then show ?thesis using w l Write_Ambiguous Lookup_Raised unsettled by simp
      qed
    next
      case Write_Retryable
      then show ?thesis using w w2(2) none Suc.IH [OF w2(1)] by auto
    next
      case Write_Failed
      then show ?thesis using w w2(2) none unsettled by auto
    next
      case (Write_Raised e)
      then show ?thesis using w w2(2) none unsettled by auto
    qed
  qed
  show ?case
  proof (cases unresolved)
    case False
    then show ?thesis using writing [OF Suc.prems(1)] Suc.prems(2) by simp
  next
    case True
    obtain found nw1 where l: "try_reconcile derived reconcile nw = (found, nw1)" by fastforce
    note l1 = lookup_result [OF l Suc.prems(1)]
    have committed: "nw_commits nw1 = commits \<or> (nw_commits nw1 = Suc commits \<and> recorded (nw_store nw) \<and> recorded (nw_store nw1) \<and> failed)"
      using Suc.prems(2) l1(2,3) by auto
    show ?thesis
    proof (cases found)
      case (Receipt x)
      then show ?thesis using True l committed l1(5) [OF Receipt] by (auto simp: settled_def)
    next
      case Receipt_Absent
      then have "nw_commits nw1 = commits" using committed l1(4) by auto
      then show ?thesis using True l Receipt_Absent writing [OF l1(1)] by simp
    next
      case Reconciliation_Unavailable
      then show ?thesis using True l Suc.IH [OF l1(1)] committed unsettled by auto
    next
      case (Lookup_Raised e)
      then have "nw_commits nw1 = commits" using committed l1(4) by auto
      then show ?thesis using True l Lookup_Raised unsettled by simp
    qed
  qed
qed

end

end
