(* ===== verification/Lifecycle_Receipts.thy ===== *)
theory Lifecycle_Receipts
  imports Reconciliation
begin

text \<open>
  The operations of the lifecycle as instances of the contract \<open>receipts\<close>: what each of them leaves in the database is
  found again by its lookup, whatever others do in between.
\<close>

section \<open>No transaction raises a commit of unknown outcome\<close>

abbreviation known :: "'a tx \<Rightarrow> bool" where
  "known \<equiv> raises (\<lambda>e. e \<noteq> LifecycleCommitUnknownError)"

named_theorems known_intros \<open>transactions that do not raise \<open>LifecycleCommitUnknownError\<close>\<close>

lemmas known_sequences [known_intros] = raises_wreturn raises_wbind raises_if raises_case_option

lemma known_statements [known_intros]:
  "e \<noteq> LifecycleCommitUnknownError \<Longrightarrow> known (wraise e)" "e \<noteq> LifecycleCommitUnknownError \<Longrightarrow> known (wrequire c e)"
  "known (codec r)" "known (from_store f)" "known (write_store w)" "known database_now" "known transaction_start"
  by (auto simp: raises_def codec_def from_store_def write_store_def database_now_def transaction_start_def split: sum.splits if_splits)

lemma known_selects [known_intros]:
  "known (select_run_by_creation_operation i)" "known (select_run_by_request i)" "known (select_run_by_id i)"
  "known (select_attempt_by_start_operation i)" "known (select_attempt_by_end_operation i)" "known (select_attempt_by_id i)"
  "known (select_attempts_of_run i)" "known (select_lease_renewal_receipt i)" "known (select_context_by_acquisition_operation i)"
  "known (select_context_by_end_operation i)" "known (select_context_by_id i)" "known (insert_run r)" "known (insert_attempt a)"
  "known (insert_renewal l)" "known (insert_context c)" "known (update_attempts p f)" "known (update_runs q g)"
  "known (update_contexts k h)"
  by (simp_all add: Lifecycle_Effects.select_defs write_defs update_attempts_def update_runs_def update_contexts_def known_intros)

lemma known_rows [known_intros]:
  "known (claimed_run_from_row row x)" "known (started_attempt_from_row arow ax run)" "known (commit_fenced_result y i)"
  "known (require_admissible rows ax)" "known (require_attempt_fence_row arow attempt)"
  "known (validate_stored_clickhouse_closure crow)" "known (require_generic_context_end_supported crow state)"
  by (auto simp: claimed_run_from_row_def started_attempt_from_row_def commit_fenced_result_def require_admissible_def
      require_attempt_fence_row_def validate_stored_clickhouse_closure_def require_generic_context_end_supported_def Let_def
      intro!: known_intros)

lemma known_reads [known_intros]:
  "e \<noteq> LifecycleCommitUnknownError \<Longrightarrow> known (current_claimed_run run e)"
  "e \<noteq> LifecycleCommitUnknownError \<Longrightarrow> known (locked_attempt_of_run attempt e)"
  "known (persisted_context_from_row crow cx)" "known (require_finished_context crow cend)"
  "known (outcome_receipt_from_database ox)" "known (expected_batch_of request direction)"
  by (auto simp: current_claimed_run_def locked_attempt_of_run_def persisted_context_from_row_def require_finished_context_def
      outcome_receipt_from_database_def expected_batch_of_def Let_def intro!: known_intros)

lemma known_receipts [known_intros]:
  "known (renewed_attempt_from_receipt r lx)" "known (retryable_outcome_from_database ox)"
  "known (terminal_outcome_from_database ox)" "known (require_attempt_closure_for_end attempt)"
  "known (require_dataset_closure run i d direction)" "known (begin_context_end_transaction cend)"
  "known (prepare_new_context_end cend arow)" "known (abandon_context derived ox crow)"
  by (auto simp: renewed_attempt_from_receipt_def retryable_outcome_from_database_def terminal_outcome_from_database_def
      require_attempt_closure_for_end_def require_stored_attempt_closure_def require_dataset_closure_def
      begin_context_end_transaction_def prepare_new_context_end_def abandon_context_def Let_def intro!: known_intros)

lemma known_writes:
  "known (claim_run_once rx)" "known (start_attempt_once ax)" "known (renew_attempt_once lx)"
  "known (persist_context_once cx)" "known (publish_terminal_outcome_once ox)" "known (persist_retryable_outcome_once ox)"
  by (auto simp: claim_run_once_def start_attempt_once_def renew_attempt_once_def persist_context_once_def
      publish_terminal_outcome_once_def persist_retryable_outcome_once_def Let_def intro!: known_intros)

lemma known_context_end: "known (finish_context_once cend)"
proof -
  have "known (case x of (operation_row, attempt_row) \<Rightarrow> m operation_row attempt_row)" if "\<And>a b. known (m a b)"
    for x :: "context_row option \<times> attempt_row" and m :: "context_row option \<Rightarrow> attempt_row \<Rightarrow> persisted_context tx"
    using that by (cases x) simp
  then show ?thesis unfolding finish_context_once_def by (auto intro!: known_intros)
qed

lemma known_wfold: "(\<And>x. known (f x)) \<Longrightarrow> known (wfold (\<lambda>_. f) () xs)"
  by (induction xs) (auto intro!: known_intros)

lemma known_abandon: "known (abandon_attempt_once derived ox)"
  by (auto simp: abandon_attempt_once_def Let_def intro!: known_intros known_wfold)

lemma known_lookups:
  "known (lookup_claimed_run rx)" "known (lookup_started_attempt ax)" "known (lookup_renewed_attempt lx)"
  "known (lookup_persisted_context cx)" "known (lookup_finished_context cend)"
  "known (lookup_retryable_attempt_outcome ox)" "known (lookup_terminal_attempt_outcome ox)"
  by (auto simp: lookup_claimed_run_def lookup_started_attempt_def lookup_renewed_attempt_def lookup_persisted_context_def
      lookup_finished_context_def lookup_retryable_attempt_outcome_def lookup_terminal_attempt_outcome_def
      intro!: known_intros)

lemma known_transact: "known m \<Longrightarrow> fst (transact accepts now m st) \<noteq> Inl LifecycleCommitUnknownError"
  by (auto simp: transact_def raises_def split: prod.splits sum.splits)

section \<open>Transactions that keep the order of the store\<close>

lemma change_ok:
  assumes "lifecycle_ok st" "st' = st \<or> (lifecycle_change st st' \<and> unique_keys st')"
  shows "lifecycle_ok st'"
  using assms attempts_ok_change terminal_ok_change endings_ok_change leases_ok_change unfolding lifecycle_ok_def by blast

lemma transact_Inr:
  assumes "transact accepts now m st = (Inr x, st')"
  obtains t t' where "tx_store t = st" "m t = (Inr x, t')" "tx_store t' = st'"
proof -
  let ?t = "\<lparr>tx_store = st, tx_now = now, tx_reads = 1, tx_accepts = accepts\<rparr>"
  obtain t' where "m ?t = (Inr x, t')" "st' = tx_store t'" using transact_cases [OF assms] by auto
  then show thesis using that [of ?t t'] by simp
qed

text \<open>A write whose effect is known and whose answer the lookup finds again.\<close>

definition durable :: "'a tx \<Rightarrow> 'a option tx \<Rightarrow> bool" where
  "durable m reconcile \<longleftrightarrow> (\<forall>t x t'. m t = (Inr x, t') \<longrightarrow> lifecycle_ok (tx_store t) \<longrightarrow>
     lifecycle_ok (tx_store t') \<and> finds reconcile (tx_store t') (Some x))"

lemma durableI:
  assumes "\<And>t x t'. m t = (Inr x, t') \<Longrightarrow> tx_store t' = tx_store t \<or> (lifecycle_change (tx_store t) (tx_store t') \<and> unique_keys (tx_store t'))"
    and "\<And>t x t'. m t = (Inr x, t') \<Longrightarrow> lifecycle_ok (tx_store t) \<Longrightarrow> finds reconcile (tx_store t') (Some x)"
  shows "durable m reconcile"
  unfolding durable_def using assms change_ok by blast

text \<open>The contract when the lookup keeps finding a receipt once it is there.\<close>

lemma receipts_found:
  assumes "durable m reconcile" "stateless reconcile" "known m" "known reconcile"
    and "\<And>st st' x. kept_by_others st st' \<Longrightarrow> finds reconcile st (Some x) \<Longrightarrow> \<exists>y. finds reconcile st' (Some y)"
  shows "receipts m reconcile (\<lambda>st. \<exists>x. finds reconcile st (Some x))"
proof unfold_locales
  fix st accepts now x st'
  assume ok: "lifecycle_ok st" and run: "transact accepts now m st = (Inr x, st')"
  obtain t t' where t: "tx_store t = st" "m t = (Inr x, t')" "tx_store t' = st'" by (rule transact_Inr [OF run])
  have "lifecycle_ok st'" "finds reconcile st' (Some x)" using assms(1) t ok unfolding durable_def by blast+
  then show "lifecycle_ok st'" "finds reconcile st' (Some x)" "\<exists>x. finds reconcile st' (Some x)" by blast+
qed (use assms known_transact in \<open>blast+\<close>)

section \<open>Claiming a run\<close>

lemma finds_lookup_claimed:
  "finds (lookup_claimed_run x) st (Some c) \<longleftrightarrow>
     (case find (\<lambda>r. rnr_creation_operation_id r = rex_creation_operation_id x) (sto_runs st) of
        Some row \<Rightarrow> finds (claimed_run_from_row row x) st c
      | None \<Rightarrow> (case find (\<lambda>r. rnr_request_id r = rq_request_id (rex_request x)) (sto_runs st) of
          Some row \<Rightarrow> finds (claimed_run_from_row row x) st c
        | None \<Rightarrow> False))"
  by (auto simp: lookup_claimed_run_def finds_wbind stateless_intros split: option.splits)

definition claim_recorded :: "run_expectation \<Rightarrow> store \<Rightarrow> bool" where
  "claim_recorded x st \<longleftrightarrow> (\<exists>row c.
     find (\<lambda>r. rnr_creation_operation_id r = rex_creation_operation_id x) (sto_runs st) = Some row \<and>
     finds (claimed_run_from_row row x) st c)"

lemma stateless_result: "stateless m \<Longrightarrow> m t = (Inr x, t') \<Longrightarrow> t' = t \<and> finds m (tx_store t) x"
  by (metis findsI stateless_def prod.inject)

lemma claim_written:
  assumes "claim_run_once x t = (Inr c, t')"
  shows "finds (lookup_claimed_run x) (tx_store t') (Some c) \<and> (tx_store t' \<noteq> tx_store t \<longrightarrow> claim_recorded x (tx_store t'))"
proof (cases "find (\<lambda>r. rnr_creation_operation_id r = rex_creation_operation_id x) (sto_runs (tx_store t))")
  case (Some row)
  then show ?thesis using assms
    by (auto simp: claim_run_once_def Lifecycle_Effects.select_defs wbind_eq_Inr_iff tx_iffs finds_lookup_claimed
        dest!: stateless_result [OF stateless_rows(1)])
next
  case op: None
  show ?thesis
  proof (cases "find (\<lambda>r. rnr_request_id r = rq_request_id (rex_request x)) (sto_runs (tx_store t))")
    case (Some row)
    then show ?thesis using assms op
      by (auto simp: claim_run_once_def Lifecycle_Effects.select_defs wbind_eq_Inr_iff tx_iffs finds_lookup_claimed
          dest!: stateless_result [OF stateless_rows(1)])
  next
    case None
    have append: "find p (rows @ [r]) = Some r" if "find p rows = None" "p r" for p r and rows :: "run_row list"
      using that by (induction rows) (auto split: if_splits)
    show ?thesis using assms op None
      by (auto simp: claim_run_once_def Lifecycle_Effects.select_defs write_defs wbind_eq_Inr_iff tx_iffs finds_lookup_claimed
          append claim_recorded_def simp del: wrequire_apply
          dest!: stateless_result [OF stateless_rows(1)])
  qed
qed

interpretation claim: receipts "claim_run_once x" "lookup_claimed_run x" "claim_recorded x" for x
proof unfold_locales
  fix st accepts now c st'
  assume ok: "lifecycle_ok st" and run: "transact accepts now (claim_run_once x) st = (Inr c, st')"
  obtain t t' where t: "tx_store t = st" "claim_run_once x t = (Inr c, t')" "tx_store t' = st'" by (rule transact_Inr [OF run])
  show "lifecycle_ok st'" using change_ok [OF ok] claim_effect [OF t(2)] t by blast
  show "finds (lookup_claimed_run x) st' (Some c)" using claim_written [OF t(2)] t(3) by blast
  show "claim_recorded x st'" if "st' \<noteq> st" using claim_written [OF t(2)] t that by blast
next
  fix st st' assume kept: "kept_by_others st st'" and "claim_recorded x st"
  then obtain row c where row: "find (\<lambda>r. rnr_creation_operation_id r = rex_creation_operation_id x) (sto_runs st) = Some row"
    "finds (claimed_run_from_row row x) st c" by (auto simp: claim_recorded_def)
  have "rows_kept run_kept (sto_runs st) (sto_runs st')" using kept by (simp add: kept_by_others_def store_kept_def)
  from find_kept [OF this _ row(1)] obtain row' where
    "find (\<lambda>r. rnr_creation_operation_id r = rex_creation_operation_id x) (sto_runs st') = Some row'" "run_kept row row'"
    using run_key_kept by blast
  then show "claim_recorded x st'" using claimed_row_kept [OF row(2)] unfolding claim_recorded_def by blast
next
  fix st assume "claim_recorded x st"
  then show "\<exists>c. finds (lookup_claimed_run x) st (Some c)" by (auto simp: claim_recorded_def finds_lookup_claimed)
qed (use stateless_lookups known_transact known_writes known_lookups in blast)+

section \<open>Starting an attempt\<close>

lemma attempt_row_ok:
  assumes "lifecycle_ok st" "row \<in> set (sto_attempts st)"
  shows "0 < atr_ordinal row \<and> 0 \<le> atr_lease_revision row \<and>
    ((atr_lease_revision row = 0) = (atr_lease_operation_id row = None)) \<and> atr_initial_lease_expires_at row \<le> atr_lease_expires_at row"
proof -
  have "lease_ok row (renewals_of row st)" using assms by (simp add: lifecycle_ok_def leases_ok_iff)
  then have lease: "0 \<le> atr_lease_revision row" "(atr_lease_revision row = 0) = (atr_lease_operation_id row = None)"
    "atr_initial_lease_expires_at row \<le> atr_lease_expires_at row"
    by (auto simp: lease_ok_def split: if_splits)
  have "row \<in> set (attempts_of (atr_run_id row) st)" using assms(2) by (simp add: attempts_of_def)
  then have "atr_ordinal row \<in> set (map int [1..<Suc (length (attempts_of (atr_run_id row) st))])"
    using attempts_okD(1) [of st "atr_run_id row"] assms(1) by (metis image_eqI lifecycle_ok_def set_map)
  then show ?thesis using lease by auto
qed

lemma finds_started_row:
  "(\<exists>a. finds (started_attempt_from_row row x run) st a) \<longleftrightarrow>
     atr_attempt_id row = aex_candidate_attempt_id x \<and> atr_run_id row = clr_run_id (aex_run x) \<and>
     atr_start_operation_id row = aex_start_operation_id x \<and> atr_execution_budgets row = aex_execution_budgets_json x \<and>
     atr_owner_token row = aex_owner_token x \<and> atr_initial_lease_expires_at row = aex_lease_expires_at x \<and>
     0 < atr_ordinal row \<and> 0 \<le> atr_lease_revision row \<and>
     ((atr_lease_revision row = 0) = (atr_lease_operation_id row = None)) \<and> aex_lease_expires_at x \<le> atr_lease_expires_at row \<and>
     require_optional_sha256 (atr_input_cut_digest row) = Inr ()"
  by (auto simp: started_attempt_from_row_def finds_wbind stateless_intros mk_RunAttemptRecord_def result_iffs)

lemma finds_lookup_started:
  "finds (lookup_started_attempt x) st (Some a) \<longleftrightarrow>
     (\<exists>row run. find (\<lambda>a. atr_start_operation_id a = aex_start_operation_id x) (sto_attempts st) = Some row \<and>
        finds (current_claimed_run (aex_run x) StoredLifecycleIntegrityError) st run \<and>
        finds (started_attempt_from_row row x run) st a)"
  by (auto simp: lookup_started_attempt_def finds_wbind stateless_intros split: option.splits)

lemma current_run_error: "finds (current_claimed_run run e) st c \<Longrightarrow> finds (current_claimed_run run e') st c"
  unfolding finds_current_run .

lemma start_written:
  assumes "start_attempt_once x t = (Inr a, t')"
  shows "finds (lookup_started_attempt x) (tx_store t') (Some a)"
proof -
  obtain run where run: "current_claimed_run (aex_run x) RunLifecycleStateError t = (Inr run, t)"
    using assms current_claimed_run_Inr by (force simp: start_attempt_once_def wbind_eq_Inr_iff)
  then have found: "finds (current_claimed_run (aex_run x) StoredLifecycleIntegrityError) st run"
    if "sto_runs st = sto_runs (tx_store t)" for st
    using findsI [OF stateless_reads(1) run] that unfolding finds_current_run finds_claimed_row by auto
  show ?thesis
  proof (cases "find (\<lambda>a. atr_start_operation_id a = aex_start_operation_id x) (sto_attempts (tx_store t))")
    case (Some row)
    then show ?thesis using assms run found [OF refl]
      by (auto simp: start_attempt_once_def Lifecycle_Effects.select_defs wbind_eq_Inr_iff tx_iffs finds_lookup_started
          dest!: stateless_result [OF stateless_rows(2)])
  next
    case None
    then obtain row where "find (\<lambda>a. atr_start_operation_id a = aex_start_operation_id x) (sto_attempts (tx_store t')) = Some row"
      "finds (started_attempt_from_row row x run) (tx_store t') a" "sto_runs (tx_store t') = sto_runs (tx_store t)"
      using assms run
      by (auto simp: start_attempt_once_def Lifecycle_Effects.select_defs write_defs wbind_eq_Inr_iff tx_iffs require_admissible_Inr
          commit_fenced_result_Inr simp del: wrequire_apply split: option.splits dest!: stateless_result [OF stateless_rows(2)])
    then show ?thesis using found by (auto simp: finds_lookup_started)
  qed
qed

lemma start_kept:
  assumes "kept_by_others st st'" "finds (lookup_started_attempt x) st (Some a)"
  shows "\<exists>b. finds (lookup_started_attempt x) st' (Some b)"
proof -
  obtain row run where row: "find (\<lambda>a. atr_start_operation_id a = aex_start_operation_id x) (sto_attempts st) = Some row"
    "finds (current_claimed_run (aex_run x) StoredLifecycleIntegrityError) st run"
    "finds (started_attempt_from_row row x run) st a" using assms(2) finds_lookup_started by blast
  have kept: "store_kept st st'" and ok: "lifecycle_ok st'" using assms(1) by (simp_all add: kept_by_others_def)
  have "rows_kept attempt_kept (sto_attempts st) (sto_attempts st')" using kept by (simp add: store_kept_def)
  from find_kept [OF this _ row(1)] obtain row' where
    row': "find (\<lambda>a. atr_start_operation_id a = aex_start_operation_id x) (sto_attempts st') = Some row'" "attempt_kept row row'"
    by (auto simp: attempt_kept_def)
  obtain run' where run': "finds (current_claimed_run (aex_run x) StoredLifecycleIntegrityError) st' run'"
    using current_run_kept [OF row(2) kept] by blast
  have "row' \<in> set (sto_attempts st')" using find_mem [OF row'(1)] by simp
  from attempt_row_ok [OF ok this] have "\<exists>b. finds (started_attempt_from_row row' x run') st' b"
    using row(3) row'(2) unfolding finds_started_row
    using finds_started_row [of row x run st] by (auto simp: attempt_kept_def)
  then show ?thesis using row'(1) run' unfolding finds_lookup_started by blast
qed

interpretation start: receipts "start_attempt_once x" "lookup_started_attempt x"
    "\<lambda>st. \<exists>a. finds (lookup_started_attempt x) st (Some a)" for x
  by (rule receipts_found [OF durableI [OF start_effect start_written] stateless_lookups(2) known_writes(2) known_lookups(2) start_kept])

section \<open>Renewing a lease\<close>

lemma finds_renewed:
  "(\<exists>a. finds (renewed_attempt_from_receipt r x) st a) \<longleftrightarrow>
     (let attempt = lex_attempt x; revision = rar_lease_revision attempt + 1 in
      r = \<lparr>rwr_lease_operation_id = lex_operation_id x, rwr_run_id = clr_run_id (rar_run attempt),
        rwr_attempt_id = rar_attempt_id attempt, rwr_owner_token = rar_owner_token attempt,
        rwr_expected_lease_revision = rar_lease_revision attempt,
        rwr_requested_lease_expires_at = lex_lease_expires_at x, rwr_resulting_lease_revision = revision\<rparr> \<and>
      (\<exists>row run json. find (\<lambda>a. atr_attempt_id a = rar_attempt_id attempt) (sto_attempts st) = Some row \<and>
        execution_budgets_json (rar_execution_budgets attempt) = Inr json \<and>
        atr_run_id row = clr_run_id (rar_run attempt) \<and> atr_start_operation_id row = rar_start_operation_id attempt \<and>
        atr_execution_budgets row = json \<and> atr_owner_token row = rar_owner_token attempt \<and>
        atr_initial_lease_expires_at row = rar_initial_lease_expires_at attempt \<and>
        finds (current_claimed_run (rar_run attempt) StoredLifecycleIntegrityError) st run \<and>
        revision \<le> atr_lease_revision row \<and> lex_lease_expires_at x \<le> atr_lease_expires_at row \<and>
        (atr_lease_revision row = revision \<longrightarrow> atr_lease_operation_id row = Some (lex_operation_id x) \<and>
           atr_lease_expires_at row = lex_lease_expires_at x) \<and>
        0 < atr_ordinal row \<and> 0 \<le> atr_lease_revision row \<and>
        ((atr_lease_revision row = 0) = (atr_lease_operation_id row = None)) \<and>
        atr_initial_lease_expires_at row \<le> atr_lease_expires_at row \<and>
        require_optional_sha256 (atr_input_cut_digest row) = Inr ()))"
  by (auto simp: renewed_attempt_from_receipt_def finds_wbind stateless_intros mk_RunAttemptRecord_def result_iffs Let_def
      split: option.splits)

lemma finds_lookup_renewed:
  "finds (lookup_renewed_attempt x) st (Some a) \<longleftrightarrow>
     (\<exists>r. find (\<lambda>l. rwr_lease_operation_id l = lex_operation_id x) (sto_renewals st) = Some r \<and>
        finds (renewed_attempt_from_receipt r x) st a)"
  by (auto simp: lookup_renewed_attempt_def finds_wbind stateless_intros split: option.splits)

lemma renew_written:
  assumes "renew_attempt_once x t = (Inr a, t')"
  shows "finds (lookup_renewed_attempt x) (tx_store t') (Some a)"
  using assms unfolding renew_attempt_once_def Let_def
proof (rule locked_operation, goal_cases)
  case (1 c row stored)
  note reads = same_store_reads [OF reading_rows(5)]
  show ?case
  proof (cases "find (\<lambda>l. rwr_lease_operation_id l = lex_operation_id x) (sto_renewals (tx_store t))")
    case (Some receipt)
    then show ?thesis using 1(1)
      by (auto simp: wbind_eq_Inr_iff Lifecycle_Effects.select_defs tx_iffs finds_lookup_renewed
          dest!: stateless_result [OF stateless_receipts(1)])
  next
    case None
    then show ?thesis using 1(1)
      by (auto simp: Let_def wbind_eq_Inr_iff Lifecycle_Effects.select_defs write_defs tx_iffs commit_fenced_result_Inr
          finds_lookup_renewed simp del: wrequire_apply split: option.splits
          dest!: reads stateless_result [OF stateless_receipts(1)])
  qed
qed

lemma renew_kept:
  assumes "kept_by_others st st'" "finds (lookup_renewed_attempt x) st (Some a)"
  shows "\<exists>b. finds (lookup_renewed_attempt x) st' (Some b)"
proof -
  let ?attempt = "lex_attempt x"
  obtain r where r: "find (\<lambda>l. rwr_lease_operation_id l = lex_operation_id x) (sto_renewals st) = Some r"
    "\<exists>a. finds (renewed_attempt_from_receipt r x) st a" using assms(2) finds_lookup_renewed by blast
  have kept: "store_kept st st'" and ok: "lifecycle_ok st'" using assms(1) by (simp_all add: kept_by_others_def)
  have "rows_kept (=) (sto_renewals st) (sto_renewals st')" using kept by (simp add: store_kept_def)
  from find_kept [OF this _ r(1)] have r': "find (\<lambda>l. rwr_lease_operation_id l = lex_operation_id x) (sto_renewals st') = Some r"
    by auto
  obtain row run where row: "find (\<lambda>a. atr_attempt_id a = rar_attempt_id ?attempt) (sto_attempts st) = Some row"
    "finds (current_claimed_run (rar_run ?attempt) StoredLifecycleIntegrityError) st run"
    using r(2) unfolding finds_renewed Let_def by blast
  have "rows_kept attempt_kept (sto_attempts st) (sto_attempts st')" using kept by (simp add: store_kept_def)
  from find_kept [OF this _ row(1)] obtain row' where
    row': "find (\<lambda>a. atr_attempt_id a = rar_attempt_id ?attempt) (sto_attempts st') = Some row'" "attempt_kept row row'"
    by (auto simp: attempt_kept_def)
  obtain run' where run': "finds (current_claimed_run (rar_run ?attempt) StoredLifecycleIntegrityError) st' run'"
    using current_run_kept [OF row(2) kept] by blast
  have "row' \<in> set (sto_attempts st')" using find_mem [OF row'(1)] by simp
  from attempt_row_ok [OF ok this] have "\<exists>b. finds (renewed_attempt_from_receipt r x) st' b"
    using r(2) row(1) row' run' unfolding finds_renewed Let_def by (auto simp: attempt_kept_def)
  then show ?thesis using r' unfolding finds_lookup_renewed by blast
qed

lemma renew_change:
  "renew_attempt_once x t = (Inr a, t') \<Longrightarrow>
   tx_store t' = tx_store t \<or> (lifecycle_change (tx_store t) (tx_store t') \<and> unique_keys (tx_store t'))"
  using renew_effect by blast

interpretation renew: receipts "renew_attempt_once x" "lookup_renewed_attempt x"
    "\<lambda>st. \<exists>a. finds (lookup_renewed_attempt x) st (Some a)" for x
  by (rule receipts_found [OF durableI [OF renew_change renew_written] stateless_lookups(3) known_writes(3) known_lookups(3) renew_kept])

end
