(* ===== verification/Lifecycle_Recovery.thy ===== *)
theory Lifecycle_Recovery
  imports Lifecycle_History
begin

text \<open>
  The recovery of a run whose holder died: an attempt whose lease expired can be abandoned by anyone who can read
  the run back, and the invocation that owns the run can then start its next attempt while the request allows one.
\<close>

section \<open>Statements that must succeed\<close>

named_theorems tx_runs \<open>the result and the transaction after a statement\<close>

lemma statements_run [tx_runs]:
  "database_now t = (Inr (tx_now t (tx_reads t)), t\<lparr>tx_reads := Suc (tx_reads t)\<rparr>)"
  "transaction_start t = (Inr (tx_now t 0), t)"
  "from_store f t = (Inr (f (tx_store t)), t)"
  "codec (Inr x) t = (Inr x, t)"
  by (simp_all add: database_now_def transaction_start_def from_store_def codec_def)

lemma updates_run [tx_runs]:
  "write_store w t = (if unique_keys (w (tx_store t)) \<and> tx_accepts t (tx_store t) (w (tx_store t))
     then (Inr (), t\<lparr>tx_store := w (tx_store t)\<rparr>) else (Inl StatementRefused, t))"
  by (simp add: write_store_def)

text \<open>Reading a run back reads nothing but the rows of the runs.\<close>

lemma claimed_run_from_row_pure: "\<exists>v. \<forall>t. claimed_run_from_row row x t = (v, t)"
proof (cases "\<not> (rnr_request_id row \<noteq> rq_request_id (rex_request x) \<or>
    \<not> (rnr_request_identity_digest row = rex_request_identity_digest x \<and>
      rnr_request_payload row = rex_request_payload_json x \<and>
      rnr_contract_version_id row = rq_contract_version_id (rex_request x) \<and>
      rnr_origin row = rq_origin (rex_request x) \<and> rnr_scope_digest row = rex_scope_digest x))")
  case True
  then show ?thesis by (auto simp: claimed_run_from_row_def Let_def wbind_apply codec_def)
next
  case False
  then show ?thesis by (auto simp: claimed_run_from_row_def Let_def wbind_apply)
qed

lemma current_claimed_run_runs:
  assumes "current_claimed_run run e t = (Inr c, t')" "sto_runs (tx_store s) = sto_runs (tx_store t)"
  shows "current_claimed_run run e s = (Inr c, s)"
proof -
  obtain row x where row: "find (\<lambda>r. rnr_run_id r = clr_run_id run) (sto_runs (tx_store t)) = Some row"
    and x: "expectation_for_claimed_run run = Inr x" and c: "claimed_run_from_row row x t = (Inr c, t')"
    using assms(1) by (auto simp: current_claimed_run_def select_defs wbind_eq_Inr_iff tx_iffs split: option.splits)
  have "claimed_run_from_row row x s = (Inr c, s)" using claimed_run_from_row_pure [of row x] c by auto
  then show ?thesis using row x assms(2) by (simp add: current_claimed_run_def select_defs wbind_apply tx_runs)
qed

lemma find_only:
  assumes "r \<in> set rows" "p r" "\<And>x. x \<in> set rows \<Longrightarrow> p x \<Longrightarrow> x = r"
  shows "find p rows = Some r"
proof (cases "find p rows")
  case None
  then show ?thesis using assms(1,2) by (simp add: find_None_iff)
next
  case (Some y)
  then show ?thesis using assms(3) [of y] find_mem [OF Some] by simp
qed

lemma locked_attempt_of_run_runs:
  assumes "row \<in> set (sto_attempts (tx_store t))" "distinct (map atr_attempt_id (sto_attempts (tx_store t)))"
    and "atr_attempt_id row = rar_attempt_id attempt" "atr_run_id row = clr_run_id (rar_run attempt)"
  shows "locked_attempt_of_run attempt e t = (Inr row, t)"
proof -
  have "find (\<lambda>a. atr_attempt_id a = rar_attempt_id attempt) (sto_attempts (tx_store t)) = Some row"
    by (rule find_only [OF assms(1)], rule assms(3)) (rule same_key [OF assms(2) _ assms(1)], simp_all only: assms(3))
  then show ?thesis using assms(4) by (simp add: locked_attempt_of_run_def select_defs wbind_apply tx_runs)
qed

section \<open>Keys after an update\<close>

lemma present_keys_simps [simp]:
  "present_keys key [] = []"
  "present_keys key (r # rows) = (case key r of None \<Rightarrow> [] | Some k \<Rightarrow> [k]) @ present_keys key rows"
  by (simp_all add: present_keys_def)

lemma set_present_keys: "set (present_keys key rows) = {k. \<exists>r \<in> set rows. key r = Some k}"
  by (induction rows) (auto split: option.splits)

lemma present_keys_updated:
  assumes "distinct (present_keys key rows)" "k \<notin> set (present_keys key rows)" "length (filter p rows) = 1"
    and "\<And>r. r \<in> set rows \<Longrightarrow> p r \<Longrightarrow> key r = None \<and> key (f r) = Some k"
  shows "distinct (present_keys key (rows_updated p f rows))"
  using assms
proof (induction rows)
  case (Cons x xs)
  show ?case
  proof (cases "p x")
    case True
    then have "filter p xs = []" using Cons.prems(3) by simp
    then have "rows_updated p f xs = xs" by (auto simp: rows_updated_def filter_empty_conv intro: map_idI)
    then show ?thesis using True Cons.prems by (simp add: rows_updated_def)
  next
    case False
    have set: "set (present_keys key (rows_updated p f xs)) \<subseteq> insert k (set (present_keys key xs))"
      using Cons.prems(4) by (force simp: set_present_keys set_rows_updated split: if_splits)
    have "distinct (present_keys key (rows_updated p f xs))"
      using Cons.prems False by (intro Cons.IH) (auto split: option.splits)
    then show ?thesis using False Cons.prems(1,2) set by (auto simp: rows_updated_def split: option.splits)
  qed
qed simp

lemma present_keys_kept: "(\<And>r. key (f r) = key r) \<Longrightarrow> present_keys key (rows_updated p f rows) = present_keys key rows"
  by (induction rows) (auto simp: rows_updated_def)

lemma filter_key:
  assumes "distinct (map key rows)" "r \<in> set rows" "p r" "\<And>x. p x \<Longrightarrow> key x = key r"
  shows "filter p rows = [r]"
proof -
  have "x = r" if "x \<in> set rows" "p x" for x by (rule same_key [OF assms(1) that(1) assms(2) assms(4) [OF that(2)]])
  then have "set (filter p rows) = {r}" using assms(2,3) unfolding set_filter by blast
  moreover have "distinct (filter p rows)" using assms(1) by (simp add: distinct_map)
  ultimately have "length (filter p rows) = 1" by (metis card_1_singleton_iff distinct_card One_nat_def)
  then show ?thesis using \<open>set (filter p rows) = {r}\<close> by (cases "filter p rows") auto
qed

section \<open>Abandoning an attempt\<close>

text \<open>Contexts whose end is still to be recorded under identities that are free.\<close>

definition can_lose :: "(uuid \<Rightarrow> uuid) \<Rightarrow> context_row list \<Rightarrow> store \<Rightarrow> bool" where
  "can_lose name cs st \<longleftrightarrow>
     (\<forall>c \<in> set cs. c \<in> set (sto_contexts st) \<and> cxr_state c = READ_CONTEXT_ACTIVE \<and> cxr_end_operation_id c = None \<and>
        name (cxr_read_context_id c) \<notin> set (present_keys cxr_end_operation_id (sto_contexts st))) \<and>
     distinct (map (\<lambda>c. name (cxr_read_context_id c)) cs)"

lemma abandon_context_runs:
  assumes "can_lose (derived (oex_operation_id x)) (c # cs) (tx_store t)" "unique_keys (tx_store t)"
    and "tx_accepts t = (\<lambda>_ _. True)"
  obtains t' where "abandon_context derived x c t = (Inr (), t')" "unique_keys (tx_store t')"
    "tx_accepts t' = (\<lambda>_ _. True)" "tx_now t' = tx_now t" "can_lose (derived (oex_operation_id x)) cs (tx_store t')"
proof -
  let ?name = "derived (oex_operation_id x)" and ?cs = "sto_contexts (tx_store t)"
  let ?p = "\<lambda>k. cxr_read_context_id k = cxr_read_context_id c \<and> cxr_state k = READ_CONTEXT_ACTIVE"
  let ?f = "\<lambda>k. k\<lparr>cxr_state := READ_CONTEXT_LOST, cxr_end_operation_id := Some (?name (cxr_read_context_id c)),
      cxr_ended_at := Some (oex_ended_at x)\<rparr>"
  let ?st = "(tx_store t)\<lparr>sto_contexts := rows_updated ?p ?f ?cs\<rparr>"
  have c: "c \<in> set ?cs" "cxr_state c = READ_CONTEXT_ACTIVE" "cxr_end_operation_id c = None"
    "?name (cxr_read_context_id c) \<notin> set (present_keys cxr_end_operation_id ?cs)"
    using assms(1) by (simp_all add: can_lose_def)
  have ids: "distinct (map cxr_read_context_id ?cs)" using unique_fields [OF assms(2)] by simp
  have one: "filter ?p ?cs = [c]" by (rule filter_key [OF ids c(1)]) (simp_all add: c(2))
  have at: "k = c" if "k \<in> set ?cs" "?p k" for k using same_key [OF ids that(1) c(1)] that(2) by simp
  have "distinct (present_keys cxr_end_operation_id (rows_updated ?p ?f ?cs))"
    using assms(2) one at c(3) c(4)
    by (intro present_keys_updated [where k = "?name (cxr_read_context_id c)"]) (auto simp: unique_keys_def unique_contexts_def)
  then have unique: "unique_keys ?st"
    using assms(2) by (simp add: unique_keys_def unique_contexts_def distinct_rows_updated)
  have run: "abandon_context derived x c t = (Inr (), t\<lparr>tx_store := ?st\<rparr>)"
    using one unique assms(3) by (simp add: abandon_context_def update_contexts_def wbind_apply tx_runs)
  have "can_lose ?name cs ?st" unfolding can_lose_def
  proof (intro conjI ballI)
    fix k assume k: "k \<in> set cs"
    have old: "k \<in> set ?cs" "cxr_state k = READ_CONTEXT_ACTIVE" "cxr_end_operation_id k = None"
      "?name (cxr_read_context_id k) \<notin> set (present_keys cxr_end_operation_id ?cs)"
      using assms(1) k by (simp_all add: can_lose_def)
    have "?name (cxr_read_context_id c) \<notin> (\<lambda>c. ?name (cxr_read_context_id c)) ` set cs"
      using assms(1) by (simp add: can_lose_def)
    then have other: "?name (cxr_read_context_id k) \<noteq> ?name (cxr_read_context_id c)" using k by (metis image_eqI)
    have "k \<in> set (rows_updated ?p ?f ?cs)"
      unfolding set_rows_updated by (rule image_eqI [OF _ old(1)]) (use other in auto)
    then show "k \<in> set (sto_contexts ?st)" by simp
    show "?name (cxr_read_context_id k) \<notin> set (present_keys cxr_end_operation_id (sto_contexts ?st))"
      using old(4) other by (auto simp: set_present_keys set_rows_updated split: if_splits)
    show "cxr_state k = READ_CONTEXT_ACTIVE" "cxr_end_operation_id k = None" using old by simp_all
  next
    show "distinct (map (\<lambda>c. ?name (cxr_read_context_id c)) cs)" using assms(1) by (simp add: can_lose_def)
  qed
  then show thesis using that [OF run] unique assms(3) by simp
qed

lemma abandon_contexts_run:
  assumes "can_lose (derived (oex_operation_id x)) cs (tx_store t)" "unique_keys (tx_store t)"
    and "tx_accepts t = (\<lambda>_ _. True)"
  shows "\<exists>t'. wfold (\<lambda>_. abandon_context derived x) () cs t = (Inr (), t') \<and> unique_keys (tx_store t') \<and>
    tx_accepts t' = (\<lambda>_ _. True)"
  using assms
proof (induction cs arbitrary: t)
  case (Cons c cs)
  obtain t1 where t1: "abandon_context derived x c t = (Inr (), t1)" "unique_keys (tx_store t1)"
    "tx_accepts t1 = (\<lambda>_ _. True)" "can_lose (derived (oex_operation_id x)) cs (tx_store t1)"
    using abandon_context_runs [of derived x c cs t, OF Cons.prems] by metis
  then show ?case using Cons.IH [OF t1(4,2,3)] by (auto simp: wbind_apply)
qed simp

lemma ended_attempts_unique:
  assumes "unique_attempts as" "row \<in> set as" "atr_end_operation_id row = None"
    and "i \<notin> set (present_keys atr_end_operation_id as)" "p row" "\<And>a. p a \<Longrightarrow> atr_attempt_id a = atr_attempt_id row"
    and "s \<noteq> ATTEMPT_RUNNING"
  shows "unique_attempts (rows_updated p (ended s i code reason time) as)"
proof -
  let ?f = "ended s i code reason time"
  have ids: "distinct (map atr_attempt_id as)" using assms(1) by (simp add: unique_attempts_def)
  have one: "filter p as = [row]" by (rule filter_key [OF ids assms(2)], rule assms(5), rule assms(6))
  have at: "a = row" if "a \<in> set as" "p a" for a by (rule same_key [OF ids that(1) assms(2) assms(6) [OF that(2)]])
  have ends: "distinct (present_keys atr_end_operation_id (rows_updated p ?f as))"
    using assms(1,3,4) one at
    by (intro present_keys_updated [where k = i]) (auto simp: unique_attempts_def ended_def)
  have "filter (\<lambda>a. atr_status a = ATTEMPT_RUNNING) (rows_updated p ?f xs) =
      filter (\<lambda>a. \<not> p a) (filter (\<lambda>a. atr_status a = ATTEMPT_RUNNING) xs)" for xs
    using assms(7) by (induction xs) (auto simp: rows_updated_def ended_def)
  then have "distinct (map atr_run_id (filter (\<lambda>a. atr_status a = ATTEMPT_RUNNING) (rows_updated p ?f as)))"
    using assms(1) distinct_map_filter unfolding unique_attempts_def by metis
  moreover have "present_keys atr_lease_operation_id (rows_updated p ?f as) = present_keys atr_lease_operation_id as"
    "present_keys atr_cut_operation_id (rows_updated p ?f as) = present_keys atr_cut_operation_id as"
    by (simp_all add: present_keys_kept ended_def)
  ultimately show ?thesis
    using assms(1) ends by (simp add: unique_attempts_def distinct_rows_updated ended_def)
qed

lemma unselected_while_running:
  assumes "lifecycle_ok st" "running row st" "r \<in> set (sto_runs st)" "rnr_run_id r = atr_run_id row"
  shows "rnr_selected_terminal_attempt_id r = None \<and> rnr_terminal_operation_id r = None"
proof -
  have terminal: "terminal_ok st" using assms(1) by (simp add: lifecycle_ok_def)
  have "rnr_selected_terminal_attempt_id r \<noteq> Some i" for i
    using terminal_okD(3) [OF terminal assms(3), of i row] assms(2,4) by (auto simp: running_def)
  then show ?thesis using terminal_okD(1) [OF terminal assms(3)] by (cases "rnr_selected_terminal_attempt_id r") auto
qed

lemma find_present_None: "find (\<lambda>a. key a = Some i) rows = None \<longleftrightarrow> i \<notin> set (present_keys key rows)"
  by (auto simp: find_None_iff set_present_keys)

lemma retryable_outcome_runs:
  assumes "find (\<lambda>a. atr_end_operation_id a = Some (oex_operation_id x)) (sto_attempts (tx_store t)) = Some row"
    and "row = ended_attempt x a" "atr_attempt_id a = rar_attempt_id (oex_attempt x)"
    and "atr_run_id a = clr_run_id (rar_run (oex_attempt x))"
    and "find (\<lambda>r. rnr_run_id r = clr_run_id (rar_run (oex_attempt x))) (sto_runs (tx_store t)) = Some r"
    and "rnr_terminal_operation_id r = None" "oex_status x \<in> {ATTEMPT_INCOMPLETE, ATTEMPT_ERROR, ATTEMPT_ABANDONED}"
  shows "\<exists>v. retryable_outcome_from_database x t = (Inr v, t)"
  using assms
  by (auto simp: retryable_outcome_from_database_def outcome_receipt_from_database_def select_defs wbind_apply tx_runs
      ended_attempt_def mk_AttemptOutcomeRecord_def)

lemma abandon_runs:
  assumes ok: "lifecycle_ok (tx_store t)" and row: "running row (tx_store t)"
    and ids: "atr_attempt_id row = rar_attempt_id (oex_attempt x)" "atr_run_id row = clr_run_id (rar_run (oex_attempt x))"
    and current: "current_claimed_run (rar_run (oex_attempt x)) RunLifecycleStateError t = (Inr c, t0)"
    and accepts: "tx_accepts t = (\<lambda>_ _. True)" and status: "oex_status x = ATTEMPT_ABANDONED"
    and expired: "\<And>i. atr_lease_expires_at row \<le> tx_now t i"
    and fresh: "oex_operation_id x \<notin> set (present_keys atr_end_operation_id (sto_attempts (tx_store t)))"
    and names: "inj (derived (oex_operation_id x))"
      "\<And>i. derived (oex_operation_id x) i \<notin> set (present_keys cxr_end_operation_id (sto_contexts (tx_store t)))"
  shows "\<exists>v t'. abandon_attempt_once derived x t = (Inr v, t') \<and> sto_runs (tx_store t') = sto_runs (tx_store t) \<and>
    sto_attempts (tx_store t') = sto_attempts (on_attempt row (ended_attempt x) (tx_store t))"
proof -
  let ?st = "tx_store t" and ?run = "clr_run_id (rar_run (oex_attempt x))"
  let ?active = "sort_key cxr_read_context_id (filter (\<lambda>c. cxr_run_id c = ?run \<and>
      cxr_attempt_id c = rar_attempt_id (oex_attempt x) \<and> cxr_state c = READ_CONTEXT_ACTIVE) (sto_contexts ?st))"
  have unique: "unique_keys ?st" and endings: "endings_ok ?st" using ok by (simp_all add: lifecycle_ok_def)
  note fields = unique_fields [OF unique]
  have mem: "row \<in> set (sto_attempts ?st)" "atr_status row = ATTEMPT_RUNNING" using row by (simp_all add: running_def)
  have open_row: "atr_end_operation_id row = None"
    using endings_okD(1) [OF endings mem(1)] mem(2) by (simp add: ending_consistent_def)
  define t1 where "t1 = t\<lparr>tx_reads := Suc (tx_reads t)\<rparr>"
  have "distinct (map (\<lambda>c. derived (oex_operation_id x) (cxr_read_context_id c)) ?active)"
  proof -
    have "distinct (map cxr_read_context_id (filter P (sto_contexts ?st)))" for P using fields distinct_map_filter by blast
    then show ?thesis using names(1) by (auto simp: distinct_map inj_on_def)
  qed
  then have "can_lose (derived (oex_operation_id x)) ?active (tx_store t1)"
    using names(2) endings_okD(2) [OF endings] by (auto simp: can_lose_def t1_def)
  then obtain t2 where t2: "wfold (\<lambda>_. abandon_context derived x) () ?active t1 = (Inr (), t2)"
    and unique2: "unique_keys (tx_store t2)" and accepts2: "tx_accepts t2 = (\<lambda>_ _. True)"
    using abandon_contexts_run [of derived x ?active t1] unique accepts by (auto simp: t1_def)
  have store2: "tx_now t2 = tx_now t" "sto_runs (tx_store t2) = sto_runs ?st" "sto_attempts (tx_store t2) = sto_attempts ?st"
    using abandon_contexts [OF t2] by (auto simp: t1_def)
  define i where "i = tx_reads t2"
  define t3 where "t3 = t2\<lparr>tx_reads := Suc i\<rparr>"
  let ?p = "\<lambda>a. atr_run_id a = ?run \<and> atr_attempt_id a = rar_attempt_id (oex_attempt x) \<and> atr_status a = ATTEMPT_RUNNING \<and>
      atr_lease_expires_at a \<le> tx_now t i"
  let ?f = "ended_attempt x" and ?as = "sto_attempts ?st"
  have p: "?p row" using ids mem(2) expired by simp
  have idsp: "atr_attempt_id a = atr_attempt_id row" if "?p a" for a using that ids(1) by simp
  have one: "filter ?p ?as = [row]" by (rule filter_key [of atr_attempt_id]) (use fields mem(1) p idsp in auto)
  have rows: "rows_updated ?p ?f ?as = rows_updated (\<lambda>a. atr_attempt_id a = atr_attempt_id row) ?f ?as"
    by (rule rows_updated_unique) (use fields mem(1) p idsp in auto)
  have f: "?f = ended ATTEMPT_ABANDONED (oex_operation_id x) (rr_code (oex_reason x)) (oex_reason_json x) (oex_ended_at x)"
    using status by (simp add: ended_attempt_def ended_def fun_eq_iff)
  have "unique_attempts (rows_updated ?p ?f ?as)"
    unfolding f by (rule ended_attempts_unique [OF _ mem(1) open_row fresh])
      (use unique p ids in \<open>simp_all add: unique_keys_def\<close>)
  then have unique3: "unique_keys ((tx_store t3)\<lparr>sto_attempts := rows_updated ?p ?f ?as\<rparr>)"
    using unique2 by (simp add: unique_keys_def t3_def)
  define t4 where "t4 = t3\<lparr>tx_store := (tx_store t3)\<lparr>sto_attempts := rows_updated ?p ?f ?as\<rparr>\<rparr>"
  obtain r where r: "find (\<lambda>r. rnr_run_id r = ?run) (sto_runs ?st) = Some r" "r \<in> set (sto_runs ?st)" "rnr_run_id r = ?run"
    using current_claimed_run_Inr [OF current] by metis
  have new: "?f row \<in> set (rows_updated ?p ?f ?as)" using rows_updated_forth [OF mem(1), of ?p ?f] p by simp
  have at: "a = ?f row" if a: "a \<in> set (rows_updated ?p ?f ?as)" "atr_end_operation_id a = Some (oex_operation_id x)" for a
  proof -
    obtain b where b: "b \<in> set ?as" "a = (if ?p b then ?f b else b)" using rows_updated_back [OF a(1)] by blast
    have "?p b" using b a(2) fresh by (auto simp: set_present_keys split: if_splits)
    then show ?thesis using same_key [of atr_attempt_id ?as b row] fields b mem(1) ids(1) by simp
  qed
  have "find (\<lambda>a. atr_end_operation_id a = Some (oex_operation_id x)) (rows_updated ?p ?f ?as) = Some (?f row)"
    by (rule find_only [OF new _ at]) (simp add: ended_attempt_def)
  then have found: "find (\<lambda>a. atr_end_operation_id a = Some (oex_operation_id x)) (sto_attempts (tx_store t4)) = Some (?f row)"
    by (simp add: t4_def)
  have "sto_runs (tx_store t4) = sto_runs ?st" by (simp add: t4_def t3_def store2)
  then obtain v where v: "retryable_outcome_from_database x t4 = (Inr v, t4)"
    using retryable_outcome_runs [OF found refl ids, of r] r(1) unselected_while_running [OF ok row r(2)] r(3) ids(2) status by auto
  have x: "x\<lparr>oex_status := ATTEMPT_ABANDONED\<rparr> = x" using status by simp
  have none: "find (\<lambda>a. atr_end_operation_id a = Some (oex_operation_id x)) ?as = None" using fresh by (simp add: find_present_None)
  have locked: "locked_attempt_of_run (oex_attempt x) RunLifecycleStateError t = (Inr row, t)"
    by (rule locked_attempt_of_run_runs [OF mem(1) _ ids]) (use fields in simp)
  have clock: "\<not> tx_now t k < atr_lease_expires_at row" for k using expired [of k] by simp
  have update: "update_attempts ?p ?f t3 = (Inr 1, t4)"
    using one unique3 by (simp add: update_attempts_def wbind_apply tx_runs t4_def t3_def store2 accepts2)
  have store1: "tx_store t1 = ?st" by (simp add: t1_def)
  have "abandon_attempt_once derived x t = (Inr v, t4)"
    unfolding abandon_attempt_once_def Let_def x
    by (simp add: wbind_apply current_claimed_run_runs [OF current refl] locked select_defs tx_runs(1-4) none mem(2) clock
        t1_def [symmetric] store1 t2 store2(1) i_def [symmetric] t3_def [symmetric] update v del: wfold.simps)
  then show ?thesis using rows store2 by (simp add: t4_def t3_def)
qed

section \<open>Starting the next attempt\<close>

definition new_attempt :: "attempt_expectation \<Rightarrow> int \<Rightarrow> instant \<Rightarrow> attempt_row" where
  "new_attempt x n started_at =
     \<lparr>atr_attempt_id = aex_candidate_attempt_id x, atr_run_id = clr_run_id (aex_run x), atr_ordinal = n,
      atr_start_operation_id = aex_start_operation_id x, atr_status = ATTEMPT_RUNNING,
      atr_execution_budgets = aex_execution_budgets_json x, atr_owner_token = aex_owner_token x, atr_lease_revision = 0,
      atr_lease_operation_id = None, atr_initial_lease_expires_at = aex_lease_expires_at x,
      atr_lease_expires_at = aex_lease_expires_at x, atr_input_cut_digest = None, atr_cut_operation_id = None,
      atr_cut_observed_at = None, atr_end_operation_id = None, atr_terminal_reason_code = None,
      atr_terminal_reason = None, atr_started_at = started_at, atr_ended_at = None\<rparr>"

lemma started_attempt_runs:
  "n > 0 \<Longrightarrow> \<exists>v. \<forall>t. started_attempt_from_row (new_attempt x n started_at) x run t = (Inr v, t)"
  by (simp add: started_attempt_from_row_def new_attempt_def wbind_apply codec_def mk_RunAttemptRecord_def
      require_optional_sha256_def ebind_def require_def)

lemma new_attempt_unique:
  assumes "unique_attempts as" "aex_candidate_attempt_id x \<notin> atr_attempt_id ` set as"
    and "aex_start_operation_id x \<notin> atr_start_operation_id ` set as"
    and "\<And>a. a \<in> set as \<Longrightarrow> atr_run_id a = clr_run_id (aex_run x) \<Longrightarrow> atr_status a \<noteq> ATTEMPT_RUNNING \<and> atr_ordinal a < n"
  shows "unique_attempts (as @ [new_attempt x n started_at])"
proof -
  have keys: "present_keys key (as @ [a]) = present_keys key as @ (case key a of None \<Rightarrow> [] | Some k \<Rightarrow> [k])" for key a
    by (simp add: present_keys_def)
  have "(clr_run_id (aex_run x), n) \<notin> (\<lambda>a. (atr_run_id a, atr_ordinal a)) ` set as" using assms(4) by fastforce
  moreover have "clr_run_id (aex_run x) \<notin> atr_run_id ` set (filter (\<lambda>a. atr_status a = ATTEMPT_RUNNING) as)"
    using assms(4) by fastforce
  ultimately show ?thesis using assms(1-3) by (simp add: unique_attempts_def keys new_attempt_def)
qed

lemma ordinal_bound:
  assumes "attempts_ok st" "a \<in> set (attempts_of i st)"
  shows "atr_ordinal a \<le> int (length (attempts_of i st))"
proof -
  have "atr_ordinal a \<in> set (map int [1..<Suc (length (attempts_of i st))])"
    using attempts_okD(1) [OF assms(1), of i] assms(2) by (metis image_eqI set_map)
  then show ?thesis by auto
qed

lemma start_runs:
  assumes current: "current_claimed_run (aex_run x) RunLifecycleStateError t = (Inr c, t0)"
    and unselected: "clr_selected_terminal_attempt_id c = None"
    and ok: "unique_keys (tx_store t)" "attempts_ok (tx_store t)" and accepts: "tx_accepts t = (\<lambda>_ _. True)"
    and admits: "\<And>a. a \<in> set (attempts_of (clr_run_id (aex_run x)) (tx_store t)) \<Longrightarrow>
      atr_status a \<noteq> ATTEMPT_RUNNING \<and> atr_owner_token a = aex_owner_token x"
    and count: "int (length (attempts_of (clr_run_id (aex_run x)) (tx_store t))) <
      eb_max_attempts (rq_execution_policy (clr_request (aex_run x)))"
    and fresh: "aex_candidate_attempt_id x \<notin> atr_attempt_id ` set (sto_attempts (tx_store t))"
      "aex_start_operation_id x \<notin> atr_start_operation_id ` set (sto_attempts (tx_store t))"
    and unexpired: "\<And>i. tx_now t i < aex_lease_expires_at x"
  shows "\<exists>v t'. start_attempt_once x t = (Inr v, t') \<and>
    tx_store t' = (tx_store t)\<lparr>sto_attempts := sto_attempts (tx_store t) @
      [new_attempt x (int (length (attempts_of (clr_run_id (aex_run x)) (tx_store t))) + 1) (tx_now t 0)]\<rparr>"
proof -
  let ?st = "tx_store t" and ?i = "clr_run_id (aex_run x)"
  let ?n = "int (length (attempts_of ?i ?st)) + 1"
  let ?a = "new_attempt x ?n (tx_now t 0)"
  let ?rows = "sort_key atr_ordinal (filter (\<lambda>a. atr_run_id a = ?i) (sto_attempts ?st))"
  have rows: "length ?rows = length (attempts_of ?i ?st)" "set ?rows = set (attempts_of ?i ?st)"
    by (simp_all add: attempts_of_def)
  have admissible: "require_admissible ?rows x s = (Inr (), s)" for s
    using admits count rows by (simp add: require_admissible_Inr)
  have "unique_attempts (sto_attempts ?st @ [?a])"
    using ok(1) admits ordinal_bound [OF ok(2)]
    by (intro new_attempt_unique fresh) (fastforce simp: unique_keys_def attempts_of_def)+
  then have unique: "unique_keys (?st\<lparr>sto_attempts := sto_attempts ?st @ [?a]\<rparr>)" using ok(1) by (simp add: unique_keys_def)
  have none: "find (\<lambda>a. atr_start_operation_id a = aex_start_operation_id x) (sto_attempts ?st) = None"
    "find (\<lambda>a. atr_attempt_id a = aex_candidate_attempt_id x) (sto_attempts ?st) = None"
    using fresh by (force simp: find_None_iff)+
  have found: "find (\<lambda>a. atr_start_operation_id a = aex_start_operation_id x) (sto_attempts ?st @ [?a]) = Some ?a"
  proof (rule find_only)
    fix b assume "b \<in> set (sto_attempts ?st @ [?a])" "atr_start_operation_id b = aex_start_operation_id x"
    then show "b = ?a" using fresh(2) by (metis Un_iff empty_iff image_eqI list.set(1) set_ConsD set_append)
  qed (simp_all add: new_attempt_def)
  obtain v where v: "started_attempt_from_row ?a x c s = (Inr v, s)" for s
    using started_attempt_runs [of ?n x "tx_now t 0" c] by auto
  have a: "\<lparr>atr_attempt_id = aex_candidate_attempt_id x, atr_run_id = ?i, atr_ordinal = int (length ?rows) + 1,
      atr_start_operation_id = aex_start_operation_id x, atr_status = ATTEMPT_RUNNING,
      atr_execution_budgets = aex_execution_budgets_json x, atr_owner_token = aex_owner_token x, atr_lease_revision = 0,
      atr_lease_operation_id = None, atr_initial_lease_expires_at = aex_lease_expires_at x,
      atr_lease_expires_at = aex_lease_expires_at x, atr_input_cut_digest = None, atr_cut_operation_id = None,
      atr_cut_observed_at = None, atr_end_operation_id = None, atr_terminal_reason_code = None,
      atr_terminal_reason = None, atr_started_at = tx_now t 0, atr_ended_at = None\<rparr> = ?a"
    by (simp only: new_attempt_def rows(1))
  have clock: "\<not> aex_lease_expires_at x \<le> tx_now t k" for k using unexpired [of k] by simp
  show ?thesis
    unfolding start_attempt_once_def
    by (simp add: wbind_apply current_claimed_run_runs [OF current refl] select_defs tx_runs(1-4) none unselected
        admissible clock unexpired a insert_attempt_def updates_run unique accepts found v commit_fenced_result_def
        del: length_sort)
qed

section \<open>A run goes on\<close>

lemma attempt_expectation_of_Inr:
  assumes "attempt_expectation_of run j s owner expiry budgets = Inr y"
  shows "aex_run y = run \<and> aex_candidate_attempt_id y = j \<and> aex_start_operation_id y = s \<and> aex_owner_token y = owner \<and>
    aex_lease_expires_at y = expiry"
  using assms by (auto simp: attempt_expectation_of_def result_iffs)

lemma abandoned_outcome_expectation_Inr:
  assumes "abandoned_outcome_expectation attempt i reason time = Inr x"
  shows "oex_attempt x = attempt \<and> oex_operation_id x = i \<and> oex_status x = ATTEMPT_ABANDONED"
  using assms by (auto simp: abandoned_outcome_expectation_def outcome_expectation_of_def result_iffs)

lemma after_abandoned:
  assumes "unique_keys st" "attempts_ok st" "running row st" "sto_attempts st' = sto_attempts (on_attempt row (ended s i code reason time) st)"
    and "s \<noteq> ATTEMPT_RUNNING"
  shows "length (attempts_of j st') = length (attempts_of j st)"
    and "a \<in> set (attempts_of (atr_run_id row) st') \<Longrightarrow> atr_status a \<noteq> ATTEMPT_RUNNING \<and> atr_owner_token a = atr_owner_token row"
    and "atr_attempt_id ` set (sto_attempts st') = atr_attempt_id ` set (sto_attempts st)"
    and "atr_start_operation_id ` set (sto_attempts st') = atr_start_operation_id ` set (sto_attempts st)"
proof -
  let ?f = "ended s i code reason time"
  have rows: "sto_attempts st' = rows_updated (\<lambda>x. atr_attempt_id x = atr_attempt_id row) ?f (sto_attempts st)"
    using assms(4) by simp
  have "attempts_of j st' = rows_updated (\<lambda>x. atr_attempt_id x = atr_attempt_id row) ?f (attempts_of j st)"
    by (rule attempts_of_on_attempt [OF _ rows]) simp
  then show "length (attempts_of j st') = length (attempts_of j st)" by simp
  show "atr_attempt_id ` set (sto_attempts st') = atr_attempt_id ` set (sto_attempts st)"
    "atr_start_operation_id ` set (sto_attempts st') = atr_start_operation_id ` set (sto_attempts st)"
    unfolding rows set_rows_updated image_image by (rule image_cong; simp add: ended_def)+
  assume a: "a \<in> set (attempts_of (atr_run_id row) st')"
  have mem: "row \<in> set (sto_attempts st)" using assms(3) by (simp add: running_def)
  have "a \<in> set (sto_attempts (on_attempt row ?f st))" "atr_run_id a = atr_run_id row"
    using a assms(4) by (simp_all add: attempts_of_def)
  then consider "a = ?f row" | "a \<in> set (sto_attempts st)" "a \<noteq> row" "atr_run_id a = atr_run_id row"
    using on_attempt_members [of a row ?f st] unique_fields [OF assms(1)] mem by blast
  then show "atr_status a \<noteq> ATTEMPT_RUNNING \<and> atr_owner_token a = atr_owner_token row"
  proof cases
    case 1
    then show ?thesis using assms(5) by (simp add: ended_def)
  next
    case 2
    then show ?thesis using running_alone [OF assms(1,3) 2(1,3)] attempts_okD(2) [OF assms(2) 2(1) mem 2(3)] by blast
  qed
qed

text \<open>(C17) A run does not hang on a holder that died. In any history: when the lease of a running attempt has run out,
  a caller that can read the run back abandons it under a fresh operation, and the invocation that owns the run then
  starts its next attempt, as long as the request allows one; both calls succeed and the new attempt is running.\<close>

theorem expired_run_continues:
  fixes derived before contracts row attempt i
  defines "st \<equiv> after derived before (registered contracts)"
  assumes "row \<in> set (sto_attempts st)" "atr_status row = ATTEMPT_RUNNING"
    and "atr_attempt_id row = rar_attempt_id attempt" "atr_run_id row = clr_run_id (rar_run attempt)"
    and "fst (transact (\<lambda>_ _. True) now (current_claimed_run (rar_run attempt) RunLifecycleStateError) st) = Inr current"
    and "abandoned_outcome_expectation attempt i reason time = Inr x"
    and "\<And>k. atr_lease_expires_at row \<le> now k"
    and "\<And>a. a \<in> set (sto_attempts st) \<Longrightarrow> atr_end_operation_id a \<noteq> Some i"
    and "inj (derived i)" "\<And>c k. c \<in> set (sto_contexts st) \<Longrightarrow> cxr_end_operation_id c \<noteq> Some (derived i k)"
    and "attempt_expectation_of (rar_run attempt) j s (atr_owner_token row) expiry budgets = Inr y"
    and "\<And>a. a \<in> set (sto_attempts st) \<Longrightarrow> atr_attempt_id a \<noteq> j \<and> atr_start_operation_id a \<noteq> s"
    and "\<And>k. later k < expiry"
    and "int (length (attempts_of (atr_run_id row) st)) <
      eb_max_attempts (rq_execution_policy (clr_request (rar_run attempt)))"
  shows "let (abandonment, st1) = perform derived (\<lambda>_ _. True) now (Abandon_Attempt attempt i reason time) st;
      (start, st2) = perform derived (\<lambda>_ _. True) later
        (Start_Attempt (rar_run attempt) j s (atr_owner_token row) expiry budgets) st1 in
    abandonment = Inr () \<and> start = Inr () \<and>
    (\<exists>a \<in> set (sto_attempts st2). atr_attempt_id a = j \<and> atr_run_id a = atr_run_id row \<and> atr_status a = ATTEMPT_RUNNING \<and>
       atr_owner_token a = atr_owner_token row \<and> atr_lease_expires_at a = expiry)"
proof -
  let ?op = "Abandon_Attempt attempt i reason time"
  define t where "t = \<lparr>tx_store = st, tx_now = now, tx_reads = 1, tx_accepts = \<lambda>_ _. True\<rparr>"
  have ok: "lifecycle_ok st" unfolding st_def by (intro after_ok registered_ok)
  have row: "running row st" using assms(2,3) by (simp add: running_def)
  have x: "oex_attempt x = attempt" "oex_operation_id x = i" "oex_status x = ATTEMPT_ABANDONED"
    using abandoned_outcome_expectation_Inr [OF assms(7)] by simp_all
  obtain t0 where current: "current_claimed_run (rar_run attempt) RunLifecycleStateError t = (Inr current, t0)"
    using assms(6) by (auto simp: transact_def t_def split: prod.splits sum.splits)
  obtain r where r: "r \<in> set (sto_runs st)" "rnr_run_id r = clr_run_id (rar_run attempt)"
    "clr_selected_terminal_attempt_id current = rnr_selected_terminal_attempt_id r"
    using current_claimed_run_Inr [OF current] by (auto simp: t_def)
  then have unselected: "clr_selected_terminal_attempt_id current = None"
    using unselected_while_running [OF ok row r(1)] assms(5) by simp
  obtain v t' where t': "abandon_attempt_once derived x t = (Inr v, t')" "sto_runs (tx_store t') = sto_runs st"
    "sto_attempts (tx_store t') = sto_attempts (on_attempt row (ended_attempt x) st)"
    using abandon_runs [of t row x current t0 derived] ok row assms(4,5,8-11) current x
    by (auto simp: t_def set_present_keys)
  have st1: "perform derived (\<lambda>_ _. True) now ?op st = (Inr (), tx_store t')"
    using t'(1) assms(7) by (simp add: perform_def transact_def wbind_apply codec_def ignoring_def t_def)
  have ok1: "lifecycle_ok (tx_store t')" using perform_ok [OF ok, of derived "\<lambda>_ _. True" now ?op] st1 by simp
  define t1 where "t1 = \<lparr>tx_store = tx_store t', tx_now = later, tx_reads = 1, tx_accepts = \<lambda>_ _. True\<rparr>"
  have y: "aex_run y = rar_run attempt" "aex_candidate_attempt_id y = j" "aex_start_operation_id y = s"
    "aex_owner_token y = atr_owner_token row" "aex_lease_expires_at y = expiry"
    using attempt_expectation_of_Inr [OF assms(12)] by simp_all
  have current1: "current_claimed_run (aex_run y) RunLifecycleStateError t1 = (Inr current, t1)"
    unfolding y by (rule current_claimed_run_runs [OF current]) (simp add: t1_def t_def t'(2))
  have f: "ended_attempt x = ended ATTEMPT_ABANDONED i (rr_code (oex_reason x)) (oex_reason_json x) (oex_ended_at x)"
    using x by (simp add: ended_attempt_def ended_def fun_eq_iff)
  have okD: "unique_keys st" "attempts_ok st" using ok by (simp_all add: lifecycle_ok_def)
  note after = after_abandoned [OF okD row t'(3) [unfolded f]]
  have fresh: "j \<notin> atr_attempt_id ` set (sto_attempts st)" "s \<notin> atr_start_operation_id ` set (sto_attempts st)"
    using assms(13) by blast+
  obtain w t2 where t2: "start_attempt_once y t1 = (Inr w, t2)"
    "sto_attempts (tx_store t2) = sto_attempts (tx_store t') @
      [new_attempt y (int (length (attempts_of (atr_run_id row) (tx_store t'))) + 1) (later 0)]"
    using start_runs [OF current1 unselected] ok1 after fresh assms(5,14,15)
    by (auto simp: t1_def y lifecycle_ok_def)
  then have st2: "perform derived (\<lambda>_ _. True) later (Start_Attempt (rar_run attempt) j s (atr_owner_token row) expiry budgets)
      (tx_store t') = (Inr (), tx_store t2)"
    using assms(12) by (simp add: perform_def transact_def wbind_apply codec_def ignoring_def t1_def)
  show ?thesis unfolding st1 Let_def using st2 t2(2) y assms(5) by (simp add: new_attempt_def)
qed

section \<open>A run whose holder died\<close>

definition example_lifecycle_request :: run_request where
  "example_lifecycle_request =
     \<lparr>rq_request_id = 1, rq_contract_version_id = 2, rq_origin = asc ''cli'',
      rq_scope = \<lparr>rs_parameters = [], rs_scope_digest = asc (replicate 64 CHR ''0'')\<rparr>,
      rq_expected_batches =
        [\<lparr>xb_direction = DIRECTION_REFERENCE, xb_dataset_id = asc ''left'', xb_batch_id = asc ''b1''\<rparr>,
         \<lparr>xb_direction = DIRECTION_TARGET, xb_dataset_id = asc ''right'', xb_batch_id = asc ''b2''\<rparr>],
      rq_execution_policy = example_budgets,
      rq_evidence_policy = \<lparr>edf_sql_capture = CAPTURE_DISABLED, edf_ddl_capture = CAPTURE_DISABLED, edf_fields = [],
        edf_unspecified_fields = OMIT\<rparr>,
      rq_request_identity_digest = asc (replicate 64 CHR ''1'')\<rparr>"

definition example_claimed :: claimed_run where
  "example_claimed =
     \<lparr>clr_run_id = 10, clr_creation_operation_id = 11, clr_request = example_lifecycle_request, clr_created_at = 100,
      clr_bound_input_cut_digest = None, clr_cut_binding_operation_id = None, clr_selected_terminal_attempt_id = None,
      clr_terminal_operation_id = None\<rparr>"

definition example_events :: "event list" where
  "example_events =
     [(\<lambda>_ _. True, \<lambda>_. 100, Claim_Run 10 11 example_lifecycle_request),
      (\<lambda>_ _. True, \<lambda>_. 110, Start_Attempt example_claimed 20 21 22 200 example_budgets)]"

definition example_holder :: run_attempt where
  "example_holder =
     \<lparr>rar_attempt_id = 20, rar_run = example_claimed, rar_ordinal = 1, rar_start_operation_id = 21,
      rar_status = ATTEMPT_RUNNING, rar_execution_budgets = example_budgets, rar_owner_token = 22, rar_lease_revision = 0,
      rar_lease_operation_id = None, rar_initial_lease_expires_at = 200, rar_lease_expires_at = 200, rar_started_at = 110,
      rar_input_cut_digest = None, rar_end_operation_id = None\<rparr>"

definition example_lost :: result_reason where
  "example_lost = \<lparr>rr_code = SNAPSHOT_LOST, rr_operation = asc ''abandon'', rr_message = asc ''lease expired'',
     rr_safe_parameters = [], rr_native_error_code = None, rr_query_id = None, rr_redacted_response = None\<rparr>"

definition example_derived :: "uuid \<Rightarrow> uuid \<Rightarrow> uuid" where
  "example_derived i k = 1000 + k"


lemma small_int_printable: "\<bar>i\<bar> < 10 ^ 18 \<Longrightarrow> json_printable (JInt i)"
proof -
  assume "\<bar>i\<bar> < 10 ^ 18"
  moreover have "(10::int) ^ 18 \<le> 10 ^ int_max_str_digits"
    by (rule power_increasing) (simp_all add: int_max_str_digits_def)
  ultimately show ?thesis by simp
qed

lemma example_budgets_json: "execution_budgets_json example_budgets = Inr (json_dumps (execution_policy_semantics example_budgets))"
proof -
  have "validate_semantic_value (execution_policy_semantics example_budgets) = Inr ()" by code_simp
  moreover have "json_printable (execution_policy_semantics example_budgets)"
    by (simp add: execution_policy_semantics_def example_budgets_def small_int_printable del: json_printable.simps(1))
  ultimately show ?thesis by (simp add: execution_budgets_json_def canonical_semantic_json_def json_dumps_text_def)
qed

lemma example_request_json:
  "canonical_semantic_json (run_request_semantic_value example_lifecycle_request) =
     Inr (json_dumps (run_request_semantic_value example_lifecycle_request))"
proof -
  have "validate_semantic_value (run_request_semantic_value example_lifecycle_request) = Inr ()" by code_simp
  moreover have "json_printable (run_request_semantic_value example_lifecycle_request)"
    by (simp add: run_request_semantic_value_def run_request_semantics_def evidence_policy_semantics_def
        execution_policy_semantics_def resolved_scope_semantics_def example_lifecycle_request_def example_budgets_def
        small_int_printable del: json_printable.simps(1))
  ultimately show ?thesis by (simp add: canonical_semantic_json_def json_dumps_text_def)
qed

lemma example_lost_json:
  "canonical_semantic_json (reason_semantics example_lost) = Inr (json_dumps (reason_semantics example_lost))"
proof -
  have "validate_semantic_value (reason_semantics example_lost) = Inr ()" by code_simp
  moreover have "json_printable (reason_semantics example_lost)"
    by (simp add: reason_semantics_def example_lost_def optional_json_def small_int_printable del: json_printable.simps(1))
  ultimately show ?thesis by (simp add: canonical_semantic_json_def json_dumps_text_def)
qed

definition example_run_row :: run_row where
  "example_run_row =
     \<lparr>rnr_run_id = 10, rnr_creation_operation_id = 11, rnr_request_id = 1,
      rnr_request_identity_digest = rq_request_identity_digest example_lifecycle_request,
      rnr_request_payload = json_dumps (run_request_semantic_value example_lifecycle_request),
      rnr_contract_version_id = 2, rnr_origin = rq_origin example_lifecycle_request,
      rnr_scope_digest = rs_scope_digest (rq_scope example_lifecycle_request), rnr_bound_input_cut_digest = None,
      rnr_bound_input_cut_payload = None, rnr_cut_binding_operation_id = None, rnr_cut_bound_at = None,
      rnr_selected_terminal_attempt_id = None, rnr_terminal_operation_id = None, rnr_terminal_at = None,
      rnr_created_at = 100\<rparr>"

lemma example_ids: "rq_request_id example_lifecycle_request = 1" "rq_contract_version_id example_lifecycle_request = 2"
  "rq_execution_policy example_lifecycle_request = example_budgets"
  by (simp_all add: example_lifecycle_request_def)

lemma example_unique: "unique_keys ((registered [])\<lparr>sto_runs := [example_run_row]\<rparr>)"
  by (simp add: registered_def empty_store_def unique_keys_def unique_runs_def unique_attempts_def
      unique_renewals_def unique_contexts_def unique_observations_def example_run_row_def)

lemma example_current: "sto_runs (tx_store t) = [example_run_row] \<Longrightarrow>
    current_claimed_run example_claimed RunLifecycleStateError t = (Inr example_claimed, t)"
  by (simp add: current_claimed_run_def select_defs tx_runs(1-4) wbind_apply expectation_for_claimed_run_def run_expectation_of_def
      example_claimed_def example_request_json claimed_run_from_row_def example_run_row_def example_ids mk_ClaimedRun_def
      require_optional_sha256_def)

lemma example_claim:
  "perform example_derived (\<lambda>_ _. True) (\<lambda>_. 100) (Claim_Run 10 11 example_lifecycle_request) (registered []) =
     (Inr (), (registered [])\<lparr>sto_runs := [example_run_row]\<rparr>)"
  using example_unique
  by (simp add: perform_def transact_def wbind_apply tx_runs(1-4) run_expectation_of_def example_request_json ignoring_def
      claim_run_once_def select_defs registered_def empty_store_def insert_run_def updates_run example_ids
      example_run_row_def claimed_run_from_row_def mk_ClaimedRun_def require_optional_sha256_def)

definition example_expectation :: attempt_expectation where
  "example_expectation =
     \<lparr>aex_candidate_attempt_id = 20, aex_start_operation_id = 21, aex_run = example_claimed,
      aex_execution_budgets = example_budgets,
      aex_execution_budgets_json = json_dumps (execution_policy_semantics example_budgets),
      aex_owner_token = 22, aex_lease_expires_at = 200\<rparr>"

lemma example_start:
  "perform example_derived (\<lambda>_ _. True) (\<lambda>_. 110) (Start_Attempt example_claimed 20 21 22 200 example_budgets)
       ((registered [])\<lparr>sto_runs := [example_run_row]\<rparr>) =
     (Inr (), (registered [])\<lparr>sto_runs := [example_run_row], sto_attempts := [new_attempt example_expectation 1 110]\<rparr>)"
proof -
  let ?st = "(registered [])\<lparr>sto_runs := [example_run_row]\<rparr>"
  let ?t = "\<lparr>tx_store = ?st, tx_now = \<lambda>_. 110, tx_reads = 1, tx_accepts = \<lambda>_ _. True\<rparr>"
  have x: "attempt_expectation_of example_claimed 20 21 22 200 example_budgets = Inr example_expectation"
    by (simp add: attempt_expectation_of_def example_budgets_json example_expectation_def example_claimed_def example_ids)
  have "lifecycle_ok ?st" using perform_ok [OF registered_ok] example_claim by (metis snd_conv)
  then have ok: "unique_keys ?st" "attempts_ok ?st" by (simp_all add: lifecycle_ok_def)
  have none: "attempts_of i ?st = []" "sto_attempts ?st = []" for i
    by (simp_all add: attempts_of_def registered_def empty_store_def)
  have current: "current_claimed_run (aex_run example_expectation) RunLifecycleStateError ?t = (Inr example_claimed, ?t)"
    unfolding example_expectation_def by (simp add: example_current)
  obtain v t' where "start_attempt_once example_expectation ?t = (Inr v, t')"
    "tx_store t' = ?st\<lparr>sto_attempts := [new_attempt example_expectation 1 110]\<rparr>"
    using start_runs [OF current] ok none
    by (auto simp: example_expectation_def example_claimed_def example_ids example_budgets_def)
  then show ?thesis
    by (simp add: perform_def transact_def wbind_apply codec_def ignoring_def x)
qed

lemma example_history:
  "after example_derived example_events (registered []) =
     (registered [])\<lparr>sto_runs := [example_run_row], sto_attempts := [new_attempt example_expectation 1 110]\<rparr>"
  by (simp add: example_events_def example_claim example_start)

theorem expired_run_continues_witness:
  "let st = after example_derived example_events (registered []);
      (abandonment, st1) = perform example_derived (\<lambda>_ _. True) (\<lambda>_. 300) (Abandon_Attempt example_holder 30 example_lost 300) st;
      (start, st2) = perform example_derived (\<lambda>_ _. True) (\<lambda>_. 310)
        (Start_Attempt example_claimed 40 41 22 400 example_budgets) st1 in
    abandonment = Inr () \<and> start = Inr () \<and>
    (\<exists>a \<in> set (sto_attempts st2). atr_attempt_id a = 40 \<and> atr_run_id a = 10 \<and> atr_status a = ATTEMPT_RUNNING \<and>
       atr_owner_token a = 22 \<and> atr_lease_expires_at a = 400)"
proof -
  let ?row = "new_attempt example_expectation 1 110" and ?st = "after example_derived example_events (registered [])"
  let ?x = "\<lparr>oex_attempt = example_holder, oex_operation_id = 30, oex_status = ATTEMPT_ABANDONED, oex_reason = example_lost,
      oex_reason_json = json_dumps (reason_semantics example_lost), oex_ended_at = 300\<rparr>"
  have row: "?row \<in> set (sto_attempts ?st)" "atr_status ?row = ATTEMPT_RUNNING" "atr_attempt_id ?row = rar_attempt_id example_holder"
    "atr_run_id ?row = clr_run_id (rar_run example_holder)" "atr_owner_token ?row = 22" "rar_run example_holder = example_claimed"
    "atr_run_id ?row = 10"
    by (simp_all add: example_history new_attempt_def example_expectation_def example_holder_def example_claimed_def)
  have current: "fst (transact (\<lambda>_ _. True) (\<lambda>_. 300) (current_claimed_run (rar_run example_holder) RunLifecycleStateError) ?st) =
      Inr example_claimed"
    by (simp add: transact_def example_history row example_current)
  have x: "abandoned_outcome_expectation example_holder 30 example_lost 300 = Inr ?x"
    by (simp add: abandoned_outcome_expectation_def outcome_expectation_of_def example_lost_json) (simp add: example_lost_def)
  have y: "attempt_expectation_of (rar_run example_holder) 40 41 (atr_owner_token ?row) 400 example_budgets =
      Inr (example_expectation\<lparr>aex_candidate_attempt_id := 40, aex_start_operation_id := 41, aex_lease_expires_at := 400\<rparr>)"
    by (simp add: attempt_expectation_of_def example_budgets_json example_expectation_def row) (simp add: example_claimed_def example_ids new_attempt_def)
  have st: "sto_attempts ?st = [?row]" "sto_contexts ?st = []"
    unfolding example_history by (simp_all add: registered_def empty_store_def)
  have expired: "atr_lease_expires_at ?row \<le> 300" and ends: "atr_end_operation_id ?row = None"
    and ids: "atr_start_operation_id ?row = 21" "atr_attempt_id ?row = 20"
    by (simp_all add: new_attempt_def example_expectation_def)
  have count: "int (length (attempts_of (atr_run_id ?row) ?st)) < eb_max_attempts (rq_execution_policy (clr_request (rar_run example_holder)))"
    by (simp add: attempts_of_def st row(6)) (simp add: example_claimed_def example_ids example_budgets_def)
  have names: "inj (example_derived 30)" by (simp add: inj_on_def example_derived_def)
  have "let (abandonment, st1) = perform example_derived (\<lambda>_ _. True) (\<lambda>_. 300) (Abandon_Attempt example_holder 30 example_lost 300) ?st;
      (start, st2) = perform example_derived (\<lambda>_ _. True) (\<lambda>_. 310)
        (Start_Attempt (rar_run example_holder) 40 41 (atr_owner_token ?row) 400 example_budgets) st1 in
    abandonment = Inr () \<and> start = Inr () \<and>
    (\<exists>a \<in> set (sto_attempts st2). atr_attempt_id a = 40 \<and> atr_run_id a = atr_run_id ?row \<and> atr_status a = ATTEMPT_RUNNING \<and>
       atr_owner_token a = atr_owner_token ?row \<and> atr_lease_expires_at a = 400)"
    by (rule expired_run_continues [OF row(1-4) current x _ _ names _ y])
      (use expired ends ids count in \<open>simp_all add: st\<close>)
  then show ?thesis unfolding row(5-7) Let_def .
qed

text \<open>The holder of that run, come back after its lease ran out.\<close>

theorem stale_holder_changes_nothing_witness:
  "let st = after example_derived example_events (registered []) in
    snd (perform example_derived (\<lambda>_ _. True) (\<lambda>_. 300) (Renew_Attempt example_holder 50 500) st) = st"
proof -
  have st: "sto_attempts (after example_derived example_events (registered [])) = [new_attempt example_expectation 1 110]"
    unfolding example_history by (simp add: registered_def)
  show ?thesis
    unfolding Let_def
    by (rule stale_holder_changes_nothing [where attempt = example_holder])
      (simp_all add: st new_attempt_def example_expectation_def)
qed

end
