(* ===== verification/Ending_Receipts.thy ===== *)
theory Ending_Receipts
  imports Lifecycle_Receipts Lifecycle_Recovery
begin

text \<open>
  The receipts of read contexts and of attempts that end. An attempt or a context that has ended is the row with its end operation
  for good, so the lookup by that operation finds it, and the run it was selected for keeps it.
\<close>

section \<open>Rows that have ended\<close>

lemma present_key:
  "distinct (present_keys key rows) \<Longrightarrow> x \<in> set rows \<Longrightarrow> y \<in> set rows \<Longrightarrow> key x = Some k \<Longrightarrow> key y = Some k \<Longrightarrow> x = y"
  by (induction rows) (auto simp: set_present_keys split: option.splits)

lemma find_present:
  assumes "distinct (present_keys key rows)" "r \<in> set rows" "key r = Some k"
  shows "find (\<lambda>r. key r = Some k) rows = Some r"
  by (rule find_only) (use assms present_key [OF assms(1)] in auto)

lemma ended_status:
  "lifecycle_ok st \<Longrightarrow> a \<in> set (sto_attempts st) \<Longrightarrow> atr_end_operation_id a = Some i \<Longrightarrow> atr_status a \<noteq> ATTEMPT_RUNNING"
  "lifecycle_ok st \<Longrightarrow> c \<in> set (sto_contexts st) \<Longrightarrow> cxr_end_operation_id c = Some i \<Longrightarrow> cxr_state c \<noteq> READ_CONTEXT_ACTIVE"
  by (simp_all add: lifecycle_ok_def endings_ok_def)

lemma ended_attempt_found:
  assumes "kept_by_others st st'" "find (\<lambda>a. atr_end_operation_id a = Some i) (sto_attempts st) = Some row"
  shows "find (\<lambda>a. atr_end_operation_id a = Some i) (sto_attempts st') = Some row"
proof -
  have row: "row \<in> set (sto_attempts st)" "atr_end_operation_id row = Some i" using find_mem [OF assms(2)] by simp_all
  then have "atr_status row \<noteq> ATTEMPT_RUNNING" using ended_status(1) assms(1) unfolding kept_by_others_def by blast
  then have "row \<in> set (sto_attempts st')" using ended_attempt_kept row(1) assms(1) unfolding kept_by_others_def by blast
  moreover have "distinct (present_keys atr_end_operation_id (sto_attempts st'))"
    using assms(1) by (simp add: kept_by_others_def lifecycle_ok_def unique_keys_def unique_attempts_def)
  ultimately show ?thesis by (intro find_present row(2))
qed

lemma ended_context_found:
  assumes "kept_by_others st st'" "find (\<lambda>c. cxr_end_operation_id c = Some i) (sto_contexts st) = Some row"
  shows "find (\<lambda>c. cxr_end_operation_id c = Some i) (sto_contexts st') = Some row"
proof -
  have row: "row \<in> set (sto_contexts st)" "cxr_end_operation_id row = Some i" using find_mem [OF assms(2)] by simp_all
  then have "cxr_state row \<noteq> READ_CONTEXT_ACTIVE" using ended_status(2) assms(1) unfolding kept_by_others_def by blast
  moreover have "rows_kept context_kept (sto_contexts st) (sto_contexts st')"
    using assms(1) by (simp add: kept_by_others_def store_kept_def)
  from rows_kept_mem [OF this row(1)] obtain row' where "row' \<in> set (sto_contexts st')" "context_kept row row'" by blast
  ultimately have "row \<in> set (sto_contexts st')" by (simp add: context_kept_def)
  moreover have "distinct (present_keys cxr_end_operation_id (sto_contexts st'))"
    using assms(1) by (simp add: kept_by_others_def lifecycle_ok_def unique_keys_def unique_contexts_def)
  ultimately show ?thesis by (intro find_present row(2))
qed

lemma run_found:
  assumes "kept_by_others st st'" "find (\<lambda>r. rnr_run_id r = i) (sto_runs st) = Some row"
  obtains row' where "find (\<lambda>r. rnr_run_id r = i) (sto_runs st') = Some row'" "run_kept row row'"
proof -
  have "rows_kept run_kept (sto_runs st) (sto_runs st')" using assms(1) by (simp add: kept_by_others_def store_kept_def)
  from find_kept [OF this _ assms(2)] show thesis using that run_key_kept by blast
qed

section \<open>Publishing an outcome\<close>

lemma finds_lookup_terminal:
  "finds (lookup_terminal_attempt_outcome x) st (Some r) \<longleftrightarrow> finds (terminal_outcome_from_database x) st r"
  by (auto simp: lookup_terminal_attempt_outcome_def terminal_outcome_from_database_def outcome_receipt_from_database_def
      finds_wbind stateless_intros split: option.splits)

lemma publish_written:
  assumes "publish_terminal_outcome_once x t = (Inr r, t')"
  shows "finds (lookup_terminal_attempt_outcome x) (tx_store t') (Some r)"
  using assms unfolding publish_terminal_outcome_once_def Let_def finds_lookup_terminal
proof (rule locked_operation, goal_cases)
  case (1 c row stored)
  note reads = stateless_result [OF stateless_receipts(3)]
  show ?case
    using 1(1)
    by (auto simp: wbind_eq_Inr_iff Lifecycle_Effects.select_defs tx_iffs commit_fenced_result_Inr simp del: wrequire_apply
        split: if_splits dest!: reads)
qed

lemma publish_kept:
  assumes "kept_by_others st st'" "finds (lookup_terminal_attempt_outcome x) st (Some r)"
  shows "\<exists>s. finds (lookup_terminal_attempt_outcome x) st' (Some s)"
proof -
  obtain row run where row: "find (\<lambda>a. atr_end_operation_id a = Some (oex_operation_id x)) (sto_attempts st) = Some row"
    "find (\<lambda>r. rnr_run_id r = clr_run_id (rar_run (oex_attempt x))) (sto_runs st) = Some run"
    "rnr_selected_terminal_attempt_id run = Some (rar_attempt_id (oex_attempt x))"
    using assms(2) unfolding finds_lookup_terminal
    by (auto simp: terminal_outcome_from_database_def outcome_receipt_from_database_def finds_wbind stateless_intros
        split: option.splits)
  obtain run' where run': "find (\<lambda>r. rnr_run_id r = clr_run_id (rar_run (oex_attempt x))) (sto_runs st') = Some run'"
    "run_kept run run'" using run_found [OF assms(1) row(2)] .
  then have "run' = run" using row(3) by (simp add: run_kept_def)
  then show ?thesis
    using assms(2) row run' ended_attempt_found [OF assms(1) row(1)] unfolding finds_lookup_terminal
    by (auto simp: terminal_outcome_from_database_def outcome_receipt_from_database_def finds_wbind stateless_intros)
qed

lemma publish_change:
  assumes "oex_status x \<in> {ATTEMPT_INCOMPLETE, ATTEMPT_ERROR}" "publish_terminal_outcome_once x t = (Inr r, t')"
  shows "tx_store t' = tx_store t \<or> (lifecycle_change (tx_store t) (tx_store t') \<and> unique_keys (tx_store t'))"
  using publish_effect [OF assms(2,1)] by blast

lemma publish_receipts:
  assumes "oex_status x \<in> {ATTEMPT_INCOMPLETE, ATTEMPT_ERROR}"
  shows "receipts (publish_terminal_outcome_once x) (lookup_terminal_attempt_outcome x)
    (\<lambda>st. \<exists>r. finds (lookup_terminal_attempt_outcome x) st (Some r))"
  by (rule receipts_found [OF durableI [OF publish_change [OF assms] publish_written] stateless_lookups(7) known_writes(5)
        known_lookups(7) publish_kept])

section \<open>Ending an attempt so that the run goes on\<close>

lemma finds_lookup_retryable:
  "finds (lookup_retryable_attempt_outcome x) st (Some r) \<longleftrightarrow> finds (retryable_outcome_from_database x) st r"
  by (auto simp: lookup_retryable_attempt_outcome_def retryable_outcome_from_database_def outcome_receipt_from_database_def
      finds_wbind stateless_intros split: option.splits)

lemma retryable_written:
  assumes "persist_retryable_outcome_once x t = (Inr r, t')"
  shows "finds (lookup_retryable_attempt_outcome x) (tx_store t') (Some r)"
  using assms unfolding persist_retryable_outcome_once_def Let_def finds_lookup_retryable
proof (rule locked_operation, goal_cases)
  case (1 c row stored)
  note reads = stateless_result [OF stateless_receipts(2)]
  show ?case
    using 1(1)
    by (auto simp: wbind_eq_Inr_iff Lifecycle_Effects.select_defs tx_iffs commit_fenced_result_Inr simp del: wrequire_apply
        split: if_splits dest!: reads)
qed

lemma abandon_written:
  assumes "abandon_attempt_once derived x t = (Inr r, t')"
  shows "finds (lookup_retryable_attempt_outcome x) (tx_store t') (Some r)"
  using assms unfolding abandon_attempt_once_def Let_def finds_lookup_retryable
proof (rule locked_operation, goal_cases)
  case (1 c row stored)
  note reads = stateless_result [OF stateless_receipts(2)]
  show ?case
    using 1(1)
    by (auto simp: wbind_eq_Inr_iff Lifecycle_Effects.select_defs tx_iffs simp del: wrequire_apply wfold.simps
        split: if_splits dest!: reads)
qed

text \<open>An attempt that ended without being selected is not selected later.\<close>

lemma never_selected:
  assumes others: "kept_by_others st st'"
    and row: "find (\<lambda>a. atr_end_operation_id a = Some i) (sto_attempts st) = Some row"
    and run: "find (\<lambda>r. rnr_run_id r = j) (sto_runs st) = Some run" "rnr_terminal_operation_id run \<noteq> Some i"
    and run': "find (\<lambda>r. rnr_run_id r = j) (sto_runs st') = Some run'"
  shows "rnr_terminal_operation_id run' \<noteq> Some i"
proof
  assume terminal: "rnr_terminal_operation_id run' = Some i"
  have ok: "lifecycle_ok st" "lifecycle_ok st'" and selections: "selections_kept st st'"
    using others by (simp_all add: kept_by_others_def)
  have mem: "run' \<in> set (sto_runs st')" "rnr_run_id run' = j" using find_mem [OF run'] by simp_all
  have order: "terminal_ok st'" using ok by (simp add: lifecycle_ok_def)
  obtain k where k: "rnr_selected_terminal_attempt_id run' = Some k"
    using terminal_okD(1) [OF order mem(1)] terminal by fastforce
  obtain a where a: "a \<in> set (sto_attempts st')" "atr_attempt_id a = k" "atr_end_operation_id a = Some i"
    using terminal_okD(2) [OF order mem(1) k] terminal by auto
  have same: "row \<in> set (sto_attempts st)" "atr_end_operation_id row = Some i" using find_mem [OF row] by simp_all
  have "distinct (present_keys atr_end_operation_id (sto_attempts st'))"
    using ok(2) by (simp add: lifecycle_ok_def unique_keys_def unique_attempts_def)
  then have "find (\<lambda>a. atr_end_operation_id a = Some i) (sto_attempts st') = Some a" by (intro find_present a(1) a(3))
  then have "a = row" using ended_attempt_found [OF others row] by simp
  moreover have "atr_status row \<noteq> ATTEMPT_RUNNING" using ended_status(1) ok(1) same by blast
  ultimately have "run' \<in> set (sto_runs st)" using selections_keptD [OF selections same(1)] mem(1) k a(2) by simp
  moreover have "distinct (map rnr_run_id (sto_runs st))" using ok(1) unique_fields by (simp add: lifecycle_ok_def)
  ultimately have "run' = run" using same_key [of rnr_run_id "sto_runs st" run' run] find_mem [OF run(1)] mem(2) by simp
  then show False using terminal run(2) by simp
qed

lemma retryable_kept:
  assumes "kept_by_others st st'" "finds (lookup_retryable_attempt_outcome x) st (Some r)"
  shows "\<exists>s. finds (lookup_retryable_attempt_outcome x) st' (Some s)"
proof -
  obtain row run where row: "find (\<lambda>a. atr_end_operation_id a = Some (oex_operation_id x)) (sto_attempts st) = Some row"
    "find (\<lambda>r. rnr_run_id r = clr_run_id (rar_run (oex_attempt x))) (sto_runs st) = Some run"
    "rnr_terminal_operation_id run \<noteq> Some (oex_operation_id x)"
    using assms(2) unfolding finds_lookup_retryable
    by (auto simp: retryable_outcome_from_database_def outcome_receipt_from_database_def finds_wbind stateless_intros
        split: option.splits)
  obtain run' where run': "find (\<lambda>r. rnr_run_id r = clr_run_id (rar_run (oex_attempt x))) (sto_runs st') = Some run'"
    using run_found [OF assms(1) row(2)] .
  have "rnr_terminal_operation_id run' \<noteq> Some (oex_operation_id x)" by (rule never_selected [OF assms(1) row run'])
  then show ?thesis
    using assms(2) row run' ended_attempt_found [OF assms(1) row(1)] unfolding finds_lookup_retryable
    by (auto simp: retryable_outcome_from_database_def outcome_receipt_from_database_def finds_wbind stateless_intros)
qed

lemma retryable_change:
  assumes "oex_status x \<in> {ATTEMPT_INCOMPLETE, ATTEMPT_ERROR}" "persist_retryable_outcome_once x t = (Inr r, t')"
  shows "tx_store t' = tx_store t \<or> (lifecycle_change (tx_store t) (tx_store t') \<and> unique_keys (tx_store t'))"
  using retryable_effect [OF assms(2,1)] by blast

lemma retryable_receipts:
  assumes "oex_status x \<in> {ATTEMPT_INCOMPLETE, ATTEMPT_ERROR}"
  shows "receipts (persist_retryable_outcome_once x) (lookup_retryable_attempt_outcome x)
    (\<lambda>st. \<exists>r. finds (lookup_retryable_attempt_outcome x) st (Some r))"
  by (rule receipts_found [OF durableI [OF retryable_change [OF assms] retryable_written] stateless_lookups(6) known_writes(6)
        known_lookups(6) retryable_kept])

lemma abandon_receipts:
  assumes "oex_status x = ATTEMPT_ABANDONED"
  shows "receipts (abandon_attempt_once derived x) (lookup_retryable_attempt_outcome x)
    (\<lambda>st. \<exists>r. finds (lookup_retryable_attempt_outcome x) st (Some r))"
  by (rule receipts_found [OF durableI [OF abandon_effect [OF _ assms] abandon_written] stateless_lookups(6) known_abandon
        known_lookups(6) retryable_kept])

section \<open>Read contexts\<close>

lemma finds_lookup_persisted:
  "finds (lookup_persisted_context x) st (Some c) \<longleftrightarrow>
     (\<exists>row. find (\<lambda>k. cxr_acquisition_operation_id k = cxd_acquisition_operation_id (cex_definition x)) (sto_contexts st) = Some row \<and>
        finds (persisted_context_from_row row x) st c)"
  by (auto simp: lookup_persisted_context_def finds_wbind stateless_intros split: option.splits)

lemma persist_context_written:
  assumes "persist_context_once x t = (Inr c, t')"
  shows "finds (lookup_persisted_context x) (tx_store t') (Some c)"
  using assms unfolding persist_context_once_def Let_def finds_lookup_persisted
proof (rule locked_operation, goal_cases)
  case (1 run row stored)
  note reads = stateless_result [OF stateless_reads(2)]
  show ?case
    using 1(1)
    by (auto simp: wbind_eq_Inr_iff Lifecycle_Effects.select_defs tx_iffs commit_fenced_result_Inr simp del: wrequire_apply
        split: option.splits dest!: reads)
qed

lemma persisted_row_kept:
  assumes "finds (persisted_context_from_row row x) st c" "context_kept row row'"
  shows "\<exists>d. finds (persisted_context_from_row row' x) st' d"
  using assms by (auto simp: persisted_context_from_row_def validate_stored_clickhouse_closure_def finds_wbind stateless_intros
      context_kept_def)

lemma context_key_kept: "context_kept c c' \<Longrightarrow> cxr_acquisition_operation_id c' = cxr_acquisition_operation_id c"
  by (cases c; cases c') (auto simp: context_kept_def)

lemma persist_context_kept:
  assumes "kept_by_others st st'" "finds (lookup_persisted_context x) st (Some c)"
  shows "\<exists>d. finds (lookup_persisted_context x) st' (Some d)"
proof -
  obtain row where row: "find (\<lambda>k. cxr_acquisition_operation_id k = cxd_acquisition_operation_id (cex_definition x)) (sto_contexts st) = Some row"
    "finds (persisted_context_from_row row x) st c" using assms(2) unfolding finds_lookup_persisted by blast
  have "rows_kept context_kept (sto_contexts st) (sto_contexts st')"
    using assms(1) by (simp add: kept_by_others_def store_kept_def)
  from find_kept [OF this context_key_kept row(1)] persisted_row_kept [OF row(2)] show ?thesis
    unfolding finds_lookup_persisted by blast
qed

lemma persist_context_change:
  "persist_context_once x t = (Inr c, t') \<Longrightarrow>
   tx_store t' = tx_store t \<or> (lifecycle_change (tx_store t) (tx_store t') \<and> unique_keys (tx_store t'))"
  using persist_context_effect by blast

interpretation acquire: receipts "persist_context_once x" "lookup_persisted_context x"
    "\<lambda>st. \<exists>c. finds (lookup_persisted_context x) st (Some c)" for x
  by (rule receipts_found [OF durableI [OF persist_context_change persist_context_written] stateless_lookups(4) known_writes(4)
        known_lookups(4) persist_context_kept])

lemma finds_finished:
  "finds (require_finished_context row x) st c \<longleftrightarrow>
     \<not> (cxr_engine row = CLICKHOUSE_ENGINE \<and> cxr_state row = READ_CONTEXT_CLOSED) \<and>
     cxr_read_context_id row = cxe_read_context_id x \<and> cxr_run_id row = clr_run_id (rar_run (cxe_attempt x)) \<and>
     cxr_attempt_id row = rar_attempt_id (cxe_attempt x) \<and> cxr_state row = cxe_target_state x \<and>
     cxr_end_operation_id row = Some (cxe_end_operation_id x) \<and> cxr_ended_at row = Some (cxe_ended_at x) \<and>
     c = persisted_context_of row"
  by (auto simp: require_finished_context_def validate_stored_clickhouse_closure_def finds_wbind stateless_intros)

lemma finds_lookup_finished:
  "finds (lookup_finished_context x) st (Some c) \<longleftrightarrow>
     (\<exists>row. find (\<lambda>k. cxr_end_operation_id k = Some (cxe_end_operation_id x)) (sto_contexts st) = Some row \<and>
        finds (require_finished_context row x) st c)"
proof -
  have "finds (require_generic_context_end_supported row (cxe_target_state x)) st u \<and> finds (require_finished_context row x) st c \<longleftrightarrow>
      finds (require_finished_context row x) st c" for row u
    by (auto simp: finds_finished require_generic_context_end_supported_def)
  then show ?thesis
    by (auto simp: lookup_finished_context_def finds_wbind stateless_intros split: option.splits)
qed

lemma finish_context_written:
  assumes "finish_context_once x t = (Inr c, t')"
  shows "finds (lookup_finished_context x) (tx_store t') (Some c)"
  using assms unfolding finish_context_once_def begin_context_end_transaction_def wbind_assoc finds_lookup_finished
proof (rule locked_operation, goal_cases)
  case (1 run row stored)
  note reads = stateless_result [OF stateless_reads(3)] stateless_result [OF stateless_rows(4)]
  show ?case
    using 1(1)
    by (auto simp: wbind_eq_Inr_iff Lifecycle_Effects.select_defs tx_iffs commit_fenced_result_Inr simp del: wrequire_apply
        split: option.splits dest!: reads)
qed

lemma finish_context_kept:
  assumes "kept_by_others st st'" "finds (lookup_finished_context x) st (Some c)"
  shows "\<exists>d. finds (lookup_finished_context x) st' (Some d)"
  using assms(2) ended_context_found [OF assms(1)] unfolding finds_lookup_finished finds_finished by blast

lemma finish_context_change:
  assumes "cxe_target_state x \<noteq> READ_CONTEXT_ACTIVE" "finish_context_once x t = (Inr c, t')"
  shows "tx_store t' = tx_store t \<or> (lifecycle_change (tx_store t) (tx_store t') \<and> unique_keys (tx_store t'))"
  using finish_context_effect [OF assms(2,1)] by blast

lemma finish_context_receipts:
  assumes "cxe_target_state x \<noteq> READ_CONTEXT_ACTIVE"
  shows "receipts (finish_context_once x) (lookup_finished_context x) (\<lambda>st. \<exists>c. finds (lookup_finished_context x) st (Some c))"
  by (rule receipts_found [OF durableI [OF finish_context_change [OF assms] finish_context_written] stateless_lookups(5)
        known_context_end known_lookups(5) finish_context_kept])

section \<open>Every call\<close>

text \<open>A caller that has not called yet, some time in the life of the database.\<close>

definition fresh_caller ::
  "(uuid \<Rightarrow> uuid \<Rightarrow> uuid) \<Rightarrow> event list \<Rightarrow> contract_row list \<Rightarrow> (nat \<Rightarrow> visit) \<Rightarrow> network" where
  "fresh_caller derived before contracts visits =
     \<lparr>nw_store = after derived before (registered contracts), nw_visits = visits, nw_turn = 0, nw_commits = 0\<rparr>"

text \<open>A public function of the module: what it expects, built from its arguments, and the write and the lookup for it. With
  arguments that are refused it never connects.\<close>

definition settles ::
  "(uuid \<Rightarrow> uuid \<Rightarrow> uuid) \<Rightarrow> nat \<Rightarrow> network \<Rightarrow> exn + 'x \<Rightarrow> ('x \<Rightarrow> 'a tx) \<Rightarrow> ('x \<Rightarrow> 'a option tx) \<Rightarrow> bool" where
  "settles derived max_attempts nw expectation write reconcile \<longleftrightarrow>
     (case expectation of
        Inl e \<Rightarrow> True
      | Inr x \<Rightarrow> settled (reconcile x) (nw_commits nw) (run_with_reconciliation derived max_attempts (write x) (reconcile x) nw))"

primrec call_settles :: "(uuid \<Rightarrow> uuid \<Rightarrow> uuid) \<Rightarrow> nat \<Rightarrow> network \<Rightarrow> operation \<Rightarrow> bool" where
  "call_settles derived n nw (Claim_Run i c q) =
     settles derived n nw (run_expectation_of i c q) claim_run_once lookup_claimed_run"
| "call_settles derived n nw (Start_Attempt run i s owner expiry budgets) =
     settles derived n nw (attempt_expectation_of run i s owner expiry budgets) start_attempt_once lookup_started_attempt"
| "call_settles derived n nw (Renew_Attempt a i expiry) =
     settles derived n nw (renewal_expectation_of a i expiry) renew_attempt_once lookup_renewed_attempt"
| "call_settles derived n nw (Persist_Context a d) =
     settles derived n nw (Inr \<lparr>cex_attempt = a, cex_definition = d\<rparr>) persist_context_once lookup_persisted_context"
| "call_settles derived n nw (Close_Context a c i time) =
     settles derived n nw (Inr (ending READ_CONTEXT_CLOSED a c i time)) finish_context_once lookup_finished_context"
| "call_settles derived n nw (Lose_Context a c i time) =
     settles derived n nw (Inr (ending READ_CONTEXT_LOST a c i time)) finish_context_once lookup_finished_context"
| "call_settles derived n nw (Retry_Incomplete a i reason time) =
     settles derived n nw (incomplete_outcome_expectation a i reason time)
       persist_retryable_outcome_once lookup_retryable_attempt_outcome"
| "call_settles derived n nw (Retry_Error a i reason time) =
     settles derived n nw (error_outcome_expectation a i reason time)
       persist_retryable_outcome_once lookup_retryable_attempt_outcome"
| "call_settles derived n nw (Publish_Incomplete a i reason time) =
     settles derived n nw (incomplete_outcome_expectation a i reason time)
       publish_terminal_outcome_once lookup_terminal_attempt_outcome"
| "call_settles derived n nw (Publish_Error a i reason time) =
     settles derived n nw (error_outcome_expectation a i reason time)
       publish_terminal_outcome_once lookup_terminal_attempt_outcome"
| "call_settles derived n nw (Abandon_Attempt a i reason time) =
     settles derived n nw (abandoned_outcome_expectation a i reason time)
       (abandon_attempt_once derived) lookup_retryable_attempt_outcome"

lemma settlesI:
  assumes "lifecycle_ok (nw_store nw)" "\<And>x. expectation = Inr x \<Longrightarrow> receipts (write x) (reconcile x) (recorded x)"
  shows "settles derived n nw expectation write reconcile"
proof (cases expectation)
  case (Inr x)
  then show ?thesis
    using receipts.loop_settled [OF assms(2) [OF Inr] assms(1), of "nw_commits nw" False False derived n] Inr
    by (simp add: settles_def run_with_reconciliation_def)
qed (simp add: settles_def)

lemma calls_settle:
  assumes ok: "lifecycle_ok (nw_store nw)"
  shows "call_settles derived n nw op"
  by (cases op)
    (auto simp: ending_def intro!: settlesI [OF ok] claim.receipts_axioms start.receipts_axioms renew.receipts_axioms
      acquire.receipts_axioms finish_context_receipts publish_receipts retryable_receipts abandon_receipts
      dest: outcome_status)

text \<open>(C15) Every call of the persistence layer, at any time in the life of the database, over any sequence of broken connections and with any
  operations of others in between, commits at most once. When it returns, what it returns is the receipt the database holds.
  When it raises, it has changed nothing, except where it says that it does not know whether it committed.\<close>

theorem calls_commit_once:
  "call_settles derived max_attempts (fresh_caller derived before contracts visits) op"
  by (rule calls_settle) (simp add: fresh_caller_def after_ok [OF registered_ok])

section \<open>An example\<close>

text \<open>The answer to the commit of a claim is lost and the first lookup cannot connect; the second finds the run, and nothing is
  written twice.\<close>

definition example_claim_expectation :: run_expectation where
  "example_claim_expectation =
     \<lparr>rex_candidate_run_id = 10, rex_creation_operation_id = 11, rex_request = example_lifecycle_request,
      rex_request_payload_json = json_dumps (run_request_semantic_value example_lifecycle_request),
      rex_request_identity_digest = rq_request_identity_digest example_lifecycle_request,
      rex_scope_digest = rs_scope_digest (rq_scope example_lifecycle_request)\<rparr>"

definition example_visits :: "nat \<Rightarrow> visit" where
  "example_visits i = \<lparr>vis_others = [], vis_link = (if i = 0 then Lost_After_Commit else if i = 1 then Unreachable else Holds),
     vis_accepts = \<lambda>_ _. True, vis_now = \<lambda>_. 100\<rparr>"

lemma example_claim_transaction:
  "transact (\<lambda>_ _. True) (\<lambda>_. 100) (claim_run_once example_claim_expectation) (registered []) =
     (Inr example_claimed, (registered [])\<lparr>sto_runs := [example_run_row]\<rparr>)"
  using example_unique
  by (simp add: transact_def wbind_apply tx_runs(1-4) example_claim_expectation_def example_claimed_def
      claim_run_once_def Lifecycle_Effects.select_defs registered_def empty_store_def insert_run_def updates_run example_ids
      example_run_row_def claimed_run_from_row_def mk_ClaimedRun_def require_optional_sha256_def)

lemma example_lookup_transaction:
  "transact (\<lambda>_ _. True) (\<lambda>_. 100) (lookup_claimed_run example_claim_expectation) ((registered [])\<lparr>sto_runs := [example_run_row]\<rparr>) =
     (Inr (Some example_claimed), (registered [])\<lparr>sto_runs := [example_run_row]\<rparr>)"
  by (simp add: transact_def wbind_apply tx_runs(1-4) example_claim_expectation_def example_claimed_def
      lookup_claimed_run_def Lifecycle_Effects.select_defs example_ids
      example_run_row_def claimed_run_from_row_def mk_ClaimedRun_def require_optional_sha256_def)

lemma lost_answer_found:
  "let (result, nw) = run_with_reconciliation example_derived 3 (claim_run_once example_claim_expectation)
      (lookup_claimed_run example_claim_expectation) (fresh_caller example_derived [] [] example_visits) in
    result = Inr example_claimed \<and> nw_commits nw = 1 \<and> nw_turn nw = 3 \<and> length (sto_runs (nw_store nw)) = 1"
proof -
  have "(registered [])\<lparr>sto_runs := [example_run_row]\<rparr> \<noteq> registered []"
    by (simp add: registered_def empty_store_def)
  then show ?thesis
    by (simp add: run_with_reconciliation_def fresh_caller_def visited_def try_write_def try_reconcile_def commit_write_def
        example_visits_def example_claim_transaction example_lookup_transaction eval_nat_numeral)
qed

end
