(* ===== verification/Spec2Isabelle.thy ===== *)
theory Spec2Isabelle
  imports Comparison_Frontier Postgres_Comparison Ending_Receipts
begin

text \<open>
  Verification of forensic-data, a program that compares two tables in different databases and keeps an auditable
  record of what it found.

  \<^bold>\<open>The program.\<close> A contract names two datasets, the scope of a check, its key and its budgets. A run resolves the
  scope, claims its request in a metadata database, starts an attempt under a lease, protects a snapshot of each
  source and compares the two sides: it fingerprints ranges of integer keys on the servers, prunes ranges whose
  fingerprints agree, splits those that differ and compares small ranges row by row. Every query is charged to a
  ledger that the sessions of a run share. The run ends in an artifact, complete or partial, and in a result with a
  verdict, a guarantee and an exit code.

  \<^bold>\<open>Theories and sources\<close> (paths under \<open>src/forensic_data/\<close>).

  \<^item> \<open>Prelude\<close>, \<open>Effects\<close>: exceptions as values, sequencing of fallible and of stateful code, numerals, and the rule
    collections \<open>result_simps\<close>, \<open>result_elims\<close> and \<open>keeps_intros\<close> that the components share. \<open>Stdlib_Text\<close>, \<open>Calendar\<close>, \<open>Json\<close>,
    \<open>Sha256\<close>: the parts of Python's standard library that the code uses.
  \<^item> \<open>Canonical_Model\<close>, \<open>Canonical_Schema\<close>, \<open>Canonical_Codec\<close>, \<open>Canonical_Envelope\<close>, \<open>Canonical_Hashing\<close>: the package
    \<open>canonical/\<close>, from field values to payloads, envelopes, hashes and additive fingerprints.
  \<^item> \<open>Semantics\<close>, \<open>Contract_Model\<close>: \<open>contracts/semantics.py\<close>, \<open>contracts/model.py\<close>, \<open>contracts/identity.py\<close>.
  \<^item> \<open>Run_Result\<close>: \<open>result.py\<close>. \<open>Evidence\<close>: the row differences of \<open>reporting.py\<close>.
  \<^item> \<open>Source_Budget\<close>, \<open>Source_World\<close>: execution budgets and the ledger of \<open>postgres.py\<close> that every session charges.
  \<^item> \<open>Acquisition\<close>, \<open>Run_Request\<close>: \<open>acquisition.py\<close> and the resolved scope of \<open>planning.py\<close>.
  \<^item> \<open>Comparison_Model\<close>, \<open>Comparison_Rows\<close>, \<open>Comparison_Context\<close>, \<open>Comparison_Memory\<close>, \<open>Comparison_Artifacts\<close>,
    \<open>Comparison_Inputs\<close>, \<open>Comparison_Frontier\<close>, \<open>Comparison_Engine\<close>: \<open>comparison.py\<close>, from the data of a comparison to
    \<open>execute_integer_key_comparison\<close>. The three reads, the clock and the ledger are the fields of a record
    \<open>services\<close>, an argument of the engine.
  \<^item> \<open>Comparison_Invariant\<close>, \<open>Comparison_Run\<close>, \<open>Comparison_Ledger\<close>, \<open>Comparison_Bounds\<close>, \<open>Comparison_Snapshot\<close>: what holds of
    a run. \<open>Comparison_Tables\<close> answers the reads from two lists of rows.
  \<^item> \<open>Postgres_Rows\<close>, \<open>Postgres_Reads\<close>, \<open>Postgres_Comparison\<close>: the reads of \<open>postgres.py\<close> against an arbitrary server.
  \<^item> \<open>Lifecycle_Store\<close>, \<open>Run_Lifecycle\<close>, \<open>Attempt_Outcomes\<close>: the tables and the transactions of
    \<open>persistence/lifecycle.py\<close>. \<open>Lifecycle_Effects\<close>, \<open>Lifecycle_Machine\<close>, \<open>Lifecycle_Invariant\<close>, \<open>Lifecycle_History\<close>,
    \<open>Lifecycle_Recovery\<close>: the abstract machine they refine, its invariant, what histories keep, and recovery.
    \<open>Lifecycle_Lookups\<close>, \<open>Reconciliation\<close>, \<open>Lifecycle_Receipts\<close>, \<open>Ending_Receipts\<close>: the lookups of receipts, the calls
    over connections that break (\<open>_run_with_reconciliation\<close>), and what every operation leaves for its lookup to find.

  A data class is a record, an enumeration or a union a datatype, an exception a value of a sum type; the
  constructors \<open>mk_\<close> are the \<open>__post_init__\<close> checks. Python's unbounded integers are \<open>int\<close>; SHA-256 works on
  \<open>32 word\<close>.

  \<^bold>\<open>What the theorems show.\<close>

  \<^item> Canonical layer: decoding undoes encoding on well-formed values and every accepted byte string is the encoding of
    what it decodes to, for payloads, row envelopes, key envelopes and schema metadata (locale \<open>canonical_codec\<close>,
    interpreted three times); fingerprints do not depend on the order of rows and those of parts combine.
  \<^item> Results: what an accepted result says of its coverage, its reasons and its status, in terms of what it proves
    (\<open>positive_difference\<close>), of the reasons it gives anywhere (\<open>gives_reason\<close>) and of their severity.
  \<^item> Comparison: the verdict of a completed comparison is about the rows of the tables (locale \<open>table_reads\<close>); exact
    ranges are compared as \<open>row_difference_counts\<close> and \<open>row_differences\<close> say; every interruption but
    \<open>GreenplumCloseError\<close> yields a partial artifact that is accepted, whose ranges hold every key of the compared range
    once and whose unresolved ranges give its reason (\<open>properly_reported\<close>); the metrics of every artifact are what the
    ledger was charged since the attempt began (\<open>accounts_for\<close>); the budgets of nodes, depth and evidence are kept and the
    loop over levels ends (locales \<open>kept_relation\<close>, \<open>kept_services\<close>).
  \<^item> Ledger: dispatches stay within the budgets in every interleaving, overruns are permanent, and an attempt sees its own
    usage only.
  \<^item> PostgreSQL: the same against any server, with the size of every accepted answer and the states of the read contexts
    (locales \<open>server_relation\<close>, \<open>connector_relation\<close>).
  \<^item> Lifecycle: every operation refines the machine; every history keeps the database in order; a holder whose lease is
    gone changes nothing; what has ended is final; a run whose holder died can go on; and a call
    whose answers are lost commits at most once and returns the receipt that the database holds (locale \<open>receipts\<close>, whose
    laws every operation of the lifecycle is shown to obey).

  \<^bold>\<open>Termination and bounds.\<close> The loop over pending segments recurses with a measure, the fingerprint nodes left in
  the budget, since every level charges at least one node; \<open>comparison_loop_ends\<close> restates it with fuel and shows that
  one more than those nodes is enough. The retries of a write recurse on the attempts left. The JSON reader recurses on the length of
  the rest of the text. All other loops are structural. A transaction of the metadata database is one step: the
  advisory locks and row locks of the code make transactions on a run take turns, and a transaction that fails is
  rolled back. Time is any sequence of readings; a theorem that needs a clock to have passed a lease says so.

  \<^bold>\<open>What is not modelled.\<close> Connecting and closing sessions, retrying reads, and the SQL text of the connectors: driver
  input and output (in \<open>Reconciliation\<close> a connection is what becomes of it, an argument); the text of a query is a parameter. The SQL Server, Greenplum and ClickHouse connectors, except for the
  reservations the engine takes from them. The contract files and their compiler, the plan report, the text reports,
  the command line and the wiring in \<open>application.py\<close>. Of the persistence layer: binding an input cut to an attempt,
  publishing completed and partial comparisons, ClickHouse closure evidence, the pages of results and of the
  history, the registration of contracts and the migrations. The version bits of a UUID and the recursion limit of
  the JSON reader are not modelled.
\<close>

end
